(* ===== verification/Prelude.thy ===== *)
theory Prelude
  imports Main "HOL-Library.Word" "HOL-Library.Multiset"
begin

text \<open>
  What the components of the development share: the machine types of the C++ sources, the
  model of an environment that answers calls, and generic lemmas on lists and words.
\<close>

section \<open>Types\<close>

type_synonym u8 = "8 word"
type_synonym u16 = "16 word"
type_synonym u32 = "32 word"
type_synonym u64 = "64 word"
type_synonym i32 = "32 word"

text \<open>
  An address in the C heap; \<open>0\<close> is the null pointer.
\<close>

type_synonym ptr = nat

abbreviation (input) NULL :: ptr where "NULL \<equiv> 0"

text \<open>
  The environment of a component (the modem interface, the kernel, a callback of another
  process): a function that answers a call, given the calls made before it. Every environment
  whose answers depend on the history of the calls is of this form.
\<close>

type_synonym ('c, 'r) world = "'c list \<Rightarrow> 'c \<Rightarrow> 'r"

section \<open>Generic lemmas\<close>

lemma find_Some_mem: "find P xs = Some x \<Longrightarrow> x \<in> set xs \<and> P x"
  by (auto simp: find_Some_iff)

lemma distinct_map_filter_key:
  "distinct (map f xs) \<Longrightarrow> distinct (map f (filter P xs))"
  by (induction xs) auto

text \<open>Testing a bit of a word with a mask.\<close>

lemma and_exp_test: "and (2 ^ k) x \<noteq> 0 \<longleftrightarrow> bit x k" if "k < LENGTH('a)" for x :: "'a::len word"
proof -
  have "bit (and (2 ^ k) x) i \<longleftrightarrow> i = k \<and> bit x k" for i
    using that by (auto simp: bit_simps)
  then show ?thesis by (metis bit_eqI bit_0_eq bot_apply bot_bool_def)
qed

end
