(* ===== verification/Loc_Heap.thy ===== *)
theory Loc_Heap
  imports Prelude
begin

text \<open>
  The ranked heap of \<open>gps/utils/LocHeap.cpp\<close>: a binary tree whose root ranks at least as high
  as every element below it. A node is a constructor term, a pointer to a node that may be NULL
  is an \<open>option\<close>, and the \<open>LocRankable\<close> objects the client owns are values of a type
  \<open>'a\<close> whose equality is the equality of their addresses. The virtual method
  \<open>ranks\<close> is an argument.
\<close>

section \<open>Nodes\<close>

datatype 'a LocHeapNode =
  LocHeapNode (mSize: int) (mLeft: "'a LocHeapNode option")
    (mRight: "'a LocHeapNode option") (mData: 'a)

definition outRanks :: "('a \<Rightarrow> 'a \<Rightarrow> int) \<Rightarrow> 'a \<Rightarrow> 'a \<Rightarrow> bool" where
  "outRanks ranks a b \<longleftrightarrow> ranks a b > 0"

definition LocHeapNode_new :: "'a \<Rightarrow> 'a LocHeapNode" where
  "LocHeapNode_new data = LocHeapNode 1 None None data"

fun setData :: "'a LocHeapNode \<Rightarrow> 'a \<Rightarrow> 'a LocHeapNode" where
  "setData (LocHeapNode s l r d) d' = LocHeapNode s l r d'"

text \<open>\<open>swap\<close> exchanges the data of two nodes; the links stay.\<close>

definition LocHeapNode_swap ::
  "'a LocHeapNode \<Rightarrow> 'a LocHeapNode \<Rightarrow> 'a LocHeapNode \<times> 'a LocHeapNode" where
  "LocHeapNode_swap self node = (setData self (mData node), setData node (mData self))"

fun LocHeapNode_push ::
  "('a \<Rightarrow> 'a \<Rightarrow> int) \<Rightarrow> 'a LocHeapNode \<Rightarrow> 'a LocHeapNode \<Rightarrow> 'a LocHeapNode" where
  "LocHeapNode_push ranks (LocHeapNode s l r d) node =
     (let self = LocHeapNode s l r d;
          (self', node') = (if outRanks ranks (mData node) (mData self)
                            then LocHeapNode_swap self node else (self, node));
          d' = mData self'
      in case l of
           None \<Rightarrow> LocHeapNode (s + 1) (Some node') r d'
         | Some ln \<Rightarrow>
             (case r of
                None \<Rightarrow> LocHeapNode (s + 1) l (Some node') d'
              | Some rn \<Rightarrow>
                  if mSize ln \<le> mSize rn
                  then LocHeapNode (s + 1) (Some (LocHeapNode_push ranks ln node')) r d'
                  else LocHeapNode (s + 1) l (Some (LocHeapNode_push ranks rn node')) d'))"

lemma size_setData [simp]: "size (setData n d) = size n"
  by (cases n) simp

lemma setData_sel [simp]:
  "mSize (setData n d) = mSize n" "mLeft (setData n d) = mLeft n"
  "mRight (setData n d) = mRight n" "mData (setData n d) = d"
  by (cases n; simp)+

text \<open>
  \<open>pop (LocHeapNode*& top)\<close>: the pair of the pointer \<open>top\<close> after the call and the node
  that was taken off the tree.
\<close>

function LocHeapNode_pop ::
  "('a \<Rightarrow> 'a \<Rightarrow> int) \<Rightarrow> 'a LocHeapNode \<Rightarrow> 'a LocHeapNode option \<times> 'a LocHeapNode" where
  "LocHeapNode_pop ranks (LocHeapNode s l r d) =
     (case l of
        None \<Rightarrow>
          (case r of
             None \<Rightarrow> (None, LocHeapNode (s - 1) l r d)
           | Some rn \<Rightarrow>
               let (sub, popped) = LocHeapNode_pop ranks (setData rn d)
               in (Some (LocHeapNode (s - 1) l sub (mData rn)), popped))
      | Some ln \<Rightarrow>
          (case r of
             None \<Rightarrow>
               let (sub, popped) = LocHeapNode_pop ranks (setData ln d)
               in (Some (LocHeapNode (s - 1) sub r (mData ln)), popped)
           | Some rn \<Rightarrow>
               if outRanks ranks (mData ln) (mData rn)
               then let (sub, popped) = LocHeapNode_pop ranks (setData ln d)
                    in (Some (LocHeapNode (s - 1) sub r (mData ln)), popped)
               else let (sub, popped) = LocHeapNode_pop ranks (setData rn d)
                    in (Some (LocHeapNode (s - 1) l sub (mData rn)), popped)))"
  by pat_completeness auto
termination
  by (relation "measure (\<lambda>(_, n). size n)") auto

text \<open>
  \<open>remove (LocHeapNode*& top, LocRankable& data)\<close>: the search is by address, and skips the
  subtrees of a node that \<open>data\<close> outranks.
\<close>

fun LocHeapNode_remove ::
  "('a \<Rightarrow> 'a \<Rightarrow> int) \<Rightarrow> 'a LocHeapNode \<Rightarrow> 'a \<Rightarrow> 'a LocHeapNode option \<times> 'a LocHeapNode option" where
  "LocHeapNode_remove ranks (LocHeapNode s l r d) data =
     (if data = d then
        (let (top, popped) = LocHeapNode_pop ranks (LocHeapNode s l r d) in (top, Some popped))
      else if \<not> outRanks ranks data d then
        (let (l', removed) =
               (case l of None \<Rightarrow> (None, None) | Some ln \<Rightarrow> LocHeapNode_remove ranks ln data)
         in case removed of
              Some n \<Rightarrow> (Some (LocHeapNode (s - 1) l' r d), Some n)
            | None \<Rightarrow>
                (let (r', removed') =
                       (case r of None \<Rightarrow> (None, None) | Some rn \<Rightarrow> LocHeapNode_remove ranks rn data)
                 in case removed' of
                      Some n \<Rightarrow> (Some (LocHeapNode (s - 1) l' r' d), Some n)
                    | None \<Rightarrow> (Some (LocHeapNode s l' r' d), None)))
      else (Some (LocHeapNode s l r d), None))"

fun checkNodes :: "('a \<Rightarrow> 'a \<Rightarrow> int) \<Rightarrow> 'a LocHeapNode \<Rightarrow> bool" where
  "checkNodes ranks (LocHeapNode s l r d) =
     ((case l of None \<Rightarrow> True
       | Some ln \<Rightarrow> \<not> outRanks ranks (mData ln) d \<and> checkNodes ranks ln) \<and>
      (case r of None \<Rightarrow> True
       | Some rn \<Rightarrow> \<not> outRanks ranks (mData rn) d \<and> checkNodes ranks rn) \<and>
      s - (case l of None \<Rightarrow> 0 | Some ln \<Rightarrow> mSize ln)
        - (case r of None \<Rightarrow> 0 | Some rn \<Rightarrow> mSize rn) = 1)"

section \<open>The heap\<close>

type_synonym 'a LocHeap = "'a LocHeapNode option"

definition LocHeap_push :: "('a \<Rightarrow> 'a \<Rightarrow> int) \<Rightarrow> 'a LocHeap \<Rightarrow> 'a \<Rightarrow> 'a LocHeap" where
  "LocHeap_push ranks mTree node =
     (let heapNode = LocHeapNode_new node
      in case mTree of None \<Rightarrow> Some heapNode
         | Some t \<Rightarrow> Some (LocHeapNode_push ranks t heapNode))"

definition LocHeap_peek :: "'a LocHeap \<Rightarrow> 'a option" where
  "LocHeap_peek mTree = (case mTree of None \<Rightarrow> None | Some t \<Rightarrow> Some (mData t))"

definition LocHeap_pop :: "('a \<Rightarrow> 'a \<Rightarrow> int) \<Rightarrow> 'a LocHeap \<Rightarrow> 'a LocHeap \<times> 'a option" where
  "LocHeap_pop ranks mTree =
     (case mTree of None \<Rightarrow> (None, None)
      | Some t \<Rightarrow> (let (t', popped) = LocHeapNode_pop ranks t in (t', Some (mData popped))))"

definition LocHeap_remove ::
  "('a \<Rightarrow> 'a \<Rightarrow> int) \<Rightarrow> 'a LocHeap \<Rightarrow> 'a \<Rightarrow> 'a LocHeap \<times> 'a option" where
  "LocHeap_remove ranks mTree rankable =
     (case mTree of None \<Rightarrow> (None, None)
      | Some t \<Rightarrow> (let (t', removed) = LocHeapNode_remove ranks t rankable
                 in (t', map_option mData removed)))"

definition checkTree :: "('a \<Rightarrow> 'a \<Rightarrow> int) \<Rightarrow> 'a LocHeap \<Rightarrow> bool" where
  "checkTree ranks mTree = (case mTree of None \<Rightarrow> True | Some t \<Rightarrow> checkNodes ranks t)"

definition getTreeSize :: "'a LocHeap \<Rightarrow> int" where
  "getTreeSize mTree = (case mTree of None \<Rightarrow> 0 | Some t \<Rightarrow> mSize t)"

section \<open>Contents, sizes and shape\<close>

text \<open>
  The multiset of the objects of a tree, its number of levels, and the balance that \<open>push\<close>
  aims at: the left subtree has as many nodes as the right one, or one more.
\<close>

fun node_mset :: "'a LocHeapNode \<Rightarrow> 'a multiset" where
  "node_mset (LocHeapNode s l r d) =
     add_mset d ((case l of None \<Rightarrow> {#} | Some ln \<Rightarrow> node_mset ln) +
                 (case r of None \<Rightarrow> {#} | Some rn \<Rightarrow> node_mset rn))"

definition heap_mset :: "'a LocHeap \<Rightarrow> 'a multiset" where
  "heap_mset mTree = (case mTree of None \<Rightarrow> {#} | Some t \<Rightarrow> node_mset t)"

fun node_height :: "'a LocHeapNode \<Rightarrow> nat" where
  "node_height (LocHeapNode s l r d) =
     Suc (max (case l of None \<Rightarrow> 0 | Some ln \<Rightarrow> node_height ln)
              (case r of None \<Rightarrow> 0 | Some rn \<Rightarrow> node_height rn))"

definition heap_height :: "'a LocHeap \<Rightarrow> nat" where
  "heap_height mTree = (case mTree of None \<Rightarrow> 0 | Some t \<Rightarrow> node_height t)"

fun node_balanced :: "'a LocHeapNode \<Rightarrow> bool" where
  "node_balanced (LocHeapNode s l r d) =
     ((case l of None \<Rightarrow> True | Some ln \<Rightarrow> node_balanced ln) \<and>
      (case r of None \<Rightarrow> True | Some rn \<Rightarrow> node_balanced rn) \<and>
      (let nl = size (case l of None \<Rightarrow> {#} | Some ln \<Rightarrow> node_mset ln);
           nr = size (case r of None \<Rightarrow> {#} | Some rn \<Rightarrow> node_mset rn)
       in nl = nr \<or> nl = Suc nr))"

definition heap_balanced :: "'a LocHeap \<Rightarrow> bool" where
  "heap_balanced mTree = (case mTree of None \<Rightarrow> True | Some t \<Rightarrow> node_balanced t)"

lemmas heap_defs = LocHeap_push_def LocHeap_peek_def LocHeap_pop_def LocHeap_remove_def
  checkTree_def getTreeSize_def heap_mset_def heap_height_def heap_balanced_def

lemma heap_mset_simps [simp]:
  "heap_mset None = {#}" "heap_mset (Some t) = node_mset t"
  by (simp_all add: heap_mset_def)

lemma node_mset_eq:
  "node_mset (LocHeapNode s l r d) = add_mset d (heap_mset l + heap_mset r)"
  by (simp add: heap_mset_def)

lemma checkTree_simps [simp]:
  "checkTree ranks None" "checkTree ranks (Some t) = checkNodes ranks t"
  by (simp_all add: checkTree_def)

lemma getTreeSize_simps [simp]:
  "getTreeSize None = 0" "getTreeSize (Some t) = mSize t"
  by (simp_all add: getTreeSize_def)

text \<open>Consistency of a node, by its subtrees.\<close>

lemma checkNodes_eq:
  "checkNodes ranks (LocHeapNode s l r d) \<longleftrightarrow>
     checkTree ranks l \<and> checkTree ranks r \<and>
     (\<forall>n. l = Some n \<longrightarrow> \<not> outRanks ranks (mData n) d) \<and>
     (\<forall>n. r = Some n \<longrightarrow> \<not> outRanks ranks (mData n) d) \<and>
     s = 1 + getTreeSize l + getTreeSize r"
  by (auto split: option.splits)

lemma node_mset_nonempty [simp]: "node_mset n \<noteq> {#}"
  by (cases n) simp

lemma mData_in_node_mset [simp]: "mData n \<in># node_mset n"
  by (cases n) simp

lemma node_mset_setData:
  "node_mset (setData n d) = add_mset d (node_mset n - {#mData n#})"
  by (cases n) simp

lemma LocHeapNode_new_simps [simp]:
  "mData (LocHeapNode_new d) = d" "mSize (LocHeapNode_new d) = 1"
  "node_mset (LocHeapNode_new d) = {#d#}" "setData (LocHeapNode_new d) e = LocHeapNode_new e"
  "checkNodes ranks (LocHeapNode_new d)" "node_balanced (LocHeapNode_new d)"
  by (simp_all add: LocHeapNode_new_def)

text \<open>The stored sizes are the numbers of nodes, whatever the ranking.\<close>

lemma checkNodes_size: "checkNodes ranks n \<Longrightarrow> mSize n = int (size (node_mset n))"
  by (induction ranks n rule: checkNodes.induct) (auto split: option.splits)

subsection \<open>push\<close>

lemma LocHeapNode_push_mset:
  "node_mset (LocHeapNode_push ranks n node) = node_mset n + node_mset node"
proof (induction ranks n node rule: LocHeapNode_push.induct)
  case (1 ranks s l r d node)
  show ?case
    using "1.IH"[OF refl refl]
    by (cases node)
      (auto simp: Let_def LocHeapNode_swap_def split: option.splits prod.splits if_splits)
qed

lemma push_new_eq:
  "LocHeapNode_push ranks (LocHeapNode s l r d) (LocHeapNode_new e) =
     (let hi = (if outRanks ranks e d then e else d); lo = (if outRanks ranks e d then d else e)
      in case l of
           None \<Rightarrow> LocHeapNode (s + 1) (Some (LocHeapNode_new lo)) r hi
         | Some ln \<Rightarrow>
             (case r of
                None \<Rightarrow> LocHeapNode (s + 1) l (Some (LocHeapNode_new lo)) hi
              | Some rn \<Rightarrow>
                  if mSize ln \<le> mSize rn
                  then LocHeapNode (s + 1) (Some (LocHeapNode_push ranks ln (LocHeapNode_new lo))) r hi
                  else LocHeapNode (s + 1) l (Some (LocHeapNode_push ranks rn (LocHeapNode_new lo))) hi))"
  by (auto simp: Let_def LocHeapNode_swap_def split: option.splits)

declare LocHeapNode_push.simps [simp del]

lemma push_new_mData:
  "mData (LocHeapNode_push ranks n (LocHeapNode_new e)) =
     (if outRanks ranks e (mData n) then e else mData n)"
  by (cases n) (auto simp: push_new_eq Let_def split: option.splits)

lemma push_new_mSize: "mSize (LocHeapNode_push ranks n (LocHeapNode_new e)) = mSize n + 1"
  by (cases n) (auto simp: push_new_eq Let_def split: option.splits)

subsection \<open>pop\<close>

lemma pop_mData: "mData (snd (LocHeapNode_pop ranks n)) = mData n"
  by (induction ranks n rule: LocHeapNode_pop.induct)
    (auto simp: case_prod_beta split: option.splits)

lemma pop_setData: "fst (LocHeapNode_pop ranks (setData n d)) = fst (LocHeapNode_pop ranks n)"
proof (induction "size n" arbitrary: n d rule: less_induct)
  case less
  show ?case
  proof (cases n)
    case (LocHeapNode s l r e)
    have "r = Some rn \<Longrightarrow>
        fst (LocHeapNode_pop ranks (setData rn d)) = fst (LocHeapNode_pop ranks (setData rn e))" for rn
      using less[of rn d] less[of rn e] LocHeapNode by simp
    moreover have "l = Some ln \<Longrightarrow>
        fst (LocHeapNode_pop ranks (setData ln d)) = fst (LocHeapNode_pop ranks (setData ln e))" for ln
      using less[of ln d] less[of ln e] LocHeapNode by simp
    ultimately show ?thesis
      using LocHeapNode by (auto simp: Let_def split: option.splits prod.splits)
  qed
qed

text \<open>\<open>pop\<close> on the tree that is left: the data of the popped root plays no part in it.\<close>

lemma pop_fst_eq:
  "fst (LocHeapNode_pop ranks (LocHeapNode s l r d)) =
     (case l of
        None \<Rightarrow> (case r of None \<Rightarrow> None
                | Some rn \<Rightarrow> Some (LocHeapNode (s - 1) l (fst (LocHeapNode_pop ranks rn)) (mData rn)))
      | Some ln \<Rightarrow>
          (case r of
             None \<Rightarrow> Some (LocHeapNode (s - 1) (fst (LocHeapNode_pop ranks ln)) r (mData ln))
           | Some rn \<Rightarrow>
               if outRanks ranks (mData ln) (mData rn)
               then Some (LocHeapNode (s - 1) (fst (LocHeapNode_pop ranks ln)) r (mData ln))
               else Some (LocHeapNode (s - 1) l (fst (LocHeapNode_pop ranks rn)) (mData rn))))"
  using pop_setData[of ranks "the r" d] pop_setData[of ranks "the l" d]
  by (auto simp: Let_def split: option.splits prod.splits)

declare LocHeapNode_pop.simps [simp del]

lemma pop_mset_add:
  "add_mset (mData n) (heap_mset (fst (LocHeapNode_pop ranks n))) = node_mset n"
proof (induction n rule: node_mset.induct)
  case (1 s l r d)
  have L: "add_mset (mData ln) (heap_mset (fst (LocHeapNode_pop ranks ln))) = node_mset ln"
    if "l = Some ln" for ln
    using that "1.IH"(1) by simp
  have R: "add_mset (mData rn) (heap_mset (fst (LocHeapNode_pop ranks rn))) = node_mset rn"
    if "r = Some rn" for rn
    using that "1.IH"(2) by simp
  show ?case
    by (auto simp: pop_fst_eq node_mset_eq L R simp del: node_mset.simps split: option.splits)
qed

lemma pop_mset: "heap_mset (fst (LocHeapNode_pop ranks n)) = node_mset n - {#mData n#}"
  by (simp add: pop_mset_add[of n ranks, symmetric])

lemma pop_getTreeSize:
  "checkNodes ranks n \<Longrightarrow> getTreeSize (fst (LocHeapNode_pop ranks n)) = mSize n - 1"
  by (cases n) (auto simp: pop_fst_eq checkNodes_eq simp del: checkNodes.simps
      split: option.splits)

lemma pop_None_iff: "fst (LocHeapNode_pop ranks n) = None \<longleftrightarrow> size (node_mset n) = 1"
  using pop_mset[of ranks n]
  by (cases n) (auto simp: pop_fst_eq split: option.splits if_splits)

subsection \<open>remove\<close>

text \<open>A search that fails leaves the tree as it is.\<close>

lemma remove_None: "snd (LocHeapNode_remove ranks n x) = None \<Longrightarrow> fst (LocHeapNode_remove ranks n x) = Some n"
  by (induction n rule: node_mset.induct)
    (auto simp: case_prod_beta split: option.splits if_splits)

definition remove_sub ::
  "('a \<Rightarrow> 'a \<Rightarrow> int) \<Rightarrow> 'a LocHeap \<Rightarrow> 'a \<Rightarrow> 'a LocHeapNode option \<times> 'a LocHeapNode option" where
  "remove_sub ranks t x = (case t of None \<Rightarrow> (None, None) | Some n \<Rightarrow> LocHeapNode_remove ranks n x)"

lemma remove_sub_None: "snd (remove_sub ranks t x) = None \<Longrightarrow> fst (remove_sub ranks t x) = t"
  by (auto simp: remove_sub_def remove_None split: option.splits)

lemma remove_eq:
  "LocHeapNode_remove ranks (LocHeapNode s l r d) x =
     (if x = d then (fst (LocHeapNode_pop ranks (LocHeapNode s l r d)),
                     Some (snd (LocHeapNode_pop ranks (LocHeapNode s l r d))))
      else if outRanks ranks x d then (Some (LocHeapNode s l r d), None)
      else case snd (remove_sub ranks l x) of
             Some p \<Rightarrow> (Some (LocHeapNode (s - 1) (fst (remove_sub ranks l x)) r d), Some p)
           | None \<Rightarrow>
               (case snd (remove_sub ranks r x) of
                  Some p \<Rightarrow> (Some (LocHeapNode (s - 1) l (fst (remove_sub ranks r x)) d), Some p)
                | None \<Rightarrow> (Some (LocHeapNode s l r d), None)))"
  using remove_sub_None[of ranks l x] remove_sub_None[of ranks r x]
  by (simp add: case_prod_beta remove_sub_def[symmetric] split: option.split)

declare LocHeapNode_remove.simps [simp del]

lemma remove_Some:
  "snd (LocHeapNode_remove ranks n x) = Some p \<Longrightarrow>
   mData p = x \<and> add_mset x (heap_mset (fst (LocHeapNode_remove ranks n x))) = node_mset n"
proof (induction n arbitrary: p rule: node_mset.induct)
  case (1 s l r d)
  have sub: "mData p = x \<and> add_mset x (heap_mset (fst (remove_sub ranks t x))) = heap_mset t"
    if "t = l \<or> t = r" "snd (remove_sub ranks t x) = Some p" for t p
    using that "1.IH" by (auto simp: remove_sub_def split: option.splits)
  show ?case
    using "1.prems" sub[of l] sub[of r] pop_mset_add[of "LocHeapNode s l r d" ranks]
      pop_mData[of ranks "LocHeapNode s l r d"]
    by (fastforce simp: remove_eq node_mset_eq simp del: node_mset.simps
        split: if_splits option.splits)
qed

lemma remove_getTreeSize:
  assumes "checkNodes ranks n"
  shows "getTreeSize (fst (LocHeapNode_remove ranks n x)) =
     mSize n - (if snd (LocHeapNode_remove ranks n x) = None then 0 else 1)"
  using assms
  by (cases n) (auto simp: remove_eq pop_getTreeSize split: option.splits)

section \<open>The contract of LocRankable\<close>

text \<open>
  \<open>ranks\<close> orders the objects the client puts into a heap (those with \<open>valid\<close>): an object
  does not outrank itself, and not being outranked is transitive. It is a strict weak order:
  objects of equal rank are allowed.
\<close>

locale ranked =
  fixes ranks :: "'a \<Rightarrow> 'a \<Rightarrow> int" and valid :: "'a \<Rightarrow> bool"
  assumes outRanks_asym: "valid x \<Longrightarrow> valid y \<Longrightarrow> outRanks ranks x y \<Longrightarrow> \<not> outRanks ranks y x"
    and not_outRanks_trans: "valid x \<Longrightarrow> valid y \<Longrightarrow> valid z \<Longrightarrow>
      \<not> outRanks ranks x y \<Longrightarrow> \<not> outRanks ranks y z \<Longrightarrow> \<not> outRanks ranks x z"
begin

definition all_valid :: "'a LocHeapNode \<Rightarrow> bool" where
  "all_valid n \<longleftrightarrow> (\<forall>x \<in># node_mset n. valid x)"

lemma outRanks_irrefl: "valid x \<Longrightarrow> \<not> outRanks ranks x x"
  using outRanks_asym by blast

lemma all_valid_simps [simp]:
  "all_valid (LocHeapNode s l r d) \<longleftrightarrow> valid d \<and>
     (case l of None \<Rightarrow> True | Some ln \<Rightarrow> all_valid ln) \<and>
     (case r of None \<Rightarrow> True | Some rn \<Rightarrow> all_valid rn)"
  by (auto simp: all_valid_def split: option.splits)

lemma all_valid_mData: "all_valid n \<Longrightarrow> valid (mData n)"
  by (cases n) simp

text \<open>The root of a consistent tree is not outranked by anything in the tree.\<close>

lemma top_highest:
  "checkNodes ranks n \<Longrightarrow> all_valid n \<Longrightarrow> x \<in># node_mset n \<Longrightarrow> \<not> outRanks ranks x (mData n)"
proof (induction n arbitrary: x rule: node_mset.induct)
  case (1 s l r d)
  have below: "\<not> outRanks ranks x d"
    if c: "c = Some cn" and x: "x \<in># node_mset cn" and "c = l \<or> c = r" for c cn
  proof -
    from that 1 have "\<not> outRanks ranks x (mData cn)" "\<not> outRanks ranks (mData cn) d"
        "valid x" "valid (mData cn)" "valid d"
      by (auto simp: all_valid_def)
    then show ?thesis using not_outRanks_trans by blast
  qed
  from "1.prems" show ?case
    by (auto dest: outRanks_irrefl below split: option.splits)
qed

lemma push_checkNodes:
  "checkNodes ranks n \<Longrightarrow> all_valid n \<Longrightarrow> valid e \<Longrightarrow>
   checkNodes ranks (LocHeapNode_push ranks n (LocHeapNode_new e))"
proof (induction n arbitrary: e rule: node_mset.induct)
  case (1 s l r d)
  define hi where "hi = (if outRanks ranks e d then e else d)"
  define lo where "lo = (if outRanks ranks e d then d else e)"
  have v: "valid hi" "valid lo" "valid d" and lohi: "\<not> outRanks ranks lo hi"
    using "1.prems" outRanks_asym by (auto simp: hi_def lo_def)
  have dhi: "\<not> outRanks ranks d hi"
    using "1.prems" outRanks_asym outRanks_irrefl by (auto simp: hi_def)
  have child: "\<not> outRanks ranks (mData cn) hi \<and> checkNodes ranks cn \<and> all_valid cn"
    if "l = Some cn \<or> r = Some cn" for cn
    using that "1.prems" not_outRanks_trans[OF _ v(3,1) _ dhi] all_valid_mData[of cn] by auto
  have sub: "checkNodes ranks (LocHeapNode_push ranks cn (LocHeapNode_new lo)) \<and>
      \<not> outRanks ranks (mData (LocHeapNode_push ranks cn (LocHeapNode_new lo))) hi"
    if "l = Some cn \<or> r = Some cn" for cn
    using that child[OF that] "1.IH" v(2) lohi by (auto simp: push_new_mData)
  show ?case
    using "1.prems" child sub lohi
    by (auto simp: push_new_eq push_new_mSize Let_def hi_def[symmetric] lo_def[symmetric]
        split: option.splits)
qed

lemma pop_top_in: "fst (LocHeapNode_pop ranks n) = Some t \<Longrightarrow> mData t \<in># node_mset n"
  using pop_mset[of ranks n] by (metis heap_mset_simps(2) in_diffD mData_in_node_mset)

lemma pop_not_outRanks:
  "checkNodes ranks n \<Longrightarrow> all_valid n \<Longrightarrow> fst (LocHeapNode_pop ranks n) = Some t \<Longrightarrow>
   \<not> outRanks ranks (mData t) (mData n)"
  using top_highest pop_top_in by blast

lemma pop_checkNodes:
  "checkNodes ranks n \<Longrightarrow> all_valid n \<Longrightarrow> checkTree ranks (fst (LocHeapNode_pop ranks n))"
proof (induction n rule: node_mset.induct)
  case (1 s l r d)
  have sub: "checkTree ranks (fst (LocHeapNode_pop ranks cn))"
      "getTreeSize (fst (LocHeapNode_pop ranks cn)) = mSize cn - 1"
      "\<And>t. fst (LocHeapNode_pop ranks cn) = Some t \<Longrightarrow> \<not> outRanks ranks (mData t) (mData cn)"
    if "l = Some cn \<or> r = Some cn" for cn
    using that "1.prems" "1.IH" pop_getTreeSize[of ranks cn] pop_not_outRanks[of cn]
    by (auto simp: checkNodes_eq simp del: checkNodes.simps)
  have asym: "\<not> outRanks ranks (mData rn) (mData ln)"
    if "l = Some ln" "r = Some rn" "outRanks ranks (mData ln) (mData rn)" for ln rn
    using that "1.prems" outRanks_asym all_valid_mData by auto
  have new_top: "checkNodes ranks (LocHeapNode (s - 1) (fst (LocHeapNode_pop ranks cn)) r (mData cn))"
    if "l = Some cn" and "\<And>rn. r = Some rn \<Longrightarrow> \<not> outRanks ranks (mData rn) (mData cn)" for cn
    using that "1.prems" sub[of cn] unfolding checkNodes_eq by simp
  have new_top': "checkNodes ranks (LocHeapNode (s - 1) l (fst (LocHeapNode_pop ranks cn)) (mData cn))"
    if "r = Some cn" and "\<And>ln. l = Some ln \<Longrightarrow> \<not> outRanks ranks (mData ln) (mData cn)" for cn
    using that "1.prems" sub[of cn] unfolding checkNodes_eq by simp
  show ?case
  proof (cases "\<exists>cn. l = Some cn \<and> (\<forall>rn. r = Some rn \<longrightarrow> outRanks ranks (mData cn) (mData rn))")
    case True
    then obtain cn where cn: "l = Some cn" "\<And>rn. r = Some rn \<Longrightarrow> outRanks ranks (mData cn) (mData rn)"
      by blast
    then have "fst (LocHeapNode_pop ranks (LocHeapNode s l r d)) =
        Some (LocHeapNode (s - 1) (fst (LocHeapNode_pop ranks cn)) r (mData cn))"
      by (simp add: pop_fst_eq split: option.split)
    with new_top[OF cn(1)] asym cn show ?thesis by simp
  next
    case False
    show ?thesis
    proof (cases r)
      case None
      with False have "l = None" by (cases l) auto
      with None show ?thesis by (simp add: pop_fst_eq)
    next
      case (Some rn)
      with False have ln: "\<not> outRanks ranks (mData ln) (mData rn)" if "l = Some ln" for ln
        using that by auto
      with Some have "fst (LocHeapNode_pop ranks (LocHeapNode s l r d)) =
          Some (LocHeapNode (s - 1) l (fst (LocHeapNode_pop ranks rn)) (mData rn))"
        by (simp add: pop_fst_eq split: option.split)
      with new_top'[OF Some ln] show ?thesis by simp
    qed
  qed
qed

lemma remove_not_outRanks:
  "checkNodes ranks n \<Longrightarrow> all_valid n \<Longrightarrow> fst (LocHeapNode_remove ranks n x) = Some t \<Longrightarrow>
   \<not> outRanks ranks (mData t) (mData n)"
proof -
  assume a: "checkNodes ranks n" "all_valid n" "fst (LocHeapNode_remove ranks n x) = Some t"
  have "node_mset t \<subseteq># node_mset n"
    using a(3) remove_None[of ranks n x] remove_Some[of ranks n x]
    by (cases "snd (LocHeapNode_remove ranks n x)") (auto, metis mset_subset_eq_add_mset_cancel
        subset_mset.order_refl mset_subset_eq_insertD subset_mset.less_imp_le)
  then have "mData t \<in># node_mset n" using mData_in_node_mset by (rule mset_subset_eqD)
  with a show ?thesis using top_highest by blast
qed

lemma remove_checkNodes:
  "checkNodes ranks n \<Longrightarrow> all_valid n \<Longrightarrow> checkTree ranks (fst (LocHeapNode_remove ranks n x))"
proof (induction n rule: node_mset.induct)
  case (1 s l r d)
  have sub: "checkTree ranks (fst (remove_sub ranks t x)) \<and>
      getTreeSize (fst (remove_sub ranks t x)) = getTreeSize t - 1 \<and>
      (\<forall>n. fst (remove_sub ranks t x) = Some n \<longrightarrow> \<not> outRanks ranks (mData n) d)"
    if t: "t = l \<or> t = r" and p: "snd (remove_sub ranks t x) = Some p" for t p
  proof -
    from p obtain n where n: "t = Some n" by (cases t) (auto simp: remove_sub_def)
    with t "1.prems" have ok: "checkNodes ranks n" "all_valid n" "\<not> outRanks ranks (mData n) d" "valid d"
      by auto
    have "\<not> outRanks ranks (mData m) d" if "fst (LocHeapNode_remove ranks n x) = Some m" for m
    proof -
      have "mData m \<in># node_mset n"
        using that p n remove_Some[of ranks n x]
        by (auto simp: remove_sub_def) (metis insert_noteq_member mData_in_node_mset insertI2 set_mset_add_mset_insert)
      then have "valid (mData m)" "\<not> outRanks ranks (mData m) (mData n)" "valid (mData n)"
        using ok top_highest by (auto simp: all_valid_def)
      then show ?thesis using ok not_outRanks_trans by blast
    qed
    then show ?thesis
      using t p n ok "1.IH" remove_getTreeSize[OF ok(1), of x] by (auto simp: remove_sub_def)
  qed
  show ?case
    using "1.prems" sub[of l] sub[of r] pop_checkNodes[of "LocHeapNode s l r d"]
    by (auto simp: remove_eq checkNodes_eq simp del: checkNodes.simps split: option.splits)
qed

text \<open>An object of a consistent tree is found: the subtrees that are skipped cannot hold it.\<close>

lemma remove_finds:
  "checkNodes ranks n \<Longrightarrow> all_valid n \<Longrightarrow> x \<in># node_mset n \<Longrightarrow>
   snd (LocHeapNode_remove ranks n x) \<noteq> None"
proof (induction n rule: node_mset.induct)
  case (1 s l r d)
  have top: "\<not> outRanks ranks x d"
    using top_highest[OF "1.prems"] by simp
  have found: "snd (remove_sub ranks t x) \<noteq> None" if "t = l \<or> t = r" "x \<in># heap_mset t" for t
    using that "1.prems" "1.IH" by (cases t) (auto simp: remove_sub_def)
  from found[of l] found[of r] top "1.prems"(3) show ?case
    by (auto simp: remove_eq node_mset_eq simp del: node_mset.simps split: option.splits)
qed

text \<open>The operations of the heap, on a tree that may be empty.\<close>

lemma all_valid_iff: "all_valid n \<longleftrightarrow> (\<forall>x \<in># heap_mset (Some n). valid x)"
  by (simp add: all_valid_def)

lemma LocHeap_push_checkTree:
  "checkTree ranks t \<Longrightarrow> \<forall>x \<in># heap_mset t. valid x \<Longrightarrow> valid e \<Longrightarrow> checkTree ranks (LocHeap_push ranks t e)"
  by (cases t) (auto simp: LocHeap_push_def all_valid_iff push_checkNodes)

lemma LocHeap_pop_checkTree:
  "checkTree ranks t \<Longrightarrow> \<forall>x \<in># heap_mset t. valid x \<Longrightarrow> checkTree ranks (fst (LocHeap_pop ranks t))"
  by (cases t) (auto simp: LocHeap_pop_def case_prod_beta all_valid_iff pop_checkNodes)

lemma LocHeap_remove_checkTree:
  "checkTree ranks t \<Longrightarrow> \<forall>x \<in># heap_mset t. valid x \<Longrightarrow> checkTree ranks (fst (LocHeap_remove ranks t e))"
  by (cases t) (auto simp: LocHeap_remove_def case_prod_beta all_valid_iff remove_checkNodes)

lemma LocHeap_peek_highest:
  "checkTree ranks t \<Longrightarrow> \<forall>x \<in># heap_mset t. valid x \<Longrightarrow> LocHeap_peek t = Some m \<Longrightarrow>
   x \<in># heap_mset t \<Longrightarrow> \<not> outRanks ranks x m"
  by (cases t) (auto simp: LocHeap_peek_def all_valid_iff top_highest)

lemma LocHeap_remove_finds:
  "checkTree ranks t \<Longrightarrow> \<forall>x \<in># heap_mset t. valid x \<Longrightarrow> x \<in># heap_mset t \<Longrightarrow>
   snd (LocHeap_remove ranks t x) = Some x"
  using remove_finds[of "the t" x] remove_Some[of ranks "the t" x]
  by (cases t) (auto simp: LocHeap_remove_def case_prod_beta all_valid_iff)

end

subsection \<open>What holds for every ranking\<close>

lemma LocHeap_push_mset: "heap_mset (LocHeap_push ranks t e) = add_mset e (heap_mset t)"
  by (cases t) (simp_all add: LocHeap_push_def LocHeapNode_push_mset)

lemma LocHeap_peek_None_iff: "LocHeap_peek t = None \<longleftrightarrow> heap_mset t = {#}"
  by (cases t) (simp_all add: LocHeap_peek_def)

lemma LocHeap_peek_in: "LocHeap_peek t = Some m \<Longrightarrow> m \<in># heap_mset t"
  by (cases t) (auto simp: LocHeap_peek_def)

lemma LocHeap_pop_snd: "snd (LocHeap_pop ranks t) = LocHeap_peek t"
  by (cases t) (simp_all add: LocHeap_pop_def LocHeap_peek_def case_prod_beta pop_mData)

lemma LocHeap_pop_mset:
  "heap_mset t = (case LocHeap_peek t of None \<Rightarrow> {#}
                  | Some m \<Rightarrow> add_mset m (heap_mset (fst (LocHeap_pop ranks t))))"
  by (cases t) (simp_all add: LocHeap_pop_def LocHeap_peek_def case_prod_beta pop_mset_add)

lemma LocHeap_remove_None:
  "snd (LocHeap_remove ranks t x) = None \<Longrightarrow> fst (LocHeap_remove ranks t x) = t"
  by (cases t) (auto simp: LocHeap_remove_def case_prod_beta remove_None)

lemma LocHeap_remove_Some:
  "snd (LocHeap_remove ranks t x) = Some y \<Longrightarrow>
   y = x \<and> heap_mset t = add_mset x (heap_mset (fst (LocHeap_remove ranks t x)))"
  using remove_Some[of ranks "the t" x]
  by (cases t) (auto simp: LocHeap_remove_def case_prod_beta)

text \<open>The object at the top after an insertion or a removal.\<close>

lemma LocHeap_push_peek:
  "LocHeap_peek (LocHeap_push ranks t e) =
     Some (case LocHeap_peek t of None \<Rightarrow> e | Some m \<Rightarrow> if outRanks ranks e m then e else m)"
  by (cases t) (simp_all add: LocHeap_push_def LocHeap_peek_def push_new_mData)

lemma LocHeap_remove_peek:
  "LocHeap_peek t \<noteq> snd (LocHeap_remove ranks t x) \<Longrightarrow>
   LocHeap_peek (fst (LocHeap_remove ranks t x)) = LocHeap_peek t"
proof (cases t)
  case (Some n)
  assume a: "LocHeap_peek t \<noteq> snd (LocHeap_remove ranks t x)"
  show ?thesis
  proof (cases "snd (LocHeapNode_remove ranks n x)")
    case None
    then show ?thesis using remove_None[of ranks n x] by (simp add: Some LocHeap_remove_def case_prod_beta)
  next
    case (Some p)
    obtain s l r d where n: "n = LocHeapNode s l r d" by (cases n)
    have "mData p = x" using remove_Some[OF Some] by simp
    with a Some \<open>t = Some n\<close> have "x \<noteq> d"
      by (auto simp: LocHeap_peek_def LocHeap_remove_def case_prod_beta n)
    with Some \<open>t = Some n\<close> show ?thesis
      by (auto simp: LocHeap_peek_def LocHeap_remove_def case_prod_beta n remove_eq
          split: if_splits option.splits)
  qed
qed (simp add: LocHeap_remove_def LocHeap_peek_def)

section \<open>The contract of the heap\<close>

text \<open>
  What a user of the heap relies on: a multiset of objects with insertion, the highest ranking
  object, its removal, and removal by address. \<open>pops\<close> takes out up to \<open>n\<close> objects.
\<close>

fun pops :: "('q \<Rightarrow> 'q \<times> 'a option) \<Rightarrow> nat \<Rightarrow> 'q \<Rightarrow> 'a list" where
  "pops pop 0 q = []"
| "pops pop (Suc n) q =
     (case pop q of (q', None) \<Rightarrow> [] | (q', Some x) \<Rightarrow> x # pops pop n q')"

locale rank_queue =
  fixes outranks :: "'a \<Rightarrow> 'a \<Rightarrow> bool" and valid :: "'a \<Rightarrow> bool"
    and push :: "'q \<Rightarrow> 'a \<Rightarrow> 'q" and peek :: "'q \<Rightarrow> 'a option"
    and pop :: "'q \<Rightarrow> 'q \<times> 'a option" and remove :: "'q \<Rightarrow> 'a \<Rightarrow> 'q \<times> 'a option"
    and contents :: "'q \<Rightarrow> 'a multiset" and invar :: "'q \<Rightarrow> bool"
  assumes push_contents: "contents (push q x) = add_mset x (contents q)"
    and push_invar: "invar q \<Longrightarrow> valid x \<Longrightarrow> invar (push q x)"
    and peek_None: "peek q = None \<longleftrightarrow> contents q = {#}"
    and peek_highest: "invar q \<Longrightarrow> peek q = Some m \<Longrightarrow> x \<in># contents q \<Longrightarrow> \<not> outranks x m"
    and pop_peek: "snd (pop q) = peek q"
    and pop_contents: "peek q = Some m \<Longrightarrow> contents q = add_mset m (contents (fst (pop q)))"
    and pop_invar: "invar q \<Longrightarrow> invar (fst (pop q))"
    and remove_invar: "invar q \<Longrightarrow> invar (fst (remove q x))"
    and remove_absent: "invar q \<Longrightarrow> x \<notin># contents q \<Longrightarrow> remove q x = (q, None)"
    and remove_present: "invar q \<Longrightarrow> x \<in># contents q \<Longrightarrow>
      snd (remove q x) = Some x \<and> contents q = add_mset x (contents (fst (remove q x)))"
begin

lemma peek_in: "peek q = Some m \<Longrightarrow> m \<in># contents q"
  using pop_contents by (metis union_single_eq_member)

lemma pops_mset: "size (contents q) \<le> n \<Longrightarrow> mset (pops pop n q) = contents q"
proof (induction n arbitrary: q)
  case 0
  then show ?case by simp
next
  case (Suc n)
  show ?case
  proof (cases "peek q")
    case None
    then show ?thesis using peek_None[of q] pop_peek[of q] by (cases "pop q") auto
  next
    case (Some m)
    from pop_contents[OF Some] Suc.prems have "mset (pops pop n (fst (pop q))) = contents (fst (pop q))"
      by (intro Suc.IH) simp
    with Some pop_contents[OF Some] pop_peek[of q] show ?thesis
      by (cases "pop q") auto
  qed
qed

lemma pops_set: "set (pops pop n q) \<subseteq> set_mset (contents q)"
proof (induction n arbitrary: q)
  case (Suc n)
  show ?case
    using Suc.IH[of "fst (pop q)"] pop_peek[of q] pop_contents[of q]
    by (cases "pop q"; cases "peek q") auto
qed simp

text \<open>Objects come out of the queue in the order of their ranks.\<close>

lemma pops_sorted: "invar q \<Longrightarrow> sorted_wrt (\<lambda>x y. \<not> outranks y x) (pops pop n q)"
proof (induction n arbitrary: q)
  case (Suc n)
  show ?case
  proof (cases "peek q")
    case (Some m)
    from pops_set[of n "fst (pop q)"] pop_contents[OF Some]
    have "set (pops pop n (fst (pop q))) \<subseteq> set_mset (contents q)" by auto
    with peek_highest[OF Suc.prems Some] Suc.IH[OF pop_invar[OF Suc.prems]] Some pop_peek[of q]
    show ?thesis by (cases "pop q") auto
  qed (use pop_peek[of q] in \<open>cases "pop q", auto\<close>)
qed simp

lemma remove_snd: "invar q \<Longrightarrow> snd (remove q x) = (if x \<in># contents q then Some x else None)"
  using remove_absent remove_present by auto

lemma remove_contents: "invar q \<Longrightarrow> contents (fst (remove q x)) = contents q - {#x#}"
  using remove_absent[of q x] remove_present[of q x]
  by (cases "x \<in># contents q") (auto simp: diff_single_trivial)

text \<open>Removing anything but the top leaves the top in place, up to equal rank.\<close>

lemma remove_keeps_highest:
  "invar q \<Longrightarrow> peek q = Some m \<Longrightarrow> x \<in># contents (fst (remove q y)) \<Longrightarrow> \<not> outranks x m"
  using peek_highest remove_contents by (metis in_diffD)

end

sublocale ranked \<subseteq> rank_queue "outRanks ranks" valid "LocHeap_push ranks" LocHeap_peek
  "LocHeap_pop ranks" "LocHeap_remove ranks" heap_mset
  "\<lambda>t. checkTree ranks t \<and> (\<forall>x \<in># heap_mset t. valid x)"
proof (unfold_locales, goal_cases)
  case 1 show ?case by (rule LocHeap_push_mset)
next
  case 2 then show ?case by (auto simp: LocHeap_push_checkTree LocHeap_push_mset)
next
  case 3 show ?case by (rule LocHeap_peek_None_iff)
next
  case 4 then show ?case using LocHeap_peek_highest by blast
next
  case 5 show ?case by (rule LocHeap_pop_snd)
next
  case (6 q m) then show ?case using LocHeap_pop_mset[of q ranks] by simp
next
  case (7 q)
  have "set_mset (heap_mset (fst (LocHeap_pop ranks q))) \<subseteq> set_mset (heap_mset q)"
    using LocHeap_pop_mset[of q ranks] by (cases q) (auto simp: LocHeap_pop_def LocHeap_peek_def)
  with 7 show ?case using LocHeap_pop_checkTree[of q] by auto
next
  case (8 q x)
  have "set_mset (heap_mset (fst (LocHeap_remove ranks q x))) \<subseteq> set_mset (heap_mset q)"
    using LocHeap_remove_None[of ranks q x] LocHeap_remove_Some[of ranks q x]
    by (cases "snd (LocHeap_remove ranks q x)") auto
  with 8 show ?case using LocHeap_remove_checkTree[of q] by auto
next
  case (9 q x)
  have "snd (LocHeap_remove ranks q x) = None"
    using 9 LocHeap_remove_Some[of ranks q x]
    by (cases "snd (LocHeap_remove ranks q x)") auto
  then show ?case using LocHeap_remove_None[of ranks q x] by (metis prod.collapse)
next
  case (10 q x)
  then have "snd (LocHeap_remove ranks q x) = Some x" using LocHeap_remove_finds by blast
  then show ?case using LocHeap_remove_Some by metis
qed

section \<open>Balance under push\<close>

lemma push_balanced:
  "node_balanced n \<Longrightarrow> checkNodes ranks n \<Longrightarrow> node_balanced (LocHeapNode_push ranks n (LocHeapNode_new e))"
proof (induction n arbitrary: e rule: node_mset.induct)
  case (1 s l r d)
  show ?case
    using "1.prems" "1.IH" checkNodes_size[of ranks "the l"] checkNodes_size[of ranks "the r"]
    by (auto simp: push_new_eq LocHeapNode_push_mset Let_def split: option.splits)
qed

lemma node_height_bound: "node_balanced n \<Longrightarrow> 2 ^ node_height n \<le> 2 * size (node_mset n)"
proof (induction n rule: node_mset.induct)
  case (1 s l r d)
  have sub: "2 ^ node_height c \<le> 2 * size (node_mset c)" if "l = Some c \<or> r = Some c" for c
    using that 1 by auto
  show ?case
    using "1.prems" sub[of "the l"] sub[of "the r"]
    by (cases l; cases r) (auto simp: Let_def max_def)
qed

section \<open>Properties of the heap\<close>

datatype 'a heap_op = HPush 'a | HPop | HRemove 'a

primrec heap_apply :: "('a \<Rightarrow> 'a \<Rightarrow> int) \<Rightarrow> 'a heap_op \<Rightarrow> 'a LocHeap \<Rightarrow> 'a LocHeap" where
  "heap_apply ranks (HPush x) t = LocHeap_push ranks t x"
| "heap_apply ranks HPop t = fst (LocHeap_pop ranks t)"
| "heap_apply ranks (HRemove x) t = fst (LocHeap_remove ranks t x)"

definition heap_op_valid :: "('a \<Rightarrow> bool) \<Rightarrow> 'a heap_op \<Rightarrow> bool" where
  "heap_op_valid valid op = (case op of HPush x \<Rightarrow> valid x | _ \<Rightarrow> True)"

lemma checkTree_size: "checkTree ranks t \<Longrightarrow> getTreeSize t = int (size (heap_mset t))"
  using checkNodes_size[of ranks "the t"] by (cases t) simp_all

context ranked begin

abbreviation heap_inv :: "'a LocHeap \<Rightarrow> bool" where
  "heap_inv t \<equiv> checkTree ranks t \<and> (\<forall>x \<in># heap_mset t. valid x)"

lemma run_invar:
  "\<forall>op \<in> set ops. heap_op_valid valid op \<Longrightarrow> heap_inv t \<Longrightarrow> heap_inv (fold (heap_apply ranks) ops t)"
proof (induction ops arbitrary: t)
  case (Cons op ops)
  have "heap_inv (heap_apply ranks op t)"
  proof (cases op)
    case (HPush x)
    then show ?thesis using Cons.prems push_invar[of t x] by (simp add: heap_op_valid_def)
  next
    case HPop
    then show ?thesis using pop_invar[OF Cons.prems(2)] by simp
  next
    case (HRemove x)
    then show ?thesis using remove_invar[OF Cons.prems(2), of x] by simp
  qed
  with Cons.IH[of "heap_apply ranks op t"] Cons.prems(1) show ?case by simp
qed simp

lemma push_heap_balanced:
  "heap_inv t \<Longrightarrow> heap_balanced t \<Longrightarrow> heap_balanced (LocHeap_push ranks t x)"
  by (cases t) (simp_all add: heap_balanced_def LocHeap_push_def push_balanced)

lemma pushes_invar:
  "\<forall>x \<in> set xs. valid x \<Longrightarrow> heap_inv t \<Longrightarrow> heap_balanced t \<Longrightarrow>
   heap_inv (foldl (LocHeap_push ranks) t xs) \<and> heap_balanced (foldl (LocHeap_push ranks) t xs) \<and>
   heap_mset (foldl (LocHeap_push ranks) t xs) = heap_mset t + mset xs"
proof (induction xs arbitrary: t)
  case (Cons x xs)
  have "heap_inv (LocHeap_push ranks t x)" "heap_balanced (LocHeap_push ranks t x)"
    using Cons.prems push_invar[of t x] push_heap_balanced[of t x] by simp_all
  from Cons.IH[OF _ this] Cons.prems(1) show ?case by (simp add: push_contents)
qed simp

lemma pops_of_pushes:
  assumes "\<forall>x \<in> set xs. valid x"
  shows "mset (pops (LocHeap_pop ranks) (length xs) (foldl (LocHeap_push ranks) None xs)) = mset xs \<and>
    sorted_wrt (\<lambda>x y. \<not> outRanks ranks y x)
      (pops (LocHeap_pop ranks) (length xs) (foldl (LocHeap_push ranks) None xs))"
proof -
  let ?t = "foldl (LocHeap_push ranks) None xs"
  have t: "heap_inv ?t" "heap_mset ?t = mset xs"
    using pushes_invar[OF assms, of None] by (simp_all add: heap_balanced_def)
  then show ?thesis using pops_mset[of ?t "length xs"] pops_sorted[OF t(1)] by simp
qed

lemma remove_spec:
  assumes "heap_inv t"
  shows "snd (LocHeap_remove ranks t x) = (if x \<in># heap_mset t then Some x else None) \<and>
    heap_mset (fst (LocHeap_remove ranks t x)) = heap_mset t - {#x#} \<and>
    checkTree ranks (fst (LocHeap_remove ranks t x))"
  using remove_snd[OF assms] remove_contents[OF assms] remove_invar[OF assms] by simp

end

lemma ranked_int: "ranked (\<lambda>a b. b - a :: int) (\<lambda>_. True)"
  by unfold_locales (auto simp: outRanks_def)

text \<open>
  C6: Whatever sequence of pushes, pops and removals is run on an empty heap, the heap stays
  consistent in the sense of \<open>checkTree\<close> (no child outranks its parent, every stored size is
  one more than the sizes of the subtrees), and \<open>getTreeSize\<close> is the number of objects in it.
\<close>

theorem heap_run_consistent:
  assumes "ranked ranks valid" "\<forall>op \<in> set ops. heap_op_valid valid op"
  shows "checkTree ranks (fold (heap_apply ranks) ops None) \<and>
    getTreeSize (fold (heap_apply ranks) ops None) =
      int (size (heap_mset (fold (heap_apply ranks) ops None)))"
  using ranked.run_invar[OF assms, of None] checkTree_size by auto

theorem heap_run_consistent_witness:
  "checkTree (\<lambda>a b. b - a :: int) (fold (heap_apply (\<lambda>a b. b - a)) [HPush 3, HPush 1, HPush 2, HRemove 1] None)"
  using heap_run_consistent[OF ranked_int, of "[HPush 3, HPush 1, HPush 2, HRemove 1]"]
  by (simp add: heap_op_valid_def)

text \<open>
  C17: The heap is a priority queue: objects pushed in any order are popped each exactly once,
  no object before one that outranks it.
\<close>

theorem heap_pops_in_rank_order:
  assumes "ranked ranks valid" "\<forall>x \<in> set xs. valid x"
  shows "mset (pops (LocHeap_pop ranks) (length xs) (foldl (LocHeap_push ranks) None xs)) = mset xs \<and>
    sorted_wrt (\<lambda>x y. \<not> outRanks ranks y x)
      (pops (LocHeap_pop ranks) (length xs) (foldl (LocHeap_push ranks) None xs))"
  by (rule ranked.pops_of_pushes[OF assms])

theorem heap_pops_in_rank_order_witness:
  "mset (pops (LocHeap_pop (\<lambda>a b. b - a)) 3 (foldl (LocHeap_push (\<lambda>a b. b - a)) None [5, 9, 2 :: int])) =
    {#5, 9, 2#}"
  using heap_pops_in_rank_order[OF ranked_int, of "[5, 9, 2]"] by (simp add: numeral_3_eq_3)

text \<open>
  Removal by address on a consistent heap: the pruned search finds the object exactly when
  it is there, takes out that one object, and leaves a consistent heap.
\<close>

theorem heap_remove_exact:
  assumes "ranked ranks valid" "checkTree ranks t" "\<forall>x \<in># heap_mset t. valid x"
  shows "snd (LocHeap_remove ranks t x) = (if x \<in># heap_mset t then Some x else None) \<and>
    heap_mset (fst (LocHeap_remove ranks t x)) = heap_mset t - {#x#} \<and>
    checkTree ranks (fst (LocHeap_remove ranks t x))"
  using ranked.remove_spec[OF assms(1)] assms(2,3) by blast

theorem heap_remove_exact_witness:
  "snd (LocHeap_remove (\<lambda>a b. b - a)
      (Some (LocHeapNode 3 (Some (LocHeapNode 1 None None (4 :: int))) (Some (LocHeapNode 1 None None 7)) 2)) 7) =
    Some 7"
  using heap_remove_exact[OF ranked_int,
      of "Some (LocHeapNode 3 (Some (LocHeapNode 1 None None 4)) (Some (LocHeapNode 1 None None 7)) 2)" 7]
  by (simp add: outRanks_def)

text \<open>
  Pushing keeps the tree balanced, so that a heap filled by pushes alone has a number of
  levels logarithmic in the number of objects, which bounds the recursions of all operations.
\<close>

theorem heap_push_logarithmic:
  assumes "ranked ranks valid" "\<forall>x \<in> set xs. valid x" "xs \<noteq> []"
  shows "2 ^ heap_height (foldl (LocHeap_push ranks) None xs) \<le> 2 * length xs"
proof -
  let ?t = "foldl (LocHeap_push ranks) None xs"
  have t: "heap_balanced ?t" "heap_mset ?t = mset xs"
    using ranked.pushes_invar[OF assms(1,2), of None] by (simp_all add: heap_balanced_def)
  with assms(3) obtain n where "?t = Some n" by (cases ?t) auto
  with t node_height_bound[of n] show ?thesis by (simp add: heap_balanced_def heap_height_def)
qed

theorem heap_push_logarithmic_witness:
  "2 ^ heap_height (foldl (LocHeap_push (\<lambda>a b. b - a)) None [5, 9, 2 :: int]) \<le> (6 :: nat)"
  using heap_push_logarithmic[OF ranked_int, of "[5, 9, 2]"] by simp

end
