(* ===== verification/Loc_Timer.thy ===== *)
theory Loc_Timer
  imports Loc_Heap
begin

text \<open>
  The timer service of \<open>gps/utils/LocTimer.cpp\<close>: clients (\<open>LocTimer\<close>) start and stop
  timers, a delegate object per running timer sits in a container that is a ranked heap, and the
  container keeps the kernel timer set to the soonest delegate. All work on the heap is done by
  messages that one thread takes from a queue in order, so a run is a sequence of steps: a client
  call, a message, or the polling thread seeing the kernel timer expire.
\<close>

section \<open>Delegates and their ranks\<close>

text \<open>
  A delegate is known to the heap and to the messages by its address; the time it expires at is
  set by its constructor and never changes, so it is kept with the address. The fields that
  change are in \<open>delegate_fields\<close>.
\<close>

record LocTimerDelegate =
  dAddr :: ptr
  tv_sec :: int
  tv_nsec :: int

record delegate_fields =
  mClient :: "nat option"
  mContainer :: bool

text \<open>Conversion of a \<open>long\<close> to a 32-bit \<open>int\<close>.\<close>

definition to_int32 :: "int \<Rightarrow> int" where
  "to_int32 x = signed_take_bit 31 x"

definition LocTimerDelegate_ranks :: "LocTimerDelegate \<Rightarrow> LocTimerDelegate \<Rightarrow> int" where
  "LocTimerDelegate_ranks self timer =
     (let rank = to_int32 (tv_sec timer - tv_sec self)
      in if rank = 0 then to_int32 (tv_nsec timer - tv_nsec self) else rank)"

text \<open>The times the service works with: seconds since boot that fit an \<open>int\<close>.\<close>

definition timer_valid :: "LocTimerDelegate \<Rightarrow> bool" where
  "timer_valid t \<longleftrightarrow> 0 \<le> tv_sec t \<and> tv_sec t < 2 ^ 31 \<and> 0 \<le> tv_nsec t \<and> tv_nsec t < 1000000000"

definition time_less :: "LocTimerDelegate \<Rightarrow> LocTimerDelegate \<Rightarrow> bool" where
  "time_less a b \<longleftrightarrow> tv_sec a < tv_sec b \<or> tv_sec a = tv_sec b \<and> tv_nsec a < tv_nsec b"

lemma to_int32_id: "- (2 ^ 31) \<le> x \<Longrightarrow> x < 2 ^ 31 \<Longrightarrow> to_int32 x = x"
  unfolding to_int32_def by (rule signed_take_bit_int_eq_self) auto

lemma ranks_time_less:
  "timer_valid a \<Longrightarrow> timer_valid b \<Longrightarrow> outRanks LocTimerDelegate_ranks a b \<longleftrightarrow> time_less a b"
  by (auto simp: timer_valid_def outRanks_def LocTimerDelegate_ranks_def time_less_def Let_def to_int32_id)

interpretation timers: ranked LocTimerDelegate_ranks timer_valid
  by unfold_locales (auto simp: ranks_time_less time_less_def)

section \<open>State\<close>

datatype timer_msg =
  MsgTimerPush LocTimerDelegate
| MsgTimerRemove LocTimerDelegate
| MsgTimerExpire

text \<open>
  One container with its kernel timer (\<open>kArmed\<close>: the absolute time it is set to, \<open>kPolled\<close>:
  whether its descriptor is in the epoll set), the message queue, the live delegates, the
  clients' \<open>mTimer\<close> pointers, the callbacks made so far (the client, the delegate that
  expired and the time), the next fresh address, and whether a delegate was used after it was
  deleted.
\<close>

record timer_sys =
  mTree :: "LocTimerDelegate LocHeap"
  kArmed :: "(int \<times> int) option"
  kPolled :: bool
  msgs :: "timer_msg list"
  delegates :: "ptr \<Rightarrow> delegate_fields option"
  mTimer :: "nat \<Rightarrow> LocTimerDelegate option"
  callbacks :: "(nat \<times> LocTimerDelegate \<times> (int \<times> int)) list"
  nextAddr :: ptr
  badAccess :: bool

definition timer_init :: timer_sys where
  "timer_init = \<lparr>mTree = None, kArmed = None, kPolled = False, msgs = [], delegates = (\<lambda>_. None),
     mTimer = (\<lambda>_. None), callbacks = [], nextAddr = 1,
     badAccess = False\<rparr>"

definition getFutureTime :: "LocTimerDelegate \<Rightarrow> int \<times> int" where
  "getFutureTime t = (tv_sec t, tv_nsec t)"

section \<open>The container\<close>

definition getSoonestTimer :: "timer_sys \<Rightarrow> LocTimerDelegate option" where
  "getSoonestTimer st = LocHeap_peek (mTree st)"

definition updateSoonestTime :: "LocTimerDelegate option \<Rightarrow> timer_sys \<Rightarrow> timer_sys" where
  "updateSoonestTime priorTop st =
     (let curTop = getSoonestTimer st
      in if curTop \<noteq> priorTop
         then (case curTop of
                 None \<Rightarrow> st\<lparr>kPolled := False, kArmed := None\<rparr>
               | Some cur \<Rightarrow>
                   if (case priorTop of None \<Rightarrow> True
                       | Some prior \<Rightarrow> outRanks LocTimerDelegate_ranks cur prior)
                   then st\<lparr>kPolled := True, kArmed := Some (getFutureTime cur)\<rparr>
                   else st)
         else st)"

text \<open>\<open>add\<close> and \<open>remove\<close> only send a message.\<close>

definition LocTimerContainer_add :: "LocTimerDelegate \<Rightarrow> timer_sys \<Rightarrow> timer_sys" where
  "LocTimerContainer_add timer st = st\<lparr>msgs := msgs st @ [MsgTimerPush timer]\<rparr>"

definition MsgTimerPush_proc :: "LocTimerDelegate \<Rightarrow> timer_sys \<Rightarrow> timer_sys" where
  "MsgTimerPush_proc timer st =
     (let priorTop = getSoonestTimer st;
          st = st\<lparr>mTree := LocHeap_push LocTimerDelegate_ranks (mTree st) timer\<rparr>
      in updateSoonestTime priorTop st)"

definition LocTimerContainer_remove :: "LocTimerDelegate \<Rightarrow> timer_sys \<Rightarrow> timer_sys" where
  "LocTimerContainer_remove timer st = st\<lparr>msgs := msgs st @ [MsgTimerRemove timer]\<rparr>"

definition MsgTimerRemove_proc :: "LocTimerDelegate \<Rightarrow> timer_sys \<Rightarrow> timer_sys" where
  "MsgTimerRemove_proc timer st =
     (let priorTop = getSoonestTimer st;
          (tree, removed) = LocHeap_remove LocTimerDelegate_ranks (mTree st) timer;
          st = st\<lparr>mTree := tree\<rparr>;
          st = (if priorTop = removed then updateSoonestTime None st else st)
      in st\<lparr>badAccess := (badAccess st \<or> delegates st (dAddr timer) = None),
            delegates := (delegates st)(dAddr timer := None)\<rparr>)"

definition popIfOutRanks ::
  "LocTimerDelegate \<Rightarrow> LocTimerDelegate LocHeap \<Rightarrow> LocTimerDelegate LocHeap \<times> LocTimerDelegate option" where
  "popIfOutRanks timer tree =
     (case LocHeap_peek tree of
        None \<Rightarrow> (tree, None)
      | Some first \<Rightarrow> if \<not> outRanks LocTimerDelegate_ranks timer first
                     then LocHeap_pop LocTimerDelegate_ranks tree else (tree, None))"

section \<open>Delegates and clients\<close>

text \<open>
  \<open>destroyLocked\<close>: the delegate forgets its client and, the first time, asks its container to
  remove and delete it.
\<close>

definition destroyLocked :: "LocTimerDelegate \<Rightarrow> timer_sys \<Rightarrow> timer_sys" where
  "destroyLocked timer st =
     (case delegates st (dAddr timer) of
        None \<Rightarrow> st\<lparr>badAccess := True\<rparr>
      | Some f \<Rightarrow>
          (let st' = st\<lparr>delegates := (delegates st)(dAddr timer \<mapsto> f\<lparr>mClient := None, mContainer := False\<rparr>)\<rparr>
           in if mContainer f then LocTimerContainer_remove timer st' else st'))"

definition LocTimer_stop :: "nat \<Rightarrow> timer_sys \<Rightarrow> bool \<times> timer_sys" where
  "LocTimer_stop client st =
     (case mTimer st client of
        None \<Rightarrow> (False, st)
      | Some timer \<Rightarrow> (True, destroyLocked timer (st\<lparr>mTimer := (mTimer st)(client := None)\<rparr>)))"

definition future_time :: "int \<times> int \<Rightarrow> u32 \<Rightarrow> int \<times> int" where
  "future_time now timeOutInMs =
     (let ms = uint timeOutInMs;
          sec = fst now + ms div 1000;
          nsec = snd now + (ms mod 1000) * 1000000
      in if nsec \<ge> 1000000000 then (sec + nsec div 1000000000, nsec mod 1000000000) else (sec, nsec))"

definition LocTimer_start :: "nat \<Rightarrow> u32 \<Rightarrow> int \<times> int \<Rightarrow> timer_sys \<Rightarrow> bool \<times> timer_sys" where
  "LocTimer_start client timeOutInMs now st =
     (case mTimer st client of
        Some _ \<Rightarrow> (False, st)
      | None \<Rightarrow>
          (let (sec, nsec) = future_time now timeOutInMs;
               timer = \<lparr>dAddr = nextAddr st, tv_sec = sec, tv_nsec = nsec\<rparr>;
               st = st\<lparr>nextAddr := nextAddr st + 1,
                       delegates := (delegates st)(nextAddr st \<mapsto> \<lparr>mClient = Some client, mContainer = True\<rparr>)\<rparr>;
               st = LocTimerContainer_add timer st
           in (True, st\<lparr>mTimer := (mTimer st)(client \<mapsto> timer)\<rparr>)))"

text \<open>
  \<open>LocTimerDelegate::expire\<close>: the client's \<open>stop\<close> decides whether the callback is made.
\<close>

definition LocTimerDelegate_expire :: "int \<times> int \<Rightarrow> LocTimerDelegate \<Rightarrow> timer_sys \<Rightarrow> timer_sys" where
  "LocTimerDelegate_expire now timer st =
     (case delegates st (dAddr timer) of
        None \<Rightarrow> st\<lparr>badAccess := True\<rparr>
      | Some f \<Rightarrow>
          (case mClient f of
             None \<Rightarrow> st
           | Some client \<Rightarrow>
               (let (stopped, st') = LocTimer_stop client st
                in if stopped then st'\<lparr>callbacks := callbacks st' @ [(client, timer, now)]\<rparr> else st')))"

text \<open>
  \<open>MsgTimerExpire\<close>: the loop pops the first timer whatever its time, then every timer that
  \<open>timerOfNow\<close> does not outrank. \<open>expire_loop\<close> is the loop with \<open>timer\<close> in hand.
\<close>

definition timerOfNow :: "int \<times> int \<Rightarrow> LocTimerDelegate" where
  "timerOfNow now = \<lparr>dAddr = NULL, tv_sec = fst now, tv_nsec = snd now\<rparr>"

lemmas timer_call_defs = LocTimerDelegate_expire_def LocTimer_stop_def destroyLocked_def
  LocTimerContainer_remove_def

lemma expire_mTree [simp]: "mTree (LocTimerDelegate_expire now t st) = mTree st"
  by (auto simp: timer_call_defs Let_def split: option.splits)

lemma popIfOutRanks_size:
  "snd (popIfOutRanks timer t) = Some m \<Longrightarrow>
   size (heap_mset (fst (popIfOutRanks timer t))) < size (heap_mset t)"
  using LocHeap_pop_mset[of t LocTimerDelegate_ranks] LocHeap_pop_snd[of LocTimerDelegate_ranks t]
  by (auto simp: popIfOutRanks_def split: option.splits if_splits)

function expire_loop :: "int \<times> int \<Rightarrow> LocTimerDelegate \<Rightarrow> timer_sys \<Rightarrow> timer_sys" where
  "expire_loop now timer st =
     (let st' = LocTimerDelegate_expire now timer st
      in case popIfOutRanks (timerOfNow now) (mTree st') of
           (tree, None) \<Rightarrow> st'
         | (tree, Some timer') \<Rightarrow> expire_loop now timer' (st'\<lparr>mTree := tree\<rparr>))"
  by pat_completeness auto
termination
proof (relation "measure (\<lambda>(_, _, st). size (heap_mset (mTree st)))", goal_cases)
  case 2
  then show ?case
    using popIfOutRanks_size by clarsimp (metis expire_mTree fst_conv snd_conv)
qed simp

declare expire_loop.simps [simp del]

definition MsgTimerExpire_proc :: "int \<times> int \<Rightarrow> timer_sys \<Rightarrow> timer_sys" where
  "MsgTimerExpire_proc now st =
     (let (tree, first) = LocHeap_pop LocTimerDelegate_ranks (mTree st);
          st = st\<lparr>mTree := tree\<rparr>;
          st = (case first of None \<Rightarrow> st | Some timer \<Rightarrow> expire_loop now timer st)
      in updateSoonestTime None st)"

text \<open>\<open>LocTimerContainer::expire\<close>, called by the polling thread.\<close>

definition LocTimerContainer_expire :: "timer_sys \<Rightarrow> timer_sys" where
  "LocTimerContainer_expire st =
     st\<lparr>kArmed := None, kPolled := False, msgs := msgs st @ [MsgTimerExpire]\<rparr>"

section \<open>Steps\<close>

definition proc_msg :: "int \<times> int \<Rightarrow> timer_msg \<Rightarrow> timer_sys \<Rightarrow> timer_sys" where
  "proc_msg now m st =
     (case m of MsgTimerPush t \<Rightarrow> MsgTimerPush_proc t st
      | MsgTimerRemove t \<Rightarrow> MsgTimerRemove_proc t st
      | MsgTimerExpire \<Rightarrow> MsgTimerExpire_proc now st)"

definition time_le :: "int \<times> int \<Rightarrow> int \<times> int \<Rightarrow> bool" where
  "time_le a b \<longleftrightarrow> fst a < fst b \<or> fst a = fst b \<and> snd a \<le> snd b"

text \<open>
  A step: a client starts a timer at a time whose sum with the longest delay still fits an
  \<open>int\<close>, a client stops its timer, the message thread handles the oldest message, or the
  polling thread finds the kernel timer expired.
\<close>

inductive timer_step :: "timer_sys \<Rightarrow> timer_sys \<Rightarrow> bool" where
  start: "0 \<le> fst now \<Longrightarrow> fst now < 2 ^ 31 - 4294968 \<Longrightarrow> 0 \<le> snd now \<Longrightarrow> snd now < 1000000000 \<Longrightarrow>
    timer_step st (snd (LocTimer_start client ms now st))"
| stop: "timer_step st (snd (LocTimer_stop client st))"
| proc: "msgs st = m # ms \<Longrightarrow> timer_step st (proc_msg now m (st\<lparr>msgs := ms\<rparr>))"
| poll: "kPolled st \<Longrightarrow> kArmed st = Some a \<Longrightarrow> time_le a now \<Longrightarrow>
    timer_step st (LocTimerContainer_expire st)"

inductive timer_reachable :: "timer_sys \<Rightarrow> bool" where
  init: "timer_reachable timer_init"
| step: "timer_reachable st \<Longrightarrow> timer_step st st' \<Longrightarrow> timer_reachable st'"

section \<open>The invariant of the service\<close>

text \<open>The delegates that pushes and removals in a queue refer to.\<close>

fun pushes :: "timer_msg list \<Rightarrow> LocTimerDelegate list" where
  "pushes [] = []"
| "pushes (MsgTimerPush t # ms) = t # pushes ms"
| "pushes (_ # ms) = pushes ms"

fun removes :: "timer_msg list \<Rightarrow> LocTimerDelegate list" where
  "removes [] = []"
| "removes (MsgTimerRemove t # ms) = t # removes ms"
| "removes (_ # ms) = removes ms"

text \<open>No delegate is pushed after its removal.\<close>

fun push_before_remove :: "timer_msg list \<Rightarrow> bool" where
  "push_before_remove [] = True"
| "push_before_remove (MsgTimerRemove t # ms) =
     (dAddr t \<notin> dAddr ` set (pushes ms) \<and> push_before_remove ms)"
| "push_before_remove (_ # ms) = push_before_remove ms"

lemma pushes_append [simp]: "pushes (xs @ ys) = pushes xs @ pushes ys"
  by (induction xs rule: pushes.induct) auto

lemma removes_append [simp]: "removes (xs @ ys) = removes xs @ removes ys"
  by (induction xs rule: removes.induct) auto

lemma push_before_remove_push [simp]:
  "push_before_remove (ms @ [MsgTimerPush t]) \<longleftrightarrow>
     push_before_remove ms \<and> dAddr t \<notin> dAddr ` set (removes ms)"
  by (induction ms rule: push_before_remove.induct) auto

lemma push_before_remove_other [simp]:
  "push_before_remove (ms @ [MsgTimerRemove t]) \<longleftrightarrow> push_before_remove ms"
  "push_before_remove (ms @ [MsgTimerExpire]) \<longleftrightarrow> push_before_remove ms"
  by (induction ms rule: push_before_remove.induct) auto

text \<open>The delegates in the heap or on their way to it, and being alive.\<close>

definition tracked :: "timer_sys \<Rightarrow> LocTimerDelegate multiset" where
  "tracked st = heap_mset (mTree st) + mset (pushes (msgs st))"

definition live :: "timer_sys \<Rightarrow> LocTimerDelegate \<Rightarrow> bool" where
  "live st t \<longleftrightarrow> delegates st (dAddr t) \<noteq> None"

definition heap_ok :: "timer_sys \<Rightarrow> bool" where
  "heap_ok st \<longleftrightarrow> checkTree LocTimerDelegate_ranks (mTree st) \<and>
     (\<forall>t \<in># tracked st. timer_valid t \<and> live st t) \<and>
     (\<forall>a. count (image_mset dAddr (tracked st)) a \<le> 1)"

definition queue_ok :: "timer_sys \<Rightarrow> bool" where
  "queue_ok st \<longleftrightarrow> push_before_remove (msgs st) \<and> distinct (map dAddr (removes (msgs st))) \<and>
     (\<forall>t \<in> set (removes (msgs st)). \<exists>f. delegates st (dAddr t) = Some f \<and> \<not> mContainer f)"

definition client_ok :: "timer_sys \<Rightarrow> bool" where
  "client_ok st \<longleftrightarrow>
     (\<forall>c t. mTimer st c = Some t \<longrightarrow>
        delegates st (dAddr t) = Some \<lparr>mClient = Some c, mContainer = True\<rparr>) \<and>
     (\<forall>a f c. delegates st a = Some f \<longrightarrow> mClient f = Some c \<longrightarrow>
        (\<exists>t. mTimer st c = Some t \<and> dAddr t = a)) \<and>
     (\<forall>a. delegates st a \<noteq> None \<longrightarrow> a < nextAddr st)"

text \<open>A delegate that was called back is not called again: it has no client any more.\<close>

definition called :: "timer_sys \<Rightarrow> ptr list" where
  "called st = map (\<lambda>(c, t, _). dAddr t) (callbacks st)"

definition done_with :: "timer_sys \<Rightarrow> ptr \<Rightarrow> bool" where
  "done_with st a \<longleftrightarrow> a < nextAddr st \<and> (\<forall>f. delegates st a = Some f \<longrightarrow> mClient f = None)"

definition callbacks_ok :: "timer_sys \<Rightarrow> bool" where
  "callbacks_ok st \<longleftrightarrow> distinct (called st) \<and> (\<forall>a \<in> set (called st). done_with st a)"

text \<open>The delegates that something refers to are told apart by their addresses.\<close>

definition known :: "timer_sys \<Rightarrow> LocTimerDelegate set" where
  "known st = set_mset (tracked st) \<union> set (removes (msgs st)) \<union> ran (mTimer st)"

definition timer_inv :: "timer_sys \<Rightarrow> bool" where
  "timer_inv st \<longleftrightarrow> heap_ok st \<and> queue_ok st \<and> client_ok st \<and> callbacks_ok st \<and>
     inj_on dAddr (known st) \<and> \<not> badAccess st"

lemmas inv_defs = heap_ok_def queue_ok_def client_ok_def callbacks_ok_def called_def done_with_def

lemma timer_init_inv: "timer_inv timer_init"
  by (simp add: timer_inv_def inv_defs timer_init_def tracked_def known_def ran_def)

subsection \<open>Calls of the clients\<close>

text \<open>\<open>updateSoonestTime\<close> touches the kernel timer only.\<close>

lemma updateSoonestTime_simps [simp]:
  "mTree (updateSoonestTime p st) = mTree st" "msgs (updateSoonestTime p st) = msgs st"
  "delegates (updateSoonestTime p st) = delegates st" "mTimer (updateSoonestTime p st) = mTimer st"
  "callbacks (updateSoonestTime p st) = callbacks st" "nextAddr (updateSoonestTime p st) = nextAddr st"
  "badAccess (updateSoonestTime p st) = badAccess st"
  by (auto simp: updateSoonestTime_def Let_def split: option.splits)

lemma updateSoonestTime_inv [simp]: "timer_inv (updateSoonestTime p st) \<longleftrightarrow> timer_inv st"
  by (simp add: timer_inv_def inv_defs tracked_def live_def known_def)

lemma client_okD:
  assumes "timer_inv st"
  shows "mTimer st c = Some t \<Longrightarrow> delegates st (dAddr t) = Some \<lparr>mClient = Some c, mContainer = True\<rparr>"
    and "delegates st a = Some f \<Longrightarrow> mClient f = Some c \<Longrightarrow> \<exists>t. mTimer st c = Some t \<and> dAddr t = a"
    and "delegates st a = Some f \<Longrightarrow> a < nextAddr st"
  using assms by (auto simp: timer_inv_def client_ok_def)

lemma known_live: "timer_inv st \<Longrightarrow> x \<in> known st \<Longrightarrow> live st x"
  by (auto simp: timer_inv_def known_def inv_defs live_def ran_def)

lemma stop_inv: "timer_inv st \<Longrightarrow> timer_inv (snd (LocTimer_stop c st))"
proof (cases "mTimer st c")
  case (Some t)
  assume inv: "timer_inv st"
  define st' where "st' = snd (LocTimer_stop c st)"
  from inv Some have f: "delegates st (dAddr t) = Some \<lparr>mClient = Some c, mContainer = True\<rparr>"
    by (simp add: timer_inv_def client_ok_def)
  then have st': "st' = st\<lparr>mTimer := (mTimer st)(c := None),
      delegates := (delegates st)(dAddr t \<mapsto> \<lparr>mClient = None, mContainer = False\<rparr>),
      msgs := msgs st @ [MsgTimerRemove t]\<rparr>"
    by (simp add: st'_def timer_call_defs Some)
  have "heap_ok st'" "\<not> badAccess st'"
    using inv by (auto simp: timer_inv_def st' heap_ok_def tracked_def live_def)
  moreover have "known st' \<subseteq> known st"
    using Some by (auto simp: known_def st' tracked_def ran_def split: if_splits)
  then have "inj_on dAddr (known st')"
    using inv inj_on_subset by (auto simp: timer_inv_def)
  moreover have "callbacks_ok st'"
    using inv by (auto simp: timer_inv_def callbacks_ok_def st' called_def done_with_def)
  moreover have "dAddr t \<notin> dAddr ` set (removes (msgs st))"
    using inv f by (fastforce simp: timer_inv_def queue_ok_def)
  then have "queue_ok st'"
    using inv by (auto simp: timer_inv_def st' queue_ok_def)
  moreover have "client_ok st'"
  proof -
    note c = client_okD[OF inv]
    have "dAddr t' \<noteq> dAddr t" if "mTimer st c' = Some t'" "c' \<noteq> c" for c' t'
      using c(1)[OF that(1)] that(2) f by auto
    moreover have "c' \<noteq> c" if "delegates st a = Some f'" "mClient f' = Some c'" "a \<noteq> dAddr t" for a f' c'
      using c(2)[OF that(1,2)] that(3) Some by auto
    ultimately show ?thesis
      using c by (auto simp: client_ok_def st' f)
  qed
  ultimately show ?thesis by (simp add: timer_inv_def st'_def)
qed (simp add: LocTimer_stop_def)

lemma future_time_valid:
  assumes "0 \<le> fst now" "fst now < 2 ^ 31 - 4294968" "0 \<le> snd now" "snd now < 1000000000"
  shows "timer_valid \<lparr>dAddr = a, tv_sec = fst (future_time now ms), tv_nsec = snd (future_time now ms)\<rparr>"
proof -
  have "uint ms < 4294967296" using uint_lt2p[of ms] by simp
  then have "uint ms div 1000 \<le> 4294967" "0 \<le> uint ms div 1000" "0 \<le> uint ms"
    using uint_ge_0[of ms] by (auto simp: pos_imp_zdiv_nonneg_iff)
  moreover have "uint ms mod 1000 * 1000000 \<le> 999000000" "0 \<le> uint ms mod 1000 * 1000000"
    by (auto intro: order.trans[OF mult_right_mono[of _ 999]])
  ultimately show ?thesis
    using assms unfolding timer_valid_def future_time_def Let_def
    by (auto simp: algebra_simps)
qed

lemma start_inv:
  assumes inv: "timer_inv st" and now: "0 \<le> fst now" "fst now < 2 ^ 31 - 4294968" "0 \<le> snd now" "snd now < 1000000000"
  shows "timer_inv (snd (LocTimer_start c ms now st))"
proof (cases "mTimer st c")
  case None
  define t where "t = \<lparr>dAddr = nextAddr st, tv_sec = fst (future_time now ms),
      tv_nsec = snd (future_time now ms)\<rparr>"
  define st' where "st' = snd (LocTimer_start c ms now st)"
  have st': "st' = st\<lparr>mTimer := (mTimer st)(c \<mapsto> t), nextAddr := nextAddr st + 1,
      delegates := (delegates st)(nextAddr st \<mapsto> \<lparr>mClient = Some c, mContainer = True\<rparr>),
      msgs := msgs st @ [MsgTimerPush t]\<rparr>"
    by (simp add: st'_def LocTimer_start_def None t_def LocTimerContainer_add_def case_prod_beta Let_def)
  have t: "dAddr t = nextAddr st" "timer_valid t"
    unfolding t_def using future_time_valid[OF now] by simp_all
  have fresh: "delegates st (nextAddr st) = None" using inv by (auto simp: timer_inv_def client_ok_def)
  then have new: "dAddr x \<noteq> nextAddr st" if "live st x" for x using that by (auto simp: live_def)
  have old: "nextAddr st \<notin> dAddr ` known st" using known_live[OF inv] new by fastforce
  then have "nextAddr st \<notin># image_mset dAddr (tracked st)" by (auto simp: known_def)
  then have "count (image_mset dAddr (tracked st)) (nextAddr st) = 0" by (simp only: count_eq_zero_iff not_False_eq_True)
  moreover have "tracked st' = add_mset t (tracked st)" by (simp add: tracked_def st')
  ultimately have "heap_ok st'"
    using inv t by (auto simp: timer_inv_def heap_ok_def live_def st')
  moreover have "known st' = insert t (known st)"
    using None by (simp add: known_def st' tracked_def)
  then have "inj_on dAddr (known st')"
    using inv old t by (auto simp: timer_inv_def inj_on_insert)
  moreover have "queue_ok st'"
    using inv fresh by (fastforce simp: timer_inv_def queue_ok_def st' t)
  moreover have "client_ok st'"
    using inv fresh None by (fastforce simp: timer_inv_def client_ok_def st' t less_Suc_eq)
  moreover have "callbacks_ok st'"
    using inv by (auto simp: timer_inv_def callbacks_ok_def st' called_def done_with_def)
  ultimately show ?thesis using inv by (simp add: timer_inv_def st'_def[symmetric]) (simp add: st')
qed (use inv in \<open>simp add: LocTimer_start_def\<close>)

subsection \<open>Messages\<close>

lemma push_inv:
  assumes inv: "timer_inv st" and m: "msgs st = MsgTimerPush t # ms"
  shows "timer_inv (MsgTimerPush_proc t (st\<lparr>msgs := ms\<rparr>))"
proof -
  let ?st = "st\<lparr>msgs := ms, mTree := LocHeap_push LocTimerDelegate_ranks (mTree st) t\<rparr>"
  have tracked: "tracked ?st = tracked st"
    using m by (simp add: tracked_def timers.push_contents)
  then have known: "known ?st = known st"
    using m by (simp add: known_def)
  have "\<forall>x \<in># heap_mset (mTree st). timer_valid x" "timer_valid t"
    using inv m by (auto simp: timer_inv_def heap_ok_def tracked_def)
  then have "checkTree LocTimerDelegate_ranks (mTree ?st)"
    using inv timers.push_invar[of "mTree st" t] by (simp add: timer_inv_def heap_ok_def)
  with inv tracked have "heap_ok ?st" by (simp add: timer_inv_def heap_ok_def live_def)
  moreover from inv m have "queue_ok ?st" by (simp add: timer_inv_def queue_ok_def)
  moreover from inv have "client_ok ?st" "callbacks_ok ?st" "\<not> badAccess ?st"
    by (simp_all add: timer_inv_def client_ok_def callbacks_ok_def called_def done_with_def)
  ultimately have "timer_inv ?st" using inv known by (simp add: timer_inv_def)
  then show ?thesis by (simp add: MsgTimerPush_proc_def Let_def)
qed

lemma pop_tracked:
  assumes inv: "timer_inv st" and tree: "add_mset t (heap_mset tree) = heap_mset (mTree st)"
    and check: "checkTree LocTimerDelegate_ranks tree"
  shows "timer_inv (st\<lparr>mTree := tree\<rparr>) \<and> live st t"
proof -
  let ?st = "st\<lparr>mTree := tree\<rparr>"
  have tracked: "tracked st = add_mset t (tracked ?st)"
    by (simp add: tracked_def tree[symmetric])
  then have "known ?st \<subseteq> known st" by (auto simp: known_def)
  then have "inj_on dAddr (known ?st)" using inv inj_on_subset by (auto simp: timer_inv_def)
  moreover have "count (image_mset dAddr (tracked ?st)) a \<le> 1" for a
  proof -
    have "count (image_mset dAddr (tracked st)) a \<le> 1" using inv by (simp add: timer_inv_def heap_ok_def)
    then show ?thesis unfolding tracked by (simp split: if_splits)
  qed
  then have "heap_ok ?st" using inv check tracked by (simp add: timer_inv_def heap_ok_def live_def)
  ultimately show ?thesis
    using inv tracked by (simp add: timer_inv_def heap_ok_def queue_ok_def client_ok_def
        callbacks_ok_def called_def done_with_def)
qed

lemma remove_inv:
  assumes inv: "timer_inv st" and m: "msgs st = MsgTimerRemove t # ms"
  shows "timer_inv (MsgTimerRemove_proc t (st\<lparr>msgs := ms\<rparr>))"
proof -
  let ?tree = "fst (LocHeap_remove LocTimerDelegate_ranks (mTree st) t)"
  let ?st = "st\<lparr>msgs := ms, mTree := ?tree, delegates := (delegates st)(dAddr t := None)\<rparr>"
  have valid: "\<forall>x \<in># heap_mset (mTree st). timer_valid x"
    using inv by (simp add: timer_inv_def heap_ok_def tracked_def)
  with inv have heap: "heap_mset ?tree = heap_mset (mTree st) - {#t#}"
      and check: "checkTree LocTimerDelegate_ranks ?tree"
    using timers.remove_contents[of "mTree st" t] timers.remove_invar[of "mTree st" t]
    by (simp_all add: timer_inv_def heap_ok_def)
  have sub: "tracked ?st \<subseteq># tracked st"
    using m heap by (simp add: tracked_def)
  have known_sub: "known ?st \<subseteq> known st"
    using m mset_subset_eqD[OF sub] by (auto simp: known_def)
  have inj: "inj_on dAddr (known st)" and t_known: "t \<in> known st"
    using inv m by (simp_all add: timer_inv_def known_def)
  have cnt: "count (image_mset dAddr (tracked st)) a \<le> 1" for a
    using inv by (simp add: timer_inv_def heap_ok_def)
  have gone: "dAddr x \<noteq> dAddr t" if "x \<in># tracked ?st" for x
  proof
    assume eq: "dAddr x = dAddr t"
    have "x \<in> known st" using that known_sub by (auto simp: known_def)
    with eq inj t_known have "x = t" by (auto dest: inj_onD)
    moreover have "dAddr t \<notin> dAddr ` set (pushes ms)"
      using inv m by (simp add: timer_inv_def queue_ok_def)
    ultimately have "t \<in># heap_mset (mTree st) - {#t#}" using that heap by (auto simp: tracked_def)
    then have "{#t, t#} \<subseteq># tracked st" using m
      by (auto simp: tracked_def subseteq_mset_def in_diff_count)
    then have "image_mset dAddr {#t, t#} \<subseteq># image_mset dAddr (tracked st)" by (rule image_mset_subseteq_mono)
    then have "count (image_mset dAddr {#t, t#}) (dAddr t) \<le> count (image_mset dAddr (tracked st)) (dAddr t)"
      by (rule mset_subset_eq_count)
    with cnt[of "dAddr t"] show False by simp
  qed
  have "count (image_mset dAddr (tracked ?st)) a \<le> 1" for a
    using mset_subset_eq_count[OF image_mset_subseteq_mono[OF sub], of dAddr a] cnt[of a] by simp
  then have "heap_ok ?st"
    using inv check gone mset_subset_eqD[OF sub] by (auto simp: timer_inv_def heap_ok_def live_def)
  moreover have "queue_ok ?st"
    using inv m by (auto simp: timer_inv_def queue_ok_def image_iff)
  moreover obtain f where f: "delegates st (dAddr t) = Some f" "\<not> mContainer f"
    using inv m by (auto simp: timer_inv_def queue_ok_def)
  then have "dAddr x \<noteq> dAddr t" if "mTimer st c = Some x" for c x
    using client_okD(1)[OF inv that] f by auto
  then have "client_ok ?st" using inv by (auto simp: timer_inv_def client_ok_def)
  moreover have "callbacks_ok ?st"
    using inv by (auto simp: timer_inv_def callbacks_ok_def called_def done_with_def)
  moreover have "inj_on dAddr (known ?st)" using inj known_sub inj_on_subset by auto
  ultimately have "timer_inv ?st" using inv by (simp add: timer_inv_def)
  moreover have "timer_inv (MsgTimerRemove_proc t (st\<lparr>msgs := ms\<rparr>)) = timer_inv ?st"
    using f by (simp add: MsgTimerRemove_proc_def Let_def case_prod_beta timer_inv_def inv_defs
        tracked_def live_def known_def)
  ultimately show ?thesis by simp
qed

lemma expire_inv:
  assumes inv: "timer_inv st" and alive: "live st t"
  shows "timer_inv (LocTimerDelegate_expire now t st)"
proof -
  from alive obtain f where f: "delegates st (dAddr t) = Some f" by (auto simp: live_def)
  show ?thesis
  proof (cases "mClient f")
    case (Some c)
    from client_okD(2)[OF inv f Some] obtain t' where t': "mTimer st c = Some t'" "dAddr t' = dAddr t"
      by blast
    obtain st1 where stop: "LocTimer_stop c st = (True, st1)"
      by (simp add: LocTimer_stop_def t')
    then have st1: "st1 = snd (LocTimer_stop c st)" by simp
    have expire: "LocTimerDelegate_expire now t st = st1\<lparr>callbacks := callbacks st1 @ [(c, t, now)]\<rparr>"
      by (simp add: LocTimerDelegate_expire_def f Some stop)
    have "dAddr t \<notin> set (called st)"
      using inv f Some by (auto simp: timer_inv_def callbacks_ok_def done_with_def)
    then have "dAddr t \<notin> set (called st1)"
      by (simp add: st1 called_def LocTimer_stop_def t' destroyLocked_def LocTimerContainer_remove_def Let_def f)
    moreover have "done_with st1 (dAddr t)"
      using inv f by (auto simp: st1 done_with_def LocTimer_stop_def t' destroyLocked_def
          LocTimerContainer_remove_def Let_def timer_inv_def client_ok_def)
    ultimately show ?thesis
      using stop_inv[OF inv, of c, folded st1] unfolding expire
      by (simp add: timer_inv_def inv_defs tracked_def live_def known_def)
  qed (simp add: LocTimerDelegate_expire_def f inv)
qed

lemma popIfOutRanks_tracked:
  assumes inv: "timer_inv st" and pop: "popIfOutRanks tn (mTree st) = (tree, Some t)"
  shows "timer_inv (st\<lparr>mTree := tree\<rparr>) \<and> live st t"
proof -
  from pop have peek: "LocHeap_peek (mTree st) = Some t" and
      tree: "tree = fst (LocHeap_pop LocTimerDelegate_ranks (mTree st))"
    using timers.pop_peek[of "mTree st"] by (auto simp: popIfOutRanks_def split: option.splits if_splits)
  show ?thesis
  proof (rule pop_tracked[OF inv])
    show "add_mset t (heap_mset tree) = heap_mset (mTree st)"
      using timers.pop_contents[OF peek] tree by simp
    show "checkTree LocTimerDelegate_ranks tree"
      using timers.pop_invar[of "mTree st"] inv
      by (simp add: tree timer_inv_def heap_ok_def tracked_def)
  qed
qed

lemma expire_loop_inv:
  "timer_inv st \<Longrightarrow> live st t \<Longrightarrow> timer_inv (expire_loop now t st)"
proof (induction now t st rule: expire_loop.induct)
  case (1 now t st)
  let ?st = "LocTimerDelegate_expire now t st"
  have inv: "timer_inv ?st" using "1.prems" by (rule expire_inv)
  show ?case
  proof (cases "popIfOutRanks (timerOfNow now) (mTree ?st)")
    case (Pair tree t')
    show ?thesis
    proof (cases t')
      case None
      with Pair inv show ?thesis by (simp add: expire_loop.simps[of now t st] Let_def)
    next
      case (Some t'')
      with Pair have pop: "popIfOutRanks (timerOfNow now) (mTree ?st) = (tree, Some t'')" by simp
      from popIfOutRanks_tracked[OF inv pop]
      have "timer_inv (?st\<lparr>mTree := tree\<rparr>)" "live (?st\<lparr>mTree := tree\<rparr>) t''"
        by (simp_all add: live_def)
      with "1.IH"[OF refl pop[symmetric] refl] show ?thesis
        by (simp add: expire_loop.simps[of now t st] Let_def pop[simplified])
    qed
  qed
qed

lemma expire_msg_inv:
  assumes inv: "timer_inv st" and m: "msgs st = MsgTimerExpire # ms"
  shows "timer_inv (MsgTimerExpire_proc now (st\<lparr>msgs := ms\<rparr>))"
proof -
  let ?st = "st\<lparr>msgs := ms\<rparr>"
  have inv': "timer_inv ?st"
    using inv m by (simp add: timer_inv_def inv_defs tracked_def live_def known_def)
  show ?thesis
  proof (cases "LocHeap_peek (mTree st)")
    case None
    then have "LocHeap_pop LocTimerDelegate_ranks (mTree st) = (mTree st, None)"
      by (cases "mTree st") (simp_all add: LocHeap_pop_def LocHeap_peek_def)
    with inv' show ?thesis by (simp add: MsgTimerExpire_proc_def)
  next
    case (Some t)
    obtain tree where pop: "LocHeap_pop LocTimerDelegate_ranks (mTree st) = (tree, Some t)"
      using Some timers.pop_peek[of "mTree st"] by (metis prod.collapse)
    have "timer_inv (?st\<lparr>mTree := tree\<rparr>) \<and> live ?st t"
    proof (rule pop_tracked[OF inv'])
      show "add_mset t (heap_mset tree) = heap_mset (mTree ?st)"
        using timers.pop_contents[OF Some] by (simp add: pop)
      show "checkTree LocTimerDelegate_ranks tree"
        using timers.pop_invar[of "mTree st"] inv by (simp add: timer_inv_def heap_ok_def tracked_def pop)
    qed
    then have "timer_inv (expire_loop now t (?st\<lparr>mTree := tree\<rparr>))"
      by (intro expire_loop_inv) (simp_all add: live_def)
    then show ?thesis by (simp add: MsgTimerExpire_proc_def pop)
  qed
qed

lemma proc_inv:
  "timer_inv st \<Longrightarrow> msgs st = m # ms \<Longrightarrow> timer_inv (proc_msg now m (st\<lparr>msgs := ms\<rparr>))"
  unfolding proc_msg_def by (cases m) (simp_all only: timer_msg.case push_inv remove_inv expire_msg_inv)

lemma poll_inv: "timer_inv st \<Longrightarrow> timer_inv (LocTimerContainer_expire st)"
  by (simp add: LocTimerContainer_expire_def timer_inv_def inv_defs tracked_def live_def known_def)

lemma step_inv: "timer_step st st' \<Longrightarrow> timer_inv st \<Longrightarrow> timer_inv st'"
  by (erule timer_step.cases) (simp_all only: start_inv stop_inv proc_inv poll_inv)

lemma reachable_inv: "timer_reachable st \<Longrightarrow> timer_inv st"
  by (induction rule: timer_reachable.induct) (auto intro: timer_init_inv step_inv)

section \<open>What a step leaves alone\<close>

text \<open>A delegate without a client stays without one, and is not called.\<close>

definition stays_quiet :: "ptr \<Rightarrow> timer_sys \<Rightarrow> timer_sys \<Rightarrow> bool" where
  "stays_quiet a st st' \<longleftrightarrow>
     (done_with st a \<longrightarrow> done_with st' a \<and> (a \<in> set (called st') \<longrightarrow> a \<in> set (called st)))"

lemma stays_quiet_trans: "stays_quiet a s1 s2 \<Longrightarrow> stays_quiet a s2 s3 \<Longrightarrow> stays_quiet a s1 s3"
  by (auto simp: stays_quiet_def)

lemma stop_quiet: "stays_quiet a st (snd (LocTimer_stop c st))"
  by (auto simp: stays_quiet_def done_with_def called_def LocTimer_stop_def destroyLocked_def
      LocTimerContainer_remove_def Let_def split: option.splits)

lemma start_quiet: "stays_quiet a st (snd (LocTimer_start c ms now st))"
  by (auto simp: stays_quiet_def done_with_def called_def LocTimer_start_def
      LocTimerContainer_add_def Let_def split: option.splits prod.splits)

lemma called_append [simp]:
  "done_with (st\<lparr>callbacks := cs\<rparr>) a = done_with st a"
  "called (st\<lparr>callbacks := callbacks st @ [(c, t, now)]\<rparr>) = called st @ [dAddr t]"
  by (simp_all add: done_with_def called_def)

lemma callback_quiet:
  "stays_quiet a st st' \<Longrightarrow> \<not> (done_with st a \<and> dAddr t = a) \<Longrightarrow>
   stays_quiet a st (st'\<lparr>callbacks := callbacks st' @ [(c, t, now)]\<rparr>)"
  unfolding stays_quiet_def by auto

lemma expire_quiet: "stays_quiet a st (LocTimerDelegate_expire now t st)"
proof (cases "delegates st (dAddr t)")
  case (Some f)
  show ?thesis
  proof (cases "mClient f")
    case (Some c)
    have "\<not> (done_with st a \<and> dAddr t = a)"
      using Some \<open>delegates st (dAddr t) = Some f\<close> unfolding done_with_def by fastforce
    moreover obtain b st1 where stop: "LocTimer_stop c st = (b, st1)" by (cases "LocTimer_stop c st")
    moreover have "stays_quiet a st st1" using stop_quiet[of a st c] by (simp add: stop)
    ultimately show ?thesis
      unfolding LocTimerDelegate_expire_def \<open>delegates st (dAddr t) = Some f\<close>
      by (simp add: Some callback_quiet)
  qed (simp add: LocTimerDelegate_expire_def Some stays_quiet_def)
qed (simp add: LocTimerDelegate_expire_def stays_quiet_def done_with_def called_def)

lemma quiet_mTree [simp]: "stays_quiet a (st\<lparr>mTree := tree\<rparr>) st' = stays_quiet a st st'"
  "stays_quiet a (st\<lparr>msgs := ms\<rparr>) st' = stays_quiet a st st'"
  "stays_quiet a st (st'\<lparr>mTree := tree\<rparr>) = stays_quiet a st st'"
  "stays_quiet a st (updateSoonestTime p st') = stays_quiet a st st'"
  by (simp_all add: stays_quiet_def done_with_def called_def)

lemma expire_loop_quiet: "stays_quiet a st (expire_loop now t st)"
proof (induction now t st rule: expire_loop.induct)
  case (1 now t st)
  let ?st = "LocTimerDelegate_expire now t st"
  obtain tree t' where pop: "popIfOutRanks (timerOfNow now) (mTree ?st) = (tree, t')"
    by (cases "popIfOutRanks (timerOfNow now) (mTree ?st)")
  show ?case
  proof (cases t')
    case None
    then show ?thesis
      using expire_quiet[of a st now t] pop by (simp add: expire_loop.simps[of now t st] Let_def)
  next
    case (Some t'')
    with pop have "stays_quiet a (?st\<lparr>mTree := tree\<rparr>) (expire_loop now t'' (?st\<lparr>mTree := tree\<rparr>))"
      by (intro "1.IH"[OF refl _ refl]) simp
    with pop Some show ?thesis
      using stays_quiet_trans[OF expire_quiet[of a st now t]]
      by (simp add: expire_loop.simps[of now t st] Let_def)
  qed
qed

lemma proc_quiet: "stays_quiet a st (proc_msg now m st)"
proof (cases m)
  case MsgTimerExpire
  have refl: "stays_quiet a st st" by (simp add: stays_quiet_def)
  have "stays_quiet a st (expire_loop now t (st\<lparr>mTree := tree\<rparr>))" for t tree
    using expire_loop_quiet[of a "st\<lparr>mTree := tree\<rparr>" now t] by simp
  then show ?thesis
    by (simp add: MsgTimerExpire proc_msg_def MsgTimerExpire_proc_def Let_def case_prod_beta refl
        split: option.split)
next
  case (MsgTimerRemove t)
  obtain tree r where "LocHeap_remove LocTimerDelegate_ranks (mTree st) t = (tree, r)"
    by (cases "LocHeap_remove LocTimerDelegate_ranks (mTree st) t")
  then show ?thesis
    by (simp add: MsgTimerRemove proc_msg_def MsgTimerRemove_proc_def Let_def
        stays_quiet_def done_with_def called_def)
qed (simp add: proc_msg_def MsgTimerPush_proc_def Let_def, simp add: stays_quiet_def)

lemma poll_quiet: "stays_quiet a st (LocTimerContainer_expire st)"
  by (auto simp: LocTimerContainer_expire_def stays_quiet_def done_with_def called_def)

lemma step_quiet: "timer_step st st' \<Longrightarrow> stays_quiet a st st'"
proof (erule timer_step.cases, goal_cases)
  case (3 st m ms now)
  then show ?case using proc_quiet[of a "st\<lparr>msgs := ms\<rparr>" now m] by simp
qed (simp_all add: start_quiet stop_quiet poll_quiet)

section \<open>The kernel timer\<close>

text \<open>
  The kernel timer is set to the soonest delegate and watched; only while an expiry is being
  handled may it not be.
\<close>

definition armed :: "timer_sys \<Rightarrow> bool" where
  "armed st \<longleftrightarrow> (\<forall>top. getSoonestTimer st = Some top \<longrightarrow>
     kPolled st \<and> kArmed st = Some (getFutureTime top))"

definition armed_or_expiring :: "timer_sys \<Rightarrow> bool" where
  "armed_or_expiring st \<longleftrightarrow> MsgTimerExpire \<in> set (msgs st) \<or> armed st"

lemma updateSoonestTime_armed: "armed (updateSoonestTime None st)"
  by (auto simp: armed_def updateSoonestTime_def getSoonestTimer_def Let_def split: option.splits)

lemma armed_cong:
  "mTree st' = mTree st \<Longrightarrow> kPolled st' = kPolled st \<Longrightarrow> kArmed st' = kArmed st \<Longrightarrow> armed st' = armed st"
  by (simp add: armed_def getSoonestTimer_def)

lemma push_armed: "armed st \<Longrightarrow> armed (MsgTimerPush_proc t st)"
  by (auto simp: armed_def MsgTimerPush_proc_def updateSoonestTime_def getSoonestTimer_def Let_def
      LocHeap_push_peek split: option.splits if_splits)

lemma remove_armed:
  assumes "armed st"
  shows "armed (MsgTimerRemove_proc t st)"
proof -
  obtain tree removed where rm: "LocHeap_remove LocTimerDelegate_ranks (mTree st) t = (tree, removed)"
    by (cases "LocHeap_remove LocTimerDelegate_ranks (mTree st) t")
  let ?st = "st\<lparr>mTree := tree\<rparr>"
  have "armed ?st" if "LocHeap_peek (mTree st) \<noteq> removed"
    using that assms LocHeap_remove_peek[of "mTree st" LocTimerDelegate_ranks t]
    by (auto simp: armed_def getSoonestTimer_def rm)
  then have "armed (if getSoonestTimer st = removed then updateSoonestTime None ?st else ?st)"
    by (simp add: updateSoonestTime_armed getSoonestTimer_def)
  then show ?thesis
    by (simp add: MsgTimerRemove_proc_def rm Let_def armed_def getSoonestTimer_def split: if_splits)
qed

lemma push_msgs [simp]: "msgs (MsgTimerPush_proc t st) = msgs st"
  by (simp add: MsgTimerPush_proc_def Let_def)

lemma remove_msgs [simp]: "msgs (MsgTimerRemove_proc t st) = msgs st"
  by (simp add: MsgTimerRemove_proc_def Let_def case_prod_beta)

lemma stop_kernel [simp]:
  "mTree (snd (LocTimer_stop c st)) = mTree st" "kPolled (snd (LocTimer_stop c st)) = kPolled st"
  "kArmed (snd (LocTimer_stop c st)) = kArmed st"
  "set (msgs st) \<subseteq> set (msgs (snd (LocTimer_stop c st)))"
  by (auto simp: LocTimer_stop_def destroyLocked_def LocTimerContainer_remove_def Let_def split: option.split)

lemma step_armed: "timer_step st st' \<Longrightarrow> armed_or_expiring st \<Longrightarrow> armed_or_expiring st'"
proof (erule timer_step.cases, goal_cases)
  case (1 now st c ms)
  then show ?case
    by (auto simp: armed_or_expiring_def armed_def getSoonestTimer_def LocTimer_start_def
        LocTimerContainer_add_def Let_def split: option.splits prod.splits)
next
  case (2 st c)
  then show ?case
    using armed_cong[of "snd (LocTimer_stop c st)" st] subsetD[OF stop_kernel(4)[of st c]]
    by (auto simp: armed_or_expiring_def)
next
  case (3 st m ms now)
  have "armed (st\<lparr>msgs := ms\<rparr>) = armed st" by (rule armed_cong) simp_all
  with 3 show ?case
    by (cases m) (auto simp: proc_msg_def armed_or_expiring_def push_armed remove_armed
        MsgTimerExpire_proc_def Let_def case_prod_beta updateSoonestTime_armed)
next
  case (4 st a now)
  then show ?case by (simp add: armed_or_expiring_def LocTimerContainer_expire_def)
qed

section \<open>What an expiry takes out of the heap\<close>

lemma filter_mset_all: "\<forall>x \<in># M. P x \<Longrightarrow> filter_mset P M = M"
  by (simp add: filter_mset_eq_conv)

lemma popIfOutRanks_spec:
  assumes "checkTree LocTimerDelegate_ranks tree" "\<forall>x \<in># heap_mset tree. timer_valid x" "timer_valid t"
  shows "case snd (popIfOutRanks t tree) of
      None \<Rightarrow> fst (popIfOutRanks t tree) = tree \<and> (\<forall>x \<in># heap_mset tree. time_less t x)
    | Some d \<Rightarrow> \<not> time_less t d \<and> heap_mset tree = add_mset d (heap_mset (fst (popIfOutRanks t tree))) \<and>
        checkTree LocTimerDelegate_ranks (fst (popIfOutRanks t tree))"
proof (cases "LocHeap_peek tree")
  case None
  then show ?thesis using timers.peek_None[of tree] by (simp add: popIfOutRanks_def)
next
  case (Some m)
  have m: "timer_valid m" using assms timers.peek_in[OF Some] by blast
  have high: "\<not> time_less x m" if "x \<in># heap_mset tree" for x
    using timers.peek_highest[of tree m x] assms Some that m by (auto simp: ranks_time_less)
  show ?thesis
  proof (cases "time_less t m")
    case True
    then have "time_less t x" if "x \<in># heap_mset tree" for x
      using high[OF that] by (auto simp: time_less_def)
    with True show ?thesis using assms m by (simp add: popIfOutRanks_def Some ranks_time_less)
  next
    case False
    obtain tree' where pop: "LocHeap_pop LocTimerDelegate_ranks tree = (tree', Some m)"
      using timers.pop_peek[of tree] Some by (metis prod.collapse)
    have "popIfOutRanks t tree = (tree', Some m)"
      using False assms m by (simp add: popIfOutRanks_def Some ranks_time_less pop)
    moreover have "heap_mset tree = add_mset m (heap_mset tree')" "checkTree LocTimerDelegate_ranks tree'"
      using timers.pop_contents[OF Some] timers.pop_invar[of tree] assms by (simp_all add: pop)
    ultimately show ?thesis using False by simp
  qed
qed

lemma expire_loop_heap:
  "checkTree LocTimerDelegate_ranks (mTree st) \<Longrightarrow> \<forall>x \<in># heap_mset (mTree st). timer_valid x \<Longrightarrow>
   timer_valid (timerOfNow now) \<Longrightarrow>
   heap_mset (mTree (expire_loop now t st)) =
     filter_mset (time_less (timerOfNow now)) (heap_mset (mTree st))"
proof (induction now t st rule: expire_loop.induct)
  case (1 now t st)
  let ?st = "LocTimerDelegate_expire now t st"
  obtain tree t' where pop: "popIfOutRanks (timerOfNow now) (mTree st) = (tree, t')"
    by (cases "popIfOutRanks (timerOfNow now) (mTree st)")
  note spec = popIfOutRanks_spec[OF "1.prems", unfolded pop]
  show ?case
  proof (cases t')
    case None
    with spec pop show ?thesis
      by (simp add: expire_loop.simps[of now t st] Let_def filter_mset_all)
  next
    case (Some d)
    with spec have d: "\<not> time_less (timerOfNow now) d" "heap_mset (mTree st) = add_mset d (heap_mset tree)"
      "checkTree LocTimerDelegate_ranks tree" by simp_all
    have popS: "popIfOutRanks (timerOfNow now) (mTree ?st) = (tree, Some d)" using pop Some by simp
    have "heap_mset (mTree (expire_loop now d (?st\<lparr>mTree := tree\<rparr>))) =
        filter_mset (time_less (timerOfNow now)) (heap_mset (mTree (?st\<lparr>mTree := tree\<rparr>)))"
      by (rule "1.IH"[OF refl popS[symmetric] refl]) (use "1.prems" d in simp_all)
    then show ?thesis
      unfolding expire_loop.simps[of now t st] Let_def popS by (simp add: d)
  qed
qed

section \<open>Runs\<close>

datatype timer_event = EStart nat u32 "int \<times> int" | EStop nat | EMsg "int \<times> int" | EPoll "int \<times> int"

fun timer_exec :: "timer_event \<Rightarrow> timer_sys \<Rightarrow> timer_sys option" where
  "timer_exec (EStart c ms now) st =
     (if 0 \<le> fst now \<and> fst now < 2 ^ 31 - 4294968 \<and> 0 \<le> snd now \<and> snd now < 1000000000
      then Some (snd (LocTimer_start c ms now st)) else None)"
| "timer_exec (EStop c) st = Some (snd (LocTimer_stop c st))"
| "timer_exec (EMsg now) st =
     (case msgs st of [] \<Rightarrow> None | m # ms \<Rightarrow> Some (proc_msg now m (st\<lparr>msgs := ms\<rparr>)))"
| "timer_exec (EPoll now) st =
     (if kPolled st \<and> (case kArmed st of None \<Rightarrow> False | Some a \<Rightarrow> time_le a now)
      then Some (LocTimerContainer_expire st) else None)"

fun timer_run :: "timer_event list \<Rightarrow> timer_sys \<Rightarrow> timer_sys option" where
  "timer_run [] st = Some st"
| "timer_run (e # es) st = (case timer_exec e st of None \<Rightarrow> None | Some st' \<Rightarrow> timer_run es st')"

lemma timer_exec_step: "timer_exec e st = Some st' \<Longrightarrow> timer_step st st'"
  by (cases e) (auto intro: timer_step.intros split: list.splits if_splits option.splits)

lemma timer_run_reachable:
  "timer_reachable st \<Longrightarrow> timer_run es st = Some st' \<Longrightarrow> timer_reachable st'"
proof (induction es arbitrary: st)
  case (Cons e es)
  then obtain st1 where "timer_exec e st = Some st1" "timer_run es st1 = Some st'"
    by (auto split: option.splits)
  with Cons show ?case using timer_reachable.step timer_exec_step by blast
qed simp

lemma timer_run_init: "timer_run es timer_init = Some st \<Longrightarrow> timer_reachable st"
  using timer_run_reachable timer_reachable.init by blast

lemma timer_run_steps: "timer_run es st = Some st' \<Longrightarrow> timer_step\<^sup>*\<^sup>* st st'"
  by (induction es arbitrary: st)
    (auto split: option.splits intro: converse_rtranclp_into_rtranclp timer_exec_step)

lemma steps_quiet: "timer_step\<^sup>*\<^sup>* st st' \<Longrightarrow> stays_quiet a st st'"
  by (induction rule: rtranclp_induct) (simp add: stays_quiet_def, blast intro: stays_quiet_trans step_quiet)

lemma not_called: "timer_inv st \<Longrightarrow> mTimer st c = Some t \<Longrightarrow> dAddr t \<notin> set (called st)"
  using client_okD(1) by (fastforce simp: timer_inv_def callbacks_ok_def done_with_def)

section \<open>Properties of the timer service\<close>

text \<open>Two timers running in the heap: one due at 10.1 s, one at 20 s after boot.\<close>

definition two_timers :: "timer_event list" where
  "two_timers = [EStart 7 100 (10, 0), EStart 8 10000 (10, 0), EMsg (10, 0), EMsg (10, 0)]"

text \<open>Runs of the model on concrete inputs.\<close>

lemma runs_check:
  "timer_run (two_timers @ [EStop 7, EMsg (11, 0)]) timer_init \<noteq> None"
  "timer_run (two_timers @ [EPoll (11, 0), EMsg (11, 0)]) timer_init \<noteq> None"
  "(case timer_run two_timers timer_init of None \<Rightarrow> False
    | Some st \<Rightarrow> timer_run [EPoll (11, 0), EMsg (11, 0), EMsg (11, 0)] (snd (LocTimer_stop 7 st)) \<noteq> None \<and>
        mTimer st 7 = Some \<lparr>dAddr = 1, tv_sec = 10, tv_nsec = 100000000\<rparr>)"
  "(case timer_run two_timers timer_init of None \<Rightarrow> False | Some st \<Rightarrow> getSoonestTimer st \<noteq> None)"
  "(case timer_run (two_timers @ [EStop 7, EPoll (11, 0), EMsg (11, 0), EMsg (11, 0)]) timer_init of
      None \<Rightarrow> False
    | Some st \<Rightarrow> (8, \<lparr>dAddr = 2, tv_sec = 20, tv_nsec = 0\<rparr>, (11, 0)) \<in> set (callbacks st))"
  by code_simp+

lemma runs_ok:
  "\<exists>st. timer_run (two_timers @ [EStop 7, EMsg (11, 0)]) timer_init = Some st"
  "\<exists>st. timer_run (two_timers @ [EPoll (11, 0), EMsg (11, 0)]) timer_init = Some st"
  "\<exists>st st'. timer_run two_timers timer_init = Some st \<and>
     timer_run [EPoll (11, 0), EMsg (11, 0), EMsg (11, 0)] (snd (LocTimer_stop 7 st)) = Some st' \<and>
     mTimer st 7 = Some \<lparr>dAddr = 1, tv_sec = 10, tv_nsec = 100000000\<rparr>"
  "\<exists>st first. timer_run two_timers timer_init = Some st \<and> getSoonestTimer st = Some first"
  "\<exists>st. timer_run (two_timers @ [EStop 7, EPoll (11, 0), EMsg (11, 0), EMsg (11, 0)]) timer_init = Some st \<and>
     (8, \<lparr>dAddr = 2, tv_sec = 20, tv_nsec = 0\<rparr>, (11, 0)) \<in> set (callbacks st)"
  using runs_check by (simp_all only: not_None_eq split: option.splits) blast+

text \<open>
  C7: In every run of the service, whatever the interleaving of the clients, the message thread
  and the polling thread, no delegate is used or deleted after it was deleted.
\<close>

theorem timer_no_use_after_free:
  assumes "timer_reachable st"
  shows "\<not> badAccess st \<and> (\<forall>t \<in># heap_mset (mTree st). delegates st (dAddr t) \<noteq> None)"
  using reachable_inv[OF assms] by (auto simp: timer_inv_def heap_ok_def tracked_def live_def)

theorem timer_no_use_after_free_witness:
  "\<not> badAccess (the (timer_run (two_timers @ [EStop 7, EMsg (11, 0)]) timer_init))"
proof -
  obtain st where st: "timer_run (two_timers @ [EStop 7, EMsg (11, 0)]) timer_init = Some st"
    using runs_ok(1) by blast
  from timer_no_use_after_free[OF timer_run_init[OF st]] st show ?thesis by simp
qed

text \<open>
  C29: A delegate's callback is made at most once, and the callbacks that were made are of
  delegates that have no client any more.
\<close>

theorem timer_callback_once:
  assumes "timer_reachable st"
  shows "distinct (called st) \<and> (\<forall>c t. mTimer st c = Some t \<longrightarrow> dAddr t \<notin> set (called st))"
  using reachable_inv[OF assms] not_called by (auto simp: timer_inv_def callbacks_ok_def)

theorem timer_callback_once_witness:
  "distinct (called (the (timer_run (two_timers @ [EPoll (11, 0), EMsg (11, 0)]) timer_init)))"
proof -
  obtain st where st: "timer_run (two_timers @ [EPoll (11, 0), EMsg (11, 0)]) timer_init = Some st"
    using runs_ok(2) by blast
  from timer_callback_once[OF timer_run_init[OF st]] st show ?thesis by simp
qed

text \<open>
  After \<open>stop\<close> returned on a running timer, its callback is never made, however the
  messages that were already on their way are handled.
\<close>

theorem timer_stop_silences:
  assumes "timer_reachable st" "mTimer st c = Some t"
    and "timer_step\<^sup>*\<^sup>* (snd (LocTimer_stop c st)) st'"
  shows "fst (LocTimer_stop c st) \<and> dAddr t \<notin> set (called st')"
proof -
  have inv: "timer_inv st" using assms(1) by (rule reachable_inv)
  note d = client_okD(1)[OF inv assms(2)]
  have "done_with (snd (LocTimer_stop c st)) (dAddr t)"
    using d client_okD(3)[OF inv d] by (simp add: done_with_def LocTimer_stop_def assms(2)
        destroyLocked_def LocTimerContainer_remove_def Let_def)
  moreover have "called (snd (LocTimer_stop c st)) = called st"
    by (simp add: called_def LocTimer_stop_def assms(2) destroyLocked_def d
        LocTimerContainer_remove_def Let_def)
  ultimately show ?thesis
    using steps_quiet[OF assms(3), of "dAddr t"] not_called[OF inv assms(2)] assms(2)
    by (auto simp: stays_quiet_def LocTimer_stop_def)
qed

text \<open>
  C18: No running timer is lost: whenever delegates are waiting in the heap, either the kernel
  timer is watched and set to the time of the soonest of them, or an expiry is queued, which
  sets it again when it is handled.
\<close>

theorem timer_kernel_armed:
  assumes "timer_reachable st"
  shows "armed_or_expiring st \<and> armed (MsgTimerExpire_proc now st)"
proof -
  have "armed_or_expiring timer_init"
    by (simp add: armed_or_expiring_def armed_def getSoonestTimer_def timer_init_def LocHeap_peek_def)
  with assms have "armed_or_expiring st"
    by (induction rule: timer_reachable.induct) (simp_all add: step_armed)
  then show ?thesis by (simp add: MsgTimerExpire_proc_def Let_def case_prod_beta updateSoonestTime_armed)
qed

text \<open>
  What an expiry takes out of the heap: the top, whatever its time, and every delegate whose
  time is not after now. Exactly the others, all due later, stay.
\<close>

theorem timer_expire_exact:
  assumes "timer_reachable st" "timer_valid (timerOfNow now)" "getSoonestTimer st = Some first"
  shows "heap_mset (mTree (MsgTimerExpire_proc now st)) =
    filter_mset (time_less (timerOfNow now)) (heap_mset (mTree st) - {#first#})"
proof -
  have peek: "LocHeap_peek (mTree st) = Some first" using assms(3) by (simp add: getSoonestTimer_def)
  obtain tree where pop: "LocHeap_pop LocTimerDelegate_ranks (mTree st) = (tree, Some first)"
    using timers.pop_peek[of "mTree st"] peek by (metis prod.collapse)
  have inv: "checkTree LocTimerDelegate_ranks (mTree st)" "\<forall>x \<in># heap_mset (mTree st). timer_valid x"
    using reachable_inv[OF assms(1)] by (auto simp: timer_inv_def heap_ok_def tracked_def)
  have heap: "heap_mset (mTree st) = add_mset first (heap_mset tree)"
    using timers.pop_contents[OF peek] by (simp add: pop)
  moreover have "checkTree LocTimerDelegate_ranks tree"
    using timers.pop_invar[of "mTree st"] inv by (simp add: pop)
  ultimately show ?thesis
    using inv assms(2) expire_loop_heap[of "st\<lparr>mTree := tree\<rparr>" now first]
    by (simp add: MsgTimerExpire_proc_def pop)
qed

theorem timer_stop_silences_witness:
  "\<exists>st st'. timer_run two_timers timer_init = Some st \<and>
     timer_run [EPoll (11, 0), EMsg (11, 0), EMsg (11, 0)] (snd (LocTimer_stop 7 st)) = Some st' \<and>
     1 \<notin> set (called st')"
proof -
  obtain st st' where st: "timer_run two_timers timer_init = Some st"
      and st': "timer_run [EPoll (11, 0), EMsg (11, 0), EMsg (11, 0)] (snd (LocTimer_stop 7 st)) = Some st'"
      and t: "mTimer st 7 = Some \<lparr>dAddr = 1, tv_sec = 10, tv_nsec = 100000000\<rparr>"
    using runs_ok(3) by blast
  from timer_stop_silences[OF timer_run_init[OF st] t timer_run_steps[OF st']] st st'
  show ?thesis by auto
qed

theorem timer_kernel_armed_witness:
  "armed_or_expiring (the (timer_run two_timers timer_init))"
proof -
  obtain st where st: "timer_run two_timers timer_init = Some st" using runs_ok(3) by blast
  from timer_kernel_armed[OF timer_run_init[OF st]] st show ?thesis by simp
qed

theorem timer_expire_exact_witness:
  "\<exists>st first. timer_run two_timers timer_init = Some st \<and> getSoonestTimer st = Some first \<and>
     heap_mset (mTree (MsgTimerExpire_proc (11, 0) st)) =
       filter_mset (time_less (timerOfNow (11, 0))) (heap_mset (mTree st) - {#first#})"
proof -
  obtain st first where st: "timer_run two_timers timer_init = Some st" "getSoonestTimer st = Some first"
    using runs_ok(4) by blast
  have "timer_valid (timerOfNow (11, 0))" by (simp add: timer_valid_def timerOfNow_def)
  from timer_expire_exact[OF timer_run_init[OF st(1)] this st(2)] st show ?thesis by blast
qed

text \<open>
  An expiry can fire a timer early. The comment in the code says that what is popped is
  what \<open>outRanks now, i.e. has time older than now\<close>; the first delegate is popped without
  that test, so that when the expired timer is stopped in the meantime, the removal
  handled before the expiry leaves a timer that is due about nine seconds later to be called back.
\<close>

theorem timer_fires_early:
  "\<exists>st c t now. timer_reachable st \<and> (c, t, now) \<in> set (callbacks st) \<and> time_less (timerOfNow now) t \<and>
     tv_sec t - fst now = 9"
proof -
  obtain st where st: "timer_run (two_timers @ [EStop 7, EPoll (11, 0), EMsg (11, 0), EMsg (11, 0)]) timer_init = Some st"
      "(8, \<lparr>dAddr = 2, tv_sec = 20, tv_nsec = 0\<rparr>, (11, 0)) \<in> set (callbacks st)"
    using runs_ok(5) by blast
  then have "timer_reachable st" by (intro timer_run_init)
  with st(2) show ?thesis by (force simp: time_less_def timerOfNow_def)
qed

end
