(* ===== verification/Linked_List.thy ===== *)
theory Linked_List
  imports Prelude "HOL-Library.Monad_Syntax"
begin

text \<open>
  The doubly linked list of \<open>gps/utils/linked_list.c\<close>, over a memory in which its elements and
  list headers live at addresses. An access through a pointer that points to nothing, and a loop
  that does not end, are \<open>None\<close>. What \<open>malloc\<close> or \<open>calloc\<close> answers is an argument; the
  callbacks \<open>dealloc\<close> are addresses, and their calls are logged.
\<close>

section \<open>Memory\<close>

datatype linked_list_err_type =
  eLINKED_LIST_SUCCESS
| eLINKED_LIST_FAILURE_GENERAL
| eLINKED_LIST_INVALID_PARAMETER
| eLINKED_LIST_INVALID_HANDLE
| eLINKED_LIST_UNAVAILABLE_RESOURCE
| eLINKED_LIST_INSUFFICIENT_BUFFER

record list_element =
  next_elem :: ptr
  prev_elem :: ptr
  data_ptr :: ptr
  dealloc_func :: ptr

record list_state =
  p_head :: ptr
  p_tail :: ptr

text \<open>
  The memory: elements, list headers, and the log of the calls of \<open>dealloc\<close> (the function and
  the data it was given).
\<close>

record ll_mem =
  elems :: "ptr \<Rightarrow> list_element option"
  lists :: "ptr \<Rightarrow> list_state option"
  dealloc_log :: "(ptr \<times> ptr) list"

definition set_elem :: "ptr \<Rightarrow> list_element \<Rightarrow> ll_mem \<Rightarrow> ll_mem" where
  "set_elem a e m = m\<lparr>elems := (elems m)(a \<mapsto> e)\<rparr>"

definition free_elem :: "ptr \<Rightarrow> ll_mem \<Rightarrow> ll_mem" where
  "free_elem a m = m\<lparr>elems := (elems m)(a := None)\<rparr>"

definition set_list :: "ptr \<Rightarrow> list_state \<Rightarrow> ll_mem \<Rightarrow> ll_mem" where
  "set_list l s m = m\<lparr>lists := (lists m)(l \<mapsto> s)\<rparr>"

text \<open>\<open>if (f != NULL) f(data)\<close>\<close>

definition call_dealloc :: "list_element \<Rightarrow> ll_mem \<Rightarrow> ll_mem" where
  "call_dealloc e m =
     (if dealloc_func e \<noteq> NULL then m\<lparr>dealloc_log := dealloc_log m @ [(dealloc_func e, data_ptr e)]\<rparr> else m)"

lemmas mem_defs = set_elem_def free_elem_def set_list_def call_dealloc_def

section \<open>Operations\<close>

text \<open>\<open>list_data\<close> says whether the address for the handle is not NULL; \<open>l\<close> is what \<open>calloc\<close> returns.\<close>

definition linked_list_init :: "bool \<Rightarrow> ptr \<Rightarrow> ll_mem \<Rightarrow> linked_list_err_type \<times> ptr option \<times> ll_mem" where
  "linked_list_init list_data l m =
     (if \<not> list_data then (eLINKED_LIST_INVALID_PARAMETER, None, m)
      else if l = NULL then (eLINKED_LIST_FAILURE_GENERAL, None, m)
      else (eLINKED_LIST_SUCCESS, Some l, set_list l \<lparr>p_head = NULL, p_tail = NULL\<rparr> m))"

definition linked_list_add ::
  "ptr \<Rightarrow> ptr \<Rightarrow> ptr \<Rightarrow> ptr \<Rightarrow> ll_mem \<Rightarrow> (linked_list_err_type \<times> ll_mem) option" where
  "linked_list_add list_data data_obj dealloc elem m =
     (if list_data = NULL then Some (eLINKED_LIST_INVALID_HANDLE, m)
      else if data_obj = NULL then Some (eLINKED_LIST_INVALID_PARAMETER, m)
      else if elem = NULL then Some (eLINKED_LIST_FAILURE_GENERAL, m)
      else do {
        p_list \<leftarrow> lists m list_data;
        let tmp = p_head p_list;
        let m = set_elem elem \<lparr>next_elem = tmp, prev_elem = NULL, data_ptr = data_obj, dealloc_func = dealloc\<rparr> m;
        let p_list = p_list\<lparr>p_head := elem\<rparr>;
        if tmp \<noteq> NULL
        then do {
          e \<leftarrow> elems m tmp;
          Some (eLINKED_LIST_SUCCESS, set_list list_data p_list (set_elem tmp (e\<lparr>prev_elem := elem\<rparr>) m))
        }
        else Some (eLINKED_LIST_SUCCESS, set_list list_data (p_list\<lparr>p_tail := elem\<rparr>) m)
      })"

text \<open>
  \<open>data_obj\<close> says whether the output address is not NULL; the second component of the result is
  what is written there, if anything is.
\<close>

definition linked_list_remove ::
  "ptr \<Rightarrow> bool \<Rightarrow> ll_mem \<Rightarrow> (linked_list_err_type \<times> ptr option \<times> ll_mem) option" where
  "linked_list_remove list_data data_obj m =
     (if list_data = NULL then Some (eLINKED_LIST_INVALID_HANDLE, None, m)
      else if \<not> data_obj then Some (eLINKED_LIST_INVALID_PARAMETER, None, m)
      else do {
        p_list \<leftarrow> lists m list_data;
        if p_tail p_list = NULL then Some (eLINKED_LIST_UNAVAILABLE_RESOURCE, None, m)
        else do {
          let tmp = p_tail p_list;
          e \<leftarrow> elems m tmp;
          let p_list = p_list\<lparr>p_tail := prev_elem e\<rparr>;
          m \<leftarrow> (if p_tail p_list \<noteq> NULL
               then do {
                 t \<leftarrow> elems m (p_tail p_list);
                 Some (set_list list_data p_list (set_elem (p_tail p_list) (t\<lparr>next_elem := NULL\<rparr>) m))
               }
               else Some (set_list list_data (p_list\<lparr>p_head := p_tail p_list\<rparr>) m));
          Some (eLINKED_LIST_SUCCESS, Some (data_ptr e), free_elem tmp m)
        }
      })"

text \<open>The result is an \<open>int\<close>; the error code is \<open>-3\<close>.\<close>

definition linked_list_empty :: "ptr \<Rightarrow> ll_mem \<Rightarrow> int option" where
  "linked_list_empty list_data m =
     (if list_data = NULL then Some (- 3)
      else do { p_list \<leftarrow> lists m list_data; Some (if p_head p_list = NULL then 1 else 0) })"

partial_function (option) flush_loop :: "ptr \<Rightarrow> ll_mem \<Rightarrow> ll_mem option" where
  "flush_loop l m = do {
     p_list \<leftarrow> lists m l;
     if p_head p_list = NULL then Some m
     else do {
       e \<leftarrow> elems m (p_head p_list);
       flush_loop l (set_list l (p_list\<lparr>p_head := next_elem e\<rparr>)
         (free_elem (p_head p_list) (call_dealloc e m)))
     }
   }"

definition linked_list_flush :: "ptr \<Rightarrow> ll_mem \<Rightarrow> (linked_list_err_type \<times> ll_mem) option" where
  "linked_list_flush list_data m =
     (if list_data = NULL then Some (eLINKED_LIST_INVALID_HANDLE, m)
      else do {
        m \<leftarrow> flush_loop list_data m;
        p_list \<leftarrow> lists m list_data;
        Some (eLINKED_LIST_SUCCESS, set_list list_data (p_list\<lparr>p_tail := NULL\<rparr>) m)
      })"

text \<open>\<open>list_data\<close>: the handle, if the address it is kept at is not NULL. The handle becomes NULL.\<close>

definition linked_list_destroy :: "ptr option \<Rightarrow> ll_mem \<Rightarrow> (linked_list_err_type \<times> ll_mem) option" where
  "linked_list_destroy list_data m =
     (case list_data of
        None \<Rightarrow> Some (eLINKED_LIST_INVALID_HANDLE, m)
      | Some l \<Rightarrow> do {
          (_, m) \<leftarrow> linked_list_flush l m;
          Some (eLINKED_LIST_SUCCESS, m\<lparr>lists := (lists m)(l := None)\<rparr>)
        })"

text \<open>Taking the element \<open>tmp\<close> out of the list: the body of \<open>if (rm_if_found)\<close>.\<close>

definition search_unlink :: "ptr \<Rightarrow> bool \<Rightarrow> ptr \<Rightarrow> ll_mem \<Rightarrow> ll_mem option" where
  "search_unlink l data_p tmp m = do {
     e \<leftarrow> elems m tmp;
     m \<leftarrow> (if prev_elem e = NULL
          then do { s \<leftarrow> lists m l; Some (set_list l (s\<lparr>p_head := next_elem e\<rparr>) m) }
          else do { p \<leftarrow> elems m (prev_elem e); Some (set_elem (prev_elem e) (p\<lparr>next_elem := next_elem e\<rparr>) m) });
     e \<leftarrow> elems m tmp;
     m \<leftarrow> (if next_elem e = NULL
          then do { s \<leftarrow> lists m l; Some (set_list l (s\<lparr>p_tail := prev_elem e\<rparr>) m) }
          else do { n \<leftarrow> elems m (next_elem e); Some (set_elem (next_elem e) (n\<lparr>prev_elem := prev_elem e\<rparr>) m) });
     e \<leftarrow> elems m tmp;
     Some (free_elem tmp (if \<not> data_p then call_dealloc e m else m))
   }"

partial_function (option) search_loop ::
  "ptr \<Rightarrow> bool \<Rightarrow> (ptr \<Rightarrow> bool) \<Rightarrow> bool \<Rightarrow> ptr \<Rightarrow> ll_mem \<Rightarrow> (ptr option \<times> ll_mem) option" where
  "search_loop l data_p equal rm_if_found tmp m =
     (if tmp = NULL then Some (None, m)
      else do {
        e \<leftarrow> elems m tmp;
        if equal (data_ptr e)
        then do {
          m \<leftarrow> (if rm_if_found then search_unlink l data_p tmp m else Some m);
          Some (Some (data_ptr e), m)
        }
        else search_loop l data_p equal rm_if_found (next_elem e) m
      })"

text \<open>
  \<open>equal = None\<close> is the NULL function pointer, else it is the comparison with \<open>data_0\<close>. The
  second component is what \<open>*data_p\<close> is set to, if it is written at all.
\<close>

definition linked_list_search ::
  "ptr \<Rightarrow> bool \<Rightarrow> (ptr \<Rightarrow> bool) option \<Rightarrow> bool \<Rightarrow> ll_mem \<Rightarrow>
   (linked_list_err_type \<times> ptr option \<times> ll_mem) option" where
  "linked_list_search list_data data_p equal rm_if_found m =
     (case equal of
        None \<Rightarrow> Some (eLINKED_LIST_INVALID_HANDLE, None, m)
      | Some eq \<Rightarrow>
          if list_data = NULL then Some (eLINKED_LIST_INVALID_HANDLE, None, m)
          else do {
            p_list \<leftarrow> lists m list_data;
            if p_tail p_list = NULL then Some (eLINKED_LIST_UNAVAILABLE_RESOURCE, None, m)
            else do {
              (found, m) \<leftarrow> search_loop list_data data_p eq rm_if_found (p_head p_list) m;
              Some (eLINKED_LIST_SUCCESS,
                    if data_p then Some (case found of None \<Rightarrow> NULL | Some d \<Rightarrow> d) else None, m)
            }
          })"

section \<open>The list a memory holds\<close>

text \<open>
  \<open>seg h p as q\<close>: the elements at the addresses \<open>as\<close> are linked in this order, the first one
  back to \<open>p\<close> and the last one on to \<open>q\<close>.
\<close>

definition first_or :: "ptr list \<Rightarrow> ptr \<Rightarrow> ptr" where
  "first_or as q = (case as of [] \<Rightarrow> q | a # _ \<Rightarrow> a)"

definition last_or :: "ptr list \<Rightarrow> ptr \<Rightarrow> ptr" where
  "last_or as p = (if as = [] then p else last as)"

fun seg :: "(ptr \<Rightarrow> list_element option) \<Rightarrow> ptr \<Rightarrow> ptr list \<Rightarrow> ptr \<Rightarrow> bool" where
  "seg h p [] q = True"
| "seg h p (a # as) q =
     (a \<noteq> NULL \<and> (case h a of None \<Rightarrow> False | Some e \<Rightarrow> prev_elem e = p \<and> next_elem e = first_or as q) \<and>
      seg h a as q)"

definition dlist :: "ll_mem \<Rightarrow> ptr \<Rightarrow> ptr list \<Rightarrow> bool" where
  "dlist m l as \<longleftrightarrow> lists m l = Some \<lparr>p_head = first_or as NULL, p_tail = last_or as NULL\<rparr> \<and>
     distinct as \<and> seg (elems m) NULL as NULL"

text \<open>The entries of a list: data and deallocation function of each element.\<close>

definition entry :: "(ptr \<Rightarrow> list_element option) \<Rightarrow> ptr \<Rightarrow> ptr \<times> ptr" where
  "entry h a = (case h a of None \<Rightarrow> (NULL, NULL) | Some e \<Rightarrow> (data_ptr e, dealloc_func e))"

definition ll_rep :: "ll_mem \<Rightarrow> ptr \<Rightarrow> (ptr \<times> ptr) list \<Rightarrow> bool" where
  "ll_rep m l xs \<longleftrightarrow> (\<exists>as. dlist m l as \<and> xs = map (entry (elems m)) as)"

lemma first_last_simps [simp]:
  "first_or [] q = q" "first_or (a # as) q = a" "last_or [] p = p" "last_or (as @ [a]) p = a"
  "last_or (a # as) p = last_or as a"
  by (simp_all add: first_or_def last_or_def)

lemma first_or_append [simp]: "first_or (xs @ ys) q = first_or xs (first_or ys q)"
  by (simp add: first_or_def split: list.split)

lemma last_or_append [simp]: "last_or (xs @ ys) p = last_or ys (last_or xs p)"
  by (simp add: last_or_def)

lemma last_or_in: "last_or as NULL \<noteq> NULL \<Longrightarrow> last_or as NULL \<in> set as"
  by (simp add: last_or_def split: if_splits)

lemma seg_append [simp]:
  "seg h p (xs @ ys) q \<longleftrightarrow> seg h p xs (first_or ys q) \<and> seg h (last_or xs p) ys q"
  by (induction xs arbitrary: p) (auto split: option.splits)

lemma seg_upd [simp]: "a \<notin> set as \<Longrightarrow> seg (h(a := x)) p as q = seg h p as q"
  by (induction as arbitrary: p) auto

lemma seg_not_NULL: "seg h p as q \<Longrightarrow> NULL \<notin> set as"
  by (induction as arbitrary: p) auto

lemma seg_alloc: "seg h p as q \<Longrightarrow> a \<in> set as \<Longrightarrow> \<exists>e. h a = Some e"
  by (induction as arbitrary: p) (auto split: option.splits)

lemma entry_upd [simp]:
  "a \<notin> set as \<Longrightarrow> map (entry (h(a := x))) as = map (entry h) as"
  by (auto simp: entry_def)

lemma last_or_NULL_iff: "seg h p as q \<Longrightarrow> last_or as NULL = NULL \<longleftrightarrow> as = []"
  using seg_not_NULL[of h p as q] last_in_set[of as] by (metis last_or_def)

lemma first_or_NULL_iff: "seg h p as q \<Longrightarrow> first_or as NULL = NULL \<longleftrightarrow> as = []"
  by (cases as) auto

section \<open>What the operations do to the list\<close>

lemma dlist_seg: "dlist m l as \<Longrightarrow> seg (elems m) NULL as NULL"
  by (simp add: dlist_def)

lemma dlist_fresh: "dlist m l as \<Longrightarrow> elems m a = None \<Longrightarrow> a \<notin> set as"
  using seg_alloc[of "elems m" NULL as NULL a] by (auto simp: dlist_def)

lemma seg_prev_upd:
  "h b = Some e \<Longrightarrow> seg h p (b # bs) q \<Longrightarrow> b \<notin> set bs \<Longrightarrow> seg (h(b \<mapsto> e\<lparr>prev_elem := p'\<rparr>)) p' (b # bs) q"
  by simp

lemma seg_next_upd:
  "h b = Some e \<Longrightarrow> seg h p (bs @ [b]) q \<Longrightarrow> b \<notin> set bs \<Longrightarrow>
   seg (h(b \<mapsto> e\<lparr>next_elem := q'\<rparr>)) p (bs @ [b]) q'"
  by simp

lemma entry_link_upd:
  "h b = Some e \<Longrightarrow> data_ptr e' = data_ptr e \<Longrightarrow> dealloc_func e' = dealloc_func e \<Longrightarrow>
   entry (h(b \<mapsto> e')) = entry h"
  by (auto simp: entry_def fun_eq_iff)

lemma add_dlist:
  assumes rep: "dlist m l as" and l: "l \<noteq> NULL" and d: "d \<noteq> NULL" and a: "a \<noteq> NULL" "elems m a = None"
  obtains m' where "linked_list_add l d f a m = Some (eLINKED_LIST_SUCCESS, m')" "dlist m' l (a # as)"
    "map (entry (elems m')) (a # as) = (d, f) # map (entry (elems m)) as"
    "dealloc_log m' = dealloc_log m" "\<forall>x. x \<noteq> a \<longrightarrow> elems m x = None \<longrightarrow> elems m' x = None"
proof -
  have fresh: "a \<notin> set as" using dlist_fresh[OF rep a(2)] .
  show ?thesis
  proof (cases as)
    case Nil
    then show ?thesis
      using that rep l d a by (simp add: linked_list_add_def dlist_def mem_defs entry_def)
  next
    case (Cons b bs)
    with rep obtain e where e: "elems m b = Some e" "b \<noteq> NULL"
      by (auto simp: dlist_def split: option.splits)
    let ?new = "\<lparr>next_elem = b, prev_elem = NULL, data_ptr = d, dealloc_func = f\<rparr>"
    let ?h = "(elems m)(a \<mapsto> ?new, b \<mapsto> e\<lparr>prev_elem := a\<rparr>)"
    have ab: "a \<noteq> b" using fresh Cons by simp
    have "seg (elems m) NULL (b # bs) NULL" "b \<notin> set bs" using rep Cons by (simp_all add: dlist_def)
    then have "seg ?h a as NULL" unfolding Cons
      using e ab fresh Cons by simp
    then have "dlist (m\<lparr>elems := ?h, lists := (lists m)(l \<mapsto> \<lparr>p_head = a, p_tail = last_or as a\<rparr>)\<rparr>) l (a # as)"
      using rep a ab Cons fresh by (simp add: dlist_def)
    moreover have "last_or as a = last_or as NULL" using Cons by simp
    moreover have "linked_list_add l d f a m = Some (eLINKED_LIST_SUCCESS,
        m\<lparr>elems := ?h, lists := (lists m)(l \<mapsto> \<lparr>p_head = a, p_tail = last_or as NULL\<rparr>)\<rparr>)"
      using rep l d a e ab Cons by (simp add: linked_list_add_def dlist_def mem_defs)
    moreover have "map (entry ?h) (a # as) = (d, f) # map (entry (elems m)) as"
      using fresh e ab by (auto simp: entry_def)
    ultimately show ?thesis using that e by simp
  qed
qed

lemma remove_dlist:
  assumes rep: "dlist m l (as @ [a])" and l: "l \<noteq> NULL"
  obtains m' where "linked_list_remove l True m = Some (eLINKED_LIST_SUCCESS, Some (fst (entry (elems m) a)), m')"
    "dlist m' l as" "map (entry (elems m')) as = map (entry (elems m)) as"
    "dealloc_log m' = dealloc_log m" "\<forall>x. elems m x = None \<longrightarrow> elems m' x = None" "elems m' a = None"
proof -
  from rep obtain e where e: "elems m a = Some e" "prev_elem e = last_or as NULL" and a: "a \<noteq> NULL" "a \<notin> set as"
    by (auto simp: dlist_def split: option.splits)
  show ?thesis
  proof (cases as rule: rev_cases)
    case Nil
    then show ?thesis
      using that rep l e a by (simp add: linked_list_remove_def dlist_def mem_defs entry_def)
  next
    case (snoc bs b)
    with rep obtain t where t: "elems m b = Some t" "b \<noteq> NULL" "b \<notin> set bs" "a \<noteq> b"
      by (auto simp: dlist_def split: option.splits)
    let ?h = "((elems m)(b \<mapsto> t\<lparr>next_elem := NULL\<rparr>))(a := None)"
    have "seg (elems m) NULL as a" using rep snoc t by (simp add: dlist_def)
    then have "seg ?h NULL as NULL" using t snoc a by simp
    moreover have "map (entry ?h) as = map (entry (elems m)) as"
      using a t by (auto simp: entry_def)
    moreover have "linked_list_remove l True m = Some (eLINKED_LIST_SUCCESS, Some (fst (entry (elems m) a)),
        m\<lparr>elems := ?h, lists := (lists m)(l \<mapsto> \<lparr>p_head = first_or as NULL, p_tail = b\<rparr>)\<rparr>)"
      using rep l e a t snoc by (simp add: linked_list_remove_def dlist_def mem_defs entry_def)
    ultimately show ?thesis
      using that rep snoc t by (simp add: dlist_def)
  qed
qed

lemma flush_loop_dlist:
  "dlist m l as \<or> (lists m l = Some \<lparr>p_head = first_or as NULL, p_tail = q\<rparr> \<and> distinct as \<and> seg (elems m) p as NULL) \<Longrightarrow>
   \<exists>m' q'. flush_loop l m = Some m' \<and> lists m' l = Some \<lparr>p_head = NULL, p_tail = q'\<rparr> \<and>
     dealloc_log m' = dealloc_log m @
       map (\<lambda>(d, f). (f, d)) (filter (\<lambda>(d, f). f \<noteq> NULL) (map (entry (elems m)) as)) \<and>
     elems m' = (\<lambda>x. if x \<in> set as then None else elems m x)"
proof (induction as arbitrary: m p q)
  case Nil
  then show ?case by (auto simp: flush_loop.simps[of l m] dlist_def)
next
  case (Cons a as)
  then obtain e q1 p1 where e: "elems m a = Some e" "next_elem e = first_or as NULL"
      and l: "lists m l = Some \<lparr>p_head = a, p_tail = q1\<rparr>"
      and a: "a \<noteq> NULL" "a \<notin> set as" "distinct as" "seg (elems m) a as NULL"
    by (auto simp: dlist_def split: option.splits)
  let ?m = "set_list l \<lparr>p_head = first_or as NULL, p_tail = q1\<rparr> (free_elem a (call_dealloc e m))"
  have m: "lists ?m l = Some \<lparr>p_head = first_or as NULL, p_tail = q1\<rparr>" "elems ?m = (elems m)(a := None)"
      "dealloc_log ?m = dealloc_log m @ (if dealloc_func e \<noteq> NULL then [(dealloc_func e, data_ptr e)] else [])"
    by (simp_all add: mem_defs)
  have "seg (elems ?m) a as NULL" using a by (simp add: m)
  with m(1) a(3) Cons.IH[of ?m q1 a] obtain m' q' where
      "flush_loop l ?m = Some m'" "lists m' l = Some \<lparr>p_head = NULL, p_tail = q'\<rparr>"
      "dealloc_log m' = dealloc_log ?m @
         map (\<lambda>(d, f). (f, d)) (filter (\<lambda>(d, f). f \<noteq> NULL) (map (entry (elems ?m)) as))"
      "elems m' = (\<lambda>x. if x \<in> set as then None else elems ?m x)"
    by auto
  moreover have "flush_loop l m = flush_loop l ?m"
    using a e l by (subst flush_loop.simps) simp
  moreover have "entry (elems m) a = (data_ptr e, dealloc_func e)" by (simp add: entry_def e)
  ultimately show ?case using a by (auto simp: m fun_eq_iff)
qed

lemma search_unlink_dlist:
  assumes rep: "dlist m l (xs @ a # ys)"
  obtains m' where "search_unlink l data_p a m = Some m'" "dlist m' l (xs @ ys)"
    "map (entry (elems m')) (xs @ ys) = map (entry (elems m)) (xs @ ys)"
    "dealloc_log m' = dealloc_log m @
       (if \<not> data_p \<and> snd (entry (elems m) a) \<noteq> NULL then [(snd (entry (elems m) a), fst (entry (elems m) a))] else [])"
proof -
  from rep obtain e where e: "elems m a = Some e" "prev_elem e = last_or xs NULL" "next_elem e = first_or ys NULL"
      and a: "a \<noteq> NULL" "a \<notin> set xs" "a \<notin> set ys" "distinct xs" "distinct ys" "set xs \<inter> set ys = {}"
      and xs: "seg (elems m) NULL xs a" and ys: "seg (elems m) a ys NULL"
    by (auto simp: dlist_def split: option.splits)
  note entry_a = entry_def[of "elems m" a, simplified e(1) option.case]
  let ?s = "\<lparr>p_head = first_or (xs @ ys) NULL, p_tail = last_or (xs @ ys) NULL\<rparr>"
  have fin: thesis if h: "seg h NULL (xs @ ys) NULL" "map (entry h) (xs @ ys) = map (entry (elems m)) (xs @ ys)"
      and run: "search_unlink l data_p a m =
        Some (m\<lparr>elems := h, lists := ls, dealloc_log := dealloc_log m @
          (if \<not> data_p \<and> dealloc_func e \<noteq> NULL then [(dealloc_func e, data_ptr e)] else [])\<rparr>)"
      and ls: "ls l = Some ?s" for h ls
    using that(1,2)[unfolded map_append] run ls h a \<open>\<And>m'. _ m' \<Longrightarrow> _ m' \<Longrightarrow> _ m' \<Longrightarrow> _ m' \<Longrightarrow> thesis\<close>
    by (simp add: dlist_def entry_a)
  note unl = search_unlink_def mem_defs e a rep[unfolded dlist_def, THEN conjunct1]
  show thesis
  proof (cases xs rule: rev_cases)
    case Nil
    show thesis
    proof (cases ys)
      case ys_Nil: Nil
      show thesis
        by (rule fin[of "(elems m)(a := None)" "(lists m)(l \<mapsto> ?s)"])
          (simp_all add: Nil ys_Nil unl)
    next
      case (Cons c cs)
      with ys a obtain k where k: "elems m c = Some k" "next_elem k = first_or cs NULL" "c \<noteq> NULL" "c \<noteq> a" "c \<notin> set cs"
        by (auto split: option.splits)
      show thesis
        by (rule fin[of "((elems m)(c \<mapsto> k\<lparr>prev_elem := NULL\<rparr>))(a := None)" "(lists m)(l \<mapsto> ?s)"])
          (use a ys k in \<open>simp_all add: Nil Cons unl entry_def\<close>)
    qed
  next
    case (snoc bs b)
    with xs a obtain t where t: "elems m b = Some t" "prev_elem t = last_or bs NULL" "b \<noteq> NULL" "b \<noteq> a" "b \<notin> set bs"
        "b \<notin> set ys"
      by (auto split: option.splits)
    have bs: "seg (elems m) NULL bs b" using xs snoc by simp
    show thesis
    proof (cases ys)
      case ys_Nil: Nil
      show thesis
        by (rule fin[of "((elems m)(b \<mapsto> t\<lparr>next_elem := NULL\<rparr>))(a := None)" "(lists m)(l \<mapsto> ?s)"])
          (use a bs t in \<open>simp_all add: snoc ys_Nil unl entry_def\<close>)
    next
      case (Cons c cs)
      with ys a obtain k where k: "elems m c = Some k" "next_elem k = first_or cs NULL" "c \<noteq> NULL" "c \<noteq> a" "c \<notin> set cs"
        by (auto split: option.splits)
      show thesis
        by (rule fin[of "((elems m)(b \<mapsto> t\<lparr>next_elem := c\<rparr>, c \<mapsto> k\<lparr>prev_elem := b\<rparr>))(a := None)" "lists m"])
          (use a bs ys t k in \<open>simp_all add: snoc Cons unl entry_def\<close>)
    qed
  qed
qed

lemma search_loop_none:
  "dlist m l (xs @ ys) \<Longrightarrow> \<forall>a \<in> set ys. \<not> eq (fst (entry (elems m) a)) \<Longrightarrow>
   search_loop l data_p eq rm (first_or ys NULL) m = Some (None, m)"
proof (induction ys arbitrary: xs)
  case Nil
  show ?case by (subst search_loop.simps) simp
next
  case (Cons a ys)
  then obtain e where e: "elems m a = Some e" "next_elem e = first_or ys NULL" "a \<noteq> NULL"
    by (auto simp: dlist_def split: option.splits)
  then show ?case
    using Cons.IH[of "xs @ [a]"] Cons.prems by (subst search_loop.simps) (simp add: entry_def)
qed

lemma search_loop_found:
  "dlist m l (xs @ ys @ a # zs) \<Longrightarrow> \<forall>b \<in> set ys. \<not> eq (fst (entry (elems m) b)) \<Longrightarrow>
   eq (fst (entry (elems m) a)) \<Longrightarrow>
   search_loop l data_p eq rm (first_or (ys @ a # zs) NULL) m =
     (if rm then search_unlink l data_p a m else Some m) \<bind>
     (\<lambda>m'. Some (Some (fst (entry (elems m) a)), m'))"
proof (induction ys arbitrary: xs)
  case Nil
  then obtain e where "elems m a = Some e" "a \<noteq> NULL"
    by (auto simp: dlist_def split: option.splits)
  with Nil show ?case by (subst search_loop.simps) (simp add: entry_def)
next
  case (Cons b ys)
  then obtain e where e: "elems m b = Some e" "next_elem e = first_or (ys @ a # zs) NULL" "b \<noteq> NULL"
    by (auto simp: dlist_def split: option.splits)
  then show ?case
    using Cons.IH[of "xs @ [b]"] Cons.prems by (subst search_loop.simps) (simp add: entry_def)
qed

section \<open>The operations on the entries\<close>

lemma add_rep:
  assumes "ll_rep m l xs" "l \<noteq> NULL" "d \<noteq> NULL" "a \<noteq> NULL" "elems m a = None"
  shows "\<exists>m'. linked_list_add l d f a m = Some (eLINKED_LIST_SUCCESS, m') \<and> ll_rep m' l ((d, f) # xs) \<and>
    dealloc_log m' = dealloc_log m"
proof -
  from assms(1) obtain as where as: "dlist m l as" "xs = map (entry (elems m)) as"
    by (auto simp: ll_rep_def)
  from add_dlist[OF as(1) assms(2-5), of f] as(2) show ?thesis
    unfolding ll_rep_def by metis
qed

lemma remove_rep:
  assumes "ll_rep m l (xs @ [(d, f)])" "l \<noteq> NULL"
  shows "\<exists>m'. linked_list_remove l True m = Some (eLINKED_LIST_SUCCESS, Some d, m') \<and> ll_rep m' l xs \<and>
    dealloc_log m' = dealloc_log m"
proof -
  from assms(1) obtain as a where as: "dlist m l (as @ [a])" "xs = map (entry (elems m)) as"
      "entry (elems m) a = (d, f)"
    by (auto simp: ll_rep_def map_eq_append_conv append_eq_map_conv)
  from remove_dlist[OF as(1) assms(2)] as(2,3) show ?thesis
    unfolding ll_rep_def by (metis fst_conv)
qed

lemma remove_empty_rep:
  "ll_rep m l [] \<Longrightarrow> l \<noteq> NULL \<Longrightarrow>
   linked_list_remove l True m = Some (eLINKED_LIST_UNAVAILABLE_RESOURCE, None, m)"
  by (auto simp: ll_rep_def dlist_def linked_list_remove_def)

lemma empty_rep:
  "ll_rep m l xs \<Longrightarrow> l \<noteq> NULL \<Longrightarrow> linked_list_empty l m = Some (if xs = [] then 1 else 0)"
  using first_or_NULL_iff by (fastforce simp: ll_rep_def dlist_def linked_list_empty_def)

definition deallocs :: "(ptr \<times> ptr) list \<Rightarrow> (ptr \<times> ptr) list" where
  "deallocs xs = map (\<lambda>(d, f). (f, d)) (filter (\<lambda>(d, f). f \<noteq> NULL) xs)"

lemma flush_rep:
  assumes "ll_rep m l xs" "l \<noteq> NULL"
  shows "\<exists>m'. linked_list_flush l m = Some (eLINKED_LIST_SUCCESS, m') \<and> ll_rep m' l [] \<and>
    dealloc_log m' = dealloc_log m @ deallocs xs"
proof -
  from assms(1) obtain as where as: "dlist m l as" "xs = map (entry (elems m)) as"
    by (auto simp: ll_rep_def)
  from flush_loop_dlist[OF disjI1[OF as(1)]] obtain m' q' where m': "flush_loop l m = Some m'"
      "lists m' l = Some \<lparr>p_head = NULL, p_tail = q'\<rparr>" "dealloc_log m' = dealloc_log m @ deallocs xs"
    unfolding deallocs_def as(2) by blast
  then show ?thesis
    using assms(2) by (auto simp: linked_list_flush_def ll_rep_def dlist_def set_list_def)
qed

lemma search_found_rep:
  assumes "ll_rep m l (xs @ (d, f) # ys)" "l \<noteq> NULL" "eq d" "\<forall>(d', f') \<in> set xs. \<not> eq d'"
  shows "\<exists>m'. linked_list_search l data_p (Some eq) rm m =
      Some (eLINKED_LIST_SUCCESS, if data_p then Some d else None, m') \<and>
    ll_rep m' l (if rm then xs @ ys else xs @ (d, f) # ys) \<and>
    dealloc_log m' = dealloc_log m @ (if rm \<and> \<not> data_p then deallocs [(d, f)] else [])"
proof -
  from assms(1) obtain as a bs where rep: "dlist m l (as @ a # bs)" and
      as: "xs = map (entry (elems m)) as" "entry (elems m) a = (d, f)" "ys = map (entry (elems m)) bs"
    by (auto simp: ll_rep_def append_eq_map_conv Cons_eq_map_conv)
  have none: "\<forall>b \<in> set as. \<not> eq (fst (entry (elems m) b))"
    using assms(4) as by (auto simp: case_prod_beta)
  have tail: "last_or (as @ a # bs) NULL \<noteq> NULL"
    using last_or_NULL_iff[OF dlist_seg[OF rep]] by simp
  have loop: "search_loop l data_p eq rm (first_or (as @ a # bs) NULL) m =
      (if rm then search_unlink l data_p a m else Some m) \<bind> (\<lambda>m'. Some (Some d, m'))"
    using search_loop_found[of m l "[]" as a bs eq data_p rm] rep none assms(3) as by simp
  show ?thesis
  proof (cases rm)
    case True
    obtain m' where m': "search_unlink l data_p a m = Some m'"
        "dlist m' l (as @ bs)" "map (entry (elems m')) (as @ bs) = map (entry (elems m)) (as @ bs)"
        "dealloc_log m' = dealloc_log m @ (if \<not> data_p \<and> f \<noteq> NULL then [(f, d)] else [])"
      by (rule search_unlink_dlist[OF rep, of data_p, unfolded as(2) fst_conv snd_conv])
    from m'(2,3) have "ll_rep m' l (xs @ ys)" unfolding ll_rep_def as by (metis map_append)
    with m'(1,4) True loop tail rep assms(2) show ?thesis
      by (auto simp: linked_list_search_def dlist_def deallocs_def)
  next
    case False
    with loop tail rep assms(1,2) show ?thesis
      by (auto simp: linked_list_search_def dlist_def)
  qed
qed

section \<open>The contract of a queue\<close>

text \<open>
  What a client that only adds and removes relies on: the entries come out in the order in which
  they were added. \<open>'h\<close> is what an insertion needs beside the entry (the address of the new
  element, the deallocation function); \<open>usable\<close> says when it may be used.
\<close>

datatype ('h, 'd) queue_op = Enq 'h 'd | Deq

fun queue_ok ::
  "('s \<Rightarrow> 'h \<Rightarrow> 'd \<Rightarrow> bool) \<Rightarrow> ('h \<Rightarrow> 'd \<Rightarrow> 's \<Rightarrow> 's option) \<Rightarrow> ('s \<Rightarrow> ('d option \<times> 's) option) \<Rightarrow>
   ('h, 'd) queue_op list \<Rightarrow> 's \<Rightarrow> bool" where
  "queue_ok usable enq deq [] s = True"
| "queue_ok usable enq deq (Enq h x # ops) s =
     (usable s h x \<and> (case enq h x s of None \<Rightarrow> True | Some s' \<Rightarrow> queue_ok usable enq deq ops s'))"
| "queue_ok usable enq deq (Deq # ops) s =
     (case deq s of None \<Rightarrow> True | Some (_, s') \<Rightarrow> queue_ok usable enq deq ops s')"

fun queue_run ::
  "('h \<Rightarrow> 'd \<Rightarrow> 's \<Rightarrow> 's option) \<Rightarrow> ('s \<Rightarrow> ('d option \<times> 's) option) \<Rightarrow> ('h, 'd) queue_op list \<Rightarrow> 's \<Rightarrow>
   ('d option list \<times> 's) option" where
  "queue_run enq deq [] s = Some ([], s)"
| "queue_run enq deq (Enq h x # ops) s =
     (case enq h x s of None \<Rightarrow> None | Some s' \<Rightarrow> queue_run enq deq ops s')"
| "queue_run enq deq (Deq # ops) s =
     (case deq s of None \<Rightarrow> None
      | Some (out, s') \<Rightarrow> map_option (\<lambda>(outs, t). (out # outs, t)) (queue_run enq deq ops s'))"

text \<open>The specification: the same run on a list whose head is the oldest entry.\<close>

fun spec_run :: "('h, 'd) queue_op list \<Rightarrow> 'd list \<Rightarrow> 'd option list \<times> 'd list" where
  "spec_run [] q = ([], q)"
| "spec_run (Enq h x # ops) q = spec_run ops (q @ [x])"
| "spec_run (Deq # ops) [] = (let (outs, q') = spec_run ops [] in (None # outs, q'))"
| "spec_run (Deq # ops) (x # q) = (let (outs, q') = spec_run ops q in (Some x # outs, q'))"

locale fifo_queue =
  fixes rep :: "'s \<Rightarrow> 'd list \<Rightarrow> bool" and usable :: "'s \<Rightarrow> 'h \<Rightarrow> 'd \<Rightarrow> bool"
    and enq :: "'h \<Rightarrow> 'd \<Rightarrow> 's \<Rightarrow> 's option" and deq :: "'s \<Rightarrow> ('d option \<times> 's) option"
  assumes enq_rep: "rep s q \<Longrightarrow> usable s h x \<Longrightarrow> \<exists>s'. enq h x s = Some s' \<and> rep s' (q @ [x])"
    and deq_nil: "rep s [] \<Longrightarrow> \<exists>s'. deq s = Some (None, s') \<and> rep s' []"
    and deq_cons: "rep s (x # q) \<Longrightarrow> \<exists>s'. deq s = Some (Some x, s') \<and> rep s' q"
begin

lemma run_refines:
  "rep s q \<Longrightarrow> queue_ok usable enq deq ops s \<Longrightarrow>
   \<exists>s'. queue_run enq deq ops s = Some (fst (spec_run ops q), s') \<and> rep s' (snd (spec_run ops q))"
proof (induction ops q arbitrary: s rule: spec_run.induct)
  case (2 h x ops q)
  then obtain s1 where "enq h x s = Some s1" "rep s1 (q @ [x])" using enq_rep[of s q h x] by auto
  with 2 show ?case by auto
next
  case (3 ops)
  then obtain s1 where "deq s = Some (None, s1)" "rep s1 []" using deq_nil[of s] by auto
  with 3 show ?case by (fastforce simp: case_prod_beta)
next
  case (4 ops x q)
  then obtain s1 where "deq s = Some (Some x, s1)" "rep s1 q" using deq_cons[of s x q] by auto
  with 4 show ?case by (fastforce simp: case_prod_beta)
qed auto

end

text \<open>The linked list provides it: \<open>linked_list_add\<close> adds, \<open>linked_list_remove\<close> removes.\<close>

definition ll_enq :: "ptr \<times> ptr \<Rightarrow> ptr \<Rightarrow> ll_mem \<times> ptr \<Rightarrow> (ll_mem \<times> ptr) option" where
  "ll_enq h d s =
     (case linked_list_add (snd s) d (snd h) (fst h) (fst s) of
        Some (eLINKED_LIST_SUCCESS, m') \<Rightarrow> Some (m', snd s) | _ \<Rightarrow> None)"

definition ll_deq :: "ll_mem \<times> ptr \<Rightarrow> (ptr option \<times> ll_mem \<times> ptr) option" where
  "ll_deq s =
     (case linked_list_remove (snd s) True (fst s) of
        Some (eLINKED_LIST_SUCCESS, out, m') \<Rightarrow> Some (out, m', snd s)
      | Some (eLINKED_LIST_UNAVAILABLE_RESOURCE, out, m') \<Rightarrow> Some (None, m', snd s) | _ \<Rightarrow> None)"

definition ll_queue :: "ll_mem \<times> ptr \<Rightarrow> ptr list \<Rightarrow> bool" where
  "ll_queue s q \<longleftrightarrow> snd s \<noteq> NULL \<and> (\<exists>xs. ll_rep (fst s) (snd s) xs \<and> q = rev (map fst xs))"

definition ll_usable :: "ll_mem \<times> ptr \<Rightarrow> ptr \<times> ptr \<Rightarrow> ptr \<Rightarrow> bool" where
  "ll_usable s h d \<longleftrightarrow> d \<noteq> NULL \<and> fst h \<noteq> NULL \<and> elems (fst s) (fst h) = None"

interpretation lq: fifo_queue ll_queue ll_usable ll_enq ll_deq
proof (unfold_locales, goal_cases)
  case (1 s q h x)
  then obtain xs where xs: "ll_rep (fst s) (snd s) xs" "q = rev (map fst xs)" "snd s \<noteq> NULL"
    by (auto simp: ll_queue_def)
  with 1(2) add_rep[OF xs(1,3), of x "fst h" "snd h"] show ?case
    unfolding ll_queue_def ll_enq_def ll_usable_def
    by (auto intro!: exI[of _ "(x, snd h) # xs"])
next
  case (2 s)
  then show ?case using remove_empty_rep[of "fst s" "snd s"]
    by (auto simp: ll_queue_def ll_deq_def)
next
  case (3 s x q)
  then obtain xs where xs: "ll_rep (fst s) (snd s) xs" "x # q = rev (map fst xs)" "snd s \<noteq> NULL"
    by (auto simp: ll_queue_def)
  then obtain ys f where ys: "xs = ys @ [(x, f)]" "q = rev (map fst ys)"
    by (cases xs rule: rev_cases) auto
  with remove_rep[of "fst s" "snd s" ys x f] xs show ?case
    by (auto simp: ll_queue_def ll_deq_def)
qed

section \<open>Properties of the linked list\<close>

lemma init_rep: "l \<noteq> NULL \<Longrightarrow> ll_rep (snd (snd (linked_list_init True l m))) l []"
  by (auto simp: linked_list_init_def ll_rep_def dlist_def set_list_def)

definition empty_mem :: ll_mem where
  "empty_mem = \<lparr>elems = (\<lambda>_. None), lists = (\<lambda>_. None), dealloc_log = []\<rparr>"

text \<open>A list at address 9 with the data 21 (oldest), 22, 23; the last two have a deallocation function.\<close>

definition demo_list :: ll_mem where
  "demo_list = \<lparr>elems =
     [1 \<mapsto> \<lparr>next_elem = 0, prev_elem = 2, data_ptr = 21, dealloc_func = 0\<rparr>,
      2 \<mapsto> \<lparr>next_elem = 1, prev_elem = 3, data_ptr = 22, dealloc_func = 50\<rparr>,
      3 \<mapsto> \<lparr>next_elem = 2, prev_elem = 0, data_ptr = 23, dealloc_func = 51\<rparr>],
     lists = [9 \<mapsto> \<lparr>p_head = 3, p_tail = 1\<rparr>], dealloc_log = []\<rparr>"

lemma demo_list_rep: "ll_rep demo_list 9 [(23, 51), (22, 50), (21, 0)]"
  unfolding ll_rep_def
  by (rule exI[of _ "[3, 2, 1]"]) (simp add: demo_list_def dlist_def entry_def)

text \<open>
  C28: A list is a first-in first-out queue: whatever sequence of \<open>linked_list_add\<close> and
  \<open>linked_list_remove\<close> is run on a list made by \<open>linked_list_init\<close>, with any addresses
  \<open>malloc\<close> may return, no call follows a bad pointer, and the removals return what the same
  run on a plain queue does.
\<close>

theorem linked_list_fifo:
  assumes "l \<noteq> NULL" "m = snd (snd (linked_list_init True l m0))"
    and "queue_ok ll_usable ll_enq ll_deq ops (m, l)"
  shows "\<exists>s'. queue_run ll_enq ll_deq ops (m, l) = Some (fst (spec_run ops []), s') \<and>
    ll_queue s' (snd (spec_run ops []))"
proof (rule lq.run_refines[OF _ assms(3)])
  show "ll_queue (m, l) []"
    using init_rep[OF assms(1), of m0] assms by (simp add: ll_queue_def)
qed

theorem linked_list_fifo_witness:
  "\<exists>s'. queue_run ll_enq ll_deq [Enq (1, 0) 21, Enq (2, 50) 22, Deq, Enq (1, 0) 23, Deq, Deq, Deq]
     (snd (snd (linked_list_init True 9 empty_mem)), 9) = Some ([Some 21, Some 22, Some 23, None], s')"
proof -
  have "queue_ok ll_usable ll_enq ll_deq [Enq (1, 0) 21, Enq (2, 50) 22, Deq, Enq (1, 0) 23, Deq, Deq, Deq]
      (snd (snd (linked_list_init True 9 empty_mem)), 9)"
    by code_simp
  from linked_list_fifo[OF _ refl this] show ?thesis by auto
qed

text \<open>
  \<open>linked_list_flush\<close> on a well-formed list ends, leaves the list empty, frees every
  element, and calls each element's deallocation function exactly once on its data, newest first.
\<close>

theorem linked_list_flush_frees:
  assumes "dlist m l as" "l \<noteq> NULL"
  shows "\<exists>m'. linked_list_flush l m = Some (eLINKED_LIST_SUCCESS, m') \<and> dlist m' l [] \<and>
    dealloc_log m' = dealloc_log m @ deallocs (map (entry (elems m)) as) \<and>
    elems m' = (\<lambda>x. if x \<in> set as then None else elems m x)"
proof -
  from flush_loop_dlist[OF disjI1[OF assms(1)]] obtain m' q' where "flush_loop l m = Some m'"
      "lists m' l = Some \<lparr>p_head = NULL, p_tail = q'\<rparr>"
      "dealloc_log m' = dealloc_log m @ deallocs (map (entry (elems m)) as)"
      "elems m' = (\<lambda>x. if x \<in> set as then None else elems m x)"
    unfolding deallocs_def by blast
  then show ?thesis using assms(2) by (auto simp: linked_list_flush_def dlist_def set_list_def)
qed

theorem linked_list_flush_frees_witness:
  "\<exists>m'. linked_list_flush 9 demo_list = Some (eLINKED_LIST_SUCCESS, m') \<and>
     dealloc_log m' = [(51, 23), (50, 22)]"
proof -
  have "dlist demo_list 9 [3, 2, 1]" by (simp add: demo_list_def dlist_def)
  from linked_list_flush_frees[OF this] show ?thesis
    by (auto simp: deallocs_def demo_list_def entry_def)
qed

text \<open>
  \<open>linked_list_search\<close> finds the newest entry that the comparison accepts, hands out its
  data when the caller asked for it, and with \<open>rm_if_found\<close> takes exactly that entry out of
  the list; the data is deallocated only when it was not handed out.
\<close>

theorem linked_list_search_exact:
  assumes "ll_rep m l (xs @ (d, f) # ys)" "l \<noteq> NULL" "eq d" "\<forall>(d', f') \<in> set xs. \<not> eq d'"
  shows "\<exists>m'. linked_list_search l data_p (Some eq) rm m =
      Some (eLINKED_LIST_SUCCESS, if data_p then Some d else None, m') \<and>
    ll_rep m' l (if rm then xs @ ys else xs @ (d, f) # ys) \<and>
    dealloc_log m' = dealloc_log m @ (if rm \<and> \<not> data_p then deallocs [(d, f)] else [])"
  using assms by (rule search_found_rep)

theorem linked_list_search_exact_witness:
  "\<exists>m'. linked_list_search 9 False (Some ((=) 22)) True demo_list = Some (eLINKED_LIST_SUCCESS, None, m') \<and>
     ll_rep m' 9 [(23, 51), (21, 0)] \<and> dealloc_log m' = [(50, 22)]"
  using linked_list_search_exact[of demo_list 9 "[(23, 51)]" 22 50 "[(21, 0)]" "(=) 22" False True] demo_list_rep
  by (auto simp: deallocs_def demo_list_def)

end
