(* ===== verification/Msg_Q.thy ===== *)
theory Msg_Q
  imports Linked_List
begin

text \<open>
  The blocking message queue of \<open>gps/utils/msg_q.c\<close> on top of the linked list. Each operation
  holds the queue's mutex from its first access to its return, except that a receiver gives it up
  while it waits; so the operations are functions, a receive is a function up to the point where
  it waits, and the threads that wait are a step relation.
\<close>

section \<open>The queue object\<close>

datatype msq_q_err_type =
  eMSG_Q_SUCCESS
| eMSG_Q_FAILURE_GENERAL
| eMSG_Q_INVALID_PARAMETER
| eMSG_Q_INVALID_HANDLE
| eMSG_Q_UNAVAILABLE_RESOURCE
| eMSG_Q_INSUFFICIENT_BUFFER

record msg_q =
  msg_list :: ptr
  unblocked :: bool

text \<open>The memory of the list, and the queue objects by address.\<close>

record mq_mem =
  ll :: ll_mem
  queues :: "ptr \<Rightarrow> msg_q option"

fun convert_linked_list_err_type :: "linked_list_err_type \<Rightarrow> msq_q_err_type" where
  "convert_linked_list_err_type eLINKED_LIST_SUCCESS = eMSG_Q_SUCCESS"
| "convert_linked_list_err_type eLINKED_LIST_INVALID_PARAMETER = eMSG_Q_INVALID_PARAMETER"
| "convert_linked_list_err_type eLINKED_LIST_INVALID_HANDLE = eMSG_Q_INVALID_HANDLE"
| "convert_linked_list_err_type eLINKED_LIST_UNAVAILABLE_RESOURCE = eMSG_Q_UNAVAILABLE_RESOURCE"
| "convert_linked_list_err_type eLINKED_LIST_INSUFFICIENT_BUFFER = eMSG_Q_INSUFFICIENT_BUFFER"
| "convert_linked_list_err_type eLINKED_LIST_FAILURE_GENERAL = eMSG_Q_FAILURE_GENERAL"

text \<open>
  \<open>q\<close> and \<open>l\<close> are the answers of the two \<open>calloc\<close>s, \<open>mutex_ok\<close> and \<open>cond_ok\<close> say whether the
  initialisations of the mutex and of the condition variable return 0. The second component is
  what \<open>*msg_q_data\<close> is set to, if it is.
\<close>

definition msg_q_init ::
  "bool \<Rightarrow> ptr \<Rightarrow> ptr \<Rightarrow> bool \<Rightarrow> bool \<Rightarrow> mq_mem \<Rightarrow> (msq_q_err_type \<times> ptr option \<times> mq_mem) option" where
  "msg_q_init msg_q_data q l mutex_ok cond_ok m =
     (if \<not> msg_q_data then Some (eMSG_Q_INVALID_PARAMETER, None, m)
      else if q = NULL then Some (eMSG_Q_FAILURE_GENERAL, None, m)
      else
        (case linked_list_init True l (ll m) of
           (eLINKED_LIST_SUCCESS, Some h, ll') \<Rightarrow>
             if \<not> mutex_ok \<or> \<not> cond_ok
             then do {
               (_, ll'') \<leftarrow> linked_list_destroy (Some h) ll';
               Some (eMSG_Q_FAILURE_GENERAL, None, m\<lparr>ll := ll''\<rparr>)
             }
             else Some (eMSG_Q_SUCCESS, Some q,
                    m\<lparr>ll := ll', queues := (queues m)(q \<mapsto> \<lparr>msg_list = h, unblocked = False\<rparr>)\<rparr>)
         | _ \<Rightarrow> Some (eMSG_Q_FAILURE_GENERAL, None, m)))"

definition msg_q_init2 :: "ptr \<Rightarrow> ptr \<Rightarrow> bool \<Rightarrow> bool \<Rightarrow> mq_mem \<Rightarrow> (ptr \<times> mq_mem) option" where
  "msg_q_init2 q l mutex_ok cond_ok m = do {
     (rv, out, m) \<leftarrow> msg_q_init True q l mutex_ok cond_ok m;
     Some (if rv \<noteq> eMSG_Q_SUCCESS then NULL else (case out of None \<Rightarrow> NULL | Some h \<Rightarrow> h), m)
   }"

text \<open>\<open>msg_q_data\<close>: the handle, if the address it is kept at is not NULL.\<close>

definition msg_q_destroy :: "ptr option \<Rightarrow> mq_mem \<Rightarrow> (msq_q_err_type \<times> mq_mem) option" where
  "msg_q_destroy msg_q_data m =
     (case msg_q_data of
        None \<Rightarrow> Some (eMSG_Q_INVALID_HANDLE, m)
      | Some h \<Rightarrow> do {
          q \<leftarrow> queues m h;
          (_, ll') \<leftarrow> linked_list_destroy (Some (msg_list q)) (ll m);
          Some (eMSG_Q_SUCCESS, m\<lparr>ll := ll', queues := (queues m)(h := None)\<rparr>)
        })"

definition msg_q_snd ::
  "ptr \<Rightarrow> ptr \<Rightarrow> ptr \<Rightarrow> ptr \<Rightarrow> mq_mem \<Rightarrow> (msq_q_err_type \<times> mq_mem) option" where
  "msg_q_snd msg_q_data msg_obj dealloc elem m =
     (if msg_q_data = NULL then Some (eMSG_Q_INVALID_HANDLE, m)
      else if msg_obj = NULL then Some (eMSG_Q_INVALID_PARAMETER, m)
      else do {
        q \<leftarrow> queues m msg_q_data;
        if unblocked q then Some (eMSG_Q_UNAVAILABLE_RESOURCE, m)
        else do {
          (rv, ll') \<leftarrow> linked_list_add (msg_list q) msg_obj dealloc elem (ll m);
          Some (convert_linked_list_err_type rv, m\<lparr>ll := ll'\<rparr>)
        }
      })"

text \<open>
  A receive either waits or returns; \<open>rcv_check\<close> is the condition of the wait loop and what
  follows the loop, which runs at first and after each wake-up.
\<close>

datatype rcv_result = Waiting | Returned msq_q_err_type "ptr option"

definition rcv_check :: "ptr \<Rightarrow> mq_mem \<Rightarrow> (rcv_result \<times> mq_mem) option" where
  "rcv_check msg_q_data m = do {
     q \<leftarrow> queues m msg_q_data;
     is_empty \<leftarrow> linked_list_empty (msg_list q) (ll m);
     if is_empty \<noteq> 0 \<and> \<not> unblocked q then Some (Waiting, m)
     else do {
       (rv, out, ll') \<leftarrow> linked_list_remove (msg_list q) True (ll m);
       Some (Returned (convert_linked_list_err_type rv) out, m\<lparr>ll := ll'\<rparr>)
     }
   }"

definition msg_q_rcv :: "ptr \<Rightarrow> bool \<Rightarrow> mq_mem \<Rightarrow> (rcv_result \<times> mq_mem) option" where
  "msg_q_rcv msg_q_data msg_obj m =
     (if msg_q_data = NULL then Some (Returned eMSG_Q_INVALID_HANDLE None, m)
      else if \<not> msg_obj then Some (Returned eMSG_Q_INVALID_PARAMETER None, m)
      else do {
        q \<leftarrow> queues m msg_q_data;
        if unblocked q then Some (Returned eMSG_Q_UNAVAILABLE_RESOURCE None, m)
        else rcv_check msg_q_data m
      })"

definition msg_q_flush :: "ptr \<Rightarrow> mq_mem \<Rightarrow> (msq_q_err_type \<times> mq_mem) option" where
  "msg_q_flush msg_q_data m =
     (if msg_q_data = NULL then Some (eMSG_Q_INVALID_HANDLE, m)
      else do {
        q \<leftarrow> queues m msg_q_data;
        (rv, ll') \<leftarrow> linked_list_flush (msg_list q) (ll m);
        Some (convert_linked_list_err_type rv, m\<lparr>ll := ll'\<rparr>)
      })"

definition msg_q_unblock :: "ptr \<Rightarrow> mq_mem \<Rightarrow> (msq_q_err_type \<times> mq_mem) option" where
  "msg_q_unblock msg_q_data m =
     (if msg_q_data = NULL then Some (eMSG_Q_INVALID_HANDLE, m)
      else do {
        q \<leftarrow> queues m msg_q_data;
        if unblocked q then Some (eMSG_Q_UNAVAILABLE_RESOURCE, m)
        else Some (eMSG_Q_SUCCESS, m\<lparr>queues := (queues m)(msg_q_data \<mapsto> q\<lparr>unblocked := True\<rparr>)\<rparr>)
      })"

section \<open>The queue as a list of messages\<close>

text \<open>A queue at \<open>h\<close> that holds the messages \<open>xs\<close>, oldest first.\<close>

definition mq_rep :: "mq_mem \<Rightarrow> ptr \<Rightarrow> bool \<Rightarrow> (ptr \<times> ptr) list \<Rightarrow> bool" where
  "mq_rep m h u xs \<longleftrightarrow> h \<noteq> NULL \<and>
     (\<exists>q. queues m h = Some q \<and> unblocked q = u \<and> msg_list q \<noteq> NULL \<and> ll_rep (ll m) (msg_list q) (rev xs))"

lemma snd_rep:
  assumes "mq_rep m h False xs" "d \<noteq> NULL" "a \<noteq> NULL" "elems (ll m) a = None"
  shows "\<exists>m'. msg_q_snd h d f a m = Some (eMSG_Q_SUCCESS, m') \<and> mq_rep m' h False (xs @ [(d, f)])"
proof -
  from assms(1) obtain q where q: "h \<noteq> NULL" "queues m h = Some q" "\<not> unblocked q" "msg_list q \<noteq> NULL"
      "ll_rep (ll m) (msg_list q) (rev xs)"
    by (auto simp: mq_rep_def)
  from add_rep[OF q(5,4) assms(2-4), of f] obtain ll' where
      "linked_list_add (msg_list q) d f a (ll m) = Some (eLINKED_LIST_SUCCESS, ll')"
      "ll_rep ll' (msg_list q) ((d, f) # rev xs)"
    by blast
  with q assms(2) show ?thesis by (simp add: msg_q_snd_def mq_rep_def)
qed

lemma snd_refused_rep:
  "mq_rep m h False xs \<Longrightarrow> d \<noteq> NULL \<Longrightarrow> msg_q_snd h d f NULL m = Some (eMSG_Q_FAILURE_GENERAL, m)"
  by (auto simp: mq_rep_def msg_q_snd_def linked_list_add_def)

lemma snd_unblocked_rep:
  "mq_rep m h True xs \<Longrightarrow> d \<noteq> NULL \<Longrightarrow> msg_q_snd h d f a m = Some (eMSG_Q_UNAVAILABLE_RESOURCE, m)"
  by (auto simp: mq_rep_def msg_q_snd_def)

lemma rcv_check_rep:
  assumes "mq_rep m h u xs"
  shows "case xs of
      [] \<Rightarrow> rcv_check h m = Some (if u then Returned eMSG_Q_UNAVAILABLE_RESOURCE None else Waiting, m)
    | (d, f) # ys \<Rightarrow> \<exists>m'. rcv_check h m = Some (Returned eMSG_Q_SUCCESS (Some d), m') \<and> mq_rep m' h u ys"
proof -
  from assms obtain q where q: "h \<noteq> NULL" "queues m h = Some q" "unblocked q = u" "msg_list q \<noteq> NULL"
      "ll_rep (ll m) (msg_list q) (rev xs)"
    by (auto simp: mq_rep_def)
  note empty = empty_rep[OF q(5,4)]
  show ?thesis
  proof (cases xs)
    case Nil
    with q empty remove_empty_rep[of "ll m" "msg_list q"] show ?thesis
      by (simp add: rcv_check_def)
  next
    case (Cons x ys)
    obtain d f where x: "x = (d, f)" by (cases x)
    with q(5) Cons have "ll_rep (ll m) (msg_list q) (rev ys @ [(d, f)])" by simp
    from remove_rep[OF this q(4)] obtain ll' where
        "linked_list_remove (msg_list q) True (ll m) = Some (eLINKED_LIST_SUCCESS, Some d, ll')"
        "ll_rep ll' (msg_list q) (rev ys)"
      by blast
    with q empty show ?thesis by (simp add: Cons x rcv_check_def mq_rep_def)
  qed
qed

lemma rcv_rep:
  "mq_rep m h u xs \<Longrightarrow> msg_q_rcv h True m =
     (if u then Some (Returned eMSG_Q_UNAVAILABLE_RESOURCE None, m) else rcv_check h m)"
  by (auto simp: mq_rep_def msg_q_rcv_def)

lemma flush_mq_rep:
  assumes "mq_rep m h u xs"
  shows "\<exists>m'. msg_q_flush h m = Some (eMSG_Q_SUCCESS, m') \<and> mq_rep m' h u [] \<and>
    dealloc_log (ll m') = dealloc_log (ll m) @ deallocs (rev xs)"
proof -
  from assms obtain q where q: "h \<noteq> NULL" "queues m h = Some q" "unblocked q = u" "msg_list q \<noteq> NULL"
      "ll_rep (ll m) (msg_list q) (rev xs)"
    by (auto simp: mq_rep_def)
  from flush_rep[OF q(5,4)] obtain ll' where
      "linked_list_flush (msg_list q) (ll m) = Some (eLINKED_LIST_SUCCESS, ll')"
      "ll_rep ll' (msg_list q) []" "dealloc_log ll' = dealloc_log (ll m) @ deallocs (rev xs)"
    by blast
  with q show ?thesis by (simp add: msg_q_flush_def mq_rep_def)
qed

lemma unblock_rep:
  "mq_rep m h u xs \<Longrightarrow> \<exists>m'. msg_q_unblock h m =
     Some (if u then eMSG_Q_UNAVAILABLE_RESOURCE else eMSG_Q_SUCCESS, m') \<and> mq_rep m' h True xs"
  by (auto simp: mq_rep_def msg_q_unblock_def)

text \<open>
  A queue that is not unblocked provides the contract of a queue, a receive that would wait
  standing for an empty one.
\<close>

definition mq_enq :: "ptr \<times> ptr \<Rightarrow> ptr \<Rightarrow> mq_mem \<times> ptr \<Rightarrow> (mq_mem \<times> ptr) option" where
  "mq_enq e d s =
     (case msg_q_snd (snd s) d (snd e) (fst e) (fst s) of
        Some (eMSG_Q_SUCCESS, m') \<Rightarrow> Some (m', snd s) | _ \<Rightarrow> None)"

definition mq_deq :: "mq_mem \<times> ptr \<Rightarrow> (ptr option \<times> mq_mem \<times> ptr) option" where
  "mq_deq s =
     (case msg_q_rcv (snd s) True (fst s) of
        Some (Returned eMSG_Q_SUCCESS out, m') \<Rightarrow> Some (out, m', snd s)
      | Some (Waiting, m') \<Rightarrow> Some (None, m', snd s) | _ \<Rightarrow> None)"

definition mq_queue :: "mq_mem \<times> ptr \<Rightarrow> ptr list \<Rightarrow> bool" where
  "mq_queue s q \<longleftrightarrow> (\<exists>xs. mq_rep (fst s) (snd s) False xs \<and> q = map fst xs)"

definition mq_usable :: "mq_mem \<times> ptr \<Rightarrow> ptr \<times> ptr \<Rightarrow> ptr \<Rightarrow> bool" where
  "mq_usable s e d \<longleftrightarrow> d \<noteq> NULL \<and> fst e \<noteq> NULL \<and> elems (ll (fst s)) (fst e) = None"

interpretation mq: fifo_queue mq_queue mq_usable mq_enq mq_deq
proof (unfold_locales, goal_cases)
  case (1 s q e d)
  then obtain xs where xs: "mq_rep (fst s) (snd s) False xs" "q = map fst xs" by (auto simp: mq_queue_def)
  with 1(2) snd_rep[OF xs(1), of d "fst e" "snd e"] show ?case
    unfolding mq_queue_def mq_enq_def mq_usable_def
    by (auto intro!: exI[of _ "xs @ [(d, snd e)]"])
next
  case (2 s)
  then have rep: "mq_rep (fst s) (snd s) False []" by (auto simp: mq_queue_def)
  with rcv_check_rep[OF rep] show ?case by (auto simp: mq_queue_def mq_deq_def rcv_rep)
next
  case (3 s d q)
  then obtain f ys where rep: "mq_rep (fst s) (snd s) False ((d, f) # ys)" "q = map fst ys"
    by (auto simp: mq_queue_def Cons_eq_map_conv)
  with rcv_check_rep[OF rep(1)] show ?case by (auto simp: mq_queue_def mq_deq_def rcv_rep)
qed

section \<open>Threads that wait\<close>

text \<open>
  The threads that wait on the condition variable, those that were woken and have yet to check
  again, and two histories: the messages that were accepted and not flushed, and the messages
  that were received.
\<close>

record mq_threads =
  mem :: mq_mem
  asleep :: "nat set"
  ready :: "nat set"
  sent :: "ptr list"
  received :: "ptr list"

definition mq_start :: "mq_mem \<Rightarrow> mq_threads" where
  "mq_start m = \<lparr>mem = m, asleep = {}, ready = {}, sent = [], received = []\<rparr>"

text \<open>A signal wakes at least one thread that waits, if there is one; a broadcast wakes all.\<close>

definition signals :: "mq_threads \<Rightarrow> nat set \<Rightarrow> bool" where
  "signals s W \<longleftrightarrow> finite W \<and> W \<subseteq> asleep s \<and> (W = {} \<longrightarrow> asleep s = {})"

definition wake_up :: "nat set \<Rightarrow> mq_threads \<Rightarrow> mq_threads" where
  "wake_up W s = s\<lparr>asleep := asleep s - W, ready := ready s \<union> W\<rparr>"

definition rcv_outcome :: "nat \<Rightarrow> rcv_result \<Rightarrow> mq_mem \<Rightarrow> mq_threads \<Rightarrow> mq_threads" where
  "rcv_outcome t r m s =
     (case r of Waiting \<Rightarrow> s\<lparr>mem := m, asleep := insert t (asleep s)\<rparr>
      | Returned e out \<Rightarrow> s\<lparr>mem := m, received := received s @ (case out of None \<Rightarrow> [] | Some d \<Rightarrow> [d])\<rparr>)"

inductive mq_step :: "ptr \<Rightarrow> mq_threads \<Rightarrow> mq_threads \<Rightarrow> bool" for h where
  snd: "d \<noteq> NULL \<Longrightarrow> a = NULL \<or> elems (ll (mem s)) a = None \<Longrightarrow>
    msg_q_snd h d f a (mem s) = Some (r, m) \<Longrightarrow>
    (if r = eMSG_Q_UNAVAILABLE_RESOURCE then W = {} else signals s W) \<Longrightarrow>
    mq_step h s (wake_up W (s\<lparr>mem := m, sent := sent s @ (if r = eMSG_Q_SUCCESS then [d] else [])\<rparr>))"
| rcv: "t \<notin> asleep s \<Longrightarrow> t \<notin> ready s \<Longrightarrow> msg_q_rcv h True (mem s) = Some (r, m) \<Longrightarrow>
    mq_step h s (rcv_outcome t r m s)"
| resume: "t \<in> ready s \<Longrightarrow> rcv_check h (mem s) = Some (r, m) \<Longrightarrow>
    mq_step h s (rcv_outcome t r m (s\<lparr>ready := ready s - {t}\<rparr>))"
| spurious: "t \<in> asleep s \<Longrightarrow> mq_step h s (wake_up {t} s)"
| flush: "msg_q_flush h (mem s) = Some (r, m) \<Longrightarrow> mq_step h s (s\<lparr>mem := m, sent := received s\<rparr>)"
| unblock: "msg_q_unblock h (mem s) = Some (r, m) \<Longrightarrow>
    mq_step h s (if r = eMSG_Q_SUCCESS then wake_up (asleep s) (s\<lparr>mem := m\<rparr>) else s\<lparr>mem := m\<rparr>)"

inductive mq_reachable :: "ptr \<Rightarrow> mq_threads \<Rightarrow> bool" for h where
  init: "msg_q_init True h l True True m0 = Some (eMSG_Q_SUCCESS, Some h, m) \<Longrightarrow> mq_reachable h (mq_start m)"
| step: "mq_reachable h s \<Longrightarrow> mq_step h s s' \<Longrightarrow> mq_reachable h s'"

text \<open>
  The invariant: the memory holds a queue whose messages are the ones sent and not received, in
  order; and while threads wait, at least as many threads are about to check as there are messages.
\<close>

definition mq_inv :: "ptr \<Rightarrow> mq_threads \<Rightarrow> bool" where
  "mq_inv h s \<longleftrightarrow> finite (ready s) \<and> finite (asleep s) \<and> ready s \<inter> asleep s = {} \<and>
     (\<exists>u xs. mq_rep (mem s) h u xs \<and> sent s = received s @ map fst xs \<and>
        (asleep s \<noteq> {} \<longrightarrow> \<not> u \<and> length xs \<le> card (ready s)))"

lemma mq_invI:
  "finite (ready s) \<Longrightarrow> finite (asleep s) \<Longrightarrow> ready s \<inter> asleep s = {} \<Longrightarrow> mq_rep (mem s) h u xs \<Longrightarrow>
   sent s = received s @ map fst xs \<Longrightarrow> asleep s = {} \<or> (\<not> u \<and> length xs \<le> card (ready s)) \<Longrightarrow> mq_inv h s"
  unfolding mq_inv_def by blast

lemma init_inv:
  assumes "msg_q_init True h l True True m0 = Some (eMSG_Q_SUCCESS, Some h, m)"
  shows "mq_inv h (mq_start m)"
proof (rule mq_invI)
  show "mq_rep (mem (mq_start m)) h False []"
    using assms init_rep[of l "ll m0"]
    by (auto simp: mq_start_def msg_q_init_def linked_list_init_def mq_rep_def split: if_splits)
qed (simp_all add: mq_start_def)

lemma rcv_outcome_inv:
  assumes rep: "mq_rep (mem s) h u xs" and run: "rcv_check h (mem s) = Some (r, m)"
    and s: "finite (ready s)" "finite (asleep s)" "ready s \<inter> asleep s = {}" "t \<notin> ready s" "t \<notin> asleep s"
      "sent s = received s @ map fst xs" "asleep s = {} \<or> \<not> u \<and> length xs \<le> Suc (card (ready s))"
  shows "mq_inv h (rcv_outcome t r m s)"
proof (cases xs)
  case Nil
  with rcv_check_rep[OF rep] run have
    "r = (if u then Returned eMSG_Q_UNAVAILABLE_RESOURCE None else Waiting)" "m = mem s" by auto
  then show ?thesis
    using s rep Nil by (intro mq_invI[of _ h u "[]"]) (auto simp: rcv_outcome_def)
next
  case (Cons x ys)
  obtain d f where x: "x = (d, f)" by (cases x)
  with Cons rcv_check_rep[OF rep] run have r: "r = Returned eMSG_Q_SUCCESS (Some d)" "mq_rep m h u ys" by auto
  then show ?thesis
    using s Cons x by (intro mq_invI[of _ h u ys]) (auto simp: rcv_outcome_def)
qed

lemma mq_step_inv: "mq_step h s s' \<Longrightarrow> mq_inv h s \<Longrightarrow> mq_inv h s'"
proof (induction rule: mq_step.induct)
  case (snd d a s f r m W)
  then obtain u xs where inv: "finite (ready s)" "finite (asleep s)" "ready s \<inter> asleep s = {}"
      "mq_rep (mem s) h u xs" "sent s = received s @ map fst xs"
      "asleep s = {} \<or> \<not> u \<and> length xs \<le> card (ready s)"
    by (auto simp: mq_inv_def)
  show ?case
  proof (cases u)
    case True
    with snd_unblocked_rep[of "mem s" h xs d f a] inv snd show ?thesis
      by (intro mq_invI[of _ h u xs]) (auto simp: wake_up_def)
  next
    case False
    show ?thesis
    proof (cases "a = NULL")
      case True
      with snd_refused_rep[of "mem s" h xs d f] inv snd False have
        r: "r = eMSG_Q_FAILURE_GENERAL" "m = mem s" "signals s W" by auto
      have "card (ready s) \<le> card (ready s \<union> W)"
        using inv(1) r(3) by (intro card_mono) (auto simp: signals_def)
      with inv r show ?thesis
        by (intro mq_invI[of _ h u xs]) (auto simp: wake_up_def signals_def)
    next
      case fresh: False
      with snd_rep[of "mem s" h xs d a f] inv snd False have
        r: "r = eMSG_Q_SUCCESS" "mq_rep m h False (xs @ [(d, f)])" "signals s W" by auto
      have "Suc (card (ready s)) \<le> card (ready s \<union> W)" if "asleep s \<noteq> {}"
      proof -
        from that r(3) obtain t where "t \<in> W" "t \<in> asleep s" by (auto simp: signals_def)
        then have "insert t (ready s) \<subseteq> ready s \<union> W" "t \<notin> ready s" using inv(3) by auto
        then show ?thesis using inv(1) r(3)
          by (metis card_insert_disjoint card_mono finite_UnI signals_def)
      qed
      then show ?thesis
        using inv r False by (intro mq_invI[of _ h False "xs @ [(d, f)]"])
          (fastforce simp: wake_up_def signals_def)+
    qed
  qed
next
  case (rcv t s r m)
  then obtain u xs where inv: "finite (ready s)" "finite (asleep s)" "ready s \<inter> asleep s = {}"
      "mq_rep (mem s) h u xs" "sent s = received s @ map fst xs"
      "asleep s = {} \<or> \<not> u \<and> length xs \<le> card (ready s)"
    by (auto simp: mq_inv_def)
  show ?case
  proof (cases u)
    case True
    with rcv_rep[OF inv(4)] rcv inv show ?thesis
      by (intro mq_invI[of _ h u xs]) (auto simp: rcv_outcome_def)
  next
    case False
    with rcv_rep[OF inv(4)] rcv have "rcv_check h (mem s) = Some (r, m)" by simp
    with inv rcv show ?thesis by (intro rcv_outcome_inv[of s h u xs]) auto
  qed
next
  case (resume t s r m)
  then obtain u xs where inv: "finite (ready s)" "finite (asleep s)" "ready s \<inter> asleep s = {}"
      "mq_rep (mem s) h u xs" "sent s = received s @ map fst xs"
      "asleep s = {} \<or> \<not> u \<and> length xs \<le> card (ready s)"
    by (auto simp: mq_inv_def)
  have "card (ready s) \<le> Suc (card (ready s - {t}))"
    using resume(1) inv(1) by (simp add: card_Suc_Diff1)
  with inv(6) have "asleep s = {} \<or> \<not> u \<and> length xs \<le> Suc (card (ready s - {t}))" by linarith
  with inv resume(1) show ?case
    by (intro rcv_outcome_inv[of _ h u xs]) (simp_all add: resume(2), auto)
next
  case (spurious t s)
  then obtain u xs where inv: "finite (ready s)" "finite (asleep s)" "ready s \<inter> asleep s = {}"
      "mq_rep (mem s) h u xs" "sent s = received s @ map fst xs"
      "asleep s = {} \<or> \<not> u \<and> length xs \<le> card (ready s)"
    by (auto simp: mq_inv_def)
  have "card (ready s) \<le> card (insert t (ready s))" using inv(1) by (intro card_mono) auto
  with inv spurious show ?case by (intro mq_invI[of _ h u xs]) (auto simp: wake_up_def)
next
  case (flush s r m)
  then obtain u xs where inv: "finite (ready s)" "finite (asleep s)" "ready s \<inter> asleep s = {}"
      "mq_rep (mem s) h u xs" "asleep s = {} \<or> \<not> u"
    by (auto simp: mq_inv_def)
  from flush_mq_rep[OF inv(4)] flush have "mq_rep m h u []" by auto
  with inv show ?case by (intro mq_invI[of _ h u "[]"]) auto
next
  case (unblock s r m)
  then obtain u xs where inv: "finite (ready s)" "finite (asleep s)" "ready s \<inter> asleep s = {}"
      "mq_rep (mem s) h u xs" "sent s = received s @ map fst xs" "asleep s = {} \<or> \<not> u"
    by (auto simp: mq_inv_def)
  from unblock_rep[OF inv(4)] unblock have
    "mq_rep m h True xs" "r = (if u then eMSG_Q_UNAVAILABLE_RESOURCE else eMSG_Q_SUCCESS)" by auto
  with inv show ?case by (intro mq_invI[of _ h True xs]) (auto simp: wake_up_def)
qed

lemma mq_reachable_inv: "mq_reachable h s \<Longrightarrow> mq_inv h s"
  by (induction rule: mq_reachable.induct) (auto intro: init_inv mq_step_inv)

section \<open>Properties of the message queue\<close>

text \<open>
  A run: a queue at address 5 with its list at 9 is made, threads 1 and 2 wait for messages, and
  the message 21 is sent, which wakes thread 1.
\<close>

definition demo_q :: mq_mem where
  "demo_q = \<lparr>ll = snd (snd (linked_list_init True 9 empty_mem)),
     queues = [5 \<mapsto> \<lparr>msg_list = 9, unblocked = False\<rparr>]\<rparr>"

definition demo_sent :: mq_mem where
  "demo_sent = (case msg_q_snd 5 21 0 1 demo_q of Some (_, m) \<Rightarrow> m | None \<Rightarrow> demo_q)"

lemma demo_checks:
  "msg_q_rcv 5 True demo_q = Some (Waiting, demo_q)"
  "msg_q_snd 5 21 0 1 demo_q = Some (eMSG_Q_SUCCESS, demo_sent)"
  "elems (ll demo_q) 1 = None"
  by (simp_all add: demo_q_def demo_sent_def msg_q_rcv_def rcv_check_def msg_q_snd_def linked_list_add_def
      linked_list_init_def linked_list_empty_def empty_mem_def mem_defs)

lemma demo_init:
  "msg_q_init True 5 9 True True \<lparr>ll = empty_mem, queues = (\<lambda>_. None)\<rparr> = Some (eMSG_Q_SUCCESS, Some 5, demo_q)"
  by (simp add: msg_q_init_def demo_q_def linked_list_init_def)

lemma demo_reachable:
  "mq_reachable 5 \<lparr>mem = demo_sent, asleep = {2}, ready = {1}, sent = [21], received = []\<rparr>"
proof -
  have "mq_reachable 5 (mq_start demo_q)" by (rule mq_reachable.init[OF demo_init])
  from mq_reachable.step[OF this mq_step.rcv[of 1 _ 5 Waiting demo_q]]
  have "mq_reachable 5 (rcv_outcome 1 Waiting demo_q (mq_start demo_q))"
    by (simp add: mq_start_def demo_checks)
  from mq_reachable.step[OF this mq_step.rcv[of 2 _ 5 Waiting demo_q]]
  have "mq_reachable 5 (rcv_outcome 2 Waiting demo_q (rcv_outcome 1 Waiting demo_q (mq_start demo_q)))"
    by (simp add: mq_start_def demo_checks rcv_outcome_def)
  from mq_reachable.step[OF this mq_step.snd[of 21 1 _ 5 0 eMSG_Q_SUCCESS demo_sent "{1}"]]
  show ?thesis
    by (simp add: mq_start_def demo_checks rcv_outcome_def wake_up_def signals_def insert_Diff_if
        del: One_nat_def)
qed

text \<open>
  C16: Messages are delivered in the order they were sent, none twice and none lost: in every
  interleaving of senders, receivers, wake-ups, flushes and an unblock, the messages accepted
  (and not flushed) are those received followed by those the queue holds, oldest first.
\<close>

theorem msg_q_in_order:
  assumes "mq_reachable h s"
  shows "\<exists>u xs. mq_rep (mem s) h u xs \<and> sent s = received s @ map fst xs"
  using mq_reachable_inv[OF assms] unfolding mq_inv_def by blast

theorem msg_q_in_order_witness:
  "\<exists>u xs. mq_rep demo_sent 5 u xs \<and> [21] = map fst xs"
  using msg_q_in_order[OF demo_reachable] by simp

text \<open>
  C30: No wake-up is lost: while a thread waits and a message is in the queue, some thread has been
  woken and is about to check, and its check returns the oldest message.
\<close>

theorem msg_q_no_lost_wakeup:
  assumes "mq_reachable h s" "asleep s \<noteq> {}" "sent s \<noteq> received s"
  shows "ready s \<noteq> {} \<and>
    (\<exists>m. rcv_check h (mem s) = Some (Returned eMSG_Q_SUCCESS (Some (sent s ! length (received s))), m))"
proof -
  from mq_reachable_inv[OF assms(1)] obtain u xs where
      u: "mq_rep (mem s) h u xs" "asleep s \<noteq> {} \<longrightarrow> \<not> u \<and> length xs \<le> card (ready s)"
      and sent: "sent s = received s @ map fst xs"
    unfolding mq_inv_def by blast
  with assms(2) have rep: "mq_rep (mem s) h False xs" and card: "length xs \<le> card (ready s)" by simp_all
  from sent assms(3) obtain d f ys where xs: "xs = (d, f) # ys" by (cases xs) auto
  with card have "ready s \<noteq> {}" by auto
  moreover have "sent s ! length (received s) = d" using sent xs by simp
  ultimately show ?thesis using rcv_check_rep[OF rep] xs by auto
qed

theorem msg_q_no_lost_wakeup_witness:
  "\<exists>m. rcv_check 5 demo_sent = Some (Returned eMSG_Q_SUCCESS (Some 21), m)"
  using msg_q_no_lost_wakeup[OF demo_reachable] by simp

text \<open>
  \<open>msg_q_unblock\<close> releases everybody for good: once the queue is unblocked no thread waits,
  sending and receiving are refused with \<open>eMSG_Q_UNAVAILABLE_RESOURCE\<close>, and a thread that was
  woken returns: with a message while the queue still holds one (although the header says the
  queue can no longer be used), else with the error.
\<close>

theorem msg_q_unblock_releases:
  assumes "mq_reachable h s" "queues (mem s) h = Some q" "unblocked q" "d \<noteq> NULL"
  shows "asleep s = {} \<and> msg_q_snd h d f a (mem s) = Some (eMSG_Q_UNAVAILABLE_RESOURCE, mem s) \<and>
    msg_q_rcv h True (mem s) = Some (Returned eMSG_Q_UNAVAILABLE_RESOURCE None, mem s) \<and>
    (\<exists>m. rcv_check h (mem s) =
       Some (if sent s = received s then Returned eMSG_Q_UNAVAILABLE_RESOURCE None
             else Returned eMSG_Q_SUCCESS (Some (sent s ! length (received s))), m))"
proof -
  from mq_reachable_inv[OF assms(1)] assms(2,3) obtain xs where
      rep: "mq_rep (mem s) h True xs" and sent: "sent s = received s @ map fst xs" and "asleep s = {}"
    by (auto simp: mq_inv_def mq_rep_def)
  moreover have "\<exists>m. rcv_check h (mem s) =
       Some (if sent s = received s then Returned eMSG_Q_UNAVAILABLE_RESOURCE None
             else Returned eMSG_Q_SUCCESS (Some (sent s ! length (received s))), m)"
    using rcv_check_rep[OF rep] sent by (cases xs) auto
  ultimately show ?thesis
    using snd_unblocked_rep[OF rep assms(4)] rcv_rep[OF rep] by simp
qed

theorem msg_q_unblock_releases_witness:
  "\<exists>m. rcv_check 5 (demo_sent\<lparr>queues := [5 \<mapsto> \<lparr>msg_list = 9, unblocked = True\<rparr>]\<rparr>) =
     Some (Returned eMSG_Q_SUCCESS (Some 21), m)"
proof -
  let ?m = "demo_sent\<lparr>queues := [5 \<mapsto> \<lparr>msg_list = 9, unblocked = True\<rparr>]\<rparr>"
  have q: "queues demo_sent = [5 \<mapsto> \<lparr>msg_list = 9, unblocked = False\<rparr>]"
    by (simp add: demo_sent_def demo_q_def msg_q_snd_def linked_list_add_def linked_list_init_def mem_defs empty_mem_def)
  have "msg_q_unblock 5 demo_sent = Some (eMSG_Q_SUCCESS, ?m)"
    by (simp add: msg_q_unblock_def q)
  from mq_reachable.step[OF demo_reachable mq_step.unblock, of eMSG_Q_SUCCESS ?m] this
  have "mq_reachable 5 \<lparr>mem = ?m, asleep = {}, ready = {1, 2}, sent = [21], received = []\<rparr>"
    by (simp add: wake_up_def insert_commute)
  from msg_q_unblock_releases[OF this, of "\<lparr>msg_list = 9, unblocked = True\<rparr>" 30 0 2]
  show ?thesis by simp
qed

end
