(* ===== verification/Agps.thy ===== *)
theory Agps
  imports Prelude "HOL-Library.Monad_Syntax"
begin

text \<open>
  The assisted-GPS connection manager of \<open>gps/gnss/Agps.cpp\<close> and \<open>Agps.h\<close>: a state machine per
  kind of data connection, with the subscribers that wait for it, and the manager that sends
  events to the machines. The callbacks the manager was given are calls to the environment: they
  are logged, and those that return a value are answered by the environment. A NULL or dangling
  pointer that is followed is \<open>None\<close>.
\<close>

section \<open>Data\<close>

datatype AgpsState =
  AGPS_STATE_INVALID | AGPS_STATE_RELEASED | AGPS_STATE_PENDING | AGPS_STATE_ACQUIRED | AGPS_STATE_RELEASING

datatype AgpsEvent =
  AGPS_EVENT_INVALID | AGPS_EVENT_SUBSCRIBE | AGPS_EVENT_UNSUBSCRIBE | AGPS_EVENT_GRANTED
| AGPS_EVENT_RELEASED | AGPS_EVENT_DENIED

datatype AgpsNotificationType =
  AGPS_NOTIFICATION_TYPE_INVALID
| AGPS_NOTIFICATION_TYPE_FOR_ALL_SUBSCRIBERS
| AGPS_NOTIFICATION_TYPE_FOR_INACTIVE_SUBSCRIBERS
| AGPS_NOTIFICATION_TYPE_FOR_ACTIVE_SUBSCRIBERS

text \<open>The types and constants of the interface, which callers pass as integers.\<close>

abbreviation (input) LOC_AGPS_TYPE_INVALID :: int where "LOC_AGPS_TYPE_INVALID \<equiv> - 1"
abbreviation (input) LOC_AGPS_TYPE_SUPL :: int where "LOC_AGPS_TYPE_SUPL \<equiv> 1"
abbreviation (input) LOC_AGPS_TYPE_WWAN_ANY :: int where "LOC_AGPS_TYPE_WWAN_ANY \<equiv> 3"
abbreviation (input) LOC_AGPS_TYPE_SUPL_ES :: int where "LOC_AGPS_TYPE_SUPL_ES \<equiv> 5"
abbreviation (input) AGPS_APN_BEARER_INVALID :: int where "AGPS_APN_BEARER_INVALID \<equiv> 0"
abbreviation (input) LOC_GPS_REQUEST_AGPS_DATA_CONN :: int where "LOC_GPS_REQUEST_AGPS_DATA_CONN \<equiv> 1"
abbreviation (input) LOC_GPS_RELEASE_AGPS_DATA_CONN :: int where "LOC_GPS_RELEASE_AGPS_DATA_CONN \<equiv> 2"
abbreviation (input) LOC_API_ADAPTER_ERR_SUCCESS :: int where "LOC_API_ADAPTER_ERR_SUCCESS \<equiv> 0"
abbreviation (input) LOC_API_ADAPTER_ERR_UNSUPPORTED :: int where "LOC_API_ADAPTER_ERR_UNSUPPORTED \<equiv> 2"
abbreviation (input) LOC_API_ADAPTER_ERR_ENGINE_BUSY :: int where "LOC_API_ADAPTER_ERR_ENGINE_BUSY \<equiv> 6"

record AgpsSubscriber =
  mConnHandle :: int
  mWaitForCloseComplete :: bool
  mIsInactive :: bool

text \<open>
  What a subscriber pointer points to: an object outside the list, or the list's first element
  with a connection handle, which is how \<open>getSubscriber\<close> finds it.
\<close>

datatype subscriber_ptr = Local AgpsSubscriber | InList int

record AgpsStateMachine =
  mSubscriberList :: "AgpsSubscriber list"
  mCurrentSubscriber :: "subscriber_ptr option"
  mState :: AgpsState
  mAgpsType :: int
  mAPN :: "string option"
  mAPNLen :: u32
  mBearer :: int

record DSStateMachine = AgpsStateMachine +
  mRetries :: int

definition MAX_START_DATA_CALL_RETRIES :: int where "MAX_START_DATA_CALL_RETRIES = 4"
definition DATA_CALL_RETRY_DELAY_MSEC :: int where "DATA_CALL_RETRY_DELAY_MSEC = 500"

definition AgpsStateMachine_new :: "int \<Rightarrow> AgpsStateMachine" where
  "AgpsStateMachine_new agpsType =
     \<lparr>mSubscriberList = [], mCurrentSubscriber = None, mState = AGPS_STATE_RELEASED,
      mAgpsType = agpsType, mAPN = None, mAPNLen = 0, mBearer = AGPS_APN_BEARER_INVALID\<rparr>"

definition DSStateMachine_new :: DSStateMachine where
  "DSStateMachine_new = AgpsStateMachine.extend (AgpsStateMachine_new LOC_AGPS_TYPE_SUPL_ES) \<lparr>mRetries = 0\<rparr>"

text \<open>
  The calls that leave the component. \<open>SendMsgRequestATL\<close> posts an \<open>AgpsMsgRequestATL\<close> to the
  adapter's queue.
\<close>

datatype agps_call =
  FrameworkStatusV4Cb int int
| AtlOpenStatusCb int int "string option" int int
| AtlCloseStatusCb int int
| DSClientInitFn bool
| DSClientOpenAndStartDataCallFn
| DSClientStopDataCallFn
| DSClientCloseDataCallFn
| DSClientReleaseFn
| SendMsgRequestATL int int
| LocTimerStart int

text \<open>
  The environment: the answers of the calls that have one (\<open>loc_timer_start\<close>'s is nonzero for a
  handle), which of the optional callbacks are registered, the configuration that is read, and
  what the connection handle of a subscriber reads as after the subscriber was deleted.
\<close>

record agps_env =
  answer :: "(agps_call, int) world"
  dsInitRegistered :: bool
  dsOpenRegistered :: bool
  dsStopRegistered :: bool
  capabilities :: u32
  useEmergencyPdn :: bool
  freedHandle :: "int \<Rightarrow> int"

text \<open>A state machine together with the calls made so far.\<close>

type_synonym 'z agps_st = "'z AgpsStateMachine_scheme \<times> agps_call list"

definition emit :: "agps_call \<Rightarrow> 'z agps_st \<Rightarrow> 'z agps_st" where
  "emit c st = (fst st, snd st @ [c])"

definition deref :: "subscriber_ptr \<Rightarrow> 'z AgpsStateMachine_scheme \<Rightarrow> AgpsSubscriber option" where
  "deref p sm = (case p of Local s \<Rightarrow> Some s | InList h \<Rightarrow> find (\<lambda>s. mConnHandle s = h) (mSubscriberList sm))"

section \<open>The subscriber list\<close>

definition subscriber_equals :: "AgpsSubscriber \<Rightarrow> AgpsSubscriber \<Rightarrow> bool" where
  "subscriber_equals a b \<longleftrightarrow> mConnHandle a = mConnHandle b"

text \<open>\<open>addSubscriber\<close> appends a clone, unless an equal subscriber is in the list.\<close>

definition addSubscriber ::
  "AgpsSubscriber \<Rightarrow> 'z AgpsStateMachine_scheme \<Rightarrow> 'z AgpsStateMachine_scheme" where
  "addSubscriber s sm =
     (if \<exists>t \<in> set (mSubscriberList sm). subscriber_equals t s then sm
      else sm\<lparr>mSubscriberList := mSubscriberList sm @ [s]\<rparr>)"

text \<open>
  The loop of \<open>deleteSubscriber\<close>. The pointer it compares with may point to the element that is
  deleted: from then on the comparison reads deleted memory.
\<close>

fun delete_loop :: "(int \<Rightarrow> int) \<Rightarrow> bool \<Rightarrow> int \<Rightarrow> AgpsSubscriber list \<Rightarrow> AgpsSubscriber list" where
  "delete_loop freed inList h [] = []"
| "delete_loop freed inList h (s # ss) =
     (if mConnHandle s = h then delete_loop freed False (if inList then freed h else h) ss
      else s # delete_loop freed inList h ss)"

definition deleteSubscriber ::
  "agps_env \<Rightarrow> subscriber_ptr \<Rightarrow> 'z AgpsStateMachine_scheme \<Rightarrow> 'z AgpsStateMachine_scheme option" where
  "deleteSubscriber env p sm = do {
     s \<leftarrow> deref p sm;
     Some (sm\<lparr>mSubscriberList :=
       delete_loop (freedHandle env) (case p of Local _ \<Rightarrow> False | InList _ \<Rightarrow> True) (mConnHandle s) (mSubscriberList sm)\<rparr>)
   }"

definition anyActiveSubscribers :: "'z AgpsStateMachine_scheme \<Rightarrow> bool" where
  "anyActiveSubscribers sm \<longleftrightarrow> (\<exists>s \<in> set (mSubscriberList sm). \<not> mIsInactive s)"

definition getSubscriber :: "int \<Rightarrow> 'z AgpsStateMachine_scheme \<Rightarrow> subscriber_ptr option" where
  "getSubscriber h sm =
     (case find (\<lambda>s. mConnHandle s = h) (mSubscriberList sm) of None \<Rightarrow> None | Some _ \<Rightarrow> Some (InList h))"

definition getFirstSubscriber :: "bool \<Rightarrow> 'z AgpsStateMachine_scheme \<Rightarrow> AgpsSubscriber option" where
  "getFirstSubscriber isInactive sm = find (\<lambda>s. mIsInactive s = isInactive) (mSubscriberList sm)"

definition dropAllSubscribers :: "'z AgpsStateMachine_scheme \<Rightarrow> 'z AgpsStateMachine_scheme" where
  "dropAllSubscribers sm = sm\<lparr>mSubscriberList := []\<rparr>"

definition transitionState :: "AgpsState \<Rightarrow> 'z agps_st \<Rightarrow> 'z agps_st" where
  "transitionState new st = ((fst st)\<lparr>mState := new\<rparr>, snd st)"

text \<open>\<open>mCurrentSubscriber->mIsInactive = true\<close>\<close>

fun inactivate_first :: "int \<Rightarrow> AgpsSubscriber list \<Rightarrow> AgpsSubscriber list" where
  "inactivate_first h [] = []"
| "inactivate_first h (s # ss) =
     (if mConnHandle s = h then s\<lparr>mIsInactive := True\<rparr> # ss else s # inactivate_first h ss)"

definition set_inactive :: "subscriber_ptr \<Rightarrow> 'z AgpsStateMachine_scheme \<Rightarrow> 'z AgpsStateMachine_scheme" where
  "set_inactive p sm =
     (case p of
        Local s \<Rightarrow> sm\<lparr>mCurrentSubscriber := Some (Local (s\<lparr>mIsInactive := True\<rparr>))\<rparr>
      | InList h \<Rightarrow> sm\<lparr>mSubscriberList := inactivate_first h (mSubscriberList sm)\<rparr>)"

text \<open>
  \<open>setAPN\<close>: the name is a buffer of which \<open>len\<close> bytes are copied; reading past its end is
  \<open>None\<close>.
\<close>

definition setAPN ::
  "string option \<Rightarrow> u32 \<Rightarrow> 'z AgpsStateMachine_scheme \<Rightarrow> 'z AgpsStateMachine_scheme option" where
  "setAPN apn len sm =
     (let sm = (if apn = None \<or> len = 0 then sm\<lparr>mAPN := None, mAPNLen := 0\<rparr> else sm)
      in case apn of
           None \<Rightarrow> Some sm
         | Some buf \<Rightarrow>
             if unat len \<le> length buf
             then Some (sm\<lparr>mAPN := Some (take (unat len) buf), mAPNLen := len\<rparr>)
             else None)"

section \<open>Event processing\<close>

text \<open>
  The two virtual methods are arguments: \<open>req\<close> is \<open>requestOrReleaseDataConn\<close>, \<open>ntf\<close> is
  \<open>notifyEventToSubscriber\<close>.
\<close>

type_synonym 'z req_fn = "bool \<Rightarrow> 'z agps_st \<Rightarrow> (int \<times> 'z agps_st) option"
type_synonym 'z ntf_fn = "AgpsEvent \<Rightarrow> subscriber_ptr \<Rightarrow> bool \<Rightarrow> 'z agps_st \<Rightarrow> 'z agps_st option"

definition selected :: "AgpsNotificationType \<Rightarrow> AgpsSubscriber \<Rightarrow> bool" where
  "selected typ s \<longleftrightarrow>
     typ = AGPS_NOTIFICATION_TYPE_FOR_ALL_SUBSCRIBERS \<or>
     typ = AGPS_NOTIFICATION_TYPE_FOR_INACTIVE_SUBSCRIBERS \<and> mIsInactive s \<or>
     typ = AGPS_NOTIFICATION_TYPE_FOR_ACTIVE_SUBSCRIBERS \<and> \<not> mIsInactive s"

text \<open>The loop of \<open>notifyAllSubscribers\<close>: \<open>kept\<close> is before the iterator, the rest after it.\<close>

fun notify_loop ::
  "'z ntf_fn \<Rightarrow> AgpsEvent \<Rightarrow> bool \<Rightarrow> AgpsNotificationType \<Rightarrow> AgpsSubscriber list \<Rightarrow> AgpsSubscriber list \<Rightarrow>
   'z agps_st \<Rightarrow> 'z agps_st option" where
  "notify_loop ntf event del typ kept [] st = Some st"
| "notify_loop ntf event del typ kept (s # rest) st =
     (if selected typ s
      then do {
        st \<leftarrow> ntf event (Local s) False st;
        if del
        then notify_loop ntf event del typ kept rest ((fst st)\<lparr>mSubscriberList := kept @ rest\<rparr>, snd st)
        else notify_loop ntf event del typ (kept @ [s]) rest st
      }
      else notify_loop ntf event del typ (kept @ [s]) rest st)"

definition notifyAllSubscribers ::
  "'z ntf_fn \<Rightarrow> AgpsEvent \<Rightarrow> bool \<Rightarrow> AgpsNotificationType \<Rightarrow> 'z agps_st \<Rightarrow> 'z agps_st option" where
  "notifyAllSubscribers ntf event del typ st = notify_loop ntf event del typ [] (mSubscriberList (fst st)) st"

definition add_current :: "'z agps_st \<Rightarrow> 'z agps_st option" where
  "add_current st = do {
     p \<leftarrow> mCurrentSubscriber (fst st);
     s \<leftarrow> deref p (fst st);
     Some (addSubscriber s (fst st), snd st)
   }"

definition processAgpsEventSubscribe ::
  "'z req_fn \<Rightarrow> 'z ntf_fn \<Rightarrow> 'z agps_st \<Rightarrow> 'z agps_st option" where
  "processAgpsEventSubscribe req ntf st =
     (case mState (fst st) of
        AGPS_STATE_RELEASED \<Rightarrow> do {
          st \<leftarrow> add_current st;
          (r, st) \<leftarrow> req True st;
          Some (if r = 0 then transitionState AGPS_STATE_PENDING st else st)
        }
      | AGPS_STATE_PENDING \<Rightarrow> add_current st
      | AGPS_STATE_ACQUIRED \<Rightarrow> do {
          p \<leftarrow> mCurrentSubscriber (fst st);
          st \<leftarrow> ntf AGPS_EVENT_GRANTED p False st;
          add_current st
        }
      | AGPS_STATE_RELEASING \<Rightarrow> add_current st
      | AGPS_STATE_INVALID \<Rightarrow> Some st)"

text \<open>The current subscriber becomes inactive, or is notified and deleted.\<close>

definition leave_current :: "'z ntf_fn \<Rightarrow> 'z agps_st \<Rightarrow> 'z agps_st option" where
  "leave_current ntf st = do {
     p \<leftarrow> mCurrentSubscriber (fst st);
     s \<leftarrow> deref p (fst st);
     if mWaitForCloseComplete s then Some (set_inactive p (fst st), snd st)
     else ntf AGPS_EVENT_UNSUBSCRIBE p True st
   }"

definition processAgpsEventUnsubscribe ::
  "'z req_fn \<Rightarrow> 'z ntf_fn \<Rightarrow> 'z agps_st \<Rightarrow> 'z agps_st option" where
  "processAgpsEventUnsubscribe req ntf st =
     (if mState (fst st) = AGPS_STATE_RELEASED
      then do {
        p \<leftarrow> mCurrentSubscriber (fst st);
        ntf AGPS_EVENT_UNSUBSCRIBE p False st
      }
      else if mState (fst st) = AGPS_STATE_PENDING \<or> mState (fst st) = AGPS_STATE_ACQUIRED
      then do {
        st \<leftarrow> leave_current ntf st;
        if mSubscriberList (fst st) = []
        then map_option snd (req False (transitionState AGPS_STATE_RELEASED st))
        else if \<not> anyActiveSubscribers (fst st)
        then map_option snd (req False (transitionState AGPS_STATE_RELEASING st))
        else Some st
      }
      else if mState (fst st) = AGPS_STATE_RELEASING
      then do {
        st \<leftarrow> leave_current ntf st;
        Some (if mSubscriberList (fst st) = [] then transitionState AGPS_STATE_RELEASED st else st)
      }
      else Some st)"

definition processAgpsEventGranted :: "'z ntf_fn \<Rightarrow> 'z agps_st \<Rightarrow> 'z agps_st option" where
  "processAgpsEventGranted ntf st =
     (if mState (fst st) = AGPS_STATE_PENDING
      then notifyAllSubscribers ntf AGPS_EVENT_GRANTED False
             AGPS_NOTIFICATION_TYPE_FOR_ACTIVE_SUBSCRIBERS (transitionState AGPS_STATE_ACQUIRED st)
      else Some st)"

text \<open>What \<open>RELEASED\<close> and \<open>DENIED\<close> both do in the releasing state.\<close>

definition release_done :: "'z req_fn \<Rightarrow> 'z ntf_fn \<Rightarrow> 'z agps_st \<Rightarrow> 'z agps_st option" where
  "release_done req ntf st = do {
     st \<leftarrow> notifyAllSubscribers ntf AGPS_EVENT_RELEASED True
            AGPS_NOTIFICATION_TYPE_FOR_INACTIVE_SUBSCRIBERS st;
     if anyActiveSubscribers (fst st)
     then map_option snd (req True (transitionState AGPS_STATE_PENDING st))
     else Some (transitionState AGPS_STATE_RELEASED st)
   }"

definition processAgpsEventReleased ::
  "'z req_fn \<Rightarrow> 'z ntf_fn \<Rightarrow> 'z agps_st \<Rightarrow> 'z agps_st option" where
  "processAgpsEventReleased req ntf st =
     (case mState (fst st) of
        AGPS_STATE_ACQUIRED \<Rightarrow>
          notifyAllSubscribers ntf AGPS_EVENT_RELEASED True
            AGPS_NOTIFICATION_TYPE_FOR_ALL_SUBSCRIBERS (transitionState AGPS_STATE_RELEASED st)
      | AGPS_STATE_RELEASING \<Rightarrow> release_done req ntf st
      | _ \<Rightarrow> Some st)"

definition processAgpsEventDenied ::
  "'z req_fn \<Rightarrow> 'z ntf_fn \<Rightarrow> 'z agps_st \<Rightarrow> 'z agps_st option" where
  "processAgpsEventDenied req ntf st =
     (case mState (fst st) of
        AGPS_STATE_RELEASING \<Rightarrow> release_done req ntf st
      | AGPS_STATE_PENDING \<Rightarrow>
          notifyAllSubscribers ntf AGPS_EVENT_DENIED True
            AGPS_NOTIFICATION_TYPE_FOR_ALL_SUBSCRIBERS (transitionState AGPS_STATE_RELEASED st)
      | _ \<Rightarrow> Some st)"

definition processAgpsEvent ::
  "'z req_fn \<Rightarrow> 'z ntf_fn \<Rightarrow> AgpsEvent \<Rightarrow> 'z agps_st \<Rightarrow> 'z agps_st option" where
  "processAgpsEvent req ntf event st =
     (case event of
        AGPS_EVENT_SUBSCRIBE \<Rightarrow> processAgpsEventSubscribe req ntf st
      | AGPS_EVENT_UNSUBSCRIBE \<Rightarrow> processAgpsEventUnsubscribe req ntf st
      | AGPS_EVENT_GRANTED \<Rightarrow> processAgpsEventGranted ntf st
      | AGPS_EVENT_RELEASED \<Rightarrow> processAgpsEventReleased req ntf st
      | AGPS_EVENT_DENIED \<Rightarrow> processAgpsEventDenied req ntf st
      | AGPS_EVENT_INVALID \<Rightarrow> Some st)"

section \<open>The two kinds of state machine\<close>

definition requestOrReleaseDataConn :: "'z req_fn" where
  "requestOrReleaseDataConn request st =
     Some (0, emit (FrameworkStatusV4Cb (mAgpsType (fst st))
       (if request then LOC_GPS_REQUEST_AGPS_DATA_CONN else LOC_GPS_RELEASE_AGPS_DATA_CONN)) st)"

text \<open>The search and deletion at the end of both \<open>notifyEventToSubscriber\<close>.\<close>

definition delete_after :: "agps_env \<Rightarrow> subscriber_ptr \<Rightarrow> bool \<Rightarrow> 'z agps_st \<Rightarrow> 'z agps_st option" where
  "delete_after env p del st =
     (if del then map_option (\<lambda>sm. (sm, snd st)) (deleteSubscriber env p (fst st)) else Some st)"

definition notifyEventToSubscriber :: "agps_env \<Rightarrow> 'z ntf_fn" where
  "notifyEventToSubscriber env event p del st = do {
     s \<leftarrow> deref p (fst st);
     let h = mConnHandle s;
     let sm = fst st;
     let st = (case event of
         AGPS_EVENT_GRANTED \<Rightarrow> emit (AtlOpenStatusCb h 1 (mAPN sm) (mBearer sm) (mAgpsType sm)) st
       | AGPS_EVENT_DENIED \<Rightarrow> emit (AtlOpenStatusCb h 0 (mAPN sm) (mBearer sm) (mAgpsType sm)) st
       | AGPS_EVENT_UNSUBSCRIBE \<Rightarrow> emit (AtlCloseStatusCb h 1) st
       | AGPS_EVENT_RELEASED \<Rightarrow> emit (AtlCloseStatusCb h 1) st
       | _ \<Rightarrow> st);
     delete_after env p del st
   }"

type_synonym ds_st = "DSStateMachine \<times> agps_call list"

definition DS_notifyEventToSubscriber ::
  "agps_env \<Rightarrow> AgpsEvent \<Rightarrow> subscriber_ptr \<Rightarrow> bool \<Rightarrow> ds_st \<Rightarrow> ds_st option" where
  "DS_notifyEventToSubscriber env event p del st = do {
     s \<leftarrow> deref p (fst st);
     let h = mConnHandle s;
     let st = (case event of
         AGPS_EVENT_GRANTED \<Rightarrow>
           emit (AtlOpenStatusCb h 1 None AGPS_APN_BEARER_INVALID LOC_AGPS_TYPE_SUPL_ES) st
       | AGPS_EVENT_DENIED \<Rightarrow>
           emit (SendMsgRequestATL h LOC_AGPS_TYPE_SUPL) ((fst st)\<lparr>mRetries := 0\<rparr>, snd st)
       | AGPS_EVENT_UNSUBSCRIBE \<Rightarrow> emit (AtlCloseStatusCb h 1) st
       | AGPS_EVENT_RELEASED \<Rightarrow> emit (AtlCloseStatusCb h 1) (emit DSClientCloseDataCallFn st)
       | _ \<Rightarrow> st);
     delete_after env p del st
   }"

definition DS_requestOrReleaseDataConn :: "agps_env \<Rightarrow> bool \<Rightarrow> ds_st \<Rightarrow> (int \<times> ds_st) option" where
  "DS_requestOrReleaseDataConn env request st =
     (if \<not> request \<and> dsStopRegistered env then Some (0, emit DSClientStopDataCallFn st)
      else
        (case getFirstSubscriber False (fst st) of
           None \<Rightarrow> Some (- 1, st)
         | Some s \<Rightarrow>
             if \<not> dsOpenRegistered env
             then map_option (\<lambda>st. (- 1, st)) (DS_notifyEventToSubscriber env AGPS_EVENT_DENIED (Local s) False st)
             else
               (let ret = answer env (snd st) DSClientOpenAndStartDataCallFn;
                    st = emit DSClientOpenAndStartDataCallFn st
                in if ret = LOC_API_ADAPTER_ERR_ENGINE_BUSY
                   then
                     (let st = ((fst st)\<lparr>mRetries := mRetries (fst st) + 1\<rparr>, snd st)
                      in if mRetries (fst st) > MAX_START_DATA_CALL_RETRIES
                         then map_option (\<lambda>st. (ret, st))
                                (DS_notifyEventToSubscriber env AGPS_EVENT_DENIED (Local s) False st)
                         else
                           (let t = answer env (snd st) (LocTimerStart DATA_CALL_RETRY_DELAY_MSEC);
                                st = emit (LocTimerStart DATA_CALL_RETRY_DELAY_MSEC) st
                            in Some (if t \<noteq> 0 then - 1 else ret, st)))
                   else if ret = LOC_API_ADAPTER_ERR_UNSUPPORTED
                   then map_option (\<lambda>st. (ret, st))
                          (DS_notifyEventToSubscriber env AGPS_EVENT_DENIED (Local s) False st)
                   else Some (ret, st))))"

definition Agps_processEvent :: "agps_env \<Rightarrow> AgpsEvent \<Rightarrow> 'z agps_st \<Rightarrow> 'z agps_st option" where
  "Agps_processEvent env = processAgpsEvent requestOrReleaseDataConn (notifyEventToSubscriber env)"

definition DS_processAgpsEvent :: "agps_env \<Rightarrow> AgpsEvent \<Rightarrow> ds_st \<Rightarrow> ds_st option" where
  "DS_processAgpsEvent env event st =
     (let event = (if event = AGPS_EVENT_RELEASED \<and> mState (fst st) = AGPS_STATE_PENDING
                   then AGPS_EVENT_DENIED else event)
      in processAgpsEvent (DS_requestOrReleaseDataConn env) (DS_notifyEventToSubscriber env) event st)"

text \<open>\<open>retryCallback\<close>, called by the timer with the state machine.\<close>

definition retryCallback :: "ds_st \<Rightarrow> ds_st" where
  "retryCallback st =
     (case getFirstSubscriber False (fst st) of
        None \<Rightarrow> st
      | Some s \<Rightarrow> emit (SendMsgRequestATL (mConnHandle s) LOC_AGPS_TYPE_SUPL_ES) st)"

section \<open>The manager\<close>

record AgpsManager =
  mAgnssNif :: "AgpsStateMachine option"
  mInternetNif :: "AgpsStateMachine option"
  mDsNif :: "DSStateMachine option"

definition AgpsManager_new :: AgpsManager where
  "AgpsManager_new = \<lparr>mAgnssNif = None, mInternetNif = None, mDsNif = None\<rparr>"

type_synonym mgr_st = "AgpsManager \<times> agps_call list"

definition emit_mgr :: "agps_call \<Rightarrow> mgr_st \<Rightarrow> mgr_st" where
  "emit_mgr c st = (fst st, snd st @ [c])"

abbreviation (input) LOC_GPS_CAPABILITY_MSB :: u32 where "LOC_GPS_CAPABILITY_MSB \<equiv> 2"
abbreviation (input) LOC_GPS_CAPABILITY_MSA :: u32 where "LOC_GPS_CAPABILITY_MSA \<equiv> 4"

definition createAgpsStateMachines :: "agps_env \<Rightarrow> mgr_st \<Rightarrow> mgr_st" where
  "createAgpsStateMachines env st =
     (let agpsCapable = and (capabilities env) LOC_GPS_CAPABILITY_MSA \<noteq> 0 \<or>
            and (capabilities env) LOC_GPS_CAPABILITY_MSB \<noteq> 0;
          st = (if mInternetNif (fst st) = None
                then ((fst st)\<lparr>mInternetNif := Some (AgpsStateMachine_new LOC_AGPS_TYPE_WWAN_ANY)\<rparr>, snd st) else st)
      in if \<not> agpsCapable then st
         else
           (let st = (if mAgnssNif (fst st) = None
                      then ((fst st)\<lparr>mAgnssNif := Some (AgpsStateMachine_new LOC_AGPS_TYPE_SUPL)\<rparr>, snd st) else st)
            in if mDsNif (fst st) = None \<and> useEmergencyPdn env
               then if \<not> dsInitRegistered env then st
                    else
                      (let r = answer env (snd st) (DSClientInitFn False);
                           st = emit_mgr (DSClientInitFn False) st
                       in if r \<noteq> 0 then st else ((fst st)\<lparr>mDsNif := Some DSStateMachine_new\<rparr>, snd st))
               else st))"

text \<open>Which machine a type is served by; the first component is the manager after a possible creation.\<close>

datatype nif = AgnssNif | InternetNif | DsNif

definition nif_exists :: "nif \<Rightarrow> AgpsManager \<Rightarrow> bool" where
  "nif_exists n m = (case n of AgnssNif \<Rightarrow> mAgnssNif m \<noteq> None | InternetNif \<Rightarrow> mInternetNif m \<noteq> None
     | DsNif \<Rightarrow> mDsNif m \<noteq> None)"

definition getAgpsStateMachine :: "agps_env \<Rightarrow> int \<Rightarrow> mgr_st \<Rightarrow> mgr_st \<times> nif option" where
  "getAgpsStateMachine env agpsType st =
     (let pick = (\<lambda>n st. (st, if nif_exists n (fst st) then Some n else None))
      in if agpsType = LOC_AGPS_TYPE_INVALID \<or> agpsType = LOC_AGPS_TYPE_SUPL then pick AgnssNif st
         else if agpsType = LOC_AGPS_TYPE_SUPL_ES
         then if useEmergencyPdn env
              then pick DsNif (if mDsNif (fst st) = None then createAgpsStateMachines env st else st)
              else pick AgnssNif st
         else pick InternetNif st)"

text \<open>Running an event on a machine, after \<open>setCurrentSubscriber\<close> where \<open>cur\<close> is given.\<close>

definition set_current :: "subscriber_ptr option \<Rightarrow> 'z AgpsStateMachine_scheme \<Rightarrow> 'z AgpsStateMachine_scheme" where
  "set_current cur sm = (case cur of None \<Rightarrow> sm | Some p \<Rightarrow> sm\<lparr>mCurrentSubscriber := Some p\<rparr>)"

definition run_nif ::
  "agps_env \<Rightarrow> nif \<Rightarrow> subscriber_ptr option \<Rightarrow> AgpsEvent \<Rightarrow> mgr_st \<Rightarrow> mgr_st option" where
  "run_nif env n cur event st =
     (case n of
        AgnssNif \<Rightarrow> do {
          sm \<leftarrow> mAgnssNif (fst st);
          (sm, calls) \<leftarrow> Agps_processEvent env event (set_current cur sm, snd st);
          Some ((fst st)\<lparr>mAgnssNif := Some sm\<rparr>, calls)
        }
      | InternetNif \<Rightarrow> do {
          sm \<leftarrow> mInternetNif (fst st);
          (sm, calls) \<leftarrow> Agps_processEvent env event (set_current cur sm, snd st);
          Some ((fst st)\<lparr>mInternetNif := Some sm\<rparr>, calls)
        }
      | DsNif \<Rightarrow> do {
          sm \<leftarrow> mDsNif (fst st);
          (sm, calls) \<leftarrow> DS_processAgpsEvent env event (set_current cur sm, snd st);
          Some ((fst st)\<lparr>mDsNif := Some sm\<rparr>, calls)
        })"

definition requestATL :: "agps_env \<Rightarrow> int \<Rightarrow> int \<Rightarrow> mgr_st \<Rightarrow> mgr_st option" where
  "requestATL env connHandle agpsType st =
     (case getAgpsStateMachine env agpsType st of
        (st, None) \<Rightarrow> Some (emit_mgr (AtlOpenStatusCb connHandle 0 None AGPS_APN_BEARER_INVALID agpsType) st)
      | (st, Some n) \<Rightarrow>
          (let subscriber = \<lparr>mConnHandle = connHandle,
                 mWaitForCloseComplete = (agpsType = LOC_AGPS_TYPE_SUPL_ES), mIsInactive = False\<rparr>
           in run_nif env n (Some (Local subscriber)) AGPS_EVENT_SUBSCRIBE st))"

definition releaseATL :: "agps_env \<Rightarrow> int \<Rightarrow> mgr_st \<Rightarrow> mgr_st option" where
  "releaseATL env connHandle st =
     (let find_in = (\<lambda>sm. case sm of None \<Rightarrow> None | Some sm \<Rightarrow> getSubscriber connHandle sm);
          m = fst st
      in case find_in (mAgnssNif m) of
           Some p \<Rightarrow> run_nif env AgnssNif (Some p) AGPS_EVENT_UNSUBSCRIBE st
         | None \<Rightarrow>
             (case find_in (mInternetNif m) of
                Some p \<Rightarrow> run_nif env InternetNif (Some p) AGPS_EVENT_UNSUBSCRIBE st
              | None \<Rightarrow>
                  (case (case mDsNif m of None \<Rightarrow> None | Some sm \<Rightarrow> getSubscriber connHandle sm) of
                     Some p \<Rightarrow> run_nif env DsNif (Some p) AGPS_EVENT_UNSUBSCRIBE st
                   | None \<Rightarrow> Some (emit_mgr (AtlCloseStatusCb connHandle 0) st))))"

definition reportDataCallOpened :: "agps_env \<Rightarrow> mgr_st \<Rightarrow> mgr_st option" where
  "reportDataCallOpened env st =
     (if mDsNif (fst st) \<noteq> None then run_nif env DsNif None AGPS_EVENT_GRANTED st else Some st)"

definition reportDataCallClosed :: "agps_env \<Rightarrow> mgr_st \<Rightarrow> mgr_st option" where
  "reportDataCallClosed env st =
     (if mDsNif (fst st) \<noteq> None then run_nif env DsNif None AGPS_EVENT_RELEASED st else Some st)"

text \<open>The bearer and APN are set in the machine before it processes the event.\<close>

definition set_conn ::
  "int \<Rightarrow> string option \<Rightarrow> u32 \<Rightarrow> 'z AgpsStateMachine_scheme \<Rightarrow> 'z AgpsStateMachine_scheme option" where
  "set_conn bearer apn len sm = setAPN apn len (sm\<lparr>mBearer := bearer\<rparr>)"

definition reportAtlOpenSuccess ::
  "agps_env \<Rightarrow> int \<Rightarrow> string option \<Rightarrow> u32 \<Rightarrow> int \<Rightarrow> mgr_st \<Rightarrow> mgr_st option" where
  "reportAtlOpenSuccess env agpsType apnName apnLen bearerType st =
     (let (st, sm) = getAgpsStateMachine env agpsType st
      in case sm of
           None \<Rightarrow> None
         | Some AgnssNif \<Rightarrow> do {
             sm \<leftarrow> mAgnssNif (fst st);
             sm \<leftarrow> set_conn bearerType apnName apnLen sm;
             run_nif env AgnssNif None AGPS_EVENT_GRANTED ((fst st)\<lparr>mAgnssNif := Some sm\<rparr>, snd st)
           }
         | Some InternetNif \<Rightarrow> do {
             sm \<leftarrow> mInternetNif (fst st);
             sm \<leftarrow> set_conn bearerType apnName apnLen sm;
             run_nif env InternetNif None AGPS_EVENT_GRANTED ((fst st)\<lparr>mInternetNif := Some sm\<rparr>, snd st)
           }
         | Some DsNif \<Rightarrow> do {
             sm \<leftarrow> mDsNif (fst st);
             sm \<leftarrow> set_conn bearerType apnName apnLen sm;
             run_nif env DsNif None AGPS_EVENT_GRANTED ((fst st)\<lparr>mDsNif := Some sm\<rparr>, snd st)
           })"

definition reportAtlOpenFailed :: "agps_env \<Rightarrow> int \<Rightarrow> mgr_st \<Rightarrow> mgr_st option" where
  "reportAtlOpenFailed env agpsType st =
     (let (st, sm) = getAgpsStateMachine env agpsType st
      in case sm of None \<Rightarrow> None | Some n \<Rightarrow> run_nif env n None AGPS_EVENT_DENIED st)"

definition reportAtlClosed :: "agps_env \<Rightarrow> int \<Rightarrow> mgr_st \<Rightarrow> mgr_st option" where
  "reportAtlClosed env agpsType st =
     (let (st, sm) = getAgpsStateMachine env agpsType st
      in case sm of None \<Rightarrow> None | Some n \<Rightarrow> run_nif env n None AGPS_EVENT_RELEASED st)"

text \<open>
  \<open>handleModemSSR\<close>: calling one of the DS callbacks when it was not registered throws
  (\<open>std::bad_function_call\<close>); the three are taken to be registered together with the stop function.
\<close>

definition handleModemSSR :: "agps_env \<Rightarrow> mgr_st \<Rightarrow> mgr_st option" where
  "handleModemSSR env st =
     (let m = fst st;
          m = m\<lparr>mAgnssNif := map_option dropAllSubscribers (mAgnssNif m),
                mInternetNif := map_option dropAllSubscribers (mInternetNif m),
                mDsNif := map_option dropAllSubscribers (mDsNif m)\<rparr>
      in if useEmergencyPdn env
         then if dsStopRegistered env \<and> dsInitRegistered env
              then Some (m, snd st @ [DSClientStopDataCallFn, DSClientCloseDataCallFn, DSClientReleaseFn, DSClientInitFn True])
              else None
         else Some (m, snd st))"

section \<open>The contract of the virtual methods\<close>

text \<open>
  What the event processing relies on: asking for or releasing a connection and notifying do not
  touch the subscriber list or the state, and notifying with deletion takes the subscriber out
  of the list. The latter holds when a deleted subscriber's handle still reads the same in the
  loop that deletes it (\<open>intact\<close>).
\<close>

definition handles :: "'z AgpsStateMachine_scheme \<Rightarrow> int list" where
  "handles sm = map mConnHandle (mSubscriberList sm)"

definition same_subscribers :: "'z agps_st \<Rightarrow> 'z agps_st \<Rightarrow> bool" where
  "same_subscribers st st' \<longleftrightarrow> mSubscriberList (fst st') = mSubscriberList (fst st) \<and>
     mState (fst st') = mState (fst st) \<and> mCurrentSubscriber (fst st') = mCurrentSubscriber (fst st)"

text \<open>
  The invariant of a machine: no two subscribers have the same handle, while a connection is
  pending or acquired there is an active subscriber, while it is released all are active.
\<close>

definition sm_ok :: "'z AgpsStateMachine_scheme \<Rightarrow> bool" where
  "sm_ok sm \<longleftrightarrow> distinct (handles sm) \<and>
     (case mState sm of
        AGPS_STATE_RELEASED \<Rightarrow> \<forall>s \<in> set (mSubscriberList sm). \<not> mIsInactive s
      | AGPS_STATE_PENDING \<Rightarrow> anyActiveSubscribers sm
      | AGPS_STATE_ACQUIRED \<Rightarrow> anyActiveSubscribers sm
      | AGPS_STATE_RELEASING \<Rightarrow> mSubscriberList sm \<noteq> []
      | AGPS_STATE_INVALID \<Rightarrow> False)"

text \<open>A machine whose requests do not fail has no subscriber while it is released.\<close>

definition sm_strict :: "'z AgpsStateMachine_scheme \<Rightarrow> bool" where
  "sm_strict sm \<longleftrightarrow> sm_ok sm \<and> (mState sm = AGPS_STATE_RELEASED \<longrightarrow> mSubscriberList sm = [])"

text \<open>The current subscriber that the manager sets for an event.\<close>

definition cur_ok :: "AgpsEvent \<Rightarrow> 'z AgpsStateMachine_scheme \<Rightarrow> bool" where
  "cur_ok event sm =
     (case event of
        AGPS_EVENT_SUBSCRIBE \<Rightarrow> (\<exists>s. mCurrentSubscriber sm = Some (Local s) \<and> \<not> mIsInactive s)
      | AGPS_EVENT_UNSUBSCRIBE \<Rightarrow> (\<exists>h. mCurrentSubscriber sm = Some (InList h) \<and> h \<in> set (handles sm))
      | _ \<Rightarrow> True)"

lemma deref_InList: "deref (InList h) sm \<noteq> None \<longleftrightarrow> h \<in> set (handles sm)"
  by (auto simp: deref_def handles_def find_None_iff)

lemma set_inactivate_first:
  "inactivate_first h ss = (if h \<in> mConnHandle ` set ss then inactivate_first h ss else ss)"
  by (induction ss) auto

lemma handles_inactivate [simp]: "map mConnHandle (inactivate_first h ss) = map mConnHandle ss"
  by (induction ss) auto

lemma inactivate_Nil [simp]: "inactivate_first h ss = [] \<longleftrightarrow> ss = []"
  by (cases ss) auto

lemma anyActive_add:
  "distinct (handles sm) \<Longrightarrow> \<forall>s \<in> set (mSubscriberList sm). \<not> mIsInactive s \<Longrightarrow> \<not> mIsInactive s \<Longrightarrow>
   anyActiveSubscribers (addSubscriber s sm) \<and> (\<forall>t \<in> set (mSubscriberList (addSubscriber s sm)). \<not> mIsInactive t)"
  by (auto simp: anyActiveSubscribers_def addSubscriber_def subscriber_equals_def)

lemma distinct_add: "distinct (handles sm) \<Longrightarrow> distinct (handles (addSubscriber s sm))"
  by (auto simp: handles_def addSubscriber_def subscriber_equals_def)

lemma addSubscriber_simps [simp]:
  "mState (addSubscriber s sm) = mState sm" "mCurrentSubscriber (addSubscriber s sm) = mCurrentSubscriber sm"
  by (simp_all add: addSubscriber_def)

lemma set_addSubscriber: "set (mSubscriberList sm) \<subseteq> set (mSubscriberList (addSubscriber s sm))"
  by (auto simp: addSubscriber_def)

lemma transition_simps [simp]:
  "mState (fst (transitionState q st)) = q" "mSubscriberList (fst (transitionState q st)) = mSubscriberList (fst st)"
  "mCurrentSubscriber (fst (transitionState q st)) = mCurrentSubscriber (fst st)"
  "snd (transitionState q st) = snd st" "handles (fst (transitionState q st)) = handles (fst st)"
  "anyActiveSubscribers (fst (transitionState q st)) = anyActiveSubscribers (fst st)"
  by (simp_all add: transitionState_def handles_def anyActiveSubscribers_def)

lemma same_subscribers_simps:
  assumes "same_subscribers st st'"
  shows "mSubscriberList (fst st') = mSubscriberList (fst st)" "mState (fst st') = mState (fst st)"
    "handles (fst st') = handles (fst st)" "anyActiveSubscribers (fst st') = anyActiveSubscribers (fst st)"
    "mCurrentSubscriber (fst st') = mCurrentSubscriber (fst st)" "sm_ok (fst st') = sm_ok (fst st)"
    "sm_strict (fst st') = sm_strict (fst st)"
  using assms by (auto simp: same_subscribers_def handles_def anyActiveSubscribers_def sm_ok_def sm_strict_def
      split: AgpsState.split)

locale agps_vtable =
  fixes req :: "'z req_fn" and ntf :: "'z ntf_fn" and intact :: bool and reliable :: bool
  assumes req_ok: "\<exists>r st'. req b st = Some (r, st') \<and> same_subscribers st st'"
    and ntf_local: "\<exists>st'. ntf e (Local s) False st = Some st' \<and> same_subscribers st st'"
    and ntf_inList: "h \<in> set (handles (fst st)) \<Longrightarrow>
      \<exists>st'. ntf e (InList h) False st = Some st' \<and> same_subscribers st st'"
    and ntf_delete: "intact \<Longrightarrow> h \<in> set (handles (fst st)) \<Longrightarrow>
      \<exists>st'. ntf e (InList h) True st = Some st' \<and>
        mSubscriberList (fst st') = filter (\<lambda>s. mConnHandle s \<noteq> h) (mSubscriberList (fst st)) \<and>
        mState (fst st') = mState (fst st)"
    and req_reliable: "reliable \<Longrightarrow> req True st = Some (r, st') \<Longrightarrow> r = 0"
begin

lemma notify_loop_spec:
  "mSubscriberList (fst st) = kept @ rest \<Longrightarrow>
   \<exists>st'. notify_loop ntf e del typ kept rest st = Some st' \<and> mState (fst st') = mState (fst st) \<and>
     mSubscriberList (fst st') = kept @ (if del then filter (\<lambda>s. \<not> selected typ s) rest else rest)"
proof (induction rest arbitrary: kept st)
  case (Cons s rest)
  obtain st1 where st1: "ntf e (Local s) False st = Some st1" "same_subscribers st st1"
    using ntf_local by blast
  note same = same_subscribers_simps[OF st1(2)]
  show ?case
    using Cons.prems st1(1) same Cons.IH[of "((fst st1)\<lparr>mSubscriberList := kept @ rest\<rparr>, snd st1)" kept]
      Cons.IH[of st1 "kept @ [s]"] Cons.IH[of st "kept @ [s]"]
    by auto
qed simp

lemma notifyAll_spec:
  "\<exists>st'. notifyAllSubscribers ntf e del typ st = Some st' \<and> mState (fst st') = mState (fst st) \<and>
     mSubscriberList (fst st') =
       (if del then filter (\<lambda>s. \<not> selected typ s) (mSubscriberList (fst st)) else mSubscriberList (fst st))"
  using notify_loop_spec[of st "[]" "mSubscriberList (fst st)"]
  by (simp add: notifyAllSubscribers_def)

lemma subscribe_ok:
  assumes ok: "sm_ok (fst st)" and cur: "cur_ok AGPS_EVENT_SUBSCRIBE (fst st)"
  shows "\<exists>st'. processAgpsEventSubscribe req ntf st = Some st' \<and> sm_ok (fst st') \<and>
    (reliable \<longrightarrow> sm_strict (fst st) \<longrightarrow> sm_strict (fst st'))"
proof -
  from cur obtain s where s: "mCurrentSubscriber (fst st) = Some (Local s)" "\<not> mIsInactive s"
    by (auto simp: cur_ok_def)
  let ?add = "\<lambda>st. (addSubscriber s (fst st), snd st)"
  have add: "add_current st1 = Some (?add st1)" if "mCurrentSubscriber (fst st1) = Some (Local s)" for st1
    using that by (simp add: add_current_def deref_def)
  have d: "distinct (handles (fst st))" using ok by (simp add: sm_ok_def)
  show ?thesis
  proof (cases "mState (fst st)")
    case AGPS_STATE_RELEASED
    obtain r st1 where st1: "req True (?add st) = Some (r, st1)" "same_subscribers (?add st) st1"
      using req_ok by blast
    note same = same_subscribers_simps[OF st1(2)]
    have "anyActiveSubscribers (fst st1) \<and> (\<forall>t \<in> set (mSubscriberList (fst st1)). \<not> mIsInactive t)"
      using anyActive_add[OF d _ s(2)] ok AGPS_STATE_RELEASED same by (simp add: sm_ok_def)
    moreover have "distinct (handles (fst st1))" using distinct_add[OF d] same by simp
    ultimately show ?thesis
      using st1(1) same AGPS_STATE_RELEASED req_reliable[OF _ st1(1)]
      by (auto simp: processAgpsEventSubscribe_def add[OF s(1)] sm_ok_def sm_strict_def)
  next
    case AGPS_STATE_ACQUIRED
    obtain st1 where st1: "ntf AGPS_EVENT_GRANTED (Local s) False st = Some st1" "same_subscribers st st1"
      using ntf_local by blast
    note same = same_subscribers_simps[OF st1(2)]
    have "anyActiveSubscribers (addSubscriber s (fst st1))" "distinct (handles (addSubscriber s (fst st1)))"
      using ok AGPS_STATE_ACQUIRED same set_addSubscriber[of "fst st1" s] distinct_add[of "fst st1"]
      by (auto simp: sm_ok_def anyActiveSubscribers_def)
    then show ?thesis
      using st1(1) same AGPS_STATE_ACQUIRED s
      by (auto simp: processAgpsEventSubscribe_def add sm_ok_def sm_strict_def)
  next
    case AGPS_STATE_INVALID
    with ok show ?thesis by (simp add: sm_ok_def)
  next
    case AGPS_STATE_PENDING
    then have "anyActiveSubscribers (addSubscriber s (fst st))"
      using ok set_addSubscriber[of "fst st" s] by (auto simp: sm_ok_def anyActiveSubscribers_def)
    then show ?thesis
      using AGPS_STATE_PENDING distinct_add[OF d, of s]
      by (simp add: processAgpsEventSubscribe_def add[OF s(1)] sm_ok_def sm_strict_def)
  next
    case AGPS_STATE_RELEASING
    then have "mSubscriberList (addSubscriber s (fst st)) \<noteq> []"
      using ok by (auto simp: sm_ok_def addSubscriber_def)
    then show ?thesis
      using AGPS_STATE_RELEASING distinct_add[OF d, of s]
      by (simp add: processAgpsEventSubscribe_def add[OF s(1)] sm_ok_def sm_strict_def)
  qed
qed

lemma leave_current_spec:
  assumes "intact" "distinct (handles (fst st))" "cur_ok AGPS_EVENT_UNSUBSCRIBE (fst st)"
  shows "\<exists>st'. leave_current ntf st = Some st' \<and> mState (fst st') = mState (fst st) \<and> distinct (handles (fst st'))"
proof -
  from assms(3) obtain h where h: "mCurrentSubscriber (fst st) = Some (InList h)" "h \<in> set (handles (fst st))"
    by (auto simp: cur_ok_def)
  then obtain s where s: "deref (InList h) (fst st) = Some s" using deref_InList[of h "fst st"] by auto
  obtain st1 where "ntf AGPS_EVENT_UNSUBSCRIBE (InList h) True st = Some st1"
      "mSubscriberList (fst st1) = filter (\<lambda>s. mConnHandle s \<noteq> h) (mSubscriberList (fst st))"
      "mState (fst st1) = mState (fst st)"
    using ntf_delete[OF assms(1) h(2)] by blast
  then show ?thesis
    using h s assms(2)
    by (auto simp: leave_current_def set_inactive_def handles_def distinct_map_filter_key
        simp del: split_paired_Ex)
qed

lemma unsubscribe_ok:
  assumes "intact" and ok: "sm_ok (fst st)" and cur: "cur_ok AGPS_EVENT_UNSUBSCRIBE (fst st)"
  shows "\<exists>st'. processAgpsEventUnsubscribe req ntf st = Some st' \<and> sm_ok (fst st') \<and>
    (sm_strict (fst st) \<longrightarrow> sm_strict (fst st'))"
proof -
  have d: "distinct (handles (fst st))" using ok by (simp add: sm_ok_def)
  obtain st1 where st1: "leave_current ntf st = Some st1" "mState (fst st1) = mState (fst st)"
      "distinct (handles (fst st1))"
    using leave_current_spec[OF assms(1) d cur] by blast
  have rel: "\<exists>r st2. req False (transitionState q st1) = Some (r, st2) \<and> mState (fst st2) = q \<and>
      mSubscriberList (fst st2) = mSubscriberList (fst st1)" for q
    using req_ok[of False "transitionState q st1"] by (auto simp: same_subscribers_def)
  show ?thesis
  proof (cases "mState (fst st)")
    case AGPS_STATE_RELEASED
    from cur obtain h where h: "mCurrentSubscriber (fst st) = Some (InList h)" "h \<in> set (handles (fst st))"
      by (auto simp: cur_ok_def)
    with ntf_inList obtain st2 where "ntf AGPS_EVENT_UNSUBSCRIBE (InList h) False st = Some st2"
        "same_subscribers st st2" by blast
    with h ok AGPS_STATE_RELEASED show ?thesis
      by (simp add: processAgpsEventUnsubscribe_def same_subscribers_simps)
  next
    case AGPS_STATE_PENDING
    then show ?thesis
      using st1 rel[of AGPS_STATE_RELEASED] rel[of AGPS_STATE_RELEASING]
      by (auto simp: processAgpsEventUnsubscribe_def sm_ok_def sm_strict_def handles_def simp del: split_paired_Ex)
  next
    case AGPS_STATE_ACQUIRED
    then show ?thesis
      using st1 rel[of AGPS_STATE_RELEASED] rel[of AGPS_STATE_RELEASING]
      by (auto simp: processAgpsEventUnsubscribe_def sm_ok_def sm_strict_def handles_def simp del: split_paired_Ex)
  next
    case AGPS_STATE_RELEASING
    then show ?thesis
      using st1 by (auto simp: processAgpsEventUnsubscribe_def sm_ok_def sm_strict_def handles_def
          simp del: split_paired_Ex)
  next
    case AGPS_STATE_INVALID
    with ok show ?thesis by (simp add: sm_ok_def)
  qed
qed

lemma granted_ok:
  assumes "sm_ok (fst st)"
  shows "\<exists>st'. processAgpsEventGranted ntf st = Some st' \<and> sm_ok (fst st') \<and>
    (sm_strict (fst st) \<longrightarrow> sm_strict (fst st'))"
  using assms notifyAll_spec[of AGPS_EVENT_GRANTED False AGPS_NOTIFICATION_TYPE_FOR_ACTIVE_SUBSCRIBERS
      "transitionState AGPS_STATE_ACQUIRED st"]
  by (auto simp: processAgpsEventGranted_def sm_ok_def sm_strict_def handles_def anyActiveSubscribers_def
      simp del: split_paired_Ex)

lemma release_done_ok:
  assumes "sm_ok (fst st)"
  shows "\<exists>st'. release_done req ntf st = Some st' \<and> sm_strict (fst st')"
proof -
  obtain st1 where st1: "notifyAllSubscribers ntf AGPS_EVENT_RELEASED True
        AGPS_NOTIFICATION_TYPE_FOR_INACTIVE_SUBSCRIBERS st = Some st1"
      "mSubscriberList (fst st1) = filter (\<lambda>s. \<not> mIsInactive s) (mSubscriberList (fst st))"
    using notifyAll_spec[of AGPS_EVENT_RELEASED True AGPS_NOTIFICATION_TYPE_FOR_INACTIVE_SUBSCRIBERS st]
    by (auto simp: selected_def simp del: split_paired_Ex)
  obtain r st2 where st2: "req True (transitionState AGPS_STATE_PENDING st1) = Some (r, st2)"
      "same_subscribers (transitionState AGPS_STATE_PENDING st1) st2"
    using req_ok by blast
  have "distinct (map mConnHandle (mSubscriberList (fst st1)))"
    using assms st1(2) by (simp add: sm_ok_def handles_def distinct_map_filter_key)
  then show ?thesis
    using st1 st2 same_subscribers_simps[OF st2(2)]
    by (auto simp: release_done_def sm_ok_def sm_strict_def handles_def anyActiveSubscribers_def
        filter_empty_conv simp del: split_paired_Ex)
qed

lemma drop_all_ok:
  "\<exists>st'. notifyAllSubscribers ntf e True AGPS_NOTIFICATION_TYPE_FOR_ALL_SUBSCRIBERS
      (transitionState AGPS_STATE_RELEASED st) = Some st' \<and> sm_strict (fst st')"
  using notifyAll_spec[of e True AGPS_NOTIFICATION_TYPE_FOR_ALL_SUBSCRIBERS
      "transitionState AGPS_STATE_RELEASED st"]
  by (auto simp: selected_def sm_ok_def sm_strict_def handles_def simp del: split_paired_Ex)

lemma released_ok:
  assumes "sm_ok (fst st)"
  shows "\<exists>st'. processAgpsEventReleased req ntf st = Some st' \<and> sm_ok (fst st') \<and>
    (sm_strict (fst st) \<longrightarrow> sm_strict (fst st'))"
  using assms release_done_ok[OF assms] drop_all_ok[of AGPS_EVENT_RELEASED st]
  by (auto simp: processAgpsEventReleased_def sm_strict_def split: AgpsState.split simp del: split_paired_Ex)

lemma denied_ok:
  assumes "sm_ok (fst st)"
  shows "\<exists>st'. processAgpsEventDenied req ntf st = Some st' \<and> sm_ok (fst st') \<and>
    (sm_strict (fst st) \<longrightarrow> sm_strict (fst st'))"
  using assms release_done_ok[OF assms] drop_all_ok[of AGPS_EVENT_DENIED st]
  by (auto simp: processAgpsEventDenied_def sm_strict_def split: AgpsState.split simp del: split_paired_Ex)

lemma event_ok:
  assumes "intact" "sm_ok (fst st)" "cur_ok event (fst st)"
  shows "\<exists>st'. processAgpsEvent req ntf event st = Some st' \<and> sm_ok (fst st') \<and>
    (reliable \<longrightarrow> sm_strict (fst st) \<longrightarrow> sm_strict (fst st'))"
proof (cases event)
  case AGPS_EVENT_SUBSCRIBE
  then show ?thesis using subscribe_ok[OF assms(2)] assms(3) by (simp add: processAgpsEvent_def)
next
  case AGPS_EVENT_UNSUBSCRIBE
  then show ?thesis using unsubscribe_ok[OF assms(1,2)] assms(3)
    by (auto simp: processAgpsEvent_def simp del: split_paired_Ex)
next
  case AGPS_EVENT_GRANTED
  then show ?thesis using granted_ok[OF assms(2)]
    by (auto simp: processAgpsEvent_def simp del: split_paired_Ex)
next
  case AGPS_EVENT_RELEASED
  then show ?thesis using released_ok[OF assms(2)]
    by (auto simp: processAgpsEvent_def simp del: split_paired_Ex)
next
  case AGPS_EVENT_DENIED
  then show ?thesis using denied_ok[OF assms(2)]
    by (auto simp: processAgpsEvent_def simp del: split_paired_Ex)
next
  case AGPS_EVENT_INVALID
  then show ?thesis using assms(2) by (simp add: processAgpsEvent_def)
qed

end

section \<open>The machines meet the contract\<close>

definition freed_intact :: "agps_env \<Rightarrow> bool" where
  "freed_intact env \<longleftrightarrow> (\<forall>h. freedHandle env h = h)"

lemma delete_loop_filter:
  "delete_loop freed False h ss = filter (\<lambda>s. mConnHandle s \<noteq> h) ss"
  by (induction ss) auto

lemma delete_loop_intact:
  "freed h = h \<Longrightarrow> delete_loop freed b h ss = filter (\<lambda>s. mConnHandle s \<noteq> h) ss"
  by (induction ss) (auto simp: delete_loop_filter)

lemma deref_handle: "deref (InList h) sm = Some s \<Longrightarrow> mConnHandle s = h"
  by (auto simp: deref_def dest: find_Some_mem)

lemma emit_simps [simp]: "fst (emit c st) = fst st" "snd (emit c st) = snd st @ [c]"
  by (simp_all add: emit_def)

lemma same_subscribers_refl [simp]: "same_subscribers st st"
  by (simp add: same_subscribers_def)

lemma delete_after_spec:
  assumes "freed_intact env" "h \<in> set (handles (fst st))"
  shows "\<exists>st'. delete_after env (InList h) True st = Some st' \<and>
    mSubscriberList (fst st') = filter (\<lambda>s. mConnHandle s \<noteq> h) (mSubscriberList (fst st)) \<and>
    mState (fst st') = mState (fst st)"
proof -
  obtain s where "deref (InList h) (fst st) = Some s" using deref_InList assms(2) by blast
  then show ?thesis
    using assms(1) deref_handle[of h "fst st" s]
    by (simp add: delete_after_def deleteSubscriber_def delete_loop_intact freed_intact_def)
qed

interpretation agps: agps_vtable requestOrReleaseDataConn "notifyEventToSubscriber env" "freed_intact env" True
  for env
proof (unfold_locales, goal_cases)
  case (1 b st)
  show ?case by (auto simp: requestOrReleaseDataConn_def same_subscribers_def)
next
  case (2 e s st)
  show ?case
    by (auto simp: notifyEventToSubscriber_def deref_def delete_after_def same_subscribers_def Let_def
        split: AgpsEvent.split)
next
  case (3 h st e)
  then obtain s where "deref (InList h) (fst st) = Some s" using deref_InList by blast
  then show ?case
    by (auto simp: notifyEventToSubscriber_def delete_after_def same_subscribers_def Let_def
        split: AgpsEvent.split)
next
  case (4 h st e)
  then obtain s where s: "deref (InList h) (fst st) = Some s" using deref_InList by blast
  have del: "\<exists>st'. delete_after env (InList h) True st1 = Some st' \<and>
      mSubscriberList (fst st') = filter (\<lambda>s. mConnHandle s \<noteq> h) (mSubscriberList (fst st)) \<and>
      mState (fst st') = mState (fst st)" if "fst st1 = fst st" for st1
    using delete_after_spec[OF 4(1), of h st1] 4(2) that by (simp del: split_paired_Ex)
  show ?case
    unfolding notifyEventToSubscriber_def s bind.bind_lunit Let_def
    by (rule del) (simp split: AgpsEvent.split)
next
  case (5 st r st')
  then show ?case by (simp add: requestOrReleaseDataConn_def)
qed

lemma DS_notify_spec:
  assumes "deref p (fst st) = Some s"
  shows "\<exists>st1. DS_notifyEventToSubscriber env e p del st = delete_after env p del st1 \<and> same_subscribers st st1"
  using assms
  by (auto simp: DS_notifyEventToSubscriber_def same_subscribers_def Let_def split: AgpsEvent.split
      intro!: exI simp del: split_paired_Ex)

lemma DS_notify_keep:
  "deref p (fst st) = Some s \<Longrightarrow>
   \<exists>st1. DS_notifyEventToSubscriber env e p False st = Some st1 \<and> same_subscribers st st1"
  using DS_notify_spec[of p st s env e False] by (auto simp: delete_after_def simp del: split_paired_Ex)

interpretation ds: agps_vtable "DS_requestOrReleaseDataConn env" "DS_notifyEventToSubscriber env" "freed_intact env" False
  for env
proof (unfold_locales, goal_cases)
  case (1 b st)
  have d: "\<exists>st1. DS_notifyEventToSubscriber env AGPS_EVENT_DENIED (Local s) False st0 = Some st1 \<and>
      same_subscribers st st1" if "same_subscribers st st0" for st0 s
    using DS_notify_keep[of "Local s" st0 s env AGPS_EVENT_DENIED] that
    by (auto simp: deref_def same_subscribers_def simp del: split_paired_Ex)
  show ?case
  proof (cases "getFirstSubscriber False (fst st)")
    case None
    then show ?thesis
      by (auto simp: DS_requestOrReleaseDataConn_def same_subscribers_def simp del: split_paired_Ex)
  next
    case (Some s)
    let ?st1 = "((fst st)\<lparr>mRetries := mRetries (fst st) + 1\<rparr>, snd st @ [DSClientOpenAndStartDataCallFn])"
    have "same_subscribers st (emit DSClientStopDataCallFn st)"
        "same_subscribers st st" "same_subscribers st (emit DSClientOpenAndStartDataCallFn st)"
        "same_subscribers st ?st1" "same_subscribers st (emit (LocTimerStart DATA_CALL_RETRY_DELAY_MSEC) ?st1)"
      by (simp_all add: same_subscribers_def)
    with d[of st s] d[of "emit DSClientOpenAndStartDataCallFn st" s] d[of ?st1 s] show ?thesis
      by (auto simp: DS_requestOrReleaseDataConn_def Some Let_def simp del: split_paired_Ex)
  qed
next
  case (2 e s st)
  show ?case by (rule DS_notify_keep[of "Local s"]) (simp add: deref_def)
next
  case (3 h st e)
  then show ?case using deref_InList DS_notify_keep by blast
next
  case (4 h st e)
  then obtain s where "deref (InList h) (fst st) = Some s" using deref_InList by blast
  from DS_notify_spec[OF this, of env e True] obtain st1 where
      "DS_notifyEventToSubscriber env e (InList h) True st = delete_after env (InList h) True st1"
      "same_subscribers st st1" by blast
  with 4 delete_after_spec[of env h st1] show ?case
    by (simp add: same_subscribers_simps del: split_paired_Ex)
next
  case (5 st r st')
  then show ?case by simp
qed

section \<open>The manager keeps the invariant\<close>

definition mgr_ok :: "AgpsManager \<Rightarrow> bool" where
  "mgr_ok m \<longleftrightarrow> (\<forall>sm. mAgnssNif m = Some sm \<longrightarrow> sm_strict sm) \<and>
     (\<forall>sm. mInternetNif m = Some sm \<longrightarrow> sm_strict sm) \<and> (\<forall>sm. mDsNif m = Some sm \<longrightarrow> sm_ok sm)"

lemma new_ok: "sm_strict (AgpsStateMachine_new t)" "sm_ok DSStateMachine_new"
  by (simp_all add: sm_strict_def sm_ok_def handles_def AgpsStateMachine_new_def DSStateMachine_new_def
      AgpsStateMachine.defs)

lemma set_current_simps [simp]:
  "mSubscriberList (set_current c sm) = mSubscriberList sm" "mState (set_current c sm) = mState sm"
  "sm_ok (set_current c sm) = sm_ok sm" "sm_strict (set_current c sm) = sm_strict sm"
  "handles (set_current c sm) = handles sm"
  by (auto simp: set_current_def sm_ok_def sm_strict_def handles_def anyActiveSubscribers_def
      split: option.split AgpsState.split)

text \<open>The current subscriber that an event needs.\<close>

definition nif_handles :: "nif \<Rightarrow> AgpsManager \<Rightarrow> int list" where
  "nif_handles n m =
     (case n of
        AgnssNif \<Rightarrow> (case mAgnssNif m of None \<Rightarrow> [] | Some sm \<Rightarrow> handles sm)
      | InternetNif \<Rightarrow> (case mInternetNif m of None \<Rightarrow> [] | Some sm \<Rightarrow> handles sm)
      | DsNif \<Rightarrow> (case mDsNif m of None \<Rightarrow> [] | Some sm \<Rightarrow> handles sm))"

definition arg_ok :: "AgpsEvent \<Rightarrow> subscriber_ptr option \<Rightarrow> int list \<Rightarrow> bool" where
  "arg_ok event cur hs =
     (case event of
        AGPS_EVENT_SUBSCRIBE \<Rightarrow> (\<exists>s. cur = Some (Local s) \<and> \<not> mIsInactive s)
      | AGPS_EVENT_UNSUBSCRIBE \<Rightarrow> (\<exists>h. cur = Some (InList h) \<and> h \<in> set hs)
      | _ \<Rightarrow> True)"

lemma cur_ok_set_current: "arg_ok event cur (handles sm) \<Longrightarrow> cur_ok event (set_current cur sm)"
  by (auto simp: arg_ok_def cur_ok_def set_current_def handles_def split: AgpsEvent.splits)

lemma DS_event_ok:
  assumes "freed_intact env" "sm_ok (fst st)" "cur_ok event (fst st)"
  shows "\<exists>st'. DS_processAgpsEvent env event st = Some st' \<and> sm_ok (fst st')"
proof -
  let ?e = "if event = AGPS_EVENT_RELEASED \<and> mState (fst st) = AGPS_STATE_PENDING then AGPS_EVENT_DENIED else event"
  have "cur_ok ?e (fst st)" using assms(3) by (auto simp: cur_ok_def)
  with ds.event_ok[OF assms(1,2)] show ?thesis
    by (auto simp: DS_processAgpsEvent_def simp del: split_paired_Ex)
qed

lemma run_nif_ok:
  assumes "freed_intact env" "mgr_ok (fst st)" "nif_exists n (fst st)" "arg_ok event cur (nif_handles n (fst st))"
  shows "\<exists>st'. run_nif env n cur event st = Some st' \<and> mgr_ok (fst st')"
proof (cases n)
  case AgnssNif
  with assms obtain sm where sm: "mAgnssNif (fst st) = Some sm" "sm_strict sm" "arg_ok event cur (handles sm)"
    by (auto simp: nif_exists_def mgr_ok_def nif_handles_def)
  with agps.event_ok[OF assms(1), of "(set_current cur sm, snd st)" event] cur_ok_set_current[OF sm(3)]
  show ?thesis using assms(2) AgnssNif
    by (auto simp: run_nif_def Agps_processEvent_def mgr_ok_def sm_strict_def)
next
  case InternetNif
  with assms obtain sm where sm: "mInternetNif (fst st) = Some sm" "sm_strict sm" "arg_ok event cur (handles sm)"
    by (auto simp: nif_exists_def mgr_ok_def nif_handles_def)
  with agps.event_ok[OF assms(1), of "(set_current cur sm, snd st)" event] cur_ok_set_current[OF sm(3)]
  show ?thesis using assms(2) InternetNif
    by (auto simp: run_nif_def Agps_processEvent_def mgr_ok_def sm_strict_def)
next
  case DsNif
  with assms obtain sm where sm: "mDsNif (fst st) = Some sm" "sm_ok sm" "arg_ok event cur (handles sm)"
    by (auto simp: nif_exists_def mgr_ok_def nif_handles_def)
  with DS_event_ok[OF assms(1), of "(set_current cur sm, snd st)" event] cur_ok_set_current[OF sm(3)]
  show ?thesis using assms(2) DsNif by (auto simp: run_nif_def mgr_ok_def)
qed

lemma create_ok: "mgr_ok (fst st) \<Longrightarrow> mgr_ok (fst (createAgpsStateMachines env st))"
  by (auto simp: createAgpsStateMachines_def Let_def mgr_ok_def new_ok emit_mgr_def)

lemma getAgpsStateMachine_ok:
  "mgr_ok (fst st) \<Longrightarrow> mgr_ok (fst (fst (getAgpsStateMachine env t st))) \<and>
   (\<forall>n. snd (getAgpsStateMachine env t st) = Some n \<longrightarrow> nif_exists n (fst (fst (getAgpsStateMachine env t st))))"
  by (auto simp: getAgpsStateMachine_def Let_def create_ok)

lemma requestATL_ok:
  assumes "freed_intact env" "mgr_ok (fst st)"
  shows "\<exists>st'. requestATL env h t st = Some st' \<and> mgr_ok (fst st')"
proof -
  obtain st1 n where get: "getAgpsStateMachine env t st = (st1, n)" by (cases "getAgpsStateMachine env t st")
  with getAgpsStateMachine_ok[OF assms(2), of env t] have st1: "mgr_ok (fst st1)" "\<forall>k. n = Some k \<longrightarrow> nif_exists k (fst st1)"
    by auto
  show ?thesis
  proof (cases n)
    case None
    then show ?thesis using st1 by (auto simp: requestATL_def get emit_mgr_def)
  next
    case (Some k)
    with run_nif_ok[OF assms(1) st1(1)] st1(2) show ?thesis
      by (simp add: requestATL_def get arg_ok_def del: split_paired_Ex)
  qed
qed

lemma getSubscriber_Some: "getSubscriber h sm = Some p \<Longrightarrow> p = InList h \<and> h \<in> set (handles sm)"
  by (auto simp: getSubscriber_def handles_def dest: find_Some_mem split: option.splits)

lemma releaseATL_ok:
  assumes "freed_intact env" "mgr_ok (fst st)"
  shows "\<exists>st'. releaseATL env h st = Some st' \<and> mgr_ok (fst st')"
proof -
  have run: "\<exists>st'. run_nif env n (Some p) AGPS_EVENT_UNSUBSCRIBE st = Some st' \<and> mgr_ok (fst st')"
    if "nif_exists n (fst st)" "p = InList h" "h \<in> set (nif_handles n (fst st))" for n p
    using run_nif_ok[OF assms that(1), of AGPS_EVENT_UNSUBSCRIBE "Some p"] that(2,3)
    by (simp add: arg_ok_def del: split_paired_Ex)
  show ?thesis
    using run[of AgnssNif] run[of InternetNif] run[of DsNif] assms(2)
    by (auto simp: releaseATL_def Let_def nif_exists_def nif_handles_def emit_mgr_def
        dest!: getSubscriber_Some split: option.split simp del: split_paired_Ex)
qed

lemma set_conn_ok: "set_conn b a l sm = Some sm' \<Longrightarrow> sm_strict sm' = sm_strict sm \<and> sm_ok sm' = sm_ok sm"
  by (auto simp: set_conn_def setAPN_def Let_def sm_strict_def sm_ok_def handles_def anyActiveSubscribers_def
      split: if_splits option.splits AgpsState.split)

text \<open>The events that reach the manager, and runs of them.\<close>

datatype agps_event =
  CreateMachines | RequestATL int int | ReleaseATL int | DataCallOpened | DataCallClosed
| AtlOpenSuccess int "string option" u32 int | AtlOpenFailed int | AtlClosed int | RetryTimer | ModemSSR

fun agps_exec :: "agps_env \<Rightarrow> agps_event \<Rightarrow> mgr_st \<Rightarrow> mgr_st option" where
  "agps_exec env CreateMachines st = Some (createAgpsStateMachines env st)"
| "agps_exec env (RequestATL h t) st = requestATL env h t st"
| "agps_exec env (ReleaseATL h) st = releaseATL env h st"
| "agps_exec env DataCallOpened st = reportDataCallOpened env st"
| "agps_exec env DataCallClosed st = reportDataCallClosed env st"
| "agps_exec env (AtlOpenSuccess t a l b) st = reportAtlOpenSuccess env t a l b st"
| "agps_exec env (AtlOpenFailed t) st = reportAtlOpenFailed env t st"
| "agps_exec env (AtlClosed t) st = reportAtlClosed env t st"
| "agps_exec env RetryTimer st =
     (case mDsNif (fst st) of None \<Rightarrow> Some st | Some sm \<Rightarrow> Some (fst st, snd (retryCallback (sm, snd st))))"
| "agps_exec env ModemSSR st = handleModemSSR env st"

fun agps_run :: "agps_env \<Rightarrow> agps_event list \<Rightarrow> mgr_st \<Rightarrow> mgr_st option" where
  "agps_run env [] st = Some st"
| "agps_run env (e # es) st = do { st \<leftarrow> agps_exec env e st; agps_run env es st }"

lemma run_nif_Some_ok:
  "freed_intact env \<Longrightarrow> mgr_ok (fst st) \<Longrightarrow> run_nif env n None e st = Some st' \<Longrightarrow>
   e \<noteq> AGPS_EVENT_SUBSCRIBE \<Longrightarrow> e \<noteq> AGPS_EVENT_UNSUBSCRIBE \<Longrightarrow> mgr_ok (fst st')"
proof -
  assume a: "freed_intact env" "mgr_ok (fst st)" "run_nif env n None e st = Some st'"
    "e \<noteq> AGPS_EVENT_SUBSCRIBE" "e \<noteq> AGPS_EVENT_UNSUBSCRIBE"
  have "nif_exists n (fst st)"
    using a(3) by (auto simp: run_nif_def nif_exists_def bind_eq_Some_conv split: nif.splits)
  with run_nif_ok[OF a(1,2), of n e None] a(3-5) show "mgr_ok (fst st')"
    by (auto simp: arg_ok_def split: AgpsEvent.splits)
qed

lemma mgr_ok_upd:
  "mgr_ok m \<Longrightarrow> mAgnssNif m = Some sm \<Longrightarrow> set_conn b a l sm = Some sm' \<Longrightarrow> mgr_ok (m\<lparr>mAgnssNif := Some sm'\<rparr>)"
  "mgr_ok m \<Longrightarrow> mInternetNif m = Some sm \<Longrightarrow> set_conn b a l sm = Some sm' \<Longrightarrow> mgr_ok (m\<lparr>mInternetNif := Some sm'\<rparr>)"
  "mgr_ok m \<Longrightarrow> mDsNif m = Some ds \<Longrightarrow> set_conn b a l ds = Some ds' \<Longrightarrow> mgr_ok (m\<lparr>mDsNif := Some ds'\<rparr>)"
  by (auto simp: mgr_ok_def dest!: set_conn_ok)

lemma reportAtlOpenSuccess_ok:
  assumes "freed_intact env" "mgr_ok (fst st)" "reportAtlOpenSuccess env t a l b st = Some st'"
  shows "mgr_ok (fst st')"
proof -
  obtain st1 n where get: "getAgpsStateMachine env t st = (st1, n)" by (cases "getAgpsStateMachine env t st")
  with getAgpsStateMachine_ok[OF assms(2), of env t] have st1: "mgr_ok (fst st1)" by auto
  show ?thesis
  proof (cases n)
    case (Some k)
    with assms(3) st1 have "\<exists>st2. mgr_ok (fst st2) \<and> run_nif env k None AGPS_EVENT_GRANTED st2 = Some st'"
      by (cases k) (auto simp: reportAtlOpenSuccess_def get bind_eq_Some_conv
          dest: mgr_ok_upd)
    then show ?thesis using run_nif_Some_ok[OF assms(1)] by blast
  qed (use assms(3) in \<open>simp add: reportAtlOpenSuccess_def get\<close>)
qed

lemma agps_exec_ok:
  assumes "freed_intact env" "mgr_ok (fst st)" "agps_exec env e st = Some st'" "e \<noteq> ModemSSR"
  shows "mgr_ok (fst st')"
proof -
  have get: "mgr_ok (fst st1)" if "getAgpsStateMachine env t st = (st1, n)" for t st1 n
    using getAgpsStateMachine_ok[OF assms(2), of env t] that by auto
  show ?thesis
  proof (cases e)
    case (RequestATL h t)
    then show ?thesis using requestATL_ok[OF assms(1,2), of h t] assms(3) by auto
  next
    case (ReleaseATL h)
    then show ?thesis using releaseATL_ok[OF assms(1,2), of h] assms(3) by auto
  next
    case (AtlOpenSuccess t a l b)
    then show ?thesis using reportAtlOpenSuccess_ok[OF assms(1,2)] assms(3) by simp
  next
    case (AtlOpenFailed t)
    obtain st1 n where g: "getAgpsStateMachine env t st = (st1, n)" by (cases "getAgpsStateMachine env t st")
    with get[OF g] AtlOpenFailed assms(1,3) show ?thesis
      by (auto simp: reportAtlOpenFailed_def split: option.splits intro: run_nif_Some_ok[of env st1])
  next
    case (AtlClosed t)
    obtain st1 n where g: "getAgpsStateMachine env t st = (st1, n)" by (cases "getAgpsStateMachine env t st")
    with get[OF g] AtlClosed assms(1,3) show ?thesis
      by (auto simp: reportAtlClosed_def split: option.splits intro: run_nif_Some_ok[of env st1])
  qed (use assms get in \<open>auto simp: reportDataCallOpened_def reportDataCallClosed_def
      create_ok split: if_splits option.splits prod.splits intro: run_nif_Some_ok\<close>)
qed

lemma agps_run_ok:
  "freed_intact env \<Longrightarrow> mgr_ok (fst st) \<Longrightarrow> ModemSSR \<notin> set es \<Longrightarrow> agps_run env es st = Some st' \<Longrightarrow> mgr_ok (fst st')"
proof (induction es arbitrary: st)
  case (Cons e es)
  then obtain st1 where "agps_exec env e st = Some st1" "agps_run env es st1 = Some st'"
    by (auto simp: bind_eq_Some_conv)
  moreover from this Cons.prems have "mgr_ok (fst st1)" by (intro agps_exec_ok[of env st e st1]) auto
  ultimately show ?case using Cons.IH[of st1] Cons.prems by simp
qed simp

section \<open>What the notifications say\<close>

definition open_calls :: "int \<Rightarrow> 'z AgpsStateMachine_scheme \<Rightarrow> AgpsSubscriber list \<Rightarrow> agps_call list" where
  "open_calls ok sm ss = map (\<lambda>s. AtlOpenStatusCb (mConnHandle s) ok (mAPN sm) (mBearer sm) (mAgpsType sm)) ss"

definition close_calls :: "AgpsSubscriber list \<Rightarrow> agps_call list" where
  "close_calls ss = map (\<lambda>s. AtlCloseStatusCb (mConnHandle s) 1) ss"

lemma notify_loop_calls:
  assumes "\<And>s st. ntf e (Local s) False st = Some (fst st, snd st @ c (fst st) s)"
    and "\<And>sm l s. c (sm\<lparr>mSubscriberList := l\<rparr>) s = c sm s"
  shows "mSubscriberList (fst st) = kept @ rest \<Longrightarrow>
    notify_loop ntf e d typ kept rest st =
      Some ((fst st)\<lparr>mSubscriberList := kept @ (if d then filter (\<lambda>s. \<not> selected typ s) rest else rest)\<rparr>,
            snd st @ concat (map (c (fst st)) (filter (selected typ) rest)))"
proof (induction rest arbitrary: kept st)
  case Nil
  then show ?case by (cases st) simp
next
  case (Cons s rest)
  have c: "c (fst st\<lparr>mSubscriberList := l\<rparr>) = c (fst st)" for l using assms(2) by (simp add: fun_eq_iff)
  show ?case
  proof (cases "selected typ s \<and> d")
    case True
    then show ?thesis
      using Cons.prems Cons.IH[of "((fst st)\<lparr>mSubscriberList := kept @ rest\<rparr>, snd st @ c (fst st) s)" kept]
      by (simp add: assms(1) c)
  next
    case False
    then show ?thesis
      using Cons.prems Cons.IH[of "(fst st, snd st @ c (fst st) s)" "kept @ [s]"] Cons.IH[of st "kept @ [s]"]
      by (auto simp: assms(1))
  qed
qed

lemma notify_base:
  "notifyEventToSubscriber env AGPS_EVENT_GRANTED (Local s) False st =
     Some (fst st, snd st @ [AtlOpenStatusCb (mConnHandle s) 1 (mAPN (fst st)) (mBearer (fst st)) (mAgpsType (fst st))])"
  "notifyEventToSubscriber env AGPS_EVENT_DENIED (Local s) False st =
     Some (fst st, snd st @ [AtlOpenStatusCb (mConnHandle s) 0 (mAPN (fst st)) (mBearer (fst st)) (mAgpsType (fst st))])"
  "notifyEventToSubscriber env AGPS_EVENT_RELEASED (Local s) False st =
     Some (fst st, snd st @ [AtlCloseStatusCb (mConnHandle s) 1])"
  by (simp_all add: notifyEventToSubscriber_def deref_def delete_after_def emit_def Let_def)

lemma notifyAll_calls:
  assumes "\<And>s st. ntf e (Local s) False st = Some (fst st, snd st @ c (fst st) s)"
    and "\<And>sm l s. c (sm\<lparr>mSubscriberList := l\<rparr>) s = c sm s"
  shows "notifyAllSubscribers ntf e d typ st =
     Some ((fst st)\<lparr>mSubscriberList := if d then filter (\<lambda>s. \<not> selected typ s) (mSubscriberList (fst st)) else mSubscriberList (fst st)\<rparr>,
           snd st @ concat (map (c (fst st)) (filter (selected typ) (mSubscriberList (fst st)))))"
  unfolding notifyAllSubscribers_def
  by (rule notify_loop_calls[where c = c and kept = "[]", simplified]) (simp_all add: assms)

lemma notifyAll_base:
  fixes st :: "'z agps_st"
  shows "notifyAllSubscribers (notifyEventToSubscriber env) AGPS_EVENT_GRANTED d typ st =
     Some ((fst st)\<lparr>mSubscriberList := if d then filter (\<lambda>s. \<not> selected typ s) (mSubscriberList (fst st)) else mSubscriberList (fst st)\<rparr>,
           snd st @ open_calls 1 (fst st) (filter (selected typ) (mSubscriberList (fst st))))"
    and "notifyAllSubscribers (notifyEventToSubscriber env) AGPS_EVENT_DENIED d typ st =
     Some ((fst st)\<lparr>mSubscriberList := if d then filter (\<lambda>s. \<not> selected typ s) (mSubscriberList (fst st)) else mSubscriberList (fst st)\<rparr>,
           snd st @ open_calls 0 (fst st) (filter (selected typ) (mSubscriberList (fst st))))"
    and "notifyAllSubscribers (notifyEventToSubscriber env) AGPS_EVENT_RELEASED d typ st =
     Some ((fst st)\<lparr>mSubscriberList := if d then filter (\<lambda>s. \<not> selected typ s) (mSubscriberList (fst st)) else mSubscriberList (fst st)\<rparr>,
           snd st @ close_calls (filter (selected typ) (mSubscriberList (fst st))))"
  using notifyAll_calls[of "notifyEventToSubscriber env" AGPS_EVENT_GRANTED
      "\<lambda>sm s. [AtlOpenStatusCb (mConnHandle s) 1 (mAPN sm) (mBearer sm) (mAgpsType sm)]" d "typ" st]
    notifyAll_calls[of "notifyEventToSubscriber env" AGPS_EVENT_DENIED
      "\<lambda>sm s. [AtlOpenStatusCb (mConnHandle s) 0 (mAPN sm) (mBearer sm) (mAgpsType sm)]" d "typ" st]
    notifyAll_calls[of "notifyEventToSubscriber env" AGPS_EVENT_RELEASED
      "\<lambda>sm s. [AtlCloseStatusCb (mConnHandle s) 1]" d "typ" st]
  by (simp_all add: notify_base open_calls_def close_calls_def)

section \<open>Requests and releases of the connection\<close>

text \<open>The last request or release that a machine of type \<open>t\<close> sent to the framework.\<close>

definition conn_status :: "int \<Rightarrow> agps_call list \<Rightarrow> int list" where
  "conn_status t calls = concat (map (\<lambda>c. case c of FrameworkStatusV4Cb t' s \<Rightarrow> if t' = t then [s] else [] | _ \<Rightarrow> []) calls)"

definition conn_ok :: "'z agps_st \<Rightarrow> bool" where
  "conn_ok st \<longleftrightarrow>
     (let ss = conn_status (mAgpsType (fst st)) (snd st) in
        (mState (fst st) = AGPS_STATE_PENDING \<or> mState (fst st) = AGPS_STATE_ACQUIRED \<longrightarrow>
           ss \<noteq> [] \<and> last ss = LOC_GPS_REQUEST_AGPS_DATA_CONN) \<and>
        (mState (fst st) = AGPS_STATE_RELEASING \<longrightarrow>
           ss \<noteq> [] \<and> last ss = LOC_GPS_RELEASE_AGPS_DATA_CONN))"

lemma conn_status_append [simp]: "conn_status t (xs @ ys) = conn_status t xs @ conn_status t ys"
  by (simp add: conn_status_def)

lemma conn_status_simps [simp]:
  "conn_status t [] = []" "conn_status t [FrameworkStatusV4Cb t s] = [s]"
  "conn_status t (AtlOpenStatusCb h k a b c # xs) = conn_status t xs"
  "conn_status t (AtlCloseStatusCb h k # xs) = conn_status t xs"
  "conn_status t (open_calls k sm ss) = []" "conn_status t (close_calls ss) = []"
  by (simp_all add: conn_status_def open_calls_def close_calls_def)

lemma delete_after_simps:
  "delete_after env p d st = Some st' \<Longrightarrow>
   snd st' = snd st \<and> mState (fst st') = mState (fst st) \<and> mAgpsType (fst st') = mAgpsType (fst st)"
  by (auto simp: delete_after_def deleteSubscriber_def bind_eq_Some_conv split: if_splits)

lemma conn_ok_notify:
  assumes "notifyEventToSubscriber env e p d st = Some st'"
  shows "conn_status t (snd st') = conn_status t (snd st) \<and> mState (fst st') = mState (fst st) \<and>
    mAgpsType (fst st') = mAgpsType (fst st)"
  using assms
  by (cases e; cases "deref p (fst st)")
    (simp_all add: notifyEventToSubscriber_def Let_def, (drule delete_after_simps, simp)+)

lemma add_current_simps:
  "add_current st = Some st' \<Longrightarrow> snd st' = snd st \<and> mState (fst st') = mState (fst st) \<and>
     mAgpsType (fst st') = mAgpsType (fst st)"
  by (auto simp: add_current_def bind_eq_Some_conv addSubscriber_def)

lemma leave_current_simps:
  "leave_current (notifyEventToSubscriber env) st = Some st' \<Longrightarrow>
   conn_status t (snd st') = conn_status t (snd st) \<and> mState (fst st') = mState (fst st) \<and>
   mAgpsType (fst st') = mAgpsType (fst st)"
  by (auto simp: leave_current_def bind_eq_Some_conv set_inactive_def conn_ok_notify
      split: if_splits subscriber_ptr.splits)

lemma conn_ok_transition [simp]: "mAgpsType (fst (transitionState q st)) = mAgpsType (fst st)"
  by (simp add: transitionState_def)

lemma conn_ok_event:
  assumes "conn_ok st" "Agps_processEvent env e st = Some st'"
  shows "conn_ok st'"
proof (cases e)
  case AGPS_EVENT_SUBSCRIBE
  with assms show ?thesis
    by (auto simp: Agps_processEvent_def processAgpsEvent_def processAgpsEventSubscribe_def bind_eq_Some_conv
        requestOrReleaseDataConn_def conn_ok_def Let_def dest!: add_current_simps
        dest: conn_ok_notify[where t = "mAgpsType (fst st)"] split: AgpsState.splits)
next
  case AGPS_EVENT_UNSUBSCRIBE
  with assms show ?thesis
    by (auto simp: Agps_processEvent_def processAgpsEvent_def processAgpsEventUnsubscribe_def bind_eq_Some_conv
        requestOrReleaseDataConn_def conn_ok_def Let_def
        dest!: leave_current_simps[where t = "mAgpsType (fst st)"]
        dest: conn_ok_notify[where t = "mAgpsType (fst st)"] split: if_splits)
next
  case AGPS_EVENT_GRANTED
  with assms show ?thesis
    by (auto simp: Agps_processEvent_def processAgpsEvent_def processAgpsEventGranted_def notifyAll_base
        conn_ok_def Let_def split: if_splits)
next
  case AGPS_EVENT_RELEASED
  with assms show ?thesis
    by (auto simp: Agps_processEvent_def processAgpsEvent_def processAgpsEventReleased_def notifyAll_base
        release_done_def requestOrReleaseDataConn_def conn_ok_def Let_def split: if_splits AgpsState.splits)
next
  case AGPS_EVENT_DENIED
  with assms show ?thesis
    by (auto simp: Agps_processEvent_def processAgpsEvent_def processAgpsEventDenied_def notifyAll_base
        release_done_def requestOrReleaseDataConn_def conn_ok_def Let_def split: if_splits AgpsState.splits)
next
  case AGPS_EVENT_INVALID
  with assms show ?thesis by (simp add: Agps_processEvent_def processAgpsEvent_def)
qed

section \<open>Properties of the connection manager\<close>

definition demo_env :: agps_env where
  "demo_env = \<lparr>answer = (\<lambda>_ _. 0), dsInitRegistered = True, dsOpenRegistered = True, dsStopRegistered = True,
     capabilities = 2, useEmergencyPdn = True, freedHandle = (\<lambda>h. h)\<rparr>"

definition demo_events :: "agps_event list" where
  "demo_events = [RequestATL 11 5, RequestATL 1 1, RequestATL 2 1, AtlOpenSuccess 1 (Some ''apn'') 3 1,
     DataCallOpened, ReleaseATL 1, ReleaseATL 11]"

lemma new_mgr_ok: "mgr_ok (fst (AgpsManager_new, []))"
  by (simp add: mgr_ok_def AgpsManager_new_def)



fun machine_run ::
  "agps_env \<Rightarrow> (subscriber_ptr option \<times> AgpsEvent) list \<Rightarrow> 'z agps_st \<Rightarrow> 'z agps_st option" where
  "machine_run env [] st = Some st"
| "machine_run env ((cur, e) # es) st =
     do { st \<leftarrow> Agps_processEvent env e (set_current cur (fst st), snd st); machine_run env es st }"

lemma machine_run_conn_ok:
  "conn_ok st \<Longrightarrow> machine_run env es st = Some st' \<Longrightarrow> conn_ok st'"
proof (induction env es st rule: machine_run.induct)
  case (2 env cur e es st)
  then obtain st1 where st1: "Agps_processEvent env e (set_current cur (fst st), snd st) = Some st1"
      "machine_run env es st1 = Some st'"
    by (auto simp: bind_eq_Some_conv)
  have "conn_ok (set_current cur (fst st), snd st)"
    using "2.prems"(1) by (cases cur) (simp_all add: conn_ok_def set_current_def)
  from conn_ok_event[OF this st1(1)] have "conn_ok st1" .
  from "2.IH"[OF st1(1) this st1(2)] show ?case .
qed simp

text \<open>
  C8: A machine of the framework never holds or waits for a connection it did not ask for, and
  never waits for a release it did not send: in every run of events the last message sent to the
  framework is a request while the machine is pending or has acquired, a release while it is
  releasing.
\<close>

theorem agps_connection_protocol:
  assumes "machine_run env es (AgpsStateMachine_new t, []) = Some st"
  shows "conn_ok st"
proof (rule machine_run_conn_ok[OF _ assms])
  show "conn_ok (AgpsStateMachine_new t, [])" by (simp add: conn_ok_def AgpsStateMachine_new_def)
qed

definition demo_machine_events :: "(subscriber_ptr option \<times> AgpsEvent) list" where
  "demo_machine_events =
     [(Some (Local \<lparr>mConnHandle = 1, mWaitForCloseComplete = True, mIsInactive = False\<rparr>), AGPS_EVENT_SUBSCRIBE),
      (None, AGPS_EVENT_GRANTED), (Some (InList 1), AGPS_EVENT_UNSUBSCRIBE)]"

theorem agps_connection_protocol_witness:
  "\<exists>st. machine_run demo_env demo_machine_events (AgpsStateMachine_new 1, []) = Some st \<and>
     mState (fst st) = AGPS_STATE_RELEASING \<and> conn_ok st"
proof -
  have "(case machine_run demo_env demo_machine_events (AgpsStateMachine_new 1, []) of
      None \<Rightarrow> False | Some st \<Rightarrow> mState (fst st) = AGPS_STATE_RELEASING)" by code_simp
  then obtain st where st: "machine_run demo_env demo_machine_events (AgpsStateMachine_new 1, []) = Some st"
      "mState (fst st) = AGPS_STATE_RELEASING" by (auto split: option.splits)
  from agps_connection_protocol[OF st(1)] st show ?thesis by blast
qed

text \<open>
  What the subscribers of a pending machine are told. When the connection is granted, each
  active subscriber, in the order of the list, gets exactly one open notification with success
  and the connection's name and bearer, and all stay subscribed; when it is denied, each gets
  exactly one with failure, and none stays.
\<close>

theorem agps_pending_outcome:
  assumes "mState sm = AGPS_STATE_PENDING"
  shows "Agps_processEvent env AGPS_EVENT_GRANTED (sm, calls) =
      Some (sm\<lparr>mState := AGPS_STATE_ACQUIRED\<rparr>,
        calls @ open_calls 1 sm (filter (\<lambda>s. \<not> mIsInactive s) (mSubscriberList sm))) \<and>
    Agps_processEvent env AGPS_EVENT_DENIED (sm, calls) =
      Some (sm\<lparr>mState := AGPS_STATE_RELEASED, mSubscriberList := []\<rparr>, calls @ open_calls 0 sm (mSubscriberList sm))"
  using assms
  by (simp add: Agps_processEvent_def processAgpsEvent_def processAgpsEventGranted_def processAgpsEventDenied_def
      notifyAll_base transitionState_def selected_def[abs_def] open_calls_def)

theorem agps_pending_outcome_witness:
  "Agps_processEvent demo_env AGPS_EVENT_DENIED
     ((AgpsStateMachine_new 1)\<lparr>mState := AGPS_STATE_PENDING, mSubscriberList :=
        [\<lparr>mConnHandle = 4, mWaitForCloseComplete = False, mIsInactive = False\<rparr>]\<rparr>, []) =
   Some (AgpsStateMachine_new 1, [AtlOpenStatusCb 4 0 None 0 1])"
  using agps_pending_outcome[of "(AgpsStateMachine_new 1)\<lparr>mState := AGPS_STATE_PENDING, mSubscriberList :=
        [\<lparr>mConnHandle = 4, mWaitForCloseComplete = False, mIsInactive = False\<rparr>]\<rparr>" demo_env "[]"]
  by (simp add: AgpsStateMachine_new_def open_calls_def)

text \<open>
  \<open>releaseATL\<close> can remove another subscriber: the loop that deletes the released subscriber
  goes on comparing with it after deleting it. If that memory then reads as the handle of a later
  subscriber, that one is removed too, and is not told.
\<close>

theorem agps_release_use_after_free:
  "\<exists>env st st'. agps_run env [CreateMachines, RequestATL 1 1, RequestATL 2 1, RequestATL 3 1, AtlOpenSuccess 1 None 0 1]
       (AgpsManager_new, []) = Some st \<and>
     releaseATL env 1 st = Some st' \<and>
     3 \<in> set (nif_handles AgnssNif (fst st)) \<and> nif_handles AgnssNif (fst st') = [2] \<and>
     snd st' = snd st @ [AtlCloseStatusCb 1 1]"
proof -
  let ?env = "demo_env\<lparr>freedHandle := \<lambda>_. 3\<rparr>"
  have "(case agps_run ?env [CreateMachines, RequestATL 1 1, RequestATL 2 1, RequestATL 3 1, AtlOpenSuccess 1 None 0 1] (AgpsManager_new, []) of
      None \<Rightarrow> False | Some st \<Rightarrow> (case releaseATL ?env 1 st of None \<Rightarrow> False
        | Some st' \<Rightarrow> 3 \<in> set (nif_handles AgnssNif (fst st)) \<and> nif_handles AgnssNif (fst st') = [2] \<and>
            snd st' = snd st @ [AtlCloseStatusCb 1 1]))"
    by code_simp
  then obtain st st' where
      "agps_run ?env [CreateMachines, RequestATL 1 1, RequestATL 2 1, RequestATL 3 1, AtlOpenSuccess 1 None 0 1]
         (AgpsManager_new, []) = Some st"
      "releaseATL ?env 1 st = Some st'" "3 \<in> set (nif_handles AgnssNif (fst st))"
      "nif_handles AgnssNif (fst st') = [2]" "snd st' = snd st @ [AtlCloseStatusCb 1 1]"
    by (auto split: option.splits simp del: agps_run.simps split_paired_All split_paired_Ex)
  then show ?thesis by blast
qed

text \<open>
  After a modem restart the state of a machine is stale: \<open>handleModemSSR\<close> drops the
  subscribers of an acquired machine but leaves its state, so that the next request is answered
  with success at once, without a connection being requested.
\<close>

theorem agps_ssr_stale_state:
  assumes "mAgnssNif (fst st) = Some sm" "mState sm = AGPS_STATE_ACQUIRED" "handleModemSSR env st = Some st1"
  shows "\<exists>st2. requestATL env h LOC_AGPS_TYPE_SUPL st1 = Some st2 \<and>
    snd st2 = snd st1 @ [AtlOpenStatusCb h 1 (mAPN sm) (mBearer sm) (mAgpsType sm)]"
proof -
  have st1: "mAgnssNif (fst st1) = Some (dropAllSubscribers sm)"
    using assms(1,3) by (auto simp: handleModemSSR_def Let_def split: if_splits)
  then show ?thesis
    using assms(2)
    by (simp add: requestATL_def getAgpsStateMachine_def nif_exists_def Let_def run_nif_def
        Agps_processEvent_def processAgpsEvent_def processAgpsEventSubscribe_def set_current_def
        dropAllSubscribers_def notify_base add_current_def deref_def)
qed

theorem agps_ssr_stale_state_witness:
  "\<exists>st st1 st2. agps_run demo_env [CreateMachines, RequestATL 1 1, AtlOpenSuccess 1 None 0 1] (AgpsManager_new, []) = Some st \<and>
     handleModemSSR demo_env st = Some st1 \<and> requestATL demo_env 2 1 st1 = Some st2 \<and>
     (\<exists>a b. snd st2 = snd st1 @ [AtlOpenStatusCb 2 1 a b 1])"
proof -
  have "(case agps_run demo_env [CreateMachines, RequestATL 1 1, AtlOpenSuccess 1 None 0 1] (AgpsManager_new, []) of
      None \<Rightarrow> False | Some st \<Rightarrow> (case mAgnssNif (fst st) of None \<Rightarrow> False
        | Some sm \<Rightarrow> mState sm = AGPS_STATE_ACQUIRED \<and> mAgpsType sm = 1 \<and> handleModemSSR demo_env st \<noteq> None))"
    by code_simp
  then obtain st sm st1 where "agps_run demo_env [CreateMachines, RequestATL 1 1, AtlOpenSuccess 1 None 0 1] (AgpsManager_new, []) = Some st"
      "mAgnssNif (fst st) = Some sm" "mState sm = AGPS_STATE_ACQUIRED" "mAgpsType sm = 1"
      "handleModemSSR demo_env st = Some st1"
    by (auto split: option.splits)
  then show ?thesis using agps_ssr_stale_state[of st sm demo_env st1 2] by fastforce
qed

text \<open>
  A report for a machine that was not created crashes: the three reports of the framework
  follow the pointer that \<open>getAgpsStateMachine\<close> returns without a check, where \<open>requestATL\<close>
  checks it and answers with a failure.
\<close>

theorem agps_report_without_machine:
  assumes "mAgnssNif (fst st) = None"
  shows "reportAtlOpenSuccess env LOC_AGPS_TYPE_SUPL apn len bearer st = None \<and>
    reportAtlOpenFailed env LOC_AGPS_TYPE_SUPL st = None \<and> reportAtlClosed env LOC_AGPS_TYPE_SUPL st = None \<and>
    requestATL env h LOC_AGPS_TYPE_SUPL st =
      Some (fst st, snd st @ [AtlOpenStatusCb h 0 None AGPS_APN_BEARER_INVALID LOC_AGPS_TYPE_SUPL])"
  using assms
  by (simp add: reportAtlOpenSuccess_def reportAtlOpenFailed_def reportAtlClosed_def requestATL_def
      getAgpsStateMachine_def nif_exists_def Let_def emit_mgr_def)

theorem agps_report_without_machine_witness:
  "reportAtlClosed demo_env 1 (AgpsManager_new, []) = None"
  using agps_report_without_machine[of "(AgpsManager_new, [])" demo_env]
  by (simp add: AgpsManager_new_def)

text \<open>A machine of the data service that is releasing, with a subscriber that asked since.\<close>

definition demo_ds :: DSStateMachine where
  "demo_ds = DSStateMachine_new\<lparr>mState := AGPS_STATE_RELEASING, mSubscriberList :=
     [\<lparr>mConnHandle = 1, mWaitForCloseComplete = True, mIsInactive = True\<rparr>,
      \<lparr>mConnHandle = 2, mWaitForCloseComplete = True, mIsInactive = False\<rparr>]\<rparr>"

definition busy_env :: agps_env where
  "busy_env = demo_env\<lparr>answer := \<lambda>_ c. if c = DSClientOpenAndStartDataCallFn then 6 else 1\<rparr>"

definition ds_close_calls :: "AgpsSubscriber list \<Rightarrow> agps_call list" where
  "ds_close_calls ss = concat (map (\<lambda>s. [DSClientCloseDataCallFn, AtlCloseStatusCb (mConnHandle s) 1]) ss)"

lemma DS_notify_released:
  "notifyAllSubscribers (DS_notifyEventToSubscriber env) AGPS_EVENT_RELEASED True
     AGPS_NOTIFICATION_TYPE_FOR_INACTIVE_SUBSCRIBERS st =
   Some ((fst st)\<lparr>mSubscriberList := filter (\<lambda>s. \<not> mIsInactive s) (mSubscriberList (fst st))\<rparr>,
     snd st @ ds_close_calls (filter mIsInactive (mSubscriberList (fst st))))"
  using notifyAll_calls[of "DS_notifyEventToSubscriber env" AGPS_EVENT_RELEASED
      "\<lambda>_ s. [DSClientCloseDataCallFn, AtlCloseStatusCb (mConnHandle s) 1]" True
      AGPS_NOTIFICATION_TYPE_FOR_INACTIVE_SUBSCRIBERS st]
  by (simp add: DS_notifyEventToSubscriber_def deref_def delete_after_def emit_def ds_close_calls_def
      selected_def[abs_def])

lemma find_filter: "find P (filter P xs) = find P xs"
  by (induction xs) auto

text \<open>
  The data service machine can hang: when the close of the old call finds a new active
  subscriber, the machine goes to pending and starts a call without looking at the result. If the
  engine is busy, it is pending without a call; the retry timer then asks for the subscriber's
  connection again, which a pending machine answers by doing nothing.
\<close>

theorem ds_pending_without_call:
  fixes sm :: DSStateMachine
  assumes "mState sm = AGPS_STATE_RELEASING" "find (\<lambda>s. \<not> mIsInactive s) (mSubscriberList sm) = Some s"
    and "dsOpenRegistered env" "mRetries sm < 4"
    and "\<forall>calls. answer env calls DSClientOpenAndStartDataCallFn = LOC_API_ADAPTER_ERR_ENGINE_BUSY"
  shows "\<exists>sm'. DS_processAgpsEvent env AGPS_EVENT_RELEASED (sm, calls) =
        Some (sm', calls @ ds_close_calls (filter mIsInactive (mSubscriberList sm)) @
          [DSClientOpenAndStartDataCallFn, LocTimerStart DATA_CALL_RETRY_DELAY_MSEC]) \<and>
      mState sm' = AGPS_STATE_PENDING \<and>
      snd (retryCallback (sm', calls')) = calls' @ [SendMsgRequestATL (mConnHandle s) LOC_AGPS_TYPE_SUPL_ES] \<and>
      (\<exists>sm''. DS_processAgpsEvent env AGPS_EVENT_SUBSCRIBE
         (set_current (Some (Local \<lparr>mConnHandle = mConnHandle s, mWaitForCloseComplete = True, mIsInactive = False\<rparr>)) sm', calls'') =
         Some (sm'', calls'') \<and> mState sm'' = AGPS_STATE_PENDING)"
proof -
  let ?act = "filter (\<lambda>s. \<not> mIsInactive s) (mSubscriberList sm)"
  let ?sm' = "sm\<lparr>mSubscriberList := ?act, mState := AGPS_STATE_PENDING, mRetries := mRetries sm + 1\<rparr>"
  have first: "find (\<lambda>s. \<not> mIsInactive s) ?act = Some s"
    by (simp only: find_filter assms(2))
  then have active: "\<exists>t \<in> set ?act. \<not> mIsInactive t" using find_Some_mem[OF first] by blast
  have run: "DS_processAgpsEvent env AGPS_EVENT_RELEASED (sm, calls) =
      Some (?sm', calls @ ds_close_calls (filter mIsInactive (mSubscriberList sm)) @
          [DSClientOpenAndStartDataCallFn, LocTimerStart DATA_CALL_RETRY_DELAY_MSEC])"
    using assms(1,3,4,5) first active
    by (simp add: DS_processAgpsEvent_def processAgpsEvent_def processAgpsEventReleased_def release_done_def
        DS_notify_released anyActiveSubscribers_def DS_requestOrReleaseDataConn_def getFirstSubscriber_def
        transitionState_def emit_def Let_def MAX_START_DATA_CALL_RETRIES_def)
  have retry: "snd (retryCallback (?sm', calls')) = calls' @ [SendMsgRequestATL (mConnHandle s) LOC_AGPS_TYPE_SUPL_ES]"
    using first by (simp add: retryCallback_def getFirstSubscriber_def emit_def)
  have again: "DS_processAgpsEvent env AGPS_EVENT_SUBSCRIBE
         (set_current (Some (Local \<lparr>mConnHandle = mConnHandle s, mWaitForCloseComplete = True, mIsInactive = False\<rparr>)) ?sm', calls'') =
      Some (set_current (Some (Local \<lparr>mConnHandle = mConnHandle s, mWaitForCloseComplete = True, mIsInactive = False\<rparr>)) ?sm', calls'')"
    using find_Some_mem[OF first]
    by (auto simp: DS_processAgpsEvent_def processAgpsEvent_def processAgpsEventSubscribe_def set_current_def
        add_current_def deref_def addSubscriber_def subscriber_equals_def)
  show ?thesis
    by (rule exI[of _ ?sm']) (simp add: run retry again)
qed

theorem ds_pending_without_call_witness:
  "\<exists>sm' calls. DS_processAgpsEvent busy_env AGPS_EVENT_RELEASED (demo_ds, []) = Some (sm', calls) \<and>
     mState sm' = AGPS_STATE_PENDING"
proof -
  have "mState demo_ds = AGPS_STATE_RELEASING" "dsOpenRegistered busy_env" "mRetries demo_ds < 4"
      "find (\<lambda>s. \<not> mIsInactive s) (mSubscriberList demo_ds) =
        Some \<lparr>mConnHandle = 2, mWaitForCloseComplete = True, mIsInactive = False\<rparr>"
      "\<forall>calls. answer busy_env calls DSClientOpenAndStartDataCallFn = LOC_API_ADAPTER_ERR_ENGINE_BUSY"
    by (simp_all add: demo_ds_def busy_env_def demo_env_def DSStateMachine_new_def AgpsStateMachine_new_def
        AgpsStateMachine.defs)
  from ds_pending_without_call[OF this(1,4,2,3,5)] show ?thesis by blast
qed

text \<open>
  A request can be lost: a subscriber of the data service machine that released its
  connection and asks for it again before the close has completed is already in the list and is
  not added; the close then tells it that its connection is closed and deletes it, the machine is
  released, and the request is never answered.
\<close>

theorem ds_request_while_releasing_lost:
  fixes sm :: DSStateMachine
  assumes "mState sm = AGPS_STATE_RELEASING" "mSubscriberList sm = [s]" "mIsInactive s"
  shows "\<exists>sm' sm''. DS_processAgpsEvent env AGPS_EVENT_SUBSCRIBE
        (set_current (Some (Local \<lparr>mConnHandle = mConnHandle s, mWaitForCloseComplete = True, mIsInactive = False\<rparr>)) sm, calls) =
        Some (sm', calls) \<and>
      DS_processAgpsEvent env AGPS_EVENT_RELEASED (sm', calls) =
        Some (sm'', calls @ [DSClientCloseDataCallFn, AtlCloseStatusCb (mConnHandle s) 1]) \<and>
      mState sm'' = AGPS_STATE_RELEASED \<and> mSubscriberList sm'' = []"
  using assms
  by (simp add: DS_processAgpsEvent_def processAgpsEvent_def processAgpsEventSubscribe_def set_current_def
      add_current_def deref_def addSubscriber_def subscriber_equals_def processAgpsEventReleased_def
      release_done_def DS_notify_released anyActiveSubscribers_def transitionState_def ds_close_calls_def)

theorem ds_request_while_releasing_lost_witness:
  "\<exists>sm'. DS_processAgpsEvent demo_env AGPS_EVENT_SUBSCRIBE
     (set_current (Some (Local \<lparr>mConnHandle = 1, mWaitForCloseComplete = True, mIsInactive = False\<rparr>))
       (demo_ds\<lparr>mSubscriberList := [\<lparr>mConnHandle = 1, mWaitForCloseComplete = True, mIsInactive = True\<rparr>]\<rparr>), []) =
     Some (sm', [])"
  using ds_request_while_releasing_lost[of
      "demo_ds\<lparr>mSubscriberList := [\<lparr>mConnHandle = 1, mWaitForCloseComplete = True, mIsInactive = True\<rparr>]\<rparr>"
      "\<lparr>mConnHandle = 1, mWaitForCloseComplete = True, mIsInactive = True\<rparr>" demo_env "[]"]
  by (auto simp: demo_ds_def)

end
