(* ===== verification/Std_Map.thy ===== *)
theory Std_Map
  imports Prelude
begin

text \<open>
  \<open>std::map\<close> of the C++ library: an association list in the order of its keys, which is the
  order in which the sources iterate over it. \<open>map_put\<close> is \<open>m[k] = v\<close>, \<open>map_of\<close> is \<open>find\<close>,
  \<open>map_erase\<close> is \<open>erase\<close> of a key, and \<open>map_at\<close> is a read through \<open>operator[]\<close>, which inserts
  the zero value under a key that is absent. \<open>Std_Map\<close> also holds the facts that reduce all of
  them to HOL's maps.
\<close>

type_synonym ('k, 'v) std_map = "('k \<times> 'v) list"

fun map_put :: "'k::linorder \<Rightarrow> 'v \<Rightarrow> ('k, 'v) std_map \<Rightarrow> ('k, 'v) std_map" where
  "map_put k v [] = [(k, v)]"
| "map_put k v ((k', v') # m) =
     (if k < k' then (k, v) # (k', v') # m
      else if k = k' then (k, v) # m
      else (k', v') # map_put k v m)"

definition map_erase :: "'k \<Rightarrow> ('k, 'v) std_map \<Rightarrow> ('k, 'v) std_map" where
  "map_erase k m = filter (\<lambda>e. fst e \<noteq> k) m"

definition map_at :: "'v \<Rightarrow> 'k::linorder \<Rightarrow> ('k, 'v) std_map \<Rightarrow> 'v \<times> ('k, 'v) std_map" where
  "map_at z k m = (case map_of m k of Some v \<Rightarrow> (v, m) | None \<Rightarrow> (z, map_put k z m))"

definition map_has :: "'k \<Rightarrow> ('k, 'v) std_map \<Rightarrow> bool" where
  "map_has k m \<longleftrightarrow> map_of m k \<noteq> None"

definition std_map_ok :: "('k::linorder, 'v) std_map \<Rightarrow> bool" where
  "std_map_ok m \<longleftrightarrow> sorted (map fst m) \<and> distinct (map fst m)"

lemma std_map_ok_Nil [simp]: "std_map_ok []"
  by (simp add: std_map_ok_def)

lemma std_map_ok_Cons:
  "std_map_ok ((k, v) # m) \<longleftrightarrow> std_map_ok m \<and> (\<forall>k' \<in> fst ` set m. k < k')"
  by (force simp: std_map_ok_def order.strict_iff_order)

lemma map_of_put [simp]: "map_of (map_put k v m) = (map_of m)(k \<mapsto> v)" if "std_map_ok m"
  using that
proof (induction m)
  case (Cons e m)
  obtain k' v' where e: "e = (k', v')" by (cases e)
  have "k \<noteq> k'' " if "k < k'" "k'' \<in> fst ` set m" for k''
    using Cons.prems that by (force simp: e std_map_ok_Cons)
  then show ?case
    using Cons by (auto simp: e std_map_ok_Cons fun_upd_def fun_eq_iff)
qed simp

lemma fst_put [simp]: "fst ` set (map_put k v m) = insert k (fst ` set m)"
  by (induction k v m rule: map_put.induct) auto

lemma std_map_ok_put [simp]: "std_map_ok m \<Longrightarrow> std_map_ok (map_put k v m)"
  by (induction k v m rule: map_put.induct) (auto simp: std_map_ok_Cons)

lemma map_of_erase [simp]: "map_of (map_erase k m) = (map_of m)(k := None)"
  by (induction m) (auto simp: map_erase_def)

lemma std_map_ok_erase [simp]: "std_map_ok m \<Longrightarrow> std_map_ok (map_erase k m)"
  by (induction m) (auto simp: map_erase_def std_map_ok_Cons)

lemma fst_map_at: "fst (map_at z k m) = (case map_of m k of Some v \<Rightarrow> v | None \<Rightarrow> z)"
  by (simp add: map_at_def split: option.splits)

lemma snd_map_at:
  "std_map_ok m \<Longrightarrow> map_of (snd (map_at z k m)) =
     (map_of m)(k \<mapsto> (case map_of m k of Some v \<Rightarrow> v | None \<Rightarrow> z))"
  by (auto simp: map_at_def fun_eq_iff split: option.splits)

lemma std_map_ok_at [simp]: "std_map_ok m \<Longrightarrow> std_map_ok (snd (map_at z k m))"
  by (simp add: map_at_def split: option.splits)

lemma map_at_known: "map_of m k = Some v \<Longrightarrow> map_at z k m = (v, m)"
  by (simp add: map_at_def)

lemma set_std_map: "std_map_ok m \<Longrightarrow> (k, v) \<in> set m \<longleftrightarrow> map_of m k = Some v"
  by (simp add: std_map_ok_def map_of_eq_Some_iff)

lemma fst_std_map: "k \<in> fst ` set m \<longleftrightarrow> map_of m k \<noteq> None"
  by (simp add: map_of_eq_None_iff)

end
