(* ===== verification/Bi_Dict.thy ===== *)
theory Bi_Dict
  imports Std_Map
begin

text \<open>
  \<open>BiDict\<close> of \<open>LocationAPIClientBase.h\<close>: the dictionary of the client library between the ids
  of its user and the sessions of the location API, with a value per session. The dictionary
  is three \<open>std::map\<close>s that the operations keep in step; \<open>bidict_ok\<close> is what "in step" means,
  and the locale \<open>id_table\<close> is the contract on which the client's loops over arrays of ids
  rest.
\<close>

section \<open>Model\<close>

record 'a bidict =
  mForwardMap :: "(u32, u32) std_map"
  mBackwardMap :: "(u32, u32) std_map"
  mExtMap :: "(u32, 'a) std_map"

definition bd_new :: "'a bidict" where
  "bd_new = \<lparr>mForwardMap = [], mBackwardMap = [], mExtMap = []\<rparr>"

definition bd_hasId :: "u32 \<Rightarrow> 'a bidict \<Rightarrow> bool" where
  "bd_hasId i d = map_has i (mForwardMap d)"

definition bd_hasSession :: "u32 \<Rightarrow> 'a bidict \<Rightarrow> bool" where
  "bd_hasSession s d = map_has s (mBackwardMap d)"

definition bd_set :: "u32 \<Rightarrow> u32 \<Rightarrow> 'a \<Rightarrow> 'a bidict \<Rightarrow> 'a bidict" where
  "bd_set i s x d =
     \<lparr>mForwardMap = map_put i s (mForwardMap d),
      mBackwardMap = map_put s i (mBackwardMap d),
      mExtMap = map_put s x (mExtMap d)\<rparr>"

definition bd_clear :: "'a bidict \<Rightarrow> 'a bidict" where
  "bd_clear d = \<lparr>mForwardMap = [], mBackwardMap = [], mExtMap = []\<rparr>"

text \<open>
  The erasures look the other key up through \<open>operator[]\<close>, so an absent key is inserted with
  value 0 first, and the entry of 0 on the other side is erased.
\<close>

definition bd_rmById :: "u32 \<Rightarrow> 'a bidict \<Rightarrow> 'a bidict" where
  "bd_rmById i d =
     (let (s, f1) = map_at 0 i (mForwardMap d);
          b1 = map_erase s (mBackwardMap d);
          (s', f2) = map_at 0 i f1;
          e1 = map_erase s' (mExtMap d)
      in \<lparr>mForwardMap = map_erase i f2, mBackwardMap = b1, mExtMap = e1\<rparr>)"

definition bd_rmBySession :: "u32 \<Rightarrow> 'a bidict \<Rightarrow> 'a bidict" where
  "bd_rmBySession s d =
     (let (i, b1) = map_at 0 s (mBackwardMap d)
      in \<lparr>mForwardMap = map_erase i (mForwardMap d),
          mBackwardMap = map_erase s b1,
          mExtMap = map_erase s (mExtMap d)\<rparr>)"

definition bd_getId :: "u32 \<Rightarrow> 'a bidict \<Rightarrow> u32" where
  "bd_getId s d = (case map_of (mBackwardMap d) s of Some i \<Rightarrow> i | None \<Rightarrow> 0)"

definition bd_getSession :: "u32 \<Rightarrow> 'a bidict \<Rightarrow> u32" where
  "bd_getSession i d = (case map_of (mForwardMap d) i of Some s \<Rightarrow> s | None \<Rightarrow> 0)"

text \<open>
  The argument \<open>z\<close> is the value whose bytes are all zero (\<open>memset\<close>). \<open>getExtById\<close> also reads
  through \<open>operator[]\<close>: asked for an id it does not hold, it changes the dictionary.
\<close>

definition bd_getExtById :: "'a \<Rightarrow> u32 \<Rightarrow> 'a bidict \<Rightarrow> 'a \<times> 'a bidict" where
  "bd_getExtById z i d =
     (let (s, f) = map_at 0 i (mForwardMap d);
          r = (if 0 < s then (case map_of (mExtMap d) s of Some x \<Rightarrow> x | None \<Rightarrow> z) else z)
      in (r, d\<lparr>mForwardMap := f\<rparr>))"

definition bd_getExtBySession :: "'a \<Rightarrow> u32 \<Rightarrow> 'a bidict \<Rightarrow> 'a" where
  "bd_getExtBySession z s d = (case map_of (mExtMap d) s of Some x \<Rightarrow> x | None \<Rightarrow> z)"

definition bd_getAllSessions :: "'a bidict \<Rightarrow> u32 list" where
  "bd_getAllSessions d = map fst (mBackwardMap d)"

section \<open>The maps in step\<close>

definition bidict_ok :: "'a bidict \<Rightarrow> bool" where
  "bidict_ok d \<longleftrightarrow>
     std_map_ok (mForwardMap d) \<and> std_map_ok (mBackwardMap d) \<and> std_map_ok (mExtMap d) \<and>
     (\<forall>i s. map_of (mForwardMap d) i = Some s \<longleftrightarrow> map_of (mBackwardMap d) s = Some i) \<and>
     dom (map_of (mExtMap d)) = dom (map_of (mBackwardMap d))"

text \<open>
  What the dictionary holds for a session: the id and the value.
\<close>

definition bd_entry :: "'a bidict \<Rightarrow> u32 \<Rightarrow> (u32 \<times> 'a) option" where
  "bd_entry d s = (case map_of (mBackwardMap d) s of None \<Rightarrow> None
     | Some i \<Rightarrow> (case map_of (mExtMap d) s of None \<Rightarrow> None | Some x \<Rightarrow> Some (i, x)))"

lemma bidict_okD:
  assumes "bidict_ok d"
  shows "std_map_ok (mForwardMap d)" "std_map_ok (mBackwardMap d)" "std_map_ok (mExtMap d)"
    and "\<And>i s. map_of (mForwardMap d) i = Some s \<longleftrightarrow> map_of (mBackwardMap d) s = Some i"
    and "dom (map_of (mExtMap d)) = dom (map_of (mBackwardMap d))"
  using assms by (auto simp: bidict_ok_def)

lemma bidict_ok_new [simp]: "bidict_ok bd_new"
  by (simp add: bidict_ok_def bd_new_def)

lemma bd_entry_None: "bidict_ok d \<Longrightarrow> bd_entry d s = None \<longleftrightarrow> \<not> bd_hasSession s d"
  by (auto simp: bd_entry_def bd_hasSession_def map_has_def dest!: bidict_okD(5)
      split: option.splits)

lemma bd_entry_hasId:
  "bidict_ok d \<Longrightarrow> bd_hasId i d \<longleftrightarrow> (\<exists>s x. bd_entry d s = Some (i, x))"
proof -
  assume ok: "bidict_ok d"
  have "map_of (mForwardMap d) i = Some s \<longleftrightarrow> (\<exists>x. bd_entry d s = Some (i, x))" for s
    using bidict_okD(4)[OF ok, of i s] bidict_okD(5)[OF ok]
    by (auto simp: bd_entry_def split: option.splits)
  then show ?thesis
    by (auto simp: bd_hasId_def map_has_def)
qed

lemma bd_entry_get:
  assumes "bidict_ok d" "bd_entry d s = Some (i, x)"
  shows "bd_getId s d = i" "bd_getSession i d = s" "bd_getExtBySession z s d = x"
    and "bd_hasId i d" "bd_hasSession s d"
  using assms(2) bidict_okD(4)[OF assms(1), of i s]
  by (auto simp: bd_entry_def bd_getId_def bd_getSession_def bd_getExtBySession_def bd_hasId_def
      bd_hasSession_def map_has_def split: option.splits)

lemma bd_entry_inj:
  assumes "bidict_ok d" "bd_entry d s = Some (i, x)" "bd_entry d t = Some (i, y)"
  shows "s = t"
  using bd_entry_get(2)[OF assms(1,2)] bd_entry_get(2)[OF assms(1,3)] by simp

lemma bd_getExtById_known:
  assumes "bidict_ok d" "bd_entry d s = Some (i, x)" "s \<noteq> 0"
  shows "bd_getExtById z i d = (x, d)"
proof -
  have "map_of (mForwardMap d) i = Some s"
    using assms(2) bidict_okD(4)[OF assms(1), of i s]
    by (auto simp: bd_entry_def split: option.splits)
  moreover have "map_of (mExtMap d) s = Some x"
    using assms(2) by (auto simp: bd_entry_def split: option.splits)
  moreover have "0 < s" using assms(3) by (simp add: word_neq_0_conv)
  ultimately show ?thesis
    by (simp add: bd_getExtById_def map_at_known)
qed

lemma bidict_ok_set:
  assumes ok: "bidict_ok d" and i: "\<not> bd_hasId i d" and s: "\<not> bd_hasSession s d"
  shows "bidict_ok (bd_set i s x d)"
proof -
  have fi: "map_of (mForwardMap d) i = None" and bs: "map_of (mBackwardMap d) s = None"
    using i s by (auto simp: bd_hasId_def bd_hasSession_def map_has_def)
  have "map_of (mForwardMap d) i' \<noteq> Some s" for i'
    using bs bidict_okD(4)[OF ok, of i' s] by simp
  moreover have "map_of (mBackwardMap d) s' \<noteq> Some i" for s'
    using fi bidict_okD(4)[OF ok, of i s'] by simp
  ultimately have "((map_of (mForwardMap d))(i \<mapsto> s)) i' = Some s' \<longleftrightarrow>
      ((map_of (mBackwardMap d))(s \<mapsto> i)) s' = Some i'" for i' s'
    using bidict_okD(4)[OF ok, of i' s'] by auto
  then show ?thesis
    unfolding bidict_ok_def bd_set_def by (simp add: bidict_okD(1,2,3,5)[OF ok])
qed

lemma bd_entry_set:
  "bidict_ok d \<Longrightarrow> bd_entry (bd_set i s x d) = (bd_entry d)(s \<mapsto> (i, x))"
  by (auto simp: bd_entry_def bd_set_def bidict_okD(1,2,3) fun_eq_iff split: option.splits)

lemma bd_entry_rmBySession:
  assumes "bidict_ok d"
  shows "bd_entry (bd_rmBySession s d) = (bd_entry d)(s := None)"
  using assms
  by (auto simp: bd_entry_def bd_rmBySession_def case_prod_beta snd_map_at bidict_okD(1,2,3)
      fun_eq_iff split: option.splits)

lemma bidict_ok_rmBySession:
  assumes ok: "bidict_ok d" and s: "bd_hasSession s d"
  shows "bidict_ok (bd_rmBySession s d)"
proof -
  obtain i where i: "map_of (mBackwardMap d) s = Some i"
    using s by (auto simp: bd_hasSession_def map_has_def)
  have f: "map_of (mForwardMap d) i = Some s" using bidict_okD(4)[OF ok, of i s] i by simp
  have at: "map_at 0 s (mBackwardMap d) = (i, mBackwardMap d)"
    using i by (simp add: map_at_known)
  have u: "t = s" if "map_of (mBackwardMap d) t = Some i" for t
    using that f bidict_okD(4)[OF ok, of i t] by simp
  have "((map_of (mForwardMap d))(i := None)) i' = Some s' \<longleftrightarrow>
      ((map_of (mBackwardMap d))(s := None)) s' = Some i'" for i' s'
  proof (cases "s' = s")
    case True
    then show ?thesis using bidict_okD(4)[OF ok, of i' s] i by simp
  next
    case False
    then have "map_of (mBackwardMap d) s' \<noteq> Some i" using u by blast
    then show ?thesis using bidict_okD(4)[OF ok, of i' s'] False by simp
  qed
  then show ?thesis
    unfolding bidict_ok_def bd_rmBySession_def
    by (simp add: at bidict_okD(1,2,3,5)[OF ok])
qed

lemma bd_rmById_known:
  assumes "bidict_ok d" "bd_entry d s = Some (i, x)"
  shows "bd_rmById i d = bd_rmBySession s d"
proof -
  have b: "map_of (mBackwardMap d) s = Some i"
    using assms(2) by (auto simp: bd_entry_def split: option.splits)
  then have "map_of (mForwardMap d) i = Some s"
    using bidict_okD(4)[OF assms(1), of i s] by simp
  then show ?thesis
    using b by (simp add: bd_rmById_def bd_rmBySession_def map_at_known)
qed

section \<open>The contract of a table of ids\<close>

text \<open>
  What the client relies on: a table holds for a session an id and a value, an id is held for
  one session only, a fresh pair can be added, and a held session can be dropped.
\<close>

locale id_table =
  fixes ok :: "'d \<Rightarrow> bool"
    and entry :: "'d \<Rightarrow> 's \<Rightarrow> ('i \<times> 'a) option"
    and put :: "'i \<Rightarrow> 's \<Rightarrow> 'a \<Rightarrow> 'd \<Rightarrow> 'd"
    and drop :: "'s \<Rightarrow> 'd \<Rightarrow> 'd"
  assumes unique: "ok d \<Longrightarrow> entry d s = Some (i, x) \<Longrightarrow> entry d t = Some (i, y) \<Longrightarrow> s = t"
    and put_ok: "ok d \<Longrightarrow> \<forall>t y. entry d t \<noteq> Some (i, y) \<Longrightarrow> entry d s = None \<Longrightarrow> ok (put i s x d)"
    and put_entry: "ok d \<Longrightarrow> entry (put i s x d) = (entry d)(s \<mapsto> (i, x))"
    and drop_ok: "ok d \<Longrightarrow> entry d s \<noteq> None \<Longrightarrow> ok (drop s d)"
    and drop_entry: "ok d \<Longrightarrow> entry (drop s d) = (entry d)(s := None)"
begin

text \<open>
  Adding a list of pairs, one after the other: with distinct fresh ids and distinct fresh
  sessions every one of them is held afterwards and nothing else has changed.
\<close>

definition fresh :: "'d \<Rightarrow> ('i \<times> 's \<times> 'a) list \<Rightarrow> bool" where
  "fresh d es \<longleftrightarrow> distinct (map fst es) \<and> distinct (map (fst \<circ> snd) es) \<and>
     (\<forall>(i, s, x) \<in> set es. entry d s = None \<and> (\<forall>t y. entry d t \<noteq> Some (i, y)))"

lemma put_all:
  assumes "ok d" "fresh d es"
  shows "ok (fold (\<lambda>(i, s, x). put i s x) es d) \<and>
    entry (fold (\<lambda>(i, s, x). put i s x) es d) =
      (\<lambda>t. case map_of (map (\<lambda>(i, s, x). (s, i, x)) es) t of Some e \<Rightarrow> Some e | None \<Rightarrow> entry d t)"
  using assms
proof (induction es arbitrary: d)
  case (Cons e es)
  obtain i s x where e: "e = (i, s, x)" by (cases e)
  let ?d = "put i s x d"
  have fr: "entry d s = None" "\<forall>t y. entry d t \<noteq> Some (i, y)" and d: "ok d"
    using Cons.prems unfolding fresh_def e by simp_all
  have d': "ok ?d" "entry ?d = (entry d)(s \<mapsto> (i, x))"
    using put_ok[OF d fr(2,1)] put_entry[OF d] by auto
  have nin: "i \<notin> fst ` set es" "s \<notin> (fst \<circ> snd) ` set es"
    using Cons.prems(2) unfolding fresh_def e by simp_all
  have ne: "j \<noteq> i \<and> t \<noteq> s" if "(j, t, y) \<in> set es" for j t y
    using nin imageI[OF that, of fst] imageI[OF that, of "fst \<circ> snd"] by auto
  have "entry ?d t = None \<and> (\<forall>t' y'. entry ?d t' \<noteq> Some (j, y'))" if "(j, t, y) \<in> set es" for j t y
  proof -
    have "entry d t = None" "\<forall>t' y'. entry d t' \<noteq> Some (j, y')"
      using Cons.prems(2) that unfolding fresh_def by auto
    then show ?thesis
      using ne[OF that] by (auto simp: d'(2))
  qed
  then have f': "fresh ?d es"
    using Cons.prems(2) unfolding fresh_def e by fastforce
  have "map_of (map (\<lambda>(i, s, x). (s, i, x)) es) s = None"
    using ne by (force simp: map_of_eq_None_iff)
  then show ?case
    using Cons.IH[OF d'(1) f'] by (simp add: e d'(2) fun_eq_iff split: option.split)
qed simp

text \<open>
  Moving a session from one table to another that shares no id and no session with it keeps
  them so, and loses nothing.
\<close>

definition apart :: "'d \<Rightarrow> 'd \<Rightarrow> bool" where
  "apart d r \<longleftrightarrow> ok d \<and> ok r \<and> (\<forall>s. entry d s = None \<or> entry r s = None) \<and>
     (\<forall>s t i x y. entry d s \<noteq> Some (i, x) \<or> entry r t \<noteq> Some (i, y))"

lemma move_keeps:
  assumes a: "apart d r" and e: "entry d s = Some (i, x)"
  shows "apart (drop s d) (put i s x r)"
    and "entry (drop s d) ++ entry (put i s x r) = entry d ++ entry r"
proof -
  have ok: "ok d" "ok r" and r: "entry r s = None" "\<And>t y. entry r t \<noteq> Some (i, y)"
    using a e unfolding apart_def by (metis option.distinct(1))+
  have d': "ok (drop s d)" "entry (drop s d) = (entry d)(s := None)"
    using ok e by (auto intro: drop_ok drop_entry)
  have r': "ok (put i s x r)" "entry (put i s x r) = (entry r)(s \<mapsto> (i, x))"
    using ok r by (auto intro: put_ok put_entry)
  have u: "entry d t \<noteq> Some (i, y)" if "t \<noteq> s" for t y
    using unique[OF ok(1) e] that by blast
  have "((entry d)(s := None)) t = None \<or> ((entry r)(s \<mapsto> (i, x))) t = None" for t
    using a unfolding apart_def by simp
  moreover have "((entry d)(s := None)) t \<noteq> Some (j, y) \<or> ((entry r)(s \<mapsto> (i, x))) t' \<noteq> Some (j, z)"
    for t t' j y z
    using a u[of t y] unfolding apart_def by (cases "t = s"; cases "t' = s") auto
  ultimately show "apart (drop s d) (put i s x r)"
    unfolding apart_def using d' r' by simp
  show "entry (drop s d) ++ entry (put i s x r) = entry d ++ entry r"
    using e r by (auto simp: d' r' map_add_def fun_eq_iff split: option.splits)
qed

end

interpretation bd: id_table bidict_ok bd_entry bd_set bd_rmBySession
proof (unfold_locales, goal_cases)
  case (1 d s i x t y)
  then show ?case by (rule bd_entry_inj)
next
  case (2 d i s x)
  then show ?case by (auto simp: bd_entry_None bd_entry_hasId intro!: bidict_ok_set)
next
  case (3 d i s x)
  then show ?case by (rule bd_entry_set)
next
  case (4 d s)
  then show ?case by (auto simp: bd_entry_None intro!: bidict_ok_rmBySession)
next
  case (5 d s)
  then show ?case by (rule bd_entry_rmBySession)
qed

end
