(* ===== verification/Location_Types.thy ===== *)
theory Location_Types
  imports Prelude
begin

text \<open>
  The data types of the location API (\<open>gps/location/LocationAPI.h\<close>) that the client library
  and the GNSS adapter exchange.
\<close>

datatype LocationError =
    LOCATION_ERROR_SUCCESS
  | LOCATION_ERROR_GENERAL_FAILURE
  | LOCATION_ERROR_CALLBACK_MISSING
  | LOCATION_ERROR_INVALID_PARAMETER
  | LOCATION_ERROR_ID_EXISTS
  | LOCATION_ERROR_ID_UNKNOWN
  | LOCATION_ERROR_ALREADY_STARTED
  | LOCATION_ERROR_GEOFENCES_AT_MAX
  | LOCATION_ERROR_NOT_SUPPORTED

datatype GnssSuplMode = GNSS_SUPL_MODE_STANDALONE | GNSS_SUPL_MODE_MSB | GNSS_SUPL_MODE_MSA

datatype BatchingMode = BATCHING_MODE_ROUTINE | BATCHING_MODE_TRIP | BATCHING_MODE_NO_AUTO_REPORT

datatype BatchingStatus =
    BATCHING_STATUS_TRIP_COMPLETED
  | BATCHING_STATUS_POSITION_AVAILABE
  | BATCHING_STATUS_POSITION_UNAVAILABLE

datatype GeofenceBreachType =
    GEOFENCE_BREACH_ENTER
  | GEOFENCE_BREACH_EXIT
  | GEOFENCE_BREACH_DWELL_IN
  | GEOFENCE_BREACH_DWELL_OUT
  | GEOFENCE_BREACH_UNKNOWN

text \<open>The first value is that of memory filled with zeros, which has no name in the source.\<close>

datatype GnssNiResponse =
    GNSS_NI_RESPONSE_UNSET
  | GNSS_NI_RESPONSE_ACCEPT
  | GNSS_NI_RESPONSE_DENY
  | GNSS_NI_RESPONSE_NO_RESPONSE
  | GNSS_NI_RESPONSE_IGNORE

type_synonym GeofenceBreachTypeMask = u16

definition GEOFENCE_BREACH_ENTER_BIT :: GeofenceBreachTypeMask where
  "GEOFENCE_BREACH_ENTER_BIT = 1"

definition GEOFENCE_BREACH_EXIT_BIT :: GeofenceBreachTypeMask where
  "GEOFENCE_BREACH_EXIT_BIT = 2"

text \<open>
  \<open>size\<close> is 0 in an options struct that was zero-initialised and never filled in.
\<close>

record LocationOptions =
  lo_size :: nat
  minInterval :: u32
  minDistance :: u32
  lo_mode :: GnssSuplMode

definition LocationOptions_zero :: LocationOptions where
  "LocationOptions_zero =
     \<lparr>lo_size = 0, minInterval = 0, minDistance = 0, lo_mode = GNSS_SUPL_MODE_STANDALONE\<rparr>"

record GeofenceOption =
  go_size :: nat
  breachTypeMask :: GeofenceBreachTypeMask
  responsiveness :: u32
  dwellTime :: u32

end
