(* ===== verification/Client_Base.thy ===== *)
theory Client_Base
  imports Bi_Dict Location_Types
begin

text \<open>
  \<open>gps/location/LocationAPIClientBase.cpp\<close>: the client side of the location API. A client turns
  the calls of its user (the HIDL services) into calls of \<open>LocationAPI\<close>, remembers per kind of
  operation which answers it is still waiting for (\<open>RequestQueue\<close>), and translates between
  the user's ids and the API's sessions (\<open>BiDict\<close>).

  The client's mutex makes every operation one step. \<open>LocationAPI\<close> is the environment: a call
  is appended to the log \<open>api\<close> and answered by the oracle \<open>w\<close>, and the virtual callbacks that
  the user overrides are logged in \<open>cbs\<close>. An array and its count are one list; the argument
  \<open>mem\<close> tells whether the \<open>malloc\<close> of an operation succeeded.
\<close>

section \<open>Request queues\<close>

datatype SESSION_MODE =
    SESSION_MODE_NONE | SESSION_MODE_ON_FULL | SESSION_MODE_ON_FIX | SESSION_MODE_ON_TRIP_COMPLETED

datatype REQUEST_TYPE = REQUEST_TRACKING | REQUEST_SESSION | REQUEST_GEOFENCE | REQUEST_NIRESPONSE

datatype CTRL_REQUEST_TYPE =
    CTRL_REQUEST_DELETEAIDINGDATA | CTRL_REQUEST_CONTROL | CTRL_REQUEST_CONFIG

text \<open>
  The arrays of queues are functions of the request type; the enumeration is the order in which
  the code goes through an array.
\<close>

instantiation REQUEST_TYPE :: enum
begin

definition enum_REQUEST_TYPE :: "REQUEST_TYPE list" where
  "enum_REQUEST_TYPE = [REQUEST_TRACKING, REQUEST_SESSION, REQUEST_GEOFENCE, REQUEST_NIRESPONSE]"

definition enum_all_REQUEST_TYPE :: "(REQUEST_TYPE \<Rightarrow> bool) \<Rightarrow> bool" where
  "enum_all_REQUEST_TYPE P = list_all P
     [REQUEST_TRACKING, REQUEST_SESSION, REQUEST_GEOFENCE, REQUEST_NIRESPONSE]"

definition enum_ex_REQUEST_TYPE :: "(REQUEST_TYPE \<Rightarrow> bool) \<Rightarrow> bool" where
  "enum_ex_REQUEST_TYPE P = list_ex P
     [REQUEST_TRACKING, REQUEST_SESSION, REQUEST_GEOFENCE, REQUEST_NIRESPONSE]"

instance
proof
  show univ: "(UNIV :: REQUEST_TYPE set) = set enum_class.enum"
    by (auto simp: enum_REQUEST_TYPE_def intro: REQUEST_TYPE.exhaust)
  show "distinct (enum_class.enum :: REQUEST_TYPE list)"
    by (simp add: enum_REQUEST_TYPE_def)
  show "enum_class.enum_all P = Ball UNIV P" "enum_class.enum_ex P = Bex UNIV P"
    for P :: "REQUEST_TYPE \<Rightarrow> bool"
    by (simp add: enum_all_REQUEST_TYPE_def enum_ex_REQUEST_TYPE_def, metis REQUEST_TYPE.exhaust)+
qed

end

instantiation CTRL_REQUEST_TYPE :: enum
begin

definition enum_CTRL_REQUEST_TYPE :: "CTRL_REQUEST_TYPE list" where
  "enum_CTRL_REQUEST_TYPE = [CTRL_REQUEST_DELETEAIDINGDATA, CTRL_REQUEST_CONTROL, CTRL_REQUEST_CONFIG]"

definition enum_all_CTRL_REQUEST_TYPE :: "(CTRL_REQUEST_TYPE \<Rightarrow> bool) \<Rightarrow> bool" where
  "enum_all_CTRL_REQUEST_TYPE P = list_all P
     [CTRL_REQUEST_DELETEAIDINGDATA, CTRL_REQUEST_CONTROL, CTRL_REQUEST_CONFIG]"

definition enum_ex_CTRL_REQUEST_TYPE :: "(CTRL_REQUEST_TYPE \<Rightarrow> bool) \<Rightarrow> bool" where
  "enum_ex_CTRL_REQUEST_TYPE P = list_ex P
     [CTRL_REQUEST_DELETEAIDINGDATA, CTRL_REQUEST_CONTROL, CTRL_REQUEST_CONFIG]"

instance
proof
  show univ: "(UNIV :: CTRL_REQUEST_TYPE set) = set enum_class.enum"
    by (auto simp: enum_CTRL_REQUEST_TYPE_def intro: CTRL_REQUEST_TYPE.exhaust)
  show "distinct (enum_class.enum :: CTRL_REQUEST_TYPE list)"
    by (simp add: enum_CTRL_REQUEST_TYPE_def)
  show "enum_class.enum_all P = Ball UNIV P" "enum_class.enum_ex P = Bex UNIV P"
    for P :: "CTRL_REQUEST_TYPE \<Rightarrow> bool"
    by (simp add: enum_all_CTRL_REQUEST_TYPE_def enum_ex_CTRL_REQUEST_TYPE_def, metis CTRL_REQUEST_TYPE.exhaust)+
qed

end

definition GEOFENCE_SESSION_ID :: u32 where "GEOFENCE_SESSION_ID = 0xFFFFFFFF"

definition CONFIG_SESSION_ID :: u32 where "CONFIG_SESSION_ID = 0xFFFFFFFF"

record 'r RequestQueue =
  rq_session :: u32
  rq_queue :: "'r list"

definition rq_new :: "'r RequestQueue" where
  "rq_new = \<lparr>rq_session = 0, rq_queue = []\<rparr>"

definition rq_setSession :: "u32 \<Rightarrow> 'r RequestQueue \<Rightarrow> 'r RequestQueue" where
  "rq_setSession s q = q\<lparr>rq_session := s\<rparr>"

definition rq_reset :: "u32 \<Rightarrow> 'r RequestQueue \<Rightarrow> 'r RequestQueue" where
  "rq_reset s q = q\<lparr>rq_queue := [], rq_session := s\<rparr>"

definition rq_push :: "'r \<Rightarrow> 'r RequestQueue \<Rightarrow> 'r RequestQueue" where
  "rq_push r q = q\<lparr>rq_queue := rq_queue q @ [r]\<rparr>"

definition rq_pop :: "'r RequestQueue \<Rightarrow> 'r option \<times> 'r RequestQueue" where
  "rq_pop q = (case rq_queue q of [] \<Rightarrow> (None, q) | r # rs \<Rightarrow> (Some r, q\<lparr>rq_queue := rs\<rparr>))"

section \<open>The control client\<close>

datatype LocationTechnologyType = LOCATION_TECHNOLOGY_TYPE_GNSS

datatype ctrl_request =
  GnssDeleteAidingDataRequest | EnableRequest | DisableRequest | GnssUpdateConfigRequest

text \<open>
  The structs \<open>GnssAidingData\<close> and \<open>GnssConfig\<close> are only copied and compared bytewise.
\<close>

type_synonym bytes = "u8 list"

datatype ctrl_call =
    C_destroy
  | C_gnssDeleteAidingData bytes
  | C_enable LocationTechnologyType
  | C_disable u32
  | C_gnssUpdateConfig bytes

datatype ctrl_cb =
    OnGnssDeleteAidingData LocationError
  | OnEnable LocationError
  | OnDisable LocationError
  | OnGnssUpdateConfig "LocationError list" "u32 list"

record ctrl_world =
  ctrl_session :: "(ctrl_call, u32) world"
  ctrl_ids :: "(ctrl_call, bool) world"

record ctrl_client =
  mLocationControlAPI :: bool
  ctrl_queues :: "CTRL_REQUEST_TYPE \<Rightarrow> ctrl_request RequestQueue"
  mEnabled :: bool
  mConfig :: bytes
  ctrl_api :: "ctrl_call list"
  ctrl_cbs :: "ctrl_cb list"

definition ctrl_new :: "bool \<Rightarrow> nat \<Rightarrow> ctrl_client" where
  "ctrl_new created sizeof =
     \<lparr>mLocationControlAPI = created, ctrl_queues = (\<lambda>_. rq_reset 0 rq_new), mEnabled = False,
      mConfig = replicate sizeof 0, ctrl_api = [], ctrl_cbs = []\<rparr>"

definition ctrl_queue_upd ::
  "CTRL_REQUEST_TYPE \<Rightarrow> (ctrl_request RequestQueue \<Rightarrow> ctrl_request RequestQueue) \<Rightarrow>
   ctrl_client \<Rightarrow> ctrl_client" where
  "ctrl_queue_upd t f c = c\<lparr>ctrl_queues := (ctrl_queues c)(t := f (ctrl_queues c t))\<rparr>"

definition ctrl_do :: "ctrl_call \<Rightarrow> ctrl_client \<Rightarrow> ctrl_client" where
  "ctrl_do x c = c\<lparr>ctrl_api := ctrl_api c @ [x]\<rparr>"

definition ctrl_destroy :: "ctrl_client \<Rightarrow> ctrl_client" where
  "ctrl_destroy c =
     (let c1 = (if mLocationControlAPI c then (ctrl_do C_destroy c)\<lparr>mLocationControlAPI := False\<rparr> else c)
      in c1\<lparr>ctrl_queues := (\<lambda>t. rq_reset 0 (ctrl_queues c1 t))\<rparr>)"

definition locAPIGnssDeleteAidingData ::
  "ctrl_world \<Rightarrow> bytes \<Rightarrow> ctrl_client \<Rightarrow> LocationError \<times> ctrl_client" where
  "locAPIGnssDeleteAidingData w data c =
     (if mLocationControlAPI c then
        let x = C_gnssDeleteAidingData data;
            session = ctrl_session w (ctrl_api c) x;
            c1 = ctrl_do x c;
            c2 = ctrl_queue_upd CTRL_REQUEST_DELETEAIDINGDATA (rq_reset session) c1;
            c3 = ctrl_queue_upd CTRL_REQUEST_DELETEAIDINGDATA (rq_push GnssDeleteAidingDataRequest) c2
        in (LOCATION_ERROR_SUCCESS, c3)
      else (LOCATION_ERROR_GENERAL_FAILURE, c))"

definition locAPIEnable ::
  "ctrl_world \<Rightarrow> LocationTechnologyType \<Rightarrow> ctrl_client \<Rightarrow> LocationError \<times> ctrl_client" where
  "locAPIEnable w techType c =
     (if mEnabled c then (LOCATION_ERROR_SUCCESS, c)
      else if mLocationControlAPI c then
        let x = C_enable techType;
            session = ctrl_session w (ctrl_api c) x;
            c1 = ctrl_do x c;
            c2 = ctrl_queue_upd CTRL_REQUEST_CONTROL (rq_reset session) c1;
            c3 = ctrl_queue_upd CTRL_REQUEST_CONTROL (rq_push EnableRequest) c2
        in (LOCATION_ERROR_SUCCESS, c3\<lparr>mEnabled := True\<rparr>)
      else (LOCATION_ERROR_GENERAL_FAILURE, c))"

definition locAPIDisable :: "ctrl_client \<Rightarrow> ctrl_client" where
  "locAPIDisable c =
     (if mEnabled c \<and> mLocationControlAPI c then
        let session = rq_session (ctrl_queues c CTRL_REQUEST_CONTROL)
        in if session > 0 then
             (ctrl_do (C_disable session)
               (ctrl_queue_upd CTRL_REQUEST_CONTROL (rq_push DisableRequest) c))\<lparr>mEnabled := False\<rparr>
           else c
      else c)"

definition locAPIGnssUpdateConfig ::
  "ctrl_world \<Rightarrow> bytes \<Rightarrow> ctrl_client \<Rightarrow> LocationError \<times> ctrl_client" where
  "locAPIGnssUpdateConfig w config c =
     (if mConfig c = config then (LOCATION_ERROR_SUCCESS, c)
      else if mLocationControlAPI c then
        let c1 = c\<lparr>mConfig := config\<rparr>;
            x = C_gnssUpdateConfig config;
            idArray = ctrl_ids w (ctrl_api c1) x;
            c2 = ctrl_do x c1
        in if idArray then
             let c3 = (if rq_session (ctrl_queues c2 CTRL_REQUEST_CONFIG) \<noteq> CONFIG_SESSION_ID
                       then ctrl_queue_upd CTRL_REQUEST_CONFIG (rq_reset CONFIG_SESSION_ID) c2
                       else c2)
             in (LOCATION_ERROR_SUCCESS,
                 ctrl_queue_upd CTRL_REQUEST_CONFIG (rq_push GnssUpdateConfigRequest) c3)
           else (LOCATION_ERROR_GENERAL_FAILURE, c2)
      else (LOCATION_ERROR_GENERAL_FAILURE, c))"

definition ctrl_getRequestBySession :: "u32 \<Rightarrow> ctrl_client \<Rightarrow> ctrl_request option \<times> ctrl_client" where
  "ctrl_getRequestBySession session c =
     (case find (\<lambda>i. i \<noteq> CTRL_REQUEST_CONFIG \<and> rq_session (ctrl_queues c i) = session) enum_class.enum of
        None \<Rightarrow> (None, c)
      | Some i \<Rightarrow> let (r, q) = rq_pop (ctrl_queues c i) in (r, ctrl_queue_upd i (\<lambda>_. q) c))"

text \<open>
  \<open>onResponse\<close> of the request classes: a class that does not override it inherits the empty
  one of \<open>LocationAPIRequest\<close>; likewise \<open>onCollectiveResponse\<close>.
\<close>

fun ctrl_onResponse :: "ctrl_request \<Rightarrow> LocationError \<Rightarrow> ctrl_client \<Rightarrow> ctrl_client" where
  "ctrl_onResponse GnssDeleteAidingDataRequest e c = c\<lparr>ctrl_cbs := ctrl_cbs c @ [OnGnssDeleteAidingData e]\<rparr>"
| "ctrl_onResponse EnableRequest e c = c\<lparr>ctrl_cbs := ctrl_cbs c @ [OnEnable e]\<rparr>"
| "ctrl_onResponse DisableRequest e c = c\<lparr>ctrl_cbs := ctrl_cbs c @ [OnDisable e]\<rparr>"
| "ctrl_onResponse GnssUpdateConfigRequest e c = c"

fun ctrl_onCollectiveResponse ::
  "ctrl_request \<Rightarrow> LocationError list \<Rightarrow> u32 list \<Rightarrow> ctrl_client \<Rightarrow> ctrl_client" where
  "ctrl_onCollectiveResponse GnssUpdateConfigRequest errs ids c =
     c\<lparr>ctrl_cbs := ctrl_cbs c @ [OnGnssUpdateConfig errs ids]\<rparr>"
| "ctrl_onCollectiveResponse _ errs ids c = c"

definition onCtrlResponseCb :: "LocationError \<Rightarrow> u32 \<Rightarrow> ctrl_client \<Rightarrow> ctrl_client" where
  "onCtrlResponseCb e i c =
     (let (request, c1) = ctrl_getRequestBySession i c
      in case request of None \<Rightarrow> c1 | Some r \<Rightarrow> ctrl_onResponse r e c1)"

definition onCtrlCollectiveResponseCb ::
  "LocationError list \<Rightarrow> u32 list \<Rightarrow> ctrl_client \<Rightarrow> ctrl_client" where
  "onCtrlCollectiveResponseCb errs ids c =
     (let (request, c1) =
        (if rq_session (ctrl_queues c CTRL_REQUEST_CONFIG) = CONFIG_SESSION_ID then
           let (r, q) = rq_pop (ctrl_queues c CTRL_REQUEST_CONFIG)
           in (r, ctrl_queue_upd CTRL_REQUEST_CONFIG (\<lambda>_. q) c)
         else (None, c))
      in case request of None \<Rightarrow> c1 | Some r \<Rightarrow> ctrl_onCollectiveResponse r errs ids c1)"

datatype ctrl_event =
    E_DeleteAidingData bytes
  | E_Enable LocationTechnologyType
  | E_Disable
  | E_UpdateConfig bytes
  | E_CtrlResponse LocationError u32
  | E_CtrlCollective "LocationError list" "u32 list"

fun ctrl_step :: "ctrl_world \<Rightarrow> ctrl_event \<Rightarrow> ctrl_client \<Rightarrow> ctrl_client" where
  "ctrl_step w (E_DeleteAidingData d) c = snd (locAPIGnssDeleteAidingData w d c)"
| "ctrl_step w (E_Enable t) c = snd (locAPIEnable w t c)"
| "ctrl_step w E_Disable c = locAPIDisable c"
| "ctrl_step w (E_UpdateConfig g) c = snd (locAPIGnssUpdateConfig w g c)"
| "ctrl_step w (E_CtrlResponse e i) c = onCtrlResponseCb e i c"
| "ctrl_step w (E_CtrlCollective es is) c = onCtrlCollectiveResponseCb es is c"

section \<open>The client\<close>

record SessionEntity =
  se_id :: u32
  trackingSession :: u32
  batchingSession :: u32
  sessionMode :: SESSION_MODE

definition SessionEntity_zero :: SessionEntity where
  "SessionEntity_zero =
     \<lparr>se_id = 0, trackingSession = 0, batchingSession = 0, sessionMode = SESSION_MODE_NONE\<rparr>"

datatype request =
    StartTrackingRequest
  | StopTrackingRequest
  | UpdateTrackingOptionsRequest
  | StartBatchingRequest
  | StopBatchingRequest
  | UpdateBatchingOptionsRequest
  | GetBatchedLocationsRequest
  | AddGeofencesRequest
  | RemoveGeofencesRequest "GeofenceBreachTypeMask bidict"
  | ModifyGeofencesRequest
  | PauseGeofencesRequest
  | ResumeGeofencesRequest
  | GnssNiResponseRequest

datatype api_call =
    A_createInstance
  | A_updateCallbacks
  | A_destroy
  | A_startTracking LocationOptions
  | A_stopTracking u32
  | A_updateTrackingOptions u32 LocationOptions
  | A_startBatching LocationOptions BatchingMode
  | A_stopBatching u32
  | A_updateBatchingOptions u32 LocationOptions BatchingMode
  | A_getBatchedLocations u32 nat
  | A_addGeofences "GeofenceOption list" ptr
  | A_removeGeofences "u32 list"
  | A_modifyGeofences "u32 list" "GeofenceOption list"
  | A_pauseGeofences "u32 list"
  | A_resumeGeofences "u32 list"
  | A_gnssNiResponse u32 GnssNiResponse

datatype client_cb =
    OnStartTracking LocationError
  | OnStopTracking LocationError
  | OnUpdateTrackingOptions LocationError
  | OnStartBatching LocationError
  | OnStopBatching LocationError
  | OnUpdateBatchingOptions LocationError
  | OnGetBatchedLocations LocationError
  | OnAddGeofences "LocationError list" "u32 list"
  | OnRemoveGeofences "LocationError list" "u32 list"
  | OnModifyGeofences "LocationError list" "u32 list"
  | OnPauseGeofences "LocationError list" "u32 list"
  | OnResumeGeofences "LocationError list" "u32 list"
  | OnGnssNiResponse LocationError
  | OnGeofenceBreach GeofenceBreachType "u32 list"
  | OnBatchingStatus BatchingStatus "u32 list"

text \<open>
  The answers of the location API: whether it could be created, the session of a start call,
  and the array of sessions of \<open>addGeofences\<close>, which may be null.
\<close>

record api_world =
  api_created :: "(api_call, bool) world"
  api_session :: "(api_call, u32) world"
  api_sessions :: "(api_call, u32 list option) world"

record client =
  mLocationAPI :: bool
  mGeofenceBreachCallback :: bool
  mBatchingStatusCallback :: bool
  mRequestQueues :: "REQUEST_TYPE \<Rightarrow> request RequestQueue"
  mGeofenceBiDict :: "GeofenceBreachTypeMask bidict"
  mSessionBiDict :: "SessionEntity bidict"
  mBatchSize :: int
  mTracking :: bool
  api :: "api_call list"
  cbs :: "client_cb list"

definition client_new :: client where
  "client_new =
     \<lparr>mLocationAPI = False, mGeofenceBreachCallback = False, mBatchingStatusCallback = False,
      mRequestQueues = (\<lambda>_. rq_reset 0 rq_new), mGeofenceBiDict = bd_new, mSessionBiDict = bd_new,
      mBatchSize = -1, mTracking = False, api = [], cbs = []\<rparr>"

definition queue_upd ::
  "REQUEST_TYPE \<Rightarrow> (request RequestQueue \<Rightarrow> request RequestQueue) \<Rightarrow> client \<Rightarrow> client" where
  "queue_upd t f c = c\<lparr>mRequestQueues := (mRequestQueues c)(t := f (mRequestQueues c t))\<rparr>"

definition api_do :: "api_call \<Rightarrow> client \<Rightarrow> client" where
  "api_do x c = c\<lparr>api := api c @ [x]\<rparr>"

definition say :: "client_cb \<Rightarrow> client \<Rightarrow> client" where
  "say x c = c\<lparr>cbs := cbs c @ [x]\<rparr>"

definition queue_session :: "client \<Rightarrow> REQUEST_TYPE \<Rightarrow> u32" where
  "queue_session c t = rq_session (mRequestQueues c t)"

text \<open>
  The arguments tell which of the two optional callbacks the user's struct holds.
\<close>

definition locAPISetCallbacks :: "api_world \<Rightarrow> bool \<Rightarrow> bool \<Rightarrow> client \<Rightarrow> client" where
  "locAPISetCallbacks w breachCb statusCb c =
     (let c1 = (if breachCb then c\<lparr>mGeofenceBreachCallback := True\<rparr> else c);
          c2 = (if statusCb then c1\<lparr>mBatchingStatusCallback := True\<rparr> else c1)
      in if \<not> mLocationAPI c2 then
           (api_do A_createInstance c2)\<lparr>mLocationAPI := api_created w (api c2) A_createInstance\<rparr>
         else api_do A_updateCallbacks c2)"

definition client_destroy :: "client \<Rightarrow> client" where
  "client_destroy c =
     (let c1 = c\<lparr>mGeofenceBreachCallback := False\<rparr>;
          c2 = (if mLocationAPI c1 then (api_do A_destroy c1)\<lparr>mLocationAPI := False\<rparr> else c1)
      in c2\<lparr>mRequestQueues := (\<lambda>t. rq_reset 0 (mRequestQueues c2 t))\<rparr>)"

subsection \<open>Tracking\<close>

definition locAPIStartTracking ::
  "api_world \<Rightarrow> LocationOptions \<Rightarrow> client \<Rightarrow> LocationError \<times> client" where
  "locAPIStartTracking w options c =
     (if mLocationAPI c then
        if mTracking c then (LOCATION_ERROR_SUCCESS, c)
        else
          let x = A_startTracking options;
              session = api_session w (api c) x;
              c1 = api_do x c;
              c2 = queue_upd REQUEST_TRACKING (rq_reset session) c1;
              c3 = queue_upd REQUEST_TRACKING (rq_push StartTrackingRequest) c2
          in (LOCATION_ERROR_SUCCESS, c3\<lparr>mTracking := True\<rparr>)
      else (LOCATION_ERROR_GENERAL_FAILURE, c))"

definition locAPIStopTracking :: "client \<Rightarrow> client" where
  "locAPIStopTracking c =
     (if mLocationAPI c then
        let session = queue_session c REQUEST_TRACKING
        in if session > 0 then
             (api_do (A_stopTracking session)
               (queue_upd REQUEST_TRACKING (rq_push StopTrackingRequest) c))\<lparr>mTracking := False\<rparr>
           else c
      else c)"

definition locAPIUpdateTrackingOptions :: "LocationOptions \<Rightarrow> client \<Rightarrow> client" where
  "locAPIUpdateTrackingOptions options c =
     (if mLocationAPI c then
        let session = queue_session c REQUEST_TRACKING
        in if session > 0 then
             api_do (A_updateTrackingOptions session options)
               (queue_upd REQUEST_TRACKING (rq_push UpdateTrackingOptionsRequest) c)
           else c
      else c)"

text \<open>
  The argument is what \<open>UTIL_READ_CONF\<close> leaves in \<open>mBatchSize\<close>, \<open>None\<close> where the configuration
  file has no entry.
\<close>

definition locAPIGetBatchSize :: "int option \<Rightarrow> client \<Rightarrow> int \<times> client" where
  "locAPIGetBatchSize conf c =
     (let c' =
        (if mBatchSize c = -1 then
           let n = (case conf of None \<Rightarrow> mBatchSize c | Some n \<Rightarrow> n)
           in c\<lparr>mBatchSize := (if n < 0 then 0 else n)\<rparr>
         else c)
      in (mBatchSize c', c'))"

subsection \<open>Tracking and batching sessions with ids\<close>

text \<open>
  The user passes a mode as a number; every number but the four of the enumeration takes the
  default branches, as \<open>SESSION_MODE_NONE\<close> does.
\<close>

fun batching_mode :: "SESSION_MODE \<Rightarrow> BatchingMode" where
  "batching_mode SESSION_MODE_ON_FULL = BATCHING_MODE_ROUTINE"
| "batching_mode SESSION_MODE_ON_TRIP_COMPLETED = BATCHING_MODE_TRIP"
| "batching_mode _ = BATCHING_MODE_NO_AUTO_REPORT"

definition locAPIStartSession ::
  "api_world \<Rightarrow> u32 \<Rightarrow> SESSION_MODE \<Rightarrow> LocationOptions \<Rightarrow> client \<Rightarrow> LocationError \<times> client" where
  "locAPIStartSession w i mode options c =
     (if mLocationAPI c then
        if bd_hasId i (mSessionBiDict c) then (LOCATION_ERROR_ALREADY_STARTED, c)
        else
          let (tracking, batching, c1) =
                (if mode = SESSION_MODE_ON_FIX then
                   let x = A_startTracking options;
                       s = api_session w (api c) x
                   in (s, 0, queue_upd REQUEST_SESSION (rq_push StartTrackingRequest) (api_do x c))
                 else
                   let x = A_startBatching options (batching_mode mode);
                       s = api_session w (api c) x
                   in (0, s, queue_upd REQUEST_SESSION (rq_push StartBatchingRequest)
                        (queue_upd REQUEST_SESSION (rq_setSession s) (api_do x c))));
              session = (if mode \<noteq> SESSION_MODE_ON_FIX then batching else tracking);
              entity = \<lparr>se_id = i, trackingSession = tracking, batchingSession = batching,
                        sessionMode = mode\<rparr>
          in (LOCATION_ERROR_SUCCESS,
              c1\<lparr>mSessionBiDict := bd_set i session entity (mSessionBiDict c1)\<rparr>)
      else (LOCATION_ERROR_GENERAL_FAILURE, c))"

definition locAPIStopSession :: "u32 \<Rightarrow> client \<Rightarrow> LocationError \<times> client" where
  "locAPIStopSession i c =
     (if mLocationAPI c then
        if bd_hasId i (mSessionBiDict c) then
          let (entity, d) = bd_getExtById SessionEntity_zero i (mSessionBiDict c);
              c1 = c\<lparr>mSessionBiDict := d\<rparr>
          in (LOCATION_ERROR_SUCCESS,
              if sessionMode entity = SESSION_MODE_ON_FIX
              then api_do (A_stopTracking (trackingSession entity))
                     (queue_upd REQUEST_SESSION (rq_push StopTrackingRequest) c1)
              else api_do (A_stopBatching (batchingSession entity))
                     (queue_upd REQUEST_SESSION (rq_push StopBatchingRequest) c1))
        else (LOCATION_ERROR_ID_UNKNOWN, c)
      else (LOCATION_ERROR_GENERAL_FAILURE, c))"

definition locAPIUpdateSessionOptions ::
  "api_world \<Rightarrow> u32 \<Rightarrow> SESSION_MODE \<Rightarrow> LocationOptions \<Rightarrow> client \<Rightarrow> LocationError \<times> client" where
  "locAPIUpdateSessionOptions w i mode options c =
     (if mLocationAPI c then
        if bd_hasId i (mSessionBiDict c) then
          let (entity, d) = bd_getExtById SessionEntity_zero i (mSessionBiDict c);
              c1 = c\<lparr>mSessionBiDict := d\<rparr>;
              (tracking, batching, c2) =
                (if mode = SESSION_MODE_ON_FIX then
                   let c2 = queue_upd REQUEST_SESSION (rq_push UpdateTrackingOptionsRequest) c1
                   in if sessionMode entity = SESSION_MODE_ON_FIX
                      then (trackingSession entity, batchingSession entity,
                            api_do (A_updateTrackingOptions (trackingSession entity) options) c2)
                      else
                        let c3 = api_do (A_stopBatching (batchingSession entity)) c2;
                            c4 = queue_upd REQUEST_SESSION (rq_setSession 0) c3;
                            x = A_startTracking options
                        in (api_session w (api c4) x, 0, api_do x c4)
                 else
                   let c2 = queue_upd REQUEST_SESSION (rq_push UpdateBatchingOptionsRequest) c1
                   in if sessionMode entity = SESSION_MODE_ON_FIX
                      then
                        let c3 = api_do (A_stopTracking (trackingSession entity)) c2;
                            x = A_startBatching options (batching_mode mode);
                            s = api_session w (api c3) x
                        in (0, s, queue_upd REQUEST_SESSION (rq_setSession s) (api_do x c3))
                      else (trackingSession entity, batchingSession entity,
                            api_do (A_updateBatchingOptions (batchingSession entity) options
                                      (batching_mode mode)) c2));
              session = (if mode \<noteq> SESSION_MODE_ON_FIX then batching else tracking);
              entity' = entity\<lparr>trackingSession := tracking, batchingSession := batching,
                               sessionMode := mode\<rparr>;
              d' = bd_set i session entity' (bd_rmById i (mSessionBiDict c2))
          in (LOCATION_ERROR_SUCCESS, c2\<lparr>mSessionBiDict := d'\<rparr>)
        else (LOCATION_ERROR_ID_UNKNOWN, c)
      else (LOCATION_ERROR_GENERAL_FAILURE, c))"

definition locAPIGetBatchedLocations :: "u32 \<Rightarrow> nat \<Rightarrow> client \<Rightarrow> LocationError \<times> client" where
  "locAPIGetBatchedLocations i n c =
     (if mLocationAPI c then
        if bd_hasId i (mSessionBiDict c) then
          let (entity, d) = bd_getExtById SessionEntity_zero i (mSessionBiDict c);
              c1 = c\<lparr>mSessionBiDict := d\<rparr>
          in if sessionMode entity \<noteq> SESSION_MODE_ON_FIX
             then (LOCATION_ERROR_SUCCESS,
                   api_do (A_getBatchedLocations (batchingSession entity) n)
                     (queue_upd REQUEST_SESSION (rq_push GetBatchedLocationsRequest) c1))
             else (LOCATION_ERROR_NOT_SUPPORTED, c1)
        else (LOCATION_ERROR_ID_UNKNOWN, c)
      else (LOCATION_ERROR_GENERAL_FAILURE, c))"

subsection \<open>Geofences\<close>

fun add_loop ::
  "u32 list \<Rightarrow> u32 list \<Rightarrow> GeofenceOption list \<Rightarrow> GeofenceBreachTypeMask bidict \<Rightarrow>
   GeofenceBreachTypeMask bidict" where
  "add_loop (i # ids) (s # sessions) (p # options) d =
     add_loop ids sessions options (bd_set i s (breachTypeMask p) d)"
| "add_loop _ _ _ d = d"

definition locAPIAddGeofences ::
  "api_world \<Rightarrow> u32 list \<Rightarrow> GeofenceOption list \<Rightarrow> ptr \<Rightarrow> client \<Rightarrow> LocationError \<times> client" where
  "locAPIAddGeofences w ids options data c =
     (if mLocationAPI c then
        let c1 = (if queue_session c REQUEST_GEOFENCE \<noteq> GEOFENCE_SESSION_ID
                  then queue_upd REQUEST_GEOFENCE (rq_reset GEOFENCE_SESSION_ID) c else c);
            x = A_addGeofences options data;
            sessions = api_sessions w (api c1) x;
            c2 = api_do x c1
        in case sessions of
             None \<Rightarrow> (LOCATION_ERROR_GENERAL_FAILURE, c2)
           | Some ss \<Rightarrow>
               let c3 = queue_upd REQUEST_GEOFENCE (rq_push AddGeofencesRequest) c2
               in (LOCATION_ERROR_SUCCESS,
                   c3\<lparr>mGeofenceBiDict := add_loop ids ss options (mGeofenceBiDict c3)\<rparr>)
      else (LOCATION_ERROR_GENERAL_FAILURE, c))"

text \<open>
  The loops over an array of ids compact the sessions they find into the front of the array
  \<open>sessions\<close>; an id without a session leaves no gap.
\<close>

fun remove_loop ::
  "u32 list \<Rightarrow> GeofenceBreachTypeMask bidict \<Rightarrow> GeofenceBreachTypeMask bidict \<Rightarrow>
   u32 list \<times> GeofenceBreachTypeMask bidict \<times> GeofenceBreachTypeMask bidict" where
  "remove_loop [] d r = ([], d, r)"
| "remove_loop (i # ids) d r =
     (let s = bd_getSession i d
      in if s > 0 then
           let x = bd_getExtBySession 0 s d;
               (ss, d', r') = remove_loop ids (bd_rmBySession s d) (bd_set i s x r)
           in (s # ss, d', r')
         else remove_loop ids d r)"

definition locAPIRemoveGeofences :: "bool \<Rightarrow> u32 list \<Rightarrow> client \<Rightarrow> client" where
  "locAPIRemoveGeofences mem ids c =
     (if mLocationAPI c \<and> mem then
        if queue_session c REQUEST_GEOFENCE = GEOFENCE_SESSION_ID then
          let (ss, d, r) = remove_loop ids (mGeofenceBiDict c) bd_new;
              c1 = c\<lparr>mGeofenceBiDict := d\<rparr>
          in if ss \<noteq> [] then
               api_do (A_removeGeofences ss)
                 (queue_upd REQUEST_GEOFENCE (rq_push (RemoveGeofencesRequest r)) c1)
             else c1
        else c
      else c)"

fun modify_loop ::
  "u32 list \<Rightarrow> GeofenceOption list \<Rightarrow> GeofenceBreachTypeMask bidict \<Rightarrow>
   u32 list \<times> GeofenceBreachTypeMask bidict" where
  "modify_loop (i # ids) (p # options) d =
     (let s = bd_getSession i d
      in if s > 0 then
           let (ss, d') = modify_loop ids options (bd_set i s (breachTypeMask p) d)
           in (s # ss, d')
         else modify_loop ids options d)"
| "modify_loop _ _ d = ([], d)"

definition locAPIModifyGeofences :: "bool \<Rightarrow> u32 list \<Rightarrow> GeofenceOption list \<Rightarrow> client \<Rightarrow> client" where
  "locAPIModifyGeofences mem ids options c =
     (if mLocationAPI c \<and> mem then
        if queue_session c REQUEST_GEOFENCE = GEOFENCE_SESSION_ID then
          let (ss, d) = modify_loop ids options (mGeofenceBiDict c);
              c1 = c\<lparr>mGeofenceBiDict := d\<rparr>
          in if ss \<noteq> [] then
               api_do (A_modifyGeofences ss options)
                 (queue_upd REQUEST_GEOFENCE (rq_push ModifyGeofencesRequest) c1)
             else c1
        else c
      else c)"

definition locAPIPauseGeofences :: "bool \<Rightarrow> u32 list \<Rightarrow> client \<Rightarrow> client" where
  "locAPIPauseGeofences mem ids c =
     (if mLocationAPI c \<and> mem then
        if queue_session c REQUEST_GEOFENCE = GEOFENCE_SESSION_ID then
          let ss = filter (\<lambda>s. s > 0) (map (\<lambda>i. bd_getSession i (mGeofenceBiDict c)) ids)
          in if ss \<noteq> [] then
               api_do (A_pauseGeofences ss)
                 (queue_upd REQUEST_GEOFENCE (rq_push PauseGeofencesRequest) c)
             else c
        else c
      else c)"

text \<open>
  \<open>masks\<close> may be the null pointer.
\<close>

fun resume_loop ::
  "u32 list \<Rightarrow> GeofenceBreachTypeMask list option \<Rightarrow> GeofenceBreachTypeMask bidict \<Rightarrow>
   u32 list \<times> GeofenceBreachTypeMask bidict" where
  "resume_loop [] masks d = ([], d)"
| "resume_loop (i # ids) masks d =
     (let s = bd_getSession i d
      in if s > 0 then
           let d1 = (case masks of Some (m # ms) \<Rightarrow> bd_set i s m d | _ \<Rightarrow> d);
               (ss, d') = resume_loop ids (map_option tl masks) d1
           in (s # ss, d')
         else resume_loop ids (map_option tl masks) d)"

definition locAPIResumeGeofences ::
  "bool \<Rightarrow> u32 list \<Rightarrow> GeofenceBreachTypeMask list option \<Rightarrow> client \<Rightarrow> client" where
  "locAPIResumeGeofences mem ids masks c =
     (if mLocationAPI c \<and> mem then
        if queue_session c REQUEST_GEOFENCE = GEOFENCE_SESSION_ID then
          let (ss, d) = resume_loop ids masks (mGeofenceBiDict c);
              c1 = c\<lparr>mGeofenceBiDict := d\<rparr>
          in if ss \<noteq> [] then
               api_do (A_resumeGeofences ss)
                 (queue_upd REQUEST_GEOFENCE (rq_push ResumeGeofencesRequest) c1)
             else c1
        else c
      else c)"

definition locAPIRemoveAllGeofences :: "bool \<Rightarrow> client \<Rightarrow> client" where
  "locAPIRemoveAllGeofences mem c =
     (let sessionsVec = bd_getAllSessions (mGeofenceBiDict c)
      in locAPIRemoveGeofences mem sessionsVec c)"

definition locAPIGnssNiResponse :: "u32 \<Rightarrow> GnssNiResponse \<Rightarrow> client \<Rightarrow> client" where
  "locAPIGnssNiResponse i response c =
     (if mLocationAPI c then
        let c1 = api_do (A_gnssNiResponse i response) c;
            c2 = queue_upd REQUEST_NIRESPONSE (rq_reset i) c1
        in queue_upd REQUEST_NIRESPONSE (rq_push GnssNiResponseRequest) c2
      else c)"

subsection \<open>Callbacks of the location API\<close>

definition breach_wanted :: "GeofenceBreachType \<Rightarrow> GeofenceBreachTypeMask \<Rightarrow> bool" where
  "breach_wanted ntype m \<longleftrightarrow>
     (ntype = GEOFENCE_BREACH_ENTER \<and> and m GEOFENCE_BREACH_ENTER_BIT \<noteq> 0) \<or>
     (ntype = GEOFENCE_BREACH_EXIT \<and> and m GEOFENCE_BREACH_EXIT_BIT \<noteq> 0)"

fun breach_loop ::
  "GeofenceBreachType \<Rightarrow> GeofenceBreachTypeMask bidict \<Rightarrow> u32 list \<Rightarrow> u32 list" where
  "breach_loop ntype d [] = []"
| "breach_loop ntype d (s # ss) =
     (let i = bd_getId s d; m = bd_getExtBySession 0 s d
      in if breach_wanted ntype m then i # breach_loop ntype d ss else breach_loop ntype d ss)"

definition beforeGeofenceBreachCb ::
  "bool \<Rightarrow> GeofenceBreachType \<Rightarrow> u32 list \<Rightarrow> client \<Rightarrow> client" where
  "beforeGeofenceBreachCb mem ntype ids c =
     (if \<not> mem then c
      else if mGeofenceBreachCallback c
      then say (OnGeofenceBreach ntype (breach_loop ntype (mGeofenceBiDict c) ids)) c
      else c)"

fun trip_loop :: "u32 list \<Rightarrow> SessionEntity bidict \<Rightarrow> u32 list \<times> SessionEntity bidict" where
  "trip_loop [] d = ([], d)"
| "trip_loop (s # ss) d =
     (if bd_hasSession s d then
        let e = bd_getExtBySession SessionEntity_zero s d
        in if sessionMode e = SESSION_MODE_ON_TRIP_COMPLETED
           then (let (is, d') = trip_loop ss (bd_rmBySession s d) in (se_id e # is, d'))
           else trip_loop ss d
      else trip_loop ss d)"

definition beforeBatchingStatusCb :: "BatchingStatus \<Rightarrow> u32 list \<Rightarrow> client \<Rightarrow> client" where
  "beforeBatchingStatusCb status tripCompletedList c =
     (let (is, d) = (if status = BATCHING_STATUS_TRIP_COMPLETED
                     then trip_loop tripCompletedList (mSessionBiDict c)
                     else ([], mSessionBiDict c))
      in say (OnBatchingStatus status is) (c\<lparr>mSessionBiDict := d\<rparr>))"

definition removeSession :: "u32 \<Rightarrow> client \<Rightarrow> client" where
  "removeSession s c =
     (if bd_hasSession s (mSessionBiDict c)
      then c\<lparr>mSessionBiDict := bd_rmBySession s (mSessionBiDict c)\<rparr> else c)"

definition getRequestBySession :: "u32 \<Rightarrow> client \<Rightarrow> request option \<times> client" where
  "getRequestBySession session c =
     (let (request, c1) =
        (case find (\<lambda>i. i \<noteq> REQUEST_GEOFENCE \<and> i \<noteq> REQUEST_SESSION \<and>
                       rq_session (mRequestQueues c i) = session) enum_class.enum of
           None \<Rightarrow> (None, c)
         | Some i \<Rightarrow> let (r, q) = rq_pop (mRequestQueues c i) in (r, queue_upd i (\<lambda>_. q) c))
      in case request of
           Some r \<Rightarrow> (Some r, c1)
         | None \<Rightarrow>
             if bd_hasSession session (mSessionBiDict c1)
             then let (r, q) = rq_pop (mRequestQueues c1 REQUEST_SESSION)
                  in (r, queue_upd REQUEST_SESSION (\<lambda>_. q) c1)
             else (None, c1))"

fun onResponse :: "request \<Rightarrow> LocationError \<Rightarrow> u32 \<Rightarrow> client \<Rightarrow> client" where
  "onResponse StartTrackingRequest e i c =
     say (OnStartTracking e) (if e \<noteq> LOCATION_ERROR_SUCCESS then removeSession i c else c)"
| "onResponse StopTrackingRequest e i c =
     (let c1 = say (OnStopTracking e) c
      in if e = LOCATION_ERROR_SUCCESS then removeSession i c1 else c1)"
| "onResponse UpdateTrackingOptionsRequest e i c = say (OnUpdateTrackingOptions e) c"
| "onResponse StartBatchingRequest e i c =
     say (OnStartBatching e) (if e \<noteq> LOCATION_ERROR_SUCCESS then removeSession i c else c)"
| "onResponse StopBatchingRequest e i c =
     (let c1 = say (OnStopBatching e) c
      in if e = LOCATION_ERROR_SUCCESS then removeSession i c1 else c1)"
| "onResponse UpdateBatchingOptionsRequest e i c = say (OnUpdateBatchingOptions e) c"
| "onResponse GetBatchedLocationsRequest e i c = say (OnGetBatchedLocations e) c"
| "onResponse GnssNiResponseRequest e i c = say (OnGnssNiResponse e) c"
| "onResponse _ e i c = c"

text \<open>
  \<open>None\<close> is a write through a null pointer: these handlers use the array \<open>ids\<close> without a check
  that \<open>malloc\<close> gave one.
\<close>

definition geofence_ids ::
  "bool \<Rightarrow> 'a bidict \<Rightarrow> u32 list \<Rightarrow> u32 list option" where
  "geofence_ids mem d sessions =
     (if mem \<or> sessions = [] then Some (map (\<lambda>s. bd_getId s d) sessions) else None)"

fun onCollectiveResponse ::
  "bool \<Rightarrow> request \<Rightarrow> LocationError list \<Rightarrow> u32 list \<Rightarrow> client \<Rightarrow> client option" where
  "onCollectiveResponse mem AddGeofencesRequest errs sessions c =
     map_option (\<lambda>ids. say (OnAddGeofences errs ids) c) (geofence_ids mem (mGeofenceBiDict c) sessions)"
| "onCollectiveResponse mem (RemoveGeofencesRequest r) errs sessions c =
     map_option (\<lambda>ids. say (OnRemoveGeofences errs ids) c) (geofence_ids mem r sessions)"
| "onCollectiveResponse mem ModifyGeofencesRequest errs sessions c =
     map_option (\<lambda>ids. say (OnModifyGeofences errs ids) c) (geofence_ids mem (mGeofenceBiDict c) sessions)"
| "onCollectiveResponse mem PauseGeofencesRequest errs sessions c =
     map_option (\<lambda>ids. say (OnPauseGeofences errs ids) c) (geofence_ids mem (mGeofenceBiDict c) sessions)"
| "onCollectiveResponse mem ResumeGeofencesRequest errs sessions c =
     map_option (\<lambda>ids. say (OnResumeGeofences errs ids) c) (geofence_ids mem (mGeofenceBiDict c) sessions)"
| "onCollectiveResponse mem _ errs sessions c = Some c"

definition onResponseCb :: "LocationError \<Rightarrow> u32 \<Rightarrow> client \<Rightarrow> client" where
  "onResponseCb e i c =
     (let (request, c1) = getRequestBySession i c
      in case request of None \<Rightarrow> c1 | Some r \<Rightarrow> onResponse r e i c1)"

definition onCollectiveResponseCb ::
  "bool \<Rightarrow> LocationError list \<Rightarrow> u32 list \<Rightarrow> client \<Rightarrow> client option" where
  "onCollectiveResponseCb mem errs ids c =
     (let (request, c1) =
        (if queue_session c REQUEST_GEOFENCE = GEOFENCE_SESSION_ID then
           let (r, q) = rq_pop (mRequestQueues c REQUEST_GEOFENCE)
           in (r, queue_upd REQUEST_GEOFENCE (\<lambda>_. q) c)
         else (None, c))
      in case request of None \<Rightarrow> Some c1 | Some r \<Rightarrow> onCollectiveResponse mem r errs ids c1)"

section \<open>Runs\<close>

datatype client_event =
    SetCallbacks bool bool
  | StartTracking LocationOptions
  | StopTracking
  | UpdateTracking LocationOptions
  | StartSession u32 SESSION_MODE LocationOptions
  | StopSession u32
  | UpdateSession u32 SESSION_MODE LocationOptions
  | GetBatched u32 nat
  | AddGeofences "u32 list" "GeofenceOption list" ptr
  | RemoveGeofences bool "u32 list"
  | ModifyGeofences bool "u32 list" "GeofenceOption list"
  | PauseGeofences bool "u32 list"
  | ResumeGeofences bool "u32 list" "GeofenceBreachTypeMask list option"
  | RemoveAllGeofences bool
  | NiResponse u32 GnssNiResponse
  | Response LocationError u32
  | Collective bool "LocationError list" "u32 list"
  | Breach bool GeofenceBreachType "u32 list"
  | Batching_Status BatchingStatus "u32 list"

fun client_step :: "api_world \<Rightarrow> client_event \<Rightarrow> client \<Rightarrow> client option" where
  "client_step w (SetCallbacks b s) c = Some (locAPISetCallbacks w b s c)"
| "client_step w (StartTracking p) c = Some (snd (locAPIStartTracking w p c))"
| "client_step w StopTracking c = Some (locAPIStopTracking c)"
| "client_step w (UpdateTracking p) c = Some (locAPIUpdateTrackingOptions p c)"
| "client_step w (StartSession i m p) c = Some (snd (locAPIStartSession w i m p c))"
| "client_step w (StopSession i) c = Some (snd (locAPIStopSession i c))"
| "client_step w (UpdateSession i m p) c = Some (snd (locAPIUpdateSessionOptions w i m p c))"
| "client_step w (GetBatched i n) c = Some (snd (locAPIGetBatchedLocations i n c))"
| "client_step w (AddGeofences is ps d) c = Some (snd (locAPIAddGeofences w is ps d c))"
| "client_step w (RemoveGeofences mem is) c = Some (locAPIRemoveGeofences mem is c)"
| "client_step w (ModifyGeofences mem is ps) c = Some (locAPIModifyGeofences mem is ps c)"
| "client_step w (PauseGeofences mem is) c = Some (locAPIPauseGeofences mem is c)"
| "client_step w (ResumeGeofences mem is ms) c = Some (locAPIResumeGeofences mem is ms c)"
| "client_step w (RemoveAllGeofences mem) c = Some (locAPIRemoveAllGeofences mem c)"
| "client_step w (NiResponse i r) c = Some (locAPIGnssNiResponse i r c)"
| "client_step w (Response e i) c = Some (onResponseCb e i c)"
| "client_step w (Collective mem es is) c = onCollectiveResponseCb mem es is c"
| "client_step w (Breach mem t is) c = Some (beforeGeofenceBreachCb mem t is c)"
| "client_step w (Batching_Status s ss) c = Some (beforeBatchingStatusCb s ss c)"

fun client_run :: "api_world \<Rightarrow> client_event list \<Rightarrow> client \<Rightarrow> client option" where
  "client_run w [] c = Some c"
| "client_run w (ev # evs) c = Option.bind (client_step w ev c) (client_run w evs)"

end
