(* ===== verification/Client_Proofs.thy ===== *)
theory Client_Proofs
  imports Client_Base "HOL-Library.Sublist"
begin

text \<open>
  What holds of the location API client: its dictionary of sessions stays in step over every
  run, geofence ids survive the way to the API and back, which response reaches which request,
  and the control client's protocol of enable and disable.
\<close>

section \<open>Accessors\<close>

lemma queue_upd_simps [simp]:
  "mSessionBiDict (queue_upd t f c) = mSessionBiDict c"
  "mGeofenceBiDict (queue_upd t f c) = mGeofenceBiDict c"
  "api (queue_upd t f c) = api c"
  "cbs (queue_upd t f c) = cbs c"
  "mLocationAPI (queue_upd t f c) = mLocationAPI c"
  "mGeofenceBreachCallback (queue_upd t f c) = mGeofenceBreachCallback c"
  "mTracking (queue_upd t f c) = mTracking c"
  "mRequestQueues (queue_upd t f c) = (mRequestQueues c)(t := f (mRequestQueues c t))"
  by (simp_all add: queue_upd_def)

lemma api_do_simps [simp]:
  "mSessionBiDict (api_do x c) = mSessionBiDict c"
  "mGeofenceBiDict (api_do x c) = mGeofenceBiDict c"
  "api (api_do x c) = api c @ [x]"
  "cbs (api_do x c) = cbs c"
  "mLocationAPI (api_do x c) = mLocationAPI c"
  "mGeofenceBreachCallback (api_do x c) = mGeofenceBreachCallback c"
  "mTracking (api_do x c) = mTracking c"
  "mRequestQueues (api_do x c) = mRequestQueues c"
  by (simp_all add: api_do_def)

lemma say_simps [simp]:
  "mSessionBiDict (say x c) = mSessionBiDict c"
  "mGeofenceBiDict (say x c) = mGeofenceBiDict c"
  "api (say x c) = api c"
  "cbs (say x c) = cbs c @ [x]"
  "mLocationAPI (say x c) = mLocationAPI c"
  "mGeofenceBreachCallback (say x c) = mGeofenceBreachCallback c"
  "mTracking (say x c) = mTracking c"
  "mRequestQueues (say x c) = mRequestQueues c"
  by (simp_all add: say_def)

lemma rq_simps [simp]:
  "rq_session (rq_push r q) = rq_session q" "rq_queue (rq_push r q) = rq_queue q @ [r]"
  "rq_session (rq_reset s q) = s" "rq_queue (rq_reset s q) = []"
  "rq_session (rq_setSession s q) = s" "rq_queue (rq_setSession s q) = rq_queue q"
  by (simp_all add: rq_push_def rq_reset_def rq_setSession_def)

lemma rq_pop_cases:
  obtains "rq_queue q = []" "rq_pop q = (None, q)"
  | r rs where "rq_queue q = r # rs" "rq_pop q = (Some r, q\<lparr>rq_queue := rs\<rparr>)"
  by (cases "rq_queue q") (auto simp: rq_pop_def)

section \<open>The dictionary of sessions over a run\<close>

text \<open>
  The sessions the API has answered to the start calls of a log, in order. The documented
  behaviour of \<open>LocationAPI\<close> is that a session is not 0 and is handed out once.
\<close>

fun is_start :: "api_call \<Rightarrow> bool" where
  "is_start (A_startTracking _) = True"
| "is_start (A_startBatching _ _) = True"
| "is_start _ = False"

definition issued :: "api_world \<Rightarrow> api_call list \<Rightarrow> u32 list" where
  "issued w log = map (\<lambda>k. api_session w (take k log) (log ! k))
     (filter (\<lambda>k. is_start (log ! k)) [0..<length log])"

definition fresh_log :: "api_world \<Rightarrow> api_call list \<Rightarrow> bool" where
  "fresh_log w log \<longleftrightarrow> distinct (issued w log) \<and> 0 \<notin> set (issued w log)"

lemma issued_snoc:
  "issued w (log @ [x]) = issued w log @ (if is_start x then [api_session w log x] else [])"
proof -
  have "filter (\<lambda>k. is_start ((log @ [x]) ! k)) [0..<length log] = filter (\<lambda>k. is_start (log ! k)) [0..<length log]"
    by (rule filter_cong) (auto simp: nth_append)
  then show ?thesis
    by (auto simp: issued_def nth_append)
qed

lemma issued_prefix: "prefix log log' \<Longrightarrow> prefix (issued w log) (issued w log')"
proof (induction log' rule: rev_induct)
  case (snoc x log')
  then show ?case
    by (cases "prefix log log'") (auto simp: issued_snoc prefix_snoc)
qed simp

lemma fresh_log_prefix: "prefix log log' \<Longrightarrow> fresh_log w log' \<Longrightarrow> fresh_log w log"
  using issued_prefix[of log log' w] by (auto simp: fresh_log_def prefix_def)

text \<open>
  An entry of the dictionary is the session that was started for the id, in the mode the entry
  says; \<open>client_ok\<close> says so of every entry.
\<close>

definition entity_ok :: "u32 \<Rightarrow> u32 \<Rightarrow> SessionEntity \<Rightarrow> bool" where
  "entity_ok i s x \<longleftrightarrow> se_id x = i \<and>
     (if sessionMode x = SESSION_MODE_ON_FIX then trackingSession x = s \<and> batchingSession x = 0
      else batchingSession x = s \<and> trackingSession x = 0)"

definition client_ok :: "api_world \<Rightarrow> client \<Rightarrow> bool" where
  "client_ok w c \<longleftrightarrow> bidict_ok (mSessionBiDict c) \<and>
     (\<forall>s i x. bd_entry (mSessionBiDict c) s = Some (i, x) \<longrightarrow>
        s \<in> set (issued w (api c)) \<and> entity_ok i s x)"

text \<open>
  A step that only drops sessions and only extends the log.
\<close>

definition below :: "client \<Rightarrow> client \<Rightarrow> bool" where
  "below c c' \<longleftrightarrow> prefix (api c) (api c') \<and>
     (bidict_ok (mSessionBiDict c) \<longrightarrow> bidict_ok (mSessionBiDict c') \<and>
        bd_entry (mSessionBiDict c') \<subseteq>\<^sub>m bd_entry (mSessionBiDict c))"

lemma below_refl [simp]: "below c c"
  by (simp add: below_def)

lemma below_trans: "below c c' \<Longrightarrow> below c' c'' \<Longrightarrow> below c c''"
  unfolding below_def by (meson map_le_trans prefix_order.trans)

lemma below_same:
  "prefix (api c) (api c') \<Longrightarrow> mSessionBiDict c' = mSessionBiDict c \<Longrightarrow> below c c'"
  by (simp add: below_def)

lemma client_ok_below: "client_ok w c \<Longrightarrow> below c c' \<Longrightarrow> client_ok w c'"
  unfolding client_ok_def below_def map_le_def
  by (metis (no_types, lifting) domI issued_prefix set_mono_prefix subsetD)

lemma below_removeSession [simp]: "below c (removeSession s c)"
  by (auto simp: below_def removeSession_def bidict_ok_rmBySession bd_entry_rmBySession map_le_def)

lemma below_onResponse: "below c (onResponse r e i c)"
proof -
  have b: "below c' (say x c')" for x c'
    by (rule below_same) simp_all
  show ?thesis
    by (cases "(r, e, i, c)" rule: onResponse.cases)
      (auto simp: Let_def b intro: below_trans[OF below_removeSession b] below_trans[OF b below_removeSession])
qed

lemma getRequestBySession_frame:
  "api (snd (getRequestBySession s c)) = api c \<and> cbs (snd (getRequestBySession s c)) = cbs c \<and>
   mSessionBiDict (snd (getRequestBySession s c)) = mSessionBiDict c \<and>
   mGeofenceBiDict (snd (getRequestBySession s c)) = mGeofenceBiDict c"
  by (auto simp: getRequestBySession_def Let_def case_prod_beta split: option.split)

lemma below_onResponseCb: "below c (onResponseCb e i c)"
proof -
  obtain r c1 where g: "getRequestBySession i c = (r, c1)" by fastforce
  then have "below c c1"
    using getRequestBySession_frame[of i c] by (auto intro: below_same)
  then show ?thesis
    by (auto simp: onResponseCb_def g split: option.split intro: below_trans below_onResponse)
qed

lemma trip_loop_below:
  "bidict_ok d \<Longrightarrow> trip_loop ss d = (is, d') \<Longrightarrow> bidict_ok d' \<and> bd_entry d' \<subseteq>\<^sub>m bd_entry d"
proof (induction ss arbitrary: d "is")
  case (Cons s ss)
  show ?case
  proof (cases "bd_hasSession s d \<and> sessionMode (bd_getExtBySession SessionEntity_zero s d) = SESSION_MODE_ON_TRIP_COMPLETED")
    case True
    obtain is1 where t: "trip_loop ss (bd_rmBySession s d) = (is1, d')"
      using Cons.prems(2) True by (auto simp: Let_def split: prod.splits)
    have d1: "bidict_ok (bd_rmBySession s d)" using True Cons.prems(1) by (simp add: bidict_ok_rmBySession)
    have "bd_entry (bd_rmBySession s d) \<subseteq>\<^sub>m bd_entry d"
      using Cons.prems(1) by (simp add: bd_entry_rmBySession map_le_def)
    then show ?thesis
      using Cons.IH[OF d1 t] by (auto intro: map_le_trans)
  next
    case False
    then show ?thesis
      using Cons.prems Cons.IH[OF Cons.prems(1)] by (auto simp: Let_def split: if_splits)
  qed
qed simp

lemma below_batching_status: "below c (beforeBatchingStatusCb st ss c)"
  using trip_loop_below[of "mSessionBiDict c" ss]
  by (cases "trip_loop ss (mSessionBiDict c)")
    (auto simp: below_def beforeBatchingStatusCb_def)

text \<open>
  The operations that start a session add an entry for it.
\<close>

lemma client_ok_add:
  assumes c: "client_ok w c" and i: "\<not> bd_hasId i (mSessionBiDict c)"
    and api': "api c' = api c @ xs" and s: "s \<in> set (issued w (api c'))" "s \<notin> set (issued w (api c))"
    and x: "entity_ok i s x"
    and d: "mSessionBiDict c' = bd_set i s x (mSessionBiDict c)"
  shows "client_ok w c'"
proof -
  have ok: "bidict_ok (mSessionBiDict c)" using c by (simp add: client_ok_def)
  have "bd_entry (mSessionBiDict c) s = None"
    using c s(2) by (cases "bd_entry (mSessionBiDict c) s") (auto simp: client_ok_def)
  then have ns: "\<not> bd_hasSession s (mSessionBiDict c)" using ok by (simp add: bd_entry_None)
  have sub: "set (issued w (api c)) \<subseteq> set (issued w (api c'))"
    using issued_prefix[of "api c" "api c'" w] api' by (simp add: set_mono_prefix)
  show ?thesis
    unfolding client_ok_def d
    using c x s(1) sub ok i ns
    by (auto simp: bidict_ok_set bd_entry_set client_ok_def split: if_splits)
qed

lemma fresh_snoc:
  "fresh_log w (log @ [x]) \<Longrightarrow> is_start x \<Longrightarrow> api_session w log x \<notin> set (issued w log)"
  by (auto simp: fresh_log_def issued_snoc)

lemma start_session_ok:
  assumes c: "client_ok w c" and f: "fresh_log w (api (snd (locAPIStartSession w i m p c)))"
  shows "client_ok w (snd (locAPIStartSession w i m p c))"
proof (cases "mLocationAPI c \<and> \<not> bd_hasId i (mSessionBiDict c)")
  case False
  then show ?thesis using c by (auto simp: locAPIStartSession_def)
next
  case True
  let ?x = "if m = SESSION_MODE_ON_FIX then A_startTracking p else A_startBatching p (batching_mode m)"
  let ?s = "api_session w (api c) ?x"
  let ?e = "\<lparr>se_id = i, trackingSession = (if m = SESSION_MODE_ON_FIX then ?s else 0),
             batchingSession = (if m = SESSION_MODE_ON_FIX then 0 else ?s), sessionMode = m\<rparr>"
  let ?c = "snd (locAPIStartSession w i m p c)"
  have a: "api ?c = api c @ [?x]"
    and d: "mSessionBiDict ?c = bd_set i ?s ?e (mSessionBiDict c)"
    using True by (auto simp: locAPIStartSession_def Let_def)
  have st: "is_start ?x" by simp
  have n: "?s \<notin> set (issued w (api c))"
    using fresh_snoc[OF _ st, of w "api c"] f by (simp add: a)
  show ?thesis
    by (rule client_ok_add[OF c _ a _ n _ d])
      (use True in \<open>auto simp: a issued_snoc entity_ok_def\<close>)
qed

lemma known_entity:
  assumes c: "client_ok w c" and f: "fresh_log w (api c)" and i: "bd_hasId i (mSessionBiDict c)"
  obtains s x where "bd_entry (mSessionBiDict c) s = Some (i, x)" "entity_ok i s x" "s \<noteq> 0"
    "bd_getExtById SessionEntity_zero i (mSessionBiDict c) = (x, mSessionBiDict c)"
    "s \<in> set (issued w (api c))"
proof -
  have ok: "bidict_ok (mSessionBiDict c)" using c by (simp add: client_ok_def)
  obtain s x where e: "bd_entry (mSessionBiDict c) s = Some (i, x)"
    using bd_entry_hasId[OF ok, of i] i by auto
  have s: "s \<in> set (issued w (api c))" "entity_ok i s x"
    using c e by (auto simp: client_ok_def)
  then have "s \<noteq> 0" using f by (auto simp: fresh_log_def)
  then show ?thesis
    using that[OF e] s bd_getExtById_known[OF ok e] by blast
qed

lemma update_session_ok:
  assumes c: "client_ok w c" and f: "fresh_log w (api (snd (locAPIUpdateSessionOptions w i m p c)))"
    and fc: "fresh_log w (api c)"
  shows "client_ok w (snd (locAPIUpdateSessionOptions w i m p c))"
proof (cases "mLocationAPI c \<and> bd_hasId i (mSessionBiDict c)")
  case False
  then show ?thesis using c by (auto simp: locAPIUpdateSessionOptions_def)
next
  case True
  have ok: "bidict_ok (mSessionBiDict c)" using c by (simp add: client_ok_def)
  obtain s x where e: "bd_entry (mSessionBiDict c) s = Some (i, x)" and x: "entity_ok i s x"
    and g: "bd_getExtById SessionEntity_zero i (mSessionBiDict c) = (x, mSessionBiDict c)"
    and s: "s \<in> set (issued w (api c))"
    using known_entity[OF c fc] True by metis
  let ?c = "snd (locAPIUpdateSessionOptions w i m p c)"
  let ?d = "bd_rmBySession s (mSessionBiDict c)"
  have rm: "bd_rmById i (mSessionBiDict c) = ?d" using bd_rmById_known[OF ok e] .
  have hs: "bd_hasSession s (mSessionBiDict c)" using bd_entry_get(5)[OF ok e] .
  let ?cr = "c\<lparr>mSessionBiDict := ?d\<rparr>"
  have c0: "client_ok w ?cr"
    by (rule client_ok_below[OF c]) (simp add: below_def bidict_ok_rmBySession hs bd_entry_rmBySession map_le_def)
  have i0: "\<not> bd_hasId i (mSessionBiDict ?cr)"
    using bd_entry_hasId[of ?d i] bidict_ok_rmBySession[OF ok hs] bd_entry_inj[OF ok e]
    by (auto simp: bd_entry_rmBySession[OF ok] split: if_splits)
  show ?thesis
  proof (cases "(m = SESSION_MODE_ON_FIX) = (sessionMode x = SESSION_MODE_ON_FIX)")
    case True
    let ?y = "if m = SESSION_MODE_ON_FIX then A_updateTrackingOptions (trackingSession x) p
              else A_updateBatchingOptions (batchingSession x) p (batching_mode m)"
    have a: "api ?c = api c @ [?y]"
      using \<open>mLocationAPI c \<and> bd_hasId i (mSessionBiDict c)\<close> True
      by (cases "m = SESSION_MODE_ON_FIX") (simp_all add: locAPIUpdateSessionOptions_def Let_def g)
    have ns: "\<not> is_start ?y" by simp
    let ?x = "x\<lparr>sessionMode := m\<rparr>"
    have d: "mSessionBiDict ?c = bd_set i s ?x ?d"
      using \<open>mLocationAPI c \<and> bd_hasId i (mSessionBiDict c)\<close> True x
      by (cases x) (auto simp: locAPIUpdateSessionOptions_def Let_def g rm entity_ok_def split: if_splits)
    have d0: "bidict_ok ?d" "bd_entry ?d s = None"
      using bidict_ok_rmBySession[OF ok hs] by (auto simp: bd_entry_rmBySession[OF ok])
    have "entity_ok i s ?x" using x True by (auto simp: entity_ok_def)
    moreover have "\<not> bd_hasSession s ?d" using d0 by (simp add: bd_entry_None)
    ultimately show ?thesis
      using c0 i0 s d0 a ns
      by (auto simp: client_ok_def d issued_snoc bidict_ok_set bd_entry_set split: if_splits)
  next
    case False
    let ?stop = "if m = SESSION_MODE_ON_FIX then A_stopBatching s else A_stopTracking s"
    let ?y = "if m = SESSION_MODE_ON_FIX then A_startTracking p else A_startBatching p (batching_mode m)"
    let ?s = "api_session w (api c @ [?stop]) ?y"
    let ?x = "x\<lparr>trackingSession := (if m = SESSION_MODE_ON_FIX then ?s else 0),
               batchingSession := (if m = SESSION_MODE_ON_FIX then 0 else ?s), sessionMode := m\<rparr>"
    have a: "api ?c = api ?cr @ [?stop, ?y]"
      using \<open>mLocationAPI c \<and> bd_hasId i (mSessionBiDict c)\<close> False x
      by (auto simp: locAPIUpdateSessionOptions_def Let_def g entity_ok_def)
    have d: "mSessionBiDict ?c = bd_set i ?s ?x (mSessionBiDict ?cr)"
      using \<open>mLocationAPI c \<and> bd_hasId i (mSessionBiDict c)\<close> False x
      by (auto simp: locAPIUpdateSessionOptions_def Let_def g rm entity_ok_def)
    have ns: "\<not> is_start ?stop" and st: "is_start ?y" by simp_all
    have "?s \<notin> set (issued w (api c @ [?stop]))"
      using fresh_snoc[OF _ st, of w "api c @ [?stop]"] f by (simp add: a)
    then have n: "?s \<notin> set (issued w (api ?cr))" using ns by (simp add: issued_snoc)
    have m: "?s \<in> set (issued w (api ?c))"
      using issued_snoc[of w "api c @ [?stop]" ?y] st by (simp add: a)
    have x': "entity_ok i ?s ?x" using x by (auto simp: entity_ok_def)
    show ?thesis by (rule client_ok_add[OF c0 i0 a m n x' d])
  qed
qed

text \<open>
  Every other operation keeps the dictionary or drops sessions from it.
\<close>

lemma below_geofences:
  "below c (locAPIRemoveGeofences mem is c)"
  "below c (locAPIModifyGeofences mem is ps c)"
  "below c (locAPIPauseGeofences mem is c)"
  "below c (locAPIResumeGeofences mem is ms c)"
  "below c (snd (locAPIAddGeofences w is ps d c))"
  by (rule below_same;
      auto simp: locAPIRemoveGeofences_def locAPIModifyGeofences_def locAPIPauseGeofences_def
        locAPIResumeGeofences_def locAPIAddGeofences_def Let_def case_prod_beta split: option.split)+

lemma below_others:
  "below c (locAPISetCallbacks w b sb c)"
  "below c (snd (locAPIStartTracking w p c))"
  "below c (locAPIStopTracking c)"
  "below c (locAPIUpdateTrackingOptions p c)"
  "below c (locAPIGnssNiResponse i r c)"
  "below c (beforeGeofenceBreachCb mem t is c)"
  by (rule below_same;
      auto simp: locAPISetCallbacks_def locAPIStartTracking_def locAPIStopTracking_def
        locAPIUpdateTrackingOptions_def locAPIGnssNiResponse_def beforeGeofenceBreachCb_def Let_def)+

lemma below_collective:
  assumes "onCollectiveResponseCb mem es is c = Some c'"
  shows "below c c'"
proof -
  have "mSessionBiDict c' = mSessionBiDict c \<and> api c' = api c"
    if "onCollectiveResponse mem r es is c = Some c'" for r c
    using that by (cases "(mem, r, es, is, c)" rule: onCollectiveResponse.cases) auto
  then show ?thesis
    using assms
    by (auto simp: onCollectiveResponseCb_def case_prod_beta split: option.splits if_splits
        intro!: below_same)
qed

lemma below_known:
  assumes c: "client_ok w c" and f: "fresh_log w (api c)"
  shows "below c (snd (locAPIStopSession i c))" "below c (snd (locAPIGetBatchedLocations i n c))"
proof -
  have g: "snd (bd_getExtById SessionEntity_zero i (mSessionBiDict c)) = mSessionBiDict c"
    if "bd_hasId i (mSessionBiDict c)"
    using known_entity[OF c f that] by (metis snd_conv)
  show "below c (snd (locAPIStopSession i c))" "below c (snd (locAPIGetBatchedLocations i n c))"
    by (rule below_same;
        auto simp: locAPIStopSession_def locAPIGetBatchedLocations_def Let_def case_prod_beta g)+
qed

lemma step_prefix: "client_step w ev c = Some c' \<Longrightarrow> prefix (api c) (api c')"
proof (cases ev)
  case (Response e i)
  then show "client_step w ev c = Some c' \<Longrightarrow> prefix (api c) (api c')"
    using below_onResponseCb[of c e i] by (auto simp: below_def)
next
  case (Collective mem es "is")
  then show "client_step w ev c = Some c' \<Longrightarrow> prefix (api c) (api c')"
    using below_collective[of mem es "is" c c'] by (auto simp: below_def)
next
  case (Batching_Status st ss)
  then show "client_step w ev c = Some c' \<Longrightarrow> prefix (api c) (api c')"
    using below_batching_status[of c st ss] by (auto simp: below_def)
qed (auto simp: locAPISetCallbacks_def locAPIStartTracking_def locAPIStopTracking_def
      locAPIUpdateTrackingOptions_def locAPIStartSession_def locAPIStopSession_def
      locAPIUpdateSessionOptions_def locAPIGetBatchedLocations_def locAPIAddGeofences_def
      locAPIRemoveGeofences_def locAPIModifyGeofences_def locAPIPauseGeofences_def
      locAPIResumeGeofences_def locAPIRemoveAllGeofences_def locAPIGnssNiResponse_def
      beforeGeofenceBreachCb_def Let_def case_prod_beta split: option.split)

lemma step_ok:
  assumes c: "client_ok w c" and st: "client_step w ev c = Some c'" and f: "fresh_log w (api c')"
  shows "client_ok w c'"
proof -
  have fc: "fresh_log w (api c)" by (rule fresh_log_prefix[OF step_prefix[OF st] f])
  have ?thesis if "below c c'" by (rule client_ok_below[OF c that])
  moreover have "below c c'" if "\<forall>i m p. ev \<noteq> StartSession i m p" "\<forall>i m p. ev \<noteq> UpdateSession i m p"
    using st that
    by (cases ev)
      (auto simp: below_known[OF c fc] below_geofences below_others below_onResponseCb
        below_collective below_batching_status locAPIRemoveAllGeofences_def)
  ultimately show ?thesis
    using start_session_ok[OF c] update_session_ok[OF c _ fc] st f
    by (cases ev) auto
qed

lemma run_prefix: "client_run w evs c = Some c' \<Longrightarrow> prefix (api c) (api c')"
  by (induction evs arbitrary: c) (auto simp: bind_eq_Some_conv intro: prefix_order.trans step_prefix)

lemma run_ok:
  "client_run w evs c = Some c' \<Longrightarrow> client_ok w c \<Longrightarrow> fresh_log w (api c') \<Longrightarrow> client_ok w c'"
  by (induction evs arbitrary: c)
    (auto simp: bind_eq_Some_conv intro: step_ok fresh_log_prefix[OF run_prefix])

lemma client_ok_new: "client_ok w client_new"
  by (simp add: client_ok_def client_new_def) (simp add: bd_entry_def bd_new_def)

text \<open>
  The world of the witnesses: sessions are numbered by the position of the call in the log.
\<close>

definition w0 :: api_world where
  "w0 = \<lparr>api_created = (\<lambda>_ _. True), api_session = (\<lambda>log _. of_nat (Suc (length log))),
     api_sessions = (\<lambda>log x. case x of A_addGeofences ps _ \<Rightarrow>
        Some (map (\<lambda>k. of_nat (100 + k)) [0..<length ps]) | _ \<Rightarrow> None)\<rparr>"


definition run0 :: "client_event list" where
  "run0 = [SetCallbacks True True, StartSession 7 SESSION_MODE_ON_FIX LocationOptions_zero,
     StartSession 8 SESSION_MODE_ON_TRIP_COMPLETED LocationOptions_zero,
     Response LOCATION_ERROR_SUCCESS 2, UpdateSession 7 SESSION_MODE_ON_FULL LocationOptions_zero]"


section \<open>Geofence ids\<close>

lemma add_loop_fold:
  "length ids = length ss \<Longrightarrow> length ss = length ps \<Longrightarrow>
   add_loop ids ss ps d = fold (\<lambda>(i, s, x). bd_set i s x) (zip ids (zip ss (map breachTypeMask ps))) d"
  by (induction ids ss ps arbitrary: d rule: list_induct3) simp_all

text \<open>
  The ids of a call that the dictionary does not hold, with sessions it does not hold.
\<close>

definition new_fences :: "'a bidict \<Rightarrow> u32 list \<Rightarrow> u32 list \<Rightarrow> bool" where
  "new_fences d ids ss \<longleftrightarrow> distinct ids \<and> distinct ss \<and> list_all (\<lambda>i. \<not> bd_hasId i d) ids \<and>
     list_all (\<lambda>s. \<not> bd_hasSession s d) ss"

lemma add_loop_entries:
  assumes ok: "bidict_ok d" and n: "new_fences d ids ss"
    and len: "length ids = length ss" "length ss = length ps"
  shows "bidict_ok (add_loop ids ss ps d)"
    and "k < length ss \<Longrightarrow> bd_entry (add_loop ids ss ps d) (ss ! k) = Some (ids ! k, breachTypeMask (ps ! k))"
    and "t \<notin> set ss \<Longrightarrow> bd_entry (add_loop ids ss ps d) t = bd_entry d t"
proof -
  let ?es = "zip ids (zip ss (map breachTypeMask ps))"
  have m1: "map fst ?es = ids" and m2: "map (fst \<circ> snd) ?es = ss"
    using len by (auto intro!: nth_equalityI)
  have "bd.fresh d ?es"
    unfolding bd.fresh_def m1 m2
  proof (intro conjI ballI)
    show "distinct ids" "distinct ss" using n by (simp_all add: new_fences_def)
    fix e assume e: "e \<in> set ?es"
    obtain i s x where [simp]: "e = (i, s, x)" by (cases e)
    have "i \<in> set ids" "s \<in> set ss"
      using e by (auto dest: in_set_zipE set_zip_leftD set_zip_rightD)
    then have "\<not> bd_hasId i d" "\<not> bd_hasSession s d"
      using n by (auto simp: new_fences_def list_all_iff)
    then show "case e of (i, s, x) \<Rightarrow> bd_entry d s = None \<and> (\<forall>t y. bd_entry d t \<noteq> Some (i, y))"
      using ok by (auto simp: bd_entry_None bd_entry_hasId)
  qed
  note all = bd.put_all[OF ok this, folded add_loop_fold[OF len]]
  show "bidict_ok (add_loop ids ss ps d)" using all by simp
  let ?m = "map (\<lambda>(i, s, x). (s, i, x)) ?es"
  have "map fst ?m = ss" using len by (auto intro!: nth_equalityI)
  then have dm: "distinct (map fst ?m)" using n by (simp add: new_fences_def)
  show "bd_entry (add_loop ids ss ps d) (ss ! k) = Some (ids ! k, breachTypeMask (ps ! k))"
    if "k < length ss"
  proof -
    have "(ss ! k, ids ! k, breachTypeMask (ps ! k)) \<in> set ?m"
      unfolding in_set_conv_nth using that len by (intro exI[of _ k]) simp
    then have "map_of ?m (ss ! k) = Some (ids ! k, breachTypeMask (ps ! k))"
      using dm by (metis map_of_eq_Some_iff)
    then show ?thesis using all by simp
  qed
  show "bd_entry (add_loop ids ss ps d) t = bd_entry d t" if "t \<notin> set ss"
  proof -
    have "map_of ?m t = None"
      unfolding map_of_eq_None_iff set_map[symmetric] \<open>map fst ?m = ss\<close> by (rule that)
    then show ?thesis using all by simp
  qed
qed

lemma breach_loop_map:
  "breach_loop t d ss = map (\<lambda>s. bd_getId s d) (filter (\<lambda>s. breach_wanted t (bd_getExtBySession 0 s d)) ss)"
  by (induction ss) (simp_all add: Let_def)

text \<open>
  Geofences added under new ids come back under the same ids: when the API then reports a
  breach of any of the new sessions, the user's callback gets the ids of exactly those whose
  mask asks for this type of breach, in the order of the report, and nothing for the others.
\<close>

theorem geofence_breach_roundtrip:
  assumes up: "mLocationAPI c" "mGeofenceBreachCallback c" and ok: "bidict_ok (mGeofenceBiDict c)"
    and ans: "\<And>log. api_sessions w log (A_addGeofences ps data) = Some ss"
    and len: "length ids = length ss" "length ss = length ps"
    and n: "new_fences (mGeofenceBiDict c) ids ss"
    and c': "c' = snd (locAPIAddGeofences w ids ps data c)"
    and ks: "list_all (\<lambda>k. k < length ss) ks"
  shows "cbs (beforeGeofenceBreachCb True t (map (\<lambda>k. ss ! k) ks) c') =
    cbs c @ [OnGeofenceBreach t
      (map (\<lambda>k. ids ! k) (filter (\<lambda>k. breach_wanted t (breachTypeMask (ps ! k))) ks))]"
proof -
  let ?d = "add_loop ids ss ps (mGeofenceBiDict c)"
  note add = add_loop_entries[OF ok n len]
  have c'': "mGeofenceBiDict c' = ?d" "mGeofenceBreachCallback c'" "cbs c' = cbs c"
    using up ans by (auto simp: c' locAPIAddGeofences_def Let_def)
  have g: "bd_getId (ss ! k) ?d = ids ! k" "bd_getExtBySession 0 (ss ! k) ?d = breachTypeMask (ps ! k)"
    if "k < length ss" for k
    using bd_entry_get[OF add(1) add(2)[OF that]] by simp_all
  have "breach_loop t ?d (map (\<lambda>k. ss ! k) ks) =
      map (\<lambda>k. ids ! k) (filter (\<lambda>k. breach_wanted t (breachTypeMask (ps ! k))) ks)"
    using ks by (induction ks) (auto simp: Let_def g)
  then show ?thesis
    using c'' by (simp add: beforeGeofenceBreachCb_def)
qed

definition fence0 :: "GeofenceBreachTypeMask \<Rightarrow> GeofenceOption" where
  "fence0 m = \<lparr>go_size = 1, breachTypeMask = m, responsiveness = 0, dwellTime = 0\<rparr>"

definition c_up :: client where
  "c_up = locAPISetCallbacks w0 True True client_new"

lemma c_up_simps [simp]:
  "mLocationAPI c_up" "mGeofenceBreachCallback c_up" "mGeofenceBiDict c_up = bd_new" "cbs c_up = []"
  "mTracking c_up = False"
  by (simp_all add: c_up_def locAPISetCallbacks_def client_new_def w0_def Let_def)

lemma w0_fences: "api_sessions w0 log (A_addGeofences [p, q] d) = Some [100, 101]"
  by (simp add: w0_def upt_rec)

lemma bd_new_has [simp]: "\<not> bd_hasId i bd_new" "\<not> bd_hasSession s bd_new"
  by (simp_all add: bd_hasId_def bd_hasSession_def bd_new_def map_has_def)

lemma geofence_breach_roundtrip_witness:
  "cbs (beforeGeofenceBreachCb True GEOFENCE_BREACH_EXIT [101, 100]
     (snd (locAPIAddGeofences w0 [5, 6] [fence0 1, fence0 3] 0 c_up))) =
   [OnGeofenceBreach GEOFENCE_BREACH_EXIT [6]]"
  using geofence_breach_roundtrip[of c_up w0 "[fence0 1, fence0 3]" 0 "[100, 101]" "[5, 6]"
      "snd (locAPIAddGeofences w0 [5, 6] [fence0 1, fence0 3] 0 c_up)" "[1, 0]" GEOFENCE_BREACH_EXIT]
  by (simp add: w0_fences new_fences_def fence0_def breach_wanted_def GEOFENCE_BREACH_EXIT_BIT_def)

text \<open>
  The loop of \<open>locAPIRemoveGeofences\<close> moves the known ids from the client's dictionary to the
  one that the request keeps for the answer.
\<close>

lemma unknown_session: "\<not> bd_hasId i d \<Longrightarrow> bd_getSession i d = 0"
  by (auto simp: bd_hasId_def map_has_def bd_getSession_def)

lemma remove_loop_moves:
  assumes "bd.apart d r" "bd_entry d 0 = None" "distinct ids" "remove_loop ids d r = (ss, d', r')"
  shows "ss = map (\<lambda>i. bd_getSession i d) (filter (\<lambda>i. bd_hasId i d) ids) \<and>
    bd.apart d' r' \<and> bd_entry d' ++ bd_entry r' = bd_entry d ++ bd_entry r \<and>
    bd_entry d' = (\<lambda>s. if s \<in> set ss then None else bd_entry d s)"
  using assms
proof (induction ids arbitrary: d r ss)
  case (Cons i ids)
  have ok: "bidict_ok d" using Cons.prems(1) by (simp add: bd.apart_def)
  {
    assume u: "\<not> bd_hasId i d"
    then have l: "remove_loop ids d r = (ss, d', r')"
      using Cons.prems(4) by (simp add: unknown_session)
    have di: "distinct ids" using Cons.prems(3) by simp
    have f: "filter (\<lambda>j. bd_hasId j d) (i # ids) = filter (\<lambda>j. bd_hasId j d) ids"
      using u by simp
    have ?case unfolding f by (rule Cons.IH[OF Cons.prems(1,2) di l])
  }
  moreover {
    assume "bd_hasId i d"
    then obtain s x where e: "bd_entry d s = Some (i, x)"
      using ok by (auto simp: bd_entry_hasId)
    have s: "bd_getSession i d = s" "bd_getExtBySession 0 s d = x" and i: "bd_hasId i d"
      using bd_entry_get[OF ok e] by simp_all
    have "s > 0" using e Cons.prems(2) by (cases "s = 0") (auto simp: word_neq_0_conv)
    let ?d = "bd_rmBySession s d" and ?r = "bd_set i s x r"
    obtain ss1 where l: "remove_loop ids ?d ?r = (ss1, d', r')" and ss: "ss = s # ss1"
      using Cons.prems(4) \<open>s > 0\<close> by (auto simp: s Let_def split: prod.splits)
    note mv = bd.move_keeps[OF Cons.prems(1) e]
    have d1: "bd_entry ?d = (bd_entry d)(s := None)" by (rule bd_entry_rmBySession[OF ok])
    have ok1: "bidict_ok ?d" using mv(1) by (simp add: bd.apart_def)
    have same: "bd_hasId j ?d = bd_hasId j d \<and> (bd_hasId j d \<longrightarrow> bd_getSession j ?d = bd_getSession j d)"
      if "j \<noteq> i" for j
    proof -
      have "bd_entry ?d t = Some (j, y) \<longleftrightarrow> bd_entry d t = Some (j, y)" for t y
        using e that by (auto simp: d1)
      then show ?thesis
        using bd_entry_hasId[OF ok, of j] bd_entry_hasId[OF ok1, of j]
          bd_entry_get(2)[OF ok] bd_entry_get(2)[OF ok1] by metis
    qed
    note IH = Cons.IH[OF mv(1) _ _ l]
    have "bd_entry ?d 0 = None" using Cons.prems(2) by (simp add: d1)
    note IH = IH[OF this]
    have ne: "j \<noteq> i" if "j \<in> set ids" for j using that Cons.prems(3) by auto
    have f: "filter (\<lambda>j. bd_hasId j ?d) ids = filter (\<lambda>j. bd_hasId j d) ids"
      by (rule filter_cong) (simp_all add: same ne)
    have m: "map (\<lambda>j. bd_getSession j ?d) (filter (\<lambda>j. bd_hasId j d) ids) =
        map (\<lambda>j. bd_getSession j d) (filter (\<lambda>j. bd_hasId j d) ids)"
      by (rule map_cong) (auto simp: same ne)
    have fi: "map (\<lambda>j. bd_getSession j d) (filter (\<lambda>j. bd_hasId j d) (i # ids)) =
        s # map (\<lambda>j. bd_getSession j d) (filter (\<lambda>j. bd_hasId j d) ids)"
      using i s(1) by simp
    have di: "distinct ids" using Cons.prems(3) by simp
    note IH' = IH[OF di, unfolded f m mv(2)]
    have "bd_entry d' = (\<lambda>t. if t \<in> set (s # ss1) then None else bd_entry d t)"
      using IH' by (auto simp: d1 fun_eq_iff)
    then have ?case unfolding fi ss using IH' by blast
  }
  ultimately show ?case by blast
qed (auto simp: fun_eq_iff)

lemma bd_entry_new [simp]: "bd_entry bd_new s = None"
  by (simp add: bd_entry_def bd_new_def)

lemma remove_loop_from_empty:
  assumes ok: "bidict_ok d" and z: "bd_entry d 0 = None" and di: "distinct ids"
    and l: "remove_loop ids d bd_new = (ss, d', r)"
  shows "bidict_ok d'" "bd_entry d' = (\<lambda>s. if s \<in> set ss then None else bd_entry d s)"
    and "ss = map (\<lambda>i. bd_getSession i d) (filter (\<lambda>i. bd_hasId i d) ids)"
    and "map (\<lambda>s. bd_getId s r) ss = filter (\<lambda>i. bd_hasId i d) ids"
proof -
  have ap: "bd.apart d bd_new" using ok by (simp add: bd.apart_def)
  note mv = remove_loop_moves[OF ap z di l]
  show d': "bidict_ok d'" and e': "bd_entry d' = (\<lambda>s. if s \<in> set ss then None else bd_entry d s)"
    and ss: "ss = map (\<lambda>i. bd_getSession i d) (filter (\<lambda>i. bd_hasId i d) ids)"
    using mv by (auto simp: bd.apart_def)
  have r: "bidict_ok r" using mv by (simp add: bd.apart_def)
  have sum: "bd_entry d' ++ bd_entry r = bd_entry d ++ bd_entry bd_new" using mv by blast
  have "bd_getId (bd_getSession i d) r = i" if i: "i \<in> set (filter (\<lambda>i. bd_hasId i d) ids)" for i
  proof -
    obtain s x where e: "bd_entry d s = Some (i, x)"
      using i ok by (auto simp: bd_entry_hasId)
    have s: "bd_getSession i d = s" by (rule bd_entry_get(2)[OF ok e])
    then have "s \<in> set ss" using i unfolding ss by auto
    then have "bd_entry d' s = None" by (simp add: e')
    then have "bd_entry r s = Some (i, x)"
      using fun_cong[OF sum, of s] e by (auto simp: map_add_def split: option.splits)
    then show ?thesis using bd_entry_get(1)[OF r] s by simp
  qed
  then show "map (\<lambda>s. bd_getId s r) ss = filter (\<lambda>i. bd_hasId i d) ids"
    unfolding ss map_map by (intro map_idI) simp
qed

text \<open>
  Removing geofences asks the API to remove exactly the sessions of the ids that are known,
  in their order; when its answer arrives the user's callback gets these ids back although the
  client has forgotten them by then, and the dictionary has lost them and nothing else.
\<close>

theorem geofence_remove_roundtrip:
  assumes up: "mLocationAPI c" "queue_session c REQUEST_GEOFENCE = GEOFENCE_SESSION_ID"
    and q: "rq_queue (mRequestQueues c REQUEST_GEOFENCE) = []"
    and ok: "bidict_ok (mGeofenceBiDict c)" "bd_entry (mGeofenceBiDict c) 0 = None"
    and ids: "distinct ids" "known = filter (\<lambda>i. bd_hasId i (mGeofenceBiDict c)) ids" "known \<noteq> []"
    and ss: "ss = map (\<lambda>i. bd_getSession i (mGeofenceBiDict c)) known"
    and c1: "c1 = locAPIRemoveGeofences True ids c"
  shows "api c1 = api c @ [A_removeGeofences ss] \<and>
    map_option cbs (onCollectiveResponseCb True errs ss c1) = Some (cbs c @ [OnRemoveGeofences errs known]) \<and>
    bidict_ok (mGeofenceBiDict c1) \<and>
    bd_entry (mGeofenceBiDict c1) = (\<lambda>s. if s \<in> set ss then None else bd_entry (mGeofenceBiDict c) s)"
proof -
  obtain ss' d r where l: "remove_loop ids (mGeofenceBiDict c) bd_new = (ss', d, r)"
    by (metis prod_cases3)
  note rl = remove_loop_from_empty[OF ok ids(1) l]
  have ss': "ss' = ss" using rl(3) ids(2) ss by simp
  have "ss \<noteq> []" using ids(3) ss by simp
  then have c1': "c1 = api_do (A_removeGeofences ss)
      (queue_upd REQUEST_GEOFENCE (rq_push (RemoveGeofencesRequest r)) (c\<lparr>mGeofenceBiDict := d\<rparr>))"
    using up l by (simp add: c1 locAPIRemoveGeofences_def ss' Let_def)
  have "map (\<lambda>s. bd_getId s r) ss = known" using rl(4) ids(2) ss' by simp
  then have "map_option cbs (onCollectiveResponseCb True errs ss c1) = Some (cbs c @ [OnRemoveGeofences errs known])"
    using up(2) q
    by (simp add: onCollectiveResponseCb_def queue_session_def c1' rq_pop_def Let_def geofence_ids_def)
  then show ?thesis
    using rl(1,2) by (simp add: c1' ss')
qed

definition c_two :: client where
  "c_two = snd (locAPIAddGeofences w0 [5, 6] [fence0 1, fence0 3] 0 c_up)"

text \<open>
  After the answer to the call that added them.
\<close>

definition c_fences :: client where
  "c_fences = the (onCollectiveResponseCb True [LOCATION_ERROR_SUCCESS, LOCATION_ERROR_SUCCESS] [100, 101] c_two)"

lemma c_fences_dict: "mGeofenceBiDict c_fences = \<lparr>mForwardMap = [(5, 100), (6, 101)],
    mBackwardMap = [(100, 5), (101, 6)], mExtMap = [(100, 1), (101, 3)]\<rparr>"
  by code_simp

lemma c_fences_ok: "bidict_ok (mGeofenceBiDict c_fences)"
  unfolding c_fences_dict by (auto simp: bidict_ok_def std_map_ok_def dom_def split: if_splits)

lemma c_fences_queue:
  "mLocationAPI c_fences" "queue_session c_fences REQUEST_GEOFENCE = GEOFENCE_SESSION_ID"
  "rq_queue (mRequestQueues c_fences REQUEST_GEOFENCE) = []"
  by code_simp+

lemma geofence_remove_roundtrip_witness:
  "api (locAPIRemoveGeofences True [9, 6] c_fences) = api c_fences @ [A_removeGeofences [101]] \<and>
   map_option cbs (onCollectiveResponseCb True [LOCATION_ERROR_SUCCESS] [101]
     (locAPIRemoveGeofences True [9, 6] c_fences)) =
     Some (cbs c_fences @ [OnRemoveGeofences [LOCATION_ERROR_SUCCESS] [6]])"
proof -
  have "bd_entry (mGeofenceBiDict c_fences) 0 = None" by (simp add: c_fences_dict bd_entry_def)
  then show ?thesis
    using geofence_remove_roundtrip[OF c_fences_queue c_fences_ok, of "[9, 6]" "[6]" "[101]" _
        "[LOCATION_ERROR_SUCCESS]"]
    by (simp add: c_fences_dict bd_hasId_def map_has_def bd_getSession_def)
qed

text \<open>
  \<open>locAPIRemoveAllGeofences\<close> passes the list of all sessions to \<open>locAPIRemoveGeofences\<close>, which
  takes ids. As soon as no session happens to be in use as an id, it removes nothing: the call
  leaves the client exactly as it was and the API is not asked for anything.
\<close>

theorem remove_all_geofences_ineffective:
  assumes "list_all (\<lambda>s. \<not> bd_hasId s (mGeofenceBiDict c)) (bd_getAllSessions (mGeofenceBiDict c))"
  shows "locAPIRemoveAllGeofences mem c = c"
proof -
  have "remove_loop ss d r = ([], d, r)" if "list_all (\<lambda>s. \<not> bd_hasId s d) ss" for ss d r
    using that by (induction ss) (simp_all add: unknown_session)
  then show ?thesis
    using assms by (simp add: locAPIRemoveAllGeofences_def locAPIRemoveGeofences_def Let_def)
qed

lemma remove_all_geofences_ineffective_witness:
  "bd_getAllSessions (mGeofenceBiDict c_fences) = [100, 101] \<and>
   locAPIRemoveAllGeofences True c_fences = c_fences"
  using remove_all_geofences_ineffective[of c_fences True]
  by (simp add: c_fences_dict bd_getAllSessions_def bd_hasId_def map_has_def)

text \<open>
  \<open>locAPIModifyGeofences\<close> compacts the sessions of the known ids but passes the options as
  they came: behind an unknown id the API is told to apply the options of one geofence to the
  session of another, while the client records the mask the user asked for.
\<close>

theorem modify_geofences_misaligned:
  assumes up: "mLocationAPI c" "queue_session c REQUEST_GEOFENCE = GEOFENCE_SESSION_ID"
    and ok: "bidict_ok (mGeofenceBiDict c)"
    and i: "\<not> bd_hasId i (mGeofenceBiDict c)"
    and j: "bd_entry (mGeofenceBiDict c) s = Some (j, m)" "s \<noteq> 0"
  shows "api (locAPIModifyGeofences True [i, j] [p, p'] c) = api c @ [A_modifyGeofences [s] [p, p']] \<and>
    bd_getExtBySession 0 s (mGeofenceBiDict (locAPIModifyGeofences True [i, j] [p, p'] c)) = breachTypeMask p'"
proof -
  have s: "bd_getSession j (mGeofenceBiDict c) = s" "0 < s"
    using bd_entry_get(2)[OF ok j(1)] j(2) by (simp_all add: word_neq_0_conv)
  have "bd_getExtBySession 0 s (bd_set j s x (mGeofenceBiDict c)) = x" for x
    using ok by (simp add: bd_getExtBySession_def bd_set_def bidict_ok_def)
  then show ?thesis
    using up s unknown_session[OF i] by (simp add: locAPIModifyGeofences_def Let_def)
qed

lemma modify_geofences_misaligned_witness:
  "api (locAPIModifyGeofences True [9, 6] [fence0 1, fence0 2] c_fences) =
     api c_fences @ [A_modifyGeofences [101] [fence0 1, fence0 2]]"
  using modify_geofences_misaligned[OF c_fences_queue(1,2) c_fences_ok, of 9 101 6 3 "fence0 1" "fence0 2"]
  by (simp add: c_fences_dict bd_hasId_def map_has_def bd_entry_def)

section \<open>Responses\<close>

lemma getRequestBySession_queue:
  assumes "queue_session c REQUEST_TRACKING \<noteq> s" "queue_session c REQUEST_NIRESPONSE \<noteq> s"
    and "bd_hasSession s (mSessionBiDict c)" "rq_queue (mRequestQueues c REQUEST_SESSION) = r # rs"
  shows "getRequestBySession s c =
    (Some r, queue_upd REQUEST_SESSION (\<lambda>q. q\<lparr>rq_queue := rs\<rparr>) c)"
  using assms
  by (simp add: getRequestBySession_def enum_REQUEST_TYPE_def queue_session_def rq_pop_def
      queue_upd_def Let_def)

text \<open>
  All sessions with ids share one queue of requests, and a response takes the oldest request
  of the queue whatever session it is about: when a request to stop one session waits at the
  head and a successful response for another session arrives first, the client reports a stop
  and forgets that other session, which the API keeps running, and keeps the stopped one.
\<close>

theorem response_stops_other_session:
  assumes ok: "bidict_ok (mSessionBiDict c)"
    and q: "rq_queue (mRequestQueues c REQUEST_SESSION) = StopBatchingRequest # rs"
    and s: "bd_entry (mSessionBiDict c) s = Some (i, x)" "bd_entry (mSessionBiDict c) t = Some (j, y)" "s \<noteq> t"
    and other: "queue_session c REQUEST_TRACKING \<noteq> t" "queue_session c REQUEST_NIRESPONSE \<noteq> t"
    and c': "c' = onResponseCb LOCATION_ERROR_SUCCESS t c"
  shows "cbs c' = cbs c @ [OnStopBatching LOCATION_ERROR_SUCCESS] \<and>
    \<not> bd_hasId j (mSessionBiDict c') \<and> bd_entry (mSessionBiDict c') s = Some (i, x) \<and>
    api c' = api c"
proof -
  have t: "bd_hasSession t (mSessionBiDict c)" using bd_entry_get(5)[OF ok s(2)] .
  have ok': "bidict_ok (bd_rmBySession t (mSessionBiDict c))" by (rule bidict_ok_rmBySession[OF ok t])
  have "\<not> bd_hasId j (bd_rmBySession t (mSessionBiDict c))"
    using bd_entry_inj[OF ok s(2)]
    by (auto simp: bd_entry_hasId[OF ok'] bd_entry_rmBySession[OF ok] split: if_splits)
  then show ?thesis
    using s t
    by (simp add: c' onResponseCb_def getRequestBySession_queue[OF other t q] removeSession_def
        bd_entry_rmBySession[OF ok] Let_def)
qed

definition run1 :: "client_event list" where
  "run1 = [SetCallbacks True True, StartSession 7 SESSION_MODE_ON_FULL LocationOptions_zero,
     Response LOCATION_ERROR_SUCCESS 2, StopSession 7,
     StartSession 8 SESSION_MODE_ON_FULL LocationOptions_zero]"

definition c_run1 :: client where
  "c_run1 = the (client_run w0 run1 client_new)"

definition se0 :: "u32 \<Rightarrow> u32 \<Rightarrow> SessionEntity" where
  "se0 i s = \<lparr>se_id = i, trackingSession = 0, batchingSession = s, sessionMode = SESSION_MODE_ON_FULL\<rparr>"

lemma response_stops_other_session_witness:
  "client_run w0 run1 client_new \<noteq> None \<and>
   cbs (onResponseCb LOCATION_ERROR_SUCCESS 4 c_run1) =
     [OnStartBatching LOCATION_ERROR_SUCCESS, OnStopBatching LOCATION_ERROR_SUCCESS] \<and>
   \<not> bd_hasId 8 (mSessionBiDict (onResponseCb LOCATION_ERROR_SUCCESS 4 c_run1))"
proof -
  have r: "client_run w0 run1 client_new \<noteq> None" by code_simp
  have d: "mSessionBiDict c_run1 = \<lparr>mForwardMap = [(7, 2), (8, 4)],
      mBackwardMap = [(2, 7), (4, 8)], mExtMap = [(2, se0 7 2), (4, se0 8 4)]\<rparr>"
    by code_simp
  have q: "rq_queue (mRequestQueues c_run1 REQUEST_SESSION) = [StopBatchingRequest, StartBatchingRequest]"
    "queue_session c_run1 REQUEST_TRACKING = 0" "queue_session c_run1 REQUEST_NIRESPONSE = 0"
    "cbs c_run1 = [OnStartBatching LOCATION_ERROR_SUCCESS]"
    by code_simp+
  have ok: "bidict_ok (mSessionBiDict c_run1)"
    unfolding d by (auto simp: bidict_ok_def std_map_ok_def dom_def split: if_splits)
  show ?thesis
    using response_stops_other_session[OF ok q(1), of 2 7 "se0 7 2" 4 8 "se0 8 4"] r
    by (simp add: d q bd_entry_def)
qed

text \<open>
  Starting to track again before the answer to a stop has arrived empties the queue of
  tracking requests: when that answer comes, for the old session, nobody is waiting for it and
  the user's stop callback never fires.
\<close>

theorem restart_loses_stop_callback:
  assumes up: "mLocationAPI c" "\<not> mTracking c" "StopTrackingRequest \<in> set (rq_queue (mRequestQueues c REQUEST_TRACKING))"
    and old: "s = queue_session c REQUEST_TRACKING" "queue_session c REQUEST_NIRESPONSE \<noteq> s"
      "\<not> bd_hasSession s (mSessionBiDict c)"
    and new: "api_session w (api c) (A_startTracking options) \<noteq> s"
    and c': "c' = snd (locAPIStartTracking w options c)"
  shows "rq_queue (mRequestQueues c' REQUEST_TRACKING) = [StartTrackingRequest] \<and>
    cbs (onResponseCb e s c') = cbs c \<and>
    rq_queue (mRequestQueues (onResponseCb e s c') REQUEST_TRACKING) = [StartTrackingRequest]"
proof -
  have q: "rq_queue (mRequestQueues c' REQUEST_TRACKING) = [StartTrackingRequest]"
    "rq_session (mRequestQueues c' REQUEST_TRACKING) \<noteq> s" "rq_session (mRequestQueues c' REQUEST_NIRESPONSE) \<noteq> s"
    and d: "mSessionBiDict c' = mSessionBiDict c" "cbs c' = cbs c"
    using up(1,2) old(2) new by (simp_all add: c' locAPIStartTracking_def Let_def queue_session_def)
  have "getRequestBySession s c' = (None, c')"
    using q(2,3) d old(3) by (simp add: getRequestBySession_def enum_REQUEST_TYPE_def)
  then show ?thesis
    using q(1) d(2) by (simp add: onResponseCb_def)
qed

definition run2 :: "client_event list" where
  "run2 = [SetCallbacks True True, StartTracking LocationOptions_zero,
     Response LOCATION_ERROR_SUCCESS 2, StopTracking]"

lemma restart_loses_stop_callback_witness:
  "let c = the (client_run w0 run2 client_new); c' = snd (locAPIStartTracking w0 LocationOptions_zero c)
   in cbs (onResponseCb LOCATION_ERROR_SUCCESS 2 c') = [OnStartTracking LOCATION_ERROR_SUCCESS]"
proof -
  let ?c = "the (client_run w0 run2 client_new)"
  have "mLocationAPI ?c" "\<not> mTracking ?c" "queue_session ?c REQUEST_TRACKING = 2"
    "rq_queue (mRequestQueues ?c REQUEST_TRACKING) = [StopTrackingRequest]"
    "queue_session ?c REQUEST_NIRESPONSE = 0" "\<not> bd_hasSession 2 (mSessionBiDict ?c)"
    "api_session w0 (api ?c) (A_startTracking LocationOptions_zero) = 4"
    "cbs ?c = [OnStartTracking LOCATION_ERROR_SUCCESS]"
    by code_simp+
  then show ?thesis
    using restart_loses_stop_callback[of ?c 2 w0 LocationOptions_zero _ LOCATION_ERROR_SUCCESS]
    by (simp add: Let_def)
qed

section \<open>The control client\<close>

text \<open>
  The protocol of enable and disable as the API sees it: \<open>Some s\<close> while session \<open>s\<close> is enabled.
  \<open>None\<close> as a result is a call the protocol does not allow: enabling twice, disabling what is
  not enabled, or disabling another session than the enabled one.
\<close>

fun toggle :: "ctrl_world \<Rightarrow> ctrl_call list \<Rightarrow> ctrl_call \<Rightarrow> u32 option \<Rightarrow> u32 option option" where
  "toggle w past (C_enable t) None = Some (Some (ctrl_session w past (C_enable t)))"
| "toggle w past (C_enable t) (Some s) = None"
| "toggle w past (C_disable s) None = None"
| "toggle w past (C_disable s) (Some s') = (if s = s' \<and> s \<noteq> 0 then Some None else None)"
| "toggle w past _ st = Some st"

fun toggles :: "ctrl_world \<Rightarrow> ctrl_call list \<Rightarrow> ctrl_call list \<Rightarrow> u32 option \<Rightarrow> u32 option option" where
  "toggles w past [] st = Some st"
| "toggles w past (x # xs) st = Option.bind (toggle w past x st) (toggles w (past @ [x]) xs)"

lemma toggles_snoc:
  "toggles w past (xs @ [x]) st = Option.bind (toggles w past xs st) (toggle w (past @ xs) x)"
  by (induction xs arbitrary: past st) (auto split: Option.bind_split)

definition ctrl_ok :: "ctrl_world \<Rightarrow> ctrl_client \<Rightarrow> bool" where
  "ctrl_ok w c \<longleftrightarrow> toggles w [] (ctrl_api c) None =
     Some (if mEnabled c then Some (rq_session (ctrl_queues c CTRL_REQUEST_CONTROL)) else None)"

lemma rq_session_pop [simp]: "rq_session (snd (rq_pop q)) = rq_session q"
  by (cases "rq_queue q") (simp_all add: rq_pop_def)

lemma ctrl_respond_frame:
  "ctrl_api (onCtrlResponseCb e i c) = ctrl_api c \<and> mEnabled (onCtrlResponseCb e i c) = mEnabled c \<and>
   rq_session (ctrl_queues (onCtrlResponseCb e i c) t) = rq_session (ctrl_queues c t)"
  "ctrl_api (onCtrlCollectiveResponseCb es is c) = ctrl_api c \<and>
   mEnabled (onCtrlCollectiveResponseCb es is c) = mEnabled c \<and>
   rq_session (ctrl_queues (onCtrlCollectiveResponseCb es is c) t) = rq_session (ctrl_queues c t)"
proof -
  have f: "ctrl_api (ctrl_onResponse r e c) = ctrl_api c \<and> mEnabled (ctrl_onResponse r e c) = mEnabled c \<and>
      ctrl_queues (ctrl_onResponse r e c) = ctrl_queues c" for r c
    by (cases r) simp_all
  have g: "ctrl_api (ctrl_onCollectiveResponse r es is c) = ctrl_api c \<and>
      mEnabled (ctrl_onCollectiveResponse r es is c) = mEnabled c \<and>
      ctrl_queues (ctrl_onCollectiveResponse r es is c) = ctrl_queues c" for r c
    by (cases r) simp_all
  show "ctrl_api (onCtrlResponseCb e i c) = ctrl_api c \<and> mEnabled (onCtrlResponseCb e i c) = mEnabled c \<and>
      rq_session (ctrl_queues (onCtrlResponseCb e i c) t) = rq_session (ctrl_queues c t)"
    by (auto simp: onCtrlResponseCb_def ctrl_getRequestBySession_def case_prod_beta f
        ctrl_queue_upd_def Let_def split: option.split)
  show "ctrl_api (onCtrlCollectiveResponseCb es is c) = ctrl_api c \<and>
      mEnabled (onCtrlCollectiveResponseCb es is c) = mEnabled c \<and>
      rq_session (ctrl_queues (onCtrlCollectiveResponseCb es is c) t) = rq_session (ctrl_queues c t)"
    by (auto simp: onCtrlCollectiveResponseCb_def case_prod_beta g ctrl_queue_upd_def Let_def
        split: option.split)
qed

lemma ctrl_step_ok: "ctrl_ok w c \<Longrightarrow> ctrl_ok w (ctrl_step w ev c)"
  by (cases ev)
    (auto simp: ctrl_ok_def locAPIGnssDeleteAidingData_def locAPIEnable_def locAPIDisable_def
      locAPIGnssUpdateConfig_def ctrl_respond_frame ctrl_do_def ctrl_queue_upd_def toggles_snoc
      Let_def word_neq_0_conv[symmetric])

text \<open>
  Whatever the user and the API do, the control client's calls obey the protocol: it never
  enables twice, never disables what is not enabled, and disables exactly the session that the
  enabling call returned; \<open>mEnabled\<close> is true exactly while a session is enabled.
\<close>

theorem control_enable_disable_alternate:
  "toggles w [] (ctrl_api (fold (ctrl_step w) evs (ctrl_new created n))) None =
     (let c = fold (ctrl_step w) evs (ctrl_new created n)
      in Some (if mEnabled c then Some (rq_session (ctrl_queues c CTRL_REQUEST_CONTROL)) else None))"
proof -
  have "ctrl_ok w (ctrl_new created n)" by (simp add: ctrl_ok_def ctrl_new_def)
  then have "ctrl_ok w (fold (ctrl_step w) evs (ctrl_new created n))"
    by (induction evs rule: rev_induct) (auto intro: ctrl_step_ok)
  then show ?thesis by (simp add: ctrl_ok_def Let_def)
qed

text \<open>
  A configuration the API refuses is remembered as if it had been applied: the same call
  again reports success and does nothing, so the user cannot retry it.
\<close>

theorem config_retry_masked:
  assumes up: "mLocationControlAPI c" and new: "mConfig c \<noteq> g"
    and refused: "\<not> ctrl_ids w (ctrl_api c) (C_gnssUpdateConfig g)"
    and c': "c' = snd (locAPIGnssUpdateConfig w g c)"
  shows "fst (locAPIGnssUpdateConfig w g c) = LOCATION_ERROR_GENERAL_FAILURE \<and>
    locAPIGnssUpdateConfig w g c' = (LOCATION_ERROR_SUCCESS, c')"
  using up new refused by (simp add: c' locAPIGnssUpdateConfig_def ctrl_do_def Let_def)

lemma config_retry_masked_witness:
  "let w = \<lparr>ctrl_session = (\<lambda>_ _. 1), ctrl_ids = (\<lambda>_ _. False)\<rparr>;
       c' = snd (locAPIGnssUpdateConfig w [1] (ctrl_new True 1))
   in locAPIGnssUpdateConfig w [1] c' = (LOCATION_ERROR_SUCCESS, c')"
  using config_retry_masked[of "ctrl_new True 1" "[1]" "\<lparr>ctrl_session = (\<lambda>_ _. 1), ctrl_ids = (\<lambda>_ _. False)\<rparr>"]
  by (simp add: ctrl_new_def Let_def)

end
