(* ===== verification/Gnss_Tracking.thy ===== *)
theory Gnss_Tracking
  imports Std_Map Location_Types
begin

text \<open>
  The tracking part of \<open>gps/gnss/GnssAdapter.cpp\<close>: the modem serves one fix session with one
  interval, and the adapter multiplexes the tracking sessions of all its clients onto it. With
  it come the table of clients, the mask of events the clients are interested in, the session
  ids of \<open>LocAdapterBase\<close>, and the restart of the sessions after the modem came up again.

  A command of a client only queues a message; the adapter's thread processes the messages one
  by one. The calls to the ULP proxy and to \<open>LocApi\<close> and the responses to the clients are
  logged in \<open>calls\<close> with the answer of the oracle \<open>w\<close> (true is success, or for the ULP proxy
  that it takes the request over; \<open>UlpProxyBase\<close> always answers false).
\<close>

section \<open>Data\<close>

datatype LocPositionMode =
    LOC_POSITION_MODE_INVALID
  | LOC_POSITION_MODE_STANDALONE
  | LOC_POSITION_MODE_MS_BASED
  | LOC_POSITION_MODE_MS_ASSISTED
  | LOC_POSITION_MODE_RESERVED nat

record LocPosMode =
  pm_mode :: LocPositionMode
  recurrence :: u32
  min_interval :: u32
  preferred_accuracy :: u32
  preferred_time :: u32
  share_position :: bool
  credentials :: "u8 list"
  provider :: "u8 list"

definition LOC_GPS_POSITION_RECURRENCE_PERIODIC :: u32 where
  "LOC_GPS_POSITION_RECURRENCE_PERIODIC = 0"

definition GPS_DEFAULT_FIX_INTERVAL_MS :: u32 where
  "GPS_DEFAULT_FIX_INTERVAL_MS = 1000"

definition LocPosMode_new :: LocPosMode where
  "LocPosMode_new =
     \<lparr>pm_mode = LOC_POSITION_MODE_MS_BASED, recurrence = LOC_GPS_POSITION_RECURRENCE_PERIODIC,
      min_interval = GPS_DEFAULT_FIX_INTERVAL_MS, preferred_accuracy = 50,
      preferred_time = 120000, share_position = True,
      credentials = replicate 14 0, provider = replicate 8 0\<rparr>"

text \<open>
  \<open>strncmp\<close> with a bound: the bytes up to the first zero, at most \<open>n\<close> of them, agree.
\<close>

fun strncmp_eq :: "nat \<Rightarrow> u8 list \<Rightarrow> u8 list \<Rightarrow> bool" where
  "strncmp_eq 0 xs ys = True"
| "strncmp_eq (Suc n) (x # xs) (y # ys) = (x = y \<and> (x = 0 \<or> strncmp_eq n xs ys))"
| "strncmp_eq (Suc n) xs ys = (xs = ys)"

definition LocPosMode_equals :: "LocPosMode \<Rightarrow> LocPosMode \<Rightarrow> bool" where
  "LocPosMode_equals m m' \<longleftrightarrow> pm_mode m' = pm_mode m \<and> recurrence m' = recurrence m \<and>
     min_interval m' = min_interval m \<and> preferred_accuracy m' = preferred_accuracy m \<and>
     preferred_time m' = preferred_time m \<and>
     strncmp_eq 13 (credentials m') (credentials m) \<and> strncmp_eq 7 (provider m') (provider m)"

datatype LocationSessionKey = SessionKey (key_client: ptr) (key_id: u32)

text \<open>
  The order of the map of sessions: by id, then by client.
\<close>

instantiation LocationSessionKey :: linorder
begin

definition less_LocationSessionKey :: "LocationSessionKey \<Rightarrow> LocationSessionKey \<Rightarrow> bool" where
  "less_LocationSessionKey left right \<longleftrightarrow>
     key_id left < key_id right \<or> (key_id left = key_id right \<and> key_client left < key_client right)"

definition less_eq_LocationSessionKey :: "LocationSessionKey \<Rightarrow> LocationSessionKey \<Rightarrow> bool" where
  "less_eq_LocationSessionKey left right \<longleftrightarrow>
     key_id left < key_id right \<or> (key_id left = key_id right \<and> key_client left \<le> key_client right)"

instance
  by standard
    (auto simp: less_LocationSessionKey_def less_eq_LocationSessionKey_def LocationSessionKey.expand)

end

type_synonym sessions = "(LocationSessionKey, LocationOptions) std_map"

text \<open>
  The callbacks of a client that the adapter tests for null before it uses them.
\<close>

record LocationCallbacks =
  cb_response :: bool
  cb_capabilities :: bool
  cb_tracking :: bool
  cb_gnssMeasurements :: bool
  cb_gnssNi :: bool
  cb_gnssSv :: bool
  cb_gnssNmea :: bool

definition no_callbacks :: LocationCallbacks where
  "no_callbacks =
     \<lparr>cb_response = False, cb_capabilities = False, cb_tracking = False,
      cb_gnssMeasurements = False, cb_gnssNi = False, cb_gnssSv = False, cb_gnssNmea = False\<rparr>"

datatype loc_call =
    U_sendFixMode LocPosMode
  | U_sendStartFix
  | U_sendStopFix
  | L_startFix LocPosMode
  | L_stopFix
  | L_setPositionMode LocPosMode
  | L_updateEvtMask u64
  | R_response ptr LocationError u32
  | R_capabilities ptr u32

datatype adapter_msg =
    MsgAddClient ptr LocationCallbacks
  | MsgRemoveClient ptr
  | MsgStartTracking ptr u32 LocationOptions
  | MsgUpdateTracking ptr u32 LocationOptions
  | MsgStopTracking ptr u32
  | MsgRestartSessions
  | MsgRequestCapabilities ptr
  | MsgSetPositionMode LocPosMode
  | MsgUlpStartTracking
  | MsgUlpStopTracking

text \<open>
  What the adapter reads of its configuration and of the other components: fixed here.
\<close>

record adapter_conf =
  conf_external_dr :: u32
  conf_nmea_mask :: u32
  conf_statusV4Cb :: bool
  conf_odcpiRequestCb :: bool
  conf_capabilities :: u32

record adapter =
  mSessionIdCounter :: u32
  mClientData :: "(ptr, LocationCallbacks) std_map"
  mTrackingSessions :: sessions
  mUlpPositionMode :: LocPosMode
  mOdcpiRequestActive :: bool
  mEvtMask :: u64
  msgs :: "adapter_msg list"
  calls :: "(loc_call \<times> bool) list"

definition adapter_new :: adapter where
  "adapter_new =
     \<lparr>mSessionIdCounter = 1, mClientData = [], mTrackingSessions = [],
      mUlpPositionMode = LocPosMode_new\<lparr>pm_mode := LOC_POSITION_MODE_INVALID\<rparr>,
      mOdcpiRequestActive = False, mEvtMask = 0, msgs = [], calls = []\<rparr>"

type_synonym loc_world = "(loc_call, bool) world"

definition do_call :: "loc_world \<Rightarrow> loc_call \<Rightarrow> adapter \<Rightarrow> bool \<times> adapter" where
  "do_call w x a =
     (let ok = w (map fst (calls a)) x in (ok, a\<lparr>calls := calls a @ [(x, ok)]\<rparr>))"

definition sendMsg :: "adapter_msg \<Rightarrow> adapter \<Rightarrow> adapter" where
  "sendMsg m a = a\<lparr>msgs := msgs a @ [m]\<rparr>"

definition generateSessionId :: "adapter \<Rightarrow> u32 \<times> adapter" where
  "generateSessionId a =
     (let n = mSessionIdCounter a + 1;
          n' = (if n = 0xFFFFFFFF then 1 else n)
      in (n', a\<lparr>mSessionIdCounter := n'\<rparr>))"

section \<open>Clients\<close>

definition mask_bit :: "nat \<Rightarrow> bool \<Rightarrow> u64 \<Rightarrow> u64" where
  "mask_bit n b m = (if b then or m (push_bit n 1) else m)"

definition client_mask :: "adapter_conf \<Rightarrow> LocationCallbacks \<Rightarrow> u64 \<Rightarrow> u64" where
  "client_mask cf c m =
     mask_bit 26 (cb_gnssMeasurements c)
       (mask_bit 2 (cb_gnssNmea c \<and> conf_nmea_mask cf \<noteq> 0)
         (mask_bit 1 (cb_gnssSv c)
           (mask_bit 4 (cb_gnssNi c)
             (mask_bit 0 (cb_tracking c) m))))"

definition updateClientsEventMask :: "loc_world \<Rightarrow> adapter_conf \<Rightarrow> adapter \<Rightarrow> adapter" where
  "updateClientsEventMask w cf a =
     (let m0 = fold (\<lambda>e. client_mask cf (snd e)) (mClientData a) 0;
          m1 = mask_bit 23 (conf_external_dr cf = 1) (mask_bit 26 (conf_external_dr cf = 1) m0);
          m2 = mask_bit 6 (conf_statusV4Cb cf) m1;
          m3 = mask_bit 9 (conf_odcpiRequestCb cf) m2
      in snd (do_call w (L_updateEvtMask m3) (a\<lparr>mEvtMask := m3\<rparr>)))"

definition saveClient ::
  "loc_world \<Rightarrow> adapter_conf \<Rightarrow> ptr \<Rightarrow> LocationCallbacks \<Rightarrow> adapter \<Rightarrow> adapter" where
  "saveClient w cf client cb a =
     updateClientsEventMask w cf (a\<lparr>mClientData := map_put client cb (mClientData a)\<rparr>)"

definition eraseClient :: "loc_world \<Rightarrow> adapter_conf \<Rightarrow> ptr \<Rightarrow> adapter \<Rightarrow> adapter" where
  "eraseClient w cf client a =
     updateClientsEventMask w cf (a\<lparr>mClientData := map_erase client (mClientData a)\<rparr>)"

definition getClientCallbacks :: "ptr \<Rightarrow> adapter \<Rightarrow> LocationCallbacks" where
  "getClientCallbacks client a =
     (case map_of (mClientData a) client of None \<Rightarrow> no_callbacks | Some c \<Rightarrow> c)"

definition hasTrackingCallback :: "ptr \<Rightarrow> adapter \<Rightarrow> bool" where
  "hasTrackingCallback client a =
     (case map_of (mClientData a) client of None \<Rightarrow> False | Some c \<Rightarrow> cb_tracking c)"

definition hasMeasurementsCallback :: "ptr \<Rightarrow> adapter \<Rightarrow> bool" where
  "hasMeasurementsCallback client a =
     (case map_of (mClientData a) client of None \<Rightarrow> False | Some c \<Rightarrow> cb_gnssMeasurements c)"

definition reportResponse :: "ptr \<Rightarrow> LocationError \<Rightarrow> u32 \<Rightarrow> adapter \<Rightarrow> adapter" where
  "reportResponse client err i a =
     (case map_of (mClientData a) client of
        None \<Rightarrow> a
      | Some c \<Rightarrow> if cb_response c then a\<lparr>calls := calls a @ [(R_response client err i, True)]\<rparr> else a)"

definition broadcastCapabilities :: "u32 \<Rightarrow> adapter \<Rightarrow> adapter" where
  "broadcastCapabilities m a =
     a\<lparr>calls := calls a @
        map (\<lambda>e. (R_capabilities (fst e) m, True)) (filter (\<lambda>e. cb_capabilities (snd e)) (mClientData a))\<rparr>"

section \<open>Sessions\<close>

definition isTrackingSession :: "ptr \<Rightarrow> u32 \<Rightarrow> adapter \<Rightarrow> bool" where
  "isTrackingSession client i a = map_has (SessionKey client i) (mTrackingSessions a)"

definition saveTrackingSession :: "ptr \<Rightarrow> u32 \<Rightarrow> LocationOptions \<Rightarrow> adapter \<Rightarrow> adapter" where
  "saveTrackingSession client i options a =
     a\<lparr>mTrackingSessions := map_put (SessionKey client i) options (mTrackingSessions a)\<rparr>"

definition eraseTrackingSession :: "ptr \<Rightarrow> u32 \<Rightarrow> adapter \<Rightarrow> adapter" where
  "eraseTrackingSession client i a =
     a\<lparr>mTrackingSessions := map_erase (SessionKey client i) (mTrackingSessions a)\<rparr>"

definition setUlpPositionMode :: "LocPosMode \<Rightarrow> adapter \<Rightarrow> bool \<times> adapter" where
  "setUlpPositionMode m a =
     (if \<not> LocPosMode_equals (mUlpPositionMode a) m then (True, a\<lparr>mUlpPositionMode := m\<rparr>)
      else (False, a))"

fun convert_mode :: "GnssSuplMode \<Rightarrow> LocPositionMode" where
  "convert_mode GNSS_SUPL_MODE_MSB = LOC_POSITION_MODE_MS_BASED"
| "convert_mode GNSS_SUPL_MODE_MSA = LOC_POSITION_MODE_MS_ASSISTED"
| "convert_mode _ = LOC_POSITION_MODE_STANDALONE"

definition convertOptions :: "LocPosMode \<Rightarrow> LocationOptions \<Rightarrow> LocPosMode" where
  "convertOptions out options =
     out\<lparr>pm_mode := convert_mode (lo_mode options), share_position := True,
         min_interval := minInterval options\<rparr>"

definition startTracking :: "loc_world \<Rightarrow> LocationOptions \<Rightarrow> adapter \<Rightarrow> LocationError \<times> adapter" where
  "startTracking w options a =
     (let locPosMode = convertOptions LocPosMode_new options;
          a1 = snd (do_call w (U_sendFixMode locPosMode) a);
          (taken, a2) = do_call w U_sendStartFix a1
      in if \<not> taken then
           let (ok, a3) = do_call w (L_startFix locPosMode) a2
           in (if ok then LOCATION_ERROR_SUCCESS else LOCATION_ERROR_GENERAL_FAILURE, a3)
         else (LOCATION_ERROR_SUCCESS, a2))"

definition stopTracking :: "loc_world \<Rightarrow> adapter \<Rightarrow> LocationError \<times> adapter" where
  "stopTracking w a =
     (let (taken, a1) = do_call w U_sendStopFix a
      in if \<not> taken then
           let (ok, a2) = do_call w L_stopFix a1
           in (if ok then LOCATION_ERROR_SUCCESS else LOCATION_ERROR_GENERAL_FAILURE, a2)
         else (LOCATION_ERROR_SUCCESS, a1))"

text \<open>
  The loop that looks for the smallest interval, over the sessions that satisfy \<open>P\<close>: the size
  of the accumulator is 0 until it is set for the first time.
\<close>

fun smallest_loop ::
  "(LocationSessionKey \<Rightarrow> bool) \<Rightarrow> sessions \<Rightarrow> LocationOptions \<Rightarrow> LocationOptions" where
  "smallest_loop P [] acc = acc"
| "smallest_loop P ((k, options) # m) acc =
     smallest_loop P m
       (if P k \<and> (lo_size acc = 0 \<or> minInterval options < minInterval acc) then options else acc)"

definition smallest :: "(LocationSessionKey \<Rightarrow> bool) \<Rightarrow> sessions \<Rightarrow> LocationOptions" where
  "smallest P m = smallest_loop P m LocationOptions_zero"

definition startTrackingMultiplex ::
  "loc_world \<Rightarrow> LocationOptions \<Rightarrow> adapter \<Rightarrow> LocationError \<times> adapter" where
  "startTrackingMultiplex w options a =
     (if mTrackingSessions a = [] then startTracking w options a
      else
        let sm = smallest (\<lambda>_. True) (mTrackingSessions a)
        in if minInterval options < minInterval sm then startTracking w options a
           else (LOCATION_ERROR_SUCCESS, a))"

definition updateTrackingMultiplex ::
  "loc_world \<Rightarrow> ptr \<Rightarrow> u32 \<Rightarrow> LocationOptions \<Rightarrow> adapter \<Rightarrow> LocationError \<times> adapter" where
  "updateTrackingMultiplex w client i options a =
     (if length (mTrackingSessions a) = 1 then startTracking w options a
      else
        let key = SessionKey client i
        in case map_of (mTrackingSessions a) key of
             None \<Rightarrow> (LOCATION_ERROR_SUCCESS, a)
           | Some old \<Rightarrow>
               let sm = smallest (\<lambda>k. k \<noteq> key) (mTrackingSessions a)
               in if minInterval options < minInterval sm then startTracking w options a
                  else if minInterval old < minInterval sm then startTracking w sm a
                  else (LOCATION_ERROR_SUCCESS, a))"

definition stopTrackingMultiplex ::
  "loc_world \<Rightarrow> ptr \<Rightarrow> u32 \<Rightarrow> adapter \<Rightarrow> LocationError \<times> adapter" where
  "stopTrackingMultiplex w client i a =
     (if length (mTrackingSessions a) = 1 then stopTracking w a
      else
        let key = SessionKey client i
        in case map_of (mTrackingSessions a) key of
             None \<Rightarrow> (LOCATION_ERROR_SUCCESS, a)
           | Some old \<Rightarrow>
               let sm = smallest (\<lambda>k. k \<noteq> key) (mTrackingSessions a)
               in if minInterval old < minInterval sm then startTracking w sm a
                  else (LOCATION_ERROR_SUCCESS, a))"

text \<open>
  The loop erases only the element it stands on, so it visits the keys there were at first.
\<close>

fun stop_loop :: "loc_world \<Rightarrow> ptr \<Rightarrow> LocationSessionKey list \<Rightarrow> adapter \<Rightarrow> adapter" where
  "stop_loop w client [] a = a"
| "stop_loop w client (k # ks) a =
     (if client = key_client k then
        let (err, a1) = stopTrackingMultiplex w (key_client k) (key_id k) a
        in if err = LOCATION_ERROR_SUCCESS
           then stop_loop w client ks (a1\<lparr>mTrackingSessions := map_erase k (mTrackingSessions a1)\<rparr>)
           else stop_loop w client ks a1
      else stop_loop w client ks a)"

definition stopClientSessions :: "loc_world \<Rightarrow> ptr \<Rightarrow> adapter \<Rightarrow> adapter" where
  "stopClientSessions w client a = stop_loop w client (map fst (mTrackingSessions a)) a"

definition restartSessions :: "loc_world \<Rightarrow> adapter \<Rightarrow> adapter" where
  "restartSessions w a =
     (let a1 = a\<lparr>mOdcpiRequestActive := False\<rparr>
      in if mTrackingSessions a1 = [] then a1
         else
           let sm = smallest (\<lambda>_. True) (mTrackingSessions a1);
               locPosMode = convertOptions LocPosMode_new sm
           in snd (do_call w (L_startFix locPosMode) a1))"

section \<open>Commands and messages\<close>

definition startTrackingCommand :: "ptr \<Rightarrow> LocationOptions \<Rightarrow> adapter \<Rightarrow> u32 \<times> adapter" where
  "startTrackingCommand client options a =
     (let (i, a1) = generateSessionId a
      in (i, sendMsg (MsgStartTracking client i options) a1))"

definition startTracking_proc ::
  "loc_world \<Rightarrow> ptr \<Rightarrow> u32 \<Rightarrow> LocationOptions \<Rightarrow> adapter \<Rightarrow> adapter" where
  "startTracking_proc w client i options a =
     (let (err, a1) =
        (if \<not> hasTrackingCallback client a \<and> \<not> hasMeasurementsCallback client a
         then (LOCATION_ERROR_CALLBACK_MISSING, a)
         else if lo_size options = 0 then (LOCATION_ERROR_INVALID_PARAMETER, a)
         else
           let (err, a1) = startTrackingMultiplex w options a
           in (err, if err = LOCATION_ERROR_SUCCESS
                    then saveTrackingSession client i options a1 else a1))
      in reportResponse client err i a1)"

definition updateTracking_proc ::
  "loc_world \<Rightarrow> ptr \<Rightarrow> u32 \<Rightarrow> LocationOptions \<Rightarrow> adapter \<Rightarrow> adapter" where
  "updateTracking_proc w client i options a =
     (if isTrackingSession client i a then
        let (err, a1) =
          (if lo_size options = 0 then (LOCATION_ERROR_INVALID_PARAMETER, a)
           else
             let (err, a1) = updateTrackingMultiplex w client i options a
             in (err, if err = LOCATION_ERROR_SUCCESS
                      then saveTrackingSession client i options a1 else a1))
        in reportResponse client err i a1
      else a)"

definition stopTracking_proc :: "loc_world \<Rightarrow> ptr \<Rightarrow> u32 \<Rightarrow> adapter \<Rightarrow> adapter" where
  "stopTracking_proc w client i a =
     (if isTrackingSession client i a then
        let (err, a1) = stopTrackingMultiplex w client i a;
            a2 = (if err = LOCATION_ERROR_SUCCESS then eraseTrackingSession client i a1 else a1)
        in reportResponse client err i a2
      else a)"

definition requestCapabilities_proc :: "adapter_conf \<Rightarrow> ptr \<Rightarrow> adapter \<Rightarrow> adapter" where
  "requestCapabilities_proc cf client a =
     (if \<not> cb_capabilities (getClientCallbacks client a) then a
      else a\<lparr>calls := calls a @ [(R_capabilities client (conf_capabilities cf), True)]\<rparr>)"

definition setPositionMode_proc :: "loc_world \<Rightarrow> LocPosMode \<Rightarrow> adapter \<Rightarrow> adapter" where
  "setPositionMode_proc w m a =
     (let (changed, a1) = setUlpPositionMode m a
      in if changed then snd (do_call w (L_setPositionMode m) a1) else a1)"

definition ulpStartTracking_proc :: "loc_world \<Rightarrow> adapter \<Rightarrow> adapter" where
  "ulpStartTracking_proc w a =
     (if mTrackingSessions a = [] then snd (do_call w (L_startFix (mUlpPositionMode a)) a) else a)"

definition ulpStopTracking_proc :: "loc_world \<Rightarrow> adapter \<Rightarrow> adapter" where
  "ulpStopTracking_proc w a =
     (let m = LocPosMode_new\<lparr>pm_mode := LOC_POSITION_MODE_INVALID\<rparr>;
          a1 = snd (setUlpPositionMode m a)
      in snd (do_call w L_stopFix a1))"

fun proc :: "loc_world \<Rightarrow> adapter_conf \<Rightarrow> adapter_msg \<Rightarrow> adapter \<Rightarrow> adapter" where
  "proc w cf (MsgAddClient client cb) a = saveClient w cf client cb a"
| "proc w cf (MsgRemoveClient client) a = eraseClient w cf client (stopClientSessions w client a)"
| "proc w cf (MsgStartTracking client i options) a = startTracking_proc w client i options a"
| "proc w cf (MsgUpdateTracking client i options) a = updateTracking_proc w client i options a"
| "proc w cf (MsgStopTracking client i) a = stopTracking_proc w client i a"
| "proc w cf MsgRestartSessions a = restartSessions w a"
| "proc w cf (MsgRequestCapabilities client) a = requestCapabilities_proc cf client a"
| "proc w cf (MsgSetPositionMode m) a = setPositionMode_proc w m a"
| "proc w cf MsgUlpStartTracking a = ulpStartTracking_proc w a"
| "proc w cf MsgUlpStopTracking a = ulpStopTracking_proc w a"

text \<open>
  An event is a command, which only queues its message, or the adapter's thread processing the
  message at the head of its queue. Commands that come with a session id carry any id: a client
  may name one that does not exist or is not its own.
\<close>

datatype adapter_event =
    Command_start ptr LocationOptions
  | Command adapter_msg
  | Process

fun adapter_step :: "loc_world \<Rightarrow> adapter_conf \<Rightarrow> adapter_event \<Rightarrow> adapter \<Rightarrow> adapter" where
  "adapter_step w cf (Command_start client options) a = snd (startTrackingCommand client options a)"
| "adapter_step w cf (Command m) a = sendMsg m a"
| "adapter_step w cf Process a =
     (case msgs a of [] \<Rightarrow> a | m # ms \<Rightarrow> proc w cf m (a\<lparr>msgs := ms\<rparr>))"

definition adapter_run :: "loc_world \<Rightarrow> adapter_conf \<Rightarrow> adapter_event list \<Rightarrow> adapter" where
  "adapter_run w cf evs = fold (adapter_step w cf) evs adapter_new"

end
