(* ===== verification/Tracking_Proofs.thy ===== *)
theory Tracking_Proofs
  imports Gnss_Tracking
begin

text \<open>
  What holds of the tracking multiplexer: the interval the modem serves is always the smallest
  of the sessions, session ids are unique for as long as they can be, and removing a client
  takes its sessions along.
\<close>

section \<open>Maps and intervals\<close>

lemma set_map_put:
  assumes "std_map_ok m"
  shows "set (map_put k v m) = insert (k, v) {e \<in> set m. fst e \<noteq> k}"
proof -
  have "(k', v') \<in> set (map_put k v m) \<longleftrightarrow> (k', v') \<in> insert (k, v) {e \<in> set m. fst e \<noteq> k}" for k' v'
    using assms by (auto simp: set_std_map split: if_splits)
  then show ?thesis by auto
qed

lemma set_map_erase: "set (map_erase k m) = {e \<in> set m. fst e \<noteq> k}"
  by (auto simp: map_erase_def)

text \<open>
  \<open>i\<close> is the smallest interval of a set of sessions.
\<close>

definition least :: "u32 \<Rightarrow> (LocationSessionKey \<times> LocationOptions) set \<Rightarrow> bool" where
  "least i S \<longleftrightarrow> (\<exists>e \<in> S. minInterval (snd e) = i) \<and> (\<forall>e \<in> S. i \<le> minInterval (snd e))"

lemma least_unique: "least i S \<Longrightarrow> least j S \<Longrightarrow> i = j"
  by (force simp: least_def intro: order.antisym)

lemma least_insert_less: "least i S \<Longrightarrow> minInterval p < i \<Longrightarrow> least (minInterval p) (insert (k, p) S)"
  by (force simp: least_def)

lemma least_insert_ge: "least i S \<Longrightarrow> i \<le> minInterval p \<Longrightarrow> least i (insert (k, p) S)"
  by (auto simp: least_def)

lemma least_single: "least i {(k, p)} \<longleftrightarrow> i = minInterval p"
  by (auto simp: least_def)

lemma smallest_loop_spec:
  assumes "\<forall>e \<in> set m. lo_size (snd e) \<noteq> 0"
  shows "(smallest_loop P m acc = acc \<or> (\<exists>k. (k, smallest_loop P m acc) \<in> set m \<and> P k)) \<and>
    (\<forall>e \<in> set m. P (fst e) \<longrightarrow> minInterval (smallest_loop P m acc) \<le> minInterval (snd e)) \<and>
    (lo_size acc \<noteq> 0 \<longrightarrow> minInterval (smallest_loop P m acc) \<le> minInterval acc) \<and>
    (lo_size acc = 0 \<and> (\<exists>e \<in> set m. P (fst e)) \<longrightarrow> smallest_loop P m acc \<noteq> acc)"
  using assms
proof (induction m arbitrary: acc)
  case (Cons e m)
  obtain k p where e: "e = (k, p)" by (cases e)
  let ?acc = "if P k \<and> (lo_size acc = 0 \<or> minInterval p < minInterval acc) then p else acc"
  have p: "lo_size p \<noteq> 0" and m: "\<forall>e \<in> set m. lo_size (snd e) \<noteq> 0"
    using Cons.prems by (auto simp: e)
  note IH = Cons.IH[OF m, of ?acc]
  show ?case
  proof (cases "P k \<and> (lo_size acc = 0 \<or> minInterval p < minInterval acc)")
    case True
    then have "smallest_loop P (e # m) acc = smallest_loop P m p" by (simp add: e)
    moreover note IH' = IH[unfolded if_P[OF True]]
    moreover have "smallest_loop P m p \<noteq> acc" if "lo_size acc = 0"
      using IH' p that m by (metis snd_conv)
    ultimately show ?thesis using True p by (auto simp: e)
  next
    case False
    have "smallest_loop P (e # m) acc = smallest_loop P m acc"
      by (simp only: e smallest_loop.simps if_not_P[OF False])
    moreover note IH' = IH[unfolded if_not_P[OF False]]
    ultimately show ?thesis using False by (auto simp: e)
  qed
qed simp

lemma smallest_least:
  assumes "\<forall>e \<in> set m. lo_size (snd e) \<noteq> 0" "{e \<in> set m. P (fst e)} \<noteq> {}"
  shows "least (minInterval (smallest P m)) {e \<in> set m. P (fst e)}"
proof -
  let ?r = "smallest P m"
  obtain e where "e \<in> set m" "P (fst e)" using assms(2) by blast
  then obtain k where "(k, ?r) \<in> set m" "P k"
    using smallest_loop_spec[OF assms(1), of P LocationOptions_zero]
    by (auto simp: smallest_def LocationOptions_zero_def)
  moreover have "\<forall>e \<in> set m. P (fst e) \<longrightarrow> minInterval ?r \<le> minInterval (snd e)"
    using smallest_loop_spec[OF assms(1), of P LocationOptions_zero] by (simp add: smallest_def)
  ultimately show ?thesis
    unfolding least_def by (auto intro!: bexI[of _ "(k, ?r)"])
qed

section \<open>The fix the modem serves\<close>

text \<open>
  The last fix request that the modem accepted and has not been told to stop.
\<close>

fun active_step :: "LocPosMode option \<Rightarrow> loc_call \<times> bool \<Rightarrow> LocPosMode option" where
  "active_step st (L_startFix m, True) = Some m"
| "active_step st (L_stopFix, True) = None"
| "active_step st _ = st"

definition active :: "adapter \<Rightarrow> LocPosMode option" where
  "active a = foldl active_step None (calls a)"

definition no_ulp :: "loc_world \<Rightarrow> bool" where
  "no_ulp w \<longleftrightarrow> (\<forall>log. \<not> w log U_sendStartFix \<and> \<not> w log U_sendStopFix)"

text \<open>
  The parts of the state that the calls to the modem leave alone.
\<close>

definition same_but_calls :: "adapter \<Rightarrow> adapter \<Rightarrow> bool" where
  "same_but_calls a a' \<longleftrightarrow> (\<exists>cs. a' = a\<lparr>calls := cs\<rparr>)"

lemma same_but_callsD:
  assumes "same_but_calls a a'"
  shows "mTrackingSessions a' = mTrackingSessions a" "msgs a' = msgs a"
    "mSessionIdCounter a' = mSessionIdCounter a" "mClientData a' = mClientData a"
  using assms by (auto simp: same_but_calls_def)

lemma startTracking_result:
  assumes "no_ulp w" "startTracking w p a = (err, a')"
  shows "same_but_calls a a'"
    and "if err = LOCATION_ERROR_SUCCESS then active a' = Some (convertOptions LocPosMode_new p)
         else active a' = active a"
  using assms
  by (auto simp: startTracking_def do_call_def no_ulp_def Let_def active_def same_but_calls_def
      split: if_splits)

lemma stopTracking_result:
  assumes "no_ulp w" "stopTracking w a = (err, a')"
  shows "same_but_calls a a'"
    and "if err = LOCATION_ERROR_SUCCESS then active a' = None else active a' = active a"
  using assms
  by (auto simp: stopTracking_def do_call_def no_ulp_def Let_def active_def same_but_calls_def
      split: if_splits)

lemma convert_interval [simp]: "min_interval (convertOptions m p) = minInterval p"
  by (simp add: convertOptions_def)

text \<open>
  \<open>serves a S\<close>: what the modem serves is right for the set of sessions \<open>S\<close>.
\<close>

definition serves :: "adapter \<Rightarrow> (LocationSessionKey \<times> LocationOptions) set \<Rightarrow> bool" where
  "serves a S \<longleftrightarrow>
     (case active a of None \<Rightarrow> S = {} | Some m \<Rightarrow> least (min_interval m) S)"

definition track_ok :: "adapter \<Rightarrow> bool" where
  "track_ok a \<longleftrightarrow> std_map_ok (mTrackingSessions a) \<and>
     (\<forall>e \<in> set (mTrackingSessions a). lo_size (snd e) \<noteq> 0) \<and> serves a (set (mTrackingSessions a))"

lemma serves_active: "serves a S \<Longrightarrow> active a' = active a \<Longrightarrow> serves a' S"
  by (simp add: serves_def)

lemma serves_start:
  "active a = Some (convertOptions m p) \<Longrightarrow> least (minInterval p) S \<Longrightarrow> serves a S"
  by (simp add: serves_def)

lemma serves_least: "serves a S \<Longrightarrow> S \<noteq> {} \<Longrightarrow> \<exists>m. active a = Some m \<and> least (min_interval m) S"
  by (auto simp: serves_def split: option.splits)

text \<open>
  The three multiplexing functions: when they report success the modem serves the sessions as
  they will be after the caller has recorded the change; when not, it serves them as they were.
\<close>

lemma start_multiplex:
  assumes u: "no_ulp w" and a: "track_ok a" and r: "startTrackingMultiplex w p a = (err, a')"
  shows "same_but_calls a a'"
    and "if err = LOCATION_ERROR_SUCCESS then serves a' (insert (k, p) (set (mTrackingSessions a)))
         else serves a' (set (mTrackingSessions a))"
proof -
  let ?S = "set (mTrackingSessions a)"
  have sz: "\<forall>e \<in> ?S. lo_size (snd e) \<noteq> 0" and sv: "serves a ?S" using a by (simp_all add: track_ok_def)
  have start: "same_but_calls a a' \<and>
      (if err = LOCATION_ERROR_SUCCESS then serves a' (insert (k, p) ?S) else serves a' ?S)"
    if st: "startTracking w p a = (err, a')" and l: "least (minInterval p) (insert (k, p) ?S)"
    using startTracking_result[OF u st] serves_start[OF _ l] serves_active[OF sv] by auto
  have "same_but_calls a a' \<and>
      (if err = LOCATION_ERROR_SUCCESS then serves a' (insert (k, p) ?S) else serves a' ?S)"
  proof (cases "mTrackingSessions a = []")
    case True
    show ?thesis
      by (rule start) (use r True in \<open>simp_all add: startTrackingMultiplex_def least_single\<close>)
  next
    case False
    let ?i = "minInterval (smallest (\<lambda>_. True) (mTrackingSessions a))"
    have l: "least ?i ?S"
      using smallest_least[OF sz, of "\<lambda>_. True"] False by simp
    show ?thesis
    proof (cases "minInterval p < ?i")
      case True
      then show ?thesis
        using start r False least_insert_less[OF l True] by (simp add: startTrackingMultiplex_def Let_def)
    next
      case less: False
      have e: "err = LOCATION_ERROR_SUCCESS" "a' = a"
        using r False less by (auto simp: startTrackingMultiplex_def Let_def)
      obtain m where m: "active a = Some m" "least (min_interval m) ?S"
        using serves_least[OF sv] False by auto
      have "least (min_interval m) (insert (k, p) ?S)"
        using least_insert_ge[OF m(2)] least_unique[OF l m(2)] less by simp
      then show ?thesis
        using e m(1) by (simp add: serves_def same_but_calls_def exI[of _ "calls a"])
    qed
  qed
  then show "same_but_calls a a'"
    and "if err = LOCATION_ERROR_SUCCESS then serves a' (insert (k, p) ?S) else serves a' ?S"
    by blast+
qed

lemma split_session:
  assumes ok: "std_map_ok m" and k: "map_of m k = Some p"
  shows "set m = insert (k, p) {e \<in> set m. fst e \<noteq> k}"
    and "length m = 1 \<longleftrightarrow> {e \<in> set m. fst e \<noteq> k} = {}"
proof -
  show ins: "set m = insert (k, p) {e \<in> set m. fst e \<noteq> k}"
    using k set_std_map[OF ok] by (auto simp: prod_eq_iff)
  have dm: "distinct m" using ok by (simp add: std_map_ok_def distinct_map)
  have "length m = card (set m)" using distinct_card[OF dm] by simp
  moreover have "card (insert (k, p) {e \<in> set m. fst e \<noteq> k}) = Suc (card {e \<in> set m. fst e \<noteq> k})"
    by (intro card_insert_disjoint) auto
  ultimately have "length m = Suc (card {e \<in> set m. fst e \<noteq> k})" using ins by simp
  then show "length m = 1 \<longleftrightarrow> {e \<in> set m. fst e \<noteq> k} = {}" by auto
qed

text \<open>
  Whatever the multiplexer does about one session, it compares with the others.
\<close>

lemma others_smallest:
  assumes a: "track_ok a" and k: "map_of (mTrackingSessions a) k = Some old"
    and n: "length (mTrackingSessions a) \<noteq> 1"
  defines "S \<equiv> {e \<in> set (mTrackingSessions a). fst e \<noteq> k}"
    and "sm \<equiv> smallest (\<lambda>k'. k' \<noteq> k) (mTrackingSessions a)"
  obtains m where "S \<noteq> {}" "least (minInterval sm) S" "active a = Some m"
    "min_interval m = (if minInterval old < minInterval sm then minInterval old else minInterval sm)"
proof -
  have ok: "std_map_ok (mTrackingSessions a)" and sz: "\<forall>e \<in> set (mTrackingSessions a). lo_size (snd e) \<noteq> 0"
    using a by (auto simp: track_ok_def)
  note sp = split_session[OF ok k, folded S_def]
  have S: "S \<noteq> {}" using sp(2) n by simp
  have l: "least (minInterval sm) S"
    using smallest_least[OF sz, of "\<lambda>k'. k' \<noteq> k"] S by (simp add: S_def sm_def)
  obtain m where m: "active a = Some m" "least (min_interval m) (set (mTrackingSessions a))"
  proof -
    have "set (mTrackingSessions a) \<noteq> {}" using S by (auto simp: S_def)
    then show ?thesis
      using that a serves_least[of a "set (mTrackingSessions a)"] by (auto simp: track_ok_def)
  qed
  have "least (if minInterval old < minInterval sm then minInterval old else minInterval sm)
      (insert (k, old) S)"
    using least_insert_less[OF l, of old k] least_insert_ge[OF l, of old k] by auto
  then have "min_interval m = (if minInterval old < minInterval sm then minInterval old else minInterval sm)"
    by (intro least_unique[OF m(2)]) (simp only: sp(1))
  then show ?thesis using that S l m(1) by blast
qed

lemma update_multiplex:
  assumes u: "no_ulp w" and a: "track_ok a"
    and k: "map_of (mTrackingSessions a) (SessionKey client i) = Some old"
    and r: "updateTrackingMultiplex w client i p a = (err, a')"
  shows "same_but_calls a a' \<and>
    (if err = LOCATION_ERROR_SUCCESS
     then serves a' (insert (SessionKey client i, p)
            {e \<in> set (mTrackingSessions a). fst e \<noteq> SessionKey client i})
     else serves a' (set (mTrackingSessions a)))"
proof -
  let ?k = "SessionKey client i"
  let ?S = "{e \<in> set (mTrackingSessions a). fst e \<noteq> ?k}"
  have ok: "std_map_ok (mTrackingSessions a)" and sv: "serves a (set (mTrackingSessions a))"
    using a by (auto simp: track_ok_def)
  have start: ?thesis if st: "startTracking w q a = (err, a')" and l: "least (minInterval q) (insert (?k, p) ?S)" for q
    using startTracking_result[OF u st] serves_start[OF _ l] serves_active[OF sv] by auto
  show ?thesis
  proof (cases "length (mTrackingSessions a) = 1")
    case True
    then have "?S = {}" using split_session(2)[OF ok k] by simp
    then have "least (minInterval p) (insert (?k, p) ?S)" by (simp only: least_single)
    moreover have "startTracking w p a = (err, a')" using r True by (simp add: updateTrackingMultiplex_def)
    ultimately show ?thesis by (rule start[rotated])
  next
    case False
    let ?sm = "smallest (\<lambda>k'. k' \<noteq> ?k) (mTrackingSessions a)"
    obtain m where S: "?S \<noteq> {}" and l: "least (minInterval ?sm) ?S" and m: "active a = Some m"
      "min_interval m = (if minInterval old < minInterval ?sm then minInterval old else minInterval ?sm)"
      by (rule others_smallest[OF a k False])
    show ?thesis
    proof (cases "minInterval p < minInterval ?sm")
      case True
      then show ?thesis
        using start[OF _ least_insert_less[OF l True]] r False k
        by (simp add: updateTrackingMultiplex_def Let_def)
    next
      case ge: False
      then have li: "least (minInterval ?sm) (insert (?k, p) ?S)"
        by (intro least_insert_ge[OF l]) simp
      show ?thesis
      proof (cases "minInterval old < minInterval ?sm")
        case True
        then show ?thesis
          using start[OF _ li] r False ge k by (simp add: updateTrackingMultiplex_def Let_def)
      next
        case old: False
        then have "serves a (insert (?k, p) ?S)" using m li by (simp add: serves_def)
        moreover have "err = LOCATION_ERROR_SUCCESS" "a' = a"
          using r False ge old k by (simp_all add: updateTrackingMultiplex_def Let_def)
        ultimately show ?thesis by (simp add: same_but_calls_def exI[of _ "calls a"])
      qed
    qed
  qed
qed

lemma stop_multiplex:
  assumes u: "no_ulp w" and a: "track_ok a"
    and k: "map_of (mTrackingSessions a) (SessionKey client i) = Some old"
    and r: "stopTrackingMultiplex w client i a = (err, a')"
  shows "same_but_calls a a' \<and>
    (if err = LOCATION_ERROR_SUCCESS
     then serves a' {e \<in> set (mTrackingSessions a). fst e \<noteq> SessionKey client i}
     else serves a' (set (mTrackingSessions a)))"
proof -
  let ?k = "SessionKey client i"
  let ?S = "{e \<in> set (mTrackingSessions a). fst e \<noteq> ?k}"
  have ok: "std_map_ok (mTrackingSessions a)" and sv: "serves a (set (mTrackingSessions a))"
    using a by (auto simp: track_ok_def)
  show ?thesis
  proof (cases "length (mTrackingSessions a) = 1")
    case True
    then have "?S = {}" using split_session(2)[OF ok k] by simp
    moreover have "stopTracking w a = (err, a')" using r True by (simp add: stopTrackingMultiplex_def)
    note stopTracking_result[OF u this]
    ultimately show ?thesis using serves_active[OF sv] by (auto simp: serves_def)
  next
    case False
    let ?sm = "smallest (\<lambda>k'. k' \<noteq> ?k) (mTrackingSessions a)"
    obtain m where S: "?S \<noteq> {}" and l: "least (minInterval ?sm) ?S" and m: "active a = Some m"
      "min_interval m = (if minInterval old < minInterval ?sm then minInterval old else minInterval ?sm)"
      by (rule others_smallest[OF a k False])
    show ?thesis
    proof (cases "minInterval old < minInterval ?sm")
      case True
      then have st: "startTracking w ?sm a = (err, a')"
        using r False k by (simp add: stopTrackingMultiplex_def Let_def)
      show ?thesis
        using startTracking_result[OF u st] serves_start[OF _ l] serves_active[OF sv] by auto
    next
      case old: False
      then have "serves a ?S" using m l by (simp add: serves_def)
      moreover have "err = LOCATION_ERROR_SUCCESS" "a' = a"
        using r False old k by (simp_all add: stopTrackingMultiplex_def Let_def)
      ultimately show ?thesis by (simp add: same_but_calls_def exI[of _ "calls a"])
    qed
  qed
qed

section \<open>Messages\<close>

lemma active_snoc: "active (a\<lparr>calls := calls a @ [x]\<rparr>) = active_step (active a) x"
  by (simp add: active_def)

lemma do_call_frame:
  "mTrackingSessions (snd (do_call w x a)) = mTrackingSessions a" "msgs (snd (do_call w x a)) = msgs a"
  "mSessionIdCounter (snd (do_call w x a)) = mSessionIdCounter a"
  "mClientData (snd (do_call w x a)) = mClientData a"
  "active (snd (do_call w x a)) = active_step (active a) (x, fst (do_call w x a))"
  by (simp_all add: do_call_def active_def Let_def)

text \<open>
  A step that touches neither the sessions nor what the modem serves.
\<close>

definition track_frame :: "adapter \<Rightarrow> adapter \<Rightarrow> bool" where
  "track_frame a a' \<longleftrightarrow> mTrackingSessions a' = mTrackingSessions a \<and> active a' = active a \<and>
     msgs a' = msgs a \<and> mSessionIdCounter a' = mSessionIdCounter a"

lemma track_frame_ok: "track_frame a a' \<Longrightarrow> track_ok a \<Longrightarrow> track_ok a'"
  by (simp add: track_frame_def track_ok_def serves_def)

lemma frame_report: "track_frame a (reportResponse client err i a)"
  by (auto simp: track_frame_def reportResponse_def active_snoc split: option.split)

lemma frame_mask: "track_frame a (updateClientsEventMask w cf a)"
  by (simp add: track_frame_def updateClientsEventMask_def do_call_def active_def Let_def)

lemma frame_clients:
  "track_frame a (saveClient w cf client cb a)" "track_frame a (eraseClient w cf client a)"
  using frame_mask[of "a\<lparr>mClientData := map_put client cb (mClientData a)\<rparr>" w cf]
    frame_mask[of "a\<lparr>mClientData := map_erase client (mClientData a)\<rparr>" w cf]
  by (simp_all add: track_frame_def saveClient_def eraseClient_def active_def)

lemma frame_others:
  "track_frame a (requestCapabilities_proc cf client a)" "track_frame a (setPositionMode_proc w m a)"
  by (auto simp: track_frame_def requestCapabilities_proc_def setPositionMode_proc_def
      setUlpPositionMode_def do_call_def active_def Let_def)

lemma restart_ok:
  assumes "track_ok a"
  shows "track_ok (restartSessions w a) \<and> mTrackingSessions (restartSessions w a) = mTrackingSessions a \<and>
    msgs (restartSessions w a) = msgs a \<and> mSessionIdCounter (restartSessions w a) = mSessionIdCounter a"
proof (cases "mTrackingSessions a = []")
  case True
  then show ?thesis using assms by (simp add: restartSessions_def track_ok_def serves_def active_def)
next
  case False
  let ?p = "smallest (\<lambda>_. True) (mTrackingSessions a)"
  have l: "least (minInterval ?p) (set (mTrackingSessions a))"
    using smallest_least[of "mTrackingSessions a" "\<lambda>_. True"] assms False by (auto simp: track_ok_def)
  have "active (a\<lparr>mOdcpiRequestActive := False\<rparr>) = active a" by (simp add: active_def)
  then show ?thesis
    using assms False l
    by (auto simp: restartSessions_def Let_def track_ok_def serves_def do_call_frame
        split: option.splits) (cases "fst (do_call w (L_startFix (convertOptions LocPosMode_new ?p)) (a\<lparr>mOdcpiRequestActive := False\<rparr>))"; auto)+
qed

lemma save_ok:
  assumes "std_map_ok (mTrackingSessions a)" "\<forall>e \<in> set (mTrackingSessions a). lo_size (snd e) \<noteq> 0"
    and "serves a (insert (SessionKey client i, p) {e \<in> set (mTrackingSessions a). fst e \<noteq> SessionKey client i})"
    and "lo_size p \<noteq> 0"
  shows "track_ok (saveTrackingSession client i p a)"
  using assms by (auto simp: track_ok_def saveTrackingSession_def set_map_put serves_def active_def)

lemma erase_ok:
  assumes "std_map_ok (mTrackingSessions a)" "\<forall>e \<in> set (mTrackingSessions a). lo_size (snd e) \<noteq> 0"
    and "serves a {e \<in> set (mTrackingSessions a). fst e \<noteq> k}"
  shows "track_ok (a\<lparr>mTrackingSessions := map_erase k (mTrackingSessions a)\<rparr>)"
  using assms by (auto simp: track_ok_def set_map_erase serves_def active_def)

lemma start_proc_ok:
  assumes u: "no_ulp w" and a: "track_ok a" and k: "SessionKey client i \<notin> fst ` set (mTrackingSessions a)"
  shows "track_ok (startTracking_proc w client i p a)"
proof -
  have keep: "{e \<in> set (mTrackingSessions a). fst e \<noteq> SessionKey client i} = set (mTrackingSessions a)"
    using k by force
  obtain err a' where r: "startTrackingMultiplex w p a = (err, a')" by fastforce
  note fr = start_multiplex(1)[OF u a r] and sm = start_multiplex(2)[OF u a r, of "SessionKey client i"]
  have ok: "track_ok (if err = LOCATION_ERROR_SUCCESS then saveTrackingSession client i p a' else a')"
    if p: "lo_size p \<noteq> 0"
  proof (cases "err = LOCATION_ERROR_SUCCESS")
    case True
    have "track_ok (saveTrackingSession client i p a')"
      by (rule save_ok) (use a sm p True same_but_callsD[OF fr] keep in \<open>auto simp: track_ok_def\<close>)
    then show ?thesis using True by simp
  next
    case False
    then show ?thesis using a sm same_but_callsD[OF fr] by (simp add: track_ok_def)
  qed
  then show ?thesis
    using a by (auto simp: startTracking_proc_def r Let_def intro!: track_frame_ok[OF frame_report])
qed

lemma update_proc_ok:
  assumes u: "no_ulp w" and a: "track_ok a"
  shows "track_ok (updateTracking_proc w client i p a)"
proof (cases "map_of (mTrackingSessions a) (SessionKey client i)")
  case None
  then show ?thesis using a by (simp add: updateTracking_proc_def isTrackingSession_def map_has_def)
next
  case (Some old)
  obtain err a' where r: "updateTrackingMultiplex w client i p a = (err, a')" by fastforce
  note sm = update_multiplex[OF u a Some r]
  have ok: "track_ok (if err = LOCATION_ERROR_SUCCESS then saveTrackingSession client i p a' else a')"
    if p: "lo_size p \<noteq> 0"
  proof (cases "err = LOCATION_ERROR_SUCCESS")
    case True
    have "track_ok (saveTrackingSession client i p a')"
      by (rule save_ok) (use a sm p True same_but_callsD[of a a'] in \<open>auto simp: track_ok_def\<close>)
    then show ?thesis using True by simp
  next
    case False
    then show ?thesis using a sm same_but_callsD[of a a'] by (simp add: track_ok_def)
  qed
  then show ?thesis
    using a by (auto simp: updateTracking_proc_def r Let_def intro!: track_frame_ok[OF frame_report])
qed

lemma stop_one_ok:
  assumes u: "no_ulp w" and a: "track_ok a" and k: "SessionKey client i \<in> fst ` set (mTrackingSessions a)"
    and r: "stopTrackingMultiplex w client i a = (err, a')"
  defines "b \<equiv> (if err = LOCATION_ERROR_SUCCESS
                  then a'\<lparr>mTrackingSessions := map_erase (SessionKey client i) (mTrackingSessions a')\<rparr> else a')"
  shows "track_ok b" "same_but_calls a a'"
proof -
  obtain old where o: "map_of (mTrackingSessions a) (SessionKey client i) = Some old"
    using k by (auto simp: fst_std_map)
  note sm = stop_multiplex[OF u a o r]
  show "same_but_calls a a'" using sm by simp
  note fr = same_but_callsD[OF this]
  show "track_ok b"
  proof (cases "err = LOCATION_ERROR_SUCCESS")
    case True
    have "track_ok (a'\<lparr>mTrackingSessions := map_erase (SessionKey client i) (mTrackingSessions a')\<rparr>)"
      by (rule erase_ok) (use a sm True fr in \<open>auto simp: track_ok_def\<close>)
    then show ?thesis using True by (simp add: b_def)
  next
    case False
    then show ?thesis using a sm fr by (simp add: b_def track_ok_def)
  qed
qed

lemma stop_proc_ok:
  assumes u: "no_ulp w" and a: "track_ok a"
  shows "track_ok (stopTracking_proc w client i a)"
proof (cases "isTrackingSession client i a")
  case True
  obtain err a' where r: "stopTrackingMultiplex w client i a = (err, a')" by fastforce
  have "SessionKey client i \<in> fst ` set (mTrackingSessions a)"
    using True by (simp add: isTrackingSession_def map_has_def fst_std_map)
  note stop_one_ok[OF u a this r]
  then show ?thesis
    using True by (auto simp: stopTracking_proc_def r Let_def eraseTrackingSession_def
        intro!: track_frame_ok[OF frame_report])
qed (use a in \<open>simp add: stopTracking_proc_def\<close>)

lemma stop_loop_ok:
  assumes u: "no_ulp w"
  shows "track_ok a \<Longrightarrow> distinct ks \<Longrightarrow> set ks \<subseteq> fst ` set (mTrackingSessions a) \<Longrightarrow>
    track_ok (stop_loop w client ks a) \<and>
    set (mTrackingSessions (stop_loop w client ks a)) \<subseteq> set (mTrackingSessions a) \<and>
    msgs (stop_loop w client ks a) = msgs a \<and>
    mSessionIdCounter (stop_loop w client ks a) = mSessionIdCounter a"
proof (induction ks arbitrary: a)
  case (Cons k ks)
  show ?case
  proof (cases "client = key_client k")
    case False
    then show ?thesis using Cons by simp
  next
    case True
    obtain err a' where r: "stopTrackingMultiplex w (key_client k) (key_id k) a = (err, a')" by fastforce
    have k: "SessionKey (key_client k) (key_id k) \<in> fst ` set (mTrackingSessions a)" using Cons.prems(3) by simp
    let ?b = "if err = LOCATION_ERROR_SUCCESS
              then a'\<lparr>mTrackingSessions := map_erase k (mTrackingSessions a')\<rparr> else a'"
    have b: "track_ok ?b" "same_but_calls a a'"
      using stop_one_ok[OF u Cons.prems(1) k r, unfolded LocationSessionKey.collapse] by blast+
    have sub: "set (mTrackingSessions ?b) \<subseteq> set (mTrackingSessions a)"
      and keys: "set ks \<subseteq> fst ` set (mTrackingSessions ?b)"
      and fr: "msgs ?b = msgs a" "mSessionIdCounter ?b = mSessionIdCounter a"
      using same_but_callsD[OF b(2)] Cons.prems(2,3) by (auto simp: set_map_erase image_iff) fastforce+
    have "stop_loop w client (k # ks) a = stop_loop w client ks ?b"
      using True r by simp
    then show ?thesis
      using Cons.IH[OF b(1) _ keys] Cons.prems(2) sub fr by auto
  qed
qed simp

section \<open>Session ids\<close>

text \<open>
  The state of the counter after \<open>n\<close> calls of \<open>generateSessionId\<close>, and the ids they return.
\<close>

fun counter_after :: "nat \<Rightarrow> u32" where
  "counter_after 0 = 1"
| "counter_after (Suc n) =
     fst (generateSessionId (adapter_new\<lparr>mSessionIdCounter := counter_after n\<rparr>))"

lemma next_id: "fst (generateSessionId a) = (if mSessionIdCounter a = 0xFFFFFFFE then 1 else mSessionIdCounter a + 1)"
  using add_right_cancel[of "mSessionIdCounter a" 1 "0xFFFFFFFE"]
  by (simp add: generateSessionId_def Let_def)

lemma snd_generate: "snd (generateSessionId a) = a\<lparr>mSessionIdCounter := fst (generateSessionId a)\<rparr>"
  by (simp add: generateSessionId_def Let_def)

lemma counter_after_Suc:
  "counter_after (Suc n) = (if counter_after n = 0xFFFFFFFE then 1 else counter_after n + 1)"
  by (simp add: next_id)

declare counter_after.simps(2) [simp del]

lemma unat_u32: "n < 4294967296 \<Longrightarrow> unat (of_nat n :: u32) = n"
  by (simp add: unat_of_nat)

lemma counter_after_small: "n \<le> 4294967293 \<Longrightarrow> counter_after n = of_nat (Suc n)"
proof (induction n)
  case (Suc n)
  then have c: "counter_after n = of_nat (Suc n)" by simp
  have "unat (of_nat (Suc n) :: u32) = Suc n"
    using Suc.prems by (intro unat_u32) simp
  moreover have "unat (0xFFFFFFFE :: u32) = 4294967294" by simp
  moreover have "Suc n \<noteq> 4294967294" using Suc.prems by simp
  ultimately have "(of_nat (Suc n) :: u32) \<noteq> 0xFFFFFFFE" by metis
  then show ?case by (simp add: counter_after_Suc c add.commute)
qed simp

lemma counter_after_last: "counter_after 4294967294 = 1" "counter_after 4294967295 = 2"
proof -
  have n: "(4294967294 :: nat) = Suc 4294967293" "(4294967295 :: nat) = Suc 4294967294" by simp_all
  have "counter_after 4294967293 = 0xFFFFFFFE" by (simp add: counter_after_small)
  then show l: "counter_after 4294967294 = 1"
    unfolding n(1) counter_after_Suc by (rule if_P)
  show "counter_after 4294967295 = 2"
    unfolding n(2) counter_after_Suc l by simp
qed

fun is_start_cmd :: "adapter_event \<Rightarrow> bool" where
  "is_start_cmd (Command_start _ _) = True"
| "is_start_cmd _ = False"

definition starts :: "adapter_event list \<Rightarrow> nat" where
  "starts evs = length (filter is_start_cmd evs)"

lemma same_refl [simp]: "same_but_calls a a"
  unfolding same_but_calls_def by (rule exI[of _ "calls a"]) simp

lemma same_calls [simp]: "same_but_calls a (a\<lparr>calls := cs\<rparr>)"
  by (auto simp: same_but_calls_def)

lemma frames_start: "same_but_calls a (snd (startTracking w p a))" "same_but_calls a (snd (stopTracking w a))"
  by (auto simp: startTracking_def stopTracking_def do_call_def Let_def same_but_calls_def)

lemma frames_multiplex:
  "same_but_calls a (snd (startTrackingMultiplex w p a))"
  "same_but_calls a (snd (updateTrackingMultiplex w c i p a))"
  "same_but_calls a (snd (stopTrackingMultiplex w c i a))"
  by (auto simp: startTrackingMultiplex_def updateTrackingMultiplex_def stopTrackingMultiplex_def
      frames_start Let_def split: option.split)

lemma frames_report: "same_but_calls a (reportResponse c e i a)"
  by (auto simp: reportResponse_def split: option.split)

lemmas frames = same_but_callsD[OF frames_start(1)] same_but_callsD[OF frames_start(2)]
  same_but_callsD[OF frames_multiplex(1)] same_but_callsD[OF frames_multiplex(2)]
  same_but_callsD[OF frames_multiplex(3)] same_but_callsD[OF frames_report]

lemma frames_mask:
  "mSessionIdCounter (updateClientsEventMask w cf a) = mSessionIdCounter a"
  "msgs (updateClientsEventMask w cf a) = msgs a"
  "mTrackingSessions (updateClientsEventMask w cf a) = mTrackingSessions a"
  by (simp_all add: updateClientsEventMask_def do_call_def Let_def)

lemma stop_loop_frame:
  "mSessionIdCounter (stop_loop w c ks a) = mSessionIdCounter a \<and> msgs (stop_loop w c ks a) = msgs a \<and>
   mClientData (stop_loop w c ks a) = mClientData a \<and>
   set (mTrackingSessions (stop_loop w c ks a)) \<subseteq> set (mTrackingSessions a)"
proof (induction ks arbitrary: a)
  case (Cons k ks)
  obtain err a1 where r: "stopTrackingMultiplex w (key_client k) (key_id k) a = (err, a1)" by fastforce
  have f: "mSessionIdCounter a1 = mSessionIdCounter a" "msgs a1 = msgs a" "mClientData a1 = mClientData a"
    "mTrackingSessions a1 = mTrackingSessions a"
    using r
      same_but_callsD[OF frames_multiplex(3), of w "key_client k" "key_id k" a] by simp_all
  show ?case
    using Cons.IH[of "a1\<lparr>mTrackingSessions := map_erase k (mTrackingSessions a1)\<rparr>"] Cons.IH[of a1] Cons.IH[of a]
    by (auto simp: r f set_map_erase)
qed simp

text \<open>
  A message changes neither the counter nor the queue of messages, and the only key it can add
  is the one it starts.
\<close>

definition new_keys :: "adapter_msg \<Rightarrow> LocationSessionKey set" where
  "new_keys m = (case m of MsgStartTracking c i p \<Rightarrow> {SessionKey c i} | _ \<Rightarrow> {})"

lemma proc_frame:
  "mSessionIdCounter (proc w cf m a) = mSessionIdCounter a \<and> msgs (proc w cf m a) = msgs a \<and>
   fst ` set (mTrackingSessions (proc w cf m a)) \<subseteq> fst ` set (mTrackingSessions a) \<union> new_keys m"
proof (cases m)
  case (MsgRemoveClient c)
  then show ?thesis
    using stop_loop_frame[of w c "map fst (mTrackingSessions a)" a]
    by (auto simp: eraseClient_def frames_mask stopClientSessions_def)
next
  case (MsgStartTracking c i p)
  then show ?thesis
    by (auto simp: startTracking_proc_def frames case_prod_beta saveTrackingSession_def new_keys_def Let_def)
next
  case (MsgUpdateTracking c i p)
  then show ?thesis
    by (auto simp: updateTracking_proc_def frames case_prod_beta saveTrackingSession_def
        isTrackingSession_def map_has_def fst_std_map Let_def)
next
  case (MsgStopTracking c i)
  then show ?thesis
    by (auto simp: stopTracking_proc_def frames case_prod_beta eraseTrackingSession_def set_map_erase Let_def)
qed (auto simp: saveClient_def frames_mask restartSessions_def do_call_def
      requestCapabilities_proc_def setPositionMode_proc_def setUlpPositionMode_def
      ulpStartTracking_proc_def ulpStopTracking_proc_def Let_def)

lemma counter_step:
  "mSessionIdCounter (adapter_step w cf ev a) =
     (if is_start_cmd ev then fst (generateSessionId a) else mSessionIdCounter a)"
  by (cases ev)
    (auto simp: startTrackingCommand_def case_prod_beta sendMsg_def snd_generate proc_frame
      split: list.split)

lemma counter_run: "mSessionIdCounter (adapter_run w cf evs) = counter_after (starts evs)"
proof (induction evs rule: rev_induct)
  case (snoc ev evs)
  then show ?case
    by (simp add: adapter_run_def starts_def counter_step next_id counter_after_Suc)
qed (simp add: adapter_run_def starts_def adapter_new_def)

text \<open>
  The ids handed out to the first 2^32 - 2 start commands are pairwise different, and none
  of them is 0 or 0xFFFFFFFF, which the callers use for other purposes; the next id repeats the
  first. The bound is exact: after that a client can be given the id of a session in use.
\<close>

theorem session_ids_unique:
  "mSessionIdCounter (adapter_run w cf evs) = counter_after (starts evs) \<and>
   inj_on counter_after {1..4294967294} \<and> 0 \<notin> counter_after ` {1..4294967294} \<and>
   0xFFFFFFFF \<notin> counter_after ` {1..4294967294} \<and> counter_after 4294967295 = counter_after 1"
proof -
  have v: "unat (counter_after i) = (if i = 4294967294 then 1 else Suc i)" if "i \<in> {1..4294967294}" for i
  proof (cases "i = 4294967294")
    case True
    then show ?thesis by (simp add: counter_after_last)
  next
    case False
    then have i: "i \<le> 4294967293" using that by simp
    have "unat (of_nat (Suc i) :: u32) = Suc i" by (rule unat_u32) (use i in simp)
    then show ?thesis unfolding counter_after_small[OF i] using False by (simp only: if_False)
  qed
  have inj: "inj_on counter_after {1..4294967294}"
  proof (rule inj_onI)
    fix i j assume ij: "i \<in> {1..4294967294::nat}" "j \<in> {1..4294967294}" "counter_after i = counter_after j"
    have "(if i = 4294967294 then 1 else Suc i) = (if j = 4294967294 then 1 else Suc j)"
      by (rule trans[OF v[OF ij(1), symmetric] trans[OF arg_cong[OF ij(3), of unat] v[OF ij(2)]]])
    moreover have "i \<noteq> 0" "j \<noteq> 0" using ij(1,2) by simp_all
    ultimately show "i = j" by (simp split: if_split_asm)
  qed
  have ne: "counter_after i \<noteq> 0 \<and> counter_after i \<noteq> 0xFFFFFFFF" if "i \<in> {1..4294967294}" for i
  proof -
    have "unat (counter_after i) \<noteq> 0 \<and> unat (counter_after i) \<noteq> 4294967295"
      unfolding v[OF that] using that by (simp split: if_split)
    moreover have "unat (0xFFFFFFFF :: u32) = 4294967295" "unat (0 :: u32) = 0" by simp_all
    ultimately show ?thesis by metis
  qed
  have "z \<notin> counter_after ` {1..4294967294}" if "z = 0 \<or> z = 0xFFFFFFFF" for z
  proof
    assume "z \<in> counter_after ` {1..4294967294}"
    then obtain i where "z = counter_after i" and i: "i \<in> {1..4294967294}" by (rule imageE)
    then show False using ne[OF i] that by metis
  qed
  then have "0 \<notin> counter_after ` {1..4294967294}" "0xFFFFFFFF \<notin> counter_after ` {1..4294967294}"
    by blast+
  moreover have "counter_after 4294967295 = counter_after 1"
    unfolding counter_after_last(2) using counter_after_small[of 1] by simp
  ultimately show ?thesis
    using counter_run inj by blast
qed

section \<open>Runs\<close>

text \<open>
  The sessions that wait in the queue to be started, and the events of clients: the messages of
  an ULP library go around the multiplexer, which it replaces.
\<close>

fun start_ids :: "adapter_msg list \<Rightarrow> u32 list" where
  "start_ids [] = []"
| "start_ids (MsgStartTracking c i p # ms) = i # start_ids ms"
| "start_ids (_ # ms) = start_ids ms"

fun client_msg :: "adapter_msg \<Rightarrow> bool" where
  "client_msg (MsgStartTracking _ _ _) = False"
| "client_msg MsgUlpStartTracking = False"
| "client_msg MsgUlpStopTracking = False"
| "client_msg _ = True"

fun client_event :: "adapter_event \<Rightarrow> bool" where
  "client_event (Command m) = client_msg m"
| "client_event _ = True"

definition session_ids :: "sessions \<Rightarrow> u32 set" where
  "session_ids m = key_id ` fst ` set m"

definition track_inv :: "adapter \<Rightarrow> bool" where
  "track_inv a \<longleftrightarrow> track_ok a \<and>
     session_ids (mTrackingSessions a) \<subseteq> {..mSessionIdCounter a} \<and>
     set (start_ids (msgs a)) \<subseteq> {..mSessionIdCounter a} \<and> distinct (start_ids (msgs a)) \<and>
     set (start_ids (msgs a)) \<inter> session_ids (mTrackingSessions a) = {} \<and>
     (\<forall>m \<in> set (msgs a). client_msg m \<or> (\<exists>c i p. m = MsgStartTracking c i p))"

lemma start_ids_append: "start_ids (ms @ ms') = start_ids ms @ start_ids ms'"
  by (induction ms rule: start_ids.induct) simp_all

lemma start_ids_client: "client_msg m \<Longrightarrow> start_ids [m] = []"
  by (cases m) simp_all

lemma track_ok_msgs: "track_ok (a\<lparr>msgs := ms\<rparr>) = track_ok a"
  by (simp add: track_ok_def serves_def active_def)

lemma proc_ok:
  assumes u: "no_ulp w" and a: "track_ok a"
    and m: "client_msg m \<or> (\<exists>c i p. m = MsgStartTracking c i p)"
    and fresh: "new_keys m \<inter> fst ` set (mTrackingSessions a) = {}"
  shows "track_ok (proc w cf m a)"
proof (cases m)
  case (MsgRemoveClient c)
  have "distinct (map fst (mTrackingSessions a))" using a by (simp add: track_ok_def std_map_ok_def)
  then have "track_ok (stopClientSessions w c a)"
    using stop_loop_ok[OF u a, of "map fst (mTrackingSessions a)" c] by (simp add: stopClientSessions_def)
  then show ?thesis using MsgRemoveClient by (auto intro: track_frame_ok[OF frame_clients(2)])
qed (use m fresh in \<open>auto simp: new_keys_def intro: track_frame_ok[OF frame_clients(1) a]
      track_frame_ok[OF frame_others(1) a] track_frame_ok[OF frame_others(2) a]
      start_proc_ok[OF u a] update_proc_ok[OF u a] stop_proc_ok[OF u a] conjunct1[OF restart_ok[OF a]]\<close>)

lemma process_inv:
  assumes u: "no_ulp w" and a: "track_inv a" and q: "msgs a = m # ms"
  shows "track_inv (proc w cf m (a\<lparr>msgs := ms\<rparr>))"
proof -
  let ?b = "a\<lparr>msgs := ms\<rparr>"
  note fr = proc_frame[of w cf m ?b]
  have new: "key_id ` new_keys m = set (start_ids [m])" by (cases m) (simp_all add: new_keys_def)
  have ids: "start_ids (msgs a) = start_ids [m] @ start_ids ms"
    using start_ids_append[of "[m]" ms] q by simp
  have ok: "track_ok ?b" using a by (simp add: track_ok_msgs track_inv_def)
  have cm: "client_msg m \<or> (\<exists>c i p. m = MsgStartTracking c i p)"
    using a q by (simp add: track_inv_def)
  have "set (start_ids (msgs a)) \<inter> session_ids (mTrackingSessions a) = {}"
    using a by (simp only: track_inv_def)
  then have "key_id ` new_keys m \<inter> session_ids (mTrackingSessions ?b) = {}"
    unfolding ids set_append new by auto
  then have fresh: "new_keys m \<inter> fst ` set (mTrackingSessions ?b) = {}"
    unfolding session_ids_def by blast
  have "session_ids (mTrackingSessions (proc w cf m ?b)) \<subseteq>
      session_ids (mTrackingSessions a) \<union> set (start_ids [m])"
    using image_mono[OF conjunct2[OF conjunct2[OF fr]], of key_id] by (simp add: image_Un new session_ids_def)
  then show ?thesis
    using proc_ok[OF u ok cm fresh] a ids fr q by (auto simp: track_inv_def)
qed

lemma command_inv:
  assumes a: "track_inv a" and c: "unat (mSessionIdCounter a) + 1 < 4294967295"
  shows "track_inv (snd (startTrackingCommand client p a))"
proof -
  let ?n = "mSessionIdCounter a + 1"
  have n: "unat ?n = unat (mSessionIdCounter a) + 1"
    using c by (simp add: unat_word_ariths)
  then have lt: "mSessionIdCounter a < ?n" by (simp add: word_less_nat_alt)
  have "?n \<noteq> 0xFFFFFFFF"
  proof
    assume "?n = 0xFFFFFFFF"
    then have "unat ?n = unat (0xFFFFFFFF :: u32)" by (rule arg_cong)
    then show False using n c by simp
  qed
  then have "fst (generateSessionId a) = ?n" by (simp add: generateSessionId_def Let_def)
  then have s: "snd (startTrackingCommand client p a) =
      a\<lparr>mSessionIdCounter := ?n, msgs := msgs a @ [MsgStartTracking client ?n p]\<rparr>"
    using snd_generate[of a] by (simp add: startTrackingCommand_def case_prod_beta sendMsg_def)
  have "{..mSessionIdCounter a} \<subseteq> {..?n}" using lt by auto
  moreover have "?n \<notin> {..mSessionIdCounter a}" using lt by auto
  moreover have "track_ok (a\<lparr>mSessionIdCounter := ?n, msgs := ms\<rparr>) = track_ok a" for ms
    by (simp add: track_ok_def serves_def active_def)
  ultimately show ?thesis
    using a unfolding s track_inv_def by (auto simp: start_ids_append)
qed

lemma track_step_inv:
  assumes u: "no_ulp w" and a: "track_inv a" and ev: "client_event ev"
    and c: "is_start_cmd ev \<Longrightarrow> unat (mSessionIdCounter a) + 1 < 4294967295"
  shows "track_inv (adapter_step w cf ev a)"
proof (cases ev)
  case (Command m)
  then show ?thesis
    using a ev start_ids_client[of m]
    by (auto simp: track_inv_def sendMsg_def start_ids_append track_ok_msgs)
qed (use a c process_inv[OF u a] in \<open>auto intro: command_inv split: list.split\<close>)

lemma run_inv:
  assumes "no_ulp w" "list_all client_event evs" "starts evs \<le> 4294967293"
  shows "track_inv (adapter_run w cf evs)"
  using assms(2,3)
proof (induction evs rule: rev_induct)
  case Nil
  then show ?case
    by (simp add: adapter_run_def adapter_new_def track_inv_def track_ok_def serves_def active_def session_ids_def)
next
  case (snoc ev evs)
  have le: "starts evs \<le> 4294967293" and IH: "track_inv (adapter_run w cf evs)"
    using snoc by (auto simp: starts_def split: if_splits)
  have "unat (mSessionIdCounter (adapter_run w cf evs)) + 1 < 4294967295" if "is_start_cmd ev"
  proof -
    have "starts evs < 4294967293" using snoc.prems(2) that by (simp add: starts_def)
    then show ?thesis
      using unat_u32[of "Suc (starts evs)"] by (simp only: counter_run counter_after_small[OF le])
  qed
  then have "track_inv (adapter_step w cf ev (adapter_run w cf evs))"
    using snoc.prems(1) by (intro track_step_inv[OF assms(1) IH]) simp_all
  then show ?case by (simp add: adapter_run_def)
qed


text \<open>
  The world of the witnesses: no ULP library, and the modem accepts everything.
\<close>

definition modem_ok :: loc_world where
  "modem_ok = (\<lambda>log x. x \<noteq> U_sendStartFix \<and> x \<noteq> U_sendStopFix)"

definition conf0 :: adapter_conf where
  "conf0 = \<lparr>conf_external_dr = 0, conf_nmea_mask = 0, conf_statusV4Cb = False,
     conf_odcpiRequestCb = False, conf_capabilities = 0\<rparr>"

definition opt :: "u32 \<Rightarrow> GnssSuplMode \<Rightarrow> LocationOptions" where
  "opt i m = \<lparr>lo_size = 1, minInterval = i, minDistance = 0, lo_mode = m\<rparr>"

definition cb_all :: LocationCallbacks where
  "cb_all = no_callbacks\<lparr>cb_response := True, cb_tracking := True\<rparr>"

definition run3 :: "adapter_event list" where
  "run3 = [Command (MsgAddClient 1 cb_all), Command (MsgAddClient 2 cb_all),
     Command_start 1 (opt 5000 GNSS_SUPL_MODE_MSB), Command_start 2 (opt 1000 GNSS_SUPL_MODE_STANDALONE),
     Command_start 1 (opt 2000 GNSS_SUPL_MODE_MSA), Process, Process, Process, Process, Process,
     Command (MsgStopTracking 2 3), Process]"

lemma no_ulp_modem_ok: "no_ulp modem_ok"
  by (simp add: no_ulp_def modem_ok_def)

lemma run3_ok: "list_all client_event run3" "starts run3 \<le> 4294967293"
  by (simp_all add: run3_def starts_def)

lemma run3_sessions: "mTrackingSessions (adapter_run modem_ok conf0 run3) =
    [(SessionKey 1 2, opt 5000 GNSS_SUPL_MODE_MSB), (SessionKey 1 4, opt 2000 GNSS_SUPL_MODE_MSA)]"
  by code_simp


lemma stop_succeeds:
  assumes "\<And>log m. w log (L_startFix m)" "\<And>log. w log L_stopFix"
  shows "fst (stopTrackingMultiplex w c i a) = LOCATION_ERROR_SUCCESS"
  using assms
  by (auto simp: stopTrackingMultiplex_def startTracking_def stopTracking_def do_call_def Let_def
      split: option.split)

lemma stop_loop_erases:
  assumes "\<And>log m. w log (L_startFix m)" "\<And>log. w log L_stopFix"
  shows "mTrackingSessions (stop_loop w c ks a) =
    filter (\<lambda>e. fst e \<notin> set ks \<or> key_client (fst e) \<noteq> c) (mTrackingSessions a)"
proof (induction ks arbitrary: a)
  case (Cons k ks)
  show ?case
  proof (cases "c = key_client k")
    case True
    obtain a1 where r: "stopTrackingMultiplex w (key_client k) (key_id k) a = (LOCATION_ERROR_SUCCESS, a1)"
      using stop_succeeds[of w "key_client k" "key_id k" a, OF assms] by (metis prod.collapse)
    have s: "mTrackingSessions a1 = mTrackingSessions a"
      using same_but_callsD(1)[OF frames_multiplex(3), of w "key_client k" "key_id k" a] r by simp
    have "mTrackingSessions (stop_loop w c (k # ks) a) =
        filter (\<lambda>e. fst e \<notin> set ks \<or> key_client (fst e) \<noteq> c) (map_erase k (mTrackingSessions a))"
      using True Cons.IH[of "a1\<lparr>mTrackingSessions := map_erase k (mTrackingSessions a)\<rparr>"]
      by (simp add: r s)
    also have "\<dots> = filter (\<lambda>e. fst e \<notin> set (k # ks) \<or> key_client (fst e) \<noteq> c) (mTrackingSessions a)"
      unfolding map_erase_def filter_filter using True by (intro filter_cong) auto
    finally show ?thesis .
  next
    case False
    then show ?thesis by (auto simp: Cons.IH intro: filter_cong)
  qed
qed simp

text \<open>
  Removing a client, while the modem accepts the requests, ends all of its sessions and no
  other, forgets its callbacks, and leaves the modem serving the smallest interval of what
  remains.
\<close>

theorem remove_client_stops_sessions:
  assumes u: "no_ulp w" and evs: "list_all client_event evs" "starts evs \<le> 4294967293"
    and up: "\<And>log m. w log (L_startFix m)" "\<And>log. w log L_stopFix"
    and a: "a = adapter_run w cf evs" and a': "a' = proc w cf (MsgRemoveClient c) a"
  shows "mTrackingSessions a' = filter (\<lambda>e. key_client (fst e) \<noteq> c) (mTrackingSessions a) \<and>
    map_of (mClientData a') c = None \<and> serves a' (set (mTrackingSessions a'))"
proof -
  have ok: "track_ok a" using run_inv[OF u evs] by (simp add: a track_inv_def)
  have "mTrackingSessions (stopClientSessions w c a) =
      filter (\<lambda>e. key_client (fst e) \<noteq> c) (mTrackingSessions a)"
    unfolding stopClientSessions_def stop_loop_erases[OF up] by (rule filter_cong) auto
  moreover have "track_ok a'"
    unfolding a' by (rule proc_ok[OF u ok]) (simp_all add: new_keys_def)
  moreover have "mClientData (updateClientsEventMask w cf b) = mClientData b" for b
    by (simp add: updateClientsEventMask_def do_call_def Let_def)
  ultimately show ?thesis
    by (auto simp: a' eraseClient_def frames_mask track_ok_def)
qed

lemma remove_client_stops_sessions_witness:
  "mTrackingSessions (proc modem_ok conf0 (MsgRemoveClient 1) (adapter_run modem_ok conf0 run3)) = []"
  using remove_client_stops_sessions[OF no_ulp_modem_ok run3_ok _ _ refl refl, of conf0 1]
  by (simp add: modem_ok_def run3_sessions[unfolded modem_ok_def])

text \<open>
  The comparison of intervals is strict, so when two sessions share the smallest interval
  and the one whose options the modem serves is stopped, nothing is sent: the modem goes on in
  the positioning mode of the session that is gone.
\<close>

theorem tie_keeps_stopped_mode:
  assumes s: "mTrackingSessions a = [(SessionKey c i, p), (k, q)]" and k: "k \<noteq> SessionKey c i"
    and tie: "minInterval q = minInterval p" and sz: "lo_size q \<noteq> 0"
    and m: "convert_mode (lo_mode p) \<noteq> convert_mode (lo_mode q)"
    and act: "active a = Some (convertOptions LocPosMode_new p)"
    and a': "a' = stopTracking_proc w c i a"
  shows "mTrackingSessions a' = [(k, q)] \<and> map_option pm_mode (active a') = Some (convert_mode (lo_mode p)) \<and>
    map_option pm_mode (active a') \<noteq> Some (convert_mode (lo_mode q))"
proof -
  have "smallest (\<lambda>k'. k' \<noteq> SessionKey c i) (mTrackingSessions a) = q"
    using k by (simp add: smallest_def s LocationOptions_zero_def)
  then have "stopTrackingMultiplex w c i a = (LOCATION_ERROR_SUCCESS, a)"
    using tie by (simp add: stopTrackingMultiplex_def s Let_def)
  then have st: "a' = reportResponse c LOCATION_ERROR_SUCCESS i (eraseTrackingSession c i a)"
    by (simp add: a' stopTracking_proc_def isTrackingSession_def map_has_def s)
  have "active a' = active a"
    using frame_report[of "eraseTrackingSession c i a" c LOCATION_ERROR_SUCCESS i]
    by (simp add: st track_frame_def eraseTrackingSession_def active_def)
  moreover have "mTrackingSessions a' = [(k, q)]"
    using k by (simp add: st frames eraseTrackingSession_def map_erase_def s)
  ultimately show ?thesis using m by (simp add: act convertOptions_def)
qed

definition run4 :: "adapter_event list" where
  "run4 = [Command (MsgAddClient 1 cb_all), Command_start 1 (opt 1000 GNSS_SUPL_MODE_MSB),
     Command_start 1 (opt 1000 GNSS_SUPL_MODE_STANDALONE), Process, Process, Process]"

lemma tie_keeps_stopped_mode_witness:
  "map_option pm_mode (active (stopTracking_proc modem_ok 1 2 (adapter_run modem_ok conf0 run4))) =
    Some LOC_POSITION_MODE_MS_BASED"
proof -
  let ?a = "adapter_run modem_ok conf0 run4"
  have "mTrackingSessions ?a = [(SessionKey 1 2, opt 1000 GNSS_SUPL_MODE_MSB),
      (SessionKey 1 3, opt 1000 GNSS_SUPL_MODE_STANDALONE)]"
    "active ?a = Some (convertOptions LocPosMode_new (opt 1000 GNSS_SUPL_MODE_MSB))"
    by code_simp+
  note st = this
  show ?thesis
    using tie_keeps_stopped_mode[OF st(1) _ _ _ _ st(2) refl, of modem_ok] by (simp add: opt_def)
qed

fun is_response :: "loc_call \<times> bool \<Rightarrow> bool" where
  "is_response (R_response _ _ _, _) = True"
| "is_response _ = False"

definition responses :: "adapter \<Rightarrow> loc_call list" where
  "responses a = map fst (filter is_response (calls a))"

lemma responses_start: "responses (snd (startTrackingMultiplex w p a)) = responses a"
  by (auto simp: responses_def startTrackingMultiplex_def startTracking_def do_call_def Let_def)

text \<open>
  Every start of a known client is answered exactly once, to this client and with this id;
  the answer is success exactly when the session exists afterwards, and a session whose fix
  request the modem refused does not.
\<close>

theorem start_answered_once:
  assumes c: "map_of (mClientData a) c = Some cb" "cb_response cb" and new: "\<not> isTrackingSession c i a"
    and ok: "std_map_ok (mTrackingSessions a)" and a': "a' = startTracking_proc w c i p a"
  shows "\<exists>err. responses a' = responses a @ [R_response c err i] \<and>
    (err = LOCATION_ERROR_SUCCESS \<longleftrightarrow> isTrackingSession c i a')"
proof -
  obtain err b where r: "startTrackingMultiplex w p a = (err, b)" by fastforce
  have b: "mTrackingSessions b = mTrackingSessions a" "mClientData b = mClientData a" "responses b = responses a"
    using same_but_callsD[OF frames_multiplex(1), of w p a] responses_start[of w p a] r by simp_all
  have rep: "responses (reportResponse c e i x) = responses x @ [R_response c e i]"
    "mTrackingSessions (reportResponse c e i x) = mTrackingSessions x"
    if "mClientData x = mClientData a" for e x
    using c that by (simp_all add: reportResponse_def responses_def)
  have sv: "mClientData (saveTrackingSession c i p b) = mClientData a"
    "responses (saveTrackingSession c i p b) = responses a"
    "isTrackingSession c i (saveTrackingSession c i p b)"
    using b ok by (simp_all add: saveTrackingSession_def responses_def isTrackingSession_def map_has_def)
  show ?thesis
    using new b(1) by (auto simp: a' startTracking_proc_def r rep b sv isTrackingSession_def Let_def)
      (use sv(3) in \<open>simp_all add: isTrackingSession_def\<close>)
qed

lemma start_answered_once_witness:
  "\<exists>err. responses (startTracking_proc (\<lambda>_ _. False) 1 9 (opt 1000 GNSS_SUPL_MODE_MSB) (adapter_run modem_ok conf0 run3)) =
     responses (adapter_run modem_ok conf0 run3) @ [R_response 1 err 9]"
proof -
  let ?a = "adapter_run modem_ok conf0 run3"
  have "map_of (mClientData ?a) 1 = Some cb_all" "cb_response cb_all" "\<not> isTrackingSession 1 9 ?a"
    "std_map_ok (mTrackingSessions ?a)"
    by code_simp+
  from start_answered_once[OF this refl] show ?thesis by blast
qed

end
