(* ===== verification/Data_Items.thy ===== *)
theory Data_Items
  imports Prelude
begin

text \<open>
  The data items of \<open>gps/core/data-items\<close>: what the framework reports to the GPS stack about
  the device, one class per kind of information. The classes are the constructors of
  \<open>data_item\<close>, and \<open>getId\<close> is the identifier their constructors store. The concrete classes
  live in a library the stack loads at run time; what it relies on of it is the record
  \<open>item_lib\<close>, an argument of the components that use it.
\<close>

datatype DataItemId =
    INVALID_DATA_ITEM_ID
  | AIRPLANEMODE_DATA_ITEM_ID
  | ENH_DATA_ITEM_ID
  | GPSSTATE_DATA_ITEM_ID
  | NLPSTATUS_DATA_ITEM_ID
  | WIFIHARDWARESTATE_DATA_ITEM_ID
  | NETWORKINFO_DATA_ITEM_ID
  | RILVERSION_DATA_ITEM_ID
  | RILSERVICEINFO_DATA_ITEM_ID
  | RILCELLINFO_DATA_ITEM_ID
  | SERVICESTATUS_DATA_ITEM_ID
  | MODEL_DATA_ITEM_ID
  | MANUFACTURER_DATA_ITEM_ID
  | VOICECALL_DATA_ITEM
  | ASSISTED_GPS_DATA_ITEM_ID
  | SCREEN_STATE_DATA_ITEM_ID
  | POWER_CONNECTED_STATE_DATA_ITEM_ID
  | TIMEZONE_CHANGE_DATA_ITEM_ID
  | TIME_CHANGE_DATA_ITEM_ID
  | WIFI_SUPPLICANT_STATUS_DATA_ITEM_ID
  | SHUTDOWN_STATE_DATA_ITEM_ID
  | TAC_DATA_ITEM_ID
  | MCCMNC_DATA_ITEM_ID
  | BTLE_SCAN_DATA_ITEM_ID
  | BT_SCAN_DATA_ITEM_ID
  | OEM_GTP_UPLOAD_TRIGGER_READY_ITEM_ID
  | MAX_DATA_ITEM_ID
  | BATTERY_LEVEL_DATA_ITEM_ID
  | MAX_DATA_ITEM_ID_1_1

text \<open>The value of an enumerator; it orders the identifiers.\<close>

primrec DataItemId_value :: "DataItemId \<Rightarrow> int" where
  "DataItemId_value INVALID_DATA_ITEM_ID = - 1"
| "DataItemId_value AIRPLANEMODE_DATA_ITEM_ID = 0"
| "DataItemId_value ENH_DATA_ITEM_ID = 1"
| "DataItemId_value GPSSTATE_DATA_ITEM_ID = 2"
| "DataItemId_value NLPSTATUS_DATA_ITEM_ID = 3"
| "DataItemId_value WIFIHARDWARESTATE_DATA_ITEM_ID = 4"
| "DataItemId_value NETWORKINFO_DATA_ITEM_ID = 5"
| "DataItemId_value RILVERSION_DATA_ITEM_ID = 6"
| "DataItemId_value RILSERVICEINFO_DATA_ITEM_ID = 7"
| "DataItemId_value RILCELLINFO_DATA_ITEM_ID = 8"
| "DataItemId_value SERVICESTATUS_DATA_ITEM_ID = 9"
| "DataItemId_value MODEL_DATA_ITEM_ID = 10"
| "DataItemId_value MANUFACTURER_DATA_ITEM_ID = 11"
| "DataItemId_value VOICECALL_DATA_ITEM = 12"
| "DataItemId_value ASSISTED_GPS_DATA_ITEM_ID = 13"
| "DataItemId_value SCREEN_STATE_DATA_ITEM_ID = 14"
| "DataItemId_value POWER_CONNECTED_STATE_DATA_ITEM_ID = 15"
| "DataItemId_value TIMEZONE_CHANGE_DATA_ITEM_ID = 16"
| "DataItemId_value TIME_CHANGE_DATA_ITEM_ID = 17"
| "DataItemId_value WIFI_SUPPLICANT_STATUS_DATA_ITEM_ID = 18"
| "DataItemId_value SHUTDOWN_STATE_DATA_ITEM_ID = 19"
| "DataItemId_value TAC_DATA_ITEM_ID = 20"
| "DataItemId_value MCCMNC_DATA_ITEM_ID = 21"
| "DataItemId_value BTLE_SCAN_DATA_ITEM_ID = 22"
| "DataItemId_value BT_SCAN_DATA_ITEM_ID = 23"
| "DataItemId_value OEM_GTP_UPLOAD_TRIGGER_READY_ITEM_ID = 24"
| "DataItemId_value MAX_DATA_ITEM_ID = 25"
| "DataItemId_value BATTERY_LEVEL_DATA_ITEM_ID = 26"
| "DataItemId_value MAX_DATA_ITEM_ID_1_1 = 27"

lemma DataItemId_value_inj: "DataItemId_value x = DataItemId_value y \<Longrightarrow> x = y"
  by (cases x; cases y) simp_all

instantiation DataItemId :: linorder
begin

definition less_DataItemId :: "DataItemId \<Rightarrow> DataItemId \<Rightarrow> bool" where
  "less_DataItemId x y \<longleftrightarrow> DataItemId_value x < DataItemId_value y"

definition less_eq_DataItemId :: "DataItemId \<Rightarrow> DataItemId \<Rightarrow> bool" where
  "less_eq_DataItemId x y \<longleftrightarrow> DataItemId_value x \<le> DataItemId_value y"

instance
  by standard
    (auto simp: less_DataItemId_def less_eq_DataItemId_def intro: DataItemId_value_inj)

end

type_synonym i64 = "64 word"

record NetworkInfo =
  mAllTypes :: u64
  mType :: i32
  mTypeName :: string
  mSubTypeName :: string
  mAvailable :: bool
  mConnected :: bool
  mRoaming :: bool

datatype WifiSupplicantState =
    DISCONNECTED | INTERFACE_DISABLED | INACTIVE | SCANNING | AUTHENTICATING | ASSOCIATING
  | ASSOCIATED | FOUR_WAY_HANDSHAKE | GROUP_HANDSHAKE | COMPLETED | DORMANT | UNINITIALIZED
  | INVALID

record WifiSupplicantStatus =
  ws_mState :: WifiSupplicantState
  mApMacAddressValid :: bool
  mApMacAddress :: "u8 list"
  mWifiApSsidValid :: bool
  mWifiApSsid :: string

record SrnDeviceScanDetails =
  mValidSrnData :: bool
  mApSrnRssi :: i32
  mApSrnMacAddress :: "u8 list"
  mApSrnTimestamp :: i64
  mRequestTimestamp :: i64
  mReceiveTimestamp :: i64
  mErrorCause :: i32

datatype data_item =
    AirplaneModeDataItem bool
  | ENHDataItem bool
  | GPSStateDataItem bool
  | NLPStatusDataItem bool
  | WifiHardwareStateDataItem bool
  | ScreenStateDataItem bool
  | PowerConnectStateDataItem bool
  | TimeZoneChangeDataItem i64 i32 i32
  | TimeChangeDataItem i64 i32 i32
  | ShutdownStateDataItem bool
  | AssistedGpsDataItem bool
  | NetworkInfoDataItem NetworkInfo
  | ServiceStatusDataItem i32
  | ModelDataItem string
  | ManufacturerDataItem string
  | RilServiceInfoDataItem ptr
  | RilCellInfoDataItem ptr
  | WifiSupplicantStatusDataItem WifiSupplicantStatus
  | TacDataItem string
  | MccmncDataItem string
  | BtDeviceScanDetailsDataItem SrnDeviceScanDetails
  | BtLeDeviceScanDetailsDataItem SrnDeviceScanDetails
  | BatteryLevelDataItem u8

primrec getId :: "data_item \<Rightarrow> DataItemId" where
  "getId (AirplaneModeDataItem _) = AIRPLANEMODE_DATA_ITEM_ID"
| "getId (ENHDataItem _) = ENH_DATA_ITEM_ID"
| "getId (GPSStateDataItem _) = GPSSTATE_DATA_ITEM_ID"
| "getId (NLPStatusDataItem _) = NLPSTATUS_DATA_ITEM_ID"
| "getId (WifiHardwareStateDataItem _) = WIFIHARDWARESTATE_DATA_ITEM_ID"
| "getId (ScreenStateDataItem _) = SCREEN_STATE_DATA_ITEM_ID"
| "getId (PowerConnectStateDataItem _) = POWER_CONNECTED_STATE_DATA_ITEM_ID"
| "getId (TimeZoneChangeDataItem _ _ _) = TIMEZONE_CHANGE_DATA_ITEM_ID"
| "getId (TimeChangeDataItem _ _ _) = TIME_CHANGE_DATA_ITEM_ID"
| "getId (ShutdownStateDataItem _) = SHUTDOWN_STATE_DATA_ITEM_ID"
| "getId (AssistedGpsDataItem _) = ASSISTED_GPS_DATA_ITEM_ID"
| "getId (NetworkInfoDataItem _) = NETWORKINFO_DATA_ITEM_ID"
| "getId (ServiceStatusDataItem _) = SERVICESTATUS_DATA_ITEM_ID"
| "getId (ModelDataItem _) = MODEL_DATA_ITEM_ID"
| "getId (ManufacturerDataItem _) = MANUFACTURER_DATA_ITEM_ID"
| "getId (RilServiceInfoDataItem _) = RILSERVICEINFO_DATA_ITEM_ID"
| "getId (RilCellInfoDataItem _) = RILCELLINFO_DATA_ITEM_ID"
| "getId (WifiSupplicantStatusDataItem _) = WIFI_SUPPLICANT_STATUS_DATA_ITEM_ID"
| "getId (TacDataItem _) = TAC_DATA_ITEM_ID"
| "getId (MccmncDataItem _) = MCCMNC_DATA_ITEM_ID"
| "getId (BtDeviceScanDetailsDataItem _) = BT_SCAN_DATA_ITEM_ID"
| "getId (BtLeDeviceScanDetailsDataItem _) = BTLE_SCAN_DATA_ITEM_ID"
| "getId (BatteryLevelDataItem _) = BATTERY_LEVEL_DATA_ITEM_ID"

text \<open>The bit of a network type; \<open>1 << type\<close> is an \<open>int\<close>, which is wide enough.\<close>

definition TYPE_UNKNOWN :: int where
  "TYPE_UNKNOWN = 9"

definition typeToAllTypes :: "i32 \<Rightarrow> u64" where
  "typeToAllTypes t = (if sint t \<ge> TYPE_UNKNOWN \<or> sint t < 0 then 0 else push_bit (nat (sint t)) 1)"

definition NetworkInfo_new :: "i32 \<Rightarrow> string \<Rightarrow> string \<Rightarrow> bool \<Rightarrow> bool \<Rightarrow> NetworkInfo" where
  "NetworkInfo_new t name subname connected roaming =
     \<lparr>mAllTypes = typeToAllTypes t, mType = t, mTypeName = name, mSubTypeName = subname,
      mAvailable = (connected \<and> \<not> roaming), mConnected = connected, mRoaming = roaming\<rparr>"

text \<open>
  The library of concrete items: the item the factory makes for an identifier, if it can; what
  \<open>copy\<close> makes of the first item when the second is its source, and whether it reports a change;
  and the data a copy of a RIL item gets from \<open>setPeerData\<close>.
\<close>

record item_lib =
  createNewDataItem :: "DataItemId \<Rightarrow> data_item option"
  di_copy :: "data_item \<Rightarrow> data_item \<Rightarrow> data_item \<times> bool"
  setPeerData :: "ptr \<Rightarrow> ptr"

text \<open>What the interface documents: a copy takes the source over and tells whether that was a change.\<close>

definition item_lib_ok :: "item_lib \<Rightarrow> bool" where
  "item_lib_ok lib \<longleftrightarrow> (\<forall>d. \<forall>c. getId c = getId d \<longrightarrow> di_copy lib c d = (d, c \<noteq> d)) \<and>
     (\<forall>i d. createNewDataItem lib i = Some d \<longrightarrow> getId d = i)"

end
