(* ===== verification/C_Strings.thy ===== *)
theory C_Strings
  imports Prelude
begin

text \<open>
  What the sources use of the C library on strings: numbers in text, tokens, copies that are cut to the
  size of a buffer, and reading a file by lines. A C string is the list of its characters before the
  terminating zero; \<open>long\<close> has 64 bits.
\<close>

section \<open>Numbers in text\<close>

definition isspace :: "char \<Rightarrow> bool" where
  "isspace c \<longleftrightarrow> (of_char c :: nat) \<in> {32, 9, 10, 11, 12, 13}"

definition digit_val :: "nat \<Rightarrow> char \<Rightarrow> nat option" where
  "digit_val base c =
     (let n = of_char c :: nat;
          v = (if 48 \<le> n \<and> n \<le> 57 then n - 48
               else if 97 \<le> n \<and> n \<le> 122 then n - 87
               else if 65 \<le> n \<and> n \<le> 90 then n - 55 else base)
      in if v < base then Some v else None)"

fun read_digits :: "nat \<Rightarrow> int \<Rightarrow> string \<Rightarrow> int" where
  "read_digits base acc [] = acc"
| "read_digits base acc (c # cs) =
     (case digit_val base c of
        Some d \<Rightarrow> read_digits base (acc * int base + int d) cs
      | None \<Rightarrow> acc)"

definition LONG_MAX :: int where
  "LONG_MAX = 2 ^ 63 - 1"

definition read_sign :: "string \<Rightarrow> bool \<times> string" where
  "read_sign s =
     (case s of
        [] \<Rightarrow> (False, s)
      | c # cs \<Rightarrow> if c = CHR ''-'' then (True, cs) else if c = CHR ''+'' then (False, cs) else (False, s))"

definition skip_prefix :: "nat \<Rightarrow> string \<Rightarrow> string" where
  "skip_prefix base s =
     (if base = 16 \<and> (take 2 s = ''0x'' \<or> take 2 s = ''0X'') \<and>
         (case drop 2 s of [] \<Rightarrow> False | c # _ \<Rightarrow> digit_val base c \<noteq> None)
      then drop 2 s else s)"

definition strtol :: "nat \<Rightarrow> string \<Rightarrow> int" where
  "strtol base s =
     (let (neg, s) = read_sign (dropWhile isspace s);
          v = read_digits base 0 (skip_prefix base s)
      in max (- LONG_MAX - 1) (min LONG_MAX (if neg then - v else v)))"

definition atoi :: "string \<Rightarrow> i32" where
  "atoi s = word_of_int (strtol 10 s)"

section \<open>Copies and tokens\<close>

text \<open>\<open>strlcpy\<close> to a buffer of \<open>n > 0\<close> bytes keeps \<open>n - 1\<close> characters.\<close>

definition strlcpy :: "nat \<Rightarrow> string \<Rightarrow> string" where
  "strlcpy n s = take (n - 1) s"

text \<open>
  \<open>strtok_r\<close> with one delimiter: leading delimiters are skipped, and the rest starts after the one that
  ended the token.
\<close>

definition strtok :: "char \<Rightarrow> string \<Rightarrow> (string \<times> string) option" where
  "strtok d s =
     (let s1 = dropWhile (\<lambda>c. c = d) s
      in if s1 = [] then None
         else Some (takeWhile (\<lambda>c. c \<noteq> d) s1, tl (dropWhile (\<lambda>c. c \<noteq> d) s1)))"

lemma strtok_shorter: "strtok d s = Some (t, r) \<Longrightarrow> length r < length s"
proof -
  assume "strtok d s = Some (t, r)"
  then have r: "r = tl (dropWhile (\<lambda>c. c \<noteq> d) (dropWhile (\<lambda>c. c = d) s))" and n: "dropWhile (\<lambda>c. c = d) s \<noteq> []"
    by (auto simp: strtok_def Let_def split: if_splits)
  have "length r \<le> length (dropWhile (\<lambda>c. c = d) s) - 1"
    using length_dropWhile_le[of "\<lambda>c. c \<noteq> d" "dropWhile (\<lambda>c. c = d) s"] r by simp
  moreover have "length (dropWhile (\<lambda>c. c = d) s) \<le> length s" by (rule length_dropWhile_le)
  moreover have "length (dropWhile (\<lambda>c. c = d) s) > 0" using n by simp
  ultimately show ?thesis by linarith
qed

section \<open>Lines of a file\<close>

abbreviation NL :: char where
  "NL \<equiv> CHR 0x0A"

text \<open>
  \<open>fgets\<close> into \<open>n\<close> bytes: up to a newline, which is kept, but no more than \<open>n - 1\<close> characters. The
  buffer is a C string, so what follows a zero in the line is not seen.
\<close>

definition line_end :: "nat \<Rightarrow> string \<Rightarrow> nat" where
  "line_end n s = min (n - 1) (min (length s) (length (takeWhile (\<lambda>c. c \<noteq> NL) s) + 1))"

definition fgets :: "nat \<Rightarrow> string \<Rightarrow> (string \<times> string) option" where
  "fgets n s =
     (if s = [] then None
      else Some (takeWhile (\<lambda>c. c \<noteq> CHR 0x00) (take (line_end n s) s), drop (line_end n s) s))"

lemma fgets_shorter: "fgets n s = Some (l, r) \<Longrightarrow> 1 < n \<Longrightarrow> length r < length s"
  by (auto simp: fgets_def line_end_def split: if_splits)

section \<open>Printing numbers\<close>

text \<open>\<open>digits\<close> are the decimal digits; \<open>print_d w\<close> is \<open>%0wd\<close>, \<open>print_prec p\<close> is \<open>%.pd\<close>.\<close>

definition digit_char :: "nat \<Rightarrow> char" where
  "digit_char n = ''0123456789ABCDEF'' ! n"

fun digits :: "nat \<Rightarrow> string" where
  "digits n = (if n < 10 then [digit_char n] else digits (n div 10) @ [digit_char (n mod 10)])"

declare digits.simps [simp del]

definition pad0 :: "nat \<Rightarrow> string \<Rightarrow> string" where
  "pad0 w s = replicate (w - length s) CHR ''0'' @ s"

definition print_d :: "nat \<Rightarrow> int \<Rightarrow> string" where
  "print_d w n = (if n < 0 then ''-'' @ pad0 (w - 1) (digits (nat (- n))) else pad0 w (digits (nat n)))"

definition print_prec :: "nat \<Rightarrow> int \<Rightarrow> string" where
  "print_prec p n = (if n < 0 then ''-'' else []) @ pad0 p (digits (nat \<bar>n\<bar>))"

definition print_02X :: "u8 \<Rightarrow> string" where
  "print_02X b = [digit_char (unat b div 16), digit_char (unat b mod 16)]"

lemma length_digits: "n < 10 ^ k \<Longrightarrow> 1 \<le> k \<Longrightarrow> length (digits n) \<le> k"
proof (induction n arbitrary: k rule: digits.induct)
  case (1 n)
  show ?case
  proof (cases "n < 10")
    case False
    then have "k \<noteq> 1" using 1(2) by auto
    then obtain k' where k: "k = Suc k'" "1 \<le> k'" using 1(3) by (cases k) auto
    then have "n div 10 < 10 ^ k'" using 1(2) by (simp add: less_mult_imp_div_less)
    then show ?thesis using 1(1)[OF False, of k'] k False by (subst digits.simps) simp
  qed (use 1(3) in \<open>subst digits.simps, simp\<close>)
qed

lemma length_pad0: "length (pad0 w s) = max w (length s)"
  by (simp add: pad0_def)

lemma length_print_d:
  assumes "\<bar>n\<bar> < 10 ^ k" "1 \<le> k"
  shows "length (print_d w n) \<le> max w (k + 1)" "0 \<le> n \<Longrightarrow> length (print_d w n) \<le> max w k"
proof -
  have "nat \<bar>n\<bar> < 10 ^ k" using assms(1) by (simp add: nat_less_iff)
  then have "length (digits (nat \<bar>n\<bar>)) \<le> k" using assms(2) by (rule length_digits)
  then show "length (print_d w n) \<le> max w (k + 1)" "0 \<le> n \<Longrightarrow> length (print_d w n) \<le> max w k"
    by (auto simp: print_d_def length_pad0)
qed

text \<open>A printed number has no star.\<close>

lemma star_digit_char: "n < 16 \<Longrightarrow> digit_char n \<noteq> CHR ''*''"
proof -
  have "list_all (\<lambda>n. digit_char n \<noteq> CHR ''*'') [0..<16]"
    by (simp add: digit_char_def upt_rec)
  then show "n < 16 \<Longrightarrow> digit_char n \<noteq> CHR ''*''" by (simp add: list_all_iff)
qed

lemma star_digits [simp]: "CHR ''*'' \<notin> set (digits n)"
proof (induction n rule: digits.induct)
  case (1 n)
  then show ?case
    using star_digit_char[of n] star_digit_char[of "n mod 10"] order.strict_trans2[of "n mod 10" 10 16]
    by (subst digits.simps) auto
qed

lemma star_print_d [simp]: "CHR ''*'' \<notin> set (print_d w n)"
  by (simp add: print_d_def pad0_def)

lemma star_print_prec [simp]: "CHR ''*'' \<notin> set (print_prec w n)"
  by (simp add: print_prec_def pad0_def)

lemma length_print_02X [simp]: "length (print_02X b) = 2"
  by (simp add: print_02X_def)

end
