(* ===== verification/System_Status.thy ===== *)
theory System_Status
  imports Data_Items C_Strings
begin

unbundle bit_operations_syntax

text \<open>
  \<open>gps/core/SystemStatus.cpp\<close> and \<open>SystemStatus.h\<close>: the histories of what the modem and the
  framework report, and the parsers of the modem's debug sentences that feed them.

  A C string is the list of its characters before the terminating zero. Floating-point numbers
  are the bit patterns of their values; what the code needs of them (\<open>atof\<close>, conversions and
  comparison) is the record \<open>fp_lib\<close>, an argument. \<open>long\<close> has 64 bits. The fields of a sentence
  structure are grouped by the report class that takes them, since the constructors of the
  report classes copy them one by one.
\<close>

section \<open>Floating-point numbers\<close>

record fp_lib =
  atof :: "string \<Rightarrow> u64"
  d2f :: "u64 \<Rightarrow> u32"
  i2f :: "i32 \<Rightarrow> u32"
  deq :: "u64 \<Rightarrow> u64 \<Rightarrow> bool"
  feq :: "u32 \<Rightarrow> u32 \<Rightarrow> bool"

definition atof_f :: "fp_lib \<Rightarrow> string \<Rightarrow> u32" where
  "atof_f fp s = d2f fp (atof fp s)"

section \<open>Debug sentences\<close>

definition DEBUG_NMEA_MINSIZE :: nat where
  "DEBUG_NMEA_MINSIZE = 6"

definition DEBUG_NMEA_MAXSIZE :: nat where
  "DEBUG_NMEA_MAXSIZE = 4096"

definition loc_nmea_is_debug :: "string \<Rightarrow> nat \<Rightarrow> bool" where
  "loc_nmea_is_debug nmea len \<longleftrightarrow>
     DEBUG_NMEA_MINSIZE \<le> len \<and> len \<le> DEBUG_NMEA_MAXSIZE \<and> take 4 nmea = ''$PQW''"

function tokenize :: "string \<Rightarrow> string list" where
  "tokenize s =
     (if CHR '','' \<in> set s
      then takeWhile (\<lambda>c. c \<noteq> CHR '','') s # tokenize (tl (dropWhile (\<lambda>c. c \<noteq> CHR '','') s))
      else [])"
  by auto
termination
proof (relation "measure length")
  fix s :: string
  assume "CHR '','' \<in> set s"
  moreover have "length (dropWhile (\<lambda>c. c \<noteq> CHR '','') s) \<le> length s"
    by (rule length_dropWhile_le)
  ultimately show "(tl (dropWhile (\<lambda>c. c \<noteq> CHR '','') s), s) \<in> measure length"
    by (cases s) auto
qed simp

declare tokenize.simps [simp del]

text \<open>The vector \<open>mField\<close> that the base class of the parsers fills.\<close>

definition nmea_fields :: "string \<Rightarrow> nat \<Rightarrow> string list" where
  "nmea_fields s len =
     (if \<not> loc_nmea_is_debug s len \<or> CHR ''*'' \<notin> set s then []
      else tokenize (takeWhile (\<lambda>c. c \<noteq> CHR ''*'') s @ [CHR '',''] @
                     tl (dropWhile (\<lambda>c. c \<noteq> CHR ''*'') s)))"

section \<open>Reports\<close>

record TimeAndClock =
  mGpsWeek :: u16
  mGpsTowMs :: u32
  mTimeValid :: u8
  mTimeSource :: u8
  mTimeUnc :: i32
  mClockFreqBias :: i32
  mClockFreqBiasUnc :: i32
  mLeapSeconds :: i32
  mLeapSecUnc :: i32

record RfAndParams =
  mPgaGain :: i32
  mGpsBpAmpI :: u32
  mGpsBpAmpQ :: u32
  mAdcI :: u32
  mAdcQ :: u32
  mJammerGps :: u32
  mJammerGlo :: u32
  mJammerBds :: u32
  mJammerGal :: u32
  mAgcGps :: u64
  mAgcGlo :: u64
  mAgcBds :: u64
  mAgcGal :: u64
  mGloBpAmpI :: u32
  mGloBpAmpQ :: u32
  mBdsBpAmpI :: u32
  mBdsBpAmpQ :: u32
  mGalBpAmpI :: u32
  mGalBpAmpQ :: u32

record PQWM1 =
  m1_time :: TimeAndClock
  mXoState :: u8
  m1_rf :: RfAndParams
  mRecErrorRecovery :: u32

record InjectedPosition =
  mEpiValidity :: u8
  mEpiLat :: u32
  mEpiLon :: u32
  mEpiAlt :: u32
  mEpiHepe :: u32
  mEpiAltUnc :: u32
  mEpiSrc :: u8

record PQWP2 =
  mBestLat :: u32
  mBestLon :: u32
  mBestAlt :: u32
  mBestHepe :: u32
  mBestAltUnc :: u32

record BestPosition = PQWP2 +
  bp_mValid :: bool

record Xtra =
  mXtraValidMask :: u8
  mGpsXtraAge :: u32
  mGloXtraAge :: u32
  mBdsXtraAge :: u32
  mGalXtraAge :: u32
  mQzssXtraAge :: u32
  mGpsXtraValid :: u32
  mGloXtraValid :: u32
  mBdsXtraValid :: u64
  mGalXtraValid :: u64
  mQzssXtraValid :: u8

record Ephemeris =
  mGpsEpheValid :: u32
  mGloEpheValid :: u32
  mBdsEpheValid :: u64
  mGalEpheValid :: u64
  mQzssEpheValid :: u8

record SvHealth =
  mGpsUnknownMask :: u32
  mGloUnknownMask :: u32
  mBdsUnknownMask :: u64
  mGalUnknownMask :: u64
  mQzssUnknownMask :: u8
  mGpsGoodMask :: u32
  mGloGoodMask :: u32
  mBdsGoodMask :: u64
  mGalGoodMask :: u64
  mQzssGoodMask :: u8
  mGpsBadMask :: u32
  mGloBadMask :: u32
  mBdsBadMask :: u64
  mGalBadMask :: u64
  mQzssBadMask :: u8

record Pdr =
  mFixInfoMask :: u32

record SystemStatusNav =
  nav_mType :: i32
  nav_mSource :: i32
  nav_mAgeSec :: i32

record PositionFailure =
  pf_mFixInfoMask :: u32
  mHepeLimit :: u32

section \<open>Parsers\<close>

text \<open>
  A field read as a decimal or as a hexadecimal number, cut to the width of the member it is
  assigned to.
\<close>

definition dec_field :: "string list \<Rightarrow> nat \<Rightarrow> 'w::len word" where
  "dec_field f i = ucast (atoi (f ! i))"

definition int_field :: "string list \<Rightarrow> nat \<Rightarrow> i32" where
  "int_field f i = atoi (f ! i)"

definition hex_field :: "string list \<Rightarrow> nat \<Rightarrow> 'w::len word" where
  "hex_field f i = word_of_int (strtol 16 (f ! i))"

text \<open>
  The parser of \<open>$PQWM1\<close> clears its result first; a sentence with too few fields gives zeros,
  and the last fields are optional.
\<close>

definition PQWM1_zero :: PQWM1 where
  "PQWM1_zero =
     \<lparr>m1_time = \<lparr>mGpsWeek = 0, mGpsTowMs = 0, mTimeValid = 0, mTimeSource = 0, mTimeUnc = 0,
        mClockFreqBias = 0, mClockFreqBiasUnc = 0, mLeapSeconds = 0, mLeapSecUnc = 0\<rparr>,
      mXoState = 0,
      m1_rf = \<lparr>mPgaGain = 0, mGpsBpAmpI = 0, mGpsBpAmpQ = 0, mAdcI = 0, mAdcQ = 0,
        mJammerGps = 0, mJammerGlo = 0, mJammerBds = 0, mJammerGal = 0,
        mAgcGps = 0, mAgcGlo = 0, mAgcBds = 0, mAgcGal = 0, mGloBpAmpI = 0, mGloBpAmpQ = 0,
        mBdsBpAmpI = 0, mBdsBpAmpQ = 0, mGalBpAmpI = 0, mGalBpAmpQ = 0\<rparr>,
      mRecErrorRecovery = 0\<rparr>"

definition PQWM1parser :: "fp_lib \<Rightarrow> string \<Rightarrow> nat \<Rightarrow> PQWM1" where
  "PQWM1parser fp str len =
     (let f = nmea_fields str len
      in if length f \<le> 22 then PQWM1_zero
         else
           \<lparr>m1_time =
              \<lparr>mGpsWeek = dec_field f 1, mGpsTowMs = dec_field f 2, mTimeValid = dec_field f 3,
               mTimeSource = dec_field f 4, mTimeUnc = int_field f 5,
               mClockFreqBias = int_field f 6, mClockFreqBiasUnc = int_field f 7,
               mLeapSeconds = (if length f > 24 then int_field f 23 else 0),
               mLeapSecUnc = (if length f > 24 then int_field f 24 else 0)\<rparr>,
            mXoState = dec_field f 8,
            m1_rf =
              \<lparr>mPgaGain = int_field f 9, mGpsBpAmpI = dec_field f 10, mGpsBpAmpQ = dec_field f 11,
               mAdcI = dec_field f 12, mAdcQ = dec_field f 13,
               mJammerGps = dec_field f 14, mJammerGlo = dec_field f 15,
               mJammerBds = dec_field f 16, mJammerGal = dec_field f 17,
               mAgcGps = atof fp (f ! 19), mAgcGlo = atof fp (f ! 20),
               mAgcBds = atof fp (f ! 21), mAgcGal = atof fp (f ! 22),
               mGloBpAmpI = (if length f > 30 then dec_field f 25 else 0),
               mGloBpAmpQ = (if length f > 30 then dec_field f 26 else 0),
               mBdsBpAmpI = (if length f > 30 then dec_field f 27 else 0),
               mBdsBpAmpQ = (if length f > 30 then dec_field f 28 else 0),
               mGalBpAmpI = (if length f > 30 then dec_field f 29 else 0),
               mGalBpAmpQ = (if length f > 30 then dec_field f 30 else 0)\<rparr>,
            mRecErrorRecovery = dec_field f 18\<rparr>)"

text \<open>
  The other parsers return early when fields are missing, before they clear their result:
  \<open>junk\<close> is what the memory of the result holds then.
\<close>

definition PQWP1parser :: "fp_lib \<Rightarrow> InjectedPosition \<Rightarrow> string \<Rightarrow> nat \<Rightarrow> InjectedPosition" where
  "PQWP1parser fp junk str len =
     (let f = nmea_fields str len
      in if length f < 9 then junk
         else \<lparr>mEpiValidity = hex_field f 2, mEpiLat = atof_f fp (f ! 3), mEpiLon = atof_f fp (f ! 4),
               mEpiAlt = atof_f fp (f ! 5), mEpiHepe = i2f fp (atoi (f ! 6)),
               mEpiAltUnc = atof_f fp (f ! 7), mEpiSrc = dec_field f 8\<rparr>)"

definition PQWP2parser :: "fp_lib \<Rightarrow> PQWP2 \<Rightarrow> string \<Rightarrow> nat \<Rightarrow> PQWP2" where
  "PQWP2parser fp junk str len =
     (let f = nmea_fields str len
      in if length f < 7 then junk
         else \<lparr>mBestLat = atof_f fp (f ! 2), mBestLon = atof_f fp (f ! 3), mBestAlt = atof_f fp (f ! 4),
               mBestHepe = atof_f fp (f ! 5), mBestAltUnc = atof_f fp (f ! 6)\<rparr>)"

definition PQWP3parser :: "Xtra \<Rightarrow> string \<Rightarrow> nat \<Rightarrow> Xtra" where
  "PQWP3parser junk str len =
     (let f = nmea_fields str len
      in if length f < 13 then junk
         else \<lparr>mXtraValidMask = hex_field f 2, mGpsXtraAge = dec_field f 3, mGloXtraAge = dec_field f 4,
               mBdsXtraAge = dec_field f 5, mGalXtraAge = dec_field f 6, mQzssXtraAge = dec_field f 7,
               mGpsXtraValid = hex_field f 8, mGloXtraValid = hex_field f 9,
               mBdsXtraValid = hex_field f 10, mGalXtraValid = hex_field f 11,
               mQzssXtraValid = hex_field f 12\<rparr>)"

definition PQWP4parser :: "Ephemeris \<Rightarrow> string \<Rightarrow> nat \<Rightarrow> Ephemeris" where
  "PQWP4parser junk str len =
     (let f = nmea_fields str len
      in if length f < 7 then junk
         else \<lparr>mGpsEpheValid = hex_field f 2, mGloEpheValid = hex_field f 3,
               mBdsEpheValid = hex_field f 4, mGalEpheValid = hex_field f 5,
               mQzssEpheValid = hex_field f 6\<rparr>)"

definition PQWP5parser :: "SvHealth \<Rightarrow> string \<Rightarrow> nat \<Rightarrow> SvHealth" where
  "PQWP5parser junk str len =
     (let f = nmea_fields str len
      in if length f < 17 then junk
         else \<lparr>mGpsUnknownMask = hex_field f 2, mGloUnknownMask = hex_field f 3,
               mBdsUnknownMask = hex_field f 4, mGalUnknownMask = hex_field f 5,
               mQzssUnknownMask = hex_field f 6,
               mGpsGoodMask = hex_field f 7, mGloGoodMask = hex_field f 8,
               mBdsGoodMask = hex_field f 9, mGalGoodMask = hex_field f 10,
               mQzssGoodMask = hex_field f 11,
               mGpsBadMask = hex_field f 12, mGloBadMask = hex_field f 13,
               mBdsBadMask = hex_field f 14, mGalBadMask = hex_field f 15,
               mQzssBadMask = hex_field f 16\<rparr>)"

definition PQWP6parser :: "Pdr \<Rightarrow> string \<Rightarrow> nat \<Rightarrow> Pdr" where
  "PQWP6parser junk str len =
     (let f = nmea_fields str len
      in if length f < 3 then junk else \<lparr>mFixInfoMask = hex_field f 2\<rparr>)"

definition SV_ALL_NUM :: nat where
  "SV_ALL_NUM = 32 + 24 + 5 + 37 + 36"

definition PQWP7parser :: "SystemStatusNav list \<Rightarrow> string \<Rightarrow> nat \<Rightarrow> SystemStatusNav list" where
  "PQWP7parser junk str len =
     (let f = nmea_fields str len
      in if length f < 2 + SV_ALL_NUM * 3 then junk
         else map (\<lambda>i. \<lparr>nav_mType = int_field f (i * 3 + 2), nav_mSource = int_field f (i * 3 + 3),
                        nav_mAgeSec = int_field f (i * 3 + 4)\<rparr>) [0..<SV_ALL_NUM])"

definition PQWS1parser :: "PositionFailure \<Rightarrow> string \<Rightarrow> nat \<Rightarrow> PositionFailure" where
  "PQWS1parser junk str len =
     (let f = nmea_fields str len
      in if length f < 4 then junk
         else \<lparr>pf_mFixInfoMask = dec_field f 2, mHepeLimit = dec_field f 3\<rparr>)"

section \<open>Comparison of reports\<close>

definition TimeAndClock_equals :: "TimeAndClock \<Rightarrow> TimeAndClock \<Rightarrow> bool" where
  "TimeAndClock_equals a b \<longleftrightarrow>
     mGpsWeek a = mGpsWeek b \<and> mGpsTowMs a = mGpsTowMs b \<and> mTimeValid a = mTimeValid b \<and>
     mTimeSource a = mTimeSource b \<and> mTimeUnc a = mTimeUnc b \<and>
     mClockFreqBias a = mClockFreqBias b \<and> mClockFreqBiasUnc a = mClockFreqBiasUnc b \<and>
     mLeapSeconds a = mLeapSeconds b \<and> mLeapSecUnc a = mLeapSecUnc b"

definition RfAndParams_equals :: "fp_lib \<Rightarrow> RfAndParams \<Rightarrow> RfAndParams \<Rightarrow> bool" where
  "RfAndParams_equals fp a b \<longleftrightarrow>
     mPgaGain a = mPgaGain b \<and> mGpsBpAmpI a = mGpsBpAmpI b \<and> mGpsBpAmpQ a = mGpsBpAmpQ b \<and>
     mAdcI a = mAdcI b \<and> mAdcQ a = mAdcQ b \<and>
     mJammerGps a = mJammerGps b \<and> mJammerGlo a = mJammerGlo b \<and>
     mJammerBds a = mJammerBds b \<and> mJammerGal a = mJammerGal b \<and>
     deq fp (mAgcGps a) (mAgcGps b) \<and> deq fp (mAgcGlo a) (mAgcGlo b) \<and>
     deq fp (mAgcBds a) (mAgcBds b) \<and> deq fp (mAgcGal a) (mAgcGal b) \<and>
     mGloBpAmpI a = mGloBpAmpI b \<and> mGloBpAmpQ a = mGloBpAmpQ b \<and>
     mBdsBpAmpI a = mBdsBpAmpI b \<and> mBdsBpAmpQ a = mBdsBpAmpQ b \<and>
     mGalBpAmpI a = mGalBpAmpI b \<and> mGalBpAmpQ a = mGalBpAmpQ b"

definition InjectedPosition_equals :: "fp_lib \<Rightarrow> InjectedPosition \<Rightarrow> InjectedPosition \<Rightarrow> bool" where
  "InjectedPosition_equals fp a b \<longleftrightarrow>
     mEpiValidity a = mEpiValidity b \<and> feq fp (mEpiLat a) (mEpiLat b) \<and> feq fp (mEpiLon a) (mEpiLon b) \<and>
     feq fp (mEpiAlt a) (mEpiAlt b) \<and> feq fp (mEpiHepe a) (mEpiHepe b) \<and>
     feq fp (mEpiAltUnc a) (mEpiAltUnc b) \<and> mEpiSrc a = mEpiSrc b"

definition BestPosition_equals :: "fp_lib \<Rightarrow> BestPosition \<Rightarrow> BestPosition \<Rightarrow> bool" where
  "BestPosition_equals fp a b \<longleftrightarrow>
     feq fp (mBestLat a) (mBestLat b) \<and> feq fp (mBestLon a) (mBestLon b) \<and>
     feq fp (mBestAlt a) (mBestAlt b) \<and> feq fp (mBestHepe a) (mBestHepe b) \<and>
     feq fp (mBestAltUnc a) (mBestAltUnc b)"

definition Xtra_equals :: "Xtra \<Rightarrow> Xtra \<Rightarrow> bool" where
  "Xtra_equals a b \<longleftrightarrow>
     mXtraValidMask a = mXtraValidMask b \<and> mGpsXtraAge a = mGpsXtraAge b \<and>
     mGloXtraAge a = mGloXtraAge b \<and> mBdsXtraAge a = mBdsXtraAge b \<and>
     mGalXtraAge a = mGalXtraAge b \<and> mQzssXtraAge a = mQzssXtraAge b \<and>
     mGpsXtraValid a = mGpsXtraValid b \<and> mGloXtraValid a = mGloXtraValid b \<and>
     mBdsXtraValid a = mBdsXtraValid b \<and> mGalXtraValid a = mGalXtraValid b \<and>
     mQzssXtraValid a = mQzssXtraValid b"

definition Ephemeris_equals :: "Ephemeris \<Rightarrow> Ephemeris \<Rightarrow> bool" where
  "Ephemeris_equals a b \<longleftrightarrow>
     mGpsEpheValid a = mGpsEpheValid b \<and> mGloEpheValid a = mGloEpheValid b \<and>
     mBdsEpheValid a = mBdsEpheValid b \<and> mGalEpheValid a = mGalEpheValid b \<and>
     mQzssEpheValid a = mQzssEpheValid b"

definition SvHealth_equals :: "SvHealth \<Rightarrow> SvHealth \<Rightarrow> bool" where
  "SvHealth_equals a b \<longleftrightarrow>
     mGpsUnknownMask a = mGpsUnknownMask b \<and> mGloUnknownMask a = mGloUnknownMask b \<and>
     mBdsUnknownMask a = mBdsUnknownMask b \<and> mGalUnknownMask a = mGalUnknownMask b \<and>
     mQzssUnknownMask a = mQzssUnknownMask b \<and>
     mGpsGoodMask a = mGpsGoodMask b \<and> mGloGoodMask a = mGloGoodMask b \<and>
     mBdsGoodMask a = mBdsGoodMask b \<and> mGalGoodMask a = mGalGoodMask b \<and>
     mQzssGoodMask a = mQzssGoodMask b \<and>
     mGpsBadMask a = mGpsBadMask b \<and> mGloBadMask a = mGloBadMask b \<and>
     mBdsBadMask a = mBdsBadMask b \<and> mGalBadMask a = mGalBadMask b \<and>
     mQzssBadMask a = mQzssBadMask b"

definition NavData_equals :: "SystemStatusNav list \<Rightarrow> SystemStatusNav list \<Rightarrow> bool" where
  "NavData_equals a b \<longleftrightarrow>
     list_all (\<lambda>i. nav_mType (a ! i) = nav_mType (b ! i) \<and> nav_mSource (a ! i) = nav_mSource (b ! i) \<and>
                   nav_mAgeSec (a ! i) = nav_mAgeSec (b ! i)) [0..<SV_ALL_NUM]"

definition PositionFailure_equals :: "PositionFailure \<Rightarrow> PositionFailure \<Rightarrow> bool" where
  "PositionFailure_equals a b \<longleftrightarrow> pf_mFixInfoMask a = pf_mFixInfoMask b \<and> mHepeLimit a = mHepeLimit b"

text \<open>The comparisons of the data items, one line per class that does not compare all its fields.\<close>

definition data_item_equals :: "data_item \<Rightarrow> data_item \<Rightarrow> bool" where
  "data_item_equals a b \<longleftrightarrow>
     (case a of
        NetworkInfoDataItem n \<Rightarrow>
          (case b of NetworkInfoDataItem p \<Rightarrow> mAllTypes n = mAllTypes p | _ \<Rightarrow> False)
      | WifiSupplicantStatusDataItem n \<Rightarrow>
          (case b of
             WifiSupplicantStatusDataItem p \<Rightarrow>
               ws_mState n = ws_mState p \<and> mApMacAddressValid n = mApMacAddressValid p \<and>
               mWifiApSsidValid n = mWifiApSsidValid p \<and> mWifiApSsid n = mWifiApSsid p
           | _ \<Rightarrow> False)
      | BtDeviceScanDetailsDataItem _ \<Rightarrow> True
      | BtLeDeviceScanDetailsDataItem _ \<Rightarrow> True
      | _ \<Rightarrow> a = b)"

section \<open>Histories\<close>

type_synonym timespec = "int \<times> int"

record 'v status_item =
  mUtcTime :: timespec
  mUtcReported :: timespec
  item :: 'v

definition status_item_new :: "timespec \<Rightarrow> 'v \<Rightarrow> 'v status_item" where
  "status_item_new now v = \<lparr>mUtcTime = now, mUtcReported = now, item = v\<rparr>"

definition maxItem :: nat where
  "maxItem = 5"

definition push_bounded :: "'v list \<Rightarrow> 'v \<Rightarrow> 'v list" where
  "push_bounded report s =
     (let report = report @ [s] in if length report > maxItem then tl report else report)"

text \<open>
  \<open>collate\<close> changes the new item before it is compared; the third component is what it became.
\<close>

definition setIteminReport ::
  "('v \<Rightarrow> 'v \<Rightarrow> 'v) \<Rightarrow> ('v \<Rightarrow> 'v \<Rightarrow> bool) \<Rightarrow> 'v status_item list \<Rightarrow> 'v status_item \<Rightarrow>
   bool \<times> 'v status_item list \<times> 'v" where
  "setIteminReport coll eq report s =
     (if report \<noteq> []
      then
        (let back = last report;
             s = s\<lparr>item := coll (item s) (item back)\<rparr>
         in if eq (item back) (item s)
            then (False, butlast report @ [back\<lparr>mUtcReported := mUtcReported s\<rparr>], item s)
            else (True, push_bounded report s, item s))
      else (True, push_bounded report s, item s))"

definition setDefaultIteminReport :: "'v status_item list \<Rightarrow> 'v status_item \<Rightarrow> 'v status_item list" where
  "setDefaultIteminReport report s = push_bounded report s"

definition getIteminReport :: "'v list \<Rightarrow> 'v list" where
  "getIteminReport c = (if length c \<ge> 1 then [last c] else [])"

text \<open>The base class does not collate: \<open>collate\<close> returns the new item.\<close>

definition keep_new :: "'v \<Rightarrow> 'v \<Rightarrow> 'v" where
  "keep_new s cur = s"

definition NetworkInfo_collate :: "NetworkInfo \<Rightarrow> NetworkInfo \<Rightarrow> NetworkInfo" where
  "NetworkInfo_collate s cur =
     (if mConnected s then s\<lparr>mAllTypes := mAllTypes s OR mAllTypes cur\<rparr>
      else if mAllTypes s \<noteq> 0 then s\<lparr>mAllTypes := mAllTypes cur AND NOT (mAllTypes s)\<rparr>
      else s)"

definition data_item_collate :: "data_item \<Rightarrow> data_item \<Rightarrow> data_item" where
  "data_item_collate s cur =
     (case s of
        NetworkInfoDataItem n \<Rightarrow>
          (case cur of
             NetworkInfoDataItem c \<Rightarrow> NetworkInfoDataItem (NetworkInfo_collate n c)
           | _ \<Rightarrow> s)
      | _ \<Rightarrow> s)"

section \<open>The cache\<close>

text \<open>
  Of a location report the model keeps what is compared or read again as numbers, and the rest of the
  two structures as bytes.
\<close>

record LocationReport =
  loc_mValid :: bool
  latitude :: u64
  longitude :: u64
  altitude :: u64
  loc_speed :: u32
  loc_bearing :: u32
  loc_accuracy :: u32
  loc_vert_unc :: u32
  loc_speed_unc :: u32
  loc_bearing_unc :: u32
  loc_rest :: "u8 list"

definition Location_equals :: "fp_lib \<Rightarrow> LocationReport \<Rightarrow> LocationReport \<Rightarrow> bool" where
  "Location_equals fp a b \<longleftrightarrow>
     deq fp (latitude a) (latitude b) \<and> deq fp (longitude a) (longitude b) \<and>
     deq fp (altitude a) (altitude b)"

text \<open>The vectors of data items are indexed by the identifier of their class.\<close>

record SystemStatusReports =
  mLocation :: "LocationReport status_item list"
  mTimeAndClock :: "TimeAndClock status_item list"
  mXoStates :: "u8 status_item list"
  mRfAndParams :: "RfAndParams status_item list"
  mErrRecovery :: "u32 status_item list"
  mInjectedPosition :: "InjectedPosition status_item list"
  mBestPosition :: "BestPosition status_item list"
  mXtra :: "Xtra status_item list"
  mEphemeris :: "Ephemeris status_item list"
  mSvHealth :: "SvHealth status_item list"
  mPdr :: "Pdr status_item list"
  mNavData :: "SystemStatusNav list status_item list"
  mPositionFailure :: "PositionFailure status_item list"
  mDataItems :: "DataItemId \<Rightarrow> data_item status_item list"

definition SystemStatus_new :: SystemStatusReports where
  "SystemStatus_new =
     \<lparr>mLocation = [], mTimeAndClock = [], mXoStates = [], mRfAndParams = [], mErrRecovery = [],
      mInjectedPosition = [], mBestPosition = [], mXtra = [], mEphemeris = [], mSvHealth = [],
      mPdr = [], mNavData = [], mPositionFailure = [], mDataItems = (\<lambda>_. [])\<rparr>"

text \<open>A report that is neither collated nor asked whether it was new.\<close>

definition put_report ::
  "('v \<Rightarrow> 'v \<Rightarrow> bool) \<Rightarrow> timespec \<Rightarrow> 'v \<Rightarrow> 'v status_item list \<Rightarrow> 'v status_item list" where
  "put_report eq now v report = fst (snd (setIteminReport keep_new eq report (status_item_new now v)))"

text \<open>What the parsers' results hold before they are written.\<close>

record nmea_junk =
  junk_P1 :: InjectedPosition
  junk_P2 :: PQWP2
  junk_P3 :: Xtra
  junk_P4 :: Ephemeris
  junk_P5 :: SvHealth
  junk_P6 :: Pdr
  junk_P7 :: "SystemStatusNav list"
  junk_S1 :: PositionFailure

definition setNmeaString ::
  "fp_lib \<Rightarrow> nmea_junk \<Rightarrow> timespec \<Rightarrow> string \<Rightarrow> nat \<Rightarrow> SystemStatusReports \<Rightarrow>
   bool \<times> SystemStatusReports" where
  "setNmeaString fp junk now data len c =
     (if \<not> loc_nmea_is_debug data len then (False, c)
      else
        (let buf = take DEBUG_NMEA_MAXSIZE data;
             talker = take DEBUG_NMEA_MINSIZE data
         in (True,
             if talker = ''$PQWM1''
             then
               (let s = PQWM1parser fp buf len
                in c\<lparr>mTimeAndClock := put_report TimeAndClock_equals now (m1_time s) (mTimeAndClock c),
                     mXoStates := put_report (=) now (mXoState s) (mXoStates c),
                     mRfAndParams := put_report (RfAndParams_equals fp) now (m1_rf s) (mRfAndParams c),
                     mErrRecovery := put_report (=) now (mRecErrorRecovery s) (mErrRecovery c)\<rparr>)
             else if talker = ''$PQWP1''
             then c\<lparr>mInjectedPosition := put_report (InjectedPosition_equals fp) now
                      (PQWP1parser fp (junk_P1 junk) buf len) (mInjectedPosition c)\<rparr>
             else if talker = ''$PQWP2''
             then c\<lparr>mBestPosition := put_report (BestPosition_equals fp) now
                      (PQWP2.extend (PQWP2parser fp (junk_P2 junk) buf len) (BestPosition.fields True))
                      (mBestPosition c)\<rparr>
             else if talker = ''$PQWP3''
             then c\<lparr>mXtra := put_report Xtra_equals now (PQWP3parser (junk_P3 junk) buf len) (mXtra c)\<rparr>
             else if talker = ''$PQWP4''
             then c\<lparr>mEphemeris := put_report Ephemeris_equals now
                      (PQWP4parser (junk_P4 junk) buf len) (mEphemeris c)\<rparr>
             else if talker = ''$PQWP5''
             then c\<lparr>mSvHealth := put_report SvHealth_equals now
                      (PQWP5parser (junk_P5 junk) buf len) (mSvHealth c)\<rparr>
             else if talker = ''$PQWP6''
             then c\<lparr>mPdr := put_report (=) now (PQWP6parser (junk_P6 junk) buf len) (mPdr c)\<rparr>
             else if talker = ''$PQWP7''
             then c\<lparr>mNavData := put_report NavData_equals now
                      (PQWP7parser (junk_P7 junk) buf len) (mNavData c)\<rparr>
             else if talker = ''$PQWS1''
             then c\<lparr>mPositionFailure := put_report PositionFailure_equals now
                      (PQWS1parser (junk_S1 junk) buf len) (mPositionFailure c)\<rparr>
             else c)))"

definition eventPosition ::
  "fp_lib \<Rightarrow> timespec \<Rightarrow> LocationReport \<Rightarrow> SystemStatusReports \<Rightarrow> bool \<times> SystemStatusReports" where
  "eventPosition fp now l c =
     (let (ret, report, _) = setIteminReport keep_new (Location_equals fp) (mLocation c)
            (status_item_new now (l\<lparr>loc_mValid := True\<rparr>))
      in (ret, c\<lparr>mLocation := report\<rparr>))"

text \<open>
  The vector a data item goes to, and the item as a member of its class. The two Bluetooth scans
  are cast to each other's class and go to each other's vector.
\<close>

definition report_slot :: "DataItemId \<Rightarrow> DataItemId option" where
  "report_slot i =
     (case i of
        INVALID_DATA_ITEM_ID \<Rightarrow> None
      | RILVERSION_DATA_ITEM_ID \<Rightarrow> None
      | VOICECALL_DATA_ITEM \<Rightarrow> None
      | OEM_GTP_UPLOAD_TRIGGER_READY_ITEM_ID \<Rightarrow> None
      | MAX_DATA_ITEM_ID \<Rightarrow> None
      | BATTERY_LEVEL_DATA_ITEM_ID \<Rightarrow> None
      | MAX_DATA_ITEM_ID_1_1 \<Rightarrow> None
      | BTLE_SCAN_DATA_ITEM_ID \<Rightarrow> Some BT_SCAN_DATA_ITEM_ID
      | BT_SCAN_DATA_ITEM_ID \<Rightarrow> Some BTLE_SCAN_DATA_ITEM_ID
      | _ \<Rightarrow> Some i)"

definition status_of :: "item_lib \<Rightarrow> data_item \<Rightarrow> data_item" where
  "status_of lib d =
     (case d of
        RilServiceInfoDataItem p \<Rightarrow> RilServiceInfoDataItem (setPeerData lib p)
      | RilCellInfoDataItem p \<Rightarrow> RilCellInfoDataItem (setPeerData lib p)
      | BtLeDeviceScanDetailsDataItem s \<Rightarrow> BtDeviceScanDetailsDataItem s
      | BtDeviceScanDetailsDataItem s \<Rightarrow> BtLeDeviceScanDetailsDataItem s
      | _ \<Rightarrow> d)"

text \<open>
  The result, the item the caller passed, in which the collating may have changed the network
  types, and the cache.
\<close>

definition eventDataItemNotify ::
  "item_lib \<Rightarrow> timespec \<Rightarrow> data_item \<Rightarrow> SystemStatusReports \<Rightarrow> bool \<times> data_item \<times> SystemStatusReports" where
  "eventDataItemNotify lib now d c =
     (case report_slot (getId d) of
        None \<Rightarrow> (False, d, c)
      | Some k \<Rightarrow>
          (let (ret, report, s) = setIteminReport data_item_collate data_item_equals (mDataItems c k)
                 (status_item_new now (status_of lib d));
               d' = (case (d, s) of
                       (NetworkInfoDataItem n, NetworkInfoDataItem p) \<Rightarrow>
                         NetworkInfoDataItem (n\<lparr>mAllTypes := mAllTypes p\<rparr>)
                     | _ \<Rightarrow> d)
           in (ret, d', c\<lparr>mDataItems := (mDataItems c)(k := report)\<rparr>)))"

definition getReport :: "bool \<Rightarrow> SystemStatusReports \<Rightarrow> SystemStatusReports" where
  "getReport isLatestOnly c =
     (if isLatestOnly
      then
        \<lparr>mLocation = getIteminReport (mLocation c),
         mTimeAndClock = getIteminReport (mTimeAndClock c),
         mXoStates = getIteminReport (mXoStates c),
         mRfAndParams = getIteminReport (mRfAndParams c),
         mErrRecovery = getIteminReport (mErrRecovery c),
         mInjectedPosition = getIteminReport (mInjectedPosition c),
         mBestPosition = getIteminReport (mBestPosition c),
         mXtra = getIteminReport (mXtra c),
         mEphemeris = getIteminReport (mEphemeris c),
         mSvHealth = getIteminReport (mSvHealth c),
         mPdr = getIteminReport (mPdr c),
         mNavData = getIteminReport (mNavData c),
         mPositionFailure = getIteminReport (mPositionFailure c),
         mDataItems = (\<lambda>k. getIteminReport (mDataItems c k))\<rparr>
      else c)"

definition setDefaultGnssEngineStates ::
  "timespec \<Rightarrow> LocationReport \<Rightarrow> SystemStatusReports \<Rightarrow> SystemStatusReports" where
  "setDefaultGnssEngineStates now junk c =
     c\<lparr>mLocation := setDefaultIteminReport (mLocation c) (status_item_new now (junk\<lparr>loc_mValid := False\<rparr>)),
       mTimeAndClock := setDefaultIteminReport (mTimeAndClock c) (status_item_new now (m1_time PQWM1_zero)),
       mXoStates := setDefaultIteminReport (mXoStates c) (status_item_new now 0),
       mRfAndParams := setDefaultIteminReport (mRfAndParams c) (status_item_new now (m1_rf PQWM1_zero)),
       mErrRecovery := setDefaultIteminReport (mErrRecovery c) (status_item_new now 0),
       mInjectedPosition := setDefaultIteminReport (mInjectedPosition c) (status_item_new now
         \<lparr>mEpiValidity = 0, mEpiLat = 0, mEpiLon = 0, mEpiAlt = 0, mEpiHepe = 0, mEpiAltUnc = 0, mEpiSrc = 0\<rparr>),
       mBestPosition := setDefaultIteminReport (mBestPosition c) (status_item_new now
         \<lparr>mBestLat = 0, mBestLon = 0, mBestAlt = 0, mBestHepe = 0, mBestAltUnc = 0, bp_mValid = False\<rparr>),
       mXtra := setDefaultIteminReport (mXtra c) (status_item_new now
         \<lparr>mXtraValidMask = 0, mGpsXtraAge = 0, mGloXtraAge = 0, mBdsXtraAge = 0, mGalXtraAge = 0,
          mQzssXtraAge = 0, mGpsXtraValid = 0, mGloXtraValid = 0, mBdsXtraValid = 0, mGalXtraValid = 0,
          mQzssXtraValid = 0\<rparr>),
       mEphemeris := setDefaultIteminReport (mEphemeris c) (status_item_new now
         \<lparr>mGpsEpheValid = 0, mGloEpheValid = 0, mBdsEpheValid = 0, mGalEpheValid = 0, mQzssEpheValid = 0\<rparr>),
       mSvHealth := setDefaultIteminReport (mSvHealth c) (status_item_new now
         \<lparr>mGpsUnknownMask = 0, mGloUnknownMask = 0, mBdsUnknownMask = 0, mGalUnknownMask = 0,
          mQzssUnknownMask = 0, mGpsGoodMask = 0, mGloGoodMask = 0, mBdsGoodMask = 0, mGalGoodMask = 0,
          mQzssGoodMask = 0, mGpsBadMask = 0, mGloBadMask = 0, mBdsBadMask = 0, mGalBadMask = 0,
          mQzssBadMask = 0\<rparr>),
       mPdr := setDefaultIteminReport (mPdr c) (status_item_new now \<lparr>mFixInfoMask = 0\<rparr>),
       mNavData := setDefaultIteminReport (mNavData c) (status_item_new now
         (replicate SV_ALL_NUM \<lparr>nav_mType = 0, nav_mSource = 0, nav_mAgeSec = 0\<rparr>)),
       mPositionFailure := setDefaultIteminReport (mPositionFailure c) (status_item_new now
         \<lparr>pf_mFixInfoMask = 0, mHepeLimit = 0\<rparr>)\<rparr>"

end
