(* ===== verification/System_Status_Proofs.thy ===== *)
theory System_Status_Proofs
  imports System_Status
begin

text \<open>
  What holds of the system status: a history is the last five runs of equal reports, the network
  types follow the connections, a debug sentence is read back as it was printed whatever its
  checksum says, and one with missing fields reports unwritten memory.
\<close>

section \<open>Histories are the last runs of equal reports\<close>

text \<open>
  The reference: equal reports that follow each other make one entry, with the time of the first
  and of the last of them.
\<close>

function runs :: "(timespec \<times> 'v) list \<Rightarrow> 'v status_item list" where
  "runs [] = []"
| "runs ((t, v) # rs) =
     (let same = takeWhile (\<lambda>r. snd r = v) rs
      in \<lparr>mUtcTime = t, mUtcReported = fst (last ((t, v) # same)), item = v\<rparr> #
         runs (dropWhile (\<lambda>r. snd r = v) rs))"
  by pat_completeness auto
termination
  by (relation "measure length") (auto simp: le_imp_less_Suc length_dropWhile_le)

definition last_five :: "'a list \<Rightarrow> 'a list" where
  "last_five xs = drop (length xs - 5) xs"

lemma runs_Nil_iff [simp]: "runs rs = [] \<longleftrightarrow> rs = []"
  by (cases rs rule: runs.cases) (simp_all add: Let_def)

lemma runs_snoc:
  "runs (rs @ [(t, v)]) =
     (if rs \<noteq> [] \<and> item (last (runs rs)) = v
      then butlast (runs rs) @ [(last (runs rs))\<lparr>mUtcReported := t\<rparr>]
      else runs rs @ [status_item_new t v])"
proof (induction rs rule: runs.induct)
  case 1
  then show ?case by (simp add: status_item_new_def)
next
  case (2 t0 v0 rs)
  let ?P = "\<lambda>r :: timespec \<times> 'a. snd r = v0"
  show ?case
  proof (cases "\<forall>r \<in> set rs. ?P r")
    case True
    then have all: "takeWhile ?P rs = rs" "dropWhile ?P rs = []"
      by (simp_all add: takeWhile_eq_all_conv dropWhile_eq_Nil_conv)
    with True show ?thesis
      by (simp add: all Let_def takeWhile_append dropWhile_append status_item_new_def)
  next
    case False
    obtain rest where rest: "dropWhile ?P rs = rest" by blast
    have "rest \<noteq> []" using False unfolding rest[symmetric] by (simp add: dropWhile_eq_Nil_conv)
    moreover have "takeWhile ?P (rs @ [(t, v)]) = takeWhile ?P rs"
        "dropWhile ?P (rs @ [(t, v)]) = rest @ [(t, v)]"
      using False rest by (auto simp: takeWhile_append dropWhile_append)
    ultimately show ?thesis
      using 2 by (simp add: Let_def rest)
  qed
qed

lemma last_five_snoc: "last_five (xs @ [x]) = push_bounded (last_five xs) x"
proof (cases "length xs < 5")
  case False
  have ne: "drop (length xs - 5) xs \<noteq> []" using False by simp
  have "tl (drop (length xs - 5) xs) = drop (Suc (length xs - 5)) xs" by (simp add: drop_Suc tl_drop)
  moreover have "Suc (length xs - 5) = length xs - 4" using False by simp
  ultimately have "tl (drop (length xs - 5) xs @ [x]) = drop (length xs - 4) xs @ [x]"
    using tl_append2[OF ne, of "[x]"] by simp
  with False show ?thesis by (simp add: last_five_def push_bounded_def maxItem_def Let_def)
qed (simp add: last_five_def push_bounded_def maxItem_def Let_def)

lemma last_five_last:
  assumes "xs \<noteq> []"
  shows "last_five xs \<noteq> [] \<and> last (last_five xs) = last xs \<and>
     last_five (butlast xs @ [y]) = butlast (last_five xs) @ [y]"
  using assms by (simp add: last_five_def butlast_drop not_le)

lemma put_report_cases:
  "put_report eq t v h =
     (if h \<noteq> [] \<and> eq (item (last h)) v
      then butlast h @ [(last h)\<lparr>mUtcReported := t\<rparr>]
      else push_bounded h (status_item_new t v))"
  by (simp add: put_report_def setIteminReport_def keep_new_def status_item_new_def Let_def)


lemma equals_eq:
  "TimeAndClock_equals a b \<longleftrightarrow> a = b"
  "Xtra_equals x y \<longleftrightarrow> x = y"
  "Ephemeris_equals e f \<longleftrightarrow> e = f"
  "SvHealth_equals h k \<longleftrightarrow> h = k"
  "PositionFailure_equals p q \<longleftrightarrow> p = q"
  by (auto simp: TimeAndClock_equals_def Xtra_equals_def Ephemeris_equals_def SvHealth_equals_def
      PositionFailure_equals_def)

definition demo_failures :: "(timespec \<times> PositionFailure) list" where
  "demo_failures =
     map (\<lambda>i. ((int i, 0), \<lparr>pf_mFixInfoMask = of_nat (i div 2), mHepeLimit = 0\<rparr>)) [0..<14]"


section \<open>Network types\<close>

definition type_bits :: "i32 \<Rightarrow> nat set" where
  "type_bits t = (if 0 \<le> sint t \<and> sint t < 9 then {nat (sint t)} else {})"

lemma bit_typeToAllTypes: "bit (typeToAllTypes t) i \<longleftrightarrow> i \<in> type_bits t"
proof (cases "0 \<le> sint t \<and> sint t < 9")
  case True
  then have "nat (sint t) < 9" by (simp add: nat_less_iff)
  with True show ?thesis
    by (auto simp: typeToAllTypes_def type_bits_def TYPE_UNKNOWN_def push_bit_of_1 bit_exp_iff)
qed (auto simp: typeToAllTypes_def type_bits_def TYPE_UNKNOWN_def)

lemma bits_typeToAllTypes [simp]: "Collect (bit (typeToAllTypes t)) = type_bits t"
  by (auto simp: bit_typeToAllTypes)

lemma typeToAllTypes_0: "typeToAllTypes t = 0 \<longleftrightarrow> type_bits t = {}"
proof -
  have "i < 64" if "i \<in> type_bits t" for i
    using that by (auto simp: type_bits_def split: if_splits)
  then show ?thesis by (auto simp: bit_eq_iff bit_typeToAllTypes)
qed

text \<open>
  The types that count as connected. A connection adds its type and a disconnection removes it;
  the disconnection of an unknown type means that nothing is connected any more.
\<close>

fun connected_step :: "nat set \<Rightarrow> NetworkInfo \<Rightarrow> nat set" where
  "connected_step S n =
     (if mConnected n then S \<union> type_bits (mType n)
      else if type_bits (mType n) = {} then {} else S - type_bits (mType n))"

definition all_types :: "data_item status_item list \<Rightarrow> nat set" where
  "all_types h =
     (case item (last h) of NetworkInfoDataItem n \<Rightarrow> {i. bit (mAllTypes n) i} | _ \<Rightarrow> {})"

definition is_network :: "data_item \<Rightarrow> bool" where
  "is_network d \<longleftrightarrow> (\<exists>n. d = NetworkInfoDataItem n)"

definition network_history :: "SystemStatusReports \<Rightarrow> data_item status_item list" where
  "network_history c = mDataItems c NETWORKINFO_DATA_ITEM_ID"

fun network_run ::
  "item_lib \<Rightarrow> (timespec \<times> NetworkInfo) list \<Rightarrow> SystemStatusReports \<Rightarrow> SystemStatusReports" where
  "network_run lib [] c = c"
| "network_run lib ((now, n) # es) c =
     network_run lib es (snd (snd (eventDataItemNotify lib now (NetworkInfoDataItem n) c)))"

lemma last_push_bounded [simp]: "last (push_bounded h s) = s" "push_bounded h s \<noteq> []"
  by (auto simp: push_bounded_def maxItem_def Let_def last_tl tl_append split: list.splits)

lemma network_event:
  "network_history (snd (snd (eventDataItemNotify lib now (NetworkInfoDataItem n) c))) =
     fst (snd (setIteminReport data_item_collate data_item_equals (network_history c)
                 (status_item_new now (NetworkInfoDataItem n))))"
  by (simp add: eventDataItemNotify_def network_history_def report_slot_def status_of_def
      split: prod.splits)

lemma network_item_simps:
  "data_item_equals (NetworkInfoDataItem n) (NetworkInfoDataItem p) \<longleftrightarrow> mAllTypes n = mAllTypes p"
  "data_item_collate (NetworkInfoDataItem n) (NetworkInfoDataItem p) =
     NetworkInfoDataItem (NetworkInfo_collate n p)"
  by (simp_all add: data_item_equals_def data_item_collate_def)

lemma network_first:
  fixes lib now n c
  assumes "network_history c = []" "mAllTypes n = typeToAllTypes (mType n)"
  defines "h \<equiv> network_history (snd (snd (eventDataItemNotify lib now (NetworkInfoDataItem n) c)))"
  shows "h \<noteq> [] \<and> is_network (item (last h)) \<and> all_types h = type_bits (mType n)"
  using assms(1,2)
  by (simp add: h_def network_event setIteminReport_def status_item_new_def is_network_def
      all_types_def bit_typeToAllTypes)

lemma network_step:
  fixes lib now n c
  assumes "network_history c \<noteq> []" "is_network (item (last (network_history c)))"
    and "mAllTypes n = typeToAllTypes (mType n)"
  defines "h \<equiv> network_history (snd (snd (eventDataItemNotify lib now (NetworkInfoDataItem n) c)))"
  shows "h \<noteq> [] \<and> is_network (item (last h)) \<and>
         all_types h = connected_step (all_types (network_history c)) n"
proof -
  obtain p where p: "item (last (network_history c)) = NetworkInfoDataItem p"
    using assms(2) by (auto simp: is_network_def)
  have "{i. bit (mAllTypes (NetworkInfo_collate n p)) i} = connected_step {i. bit (mAllTypes p) i} n"
    using assms(3)
    by (auto simp: NetworkInfo_collate_def bit_or_iff bit_and_iff bit_not_iff bit_typeToAllTypes
        typeToAllTypes_0) (auto simp: type_bits_def dest: bit_imp_le_length split: if_splits)
  then have bits: "{i. bit (mAllTypes (NetworkInfo_collate n p)) i} = connected_step (all_types (network_history c)) n"
    by (simp only: all_types_def p data_item.case)
  show ?thesis
  proof (cases "mAllTypes p = mAllTypes (NetworkInfo_collate n p)")
    case True
    have "h = butlast (network_history c) @ [(last (network_history c))\<lparr>mUtcReported := now\<rparr>]"
      using assms(1)
      by (simp only: h_def network_event setIteminReport_def status_item_new_def Let_def p
          network_item_simps status_item.simps True[symmetric] if_True simp_thms fst_conv snd_conv)
    then have "h \<noteq> [] \<and> is_network (item (last h)) \<and> all_types h = {i. bit (mAllTypes p) i}"
      using p by (simp add: is_network_def all_types_def)
    then show ?thesis using bits True by (simp only: simp_thms)
  next
    case False
    then have "h = push_bounded (network_history c)
        \<lparr>mUtcTime = now, mUtcReported = now, item = NetworkInfoDataItem (NetworkInfo_collate n p)\<rparr>"
      using assms(1) p
      by (simp only: h_def network_event setIteminReport_def status_item_new_def Let_def
          network_item_simps status_item.simps if_True if_False simp_thms fst_conv snd_conv)
    then have "h \<noteq> [] \<and> is_network (item (last h)) \<and>
        all_types h = {i. bit (mAllTypes (NetworkInfo_collate n p)) i}"
      by (simp add: is_network_def all_types_def)
    then show ?thesis using bits by (simp only: simp_thms)
  qed
qed

lemma network_run_types:
  assumes "network_history c \<noteq> []" "is_network (item (last (network_history c)))"
    and "\<forall>e \<in> set es. mAllTypes (snd e) = typeToAllTypes (mType (snd e))"
  shows "all_types (network_history (network_run lib es c)) =
         foldl connected_step (all_types (network_history c)) (map snd es)"
  using assms
proof (induction es arbitrary: c)
  case (Cons e es)
  obtain now n where e: "e = (now, n)" by (cases e)
  show ?case
    using Cons network_step[of c n lib now] by (simp add: e del: connected_step.simps)
qed simp

text \<open>
  After any sequence of network reports the newest entry's \<open>mAllTypes\<close> is the set of connected
  types: every connection has added its type, every disconnection removed it. Only the very first
  report is taken as it comes, so that a first report of a disconnection counts as a connection.
\<close>

theorem network_types_track_connections:
  assumes "\<forall>e \<in> set ((now, n) # es). mAllTypes (snd e) = typeToAllTypes (mType (snd e))"
  shows "all_types (network_history (network_run lib ((now, n) # es) SystemStatus_new)) =
         foldl connected_step (type_bits (mType n)) (map snd es)"
proof -
  let ?c = "snd (snd (eventDataItemNotify lib now (NetworkInfoDataItem n) SystemStatus_new))"
  have "network_history SystemStatus_new = []" by (simp add: network_history_def SystemStatus_new_def)
  with network_first[of SystemStatus_new n lib now] assms
  have "network_history ?c \<noteq> []" "is_network (item (last (network_history ?c)))"
      "all_types (network_history ?c) = type_bits (mType n)"
    by auto
  then show ?thesis using network_run_types[of ?c es lib] assms by simp
qed

definition demo_lib :: item_lib where
  "demo_lib =
     \<lparr>createNewDataItem = (\<lambda>i. if i = NETWORKINFO_DATA_ITEM_ID
        then Some (NetworkInfoDataItem (NetworkInfo_new 0 [] [] False False))
        else if i = SCREEN_STATE_DATA_ITEM_ID then Some (ScreenStateDataItem False)
        else if i = GPSSTATE_DATA_ITEM_ID then Some (GPSStateDataItem False) else None),
      di_copy = (\<lambda>c d. (d, c \<noteq> d)), setPeerData = (\<lambda>p. p)\<rparr>"

definition demo_network :: "(timespec \<times> NetworkInfo) list" where
  "demo_network =
     [((2, 0), NetworkInfo_new 0 [] [] True False), ((3, 0), NetworkInfo_new 5 [] [] True False),
      ((4, 0), NetworkInfo_new 0 [] [] False False)]"

lemma network_types_track_connections_witness:
  "all_types (network_history (network_run demo_lib
      (((1, 0), NetworkInfo_new 1 [] [] False False) # demo_network) SystemStatus_new)) = {1, 5}"
proof -
  have "\<forall>e \<in> set (((1, 0), NetworkInfo_new 1 [] [] False False) # demo_network).
      mAllTypes (snd e) = typeToAllTypes (mType (snd e))"
    by (simp add: demo_network_def NetworkInfo_new_def)
  moreover have "foldl connected_step (type_bits (mType (NetworkInfo_new 1 [] [] False False)))
      (map snd demo_network) = {1, 5}"
    by code_simp
  ultimately show ?thesis
    using network_types_track_connections
      [of "(1, 0)" "NetworkInfo_new 1 [] [] False False" demo_network demo_lib] by simp
qed

section \<open>Debug sentences\<close>

text \<open>How the modem prints a sentence: numbers in lower-case hexadecimal, fields between commas.\<close>

definition hex_char :: "nat \<Rightarrow> char" where
  "hex_char d = ''0123456789abcdef'' ! d"

fun hex_string :: "nat \<Rightarrow> string" where
  "hex_string n =
     (if n < 16 then [hex_char n] else hex_string (n div 16) @ [hex_char (n mod 16)])"

declare hex_string.simps [simp del]

fun join_commas :: "string list \<Rightarrow> string" where
  "join_commas [] = []"
| "join_commas [f] = f"
| "join_commas (f # fs) = f @ CHR '','' # join_commas fs"

definition sentence :: "string list \<Rightarrow> string \<Rightarrow> string" where
  "sentence fs checksum = join_commas fs @ CHR ''*'' # checksum"

definition plain :: "string \<Rightarrow> bool" where
  "plain f \<longleftrightarrow> CHR '','' \<notin> set f \<and> CHR ''*'' \<notin> set f"

lemma join_commas_end:
  "fs \<noteq> [] \<Longrightarrow> join_commas fs @ CHR '','' # r = concat (map (\<lambda>f. f @ [CHR '','']) fs) @ r"
  by (induction fs rule: join_commas.induct) simp_all

lemma no_star_join: "\<forall>f \<in> set fs. plain f \<Longrightarrow> CHR ''*'' \<notin> set (join_commas fs)"
  by (induction fs rule: join_commas.induct) (auto simp: plain_def)

lemma tokenize_field: "CHR '','' \<notin> set f \<Longrightarrow> tokenize (f @ CHR '','' # r) = f # tokenize r"
  by (subst tokenize.simps) (simp add: takeWhile_append dropWhile_append)

lemma tokenize_fields:
  "\<forall>f \<in> set fs. plain f \<Longrightarrow>
   tokenize (concat (map (\<lambda>f. f @ [CHR '','']) fs) @ r) = fs @ tokenize r"
  by (induction fs) (simp_all add: tokenize_field plain_def)

lemma nmea_fields_sentence:
  assumes "fs \<noteq> []" "\<forall>f \<in> set fs. plain f" "loc_nmea_is_debug (sentence fs cs) len"
  shows "nmea_fields (sentence fs cs) len = fs @ tokenize cs"
proof -
  have "takeWhile (\<lambda>c. c \<noteq> CHR ''*'') (sentence fs cs) = join_commas fs"
      "tl (dropWhile (\<lambda>c. c \<noteq> CHR ''*'') (sentence fs cs)) = cs"
    using no_star_join[OF assms(2)] by (auto simp: sentence_def takeWhile_append dropWhile_append)
  with assms show ?thesis
    by (simp add: nmea_fields_def join_commas_end tokenize_fields) (simp add: sentence_def)
qed

subsection \<open>Hexadecimal fields\<close>

lemma hex_char_props:
  assumes "d < 16"
  shows "digit_val 16 (hex_char d) = Some d" "\<not> isspace (hex_char d)"
    "hex_char d \<notin> {CHR ''-'', CHR ''+'', CHR '','', CHR ''*'', CHR ''x'', CHR ''X''}"
proof -
  have all: "\<forall>d \<in> set [0..<16]. digit_val 16 (hex_char d) = Some d \<and> \<not> isspace (hex_char d) \<and>
      hex_char d \<notin> {CHR ''-'', CHR ''+'', CHR '','', CHR ''*'', CHR ''x'', CHR ''X''}"
    by code_simp
  have "d \<in> set [0..<16]" using assms by simp
  note d = bspec[OF all this]
  show "digit_val 16 (hex_char d) = Some d" by (rule conjunct1[OF d])
  show "\<not> isspace (hex_char d)" by (rule conjunct1[OF conjunct2[OF d]])
  show "hex_char d \<notin> {CHR ''-'', CHR ''+'', CHR '','', CHR ''*'', CHR ''x'', CHR ''X''}"
    by (rule conjunct2[OF conjunct2[OF d]])
qed

lemma hex_string_rec:
  "n < 16 \<Longrightarrow> hex_string n = [hex_char n]"
  "\<not> n < 16 \<Longrightarrow> hex_string n = hex_string (n div 16) @ [hex_char (n mod 16)]"
  by (subst hex_string.simps, simp)+

lemma hex_string_chars: "c \<in> set (hex_string n) \<Longrightarrow> \<exists>d<16. c = hex_char d"
proof (induction n rule: hex_string.induct)
  case (1 n)
  show ?case
  proof (cases "n < 16")
    case True
    then show ?thesis using 1 by (auto simp: hex_string_rec)
  next
    case False
    then have "c \<in> set (hex_string (n div 16)) \<or> c = hex_char (n mod 16)"
      using 1(2) by (auto simp: hex_string_rec(2)[OF False])
    then show ?thesis using 1(1)[OF False] by (metis mod_less_divisor zero_less_numeral)
  qed
qed

lemma hex_string_Nil [simp]: "hex_string n \<noteq> []"
  by (subst hex_string.simps) simp

lemma read_digits_snoc:
  assumes "\<forall>c \<in> set xs. digit_val b c \<noteq> None" "digit_val b c = Some d"
  shows "read_digits b acc (xs @ [c]) = read_digits b acc xs * int b + int d"
  using assms by (induction xs arbitrary: acc) auto

lemma read_hex_string: "read_digits 16 0 (hex_string n) = int n"
proof (induction n rule: hex_string.induct)
  case (1 n)
  show ?case
  proof (cases "n < 16")
    case True
    then show ?thesis by (simp add: hex_string_rec hex_char_props)
  next
    case False
    have "\<forall>c \<in> set (hex_string (n div 16)). digit_val 16 c \<noteq> None"
      using hex_string_chars hex_char_props(1) by fastforce
    then have "read_digits 16 0 (hex_string (n div 16) @ [hex_char (n mod 16)]) =
        read_digits 16 0 (hex_string (n div 16)) * int 16 + int (n mod 16)"
      by (rule read_digits_snoc) (simp add: hex_char_props)
    also have "\<dots> = int (n div 16 * 16 + n mod 16)"
      using 1[OF False] by (simp only: of_nat_add of_nat_mult)
    also have "\<dots> = int n" by (simp only: div_mult_mod_eq)
    finally show ?thesis by (simp only: hex_string_rec(2)[OF False])
  qed
qed

lemma strtol_hex_string: "strtol 16 (hex_string n) = min LONG_MAX (int n)"
proof -
  obtain c cs where c: "hex_string n = c # cs" by (cases "hex_string n") auto
  have chars: "\<exists>d<16. x = hex_char d" if "x \<in> set (c # cs)" for x
    using hex_string_chars[of x n] that by (simp add: c)
  obtain d where d: "d < 16" "c = hex_char d" using chars[of c] by auto
  have "x \<noteq> CHR ''x'' \<and> x \<noteq> CHR ''X''" if x: "x \<in> set cs" for x
  proof -
    obtain e where "e < 16" "x = hex_char e" using chars[OF list.set_intros(2)[OF x]] by blast
    then show ?thesis using hex_char_props(3)[of e] by auto
  qed
  then have "take 2 (c # cs) \<noteq> ''0x'' \<and> take 2 (c # cs) \<noteq> ''0X''" by (cases cs) auto
  then have "skip_prefix 16 (c # cs) = c # cs" by (auto simp: skip_prefix_def)
  moreover have "read_sign (dropWhile isspace (c # cs)) = (False, c # cs)"
    using hex_char_props(2,3)[OF d(1)] by (simp add: read_sign_def d(2))
  moreover have "0 \<le> LONG_MAX" "read_digits 16 0 (c # cs) = int n"
    using read_hex_string[of n] by (simp_all add: LONG_MAX_def c)
  ultimately show ?thesis unfolding strtol_def c by simp
qed

lemma plain_hex_string [simp]: "plain (hex_string n)"
proof -
  have "x \<noteq> CHR '','' \<and> x \<noteq> CHR ''*''" if x: "x \<in> set (hex_string n)" for x
  proof -
    obtain e where "e < 16" "x = hex_char e" using hex_string_chars[OF x] by auto
    then show ?thesis using hex_char_props(3)[of e] by auto
  qed
  then show ?thesis by (auto simp: plain_def)
qed

definition hex :: "'w::len word \<Rightarrow> string" where
  "hex w = hex_string (unat w)"

lemma plain_hex [simp]: "plain (hex w)"
  by (simp add: hex_def)

lemma hex_field_hex:
  fixes w :: "'w::len word"
  assumes "f ! i = hex w" "unat w < 2 ^ 63"
  shows "hex_field f i = w"
proof -
  have "int (unat w) < int (2 ^ 63)" using assms(2) by (simp only: of_nat_less_iff)
  then have "int (unat w) < 2 ^ 63" by (simp only: of_nat_power of_nat_numeral)
  then have "int (unat w) \<le> LONG_MAX" unfolding LONG_MAX_def by linarith
  then have "min LONG_MAX (int (unat w)) = int (unat w)" by (rule min_absorb2)
  then show ?thesis by (simp only: hex_field_def assms(1) hex_def strtol_hex_string) simp
qed

subsection \<open>Reading a sentence\<close>

definition masks_fit :: "SvHealth \<Rightarrow> bool" where
  "masks_fit h \<longleftrightarrow>
     list_all (\<lambda>w. unat w < 2 ^ 63)
       [mBdsUnknownMask h, mGalUnknownMask h, mBdsGoodMask h, mGalGoodMask h, mBdsBadMask h, mGalBadMask h]"

definition health_fields :: "SvHealth \<Rightarrow> string list" where
  "health_fields h =
     [hex (mGpsUnknownMask h), hex (mGloUnknownMask h), hex (mBdsUnknownMask h),
      hex (mGalUnknownMask h), hex (mQzssUnknownMask h),
      hex (mGpsGoodMask h), hex (mGloGoodMask h), hex (mBdsGoodMask h),
      hex (mGalGoodMask h), hex (mQzssGoodMask h),
      hex (mGpsBadMask h), hex (mGloBadMask h), hex (mBdsBadMask h),
      hex (mGalBadMask h), hex (mQzssBadMask h)]"

lemma unat_small:
  "unat (w :: u8) < 2 ^ 63" "unat (x :: u32) < 2 ^ 63"
proof -
  have "unat w < 2 ^ LENGTH(8)" "unat x < 2 ^ LENGTH(32)" by (rule unsigned_less)+
  then show "unat w < 2 ^ 63" "unat x < 2 ^ 63" by simp_all
qed

lemmas hex_field_small = hex_field_hex[OF _ unat_small(1)] hex_field_hex[OF _ unat_small(2)]

lemma PQWP5_parse:
  assumes "nmea_fields str len = ''$PQWP5'' # utc # health_fields h @ rest" "masks_fit h"
  shows "PQWP5parser junk str len = h"
  using assms
  by (simp add: PQWP5parser_def health_fields_def masks_fit_def hex_field_hex hex_field_small)

lemma debug_sentence:
  assumes "fs \<noteq> []" "hd fs = ''$PQW'' @ r" "DEBUG_NMEA_MINSIZE \<le> len" "len \<le> DEBUG_NMEA_MAXSIZE"
  shows "loc_nmea_is_debug (sentence fs cs) len"
  using assms by (cases fs rule: join_commas.cases) (auto simp: loc_nmea_is_debug_def sentence_def)

lemma talker_sentence:
  assumes "fs \<noteq> []" "hd fs = t" "length t = 6"
  shows "take 6 (sentence fs cs) = t"
  using assms by (cases fs rule: join_commas.cases) (auto simp: sentence_def)

lemma plain_talker [simp]: "plain ''$PQWP5''"
  by (simp add: plain_def)

lemma setNmeaString_P5:
  assumes "loc_nmea_is_debug data len" "length data \<le> DEBUG_NMEA_MAXSIZE" "take 6 data = ''$PQWP5''"
  shows "setNmeaString fp junk now data len c =
         (True, c\<lparr>mSvHealth := put_report SvHealth_equals now (PQWP5parser (junk_P5 junk) data len) (mSvHealth c)\<rparr>)"
  using assms by (simp add: setNmeaString_def DEBUG_NMEA_MINSIZE_def Let_def)

lemma health_sentence:
  assumes "masks_fit h" "plain utc"
    and "data = sentence (''$PQWP5'' # utc # health_fields h) checksum"
    and "length data \<le> DEBUG_NMEA_MAXSIZE"
  shows "setNmeaString fp junk now data (length data) c =
         (True, c\<lparr>mSvHealth := put_report SvHealth_equals now h (mSvHealth c)\<rparr>)"
proof -
  have "6 \<le> length data" by (simp add: assms(3) sentence_def)
  then have debug: "loc_nmea_is_debug data (length data)"
    unfolding assms(3) using assms(3,4)
    by (intro debug_sentence[where r = "''P5''"]) (simp_all add: DEBUG_NMEA_MINSIZE_def)
  have "nmea_fields data (length data) = ''$PQWP5'' # utc # health_fields h @ tokenize checksum"
    using nmea_fields_sentence[of "''$PQWP5'' # utc # health_fields h" checksum "length data"] debug assms(2)
    by (simp add: assms(3) health_fields_def)
  then have "PQWP5parser (junk_P5 junk) data (length data) = h"
    using assms(1) by (rule PQWP5_parse)
  then show ?thesis
    using setNmeaString_P5[OF debug assms(4)] by (simp add: assms(3) talker_sentence)
qed

text \<open>
  The satellite health masks that the modem prints in a \<open>$PQWP5\<close> sentence are the ones the
  history gets, whatever stands behind the asterisk: the checksum is never compared. The 64-bit
  masks must be below \<open>2 ^ 63\<close>, where \<open>strtol\<close> stops.
\<close>

theorem health_sentence_roundtrip:
  assumes "masks_fit h" "plain utc"
    and "data = sentence (''$PQWP5'' # utc # health_fields h) checksum"
    and "length data \<le> DEBUG_NMEA_MAXSIZE"
  shows "setNmeaString fp junk now data (length data) c =
         (True, c\<lparr>mSvHealth := put_report SvHealth_equals now h (mSvHealth c)\<rparr>)"
  using assms by (rule health_sentence)

definition demo_health :: SvHealth where
  "demo_health =
     \<lparr>mGpsUnknownMask = 0, mGloUnknownMask = 0xA5, mBdsUnknownMask = 0x1000000001, mGalUnknownMask = 0,
      mQzssUnknownMask = 3, mGpsGoodMask = 0xFFFFFFFF, mGloGoodMask = 0, mBdsGoodMask = 0,
      mGalGoodMask = 0xFFFFFFFFF, mQzssGoodMask = 0x1F, mGpsBadMask = 0, mGloBadMask = 0,
      mBdsBadMask = 0, mGalBadMask = 0, mQzssBadMask = 0\<rparr>"

definition demo_sentence :: "string \<Rightarrow> string" where
  "demo_sentence checksum = sentence (''$PQWP5'' # ''120000.00'' # health_fields demo_health) checksum"

definition demo_fp :: fp_lib where
  "demo_fp = \<lparr>atof = (\<lambda>s. of_nat (length s)), d2f = ucast, i2f = (\<lambda>w. w), deq = (=), feq = (=)\<rparr>"

definition demo_junk :: nmea_junk where
  "demo_junk =
     \<lparr>junk_P1 = \<lparr>mEpiValidity = 1, mEpiLat = 1, mEpiLon = 1, mEpiAlt = 1, mEpiHepe = 1, mEpiAltUnc = 1, mEpiSrc = 1\<rparr>,
      junk_P2 = \<lparr>mBestLat = 1, mBestLon = 1, mBestAlt = 1, mBestHepe = 1, mBestAltUnc = 1\<rparr>,
      junk_P3 = \<lparr>mXtraValidMask = 1, mGpsXtraAge = 1, mGloXtraAge = 1, mBdsXtraAge = 1, mGalXtraAge = 1,
        mQzssXtraAge = 1, mGpsXtraValid = 1, mGloXtraValid = 1, mBdsXtraValid = 1, mGalXtraValid = 1,
        mQzssXtraValid = 1\<rparr>,
      junk_P4 = \<lparr>mGpsEpheValid = 1, mGloEpheValid = 1, mBdsEpheValid = 1, mGalEpheValid = 1, mQzssEpheValid = 1\<rparr>,
      junk_P5 = demo_health\<lparr>mGpsBadMask := 0xDEAD\<rparr>, junk_P6 = \<lparr>mFixInfoMask = 1\<rparr>, junk_P7 = [],
      junk_S1 = \<lparr>pf_mFixInfoMask = 1, mHepeLimit = 1\<rparr>\<rparr>"

lemma health_sentence_roundtrip_witness:
  "setNmeaString demo_fp demo_junk (7, 0) (demo_sentence ''bad'') (length (demo_sentence ''bad'')) SystemStatus_new =
     (True, SystemStatus_new\<lparr>mSvHealth := [status_item_new (7, 0) demo_health]\<rparr>)"
proof -
  have facts: "masks_fit demo_health" "plain ''120000.00''"
      "length (demo_sentence ''bad'') \<le> DEBUG_NMEA_MAXSIZE"
    by (simp_all add: masks_fit_def demo_health_def plain_def demo_sentence_def sentence_def
        health_fields_def hex_def hex_string_rec DEBUG_NMEA_MAXSIZE_def)
  have "put_report SvHealth_equals (7, 0) demo_health (mSvHealth SystemStatus_new) =
      [status_item_new (7, 0) demo_health]"
    by (simp add: put_report_cases push_bounded_def maxItem_def SystemStatus_new_def)
  then show ?thesis
    using health_sentence_roundtrip [OF facts(1,2) demo_sentence_def facts(3)] by simp
qed

text \<open>
  A debug sentence with fields missing is consumed all the same, and what its parser's memory
  happened to hold becomes a report of satellite health.
\<close>

theorem short_sentence_reports_junk:
  assumes "\<forall>f \<in> set fs. plain f" "length fs < 16" "CHR '','' \<notin> set checksum"
    and "data = sentence (''$PQWP5'' # fs) checksum" "length data \<le> DEBUG_NMEA_MAXSIZE"
  shows "setNmeaString fp junk now data (length data) c =
         (True, c\<lparr>mSvHealth := put_report SvHealth_equals now (junk_P5 junk) (mSvHealth c)\<rparr>)"
proof -
  have "6 \<le> length data" by (cases fs) (simp_all add: assms(4) sentence_def)
  then have debug: "loc_nmea_is_debug data (length data)"
    unfolding assms(4) using assms(4,5)
    by (intro debug_sentence[where r = "''P5''"]) (simp_all add: DEBUG_NMEA_MINSIZE_def)
  have "tokenize checksum = []" by (subst tokenize.simps) (simp add: assms(3))
  then have "length (nmea_fields data (length data)) < 17"
    using nmea_fields_sentence[of "''$PQWP5'' # fs" checksum "length data"] debug assms(1,2)
    by (simp add: assms(4))
  then have "PQWP5parser (junk_P5 junk) data (length data) = junk_P5 junk"
    by (simp add: PQWP5parser_def)
  then show ?thesis
    using setNmeaString_P5[OF debug assms(5)] by (simp add: assms(4) talker_sentence)
qed

definition demo_short :: string where
  "demo_short = sentence (''$PQWP5'' # [''120000.00'']) ''00''"

lemma short_sentence_reports_junk_witness:
  "setNmeaString demo_fp demo_junk (7, 0) demo_short (length demo_short) SystemStatus_new =
     (True, SystemStatus_new\<lparr>mSvHealth := [status_item_new (7, 0) (demo_health\<lparr>mGpsBadMask := 0xDEAD\<rparr>)]\<rparr>)"
proof -
  have facts: "\<forall>f \<in> set [''120000.00'']. plain f" "length [''120000.00''] < 16" "CHR '','' \<notin> set ''00''"
      "length demo_short \<le> DEBUG_NMEA_MAXSIZE"
    by code_simp+
  have "put_report SvHealth_equals (7, 0) (junk_P5 demo_junk) (mSvHealth SystemStatus_new) =
      [status_item_new (7, 0) (demo_health\<lparr>mGpsBadMask := 0xDEAD\<rparr>)]"
    by (simp add: put_report_cases push_bounded_def maxItem_def SystemStatus_new_def demo_junk_def)
  then show ?thesis
    using short_sentence_reports_junk [OF facts(1-3) demo_short_def facts(4)] by simp
qed

end
