(* ===== verification/Unordered_Set_Map.thy ===== *)
theory Unordered_Set_Map
  imports Std_Map
begin

text \<open>
  \<open>gps/utils/LocUnorderedSetMap.h\<close>: a map from keys to sets of values, in which no key has an
  empty set. An \<open>unordered_set\<close> is a set together with an order in which loops go through it;
  the order is an argument of the operations, and the results below hold for every order. The
  only loop over the entries of the \<open>unordered_map\<close> collects the keys, so it is kept as a
  \<open>std_map\<close>.

  Two loops go on through an iterator whose node they have just freed. \<open>intact\<close> says whether the
  freed node still holds its contents; without it such a step is \<open>None\<close>.
\<close>

section \<open>Iteration\<close>

type_synonym 'a order = "'a set \<Rightarrow> 'a list"

definition order_ok :: "'a order \<Rightarrow> bool" where
  "order_ok ord \<longleftrightarrow> (\<forall>S. finite S \<longrightarrow> set (ord S) = S \<and> distinct (ord S))"

lemma order_okD:
  assumes "order_ok ord" "finite S"
  shows "set (ord S) = S" "distinct (ord S)"
  using assms by (simp_all add: order_ok_def)

lemma order_ok_sorted: "order_ok (sorted_list_of_set :: 'a::linorder set \<Rightarrow> 'a list)"
  by (simp add: order_ok_def)

section \<open>Sets\<close>

text \<open>A pointer to a set that may be null is an option.\<close>

fun trimSet_loop :: "'a list \<Rightarrow> 'a set \<Rightarrow> 'a set option \<Rightarrow> 'a set \<times> 'a set option" where
  "trimSet_loop [] fromSet goneVals = (fromSet, goneVals)"
| "trimSet_loop (val # vals) fromSet goneVals =
     (if val \<in> fromSet
      then trimSet_loop vals (fromSet - {val})
             (case goneVals of None \<Rightarrow> None | Some g \<Rightarrow> Some (insert val g))
      else trimSet_loop vals fromSet goneVals)"

definition trimSet :: "'a order \<Rightarrow> 'a set \<Rightarrow> 'a set \<Rightarrow> 'a set option \<Rightarrow> 'a set \<times> 'a set option" where
  "trimSet ord fromSet rVals goneVals = trimSet_loop (ord rVals) fromSet goneVals"

fun interset_loop :: "bool \<Rightarrow> 'a list \<Rightarrow> 'a set \<Rightarrow> 'a set \<Rightarrow> 'a set \<Rightarrow> ('a set \<times> 'a set \<times> 'a set) option" where
  "interset_loop intact [] s1 s2 common = Some (common, s1, s2)"
| "interset_loop intact (b # bs) s1 s2 common =
     (if b \<in> s1
      then (if intact then interset_loop intact bs (s1 - {b}) (s2 - {b}) (insert b common) else None)
      else interset_loop intact bs s1 s2 common)"

definition removeAndReturnInterset ::
  "bool \<Rightarrow> 'a order \<Rightarrow> 'a set \<Rightarrow> 'a set \<Rightarrow> ('a set \<times> 'a set \<times> 'a set) option" where
  "removeAndReturnInterset intact ord s1 s2 = interset_loop intact (ord s2) s1 s2 {}"

section \<open>The map\<close>

type_synonym ('k, 'v) set_map = "('k, 'v set) std_map"

definition sm_empty :: "('k, 'v) set_map \<Rightarrow> bool" where
  "sm_empty m \<longleftrightarrow> m = []"

definition getValSetPtr :: "'k \<Rightarrow> ('k, 'v) set_map \<Rightarrow> 'v set option" where
  "getValSetPtr k m = map_of m k"

definition getValSet :: "'k \<Rightarrow> ('k, 'v) set_map \<Rightarrow> 'v set" where
  "getValSet k m = (case map_of m k of Some vals \<Rightarrow> vals | None \<Rightarrow> {})"

definition getKeys :: "('k, 'v) set_map \<Rightarrow> 'k set" where
  "getKeys m = fst ` set m"

definition sm_remove :: "'k::linorder \<Rightarrow> ('k, 'v) set_map \<Rightarrow> bool \<times> ('k, 'v) set_map" where
  "sm_remove k m = (map_has k m, map_erase k m)"

definition trimOrRemove_entry ::
  "'v order \<Rightarrow> 'k::linorder \<Rightarrow> 'v set \<Rightarrow> 'v set \<Rightarrow> 'v set option \<Rightarrow> ('k, 'v) set_map \<Rightarrow>
   bool \<times> 'v set option \<times> ('k, 'v) set_map" where
  "trimOrRemove_entry ord k vals rVals goneVals m =
     (let (vals, goneVals) = trimSet ord vals rVals goneVals;
          removeEntry = (vals = {})
      in (removeEntry, goneVals, if removeEntry then map_erase k m else map_put k vals m))"

fun trimOrRemove_loop ::
  "bool \<Rightarrow> 'v order \<Rightarrow> 'k::linorder list \<Rightarrow> 'v set \<Rightarrow> 'k set option \<Rightarrow> 'v set option \<Rightarrow> ('k, 'v) set_map \<Rightarrow>
   ('k set option \<times> 'v set option \<times> ('k, 'v) set_map) option" where
  "trimOrRemove_loop intact ord [] rVals goneKeys goneVals m = Some (goneKeys, goneVals, m)"
| "trimOrRemove_loop intact ord (k # ks) rVals goneKeys goneVals m =
     (case map_of m k of
        None \<Rightarrow> trimOrRemove_loop intact ord ks rVals goneKeys goneVals m
      | Some vals \<Rightarrow>
          (let (removed, goneVals, m) = trimOrRemove_entry ord k vals rVals goneVals m
           in case goneKeys of
                Some keys \<Rightarrow>
                  (if removed
                   then if intact
                        then trimOrRemove_loop intact ord ks rVals (Some (insert k keys)) goneVals m
                        else None
                   else trimOrRemove_loop intact ord ks rVals goneKeys goneVals m)
              | None \<Rightarrow> trimOrRemove_loop intact ord ks rVals goneKeys goneVals m))"

definition trimOrRemove ::
  "bool \<Rightarrow> 'k order \<Rightarrow> 'v order \<Rightarrow> 'k::linorder set \<Rightarrow> 'v set \<Rightarrow> 'k set option \<Rightarrow> 'v set option \<Rightarrow>
   ('k, 'v) set_map \<Rightarrow> ('k set option \<times> 'v set option \<times> ('k, 'v) set_map) option" where
  "trimOrRemove intact kord vord keys rVals goneKeys goneVals m =
     trimOrRemove_loop intact vord (kord keys) rVals goneKeys goneVals m"

definition sm_add :: "'k::linorder \<Rightarrow> 'v set \<Rightarrow> ('k, 'v) set_map \<Rightarrow> bool \<times> ('k, 'v) set_map" where
  "sm_add k newVals m =
     (if newVals \<noteq> {}
      then (case map_of m k of
              Some vals \<Rightarrow> (False, map_put k (vals \<union> newVals) m)
            | None \<Rightarrow> (True, map_put k newVals m))
      else (False, m))"

fun sm_add_loop ::
  "'k::linorder list \<Rightarrow> 'v set \<Rightarrow> 'k set option \<Rightarrow> ('k, 'v) set_map \<Rightarrow> 'k set option \<times> ('k, 'v) set_map" where
  "sm_add_loop [] newVals newKeys m = (newKeys, m)"
| "sm_add_loop (k # ks) newVals newKeys m =
     (let (new, m) = sm_add k newVals m
      in sm_add_loop ks newVals (if new then map_option (insert k) newKeys else newKeys) m)"

definition sm_add_keys ::
  "'k order \<Rightarrow> 'k::linorder set \<Rightarrow> 'v set \<Rightarrow> 'k set option \<Rightarrow> ('k, 'v) set_map \<Rightarrow>
   'k set option \<times> ('k, 'v) set_map" where
  "sm_add_keys ord keys newVals newKeys m = sm_add_loop (ord keys) newVals newKeys m"

text \<open>
  \<open>update\<close> returns the values it calls gone, what is left of \<open>newVals\<close>, and the map.
\<close>

definition sm_update ::
  "bool \<Rightarrow> 'v order \<Rightarrow> 'k::linorder \<Rightarrow> 'v set \<Rightarrow> ('k, 'v) set_map \<Rightarrow>
   ('v set \<times> 'v set \<times> ('k, 'v) set_map) option" where
  "sm_update intact ord k newVals m =
     (if newVals = {} then Some ({}, newVals, map_erase k m)
      else
        (let (curVals, m) = map_at {} k m
         in case removeAndReturnInterset intact ord curVals newVals of
              None \<Rightarrow> None
            | Some (goneVals, _, newVals') \<Rightarrow> Some (goneVals, newVals', map_put k newVals m)))"

section \<open>The loops compute sets\<close>

lemma trimSet_loop_eq:
  "trimSet_loop vals S g = (S - set vals, map_option (\<lambda>g. g \<union> (S \<inter> set vals)) g)"
proof (induction vals arbitrary: S g)
  case (Cons v vals)
  have "insert v (g' \<union> ((S - {v}) \<inter> set vals)) = g' \<union> (S \<inter> insert v (set vals))" if "v \<in> S" for g'
    using that by auto
  then show ?case by (auto simp: Cons.IH split: option.splits)
qed (simp add: option.map_ident)

lemma trimSet_eq:
  "order_ok ord \<Longrightarrow> finite R \<Longrightarrow>
   trimSet ord S R g = (S - R, map_option (\<lambda>g. g \<union> (S \<inter> R)) g)"
  by (simp add: trimSet_def trimSet_loop_eq order_okD)

lemma interset_loop_eq:
  assumes "distinct bs" "intact \<or> s1 \<inter> set bs = {}"
  shows "interset_loop intact bs s1 s2 common =
         Some (common \<union> (s1 \<inter> set bs), s1 - set bs, s2 - (s1 \<inter> set bs))"
  using assms
proof (induction bs arbitrary: s1 s2 common)
  case (Cons b bs)
  show ?case
  proof (cases "b \<in> s1")
    case True
    then have "intact" "(s1 - {b}) \<inter> set bs = s1 \<inter> set bs" using Cons.prems by auto
    with True Cons show ?thesis by (auto simp: Un_commute)
  next
    case False
    with Cons show ?thesis by auto
  qed
qed simp

lemma interset_loop_None:
  assumes "s1 \<inter> set bs \<noteq> {}"
  shows "interset_loop False bs s1 s2 common = None"
  using assms by (induction bs arbitrary: s2 common) (simp_all add: Int_insert_right split: if_splits)

lemma interset_eq:
  assumes "order_ok ord" "finite s2"
  shows "removeAndReturnInterset intact ord s1 s2 =
         (if intact \<or> s1 \<inter> s2 = {} then Some (s1 \<inter> s2, s1 - s2, s2 - s1) else None)"
proof -
  have [simp]: "s2 - s1 \<inter> s2 = s2 - s1" by auto
  show ?thesis
    using assms interset_loop_eq[of "ord s2" intact s1 s2 "{}"] interset_loop_None[of s1 "ord s2" s2 "{}"]
    by (auto simp: removeAndReturnInterset_def order_okD)
qed

section \<open>The map as a partial function to sets\<close>

definition sm_ok :: "('k::linorder, 'v) set_map \<Rightarrow> bool" where
  "sm_ok m \<longleftrightarrow> std_map_ok m \<and> (\<forall>k V. map_of m k = Some V \<longrightarrow> V \<noteq> {} \<and> finite V)"

text \<open>What trimming the entries of some keys leaves, and the keys whose entries it removes.\<close>

definition trimmed :: "'k set \<Rightarrow> 'v set \<Rightarrow> ('k \<rightharpoonup> 'v set) \<Rightarrow> ('k \<rightharpoonup> 'v set)" where
  "trimmed K R f k =
     (case f k of
        None \<Rightarrow> None
      | Some V \<Rightarrow> if k \<in> K then (if V \<subseteq> R then None else Some (V - R)) else Some V)"

definition gone_keys :: "'k set \<Rightarrow> 'v set \<Rightarrow> ('k \<rightharpoonup> 'v set) \<Rightarrow> 'k set" where
  "gone_keys K R f = {k \<in> K. \<exists>V. f k = Some V \<and> V \<subseteq> R}"

definition gone_vals :: "'k set \<Rightarrow> 'v set \<Rightarrow> ('k \<rightharpoonup> 'v set) \<Rightarrow> 'v set" where
  "gone_vals K R f = {v \<in> R. \<exists>k \<in> K. \<exists>V. f k = Some V \<and> v \<in> V}"

lemma trim_entry:
  assumes "order_ok ord" "finite R" "std_map_ok m" "map_of m k = Some V"
  shows "\<exists>m'. trimOrRemove_entry ord k V R g m =
           (V \<subseteq> R, map_option (\<lambda>g. g \<union> (V \<inter> R)) g, m') \<and>
         std_map_ok m' \<and> map_of m' = trimmed {k} R (map_of m)"
proof -
  let ?m = "if V \<subseteq> R then map_erase k m else map_put k (V - R) m"
  have "trimOrRemove_entry ord k V R g m = (V \<subseteq> R, map_option (\<lambda>g. g \<union> (V \<inter> R)) g, ?m)"
    using assms by (simp add: trimOrRemove_entry_def trimSet_eq Let_def)
  moreover have "std_map_ok ?m" using assms by simp
  moreover have "map_of ?m = trimmed {k} R (map_of m)"
    using assms by (auto simp: trimmed_def fun_eq_iff split: option.splits)
  ultimately show ?thesis by blast
qed

lemma trimmed_insert:
  assumes "k \<notin> K"
  shows "trimmed (insert k K) R f = trimmed K R (trimmed {k} R f)"
    and "gone_keys (insert k K) R f = gone_keys {k} R f \<union> gone_keys K R (trimmed {k} R f)"
    and "gone_vals (insert k K) R f = gone_vals {k} R f \<union> gone_vals K R (trimmed {k} R f)"
proof -
  have eq: "trimmed {k} R f k' = f k'" if "k' \<in> K" for k'
    using assms that by (auto simp: trimmed_def split: option.splits)
  show "gone_keys (insert k K) R f = gone_keys {k} R f \<union> gone_keys K R (trimmed {k} R f)"
    using eq by (auto simp: gone_keys_def)
  show "gone_vals (insert k K) R f = gone_vals {k} R f \<union> gone_vals K R (trimmed {k} R f)"
    using eq by (auto simp: gone_vals_def)
  show "trimmed (insert k K) R f = trimmed K R (trimmed {k} R f)"
    using assms by (auto simp: trimmed_def fun_eq_iff split: option.splits)
qed

lemma trimmed_absent:
  "f k = None \<Longrightarrow> trimmed {k} R f = f \<and> gone_keys {k} R f = {} \<and> gone_vals {k} R f = {}"
  by (auto simp: trimmed_def gone_keys_def gone_vals_def fun_eq_iff split: option.splits)

lemma trimmed_empty [simp]: "trimmed {} R f = f" "gone_keys {} R f = {}" "gone_vals {} R f = {}"
  by (auto simp: trimmed_def gone_keys_def gone_vals_def fun_eq_iff split: option.splits)

lemma trim_loop:
  assumes "order_ok ord" "finite R" "std_map_ok m" "distinct ks"
    and "intact \<or> gk = None \<or> gone_keys (set ks) R (map_of m) = {}"
  shows "\<exists>m'. trimOrRemove_loop intact ord ks R gk gv m =
           Some (map_option (\<lambda>g. g \<union> gone_keys (set ks) R (map_of m)) gk,
                 map_option (\<lambda>g. g \<union> gone_vals (set ks) R (map_of m)) gv, m') \<and>
         std_map_ok m' \<and> map_of m' = trimmed (set ks) R (map_of m)"
  using assms(3-)
proof (induction ks arbitrary: m gk gv)
  case Nil
  then show ?case by (simp add: option.map_ident)
next
  case (Cons k ks)
  have k: "k \<notin> set ks" using Cons.prems by simp
  note ins = trimmed_insert[OF k, of R "map_of m"]
  show ?case
  proof (cases "map_of m k")
    case None
    then show ?thesis
      using Cons.IH[of m gk gv] Cons.prems ins by (simp add: trimmed_absent)
  next
    case (Some V)
    obtain m1 where m1: "trimOrRemove_entry ord k V R gv m =
          (V \<subseteq> R, map_option (\<lambda>g. g \<union> (V \<inter> R)) gv, m1)"
        "std_map_ok m1" "map_of m1 = trimmed {k} R (map_of m)"
      using trim_entry[OF assms(1,2) Cons.prems(1) Some] by blast
    have gone: "gone_keys {k} R (map_of m) = (if V \<subseteq> R then {k} else {})"
        "gone_vals {k} R (map_of m) = V \<inter> R"
      using Some by (auto simp: gone_keys_def gone_vals_def)
    let ?gk = "map_option (\<lambda>g. if V \<subseteq> R then insert k g else g) gk"
    have "intact \<or> ?gk = None \<or> gone_keys (set ks) R (map_of m1) = {}"
      using Cons.prems(3) ins(2) m1(3) by auto
    from Cons.IH[OF m1(2) _ this, of "map_option (\<lambda>g. g \<union> (V \<inter> R)) gv"] Cons.prems
    obtain m' where m': "trimOrRemove_loop intact ord ks R ?gk (map_option (\<lambda>g. g \<union> (V \<inter> R)) gv) m1 =
          Some (map_option (\<lambda>g. g \<union> gone_keys (set ks) R (map_of m1)) ?gk,
                map_option (\<lambda>g. g \<union> gone_vals (set ks) R (map_of m1)) (map_option (\<lambda>g. g \<union> (V \<inter> R)) gv), m')"
        "std_map_ok m'" "map_of m' = trimmed (set ks) R (map_of m1)"
      by auto
    have "trimOrRemove_loop intact ord (k # ks) R gk gv m =
        trimOrRemove_loop intact ord ks R ?gk (map_option (\<lambda>g. g \<union> (V \<inter> R)) gv) m1"
    proof (cases gk)
      case None
      with Some m1(1) show ?thesis by simp
    next
      case (Some g)
      then have "intact \<or> \<not> V \<subseteq> R"
        using Cons.prems(3) ins(2) gone(1) by (auto split: if_splits)
      with Some \<open>map_of m k = Some V\<close> m1(1) show ?thesis by auto
    qed
    with m' m1(3) ins gone show ?thesis
      by (cases gk; cases gv) (auto simp: Un_assoc)
  qed
qed

lemma trim_loop_None:
  assumes "order_ok ord" "finite R" "std_map_ok m" "distinct ks"
    and "gone_keys (set ks) R (map_of m) \<noteq> {}"
  shows "trimOrRemove_loop False ord ks R (Some g) gv m = None"
  using assms(3-)
proof (induction ks arbitrary: m g gv)
  case (Cons k ks)
  have k: "k \<notin> set ks" using Cons.prems by simp
  note ins = trimmed_insert[OF k, of R "map_of m"]
  show ?case
  proof (cases "map_of m k")
    case None
    with Cons ins show ?thesis by (simp add: trimmed_absent)
  next
    case (Some V)
    obtain m1 where m1: "trimOrRemove_entry ord k V R gv m =
          (V \<subseteq> R, map_option (\<lambda>g. g \<union> (V \<inter> R)) gv, m1)"
        "std_map_ok m1" "map_of m1 = trimmed {k} R (map_of m)"
      using trim_entry[OF assms(1,2) Cons.prems(1) Some] by blast
    have "gone_keys {k} R (map_of m) = (if V \<subseteq> R then {k} else {})"
      using Some by (auto simp: gone_keys_def)
    with Cons ins m1 Some show ?thesis by auto
  qed
qed simp

lemma trim_eq:
  assumes "order_ok kord" "order_ok vord" "finite K" "finite R" "std_map_ok m"
    and "intact \<or> gk = None \<or> gone_keys K R (map_of m) = {}"
  shows "\<exists>m'. trimOrRemove intact kord vord K R gk gv m =
           Some (map_option (\<lambda>g. g \<union> gone_keys K R (map_of m)) gk,
                 map_option (\<lambda>g. g \<union> gone_vals K R (map_of m)) gv, m') \<and>
         std_map_ok m' \<and> map_of m' = trimmed K R (map_of m)"
  using trim_loop[of vord R m "kord K" intact gk gv] assms
  by (simp add: trimOrRemove_def order_okD)

lemma trim_None:
  assumes "order_ok kord" "order_ok vord" "finite K" "finite R" "std_map_ok m"
    and "gone_keys K R (map_of m) \<noteq> {}"
  shows "trimOrRemove False kord vord K R (Some g) gv m = None"
  using trim_loop_None[of vord R m "kord K" g gv] assms
  by (simp add: trimOrRemove_def order_okD)

definition added :: "'k set \<Rightarrow> 'v set \<Rightarrow> ('k \<rightharpoonup> 'v set) \<Rightarrow> ('k \<rightharpoonup> 'v set)" where
  "added K N f k =
     (if k \<in> K \<and> N \<noteq> {} then Some (case f k of None \<Rightarrow> N | Some V \<Rightarrow> V \<union> N) else f k)"

definition new_keys :: "'k set \<Rightarrow> 'v set \<Rightarrow> ('k \<rightharpoonup> 'v set) \<Rightarrow> 'k set" where
  "new_keys K N f = (if N = {} then {} else {k \<in> K. f k = None})"

lemma add_entry:
  assumes "std_map_ok m"
  shows "\<exists>m'. sm_add k N m = (N \<noteq> {} \<and> map_of m k = None, m') \<and>
         std_map_ok m' \<and> map_of m' = added {k} N (map_of m)"
  using assms by (auto simp: sm_add_def added_def fun_eq_iff split: option.splits)

lemma sm_add_loop_eq:
  assumes "std_map_ok m" "distinct ks"
  shows "\<exists>m'. sm_add_loop ks N nk m = (map_option (\<lambda>g. g \<union> new_keys (set ks) N (map_of m)) nk, m') \<and>
         std_map_ok m' \<and> map_of m' = added (set ks) N (map_of m)"
  using assms
proof (induction ks arbitrary: m nk)
  case Nil
  then show ?case by (auto simp: added_def new_keys_def fun_eq_iff option.map_ident)
next
  case (Cons k ks)
  obtain m1 where m1: "sm_add k N m = (N \<noteq> {} \<and> map_of m k = None, m1)" "std_map_ok m1"
      "map_of m1 = added {k} N (map_of m)"
    using add_entry[OF Cons.prems(1)] by blast
  let ?nk = "if N \<noteq> {} \<and> map_of m k = None then map_option (insert k) nk else nk"
  from Cons.IH[OF m1(2), of ?nk] Cons.prems
  obtain m' where m': "sm_add_loop ks N ?nk m1 = (map_option (\<lambda>g. g \<union> new_keys (set ks) N (map_of m1)) ?nk, m')"
      "std_map_ok m'" "map_of m' = added (set ks) N (map_of m1)"
    by auto
  have "added (set ks) N (map_of m1) = added (set (k # ks)) N (map_of m)"
    using Cons.prems m1(3) by (auto simp: added_def fun_eq_iff)
  moreover have "new_keys (set ks) N (map_of m1) = new_keys (set ks) N (map_of m)"
    using Cons.prems m1(3) by (auto simp: added_def new_keys_def)
  moreover have "sm_add_loop (k # ks) N nk m = sm_add_loop ks N ?nk m1"
    using m1(1) by simp
  moreover have "map_option (\<lambda>g. g \<union> new_keys (set ks) N (map_of m)) ?nk =
      map_option (\<lambda>g. g \<union> new_keys (set (k # ks)) N (map_of m)) nk"
    by (cases nk) (auto simp: new_keys_def)
  ultimately show ?case using m' by auto
qed

lemma add_eq:
  assumes "order_ok kord" "finite K" "std_map_ok m"
  shows "\<exists>m'. sm_add_keys kord K N nk m = (map_option (\<lambda>g. g \<union> new_keys K N (map_of m)) nk, m') \<and>
         std_map_ok m' \<and> map_of m' = added K N (map_of m)"
  using sm_add_loop_eq[of m "kord K" N nk] assms by (simp add: sm_add_keys_def order_okD)

end
