(* ===== verification/Os_Observer.thy ===== *)
theory Os_Observer
  imports Unordered_Set_Map System_Status
begin

text \<open>
  \<open>gps/core/SystemStatusOsObserver.cpp\<close>: the broker between the framework, which reports data
  items, and the clients of the GPS stack that subscribe to them. A client's call only queues a
  message; the thread of the message task processes the messages one by one. Two maps hold who
  subscribes to what, one by client and one by data item.

  Observers and the framework's objects are pointers. The calls to them are logged in
  \<open>os_calls\<close>. \<open>None\<close> is a step through a freed iterator (see \<open>Unordered_Set_Map\<close>).
\<close>

section \<open>State\<close>

datatype os_call =
    Subscribe ptr "DataItemId set"
  | RequestData ptr "DataItemId set"
  | Unsubscribe ptr "DataItemId set"
  | NotifyClient ptr "data_item list"
  | TurnOn ptr DataItemId int
  | TurnOff ptr DataItemId
  | ConnectBackhaul ptr
  | DisconnectBackhaul ptr

text \<open>The object a turn-on message acts on: the framework's, or the observer itself.\<close>

datatype action_req = Framework ptr | Observer

datatype os_msg =
    SetSubsObj ptr
  | HandleSubscribeReq "DataItemId set" ptr bool
  | HandleUpdateSubscriptionReq "DataItemId set" ptr
  | HandleUnsubscribeReq "DataItemId set" ptr
  | HandleUnsubscribeAllReq ptr
  | HandleNotify "data_item option list"
  | HandleTurnOnMsg action_req DataItemId int
  | HandleTurnOffMsg ptr DataItemId
  | HandleConnectBackhaul ptr
  | HandleDisconnectBackhaul ptr

record os_observer =
  mSubscriptionObj :: ptr
  mFrameworkActionReqObj :: ptr
  mClientToDataItems :: "(ptr, DataItemId) set_map"
  mDataItemToClients :: "(DataItemId, ptr) set_map"
  mDataItemCache :: "DataItemId \<Rightarrow> data_item option"
  mActiveRequestCount :: "DataItemId \<Rightarrow> int option"
  mBackHaulConnectReqCount :: int
  mSystemStatus :: SystemStatusReports
  os_msgs :: "os_msg list"
  os_calls :: "os_call list"

definition observer_new :: os_observer where
  "observer_new =
     \<lparr>mSubscriptionObj = NULL, mFrameworkActionReqObj = NULL, mClientToDataItems = [],
      mDataItemToClients = [], mDataItemCache = (\<lambda>_. None), mActiveRequestCount = (\<lambda>_. None),
      mBackHaulConnectReqCount = 0, mSystemStatus = SystemStatus_new, os_msgs = [], os_calls = []\<rparr>"

text \<open>
  What the observer does not control: the library of data items, the orders in which the sets of
  items and of clients are gone through, and whether a freed node keeps its contents.
\<close>

record os_env =
  items :: item_lib
  item_order :: "DataItemId order"
  client_order :: "ptr order"
  intact :: bool

definition os_call :: "os_call \<Rightarrow> os_observer \<Rightarrow> os_observer" where
  "os_call c st = st\<lparr>os_calls := os_calls st @ [c]\<rparr>"

definition os_send :: "os_msg \<Rightarrow> os_observer \<Rightarrow> os_observer" where
  "os_send m st = st\<lparr>os_msgs := os_msgs st @ [m]\<rparr>"

section \<open>Cached items\<close>

fun cached_items :: "(DataItemId \<Rightarrow> data_item option) \<Rightarrow> DataItemId list \<Rightarrow> data_item list \<Rightarrow> data_item list" where
  "cached_items cache [] acc = acc"
| "cached_items cache (i # is) acc =
     cached_items cache is (case cache i of None \<Rightarrow> acc | Some d \<Rightarrow> d # acc)"

definition sendCachedDataItems :: "os_env \<Rightarrow> DataItemId set \<Rightarrow> ptr \<Rightarrow> os_observer \<Rightarrow> os_observer" where
  "sendCachedDataItems env s to st =
     (if to = NULL then st
      else
        (let dataItems = cached_items (mDataItemCache st) (item_order env s) []
         in if dataItems = [] then st else os_call (NotifyClient to dataItems) st))"

definition updateCache :: "os_env \<Rightarrow> timespec \<Rightarrow> data_item option \<Rightarrow> os_observer \<Rightarrow> bool \<times> os_observer" where
  "updateCache env now d st =
     (case d of
        None \<Rightarrow> (False, st)
      | Some d \<Rightarrow>
          (let (known, d, status) = eventDataItemNotify (items env) now d (mSystemStatus st);
               st = st\<lparr>mSystemStatus := status\<rparr>
           in if \<not> known then (False, st)
              else
                (case mDataItemCache st (getId d) of
                   None \<Rightarrow>
                     (case createNewDataItem (items env) (getId d) of
                        None \<Rightarrow> (False, st)
                      | Some dataitem \<Rightarrow>
                          (True, st\<lparr>mDataItemCache := (mDataItemCache st)
                             (getId d \<mapsto> fst (di_copy (items env) dataitem d))\<rparr>))
                 | Some dataitem \<Rightarrow>
                     (let (dataitem, updated) = di_copy (items env) dataitem d
                      in (updated, st\<lparr>mDataItemCache := (mDataItemCache st)(getId d \<mapsto> dataitem)\<rparr>)))))"

section \<open>Messages\<close>

definition setSubscriptionObj_proc :: "ptr \<Rightarrow> os_observer \<Rightarrow> os_observer" where
  "setSubscriptionObj_proc subsObj st =
     (let st = st\<lparr>mSubscriptionObj := subsObj\<rparr>
      in if \<not> sm_empty (mDataItemToClients st)
         then (let dis = getKeys (mDataItemToClients st)
               in os_call (RequestData subsObj dis) (os_call (Subscribe subsObj dis) st))
         else st)"

definition subscribe_proc :: "os_env \<Rightarrow> DataItemId set \<Rightarrow> ptr \<Rightarrow> bool \<Rightarrow> os_observer \<Rightarrow> os_observer" where
  "subscribe_proc env dataItemSet client toRequestData st =
     (let (added, d2c) = sm_add_keys (item_order env) dataItemSet {client} (Some {}) (mDataItemToClients st);
          dataItemsToSubscribe = the added;
          (_, c2d) = sm_add client dataItemSet (mClientToDataItems st);
          st = sendCachedDataItems env dataItemSet client
                 (st\<lparr>mDataItemToClients := d2c, mClientToDataItems := c2d\<rparr>)
      in if mSubscriptionObj st \<noteq> NULL \<and> dataItemsToSubscribe \<noteq> {}
         then os_call (if toRequestData then RequestData (mSubscriptionObj st) dataItemsToSubscribe
                       else Subscribe (mSubscriptionObj st) dataItemsToSubscribe) st
         else st)"

definition updateSubscription_proc ::
  "os_env \<Rightarrow> DataItemId set \<Rightarrow> ptr \<Rightarrow> os_observer \<Rightarrow> os_observer option" where
  "updateSubscription_proc env dataItemSet client st =
     (case sm_update (intact env) (item_order env) client dataItemSet (mClientToDataItems st) of
        None \<Rightarrow> None
      | Some (gone, dataItemSet, c2d) \<Rightarrow>
          (case trimOrRemove (intact env) (item_order env) (client_order env) gone {client} (Some {}) None
                  (mDataItemToClients st) of
             None \<Rightarrow> None
           | Some (removed, _, d2c) \<Rightarrow>
               (let dataItemsToUnsubscribe = the removed;
                    (added, d2c) = sm_add_keys (item_order env) dataItemSet {client} (Some {}) d2c;
                    dataItemsToSubscribe = the added;
                    st = sendCachedDataItems env dataItemSet client
                           (st\<lparr>mDataItemToClients := d2c, mClientToDataItems := c2d\<rparr>);
                    subs = mSubscriptionObj st;
                    st = (if subs \<noteq> NULL \<and> dataItemsToSubscribe \<noteq> {}
                          then os_call (Subscribe subs dataItemsToSubscribe) st else st)
                in Some (if subs \<noteq> NULL \<and> dataItemsToUnsubscribe \<noteq> {}
                         then os_call (Unsubscribe subs dataItemsToUnsubscribe) st else st))))"

definition unsubscribe_rest ::
  "os_env \<Rightarrow> DataItemId set \<Rightarrow> ptr \<Rightarrow> os_observer \<Rightarrow> os_observer option" where
  "unsubscribe_rest env unused client st =
     (case trimOrRemove (intact env) (item_order env) (client_order env) unused {client} (Some {}) None
             (mDataItemToClients st) of
        None \<Rightarrow> None
      | Some (removed, _, d2c) \<Rightarrow>
          (let dataItemsToUnsubscribe = the removed;
               st = st\<lparr>mDataItemToClients := d2c\<rparr>
           in Some (if mSubscriptionObj st \<noteq> NULL \<and> dataItemsToUnsubscribe \<noteq> {}
                    then os_call (Unsubscribe (mSubscriptionObj st) dataItemsToUnsubscribe) st else st)))"

definition unsubscribe_proc ::
  "os_env \<Rightarrow> DataItemId set \<Rightarrow> ptr \<Rightarrow> os_observer \<Rightarrow> os_observer option" where
  "unsubscribe_proc env dataItemSet client st =
     (case trimOrRemove (intact env) (client_order env) (item_order env) {client} dataItemSet (Some {}) (Some {})
             (mClientToDataItems st) of
        None \<Rightarrow> None
      | Some (_, unused, c2d) \<Rightarrow>
          unsubscribe_rest env (the unused) client (st\<lparr>mClientToDataItems := c2d\<rparr>))"

definition unsubscribeAll_proc :: "os_env \<Rightarrow> ptr \<Rightarrow> os_observer \<Rightarrow> os_observer option" where
  "unsubscribeAll_proc env client st =
     (let diByClient = getValSet client (mClientToDataItems st)
      in if diByClient \<noteq> {}
         then unsubscribe_rest env diByClient client
                (st\<lparr>mClientToDataItems := snd (sm_remove client (mClientToDataItems st))\<rparr>)
         else Some st)"

fun update_loop ::
  "os_env \<Rightarrow> timespec \<Rightarrow> data_item option list \<Rightarrow> DataItemId set \<Rightarrow> os_observer \<Rightarrow> DataItemId set \<times> os_observer" where
  "update_loop env now [] ids st = (ids, st)"
| "update_loop env now (d # ds) ids st =
     (let (updated, st) = updateCache env now d st
      in update_loop env now ds (if updated then insert (getId (the d)) ids else ids) st)"

fun clients_loop :: "(DataItemId, ptr) set_map \<Rightarrow> DataItemId list \<Rightarrow> ptr set \<Rightarrow> ptr set" where
  "clients_loop m [] cs = cs"
| "clients_loop m (i # is) cs =
     clients_loop m is (case getValSetPtr i m of None \<Rightarrow> cs | Some clients \<Rightarrow> cs \<union> clients)"

fun notify_clients :: "os_env \<Rightarrow> DataItemId set \<Rightarrow> ptr list \<Rightarrow> os_observer \<Rightarrow> os_observer" where
  "notify_clients env ids [] st = st"
| "notify_clients env ids (c # cs) st =
     notify_clients env ids cs
       (sendCachedDataItems env (Set.filter (\<lambda>i. i \<in> ids) (getValSet c (mClientToDataItems st))) c st)"

definition notify_proc :: "os_env \<Rightarrow> timespec \<Rightarrow> data_item option list \<Rightarrow> os_observer \<Rightarrow> os_observer" where
  "notify_proc env now diVec st =
     (let (ids, st) = update_loop env now diVec {} st;
          clientSet = clients_loop (mDataItemToClients st) (item_order env ids) {}
      in notify_clients env ids (client_order env clientSet) st)"

section \<open>Requests to the framework\<close>

definition turnOn :: "DataItemId \<Rightarrow> int \<Rightarrow> os_observer \<Rightarrow> os_observer" where
  "turnOn dit timeOut st =
     (if mFrameworkActionReqObj st = NULL then st
      else
        (case mActiveRequestCount st dit of
           None \<Rightarrow>
             os_send (HandleTurnOnMsg Observer dit timeOut)
               (st\<lparr>mActiveRequestCount := (mActiveRequestCount st)(dit \<mapsto> 1)\<rparr>)
         | Some n \<Rightarrow> st\<lparr>mActiveRequestCount := (mActiveRequestCount st)(dit \<mapsto> n + 1)\<rparr>))"

definition turnOff :: "DataItemId \<Rightarrow> os_observer \<Rightarrow> os_observer" where
  "turnOff dit st =
     (if mFrameworkActionReqObj st = NULL then st
      else
        (case mActiveRequestCount st dit of
           None \<Rightarrow> st
         | Some n \<Rightarrow>
             if n - 1 = 0
             then os_send (HandleTurnOffMsg (mFrameworkActionReqObj st) dit)
                    (st\<lparr>mActiveRequestCount := (mActiveRequestCount st)(dit := None)\<rparr>)
             else st\<lparr>mActiveRequestCount := (mActiveRequestCount st)(dit \<mapsto> n - 1)\<rparr>))"

definition turnOn_proc :: "action_req \<Rightarrow> DataItemId \<Rightarrow> int \<Rightarrow> os_observer \<Rightarrow> os_observer" where
  "turnOn_proc target dit timeOut st =
     (case target of
        Framework p \<Rightarrow> os_call (TurnOn p dit timeOut) st
      | Observer \<Rightarrow> turnOn dit timeOut st)"

definition connectBackhaul :: "os_observer \<Rightarrow> bool \<times> os_observer" where
  "connectBackhaul st =
     (if mFrameworkActionReqObj st \<noteq> NULL
      then (True, os_send (HandleConnectBackhaul (mFrameworkActionReqObj st)) st)
      else (False, st\<lparr>mBackHaulConnectReqCount := mBackHaulConnectReqCount st + 1\<rparr>))"

definition disconnectBackhaul :: "os_observer \<Rightarrow> bool \<times> os_observer" where
  "disconnectBackhaul st =
     (if mFrameworkActionReqObj st \<noteq> NULL
      then (False, os_send (HandleDisconnectBackhaul (mFrameworkActionReqObj st)) st)
      else (False, if mBackHaulConnectReqCount st > 0
                   then st\<lparr>mBackHaulConnectReqCount := mBackHaulConnectReqCount st - 1\<rparr> else st))"

definition setFrameworkActionReqObj :: "ptr \<Rightarrow> os_observer \<Rightarrow> os_observer" where
  "setFrameworkActionReqObj obj st =
     (let st = st\<lparr>mFrameworkActionReqObj := obj\<rparr>
      in if mBackHaulConnectReqCount st > 0
         then (snd (connectBackhaul st))\<lparr>mBackHaulConnectReqCount := 0\<rparr> else st)"

section \<open>Calls of clients and of the framework\<close>

definition setSubscriptionObj :: "ptr \<Rightarrow> os_observer \<Rightarrow> os_observer" where
  "setSubscriptionObj subsObj st = (if subsObj = NULL then st else os_send (SetSubsObj subsObj) st)"

definition subscribe :: "DataItemId list \<Rightarrow> ptr \<Rightarrow> bool \<Rightarrow> os_observer \<Rightarrow> os_observer" where
  "subscribe l client toRequestData st =
     (if l = [] \<or> client = NULL then st
      else os_send (HandleSubscribeReq (set l) client toRequestData) st)"

definition updateSubscription :: "DataItemId list \<Rightarrow> ptr \<Rightarrow> os_observer \<Rightarrow> os_observer" where
  "updateSubscription l client st =
     (if l = [] \<or> client = NULL then st else os_send (HandleUpdateSubscriptionReq (set l) client) st)"

definition unsubscribe :: "DataItemId list \<Rightarrow> ptr \<Rightarrow> os_observer \<Rightarrow> os_observer" where
  "unsubscribe l client st =
     (if l = [] \<or> client = NULL then st else os_send (HandleUnsubscribeReq (set l) client) st)"

definition unsubscribeAll :: "ptr \<Rightarrow> os_observer \<Rightarrow> os_observer" where
  "unsubscribeAll client st =
     (if client = NULL then st else os_send (HandleUnsubscribeAllReq client) st)"

text \<open>The vector starts with as many null pointers as the list has items.\<close>

definition notify :: "os_env \<Rightarrow> data_item list \<Rightarrow> os_observer \<Rightarrow> os_observer" where
  "notify env dlist st =
     (if dlist = [] then st
      else
        (let copies = List.map_filter (\<lambda>each.
               map_option (\<lambda>di. Some (fst (di_copy (items env) di each)))
                 (createNewDataItem (items env) (getId each))) dlist;
             dataItemVec = replicate (length dlist) None @ copies
         in os_send (HandleNotify dataItemVec) st))"

definition eventConnectionStatus :: "os_env \<Rightarrow> bool \<Rightarrow> 8 word \<Rightarrow> os_observer \<Rightarrow> os_observer" where
  "eventConnectionStatus env connected type st =
     notify env [NetworkInfoDataItem (NetworkInfo_new (scast type) [] [] connected False)] st"

section \<open>Runs\<close>

datatype os_event =
    EvSetSubscriptionObj ptr
  | EvSubscribe "DataItemId list" ptr bool
  | EvUpdateSubscription "DataItemId list" ptr
  | EvUnsubscribe "DataItemId list" ptr
  | EvUnsubscribeAll ptr
  | EvNotify "data_item list"
  | EvConnectionStatus bool "8 word"
  | EvTurnOn DataItemId int
  | EvTurnOff DataItemId
  | EvConnectBackhaul
  | EvDisconnectBackhaul
  | EvSetFrameworkActionReqObj ptr
  | EvProcess timespec

fun os_proc :: "os_env \<Rightarrow> timespec \<Rightarrow> os_msg \<Rightarrow> os_observer \<Rightarrow> os_observer option" where
  "os_proc env now (SetSubsObj p) st = Some (setSubscriptionObj_proc p st)"
| "os_proc env now (HandleSubscribeReq s c b) st = Some (subscribe_proc env s c b st)"
| "os_proc env now (HandleUpdateSubscriptionReq s c) st = updateSubscription_proc env s c st"
| "os_proc env now (HandleUnsubscribeReq s c) st = unsubscribe_proc env s c st"
| "os_proc env now (HandleUnsubscribeAllReq c) st = unsubscribeAll_proc env c st"
| "os_proc env now (HandleNotify v) st = Some (notify_proc env now v st)"
| "os_proc env now (HandleTurnOnMsg t d n) st = Some (turnOn_proc t d n st)"
| "os_proc env now (HandleTurnOffMsg p d) st = Some (os_call (TurnOff p d) st)"
| "os_proc env now (HandleConnectBackhaul p) st = Some (os_call (ConnectBackhaul p) st)"
| "os_proc env now (HandleDisconnectBackhaul p) st = Some (os_call (DisconnectBackhaul p) st)"

fun os_step :: "os_env \<Rightarrow> os_event \<Rightarrow> os_observer \<Rightarrow> os_observer option" where
  "os_step env (EvSetSubscriptionObj p) st = Some (setSubscriptionObj p st)"
| "os_step env (EvSubscribe l c b) st = Some (subscribe l c b st)"
| "os_step env (EvUpdateSubscription l c) st = Some (updateSubscription l c st)"
| "os_step env (EvUnsubscribe l c) st = Some (unsubscribe l c st)"
| "os_step env (EvUnsubscribeAll c) st = Some (unsubscribeAll c st)"
| "os_step env (EvNotify ds) st = Some (notify env ds st)"
| "os_step env (EvConnectionStatus b t) st = Some (eventConnectionStatus env b t st)"
| "os_step env (EvTurnOn d n) st = Some (turnOn d n st)"
| "os_step env (EvTurnOff d) st = Some (turnOff d st)"
| "os_step env EvConnectBackhaul st = Some (snd (connectBackhaul st))"
| "os_step env EvDisconnectBackhaul st = Some (snd (disconnectBackhaul st))"
| "os_step env (EvSetFrameworkActionReqObj p) st = Some (setFrameworkActionReqObj p st)"
| "os_step env (EvProcess now) st =
     (case os_msgs st of
        [] \<Rightarrow> Some st
      | m # ms \<Rightarrow> os_proc env now m (st\<lparr>os_msgs := ms\<rparr>))"

fun os_run :: "os_env \<Rightarrow> os_event list \<Rightarrow> os_observer \<Rightarrow> os_observer option" where
  "os_run env [] st = Some st"
| "os_run env (e # es) st =
     (case os_step env e st of None \<Rightarrow> None | Some st' \<Rightarrow> os_run env es st')"

end
