(* ===== verification/Os_Observer_Proofs.thy ===== *)
theory Os_Observer_Proofs
  imports Os_Observer System_Status_Proofs
begin

text \<open>
  What holds of the broker of data items: its two tables mirror each other and the framework is
  asked for exactly what some client wants, as long as nobody updates a subscription; what an
  update does instead; who is notified of what; and that a request to turn something on never
  reaches the framework.
\<close>

section \<open>Tables of sets\<close>

text \<open>
  The contract of a table from keys to sets of values, whose operations are relations, since they
  depend on orders of iteration.
\<close>

locale set_table =
  fixes rel :: "'t \<Rightarrow> 'k \<Rightarrow> 'v set"
    and ok :: "'t \<Rightarrow> bool"
    and add :: "'k set \<Rightarrow> 'v set \<Rightarrow> 't \<Rightarrow> 't \<Rightarrow> bool"
    and trim :: "'k set \<Rightarrow> 'v set \<Rightarrow> 't \<Rightarrow> 't \<Rightarrow> bool"
  assumes add_law: "ok t \<Longrightarrow> finite K \<Longrightarrow> finite N \<Longrightarrow> add K N t t' \<Longrightarrow>
      ok t' \<and> rel t' = (\<lambda>k. if k \<in> K then rel t k \<union> N else rel t k)"
    and trim_law: "ok t \<Longrightarrow> finite K \<Longrightarrow> finite R \<Longrightarrow> trim K R t t' \<Longrightarrow>
      ok t' \<and> rel t' = (\<lambda>k. if k \<in> K then rel t k - R else rel t k)"
    and rel_finite: "ok t \<Longrightarrow> finite (rel t k)"

text \<open>Two tables, one by client and one by item, that say the same.\<close>

locale subscription_tables =
  by_client: set_table crel cok cadd ctrim + by_item: set_table drel dok dadd dtrim
  for crel :: "'t \<Rightarrow> 'c \<Rightarrow> 'd set" and cok cadd ctrim
    and drel :: "'u \<Rightarrow> 'd \<Rightarrow> 'c set" and dok dadd dtrim
begin

lemma mirror_add:
  assumes "\<forall>c d. d \<in> crel t c \<longleftrightarrow> c \<in> drel u d" "cok t" "dok u" "finite S"
    and "cadd {c0} S t t'" "dadd S {c0} u u'"
  shows "cok t' \<and> dok u' \<and> (\<forall>c d. d \<in> crel t' c \<longleftrightarrow> c \<in> drel u' d) \<and>
         crel t' = (\<lambda>c. if c = c0 then crel t c \<union> S else crel t c)"
  using assms by_client.add_law[of t "{c0}" S t'] by_item.add_law[of u S "{c0}" u']
  by auto

lemma mirror_trim:
  assumes "\<forall>c d. d \<in> crel t c \<longleftrightarrow> c \<in> drel u d" "cok t" "dok u" "finite S"
    and "ctrim {c0} S t t'" "dtrim (crel t c0 \<inter> S) {c0} u u'"
  shows "cok t' \<and> dok u' \<and> (\<forall>c d. d \<in> crel t' c \<longleftrightarrow> c \<in> drel u' d) \<and>
         crel t' = (\<lambda>c. if c = c0 then crel t c - S else crel t c)"
  using assms by_client.trim_law[of t "{c0}" S t'] by_client.rel_finite[of t c0]
    by_item.trim_law[of u "crel t c0 \<inter> S" "{c0}" u']
  by auto

end

text \<open>The contract holds of \<open>LocUnorderedSetMap\<close>.\<close>

definition vals :: "('k, 'v) set_map \<Rightarrow> 'k \<Rightarrow> 'v set" where
  "vals m k = getValSet k m"

definition sm_adds :: "'k::linorder set \<Rightarrow> 'v set \<Rightarrow> ('k, 'v) set_map \<Rightarrow> ('k, 'v) set_map \<Rightarrow> bool" where
  "sm_adds K N m m' \<longleftrightarrow>
     (\<exists>ord nk. order_ok ord \<and> m' = snd (sm_add_keys ord K N nk m)) \<or>
     (\<exists>k. K = {k} \<and> m' = snd (sm_add k N m))"

definition sm_trims :: "'k::linorder set \<Rightarrow> 'v set \<Rightarrow> ('k, 'v) set_map \<Rightarrow> ('k, 'v) set_map \<Rightarrow> bool" where
  "sm_trims K R m m' \<longleftrightarrow>
     (\<exists>kord vord gk gv gk' gv'. order_ok kord \<and> order_ok vord \<and>
        trimOrRemove True kord vord K R gk gv m = Some (gk', gv', m')) \<or>
     (\<exists>k. K = {k} \<and> vals m k \<subseteq> R \<and> m' = snd (sm_remove k m))"

lemma vals_added:
  "map_of m' = added K N (map_of m) \<Longrightarrow> vals m' = (\<lambda>k. if k \<in> K then vals m k \<union> N else vals m k)"
  by (auto simp: vals_def getValSet_def added_def fun_eq_iff split: option.splits)

lemma vals_trimmed:
  "map_of m' = trimmed K R (map_of m) \<Longrightarrow> vals m' = (\<lambda>k. if k \<in> K then vals m k - R else vals m k)"
  by (auto simp: vals_def getValSet_def trimmed_def fun_eq_iff split: option.splits if_splits)

lemma sm_ok_added:
  "sm_ok m \<Longrightarrow> finite N \<Longrightarrow> map_of m' = added K N (map_of m) \<Longrightarrow> std_map_ok m' \<Longrightarrow> sm_ok m'"
  by (auto simp: sm_ok_def added_def split: option.splits if_splits)

lemma sm_ok_trimmed:
  "sm_ok m \<Longrightarrow> map_of m' = trimmed K R (map_of m) \<Longrightarrow> std_map_ok m' \<Longrightarrow> sm_ok m'"
  by (auto simp: sm_ok_def trimmed_def split: option.splits if_splits)

lemma sm_adds_law:
  assumes "sm_ok m" "finite K" "finite N" "sm_adds K N m m'"
  shows "sm_ok m' \<and> vals m' = (\<lambda>k. if k \<in> K then vals m k \<union> N else vals m k)"
proof -
  have ok: "std_map_ok m" using assms(1) by (simp add: sm_ok_def)
  have "std_map_ok m' \<and> map_of m' = added K N (map_of m)"
    using assms(4) add_eq[OF _ assms(2) ok, where N = N] add_entry[OF ok, where N = N]
    unfolding sm_adds_def by (metis snd_conv)
  then show ?thesis
    using sm_ok_added[OF assms(1,3)] by (auto dest: vals_added)
qed

lemma sm_trims_law:
  assumes "sm_ok m" "finite K" "finite R" "sm_trims K R m m'"
  shows "sm_ok m' \<and> vals m' = (\<lambda>k. if k \<in> K then vals m k - R else vals m k)"
  using assms(4) unfolding sm_trims_def
proof
  have ok: "std_map_ok m" using assms(1) by (simp add: sm_ok_def)
  assume "\<exists>kord vord gk gv gk' gv'. order_ok kord \<and> order_ok vord \<and>
        trimOrRemove True kord vord K R gk gv m = Some (gk', gv', m')"
  then obtain kord vord gk gv gk' gv' where "order_ok kord" "order_ok vord"
      "trimOrRemove True kord vord K R gk gv m = Some (gk', gv', m')"
    by blast
  then have "std_map_ok m' \<and> map_of m' = trimmed K R (map_of m)"
    using trim_eq[of kord vord K R m True gk gv] assms(2,3) ok by auto
  then show ?thesis
    using sm_ok_trimmed[OF assms(1)] by (auto dest: vals_trimmed)
next
  assume "\<exists>k. K = {k} \<and> vals m k \<subseteq> R \<and> m' = snd (sm_remove k m)"
  then obtain k where k: "K = {k}" "vals m k \<subseteq> R" "m' = map_erase k m"
    by (auto simp: sm_remove_def)
  have "sm_ok (map_erase k m)" using assms(1) by (simp add: sm_ok_def)
  moreover have "vals (map_erase k m) = (vals m)(k := {})"
    by (simp add: vals_def getValSet_def fun_eq_iff)
  ultimately show ?thesis using k by (auto simp: fun_eq_iff)
qed

lemma vals_finite: "sm_ok m \<Longrightarrow> finite (vals m k)"
  by (auto simp: sm_ok_def vals_def getValSet_def split: option.splits)

interpretation subs: subscription_tables
  "vals :: (ptr, DataItemId) set_map \<Rightarrow> ptr \<Rightarrow> DataItemId set" sm_ok sm_adds sm_trims
  "vals :: (DataItemId, ptr) set_map \<Rightarrow> DataItemId \<Rightarrow> ptr set" sm_ok sm_adds sm_trims
  by unfold_locales (auto dest: sm_adds_law sm_trims_law vals_finite)

section \<open>What the framework is asked for\<close>

text \<open>The items that the calls to a subscription object leave subscribed.\<close>

fun fw_step :: "ptr \<Rightarrow> DataItemId set \<Rightarrow> os_call \<Rightarrow> DataItemId set" where
  "fw_step p D (Subscribe q S) = (if q = p then D \<union> S else D)"
| "fw_step p D (RequestData q S) = (if q = p then D \<union> S else D)"
| "fw_step p D (Unsubscribe q S) = (if q = p then D - S else D)"
| "fw_step p D _ = D"

definition fw_items :: "ptr \<Rightarrow> os_call list \<Rightarrow> DataItemId set" where
  "fw_items p cs = foldl (fw_step p) {} cs"

lemma fw_items_simps [simp]:
  "fw_items p [] = {}"
  "fw_items p (cs @ [c]) = fw_step p (fw_items p cs) c"
  "fw_items p (cs @ [c, c']) = fw_step p (fw_step p (fw_items p cs) c) c'"
  by (simp_all add: fw_items_def)

lemma os_call_simps [simp]:
  "mSubscriptionObj (os_call c st) = mSubscriptionObj st"
  "mClientToDataItems (os_call c st) = mClientToDataItems st"
  "mDataItemToClients (os_call c st) = mDataItemToClients st"
  "mDataItemCache (os_call c st) = mDataItemCache st"
  "os_msgs (os_call c st) = os_msgs st"
  "os_calls (os_call c st) = os_calls st @ [c]"
  by (simp_all add: os_call_def)

definition env_ok :: "os_env \<Rightarrow> bool" where
  "env_ok env \<longleftrightarrow> order_ok (item_order env) \<and> order_ok (client_order env) \<and> intact env"

definition mirror :: "(ptr, DataItemId) set_map \<Rightarrow> (DataItemId, ptr) set_map \<Rightarrow> bool" where
  "mirror t u \<longleftrightarrow> sm_ok t \<and> sm_ok u \<and> (\<forall>c d. d \<in> vals t c \<longleftrightarrow> c \<in> vals u d)"

definition mirrored :: "os_observer \<Rightarrow> bool" where
  "mirrored st \<longleftrightarrow> mirror (mClientToDataItems st) (mDataItemToClients st)"

lemma mirror_ok:
  "mirror t u \<Longrightarrow> sm_ok t" "mirror t u \<Longrightarrow> sm_ok u"
  "mirror t u \<Longrightarrow> std_map_ok t" "mirror t u \<Longrightarrow> std_map_ok u"
  by (simp_all add: mirror_def sm_ok_def)

lemma mirror_adds:
  assumes "mirror t u" "finite S" "sm_adds {c} S t t'" "sm_adds S {c} u u'"
  shows "mirror t' u'" "vals t' = (\<lambda>c'. if c' = c then vals t c' \<union> S else vals t c')"
  using subs.mirror_add[OF _ _ _ assms(2-4)] assms(1) unfolding mirror_def by blast+

lemma mirror_trims:
  assumes "mirror t u" "finite S" "sm_trims {c} S t t'" "sm_trims (vals t c \<inter> S) {c} u u'"
  shows "mirror t' u'" "vals t' = (\<lambda>c'. if c' = c then vals t c' - S else vals t c')"
  using subs.mirror_trim[OF _ _ _ assms(2-4)] assms(1) unfolding mirror_def by blast+

definition asked :: "ptr \<Rightarrow> os_observer \<Rightarrow> bool" where
  "asked p st \<longleftrightarrow>
     (mSubscriptionObj st = NULL \<and> fw_items p (os_calls st) = {}) \<or>
     (p \<noteq> NULL \<and> mSubscriptionObj st = p \<and> fw_items p (os_calls st) = dom (map_of (mDataItemToClients st)))"

definition msg_ok :: "ptr \<Rightarrow> os_msg \<Rightarrow> bool" where
  "msg_ok p m \<longleftrightarrow>
     (case m of
        SetSubsObj q \<Rightarrow> q = p \<and> q \<noteq> NULL
      | HandleSubscribeReq S c _ \<Rightarrow> finite S \<and> c \<noteq> NULL
      | HandleUpdateSubscriptionReq S c \<Rightarrow> False
      | HandleUnsubscribeReq S c \<Rightarrow> finite S
      | _ \<Rightarrow> True)"

text \<open>Steps that leave the tables and the subscriptions alone.\<close>

definition same_tables :: "os_observer \<Rightarrow> os_observer \<Rightarrow> bool" where
  "same_tables st st' \<longleftrightarrow>
     mSubscriptionObj st' = mSubscriptionObj st \<and>
     mClientToDataItems st' = mClientToDataItems st \<and>
     mDataItemToClients st' = mDataItemToClients st \<and>
     (\<forall>p. fw_items p (os_calls st') = fw_items p (os_calls st))"

definition new_msgs :: "ptr \<Rightarrow> os_observer \<Rightarrow> os_observer \<Rightarrow> bool" where
  "new_msgs p st st' \<longleftrightarrow> (\<forall>m \<in> set (os_msgs st'). m \<in> set (os_msgs st) \<or> msg_ok p m)"

lemma same_tables_trans: "same_tables a b \<Longrightarrow> same_tables b c \<Longrightarrow> same_tables a c"
  by (simp add: same_tables_def)

lemma same_tables_keeps: "same_tables st st' \<Longrightarrow> mirrored st' = mirrored st \<and> asked p st' = asked p st"
  by (simp add: same_tables_def mirrored_def asked_def)

lemma send_cached_frame:
  "same_tables st (sendCachedDataItems env S c st) \<and>
   os_msgs (sendCachedDataItems env S c st) = os_msgs st \<and>
   mDataItemCache (sendCachedDataItems env S c st) = mDataItemCache st"
  by (simp add: sendCachedDataItems_def same_tables_def Let_def)

lemma send_cached_simps [simp]:
  "mSubscriptionObj (sendCachedDataItems env S c st) = mSubscriptionObj st"
  "mClientToDataItems (sendCachedDataItems env S c st) = mClientToDataItems st"
  "mDataItemToClients (sendCachedDataItems env S c st) = mDataItemToClients st"
  "mDataItemCache (sendCachedDataItems env S c st) = mDataItemCache st"
  "os_msgs (sendCachedDataItems env S c st) = os_msgs st"
  "fw_items p (os_calls (sendCachedDataItems env S c st)) = fw_items p (os_calls st)"
  using send_cached_frame[of st env S c] by (simp_all add: same_tables_def)

lemma notify_clients_frame:
  "same_tables st (notify_clients env ids cs st) \<and> os_msgs (notify_clients env ids cs st) = os_msgs st"
  by (induction env ids cs st rule: notify_clients.induct) (auto simp: same_tables_def)

lemma update_cache_frame:
  "same_tables st (snd (updateCache env now d st)) \<and>
   os_msgs (snd (updateCache env now d st)) = os_msgs st \<and>
   os_calls (snd (updateCache env now d st)) = os_calls st"
  by (auto simp: updateCache_def same_tables_def Let_def split: option.splits prod.splits)

lemma update_loop_frame:
  "same_tables st (snd (update_loop env now ds ids st)) \<and>
   os_msgs (snd (update_loop env now ds ids st)) = os_msgs st \<and>
   os_calls (snd (update_loop env now ds ids st)) = os_calls st"
proof (induction ds arbitrary: ids st)
  case (Cons d ds)
  obtain b st1 where st1: "updateCache env now d st = (b, st1)" by (cases "updateCache env now d st")
  show ?case
    using Cons[of st1 "if b then insert (getId (the d)) ids else ids"] update_cache_frame[of st env now d]
    by (auto simp: st1 same_tables_def)
qed (simp add: same_tables_def)

lemma notify_proc_frame:
  "same_tables st (notify_proc env now v st) \<and> os_msgs (notify_proc env now v st) = os_msgs st"
proof -
  obtain ids st1 where st1: "update_loop env now v {} st = (ids, st1)"
    by (cases "update_loop env now v {} st")
  show ?thesis
    using update_loop_frame[of st env now v "{}"]
      notify_clients_frame[of st1 env ids]
    by (auto simp: notify_proc_def st1 Let_def intro: same_tables_trans)
qed

section \<open>The handlers\<close>

lemma dom_added: "dom (added K {c} f) = dom f \<union> new_keys K {c} f"
  by (auto simp: added_def new_keys_def dom_def split: option.splits)

lemma dom_trimmed: "dom (trimmed K R f) = dom f - gone_keys K R f"
  by (auto simp: trimmed_def gone_keys_def dom_def split: option.splits if_splits)

lemma subscribe_proc_ok:
  assumes "env_ok env" "mirrored st" "asked p st" "finite S"
  shows "mirrored (subscribe_proc env S c b st) \<and> asked p (subscribe_proc env S c b st) \<and>
         os_msgs (subscribe_proc env S c b st) = os_msgs st \<and>
         vals (mClientToDataItems (subscribe_proc env S c b st)) =
           (\<lambda>c'. if c' = c then vals (mClientToDataItems st) c' \<union> S else vals (mClientToDataItems st) c')"
proof -
  have ok: "order_ok (item_order env)" "sm_ok (mClientToDataItems st)" "sm_ok (mDataItemToClients st)"
      "std_map_ok (mClientToDataItems st)" "std_map_ok (mDataItemToClients st)"
    using assms(1,2) by (auto simp: env_ok_def mirrored_def mirror_ok)
  let ?f = "map_of (mDataItemToClients st)"
  obtain d2c where d2c: "sm_add_keys (item_order env) S {c} (Some {}) (mDataItemToClients st) =
        (Some (new_keys S {c} ?f), d2c)" "map_of d2c = added S {c} ?f"
    using add_eq[OF ok(1) assms(4) ok(5), of "{c}" "Some {}"] by auto
  obtain n c2d where c2d: "sm_add c S (mClientToDataItems st) = (n, c2d)" by force
  have "sm_adds S {c} (mDataItemToClients st) d2c"
    unfolding sm_adds_def using ok(1) d2c(1) by (metis snd_conv)
  moreover have "sm_adds {c} S (mClientToDataItems st) c2d"
    unfolding sm_adds_def using c2d by (metis snd_conv)
  ultimately have tables: "mirror c2d d2c"
      "vals c2d = (\<lambda>c'. if c' = c then vals (mClientToDataItems st) c' \<union> S else vals (mClientToDataItems st) c')"
    using mirror_adds[of "mClientToDataItems st" "mDataItemToClients st" S c c2d d2c] assms(2,4)
    by (simp_all add: mirrored_def)
  have "dom (map_of d2c) = dom ?f \<union> new_keys S {c} ?f" by (simp add: d2c(2) dom_added)
  with tables(1) d2c(1) c2d assms(3)
  have "mirrored (subscribe_proc env S c b st) \<and> asked p (subscribe_proc env S c b st) \<and>
      os_msgs (subscribe_proc env S c b st) = os_msgs st \<and>
      mClientToDataItems (subscribe_proc env S c b st) = c2d"
    by (auto simp: subscribe_proc_def mirrored_def asked_def Let_def)
  then show ?thesis by (simp only: tables(2) simp_thms)
qed

lemma unsubscribe_rest_ok:
  assumes "env_ok env" "asked p st" "std_map_ok (mDataItemToClients st)" "finite U"
  shows "\<exists>st'. unsubscribe_rest env U c st = Some st' \<and> asked p st' \<and> os_msgs st' = os_msgs st \<and>
           mClientToDataItems st' = mClientToDataItems st \<and>
           sm_trims U {c} (mDataItemToClients st) (mDataItemToClients st')"
proof -
  have ok: "order_ok (item_order env)" "order_ok (client_order env)" "intact env = True"
    using assms(1) by (simp_all add: env_ok_def)
  let ?f = "map_of (mDataItemToClients st)"
  obtain d2c where d2c: "trimOrRemove True (item_order env) (client_order env) U {c} (Some {}) None
          (mDataItemToClients st) = Some (Some (gone_keys U {c} ?f), None, d2c)"
      "map_of d2c = trimmed U {c} ?f"
    using trim_eq[OF ok(1,2) assms(4), of "{c}" "mDataItemToClients st" True "Some {}" None] assms(3) by auto
  have "sm_trims U {c} (mDataItemToClients st) d2c"
    unfolding sm_trims_def using ok(1,2) d2c(1) by blast
  moreover have "dom (map_of d2c) = dom ?f - gone_keys U {c} ?f" by (simp add: d2c(2) dom_trimmed)
  ultimately show ?thesis
    using d2c(1) assms(2) by (auto simp: unsubscribe_rest_def asked_def Let_def ok(3))
qed

lemma gone_vals_single: "gone_vals {c} S (map_of m) = vals m c \<inter> S"
  by (auto simp: gone_vals_def vals_def getValSet_def split: option.splits)

lemma unsubscribe_proc_ok:
  assumes "env_ok env" "mirrored st" "asked p st" "finite S"
  shows "\<exists>st'. unsubscribe_proc env S c st = Some st' \<and> mirrored st' \<and> asked p st' \<and>
           os_msgs st' = os_msgs st \<and> vals (mClientToDataItems st') =
             (\<lambda>c'. if c' = c then vals (mClientToDataItems st) c' - S else vals (mClientToDataItems st) c')"
proof -
  have ok: "order_ok (item_order env)" "order_ok (client_order env)" "intact env = True"
      "std_map_ok (mClientToDataItems st)" "std_map_ok (mDataItemToClients st)"
    using assms(1,2) by (auto simp: env_ok_def mirrored_def mirror_ok)
  obtain gk c2d where c2d: "trimOrRemove True (client_order env) (item_order env) {c} S (Some {}) (Some {})
        (mClientToDataItems st) = Some (gk, Some (vals (mClientToDataItems st) c \<inter> S), c2d)"
    using trim_eq[OF ok(2,1) _ assms(4) ok(4), of "{c}" True "Some {}" "Some {}"]
    by (auto simp: gone_vals_single)
  then have trims: "sm_trims {c} S (mClientToDataItems st) c2d"
    unfolding sm_trims_def using ok(1,2) by blast
  let ?st = "st\<lparr>mClientToDataItems := c2d\<rparr>"
  have "asked p ?st" "finite (vals (mClientToDataItems st) c \<inter> S)"
    using assms(3,4) by (simp_all add: asked_def)
  from unsubscribe_rest_ok[OF assms(1) this(1) _ this(2), of c] ok(5) obtain st' where
    st': "unsubscribe_rest env (vals (mClientToDataItems st) c \<inter> S) c ?st = Some st'" "asked p st'"
      "os_msgs st' = os_msgs st" "mClientToDataItems st' = c2d"
      "sm_trims (vals (mClientToDataItems st) c \<inter> S) {c} (mDataItemToClients st) (mDataItemToClients st')"
    by auto
  note tables = mirror_trims[OF assms(2)[unfolded mirrored_def] assms(4) trims st'(5)]
  have "unsubscribe_proc env S c st = Some st'"
    using c2d st'(1) by (simp add: unsubscribe_proc_def ok(3))
  then show ?thesis using st'(2-4) tables by (simp add: mirrored_def)
qed

lemma unsubscribeAll_proc_ok:
  assumes "env_ok env" "mirrored st" "asked p st"
  shows "\<exists>st'. unsubscribeAll_proc env c st = Some st' \<and> mirrored st' \<and> asked p st' \<and>
           os_msgs st' = os_msgs st \<and> vals (mClientToDataItems st') =
             (\<lambda>c'. if c' = c then {} else vals (mClientToDataItems st) c')"
proof (cases "getValSet c (mClientToDataItems st) = {}")
  case True
  with assms show ?thesis by (auto simp: unsubscribeAll_proc_def vals_def fun_eq_iff)
next
  case False
  let ?D = "vals (mClientToDataItems st) c"
  let ?c2d = "snd (sm_remove c (mClientToDataItems st))"
  let ?st = "st\<lparr>mClientToDataItems := ?c2d\<rparr>"
  have ok: "std_map_ok (mDataItemToClients st)" "finite ?D"
    using assms(2) by (auto simp: mirrored_def mirror_ok vals_finite)
  have "asked p ?st" using assms(3) by (simp add: asked_def)
  from unsubscribe_rest_ok[OF assms(1) this _ ok(2), of c] ok(1) obtain st' where
    st': "unsubscribe_rest env ?D c ?st = Some st'" "asked p st'" "os_msgs st' = os_msgs st"
      "mClientToDataItems st' = ?c2d" "sm_trims ?D {c} (mDataItemToClients st) (mDataItemToClients st')"
    by auto
  have "sm_trims {c} ?D (mClientToDataItems st) ?c2d" unfolding sm_trims_def by blast
  then have "mirror ?c2d (mDataItemToClients st')"
      "vals ?c2d = (\<lambda>c'. if c' = c then {} else vals (mClientToDataItems st) c')"
    using mirror_trims[OF assms(2)[unfolded mirrored_def] ok(2)] st'(5) by (auto simp: fun_eq_iff)
  moreover have "unsubscribeAll_proc env c st = Some st'"
    using st'(1) False by (simp add: unsubscribeAll_proc_def vals_def)
  ultimately show ?thesis using st'(2-4) by (simp add: mirrored_def)
qed

lemma setSubscriptionObj_proc_ok:
  assumes "mirrored st" "asked p st" "p \<noteq> NULL"
  shows "mirrored (setSubscriptionObj_proc p st) \<and> asked p (setSubscriptionObj_proc p st) \<and>
         os_msgs (setSubscriptionObj_proc p st) = os_msgs st"
proof -
  have "dom (map_of (mDataItemToClients st)) = getKeys (mDataItemToClients st)"
    by (simp add: getKeys_def dom_map_of_conv_image_fst)
  then show ?thesis
    using assms by (auto simp: setSubscriptionObj_proc_def mirrored_def asked_def sm_empty_def Let_def)
qed

lemma turn_frames:
  "same_tables st (turnOn d n st)" "new_msgs p st (turnOn d n st)"
  "same_tables st (turnOff d st)" "new_msgs p st (turnOff d st)"
  "same_tables st (turnOn_proc t d n st)" "new_msgs p st (turnOn_proc t d n st)"
  "same_tables st (snd (connectBackhaul st))" "new_msgs p st (snd (connectBackhaul st))"
  "same_tables st (snd (disconnectBackhaul st))" "new_msgs p st (snd (disconnectBackhaul st))"
  "same_tables st (setFrameworkActionReqObj q st)" "new_msgs p st (setFrameworkActionReqObj q st)"
  by (auto simp: turnOn_def turnOff_def turnOn_proc_def connectBackhaul_def disconnectBackhaul_def
      setFrameworkActionReqObj_def same_tables_def new_msgs_def os_send_def msg_ok_def Let_def
      split: option.splits action_req.splits)

section \<open>Runs\<close>

definition obs_inv :: "ptr \<Rightarrow> os_observer \<Rightarrow> bool" where
  "obs_inv p st \<longleftrightarrow> mirrored st \<and> asked p st \<and> vals (mClientToDataItems st) NULL = {} \<and>
     (\<forall>m \<in> set (os_msgs st). msg_ok p m)"

lemma obs_inv_frame:
  "obs_inv p st \<Longrightarrow> same_tables st st' \<Longrightarrow> new_msgs p st st' \<Longrightarrow> obs_inv p st'"
  using same_tables_keeps[of st st' p]
  by (auto simp: obs_inv_def new_msgs_def same_tables_def)

lemma obs_invI:
  assumes "obs_inv p st" "mirrored st'" "asked p st'" "os_msgs st' = os_msgs st"
    and "vals (mClientToDataItems st') NULL \<subseteq> vals (mClientToDataItems st) NULL"
  shows "obs_inv p st'"
  using assms by (auto simp: obs_inv_def)

lemma same_msgs_new [simp]: "os_msgs st' = os_msgs st \<Longrightarrow> new_msgs p st st'"
  by (simp add: new_msgs_def)

lemma other_call_frame:
  "same_tables st (os_call (TurnOff q d) st)" "same_tables st (os_call (ConnectBackhaul q) st)"
  "same_tables st (os_call (DisconnectBackhaul q) st)"
  by (simp_all add: same_tables_def)

lemma proc_obs_inv:
  assumes "env_ok env" "obs_inv p st" "msg_ok p m"
  shows "\<exists>st'. os_proc env now m st = Some st' \<and> obs_inv p st'"
proof -
  have inv: "mirrored st" "asked p st" using assms(2) by (auto simp: obs_inv_def)
  show ?thesis
  proof (cases m)
    case (SetSubsObj q)
    then show ?thesis
      using assms(3) setSubscriptionObj_proc_ok[OF inv] obs_invI[OF assms(2)]
      by (auto simp: msg_ok_def setSubscriptionObj_proc_def Let_def)
  next
    case (HandleSubscribeReq S c b)
    then show ?thesis
      using assms(3) subscribe_proc_ok[OF assms(1) inv, of S c b] obs_invI[OF assms(2)]
      by (auto simp: msg_ok_def)
  next
    case (HandleUnsubscribeReq S c)
    then obtain st' where "unsubscribe_proc env S c st = Some st'" "mirrored st'" "asked p st'"
        "os_msgs st' = os_msgs st" "vals (mClientToDataItems st') =
          (\<lambda>c'. if c' = c then vals (mClientToDataItems st) c' - S else vals (mClientToDataItems st) c')"
      using assms(3) unsubscribe_proc_ok[OF assms(1) inv, of S c] by (auto simp: msg_ok_def)
    then show ?thesis using HandleUnsubscribeReq obs_invI[OF assms(2)] by auto
  next
    case (HandleUnsubscribeAllReq c)
    then obtain st' where "unsubscribeAll_proc env c st = Some st'" "mirrored st'" "asked p st'"
        "os_msgs st' = os_msgs st" "vals (mClientToDataItems st') =
          (\<lambda>c'. if c' = c then {} else vals (mClientToDataItems st) c')"
      using unsubscribeAll_proc_ok[OF assms(1) inv, of c] by auto
    then show ?thesis using HandleUnsubscribeAllReq obs_invI[OF assms(2)] by auto
  next
    case (HandleNotify v)
    then show ?thesis
      using obs_inv_frame[OF assms(2)] notify_proc_frame[of st env now v] by simp
  qed (use assms turn_frames other_call_frame in
      \<open>auto simp: msg_ok_def intro: obs_inv_frame\<close>)
qed

definition ev_ok :: "ptr \<Rightarrow> os_event \<Rightarrow> bool" where
  "ev_ok p e \<longleftrightarrow>
     (case e of
        EvSetSubscriptionObj q \<Rightarrow> q = p \<or> q = NULL
      | EvUpdateSubscription _ _ \<Rightarrow> False
      | _ \<Rightarrow> True)"

lemma command_frames:
  "ev_ok p (EvSetSubscriptionObj q) \<Longrightarrow> same_tables st (setSubscriptionObj q st) \<and> new_msgs p st (setSubscriptionObj q st)"
  "same_tables st (subscribe l c b st) \<and> new_msgs p st (subscribe l c b st)"
  "same_tables st (unsubscribe l c st) \<and> new_msgs p st (unsubscribe l c st)"
  "same_tables st (unsubscribeAll c st) \<and> new_msgs p st (unsubscribeAll c st)"
  "same_tables st (notify env ds st) \<and> new_msgs p st (notify env ds st)"
  "same_tables st (eventConnectionStatus env k t st) \<and> new_msgs p st (eventConnectionStatus env k t st)"
  by (auto simp: setSubscriptionObj_def subscribe_def unsubscribe_def unsubscribeAll_def notify_def
      eventConnectionStatus_def same_tables_def new_msgs_def os_send_def msg_ok_def ev_ok_def Let_def)

lemma step_obs_inv:
  assumes "env_ok env" "obs_inv p st" "ev_ok p e"
  shows "\<exists>st'. os_step env e st = Some st' \<and> obs_inv p st'"
proof (cases e)
  case (EvProcess now)
  show ?thesis
  proof (cases "os_msgs st")
    case (Cons m ms)
    then have "obs_inv p (st\<lparr>os_msgs := ms\<rparr>)" "msg_ok p m"
      using assms(2) by (auto simp: obs_inv_def mirrored_def asked_def)
    then show ?thesis using proc_obs_inv[OF assms(1)] EvProcess Cons by auto
  qed (use assms EvProcess in simp)
qed (use assms obs_inv_frame command_frames turn_frames in \<open>auto simp: ev_ok_def\<close>)

lemma run_obs_inv:
  assumes "env_ok env" "obs_inv p st" "\<forall>e \<in> set es. ev_ok p e"
  shows "\<exists>st'. os_run env es st = Some st' \<and> obs_inv p st'"
  using assms(2,3)
proof (induction es arbitrary: st)
  case (Cons e es)
  then obtain st1 where "os_step env e st = Some st1" "obs_inv p st1"
    using step_obs_inv[OF assms(1)] by force
  then show ?case using Cons by auto
qed simp

lemma observer_new_inv: "obs_inv p observer_new"
  by (auto simp: obs_inv_def observer_new_def mirrored_def mirror_def asked_def sm_ok_def vals_def getValSet_def)

lemma mem_getValSet: "d \<in> getValSet c m \<longleftrightarrow> d \<in> vals m c"
  by (simp add: vals_def)


definition demo_env :: os_env where
  "demo_env = \<lparr>items = demo_lib, item_order = sorted_list_of_set, client_order = sorted_list_of_set,
     intact = True\<rparr>"

lemma demo_env_ok: "env_ok demo_env"
  by (simp add: env_ok_def demo_env_def order_ok_sorted)

definition demo_subscriptions :: "os_event list" where
  "demo_subscriptions =
     [EvSetSubscriptionObj 9, EvSubscribe [SCREEN_STATE_DATA_ITEM_ID, GPSSTATE_DATA_ITEM_ID] 5 True,
      EvProcess (0, 0), EvProcess (0, 0), EvSubscribe [GPSSTATE_DATA_ITEM_ID] 6 False,
      EvUnsubscribe [SCREEN_STATE_DATA_ITEM_ID] 5, EvProcess (1, 0), EvProcess (1, 0)]"

lemma demo_subscriptions_ok: "\<forall>e \<in> set demo_subscriptions. ev_ok 9 e"
  by (simp add: demo_subscriptions_def ev_ok_def)


section \<open>Notifications\<close>

definition cache_ok :: "os_observer \<Rightarrow> bool" where
  "cache_ok st \<longleftrightarrow> (\<forall>i d. mDataItemCache st i = Some d \<longrightarrow> getId d = i)"

lemma event_getId: "eventDataItemNotify lib now d c = (k, d', c') \<Longrightarrow> getId d' = getId d"
  by (auto simp: eventDataItemNotify_def Let_def split: option.splits prod.splits data_item.splits if_splits)

lemma update_cache_effect:
  assumes "item_lib_ok (items env)" "cache_ok st" "updateCache env now d st = (b, st')"
  shows "cache_ok st'" "b \<Longrightarrow> mDataItemCache st' (getId (the d)) \<noteq> None"
    "\<not> b \<or> i \<noteq> getId (the d) \<Longrightarrow> mDataItemCache st' i = mDataItemCache st i"
proof -
  have "cache_ok st' \<and> (b \<longrightarrow> mDataItemCache st' (getId (the d)) \<noteq> None) \<and>
      (\<not> b \<or> i \<noteq> getId (the d) \<longrightarrow> mDataItemCache st' i = mDataItemCache st i)"
  proof (cases d)
    case None
    then show ?thesis using assms by (auto simp: updateCache_def)
  next
    case (Some x)
    obtain k y ss where ev: "eventDataItemNotify (items env) now x (mSystemStatus st) = (k, y, ss)"
      using prod_cases3 by blast
    have id: "getId y = getId x" by (rule event_getId[OF ev])
    have copy: "di_copy (items env) c y = (y, c \<noteq> y)" if "getId c = getId x" for c
      using assms(1) that id by (simp add: item_lib_ok_def)
    have new: "getId c = getId x" if "createNewDataItem (items env) (getId x) = Some c" for c
      using assms(1) that by (simp add: item_lib_ok_def)
    have old: "getId c = getId x" if "mDataItemCache st (getId x) = Some c" for c
      using assms(2) that by (simp add: cache_ok_def)
    have step: "updateCache env now d st = (b, st')" "d = Some x" using assms(3) Some by auto
    note defs = updateCache_def ev cache_ok_def Let_def
    note split = option.splits if_splits
    show ?thesis
    proof (cases k)
      case False
      then show ?thesis using step assms(2) by (auto simp: defs id split: split)
    next
      case True
      show ?thesis
      proof (cases "mDataItemCache st (getId x)")
        case None
        show ?thesis
        proof (cases "createNewDataItem (items env) (getId x)")
          case (Some c)
          then show ?thesis using step assms(2) True None copy[OF new[OF Some]] by (auto simp: defs id split: split)
        qed (use step assms(2) True None in \<open>auto simp: defs id split: split\<close>)
      next
        case (Some c)
        then show ?thesis using step assms(2) True copy[OF old[OF Some]] by (auto simp: defs id split: split)
      qed
    qed
  qed
  then show "cache_ok st'" "b \<Longrightarrow> mDataItemCache st' (getId (the d)) \<noteq> None"
    "\<not> b \<or> i \<noteq> getId (the d) \<Longrightarrow> mDataItemCache st' i = mDataItemCache st i"
    by auto
qed

lemma update_loop_effect:
  assumes "item_lib_ok (items env)" "cache_ok st" "update_loop env now ds ids st = (ids', st')"
    and "finite ids" "\<forall>i \<in> ids. mDataItemCache st i \<noteq> None"
  shows "cache_ok st' \<and> finite ids' \<and> ids \<subseteq> ids' \<and> (\<forall>i \<in> ids'. mDataItemCache st' i \<noteq> None) \<and>
         (\<forall>i. i \<notin> ids' \<longrightarrow> mDataItemCache st' i = mDataItemCache st i)"
  using assms(2-)
proof (induction ds arbitrary: ids st)
  case (Cons d ds)
  obtain b st1 where st1: "updateCache env now d st = (b, st1)" by (cases "updateCache env now d st")
  note eff = update_cache_effect[OF assms(1) Cons.prems(1) st1]
  let ?ids = "if b then insert (getId (the d)) ids else ids"
  have cached: "\<forall>i \<in> ?ids. mDataItemCache st1 i \<noteq> None"
    using eff(2,3) Cons.prems(4) by (auto split: if_splits) (metis option.distinct(1))+
  have "update_loop env now ds ?ids st1 = (ids', st')" using Cons.prems(2) st1 by simp
  from Cons.IH[OF eff(1) this _ cached] Cons.prems(3)
  have IH: "cache_ok st' \<and> finite ids' \<and> ?ids \<subseteq> ids' \<and> (\<forall>i \<in> ids'. mDataItemCache st' i \<noteq> None) \<and>
      (\<forall>i. i \<notin> ids' \<longrightarrow> mDataItemCache st' i = mDataItemCache st1 i)"
    by auto
  have st1_eq: "mDataItemCache st1 i = mDataItemCache st i" if "i \<notin> ?ids" for i
    using that eff(3)[of i] by (auto split: if_splits)
  have sub: "?ids \<subseteq> ids'" "ids \<subseteq> ids'" using IH by auto
  have "mDataItemCache st' i = mDataItemCache st i" if "i \<notin> ids'" for i
  proof -
    have "i \<notin> ?ids" using sub(1) that by blast
    then have "mDataItemCache st1 i = mDataItemCache st i" by (rule st1_eq)
    then show ?thesis using IH that by simp
  qed
  with IH sub(2) show ?case by blast
qed auto

lemma cached_items_all:
  "\<forall>i \<in> set is. cache i \<noteq> None \<Longrightarrow> cached_items cache is acc = rev (map (\<lambda>i. the (cache i)) is) @ acc"
  by (induction "is" arbitrary: acc) (auto split: option.splits)

lemma clients_loop_eq: "clients_loop m is cs = cs \<union> (\<Union>i \<in> set is. vals m i)"
  by (induction "is" arbitrary: cs) (auto simp: vals_def getValSetPtr_def getValSet_def split: option.splits)

definition notification :: "os_env \<Rightarrow> DataItemId set \<Rightarrow> os_observer \<Rightarrow> ptr \<Rightarrow> os_call" where
  "notification env ids st c =
     NotifyClient c (rev (map (\<lambda>i. the (mDataItemCache st i))
       (item_order env (ids \<inter> getValSet c (mClientToDataItems st)))))"

lemma send_cached_one:
  assumes "order_ok (item_order env)" "finite ids" "\<forall>i \<in> ids. mDataItemCache st i \<noteq> None" "c \<noteq> NULL"
    and "ids \<inter> getValSet c (mClientToDataItems st) \<noteq> {}"
  shows "os_calls (sendCachedDataItems env (Set.filter (\<lambda>i. i \<in> ids) (getValSet c (mClientToDataItems st))) c st)
         = os_calls st @ [notification env ids st c]"
proof -
  let ?S = "ids \<inter> getValSet c (mClientToDataItems st)"
  have S: "{i \<in> getValSet c (mClientToDataItems st). i \<in> ids} = ?S" by auto
  have ord: "set (item_order env ?S) = ?S" using assms(1,2) by (simp add: order_okD)
  then have "item_order env ?S \<noteq> []" using assms(5) by force
  moreover have "cached_items (mDataItemCache st) (item_order env ?S) [] =
      rev (map (\<lambda>i. the (mDataItemCache st i)) (item_order env ?S))"
    using cached_items_all[of "item_order env ?S" "mDataItemCache st" "[]"] ord assms(3) by auto
  ultimately show ?thesis
    using assms(4) by (simp add: sendCachedDataItems_def S notification_def Let_def)
qed

lemma notify_clients_calls:
  assumes "order_ok (item_order env)" "finite ids" "\<forall>i \<in> ids. mDataItemCache st i \<noteq> None"
    and "\<forall>c \<in> set cs. c \<noteq> NULL \<and> ids \<inter> getValSet c (mClientToDataItems st) \<noteq> {}"
  shows "os_calls (notify_clients env ids cs st) = os_calls st @ map (notification env ids st) cs"
  using assms(3,4)
proof (induction cs arbitrary: st)
  case (Cons c cs)
  let ?S = "Set.filter (\<lambda>i. i \<in> ids) (getValSet c (mClientToDataItems st))"
  let ?st = "sendCachedDataItems env ?S c st"
  have one: "os_calls ?st = os_calls st @ [notification env ids st c]"
    using send_cached_one[OF assms(1,2) Cons.prems(1)] Cons.prems(2) by simp
  have "os_calls (notify_clients env ids cs ?st) = os_calls ?st @ map (notification env ids ?st) cs"
    by (rule Cons.IH) (use Cons.prems in auto)
  moreover have "notification env ids ?st = notification env ids st"
    by (simp add: notification_def fun_eq_iff)
  ultimately show ?case by (simp only: one notify_clients.simps append_assoc append.simps list.map)
qed simp

lemma notify_proc_exact:
  assumes "env_ok env" "item_lib_ok (items env)" "cache_ok st" "mirrored st"
    and "vals (mClientToDataItems st) NULL = {}" "update_loop env now v {} st = (ids, st1)"
  shows "os_calls (notify_proc env now v st) = os_calls st @ map (notification env ids st1)
           (client_order env {c. ids \<inter> getValSet c (mClientToDataItems st) \<noteq> {}})"
proof -
  let ?C = "{c. ids \<inter> getValSet c (mClientToDataItems st) \<noteq> {}}"
  have ord: "order_ok (item_order env)" "order_ok (client_order env)" using assms(1) by (simp_all add: env_ok_def)
  have ids: "finite ids" "\<forall>i \<in> ids. mDataItemCache st1 i \<noteq> None"
    using update_loop_effect[OF assms(2,3,6)] by simp_all
  have frame: "mClientToDataItems st1 = mClientToDataItems st" "mDataItemToClients st1 = mDataItemToClients st"
      "os_calls st1 = os_calls st"
    using update_loop_frame[of st env now v "{}"] assms(6) by (simp_all add: same_tables_def)
  have C: "clients_loop (mDataItemToClients st) (item_order env ids) {} = ?C"
    using assms(4) ids(1) by (auto simp: clients_loop_eq order_okD[OF ord(1)] mirrored_def mirror_def vals_def)
  have "?C = (\<Union>i \<in> ids. vals (mDataItemToClients st) i)"
    using assms(4) by (auto simp: mirrored_def mirror_def vals_def)
  then have "finite ?C"
    using ids(1) assms(4) by (simp add: mirrored_def mirror_def vals_finite)
  then have "set (client_order env ?C) = ?C" using ord(2) by (simp add: order_okD)
  moreover have "c \<noteq> NULL" if "c \<in> ?C" for c using that assms(5) by (auto simp: vals_def)
  ultimately have "os_calls (notify_clients env ids (client_order env ?C) st1) =
      os_calls st1 @ map (notification env ids st1) (client_order env ?C)"
    by (intro notify_clients_calls[OF ord(1) ids]) (auto simp: frame)
  then show ?thesis
    by (simp add: notify_proc_def assms(6) frame C Let_def)
qed

lemma notify_clients_cache [simp]:
  "mDataItemCache (notify_clients env ids cs st) = mDataItemCache st"
  by (induction env ids cs st rule: notify_clients.induct) auto

lemma notify_proc_cache:
  assumes "item_lib_ok (items env)" "cache_ok st"
  shows "cache_ok (notify_proc env now v st)"
proof -
  obtain ids st1 where st1: "update_loop env now v {} st = (ids, st1)" by fastforce
  have "cache_ok st1" using update_loop_effect[OF assms st1] by simp
  then show ?thesis by (simp add: notify_proc_def st1 cache_ok_def Let_def)
qed

lemma unsubscribe_rest_cache:
  "unsubscribe_rest env S c st = Some st' \<Longrightarrow> mDataItemCache st' = mDataItemCache st"
  by (auto simp: unsubscribe_rest_def Let_def split: option.splits if_splits)

lemma handler_cache:
  "mDataItemCache (setSubscriptionObj_proc q st) = mDataItemCache st"
  "mDataItemCache (subscribe_proc env S c b st) = mDataItemCache st"
  "mDataItemCache (turnOn_proc t d n st) = mDataItemCache st"
  "updateSubscription_proc env S c st = Some st' \<Longrightarrow> mDataItemCache st' = mDataItemCache st"
  "unsubscribe_proc env S c st = Some st' \<Longrightarrow> mDataItemCache st' = mDataItemCache st"
  "unsubscribeAll_proc env c st = Some st' \<Longrightarrow> mDataItemCache st' = mDataItemCache st"
  by (auto simp: setSubscriptionObj_proc_def subscribe_proc_def turnOn_proc_def turnOn_def os_send_def
      updateSubscription_proc_def unsubscribe_proc_def unsubscribeAll_proc_def Let_def
      split: option.splits prod.splits if_splits action_req.splits dest!: unsubscribe_rest_cache)

lemma command_cache:
  "mDataItemCache (setSubscriptionObj q st) = mDataItemCache st"
  "mDataItemCache (subscribe l c b st) = mDataItemCache st"
  "mDataItemCache (updateSubscription l c st) = mDataItemCache st"
  "mDataItemCache (unsubscribe l c st) = mDataItemCache st"
  "mDataItemCache (unsubscribeAll c st) = mDataItemCache st"
  "mDataItemCache (notify env ds st) = mDataItemCache st"
  "mDataItemCache (eventConnectionStatus env k t st) = mDataItemCache st"
  "mDataItemCache (turnOn d n st) = mDataItemCache st"
  "mDataItemCache (turnOff d st) = mDataItemCache st"
  "mDataItemCache (snd (connectBackhaul st)) = mDataItemCache st"
  "mDataItemCache (snd (disconnectBackhaul st)) = mDataItemCache st"
  "mDataItemCache (setFrameworkActionReqObj q st) = mDataItemCache st"
  by (auto simp: setSubscriptionObj_def subscribe_def updateSubscription_def unsubscribe_def
      unsubscribeAll_def notify_def eventConnectionStatus_def turnOn_def turnOff_def
      connectBackhaul_def disconnectBackhaul_def setFrameworkActionReqObj_def os_send_def Let_def
      split: option.splits)

lemma proc_cache:
  assumes "item_lib_ok (items env)" "cache_ok st" "os_proc env now m st = Some st'"
  shows "cache_ok st'"
proof (cases m)
  case (HandleNotify v)
  then show ?thesis using assms(3) notify_proc_cache[OF assms(1,2), of now v] by simp
qed (use assms in \<open>auto simp: cache_ok_def handler_cache dest!: handler_cache(4-6)\<close>)

lemma step_cache:
  assumes "item_lib_ok (items env)" "cache_ok st" "os_step env e st = Some st'"
  shows "cache_ok st'"
proof (cases e)
  case (EvProcess now)
  show ?thesis
  proof (cases "os_msgs st")
    case (Cons m ms)
    have "cache_ok (st\<lparr>os_msgs := ms\<rparr>)" using assms(2) by (simp add: cache_ok_def)
    then show ?thesis using proc_cache[OF assms(1)] assms(3) EvProcess Cons by auto
  qed (use assms EvProcess in auto)
qed (use assms in \<open>auto simp: cache_ok_def command_cache\<close>)

lemma run_cache:
  "item_lib_ok (items env) \<Longrightarrow> cache_ok st \<Longrightarrow> os_run env es st = Some st' \<Longrightarrow> cache_ok st'"
  by (induction es arbitrary: st) (auto split: option.splits dest: step_cache)


definition demo_interest :: "os_event list" where
  "demo_interest = [EvSubscribe [GPSSTATE_DATA_ITEM_ID] 5 True, EvProcess (0, 0)]"

lemma demo_interest_ok: "\<forall>e \<in> set demo_interest. ev_ok 9 e"
  by (simp add: demo_interest_def ev_ok_def)

lemma demo_lib_ok: "item_lib_ok (items demo_env)"
  by (auto simp: item_lib_ok_def demo_env_def demo_lib_def split: if_splits)

lemma demo_interest_run:
  "\<exists>st. os_run demo_env demo_interest observer_new = Some st \<and>
     mClientToDataItems st = [(5, {GPSSTATE_DATA_ITEM_ID})] \<and> mSystemStatus st = SystemStatus_new \<and>
     mDataItemCache st = (\<lambda>_. None)"
  by (simp add: demo_interest_def demo_env_def subscribe_def os_send_def subscribe_proc_def
      observer_new_def sm_add_keys_def sm_add_def sendCachedDataItems_def Let_def)

lemma demo_item_updates:
  assumes "mSystemStatus st = SystemStatus_new" "mDataItemCache st = (\<lambda>_. None)"
  shows "fst (update_loop demo_env (1, 0) [Some (GPSStateDataItem True)] {} st) = {GPSSTATE_DATA_ITEM_ID}"
  using assms
  by (simp add: updateCache_def eventDataItemNotify_def demo_env_def demo_lib_def Let_def
      setIteminReport_def SystemStatus_new_def status_of_def report_slot_def)


section \<open>Requests to turn something on\<close>

text \<open>A turn-on message acts on the observer, which counts the request again.\<close>

definition no_turn_on :: "os_observer \<Rightarrow> bool" where
  "no_turn_on st \<longleftrightarrow> (\<forall>q d n. TurnOn q d n \<notin> set (os_calls st)) \<and>
     (\<forall>q d n. HandleTurnOnMsg (Framework q) d n \<notin> set (os_msgs st))"

lemma no_turn_on_simps [simp]:
  "no_turn_on (os_call c st) \<longleftrightarrow> no_turn_on st \<and> (\<forall>q d n. c \<noteq> TurnOn q d n)"
  "no_turn_on (os_send m st) \<longleftrightarrow> no_turn_on st \<and> (\<forall>q d n. m \<noteq> HandleTurnOnMsg (Framework q) d n)"
  by (simp_all add: no_turn_on_def os_call_def os_send_def all_conj_distrib) (metis+)?

lemma no_turn_on_eq:
  "os_calls st' = os_calls st \<Longrightarrow> os_msgs st' = os_msgs st \<Longrightarrow> no_turn_on st' = no_turn_on st"
  by (simp add: no_turn_on_def)

lemma no_turn_on_upd [simp]:
  "no_turn_on (st\<lparr>mSubscriptionObj := x\<rparr>) = no_turn_on st"
  "no_turn_on (st\<lparr>mFrameworkActionReqObj := x\<rparr>) = no_turn_on st"
  "no_turn_on (st\<lparr>mActiveRequestCount := a\<rparr>) = no_turn_on st"
  "no_turn_on (st\<lparr>mBackHaulConnectReqCount := b\<rparr>) = no_turn_on st"
  "no_turn_on (st\<lparr>mDataItemToClients := u\<rparr>) = no_turn_on st"
  "no_turn_on (st\<lparr>mClientToDataItems := t\<rparr>) = no_turn_on st"
  "no_turn_on (st\<lparr>mClientToDataItems := t, mDataItemToClients := u\<rparr>) = no_turn_on st"
  "no_turn_on (st\<lparr>mDataItemToClients := u, mClientToDataItems := t\<rparr>) = no_turn_on st"
  by (simp_all add: no_turn_on_def)

lemma no_turn_on_sends [simp]:
  "no_turn_on (sendCachedDataItems env S c st) = no_turn_on st"
  by (auto simp: sendCachedDataItems_def Let_def)

lemma no_turn_on_notify [simp]:
  "no_turn_on (notify_clients env ids cs st) = no_turn_on st"
  by (induction env ids cs st rule: notify_clients.induct) auto

lemma no_turn_on_notify_proc:
  "no_turn_on (notify_proc env now v st) = no_turn_on st"
proof -
  obtain ids st1 where st1: "update_loop env now v {} st = (ids, st1)" by fastforce
  have "no_turn_on st1 = no_turn_on st"
    using update_loop_frame[of st env now v "{}"] st1 by (intro no_turn_on_eq) simp_all
  then show ?thesis by (simp add: notify_proc_def st1 Let_def)
qed

lemma no_turn_on_rest:
  "unsubscribe_rest env S c st = Some st' \<Longrightarrow> no_turn_on st' = no_turn_on st"
  by (auto simp: unsubscribe_rest_def Let_def split: option.splits if_splits)

lemma no_turn_on_proc:
  assumes "no_turn_on st" "\<forall>q d n. m \<noteq> HandleTurnOnMsg (Framework q) d n" "os_proc env now m st = Some st'"
  shows "no_turn_on st'"
proof (cases m)
  case (HandleTurnOnMsg t d n)
  then show ?thesis
    using assms by (cases t) (auto simp: turnOn_proc_def turnOn_def split: option.splits if_splits)
next
  case (HandleUpdateSubscriptionReq S c)
  then show ?thesis
    using assms(1,3) by (auto simp: updateSubscription_proc_def Let_def split: option.splits prod.splits if_splits)
next
  case (HandleNotify v)
  then show ?thesis using assms(1,3) no_turn_on_notify_proc[of env now v st] by simp
qed (use assms(1,3) in \<open>auto simp: setSubscriptionObj_proc_def subscribe_proc_def unsubscribe_proc_def
    unsubscribeAll_proc_def Let_def split: option.splits prod.splits if_splits dest!: no_turn_on_rest\<close>)

lemma no_turn_on_step:
  assumes "no_turn_on st" "os_step env e st = Some st'"
  shows "no_turn_on st'"
proof (cases e)
  case (EvProcess now)
  show ?thesis
  proof (cases "os_msgs st")
    case (Cons m ms)
    have "\<And>q d n. TurnOn q d n \<notin> set (os_calls st)"
        "\<And>q d n. HandleTurnOnMsg (Framework q) d n \<notin> set (m # ms)"
      using assms(1) Cons unfolding no_turn_on_def by metis+
    then have "no_turn_on (st\<lparr>os_msgs := ms\<rparr>)" "\<forall>q d n. m \<noteq> HandleTurnOnMsg (Framework q) d n"
      unfolding no_turn_on_def by (simp, metis list.set_intros(1))
    then show ?thesis using no_turn_on_proc assms(2) EvProcess Cons by auto
  qed (use assms EvProcess in auto)
qed (use assms in \<open>auto simp: setSubscriptionObj_def subscribe_def updateSubscription_def unsubscribe_def
      unsubscribeAll_def notify_def eventConnectionStatus_def turnOn_def turnOff_def
      connectBackhaul_def disconnectBackhaul_def setFrameworkActionReqObj_def Let_def
      split: option.splits if_splits\<close>)

lemma no_turn_on_run: "no_turn_on st \<Longrightarrow> os_run env es st = Some st' \<Longrightarrow> no_turn_on st'"
  by (induction es arbitrary: st) (auto split: option.splits dest: no_turn_on_step)

text \<open>
  No run of the observer ever calls the framework to turn something on, whatever clients ask
  for: the message that should is sent to the observer itself.
\<close>

theorem turn_on_never_reaches_framework:
  assumes "os_run env es observer_new = Some st"
  shows "\<forall>q d n. TurnOn q d n \<notin> set (os_calls st)"
  using no_turn_on_run[OF _ assms] by (simp add: no_turn_on_def observer_new_def)

definition demo_turn_on :: "os_event list" where
  "demo_turn_on = [EvSetFrameworkActionReqObj 7, EvTurnOn GPSSTATE_DATA_ITEM_ID 30, EvProcess (0, 0),
     EvTurnOff GPSSTATE_DATA_ITEM_ID, EvTurnOff GPSSTATE_DATA_ITEM_ID, EvProcess (0, 0)]"

lemma turn_on_never_reaches_framework_witness:
  "\<exists>st. os_run demo_env demo_turn_on observer_new = Some st \<and>
     os_calls st = [TurnOff 7 GPSSTATE_DATA_ITEM_ID] \<and> (\<forall>q d n. TurnOn q d n \<notin> set (os_calls st))"
proof -
  have "\<exists>st. os_run demo_env demo_turn_on observer_new = Some st \<and>
      os_calls st = [TurnOff 7 GPSSTATE_DATA_ITEM_ID]"
    by (simp add: demo_turn_on_def setFrameworkActionReqObj_def turnOn_def turnOn_proc_def turnOff_def
        os_send_def os_call_def observer_new_def Let_def)
  then show ?thesis using turn_on_never_reaches_framework by blast
qed

text \<open>
  Processing a turn-on request counts it a second time, so the client's one turn-off only undoes
  the repetition: the observer goes on counting the request, and the framework is told nothing.
\<close>

theorem turn_off_does_not_undo:
  assumes "mFrameworkActionReqObj st \<noteq> NULL" "os_msgs st = []" "mActiveRequestCount st d = None"
  shows "os_run env [EvTurnOn d n, EvProcess now, EvTurnOff d, EvProcess now'] st =
         Some (st\<lparr>mActiveRequestCount := (mActiveRequestCount st)(d \<mapsto> 1)\<rparr>)"
  using assms by (simp add: turnOn_def turnOn_proc_def turnOff_def os_send_def)

lemma turn_off_does_not_undo_witness:
  "mActiveRequestCount (the (os_run demo_env
      [EvTurnOn SCREEN_STATE_DATA_ITEM_ID 5, EvProcess (0, 0), EvTurnOff SCREEN_STATE_DATA_ITEM_ID, EvProcess (1, 0)]
      (observer_new\<lparr>mFrameworkActionReqObj := 7\<rparr>))) SCREEN_STATE_DATA_ITEM_ID = Some 1"
  using turn_off_does_not_undo[of "observer_new\<lparr>mFrameworkActionReqObj := 7\<rparr>"]
  by (simp add: observer_new_def)

section \<open>Updates of a subscription\<close>

text \<open>
  An update of a subscription puts the new items in the table by client, but the table by
  item, which decides whom the framework's items go to, ends up with the items that are in exactly
  one of the old and the new subscription. If freed nodes do not keep their contents, an update
  that keeps an item steps through a freed iterator.
\<close>

theorem update_subscription_inverts:
  assumes "order_ok (item_order env)" "order_ok (client_order env)" "mirrored st" "finite T" "T \<noteq> {}"
  shows "(intact env \<longrightarrow> (\<exists>st'. updateSubscription_proc env T c st = Some st' \<and>
             getValSet c (mClientToDataItems st') = T \<and>
             (\<forall>d. c \<in> getValSet d (mDataItemToClients st') \<longleftrightarrow>
                (d \<in> getValSet c (mClientToDataItems st)) \<noteq> (d \<in> T)))) \<and>
         (\<not> intact env \<and> T \<inter> getValSet c (mClientToDataItems st) \<noteq> {} \<longrightarrow>
             updateSubscription_proc env T c st = None)"
proof (intro conjI impI)
  let ?S = "getValSet c (mClientToDataItems st)"
  have ok: "std_map_ok (mClientToDataItems st)" "std_map_ok (mDataItemToClients st)"
    using assms(3) by (auto simp: mirrored_def mirror_ok)
  obtain m1 where at: "map_at {} c (mClientToDataItems st) = (?S, m1)" "std_map_ok m1"
  proof -
    have "fst (map_at {} c (mClientToDataItems st)) = ?S" "std_map_ok (snd (map_at {} c (mClientToDataItems st)))"
      using ok(1) by (auto simp: map_at_def getValSet_def split: option.splits)
    then show thesis using that by (metis prod.collapse)
  qed
  note inter = interset_eq[OF assms(1,4), of "intact env" ?S]
  show "updateSubscription_proc env T c st = None" if "\<not> intact env \<and> T \<inter> ?S \<noteq> {}"
  proof -
    have "removeAndReturnInterset (intact env) (item_order env) ?S T = None"
      using that inter by (simp add: Int_commute)
    then have "sm_update (intact env) (item_order env) c T (mClientToDataItems st) = None"
      using assms(5) at(1) by (simp add: sm_update_def)
    then show ?thesis by (simp add: updateSubscription_proc_def)
  qed
  assume intact: "intact env"
  obtain c2d where c2d: "sm_update (intact env) (item_order env) c T (mClientToDataItems st) =
      Some (?S \<inter> T, T - ?S, c2d)" "map_of c2d c = Some T"
    using intact assms(5) at inter by (auto simp: sm_update_def split: prod.splits)
  let ?f = "map_of (mDataItemToClients st)"
  obtain d2c where d2c: "trimOrRemove (intact env) (item_order env) (client_order env) (?S \<inter> T) {c} (Some {}) None
        (mDataItemToClients st) = Some (Some (gone_keys (?S \<inter> T) {c} ?f), None, d2c)"
      "std_map_ok d2c" "map_of d2c = trimmed (?S \<inter> T) {c} ?f"
    using trim_eq[OF assms(1,2) _ _ ok(2), of "?S \<inter> T" "{c}" "intact env" "Some {}" None] intact assms(4)
    by auto
  obtain d2c' where d2c': "sm_add_keys (item_order env) (T - ?S) {c} (Some {}) d2c =
        (Some (new_keys (T - ?S) {c} (map_of d2c)), d2c')" "map_of d2c' = added (T - ?S) {c} (map_of d2c)"
    using add_eq[OF assms(1) _ d2c(2), of "T - ?S" "{c}" "Some {}"] assms(4) by auto
  obtain st' where st': "updateSubscription_proc env T c st = Some st'"
      "mClientToDataItems st' = c2d" "mDataItemToClients st' = d2c'"
    using c2d(1) d2c(1) d2c'(1) by (auto simp: updateSubscription_proc_def Let_def)
  have "c \<in> vals d2c' d \<longleftrightarrow> (d \<in> ?S) \<noteq> (d \<in> T)" for d
    using assms(3) vals_added[OF d2c'(2)] vals_trimmed[OF d2c(3)]
    by (auto simp: mirrored_def mirror_def vals_def)
  then show "\<exists>st'. updateSubscription_proc env T c st = Some st' \<and> getValSet c (mClientToDataItems st') = T \<and>
      (\<forall>d. c \<in> getValSet d (mDataItemToClients st') \<longleftrightarrow> (d \<in> ?S) \<noteq> (d \<in> T))"
    using st' c2d(2) by (auto simp: vals_def getValSet_def)
qed

lemma observer_new_mirrored: "mirrored observer_new"
  using observer_new_inv[of 1] by (simp add: obs_inv_def)

definition demo_table :: os_observer where
  "demo_table = observer_new\<lparr>
     mClientToDataItems := [(5, {GPSSTATE_DATA_ITEM_ID, SCREEN_STATE_DATA_ITEM_ID})],
     mDataItemToClients := [(GPSSTATE_DATA_ITEM_ID, {5}), (SCREEN_STATE_DATA_ITEM_ID, {5})]\<rparr>"

lemma demo_table_mirrored: "mirrored demo_table"
  by (auto simp: mirrored_def mirror_def demo_table_def sm_ok_def std_map_ok_def vals_def getValSet_def
      less_eq_DataItemId_def split: if_splits)

lemma demo_table_wants:
  "getValSet 5 (mClientToDataItems demo_table) = {GPSSTATE_DATA_ITEM_ID, SCREEN_STATE_DATA_ITEM_ID}"
  by (simp add: demo_table_def getValSet_def)

lemma update_subscription_inverts_witness:
  "\<exists>st'. updateSubscription_proc demo_env {GPSSTATE_DATA_ITEM_ID, MODEL_DATA_ITEM_ID} 5 demo_table = Some st' \<and>
     getValSet 5 (mClientToDataItems st') = {GPSSTATE_DATA_ITEM_ID, MODEL_DATA_ITEM_ID} \<and>
     5 \<notin> getValSet GPSSTATE_DATA_ITEM_ID (mDataItemToClients st') \<and>
     5 \<in> getValSet SCREEN_STATE_DATA_ITEM_ID (mDataItemToClients st')"
  using update_subscription_inverts[of demo_env demo_table "{GPSSTATE_DATA_ITEM_ID, MODEL_DATA_ITEM_ID}" 5]
    demo_env_ok demo_table_mirrored
  by (auto simp: env_ok_def demo_table_wants)

text \<open>
  If freed nodes do not keep their contents, a client that gives up all it subscribed to
  makes the observer step through the iterator of the entry it has just erased.
\<close>

theorem unsubscribe_all_items_steps_freed:
  assumes "order_ok (item_order env)" "order_ok (client_order env)" "mirrored st" "finite T"
    and "getValSet c (mClientToDataItems st) \<noteq> {}" "getValSet c (mClientToDataItems st) \<subseteq> T" "\<not> intact env"
  shows "unsubscribe_proc env T c st = None"
proof -
  have "gone_keys {c} T (map_of (mClientToDataItems st)) \<noteq> {}"
    using assms(5,6) by (auto simp: gone_keys_def getValSet_def split: option.splits)
  then have "trimOrRemove False (client_order env) (item_order env) {c} T (Some {}) (Some {})
      (mClientToDataItems st) = None"
    using trim_None[OF assms(2,1) _ assms(4)] assms(3) by (simp add: mirrored_def mirror_ok)
  then show ?thesis using assms(7) by (simp add: unsubscribe_proc_def)
qed

lemma unsubscribe_all_items_steps_freed_witness:
  "unsubscribe_proc (demo_env\<lparr>intact := False\<rparr>)
     {GPSSTATE_DATA_ITEM_ID, SCREEN_STATE_DATA_ITEM_ID} 5 demo_table = None"
  using unsubscribe_all_items_steps_freed[of "demo_env\<lparr>intact := False\<rparr>" demo_table
      "{GPSSTATE_DATA_ITEM_ID, SCREEN_STATE_DATA_ITEM_ID}" 5] demo_env_ok demo_table_mirrored
  by (simp add: env_ok_def demo_table_wants)

end
