(* ===== verification/Utf_Shims.thy ===== *)
theory Utf_Shims
  imports Prelude
begin

unbundle bit_operations_syntax

text \<open>
  \<open>libshims/strdup8to16.cpp\<close> and \<open>libshims/strdup16to8.cpp\<close>: conversion between Java's
  modified UTF-8 and UTF-16, which vendor libraries link against.

  A C string is the list of the bytes at its address; behind the list comes the terminating zero.
  A buffer a function fills is its result. \<open>size_t\<close> is a word of any width.
\<close>

section \<open>From UTF-8 to UTF-16\<close>

definition UTF16_REPLACEMENT_CHAR :: u32 where
  "UTF16_REPLACEMENT_CHAR = 0xfffd"

definition UNICODE_UPPER_LIMIT :: u32 where
  "UNICODE_UPPER_LIMIT = 0x10fffd"

definition UTF8_SEQ_LENGTH :: "u8 \<Rightarrow> nat" where
  "UTF8_SEQ_LENGTH ch = unat (drop_bit (unat (drop_bit 3 ch AND 0x1e)) (0xe5000000 :: u32) AND 3) + 1"

definition UTF8_SHIFT_AND_MASK :: "u32 \<Rightarrow> u8 \<Rightarrow> u32" where
  "UTF8_SHIFT_AND_MASK unicode byte = push_bit 6 unicode OR (0x3f AND ucast byte)"

text \<open>The byte a pointer points to.\<close>

definition byte_at :: "u8 list \<Rightarrow> u8" where
  "byte_at s = (case s of [] \<Rightarrow> 0 | b # _ \<Rightarrow> b)"

fun strlen_loop :: "u8 list \<Rightarrow> nat \<Rightarrow> int \<Rightarrow> nat" where
  "strlen_loop [] len expected = len"
| "strlen_loop (ic # s) len expected =
     (if ic = 0 then len
      else if ic AND 0xc0 = 0x80
      then (let expected = expected - 1
            in strlen_loop s (if expected < 0 then len + 1 else len) expected)
      else (let expected = int (UTF8_SEQ_LENGTH ic) - 1
            in strlen_loop s (if expected = 3 then len + 2 else len + 1) expected))"

definition strlen8to16 :: "u8 list \<Rightarrow> nat" where
  "strlen8to16 utf8Str = strlen_loop utf8Str 0 0"

definition leaderMask :: "u8 list" where
  "leaderMask = [0xff, 0x1f, 0x0f, 0x07]"

text \<open>The bytes that follow the leader; the pointer stays at one that does not fit.\<close>

fun utf8_tail :: "nat \<Rightarrow> u32 \<Rightarrow> u8 list \<Rightarrow> u32 \<times> u8 list" where
  "utf8_tail 0 ret s = (ret, s)"
| "utf8_tail (Suc n) ret s =
     (if byte_at s = 0 then (UTF16_REPLACEMENT_CHAR, s)
      else if byte_at s AND 0xc0 \<noteq> 0x80 then (UTF16_REPLACEMENT_CHAR, s)
      else utf8_tail n (UTF8_SHIFT_AND_MASK ret (byte_at s)) (tl s))"

definition getUtf32FromUtf8 :: "u8 list \<Rightarrow> u32 \<times> u8 list" where
  "getUtf32FromUtf8 s =
     (if byte_at s AND 0xc0 = 0x80 then (UTF16_REPLACEMENT_CHAR, tl s)
      else
        (let seq_len = UTF8_SEQ_LENGTH (byte_at s);
             ret = ucast (byte_at s AND leaderMask ! (seq_len - 1))
         in if byte_at s = 0 then (ret, s)
            else utf8_tail (seq_len - 1) ret (tl s)))"

definition utf16_units :: "u32 \<Rightarrow> u16 list" where
  "utf16_units ret =
     (if ret \<le> 0xffff then [ucast ret]
      else if ret \<le> UNICODE_UPPER_LIMIT
      then [0xd800 OR ucast (drop_bit 10 (ret - 0x10000)), 0xdc00 OR ucast ((ret - 0x10000) AND 0x3ff)]
      else [ucast UTF16_REPLACEMENT_CHAR])"

lemma utf8_tail_shorter: "length (snd (utf8_tail n ret s)) \<le> length s"
  by (induction n ret s rule: utf8_tail.induct) auto

lemma get_shorter:
  assumes "byte_at s \<noteq> 0"
  shows "length (snd (getUtf32FromUtf8 s)) < length s"
proof -
  have "s \<noteq> []" using assms by (auto simp: byte_at_def)
  moreover have "length (snd (utf8_tail n r (tl s))) \<le> length (tl s)" for n r
    by (rule utf8_tail_shorter)
  ultimately show ?thesis
    using assms by (auto simp: getUtf32FromUtf8_def Let_def le_diff_conv Suc_le_eq neq_Nil_conv
      less_Suc_eq_le)
qed

function strcpy8to16 :: "u8 list \<Rightarrow> u16 list" where
  "strcpy8to16 utf8Str =
     (if byte_at utf8Str = 0 then []
      else utf16_units (fst (getUtf32FromUtf8 utf8Str)) @ strcpy8to16 (snd (getUtf32FromUtf8 utf8Str)))"
  by auto

termination
  by (relation "measure length") (use get_shorter in auto)

declare strcpy8to16.simps [simp del]

text \<open>The loop that stops at an address need not end.\<close>

partial_function (option) cpylen_loop :: "int \<Rightarrow> u8 list \<Rightarrow> u16 list option" where
  "cpylen_loop left s =
     (if left > 0
      then
        (let (ret, s') = getUtf32FromUtf8 s
         in Option.bind (cpylen_loop (left - int (length s - length s')) s')
              (\<lambda>units. Some (utf16_units ret @ units)))
      else Some [])"

definition strcpylen8to16 :: "u8 list \<Rightarrow> int \<Rightarrow> u16 list option" where
  "strcpylen8to16 utf8Str len = cpylen_loop len utf8Str"

text \<open>
  \<open>mem\<close> says whether \<open>malloc\<close> succeeds. The result is \<open>None\<close> when the null pointer is written
  through, and \<open>Some None\<close> for a null pointer.
\<close>

definition strdup8to16 :: "'a::len itself \<Rightarrow> bool \<Rightarrow> u8 list option \<Rightarrow> u16 list option option" where
  "strdup8to16 size_t mem s =
     (case s of
        None \<Rightarrow> Some None
      | Some s \<Rightarrow>
          (let len = strlen8to16 s
           in if len \<noteq> 0 \<and> (2 ^ LENGTH('a) - 1) div len < 2 then Some None
              else if mem then Some (Some (strcpy8to16 s))
              else if strcpy8to16 s = [] then Some None else None))"

section \<open>From UTF-16 to UTF-8\<close>

definition utf8_size :: "u16 \<Rightarrow> 'a::len word" where
  "utf8_size uic = (if uic > 0x07ff then 3 else if uic > 0x7f \<or> uic = 0 then 2 else 1)"

fun size_fast :: "u16 list \<Rightarrow> 'a::len word \<Rightarrow> 'a word" where
  "size_fast [] utf8Len = utf8Len"
| "size_fast (uic # s) utf8Len = size_fast s (utf8Len + utf8_size uic)"

text \<open>The slow loop returns from inside when the sum wraps around.\<close>

fun size_slow :: "u16 list \<Rightarrow> 'a::len word \<Rightarrow> 'a word" where
  "size_slow [] utf8Len = (if utf8Len = - 1 then - 2 else utf8Len)"
| "size_slow (uic # s) utf8Len =
     (let utf8Cur = utf8Len; utf8Len = utf8Len + utf8_size uic
      in if utf8Len < utf8Cur then - 2 else size_slow s utf8Len)"

definition strnlen16to8 :: "u16 list \<Rightarrow> 'a::len word" where
  "strnlen16to8 s =
     (if (of_nat (length s) :: 'a word) < (- 2) div 3 then size_fast s 0 else size_slow s 0)"

fun strncpy_loop :: "u16 list \<Rightarrow> u8 list" where
  "strncpy_loop [] = []"
| "strncpy_loop (uic # s) =
     (if uic > 0x07ff
      then ucast (drop_bit 12 uic OR 0xe0) # ucast (drop_bit 6 uic AND 0x3f OR 0x80) #
           ucast (uic AND 0x3f OR 0x80) # strncpy_loop s
      else if uic > 0x7f \<or> uic = 0
      then ucast (drop_bit 6 uic OR 0xc0) # ucast (uic AND 0x3f OR 0x80) # strncpy_loop s
      else ucast uic # (if uic = 0 then [] else strncpy_loop s))"

definition strncpy16to8 :: "u16 list \<Rightarrow> u8 list" where
  "strncpy16to8 s = strncpy_loop s @ [0]"

definition strndup16to8 :: "'a::len itself \<Rightarrow> bool \<Rightarrow> u16 list option \<Rightarrow> u8 list option" where
  "strndup16to8 size_t mem s =
     (case s of
        None \<Rightarrow> None
      | Some s \<Rightarrow>
          (let len = (strnlen16to8 s :: 'a word)
           in if len \<ge> - 2 then None
              else if mem then Some (strncpy16to8 s) else None))"

end
