(* ===== verification/Utf_Proofs.thy ===== *)
theory Utf_Proofs
  imports Utf_Shims
begin

text \<open>
  What the conversions between UTF-8 and UTF-16 guarantee: the buffers are large enough, well-formed
  text is converted as the standard says, and UTF-16 survives the way to UTF-8 and back.
\<close>

section \<open>Bits as arithmetic\<close>

lemma and_low:
  "(n :: nat) AND 0x3f = n mod 64" "n AND 0x1f = n mod 32" "n AND 0x0f = n mod 16" "n AND 0x07 = n mod 8"
  "n AND 0x3ff = n mod 1024" "n AND 3 = n mod 4" "n AND 0xff = n mod 256"
  using take_bit_eq_mask[of 6 n] take_bit_eq_mask[of 5 n] take_bit_eq_mask[of 4 n] take_bit_eq_mask[of 3 n]
    take_bit_eq_mask[of 10 n] take_bit_eq_mask[of 2 n] take_bit_eq_mask[of 8 n]
  by (simp_all add: mask_eq_exp_minus_1 take_bit_eq_mod)

lemma or_low:
  assumes "x < 2 ^ k"
  shows "push_bit k c OR x = push_bit k c + (x :: nat)"
proof -
  have x: "take_bit k x = x" using assms by (simp add: take_bit_nat_eq_self)
  have "push_bit k c AND take_bit k x = 0"
    by (rule bit_eqI) (auto simp: bit_simps)
  then show ?thesis by (simp add: x disjunctive_add_eq_or)
qed

lemma and_high: "(n :: nat) AND push_bit k c = push_bit k (drop_bit k n AND c)"
  by (rule bit_eqI) (auto simp: bit_simps)

lemma or_lead:
  "(x :: nat) < 16 \<Longrightarrow> x OR 0xe0 = 0xe0 + x" "x < 32 \<Longrightarrow> x OR 0xc0 = 0xc0 + x" "x < 64 \<Longrightarrow> x OR 0x80 = 0x80 + x"
  "x < 1024 \<Longrightarrow> 0xd800 OR x = 0xd800 + x" "x < 1024 \<Longrightarrow> 0xdc00 OR x = 0xdc00 + x"
  using or_low[of x 4 14] or_low[of x 5 6] or_low[of x 6 2] or_low[of x 10 54] or_low[of x 10 55]
  by (simp_all add: push_bit_eq_mult or.commute)

lemma unat_drop: "unat (drop_bit k w) = unat w div 2 ^ k" for w :: "'a::len word"
proof -
  have "unat w < 2 ^ LENGTH('a)" by (rule unsigned_less)
  then show ?thesis
    by (simp only: unsigned_drop_bit_eq take_bit_nat_eq_self) (rule drop_bit_eq_div)
qed

lemma take_mod: "take_bit 16 (x :: nat) mod 1024 = x mod 1024" "take_bit 8 x mod 64 = x mod 64"
  by (simp_all add: take_bit_eq_mod mod_mod_cancel)

section \<open>Leaders and followers\<close>

lemma u8_less: "unat (b :: u8) < 256"
  using unsigned_less[of b] by simp

lemma follower_iff: "(b :: u8) AND 0xc0 = 0x80 \<longleftrightarrow> unat b div 64 = 2"
proof -
  have "unat b AND 0xc0 = 64 * (unat b div 64 mod 4)"
    using and_high[of "unat b" 6 3] by (simp add: push_bit_eq_mult drop_bit_eq_div and_low)
  then have "unat (b AND 0xc0) = 64 * (unat b div 64)"
    using u8_less[of b] by (simp add: unsigned_and_eq)
  then show ?thesis by (simp add: word_unat_eq_iff)
qed

lemma leader_shift: "unat (drop_bit 3 (b :: u8) AND 0x1e) = 2 * (unat b div 16)"
proof -
  have "drop_bit 3 (unat b) AND 0x1e = 2 * (unat b div 16 mod 16)"
    using and_high[of "drop_bit 3 (unat b)" 1 15]
    by (simp add: push_bit_eq_mult drop_bit_eq_div and_low div_mult2_eq[symmetric])
  then show ?thesis
    using u8_less[of b] by (simp add: unsigned_and_eq unsigned_drop_bit_eq take_bit_nat_eq_self)
qed

lemma seq_length_table:
  "\<forall>k \<in> set [0..<16]. unat (drop_bit (2 * k) (0xe5000000 :: u32) AND 3) + 1 =
     (if k < 12 then 1 else if k < 14 then 2 else if k < 15 then 3 else 4)"
  by code_simp

lemma seq_length_eq:
  "UTF8_SEQ_LENGTH b = (if unat b < 0xc0 then 1 else if unat b < 0xe0 then 2 else if unat b < 0xf0 then 3 else 4)"
proof -
  have "unat b div 16 \<in> set [0..<16]" using u8_less[of b] by simp
  with seq_length_table have "UTF8_SEQ_LENGTH b = (if unat b div 16 < 12 then 1 else if unat b div 16 < 14 then 2
      else if unat b div 16 < 15 then 3 else 4)"
    unfolding UTF8_SEQ_LENGTH_def leader_shift by blast
  moreover have "unat b div 16 < 12 \<longleftrightarrow> unat b < 0xc0" "unat b div 16 < 14 \<longleftrightarrow> unat b < 0xe0"
      "unat b div 16 < 15 \<longleftrightarrow> unat b < 0xf0"
    by (simp_all add: div_less_iff_less_mult)
  ultimately show ?thesis by simp
qed

text \<open>What a leader and a follower contribute.\<close>

lemma leader_bits:
  "unat (b AND leaderMask ! 0) = unat b" "unat (b AND leaderMask ! 1) = unat b mod 32"
  "unat (b AND leaderMask ! 2) = unat b mod 16" "unat (b AND leaderMask ! 3) = unat b mod 8"
  using u8_less[of b]
  by (simp_all add: leaderMask_def unsigned_and_eq and_low)

lemma follow_value:
  assumes "unat r < 2 ^ 26"
  shows "unat (UTF8_SHIFT_AND_MASK r b) = 64 * unat r + unat b mod 64"
proof -
  have "unat (push_bit 6 r) = push_bit 6 (unat r)"
    using assms by (simp only: unsigned_push_bit_eq) (simp add: take_bit_nat_eq_self push_bit_eq_mult)
  moreover have "unat (0x3f AND ucast b :: u32) = unat b mod 64"
    using u8_less[of b] by (simp add: unsigned_and_eq and_low and.commute unsigned_ucast_eq take_bit_nat_eq_self)
  ultimately show ?thesis
    using or_low[of "unat b mod 64" 6 "unat r"]
    by (simp add: UTF8_SHIFT_AND_MASK_def unsigned_or_eq push_bit_eq_mult)
qed

section \<open>The encodings\<close>

text \<open>The standard's encodings of a code point, in arithmetic.\<close>

definition follow :: "nat \<Rightarrow> u8" where
  "follow k = of_nat (0x80 + k mod 64)"

definition utf8_of :: "nat \<Rightarrow> u8 list" where
  "utf8_of c =
     (if c < 0x80 then [of_nat c]
      else if c < 0x800 then [of_nat (0xc0 + c div 64), follow c]
      else if c < 0x10000 then [of_nat (0xe0 + c div 4096), follow (c div 64), follow c]
      else [of_nat (0xf0 + c div 262144), follow (c div 4096), follow (c div 64), follow c])"

definition utf16_of :: "nat \<Rightarrow> u16 list" where
  "utf16_of c =
     (if c < 0x10000 then [of_nat c]
      else [of_nat (0xd800 + (c - 0x10000) div 1024), of_nat (0xdc00 + (c - 0x10000) mod 1024)])"

lemma byte_at_simps [simp]: "byte_at [] = 0" "byte_at (b # s) = b"
  by (simp_all add: byte_at_def)

lemma unat_u8: "n < 256 \<Longrightarrow> unat (of_nat n :: u8) = n"
  by (simp add: unat_of_nat)

lemma word_of_unat: "unat (x :: 'a::len word) = n \<Longrightarrow> x = of_nat n"
  by auto

lemma follow_unat: "unat (follow k) = 0x80 + k mod 64"
  unfolding follow_def by (rule unat_u8) (use mod_less_divisor[of 64 k] in linarith)

lemma follow_props [simp]: "follow k \<noteq> 0" "follow k AND 0xc0 = 0x80"
proof -
  have "unat (follow k) \<noteq> 0" by (simp add: follow_unat)
  then show "follow k \<noteq> 0" by (metis unat_0)
  have "(0x80 + k mod 64) div 64 = 2" using mod_less_divisor[of 64 k] by simp
  then show "follow k AND 0xc0 = 0x80" by (simp add: follower_iff follow_unat)
qed

lemma lead_mod:
  "q < 32 \<Longrightarrow> (0xc0 + q) mod 32 = (q :: nat)" "q < 16 \<Longrightarrow> (0xe0 + q) mod 16 = q" "q < 8 \<Longrightarrow> (0xf0 + q) mod 8 = q"
  "q < 64 \<Longrightarrow> (0x80 + q) mod 64 = q"
  using mod_mult_self1[of q 6 32] mod_mult_self1[of q 14 16] mod_mult_self1[of q 30 8] mod_mult_self1[of q 2 64]
  by (simp_all add: add.commute)

lemma tail_follow:
  assumes "m < 2 ^ 26"
  shows "utf8_tail (Suc n) (of_nat m) (follow k # s) = utf8_tail n (of_nat (64 * m + k mod 64)) s"
proof -
  have m: "unat (of_nat m :: u32) = m" using assms by (simp add: unat_of_nat)
  have "unat (UTF8_SHIFT_AND_MASK (of_nat m) (follow k)) = 64 * m + k mod 64"
    using follow_value[of "of_nat m" "follow k"] assms m lead_mod(4)[of "k mod 64"]
    by (simp only: follow_unat mod_less_divisor zero_less_numeral simp_thms)
  then have "UTF8_SHIFT_AND_MASK (of_nat m) (follow k) = of_nat (64 * m + k mod 64)"
    by (rule word_of_unat)
  then show ?thesis by simp
qed

lemma get_lead:
  assumes "L < 256" "L \<noteq> 0" "L < 0x80 \<or> 0xc0 \<le> L"
    and "n = (if L < 0xc0 then 0 else if L < 0xe0 then 1 else if L < 0xf0 then 2 else 3)"
    and "m = (if L < 0xc0 then L else if L < 0xe0 then L mod 32 else if L < 0xf0 then L mod 16 else L mod 8)"
  shows "getUtf32FromUtf8 (of_nat L # s) = utf8_tail n (of_nat m) s"
proof -
  have L: "unat (of_nat L :: u8) = L" using assms(1) by (rule unat_u8)
  then have "(of_nat L :: u8) \<noteq> 0" using assms(2) by (metis unat_0)
  moreover have "(of_nat L :: u8) AND 0xc0 \<noteq> 0x80"
    using assms(1,3) unfolding follower_iff L by auto
  moreover have n: "UTF8_SEQ_LENGTH (of_nat L) - 1 = n" by (simp add: seq_length_eq L assms(4))
  moreover have "ucast (of_nat L AND leaderMask ! n) = (of_nat m :: u32)"
  proof -
    have "unat (of_nat L AND leaderMask ! n) = m"
      using leader_bits[of "of_nat L"] by (simp add: assms(4,5) L numeral_3_eq_3[symmetric])
    then have "of_nat (unat (of_nat L AND leaderMask ! n)) = (of_nat m :: u32)" by (rule arg_cong)
    then show ?thesis by (simp only: of_nat_unat)
  qed
  ultimately show ?thesis by (simp only: getUtf32FromUtf8_def Let_def byte_at_simps list.sel if_False)
qed

lemma get_utf8_of:
  assumes "0 < c" "c < 0x110000"
  shows "getUtf32FromUtf8 (utf8_of c @ s) = (of_nat c, s)"
proof -
  have d: "64 * (c div 64) + c mod 64 = c" "64 * (c div 4096) + c div 64 mod 64 = c div 64"
      "64 * (c div 262144) + c div 4096 mod 64 = c div 4096"
    using mult_div_mod_eq[of 64 "c div 64"] mult_div_mod_eq[of 64 "c div 4096"]
    by (simp_all add: div_mult2_eq[symmetric])
  consider "c < 0x80" | "0x80 \<le> c" "c < 0x800" | "0x800 \<le> c" "c < 0x10000" | "0x10000 \<le> c"
    by linarith
  then show ?thesis
  proof cases
    case 1
    have "getUtf32FromUtf8 (of_nat c # s) = utf8_tail 0 (of_nat c) s"
      by (rule get_lead) (use 1 assms in auto)
    then show ?thesis using 1 by (simp add: utf8_of_def)
  next
    case 2
    have q: "c div 64 < 32" using 2 by simp
    have "getUtf32FromUtf8 (of_nat (0xc0 + c div 64) # follow c # s) = utf8_tail 1 (of_nat (c div 64)) (follow c # s)"
      by (rule get_lead) (use q lead_mod(1)[OF q] in auto)
    then show ?thesis
      using 2 q tail_follow[of "c div 64" 0 c s] by (simp only: utf8_of_def One_nat_def utf8_tail.simps d) auto
  next
    case 3
    have q: "c div 4096 < 16" using 3 by simp
    have "getUtf32FromUtf8 (of_nat (0xe0 + c div 4096) # follow (c div 64) # follow c # s) =
        utf8_tail 2 (of_nat (c div 4096)) (follow (c div 64) # follow c # s)"
      by (rule get_lead) (use q lead_mod(2)[OF q] in auto)
    moreover have "c div 4096 < 2 ^ 26" "c div 64 < 2 ^ 26" using 3 by simp_all
    note tail_follow[OF this(1), of 1 "c div 64" "follow c # s"] tail_follow[OF this(2), of 0 c s]
    ultimately show ?thesis
      using 3
      by (simp only: utf8_of_def numeral_2_eq_2 One_nat_def utf8_tail.simps d) auto
  next
    case 4
    have q: "c div 262144 < 8" using assms(2) by simp
    have "getUtf32FromUtf8 (of_nat (0xf0 + c div 262144) # follow (c div 4096) # follow (c div 64) # follow c # s) =
        utf8_tail 3 (of_nat (c div 262144)) (follow (c div 4096) # follow (c div 64) # follow c # s)"
      by (rule get_lead) (use q lead_mod(3)[OF q] in auto)
    moreover have "c div 262144 < 2 ^ 26" "c div 4096 < 2 ^ 26" "c div 64 < 2 ^ 26" using assms(2) by simp_all
    note tail_follow[OF this(1), of 2 "c div 4096" "follow (c div 64) # follow c # s"]
      tail_follow[OF this(2), of 1 "c div 64" "follow c # s"] tail_follow[OF this(3), of 0 c s]
    ultimately show ?thesis
      using 4
      by (simp only: utf8_of_def numeral_3_eq_3 numeral_2_eq_2 One_nat_def utf8_tail.simps d) auto
  qed
qed

lemma utf8_of_unat:
  "unat (hd (utf8_of c)) = (if c < 0x80 then c else if c < 0x800 then 0xc0 + c div 64
     else if c < 0x10000 then 0xe0 + c div 4096 else 0xf0 + c div 262144)"
  if "c < 0x110000"
  unfolding utf8_of_def using that by (auto simp: unat_u8 simp del: of_nat_add)

lemma utf16_units_of:
  assumes "c \<le> 0x10fffd"
  shows "utf16_units (of_nat c) = utf16_of c"
proof -
  have c: "unat (of_nat c :: u32) = c" using assms by (simp add: unat_of_nat)
  show ?thesis
  proof (cases "c < 0x10000")
    case True
    then have "(of_nat c :: u32) \<le> 0xffff" by (simp add: word_le_nat_alt c)
    moreover have "ucast (of_nat c :: u32) = (of_nat c :: u16)" by (metis c of_nat_unat)
    ultimately show ?thesis using True by (simp add: utf16_units_def utf16_of_def)
  next
    case False
    let ?d = "c - 0x10000"
    have le: "\<not> (of_nat c :: u32) \<le> 0xffff" "(of_nat c :: u32) \<le> UNICODE_UPPER_LIMIT"
      using False assms by (simp_all add: word_le_nat_alt c UNICODE_UPPER_LIMIT_def)
    have sub: "of_nat c - 0x10000 = (of_nat ?d :: u32)" using False by (simp add: of_nat_diff)
    have d: "unat (of_nat ?d :: u32) = ?d" using assms by (simp add: unat_of_nat)
    have q: "?d div 1024 < 1024" using assms by simp
    have "unat (0xd800 OR ucast (drop_bit 10 (of_nat ?d :: u32)) :: u16) = 0xd800 + ?d div 1024"
      using q by (simp add: unsigned_or_eq unsigned_ucast_eq unat_drop d or_lead take_bit_nat_eq_self)
    moreover have "unat (0xdc00 OR ucast (of_nat ?d AND 0x3ff :: u32) :: u16) = 0xdc00 + ?d mod 1024"
      by (simp add: unsigned_or_eq unsigned_ucast_eq unsigned_and_eq d or_lead and_low take_mod take_bit_nat_eq_self)
    ultimately show ?thesis
      using False le unfolding utf16_units_def utf16_of_def sub by (simp add: word_of_unat del: of_nat_add)
  qed
qed

section \<open>Well-formed text\<close>

lemma utf8_of_bytes:
  assumes "0 < c" "c < 0x110000"
  shows "byte_at (utf8_of c @ s) \<noteq> 0"
proof -
  have "unat (hd (utf8_of c)) \<noteq> 0" using assms by (simp add: utf8_of_unat)
  then have "hd (utf8_of c) \<noteq> 0" by (metis unat_0)
  moreover have "utf8_of c \<noteq> []" by (simp add: utf8_of_def)
  ultimately show ?thesis by (cases "utf8_of c") simp_all
qed

lemma strcpy_utf8_of:
  assumes "0 < c" "c \<le> 0x10fffd"
  shows "strcpy8to16 (utf8_of c @ s) = utf16_of c @ strcpy8to16 s"
  using assms utf8_of_bytes[of c s] by (subst strcpy8to16.simps) (simp add: get_utf8_of utf16_units_of)

lemma strlen_follow:
  "0 < e \<Longrightarrow> strlen_loop (follow k # s) n e = strlen_loop s n (e - 1)"
  by (simp add: Let_def)

lemma strlen_lead:
  assumes "L < 256" "L \<noteq> 0" "L < 0x80 \<or> 0xc0 \<le> L"
    and "e' = (if L < 0xc0 then 0 else if L < 0xe0 then 1 else if L < 0xf0 then 2 else 3)"
  shows "strlen_loop (of_nat L # s) n e = strlen_loop s (if e' = 3 then n + 2 else n + 1) e'"
proof -
  have L: "unat (of_nat L :: u8) = L" using assms(1) by (rule unat_u8)
  then have "(of_nat L :: u8) \<noteq> 0" using assms(2) by (metis unat_0)
  moreover have "(of_nat L :: u8) AND 0xc0 \<noteq> 0x80"
    using assms(1,3) unfolding follower_iff L by auto
  moreover have "int (UTF8_SEQ_LENGTH (of_nat L)) - 1 = e'" by (simp add: seq_length_eq L assms(4))
  ultimately show ?thesis by (simp only: strlen_loop.simps Let_def if_False)
qed

lemma strlen_utf8_of:
  assumes "0 < c" "c < 0x110000"
  shows "strlen_loop (utf8_of c @ s) n e = strlen_loop s (n + length (utf16_of c)) 0"
proof -
  consider "c < 0x80" | "0x80 \<le> c" "c < 0x800" | "0x800 \<le> c" "c < 0x10000" | "0x10000 \<le> c"
    by linarith
  then show ?thesis
  proof cases
    case 1
    have "strlen_loop (of_nat c # s) n e = strlen_loop s (n + 1) 0"
      by (subst strlen_lead[where e' = 0]) (use 1 assms in auto)
    then show ?thesis using 1 by (simp add: utf8_of_def utf16_of_def)
  next
    case 2
    have "strlen_loop (of_nat (0xc0 + c div 64) # follow c # s) n e = strlen_loop (follow c # s) (n + 1) 1"
      by (subst strlen_lead[where e' = 1]) (use 2 in auto)
    then show ?thesis using 2 by (simp only: utf8_of_def utf16_of_def strlen_follow) simp
  next
    case 3
    have "strlen_loop (of_nat (0xe0 + c div 4096) # follow (c div 64) # follow c # s) n e =
        strlen_loop (follow (c div 64) # follow c # s) (n + 1) 2"
      by (subst strlen_lead[where e' = 2]) (use 3 in auto)
    then show ?thesis using 3 by (simp only: utf8_of_def utf16_of_def strlen_follow) simp
  next
    case 4
    have "strlen_loop (of_nat (0xf0 + c div 262144) # follow (c div 4096) # follow (c div 64) # follow c # s) n e =
        strlen_loop (follow (c div 4096) # follow (c div 64) # follow c # s) (n + 2) 3"
      by (subst strlen_lead[where e' = 3]) (use assms(2) in auto)
    then show ?thesis using 4 by (simp only: utf8_of_def utf16_of_def strlen_follow) simp
  qed
qed

lemma strcpy_Nil [simp]: "strcpy8to16 [] = []"
  by (simp add: strcpy8to16.simps)

lemma strlen_text:
  assumes "\<forall>c \<in> set cs. 0 < c \<and> c < 0x110000"
  shows "strlen_loop (concat (map utf8_of cs)) n e = n + length (concat (map utf16_of cs))"
  using assms by (induction cs arbitrary: n e) (simp_all add: strlen_utf8_of)

text \<open>
  Text whose characters are encoded in UTF-8 as the standard says, up to U+10FFFD, becomes the
  same text in UTF-16, and the length computed beforehand is exact.
\<close>

theorem utf8_text_converted:
  assumes "\<forall>c \<in> set cs. 0 < c \<and> c \<le> 0x10fffd"
  shows "strcpy8to16 (concat (map utf8_of cs)) = concat (map utf16_of cs) \<and>
         strlen8to16 (concat (map utf8_of cs)) = length (strcpy8to16 (concat (map utf8_of cs)))"
proof -
  have "strcpy8to16 (concat (map utf8_of cs)) = concat (map utf16_of cs)"
    using assms by (induction cs) (simp_all add: strcpy_utf8_of)
  moreover have "strlen8to16 (concat (map utf8_of cs)) = length (concat (map utf16_of cs))"
    using assms strlen_text[of cs 0 0] by (force simp: strlen8to16_def)
  ultimately show ?thesis by simp
qed

lemma utf8_text_converted_witness:
  "strcpy8to16 (concat (map utf8_of [0x41, 0xe9, 0x20ac, 0x1f600])) = [0x41, 0xe9, 0x20ac, 0xd83d, 0xde00]"
  using utf8_text_converted[of "[0x41, 0xe9, 0x20ac, 0x1f600]"] by (simp add: utf16_of_def)

section \<open>There and back\<close>

definition enc16 :: "u16 \<Rightarrow> u8 list" where
  "enc16 u = (if u = 0 then [of_nat 0xc0, follow 0] else utf8_of (unat u))"

lemma strncpy_enc: "strncpy_loop (u # s) = enc16 u @ strncpy_loop s"
proof -
  have low: "ucast (w AND 0x3f OR 0x80 :: u16) = follow (unat w)" for w
  proof -
    have "unat (ucast (w AND 0x3f OR 0x80) :: u8) = 0x80 + unat w mod 64"
      by (simp add: unsigned_or_eq unsigned_ucast_eq unsigned_and_eq or_lead and_low take_mod take_bit_nat_eq_self)
    then show ?thesis by (simp only: follow_def) (rule word_of_unat)
  qed
  have u: "unat u < 65536" using unsigned_less[of u] by simp
  have cmp: "u > 0x7ff \<longleftrightarrow> unat u \<ge> 0x800" "u > 0x7f \<longleftrightarrow> unat u \<ge> 0x80" "u = 0 \<longleftrightarrow> unat u = 0"
    by (auto simp: word_less_nat_alt unat_eq_zero)
  have lead3: "ucast (drop_bit 12 u OR 0xe0) = (of_nat (0xe0 + unat u div 4096) :: u8)"
    by (rule word_of_unat) (use u in \<open>simp add: unsigned_or_eq unsigned_ucast_eq unat_drop or_lead take_bit_nat_eq_self\<close>)
  have lead2: "unat u < 0x800 \<Longrightarrow> ucast (drop_bit 6 u OR 0xc0) = (of_nat (0xc0 + unat u div 64) :: u8)"
    by (rule word_of_unat) (simp add: unsigned_or_eq unsigned_ucast_eq unat_drop or_lead take_bit_nat_eq_self)
  have one: "unat u < 0x80 \<Longrightarrow> ucast u = (of_nat (unat u) :: u8)" by simp
  show ?thesis
    using u lead2 one by (auto simp: enc16_def utf8_of_def cmp low lead3 unat_drop)
qed

lemma u16_less: "unat (u :: u16) < 65536"
  using unsigned_less[of u] by simp

lemma utf16_of_unit: "utf16_of (unat u) = [u]" for u :: u16
  using u16_less[of u] by (simp add: utf16_of_def)

lemma get_nul: "getUtf32FromUtf8 (of_nat 0xc0 # follow 0 # s) = (0, s)"
proof -
  have "getUtf32FromUtf8 (of_nat 0xc0 # follow 0 # s) = utf8_tail 1 (of_nat 0) (follow 0 # s)"
    by (rule get_lead) auto
  then show ?thesis using tail_follow[of 0 0 0 s] by simp
qed

lemma strcpy_enc: "strcpy8to16 (enc16 u @ s) = u # strcpy8to16 s"
proof (cases "u = 0")
  case True
  have "byte_at (of_nat 0xc0 # follow 0 # s) \<noteq> 0" by simp
  then have "strcpy8to16 (of_nat 0xc0 # follow 0 # s) = utf16_units 0 @ strcpy8to16 s"
    by (subst strcpy8to16.simps) (simp only: get_nul if_False fst_conv snd_conv)
  then show ?thesis using True by (simp add: enc16_def utf16_units_def)
next
  case False
  then have "0 < unat u" "unat u \<le> 0x10fffd" using u16_less[of u] by (simp_all add: unat_gt_0)
  then show ?thesis using False strcpy_utf8_of[of "unat u" s] by (simp add: enc16_def utf16_of_unit)
qed

text \<open>
  C14: Every UTF-16 string, unpaired surrogates and embedded zeros included, is what its UTF-8 form
  is converted back to.
\<close>

theorem utf16_roundtrip:
  "strcpy8to16 (strncpy16to8 s) = s"
proof -
  have "strcpy8to16 (strncpy_loop s @ [0]) = s"
  proof (induction s)
    case Nil
    show ?case by (simp add: strcpy8to16.simps)
  next
    case (Cons u s)
    then show ?case by (simp only: strncpy_enc strcpy_enc append_assoc)
  qed
  then show ?thesis by (simp add: strncpy16to8_def)
qed

section \<open>Buffer sizes\<close>

lemma tail_value:
  "unat ret < 2 ^ k \<Longrightarrow> k + 6 * n \<le> 16 \<Longrightarrow> unat (fst (utf8_tail n ret s)) < 65536"
proof (induction n ret s arbitrary: k rule: utf8_tail.induct)
  case (1 ret s)
  have "(2 :: nat) ^ k \<le> 2 ^ 16" using "1.prems" by (intro power_increasing) auto
  with "1.prems" show ?case by simp
next
  case (2 n ret s)
  have "(2 :: nat) ^ k \<le> 2 ^ 26" using "2.prems" by (intro power_increasing) auto
  with "2.prems" have "unat (UTF8_SHIFT_AND_MASK ret (byte_at s)) = 64 * unat ret + unat (byte_at s) mod 64"
    by (intro follow_value) simp
  also have "\<dots> < 64 * (unat ret + 1)" using mod_less_divisor[of 64 "unat (byte_at s)"] by simp
  also have "\<dots> \<le> 64 * 2 ^ k" using "2.prems"(1) by simp
  finally have "unat (UTF8_SHIFT_AND_MASK ret (byte_at s)) < 2 ^ (k + 6)" by (simp add: power_add)
  with "2.IH" "2.prems"(2) show ?case by (auto simp: UTF16_REPLACEMENT_CHAR_def)
qed

lemma units_short: "unat r < 65536 \<Longrightarrow> length (utf16_units r) = 1"
  by (simp add: utf16_units_def word_le_nat_alt)

lemma units_le: "length (utf16_units r) \<le> 2"
  by (simp add: utf16_units_def)

lemma strlen_add: "strlen_loop s n e = n + strlen_loop s 0 e"
proof (induction s arbitrary: n e)
  case (Cons b s)
  show ?case
    by (simp add: Let_def Cons.IH[of "Suc n"] Cons.IH[of n] Cons.IH[of "Suc (Suc n)"] Cons.IH[of 1]
        Cons.IH[of "Suc 0"] Cons.IH[of "Suc (Suc 0)"])
qed simp

definition fresh :: "u8 list \<Rightarrow> int \<Rightarrow> bool" where
  "fresh s e \<longleftrightarrow> e \<le> 0 \<or> byte_at s AND 0xc0 \<noteq> 0x80"

lemma tail_fresh:
  "utf8_tail n r t = (c, t') \<Longrightarrow> \<exists>e'. strlen_loop t k (int n) = strlen_loop t' k e' \<and> fresh t' e'"
proof (induction n r t rule: utf8_tail.induct)
  case (2 n r t)
  show ?case
  proof (cases "byte_at t = 0 \<or> byte_at t AND 0xc0 \<noteq> 0x80")
    case True
    then have "t' = t" using "2.prems" by (auto split: if_splits)
    moreover have "byte_at t AND 0xc0 \<noteq> 0x80" using True by auto
    ultimately show ?thesis by (auto simp: fresh_def)
  next
    case False
    then obtain b u where t: "t = b # u" by (cases t) auto
    with False have "strlen_loop t k (int (Suc n)) = strlen_loop u k (int n)" by (simp add: Let_def)
    with "2.IH" "2.prems" False t show ?thesis by auto
  qed
qed (auto simp: fresh_def)

lemma get_fresh:
  assumes "byte_at s \<noteq> 0" "fresh s e" "getUtf32FromUtf8 s = (r, t')"
  shows "\<exists>k e'. strlen_loop s 0 e = k + strlen_loop t' 0 e' \<and> length (utf16_units r) \<le> k \<and> fresh t' e'"
proof -
  obtain b t where s: "s = b # t" "b \<noteq> 0" using assms(1) by (cases s) auto
  show ?thesis
  proof (cases "b AND 0xc0 = 0x80")
    case True
    then have "strlen_loop s 0 e = 1 + strlen_loop t 0 (e - 1)"
      using assms(2) s strlen_add[of t 1 "e - 1"] by (simp add: fresh_def Let_def)
    moreover have "t' = t" "r = UTF16_REPLACEMENT_CHAR"
      using assms(3) s True by (auto simp: getUtf32FromUtf8_def)
    moreover have "length (utf16_units UTF16_REPLACEMENT_CHAR) = 1"
      by (rule units_short) (simp add: UTF16_REPLACEMENT_CHAR_def)
    moreover have "fresh t (e - 1)" using assms(2) True s by (simp add: fresh_def)
    ultimately show ?thesis by (intro exI[of _ 1] exI[of _ "e - 1"]) simp
  next
    case False
    define n where "n = UTF8_SEQ_LENGTH b - 1"
    define r0 where "r0 = (ucast (b AND leaderMask ! n) :: u32)"
    have n: "int (UTF8_SEQ_LENGTH b) - 1 = int n" by (simp add: n_def seq_length_eq)
    have tail: "utf8_tail n r0 t = (r, t')"
      using assms(3) s False by (simp add: getUtf32FromUtf8_def n_def r0_def Let_def)
    let ?k = "if n = 3 then 2 else 1 :: nat"
    obtain e' where e': "strlen_loop t ?k (int n) = strlen_loop t' ?k e'" "fresh t' e'"
      using tail_fresh[OF tail] by blast
    have "strlen_loop s 0 e = strlen_loop t ?k (int n)"
      using s False by (simp add: n Let_def numeral_2_eq_2)
    then have "strlen_loop s 0 e = ?k + strlen_loop t' 0 e'"
      using e'(1) strlen_add[of t' ?k e'] by simp
    moreover have "length (utf16_units r) \<le> ?k"
    proof (cases "n = 3")
      case False
      have n2: "n \<le> 2" using False by (auto simp: n_def seq_length_eq split: if_splits)
      have v: "unat r0 = unat (b AND leaderMask ! n)"
        using u8_less[of "b AND leaderMask ! n"] by (simp add: r0_def unsigned_ucast_eq take_bit_nat_eq_self)
      have "unat (b AND leaderMask ! n) < 2 ^ (16 - 6 * n)"
        using False leader_bits[of b] u8_less[of b] \<open>b AND 0xc0 \<noteq> 0x80\<close>
        by (auto simp: n_def seq_length_eq split: if_splits)
      then have "unat (fst (utf8_tail n r0 t)) < 65536"
        by (intro tail_value[of _ "16 - 6 * n"]) (use n2 in \<open>simp_all add: v\<close>)
      then show ?thesis using units_short tail False by simp
    qed (use units_le in simp)
    ultimately show ?thesis using e'(2) by blast
  qed
qed

lemma strcpy_fits_loop:
  "fresh s e \<Longrightarrow> length (strcpy8to16 s) \<le> strlen_loop s 0 e"
proof (induction s arbitrary: e rule: strcpy8to16.induct)
  case (1 s)
  show ?case
  proof (cases "byte_at s = 0")
    case True
    then show ?thesis by (subst strcpy8to16.simps) simp
  next
    case False
    obtain r t' where get: "getUtf32FromUtf8 s = (r, t')" by fastforce
    obtain k e' where k: "strlen_loop s 0 e = k + strlen_loop t' 0 e'" "length (utf16_units r) \<le> k" "fresh t' e'"
      using get_fresh[OF False "1.prems" get] by blast
    have "length (strcpy8to16 t') \<le> strlen_loop t' 0 e'" using "1.IH"[OF False] get k(3) by simp
    then show ?thesis
      using k(1,2) False get by (subst strcpy8to16.simps) simp
  qed
qed

text \<open>
  Whatever bytes a string holds, malformed sequences included, the conversion to UTF-16 writes
  no more than the length computed to allocate the buffer.
\<close>

theorem utf16_buffer_fits:
  "length (strcpy8to16 s) \<le> strlen8to16 s"
  unfolding strlen8to16_def by (rule strcpy_fits_loop) (simp add: fresh_def)

section \<open>The sizes of UTF-8 buffers\<close>

definition unit_size :: "u16 \<Rightarrow> nat" where
  "unit_size u = length (enc16 u)"

lemma strncpy_length: "length (strncpy_loop s) = sum_list (map unit_size s)"
proof (induction s)
  case (Cons u s)
  then show ?case by (simp only: strncpy_enc unit_size_def length_append list.map sum_list.Cons)
qed simp

lemma unit_size_bounds: "1 \<le> unit_size u" "unit_size u \<le> 3"
  using u16_less[of u] by (simp_all add: unit_size_def enc16_def utf8_of_def)

lemma utf8_size_unat:
  assumes "2 \<le> LENGTH('a::len)"
  shows "unat (utf8_size u :: 'a word) = unit_size u"
proof -
  have "(2 :: nat) ^ 2 \<le> 2 ^ LENGTH('a)" using assms by (intro power_increasing) auto
  then have "unat (3 :: 'a word) = 3" "unat (2 :: 'a word) = 2" "unat (1 :: 'a word) = 1"
    using assms by (simp_all add: unsigned_numeral take_bit_nat_eq_self)
  moreover have "u > 0x7ff \<longleftrightarrow> unat u \<ge> 0x800" "u > 0x7f \<longleftrightarrow> unat u \<ge> 0x80" "u = 0 \<longleftrightarrow> unat u = 0"
    by (auto simp: word_less_nat_alt unat_eq_zero)
  ultimately show ?thesis
    using u16_less[of u] by (auto simp: utf8_size_def unit_size_def enc16_def utf8_of_def)
qed

lemma unat_minus_1: "unat (- 1 :: 'a::len word) = 2 ^ LENGTH('a) - 1"
  by (simp add: unsigned_minus_1_eq_mask mask_eq_exp_minus_1)

lemma unat_minus_2: "2 \<le> LENGTH('a::len) \<Longrightarrow> unat (- 2 :: 'a word) = 2 ^ LENGTH('a) - 2"
proof -
  have "(- 2 :: 'a word) = - 1 - 1" by simp
  then have "unat (- 2 :: 'a word) = unat (- 1 :: 'a word) - unat (1 :: 'a word)"
    by (metis unat_sub word_n1_ge)
  then show ?thesis by (simp add: unat_minus_1)
qed

lemma size_slow_eq:
  assumes "2 \<le> LENGTH('a::len)"
  shows "unat (size_slow s (a :: 'a word)) = min (unat a + sum_list (map unit_size s)) (2 ^ LENGTH('a) - 2)"
proof (induction s arbitrary: a)
  case Nil
  have two: "(2 :: nat) ^ 2 \<le> 2 ^ LENGTH('a)" using assms by (intro power_increasing) auto
  have "a = - 1 \<longleftrightarrow> unat a = 2 ^ LENGTH('a) - 1" by (simp add: word_unat_eq_iff unat_minus_1)
  moreover have "unat a < 2 ^ LENGTH('a)" by (rule unsigned_less)
  ultimately have "a = - 1 \<and> unat a = 2 ^ LENGTH('a) - 1 \<or> a \<noteq> - 1 \<and> unat a \<le> 2 ^ LENGTH('a) - 2"
    by linarith
  then show ?case
  proof
    assume a: "a = - 1 \<and> unat a = 2 ^ LENGTH('a) - 1"
    then have "unat (size_slow [] a) = 2 ^ LENGTH('a) - 2" using unat_minus_2[OF assms] by simp
    moreover have "unat a = 2 ^ LENGTH('a) - 1" using a by (rule conjunct2)
    ultimately show ?thesis by simp
  qed simp
next
  case (Cons u s)
  have two: "(2 :: nat) ^ 2 \<le> 2 ^ LENGTH('a)" using assms by (intro power_increasing) auto
  have a: "unat a < 2 ^ LENGTH('a)" by (rule unsigned_less)
  have u: "unat (utf8_size u :: 'a word) = unit_size u" by (rule utf8_size_unat[OF assms])
  show ?case
  proof (cases "unat a + unit_size u < 2 ^ LENGTH('a)")
    case True
    then have "unat (a + utf8_size u) = unat a + unit_size u" by (simp add: unat_plus_if' u)
    then show ?thesis using Cons[of "a + utf8_size u"] by (simp add: Let_def word_less_nat_alt add.assoc)
  next
    case False
    then have "unat (a + utf8_size u) < unat a"
      using a two unit_size_bounds[of u] by (simp add: unat_plus_if' u)
    then have "size_slow (u # s) a = - 2" by (simp add: Let_def word_less_nat_alt)
    moreover have "2 ^ LENGTH('a) - 2 \<le> unat a + (unit_size u + sum_list (map unit_size s))" using False by simp
    ultimately show ?thesis using unat_minus_2[OF assms] by simp
  qed
qed

lemma size_fast_eq:
  assumes "2 \<le> LENGTH('a::len)" "unat a + sum_list (map unit_size s) < 2 ^ LENGTH('a)"
  shows "unat (size_fast s (a :: 'a word)) = unat a + sum_list (map unit_size s)"
  using assms(2)
proof (induction s arbitrary: a)
  case (Cons u s)
  have "unat (a + utf8_size u) = unat a + unit_size u"
    using Cons.prems by (simp add: unat_plus_if' utf8_size_unat[OF assms(1)])
  with Cons show ?case by simp
qed simp

lemma sum_unit_size: "sum_list (map unit_size s) \<le> 3 * length s"
proof (induction s)
  case (Cons u s)
  then show ?case using unit_size_bounds(2)[of u] by simp
qed simp

lemma strnlen_eq:
  assumes "2 \<le> LENGTH('a::len)" "length s < 2 ^ LENGTH('a)"
  shows "unat (strnlen16to8 s :: 'a word) = min (length (strncpy_loop s)) (2 ^ LENGTH('a) - 2)"
proof (cases "(of_nat (length s) :: 'a word) < (- 2) div 3")
  case True
  have two: "(2 :: nat) ^ 2 \<le> 2 ^ LENGTH('a)" using assms(1) by (intro power_increasing) auto
  have "unat (3 :: 'a word) = 3" using two by (simp add: unsigned_numeral take_bit_nat_eq_self)
  then have "unat ((- 2 :: 'a word) div 3) = (2 ^ LENGTH('a) - 2) div 3"
    by (simp only: unat_div unat_minus_2[OF assms(1)])
  moreover have "unat (of_nat (length s) :: 'a word) = length s" using assms(2) by (simp add: unat_of_nat)
  ultimately have "length s < (2 ^ LENGTH('a) - 2) div 3" using True by (metis word_less_nat_alt)
  then have "3 * length s < 2 ^ LENGTH('a) - 2" by linarith
  then have "sum_list (map unit_size s) < 2 ^ LENGTH('a) - 2" using sum_unit_size[of s] by linarith
  then show ?thesis
    using True size_fast_eq[OF assms(1), of 0 s] by (simp add: strnlen16to8_def strncpy_length)
next
  case False
  then show ?thesis using size_slow_eq[OF assms(1), of s 0] by (simp add: strnlen16to8_def strncpy_length)
qed

text \<open>
  The size computed for a UTF-8 buffer is the number of bytes that will be written, or the
  second largest number of its type when that is too large to count; and a buffer that is handed
  out is filled to its last byte, the terminating zero.
\<close>

theorem utf8_buffer_exact:
  assumes "2 \<le> LENGTH('a::len)" "length s < 2 ^ LENGTH('a)"
  shows "unat (strnlen16to8 s :: 'a word) = min (length (strncpy_loop s)) (2 ^ LENGTH('a) - 2) \<and>
         (strndup16to8 TYPE('a) mem (Some s) =
            (if length (strncpy_loop s) < 2 ^ LENGTH('a) - 2 \<and> mem then Some (strncpy16to8 s) else None)) \<and>
         length (strncpy16to8 s) = length (strncpy_loop s) + 1"
proof -
  have len: "unat (strnlen16to8 s :: 'a word) = min (length (strncpy_loop s)) (2 ^ LENGTH('a) - 2)"
    by (rule strnlen_eq[OF assms])
  then have "(strnlen16to8 s :: 'a word) \<ge> - 2 \<longleftrightarrow> length (strncpy_loop s) \<ge> 2 ^ LENGTH('a) - 2"
    by (simp only: word_le_nat_alt unat_minus_2[OF assms(1)]) simp
  then show ?thesis
    using len by (simp only: strndup16to8_def option.case Let_def) (auto simp: strncpy16to8_def)
qed

lemma utf8_buffer_exact_witness:
  "unat (strnlen16to8 [0x20ac, 0, 0x41] :: 32 word) = 6 \<and>
   unat (strnlen16to8 [0x20ac, 0x20ac] :: 3 word) = 6"
proof -
  have "length (strncpy_loop [0x20ac, 0, 0x41]) = 6" "length (strncpy_loop [0x20ac, 0x20ac]) = 6"
    by simp_all
  then show ?thesis
    using utf8_buffer_exact[of "[0x20ac, 0, 0x41]" True, where 'a = 32]
      utf8_buffer_exact[of "[0x20ac, 0x20ac]" True, where 'a = 3]
    by (simp only:) simp
qed

section \<open>The loop that stops at an address\<close>

lemma get_drop:
  assumes "byte_at s \<noteq> 0" "getUtf32FromUtf8 s = (r, s')"
  shows "\<exists>k > 0. s' = drop k s \<and> k \<le> length s \<and> 0 \<notin> set (take k s)"
proof -
  obtain b t where s: "s = b # t" "b \<noteq> 0" using assms(1) by (cases s) auto
  have tail: "\<exists>k. snd (utf8_tail n r0 t) = drop k t \<and> k \<le> length t \<and> 0 \<notin> set (take k t)" for n r0 t
  proof (induction n r0 t rule: utf8_tail.induct)
    case (2 n r0 t)
    show ?case
    proof (cases "byte_at t = 0 \<or> byte_at t AND 0xc0 \<noteq> 0x80")
      case False
      then obtain b u where t: "t = b # u" "b \<noteq> 0" by (cases t) auto
      from 2 False obtain k where "snd (utf8_tail n (UTF8_SHIFT_AND_MASK r0 (byte_at t)) (tl t)) = drop k (tl t)"
          "k \<le> length (tl t)" "0 \<notin> set (take k (tl t))"
        by auto
      then show ?thesis using t False by (intro exI[of _ "Suc k"]) auto
    qed (auto intro: exI[of _ 0])
  qed (auto intro: exI[of _ 0])
  show ?thesis
  proof (cases "b AND 0xc0 = 0x80")
    case True
    then have "s' = t" using assms(2) s by (simp add: getUtf32FromUtf8_def)
    then show ?thesis using s by (intro exI[of _ 1]) auto
  next
    case False
    then have "s' = snd (utf8_tail (UTF8_SEQ_LENGTH b - 1) (ucast (b AND leaderMask ! (UTF8_SEQ_LENGTH b - 1))) t)"
      using assms(2) s by (simp add: getUtf32FromUtf8_def Let_def)
    with tail obtain k where "s' = drop k t" "k \<le> length t" "0 \<notin> set (take k t)" by metis
    then show ?thesis using s by (intro exI[of _ "Suc k"]) auto
  qed
qed

lemma cpylen_stuck:
  assumes "byte_at s = 0" "left > 0"
  shows "cpylen_loop left s = None"
proof -
  have "utf16_units 0 = [0]" by (simp add: utf16_units_def)
  moreover have "getUtf32FromUtf8 s = (0, s)"
    using assms(1) by (simp add: getUtf32FromUtf8_def Let_def)
  ultimately have "cpylen_loop left s = Option.bind (cpylen_loop left s) (\<lambda>units. Some (0 # units))"
    using assms(2) by (subst cpylen_loop.simps) simp
  then show ?thesis by (cases "cpylen_loop left s") auto
qed

definition no_nul_before :: "int \<Rightarrow> u8 list \<Rightarrow> bool" where
  "no_nul_before left s \<longleftrightarrow> nat left \<le> length s \<and> 0 \<notin> set (take (nat left) s)"

lemma no_nul_drop:
  assumes "k \<le> length s" "0 \<notin> set (take k s)"
  shows "no_nul_before (left - int k) (drop k s) \<longleftrightarrow> no_nul_before left s"
proof (cases "left \<le> int k")
  case True
  then have "set (take (nat left) s) \<subseteq> set (take k s)" by (intro set_take_subset_set_take) simp
  with True assms show ?thesis by (auto simp: no_nul_before_def)
next
  case False
  then have n: "nat left = k + nat (left - int k)" by simp
  have "take (nat left) s = take k s @ take (nat (left - int k)) (drop k s)"
    unfolding n by (rule take_add)
  with False assms n show ?thesis by (auto simp: no_nul_before_def)
qed

text \<open>
  C40: The conversion of a given number of bytes ends exactly when none of them is zero: a zero
  within the length is never stepped over, and the loop writes zeros for ever.
\<close>

theorem strcpylen_ends_iff_no_nul:
  "strcpylen8to16 s n \<noteq> None \<longleftrightarrow> nat n \<le> length s \<and> 0 \<notin> set (take (nat n) s)"
proof -
  have "cpylen_loop n s \<noteq> None \<longleftrightarrow> no_nul_before n s"
  proof (induction "length s" arbitrary: n s rule: less_induct)
    case less
    show ?case
    proof (cases "n > 0")
      case False
      then show ?thesis by (subst cpylen_loop.simps) (simp add: no_nul_before_def)
    next
      case True
      show ?thesis
      proof (cases "byte_at s = 0")
        case True
        with \<open>n > 0\<close> have "\<not> no_nul_before n s"
          by (cases s) (auto simp: no_nul_before_def take_Cons')
        with cpylen_stuck[OF True \<open>n > 0\<close>] show ?thesis by simp
      next
        case False
        obtain r s' where get: "getUtf32FromUtf8 s = (r, s')" by fastforce
        obtain k where k: "k > 0" "s' = drop k s" "k \<le> length s" "0 \<notin> set (take k s)"
          using get_drop[OF False get] by blast
        have "length s - length s' = k" "length s' < length s" using k by simp_all
        then have "cpylen_loop n s \<noteq> None \<longleftrightarrow> cpylen_loop (n - int k) s' \<noteq> None"
          using \<open>n > 0\<close> get by (subst cpylen_loop.simps) (cases "cpylen_loop (n - int k) s'", simp_all)
        also have "\<dots> \<longleftrightarrow> no_nul_before (n - int k) s'" by (rule less) fact
        finally show ?thesis using no_nul_drop[OF k(3,4)] k(2) by simp
      qed
    qed
  qed
  then show ?thesis by (simp add: strcpylen8to16_def no_nul_before_def)
qed

end
