(* ===== verification/Location_Api.thy ===== *)
theory Location_Api
  imports Std_Map Location_Types
begin

text \<open>
  \<open>gps/location/LocationAPI.cpp\<close>: the entry points of the location API. They load the interfaces
  of the GNSS, the batching and the geofence library when a client first needs them, register the
  clients there, and route every request to the library that serves it.

  The three libraries are treated alike by the code, in three copies of the same lines, and are one
  index here. A callback is a pointer, null when it is not given. The mutex makes every call one
  step. The calls to the libraries are logged in \<open>api_calls\<close>; arrays are passed on as pointers.
\<close>

section \<open>State\<close>

datatype iface = GNSS | FLP | GEOFENCE

record api_callbacks =
  capabilitiesCb :: ptr
  responseCb :: ptr
  collectiveResponseCb :: ptr
  trackingCb :: ptr
  batchingCb :: ptr
  geofenceBreachCb :: ptr
  geofenceStatusCb :: ptr
  gnssLocationInfoCb :: ptr
  gnssNiCb :: ptr
  gnssSvCb :: ptr
  gnssNmeaCb :: ptr
  gnssMeasurementsCb :: ptr
  batchingStatusCb :: ptr

record control_callbacks =
  ctl_responseCb :: ptr
  ctl_collectiveResponseCb :: ptr

record BatchingOptions =
  bo_size :: nat
  bo_batchingMode :: BatchingMode

datatype api_call =
    LoadInterface iface
  | Initialize iface
  | AddClient iface ptr api_callbacks
  | RemoveClient iface ptr
  | RequestCapabilities iface ptr
  | StartTracking iface ptr LocationOptions
  | StopTracking iface ptr u32
  | UpdateTrackingOptions iface ptr u32 LocationOptions
  | StartBatching ptr LocationOptions BatchingOptions
  | StopBatching ptr u32
  | UpdateBatchingOptions ptr u32 LocationOptions BatchingOptions
  | GetBatchedLocations ptr u32 nat
  | AddGeofences ptr nat ptr ptr
  | RemoveGeofences ptr nat ptr
  | ModifyGeofences ptr nat ptr ptr
  | PauseGeofences ptr nat ptr
  | ResumeGeofences ptr nat ptr
  | GnssNiResponse ptr u32 nat
  | SetControlCallbacks control_callbacks
  | Enable nat
  | Disable u32
  | GnssUpdateConfig ptr
  | GnssDeleteAidingData ptr

record api_data =
  clientData :: "(ptr, api_callbacks) std_map"
  controlAPI :: ptr
  controlCallbacks :: "control_callbacks option"
  loaded :: "iface \<Rightarrow> bool"
  loadFailed :: "iface \<Rightarrow> bool"
  api_calls :: "api_call list"

definition api_data_new :: api_data where
  "api_data_new =
     \<lparr>clientData = [], controlAPI = NULL, controlCallbacks = None, loaded = (\<lambda>_. False),
      loadFailed = (\<lambda>_. False), api_calls = []\<rparr>"

text \<open>The libraries: whether one can be loaded, and what a call returns, an id or an array.\<close>

record api_env =
  loads :: "api_call list \<Rightarrow> iface \<Rightarrow> bool"
  returned_id :: "(api_call, u32) world"
  returned_ids :: "(api_call, ptr) world"

definition api_call :: "api_call \<Rightarrow> api_data \<Rightarrow> api_data" where
  "api_call c st = st\<lparr>api_calls := api_calls st @ [c]\<rparr>"

section \<open>Which libraries a client needs\<close>

definition needsGnssTrackingInfo :: "api_callbacks \<Rightarrow> bool" where
  "needsGnssTrackingInfo cb \<longleftrightarrow>
     gnssLocationInfoCb cb \<noteq> NULL \<or> gnssSvCb cb \<noteq> NULL \<or> gnssNmeaCb cb \<noteq> NULL \<or> gnssMeasurementsCb cb \<noteq> NULL"

definition isGnssClient :: "api_callbacks \<Rightarrow> bool" where
  "isGnssClient cb \<longleftrightarrow> gnssNiCb cb \<noteq> NULL \<or> trackingCb cb \<noteq> NULL \<or> gnssMeasurementsCb cb \<noteq> NULL"

definition isFlpClient :: "api_callbacks \<Rightarrow> bool" where
  "isFlpClient cb \<longleftrightarrow> trackingCb cb \<noteq> NULL \<or> batchingCb cb \<noteq> NULL"

definition isGeofenceClient :: "api_callbacks \<Rightarrow> bool" where
  "isGeofenceClient cb \<longleftrightarrow> geofenceBreachCb cb \<noteq> NULL \<or> geofenceStatusCb cb \<noteq> NULL"

primrec is_client :: "iface \<Rightarrow> api_callbacks \<Rightarrow> bool" where
  "is_client GNSS cb = isGnssClient cb"
| "is_client FLP cb = isFlpClient cb"
| "is_client GEOFENCE cb = isGeofenceClient cb"

definition mandatory :: "api_callbacks \<Rightarrow> bool" where
  "mandatory cb \<longleftrightarrow> capabilitiesCb cb \<noteq> NULL \<and> responseCb cb \<noteq> NULL \<and> collectiveResponseCb cb \<noteq> NULL"

section \<open>Clients\<close>

definition load_interface :: "api_env \<Rightarrow> iface \<Rightarrow> api_data \<Rightarrow> api_data" where
  "load_interface env i st =
     (if \<not> loaded st i \<and> \<not> loadFailed st i
      then
        (let ok = loads env (api_calls st) i;
             st = api_call (LoadInterface i) st
         in if \<not> ok then st\<lparr>loadFailed := (loadFailed st)(i := True)\<rparr>
            else api_call (Initialize i) (st\<lparr>loaded := (loaded st)(i := True)\<rparr>))
      else st)"

definition create_on ::
  "api_env \<Rightarrow> ptr \<Rightarrow> api_callbacks \<Rightarrow> iface \<Rightarrow> bool \<times> api_data \<Rightarrow> bool \<times> api_data" where
  "create_on env p cb i s =
     (let (requestedCapabilities, st) = s
      in if is_client i cb
         then
           (let st = load_interface env i st
            in if loaded st i
               then
                 (let st = api_call (AddClient i p cb) st
                  in if \<not> requestedCapabilities then (True, api_call (RequestCapabilities i p) st)
                     else (requestedCapabilities, st))
               else (requestedCapabilities, st))
         else (requestedCapabilities, st))"

text \<open>\<open>p\<close> is the address of the new object.\<close>

definition createInstance :: "api_env \<Rightarrow> ptr \<Rightarrow> api_callbacks \<Rightarrow> api_data \<Rightarrow> ptr \<times> api_data" where
  "createInstance env p cb st =
     (if \<not> mandatory cb then (NULL, st)
      else
        (let st = snd (create_on env p cb GEOFENCE (create_on env p cb FLP (create_on env p cb GNSS (False, st))))
         in (p, st\<lparr>clientData := map_put p cb (clientData st)\<rparr>)))"

definition remove_on :: "ptr \<Rightarrow> api_callbacks \<Rightarrow> iface \<Rightarrow> api_data \<Rightarrow> api_data" where
  "remove_on p cb i st = (if is_client i cb \<and> loaded st i then api_call (RemoveClient i p) st else st)"

definition destroy :: "ptr \<Rightarrow> api_data \<Rightarrow> api_data" where
  "destroy this st =
     (case map_of (clientData st) this of
        Some cb \<Rightarrow>
          (let st = remove_on this cb GEOFENCE (remove_on this cb FLP (remove_on this cb GNSS st))
           in st\<lparr>clientData := map_erase this (clientData st)\<rparr>)
      | None \<Rightarrow> st)"

definition update_on :: "api_env \<Rightarrow> ptr \<Rightarrow> api_callbacks \<Rightarrow> iface \<Rightarrow> api_data \<Rightarrow> api_data" where
  "update_on env this cb i st =
     (if is_client i cb
      then
        (let st = load_interface env i st
         in if loaded st i then api_call (AddClient i this cb) st else st)
      else st)"

definition updateCallbacks :: "api_env \<Rightarrow> ptr \<Rightarrow> api_callbacks \<Rightarrow> api_data \<Rightarrow> api_data" where
  "updateCallbacks env this cb st =
     (if \<not> mandatory cb then st
      else
        (let st = update_on env this cb GEOFENCE (update_on env this cb FLP (update_on env this cb GNSS st))
         in st\<lparr>clientData := map_put this cb (clientData st)\<rparr>))"

section \<open>Tracking\<close>

definition call_id :: "api_env \<Rightarrow> api_call \<Rightarrow> api_data \<Rightarrow> u32 \<times> api_data" where
  "call_id env c st = (returned_id env (api_calls st) c, api_call c st)"

definition api_startTracking :: "api_env \<Rightarrow> ptr \<Rightarrow> LocationOptions \<Rightarrow> api_data \<Rightarrow> u32 \<times> api_data" where
  "api_startTracking env this opts st =
     (case map_of (clientData st) this of
        Some cb \<Rightarrow>
          if loaded st FLP \<and> minDistance opts > 0 then call_id env (StartTracking FLP this opts) st
          else if loaded st GNSS \<and> needsGnssTrackingInfo cb then call_id env (StartTracking GNSS this opts) st
          else if loaded st FLP then call_id env (StartTracking FLP this opts) st
          else if loaded st GNSS then call_id env (StartTracking GNSS this opts) st
          else (0, st)
      | None \<Rightarrow> (0, st))"

definition if_loaded :: "iface \<Rightarrow> api_call \<Rightarrow> api_data \<Rightarrow> api_data" where
  "if_loaded i c st = (if loaded st i then api_call c st else st)"

definition api_stopTracking :: "ptr \<Rightarrow> u32 \<Rightarrow> api_data \<Rightarrow> api_data" where
  "api_stopTracking this n st =
     (case map_of (clientData st) this of
        Some cb \<Rightarrow> if_loaded FLP (StopTracking FLP this n) (if_loaded GNSS (StopTracking GNSS this n) st)
      | None \<Rightarrow> st)"

definition updateTrackingOptions :: "ptr \<Rightarrow> u32 \<Rightarrow> LocationOptions \<Rightarrow> api_data \<Rightarrow> api_data" where
  "updateTrackingOptions this n opts st =
     (case map_of (clientData st) this of
        Some cb \<Rightarrow> if_loaded FLP (UpdateTrackingOptions FLP this n opts)
                     (if_loaded GNSS (UpdateTrackingOptions GNSS this n opts) st)
      | None \<Rightarrow> st)"

section \<open>Batching, geofences and network-initiated requests\<close>

definition startBatching :: "api_env \<Rightarrow> ptr \<Rightarrow> LocationOptions \<Rightarrow> BatchingOptions \<Rightarrow> api_data \<Rightarrow> u32 \<times> api_data" where
  "startBatching env this opts batch st =
     (if loaded st FLP then call_id env (StartBatching this opts batch) st else (0, st))"

definition stopBatching :: "ptr \<Rightarrow> u32 \<Rightarrow> api_data \<Rightarrow> api_data" where
  "stopBatching this n st = if_loaded FLP (StopBatching this n) st"

definition updateBatchingOptions :: "ptr \<Rightarrow> u32 \<Rightarrow> LocationOptions \<Rightarrow> BatchingOptions \<Rightarrow> api_data \<Rightarrow> api_data" where
  "updateBatchingOptions this n opts batch st = if_loaded FLP (UpdateBatchingOptions this n opts batch) st"

definition getBatchedLocations :: "ptr \<Rightarrow> u32 \<Rightarrow> nat \<Rightarrow> api_data \<Rightarrow> api_data" where
  "getBatchedLocations this n n_fences st = if_loaded FLP (GetBatchedLocations this n n_fences) st"

definition addGeofences :: "api_env \<Rightarrow> ptr \<Rightarrow> nat \<Rightarrow> ptr \<Rightarrow> ptr \<Rightarrow> api_data \<Rightarrow> ptr \<times> api_data" where
  "addGeofences env this n_fences options info st =
     (if loaded st GEOFENCE
      then (returned_ids env (api_calls st) (AddGeofences this n_fences options info),
            api_call (AddGeofences this n_fences options info) st)
      else (NULL, st))"

definition removeGeofences :: "ptr \<Rightarrow> nat \<Rightarrow> ptr \<Rightarrow> api_data \<Rightarrow> api_data" where
  "removeGeofences this n_fences ids st = if_loaded GEOFENCE (RemoveGeofences this n_fences ids) st"

definition modifyGeofences :: "ptr \<Rightarrow> nat \<Rightarrow> ptr \<Rightarrow> ptr \<Rightarrow> api_data \<Rightarrow> api_data" where
  "modifyGeofences this n_fences ids options st = if_loaded GEOFENCE (ModifyGeofences this n_fences ids options) st"

definition pauseGeofences :: "ptr \<Rightarrow> nat \<Rightarrow> ptr \<Rightarrow> api_data \<Rightarrow> api_data" where
  "pauseGeofences this n_fences ids st = if_loaded GEOFENCE (PauseGeofences this n_fences ids) st"

definition resumeGeofences :: "ptr \<Rightarrow> nat \<Rightarrow> ptr \<Rightarrow> api_data \<Rightarrow> api_data" where
  "resumeGeofences this n_fences ids st = if_loaded GEOFENCE (ResumeGeofences this n_fences ids) st"

definition gnssNiResponse :: "ptr \<Rightarrow> u32 \<Rightarrow> nat \<Rightarrow> api_data \<Rightarrow> api_data" where
  "gnssNiResponse this n response st = if_loaded GNSS (GnssNiResponse this n response) st"

section \<open>The control API\<close>

definition control_createInstance ::
  "api_env \<Rightarrow> ptr \<Rightarrow> control_callbacks \<Rightarrow> api_data \<Rightarrow> ptr \<times> api_data" where
  "control_createInstance env p cb st =
     (if ctl_responseCb cb \<noteq> NULL \<and> controlAPI st = NULL
      then
        (let st = load_interface env GNSS st
         in if loaded st GNSS
            then (p, api_call (SetControlCallbacks cb) (st\<lparr>controlAPI := p, controlCallbacks := Some cb\<rparr>))
            else (NULL, st))
      else (NULL, st))"

definition control_destroy :: "api_data \<Rightarrow> api_data" where
  "control_destroy st = st\<lparr>controlAPI := NULL\<rparr>"

definition control_enable :: "api_env \<Rightarrow> nat \<Rightarrow> api_data \<Rightarrow> u32 \<times> api_data" where
  "control_enable env techType st = (if loaded st GNSS then call_id env (Enable techType) st else (0, st))"

definition control_disable :: "u32 \<Rightarrow> api_data \<Rightarrow> api_data" where
  "control_disable n st = if_loaded GNSS (Disable n) st"

definition control_gnssUpdateConfig :: "api_env \<Rightarrow> ptr \<Rightarrow> api_data \<Rightarrow> ptr \<times> api_data" where
  "control_gnssUpdateConfig env config st =
     (if loaded st GNSS
      then (returned_ids env (api_calls st) (GnssUpdateConfig config), api_call (GnssUpdateConfig config) st)
      else (NULL, st))"

definition control_gnssDeleteAidingData :: "api_env \<Rightarrow> ptr \<Rightarrow> api_data \<Rightarrow> u32 \<times> api_data" where
  "control_gnssDeleteAidingData env data st =
     (if loaded st GNSS then call_id env (GnssDeleteAidingData data) st else (0, st))"

section \<open>Runs\<close>

datatype api_event =
    ApiCreate ptr api_callbacks
  | ApiDestroy ptr
  | ApiUpdateCallbacks ptr api_callbacks
  | ApiStartTracking ptr LocationOptions
  | ApiStopTracking ptr u32
  | ApiUpdateTracking ptr u32 LocationOptions
  | ApiStartBatching ptr LocationOptions BatchingOptions
  | ApiStopBatching ptr u32
  | ApiUpdateBatching ptr u32 LocationOptions BatchingOptions
  | ApiGetBatched ptr u32 nat
  | ApiAddGeofences ptr nat ptr ptr
  | ApiRemoveGeofences ptr nat ptr
  | ApiModifyGeofences ptr nat ptr ptr
  | ApiPauseGeofences ptr nat ptr
  | ApiResumeGeofences ptr nat ptr
  | ApiNiResponse ptr u32 nat
  | CtlCreate ptr control_callbacks
  | CtlDestroy
  | CtlEnable nat
  | CtlDisable u32
  | CtlUpdateConfig ptr
  | CtlDeleteAidingData ptr

fun api_step :: "api_env \<Rightarrow> api_event \<Rightarrow> api_data \<Rightarrow> api_data" where
  "api_step env (ApiCreate p cb) st = snd (createInstance env p cb st)"
| "api_step env (ApiDestroy p) st = destroy p st"
| "api_step env (ApiUpdateCallbacks p cb) st = updateCallbacks env p cb st"
| "api_step env (ApiStartTracking p opts) st = snd (api_startTracking env p opts st)"
| "api_step env (ApiStopTracking p n) st = api_stopTracking p n st"
| "api_step env (ApiUpdateTracking p n opts) st = updateTrackingOptions p n opts st"
| "api_step env (ApiStartBatching p opts b) st = snd (startBatching env p opts b st)"
| "api_step env (ApiStopBatching p n) st = stopBatching p n st"
| "api_step env (ApiUpdateBatching p n opts b) st = updateBatchingOptions p n opts b st"
| "api_step env (ApiGetBatched p n k) st = getBatchedLocations p n k st"
| "api_step env (ApiAddGeofences p k q r) st = snd (addGeofences env p k q r st)"
| "api_step env (ApiRemoveGeofences p k q) st = removeGeofences p k q st"
| "api_step env (ApiModifyGeofences p k q r) st = modifyGeofences p k q r st"
| "api_step env (ApiPauseGeofences p k q) st = pauseGeofences p k q st"
| "api_step env (ApiResumeGeofences p k q) st = resumeGeofences p k q st"
| "api_step env (ApiNiResponse p n r) st = gnssNiResponse p n r st"
| "api_step env (CtlCreate p cb) st = snd (control_createInstance env p cb st)"
| "api_step env CtlDestroy st = control_destroy st"
| "api_step env (CtlEnable t) st = snd (control_enable env t st)"
| "api_step env (CtlDisable n) st = control_disable n st"
| "api_step env (CtlUpdateConfig p) st = snd (control_gnssUpdateConfig env p st)"
| "api_step env (CtlDeleteAidingData p) st = snd (control_gnssDeleteAidingData env p st)"

fun api_run :: "api_env \<Rightarrow> api_event list \<Rightarrow> api_data \<Rightarrow> api_data" where
  "api_run env [] st = st"
| "api_run env (e # es) st = api_run env es (api_step env e st)"

end
