(* ===== verification/Api_Proofs.thy ===== *)
theory Api_Proofs
  imports Location_Api
begin

text \<open>
  What holds of the location API: each library is loaded once and initialised before anything else
  is asked of it, it knows exactly the live clients that need it as long as no client gives up a
  kind of callback, and a session is stopped where it was started.
\<close>

section \<open>What the libraries have seen\<close>

text \<open>The clients a library has, and the callbacks it last got for each.\<close>

fun reg_step :: "iface \<Rightarrow> (ptr \<rightharpoonup> api_callbacks) \<Rightarrow> api_call \<Rightarrow> (ptr \<rightharpoonup> api_callbacks)" where
  "reg_step i m (AddClient j p cb) = (if i = j then m(p \<mapsto> cb) else m)"
| "reg_step i m (RemoveClient j p) = (if i = j then m(p := None) else m)"
| "reg_step i m _ = m"

definition registered :: "iface \<Rightarrow> api_data \<Rightarrow> ptr \<rightharpoonup> api_callbacks" where
  "registered i st = foldl (reg_step i) Map.empty (api_calls st)"

lemma registered_call [simp]: "registered i (api_call c st) = reg_step i (registered i st) c"
  by (simp add: registered_def api_call_def)

lemma registered_upd [simp]:
  "registered i (st\<lparr>clientData := x\<rparr>) = registered i st" "registered i (st\<lparr>controlAPI := y\<rparr>) = registered i st"
  "registered i (st\<lparr>controlAPI := y, controlCallbacks := z\<rparr>) = registered i st"
  "registered i (st\<lparr>loaded := u\<rparr>) = registered i st" "registered i (st\<lparr>loadFailed := v\<rparr>) = registered i st"
  by (simp_all add: registered_def)

lemma api_call_simps [simp]:
  "clientData (api_call c st) = clientData st" "controlAPI (api_call c st) = controlAPI st"
  "loaded (api_call c st) = loaded st" "loadFailed (api_call c st) = loadFailed st"
  by (simp_all add: api_call_def)

text \<open>The library a call goes to.\<close>

primrec target :: "api_call \<Rightarrow> iface option" where
  "target (LoadInterface i) = None"
| "target (Initialize i) = None"
| "target (AddClient i _ _) = Some i"
| "target (RemoveClient i _) = Some i"
| "target (RequestCapabilities i _) = Some i"
| "target (StartTracking i _ _) = Some i"
| "target (StopTracking i _ _) = Some i"
| "target (UpdateTrackingOptions i _ _ _) = Some i"
| "target (StartBatching _ _ _) = Some FLP"
| "target (StopBatching _ _) = Some FLP"
| "target (UpdateBatchingOptions _ _ _ _) = Some FLP"
| "target (GetBatchedLocations _ _ _) = Some FLP"
| "target (AddGeofences _ _ _ _) = Some GEOFENCE"
| "target (RemoveGeofences _ _ _) = Some GEOFENCE"
| "target (ModifyGeofences _ _ _ _) = Some GEOFENCE"
| "target (PauseGeofences _ _ _) = Some GEOFENCE"
| "target (ResumeGeofences _ _ _) = Some GEOFENCE"
| "target (GnssNiResponse _ _ _) = Some GNSS"
| "target (SetControlCallbacks _) = Some GNSS"
| "target (Enable _) = Some GNSS"
| "target (Disable _) = Some GNSS"
| "target (GnssUpdateConfig _) = Some GNSS"
| "target (GnssDeleteAidingData _) = Some GNSS"

section \<open>The loading protocol\<close>

text \<open>
  The phases a library goes through: not asked for, asked for, ready; \<open>Broken\<close> is a call out of order.
\<close>

datatype phase = Unasked | Asked | Ready | Broken

definition phase_step :: "iface \<Rightarrow> phase \<Rightarrow> api_call \<Rightarrow> phase" where
  "phase_step i ph c =
     (if c = LoadInterface i then (if ph = Unasked then Asked else Broken)
      else if c = Initialize i then (if ph = Asked then Ready else Broken)
      else if target c = Some i \<and> ph \<noteq> Ready then Broken else ph)"

definition phase_of :: "iface \<Rightarrow> api_call list \<Rightarrow> phase" where
  "phase_of i cs = foldl (phase_step i) Unasked cs"

definition in_phase :: "iface \<Rightarrow> api_data \<Rightarrow> bool" where
  "in_phase i st \<longleftrightarrow>
     \<not> (loaded st i \<and> loadFailed st i) \<and>
     phase_of i (api_calls st) = (if loaded st i then Ready else if loadFailed st i then Asked else Unasked)"

definition protocol_ok :: "api_data \<Rightarrow> bool" where
  "protocol_ok st \<longleftrightarrow> (\<forall>i. in_phase i st)"

lemma phase_of_snoc [simp]:
  "phase_of i (cs @ [c]) = phase_step i (phase_of i cs) c"
  "phase_of i (cs @ [c, d]) = phase_step i (phase_step i (phase_of i cs) c) d"
  by (simp_all add: phase_of_def)

lemma protocol_call:
  "protocol_ok st \<Longrightarrow> target c = Some i \<Longrightarrow> loaded st i \<Longrightarrow> protocol_ok (api_call c st)"
  by (auto simp: protocol_ok_def in_phase_def api_call_def phase_step_def)

lemma protocol_upd [simp]:
  "protocol_ok (st\<lparr>clientData := x\<rparr>) = protocol_ok st" "protocol_ok (st\<lparr>controlAPI := y\<rparr>) = protocol_ok st"
  "protocol_ok (st\<lparr>controlAPI := y, controlCallbacks := z\<rparr>) = protocol_ok st"
  by (simp_all add: protocol_ok_def in_phase_def)

lemma protocol_load: "protocol_ok st \<Longrightarrow> protocol_ok (load_interface env i st)"
  by (auto simp: protocol_ok_def in_phase_def load_interface_def api_call_def phase_step_def Let_def)

definition settled :: "api_data \<Rightarrow> iface \<Rightarrow> bool" where
  "settled st i \<longleftrightarrow> loaded st i \<or> loadFailed st i"

lemma settled_simps [simp]:
  "settled (api_call c st) = settled st" "settled (st\<lparr>clientData := x\<rparr>) = settled st"
  by (simp_all add: settled_def fun_eq_iff)

lemma load_interface_facts:
  "clientData (load_interface env i st) = clientData st"
  "registered j (load_interface env i st) = registered j st"
  "settled (load_interface env i st) i"
  "settled st j \<Longrightarrow> settled (load_interface env i st) j"
  "protocol_ok st \<Longrightarrow> settled st j \<Longrightarrow> loaded (load_interface env i st) j = loaded st j"
  by (auto simp: load_interface_def Let_def protocol_ok_def in_phase_def settled_def)

lemma protocol_if_loaded: "protocol_ok st \<Longrightarrow> target c = Some i \<Longrightarrow> protocol_ok (if_loaded i c st)"
  by (simp add: if_loaded_def protocol_call)

lemma loaded_if_loaded [simp]: "loaded (if_loaded i c st) = loaded st"
  by (simp add: if_loaded_def)

lemma protocol_create_on:
  "protocol_ok (snd s) \<Longrightarrow> protocol_ok (snd (create_on env p cb i s))"
  by (auto simp: create_on_def Let_def split_beta protocol_load intro!: protocol_call[where i = i])

lemma protocol_update_on: "protocol_ok st \<Longrightarrow> protocol_ok (update_on env p cb i st)"
  by (auto simp: update_on_def Let_def protocol_load intro!: protocol_call[where i = i])

lemma protocol_remove_on: "protocol_ok st \<Longrightarrow> protocol_ok (remove_on p cb i st)"
  by (auto simp: remove_on_def intro!: protocol_call[where i = i])

lemma protocol_step:
  assumes "protocol_ok st"
  shows "protocol_ok (api_step env e st)"
  using assms
  by (cases e)
    (auto simp: createInstance_def destroy_def updateCallbacks_def api_startTracking_def call_id_def api_stopTracking_def
      updateTrackingOptions_def startBatching_def stopBatching_def updateBatchingOptions_def
      getBatchedLocations_def addGeofences_def removeGeofences_def modifyGeofences_def pauseGeofences_def
      resumeGeofences_def gnssNiResponse_def control_createInstance_def control_destroy_def control_enable_def
      control_disable_def control_gnssUpdateConfig_def control_gnssDeleteAidingData_def Let_def
      protocol_load protocol_create_on protocol_update_on protocol_remove_on
      intro!: protocol_if_loaded intro: protocol_call split: option.split)

lemma protocol_run: "protocol_ok st \<Longrightarrow> protocol_ok (api_run env es st)"
  by (induction es arbitrary: st) (auto intro: protocol_step)

lemma phase_Broken: "phase_step i Broken c = Broken"
  by (simp add: phase_step_def)

lemma phase_counts:
  "phase_of i cs \<noteq> Broken \<Longrightarrow>
     length (filter (\<lambda>c. c = LoadInterface i) cs) = (if phase_of i cs = Unasked then 0 else 1) \<and>
     length (filter (\<lambda>c. c = Initialize i) cs) = (if phase_of i cs = Ready then 1 else 0) \<and>
     (phase_of i cs = Ready \<longrightarrow> Initialize i \<in> set cs)"
  by (induction cs rule: rev_induct) (auto simp: phase_of_def phase_step_def split: if_splits)

lemma phase_take:
  assumes "phase_of i cs \<noteq> Broken" "n < length cs" "target (cs ! n) = Some i"
  shows "Initialize i \<in> set (take n cs)"
proof -
  have ex: "phase_of i (take n cs) \<noteq> Broken" for n
  proof
    assume "phase_of i (take n cs) = Broken"
    moreover have "foldl (phase_step i) Broken xs = Broken" for xs
      by (induction xs) (simp_all add: phase_Broken)
    ultimately have "phase_of i (take n cs @ drop n cs) = Broken"
      by (simp add: phase_of_def del: append_take_drop_id)
    with assms(1) show False by simp
  qed
  have "phase_of i (take (Suc n) cs) = phase_step i (phase_of i (take n cs)) (cs ! n)"
    by (simp add: take_Suc_conv_app_nth[OF assms(2)])
  with ex[of "Suc n"] assms(3) have "phase_of i (take n cs) = Ready"
    by (auto simp: phase_step_def split: if_splits)
  then show ?thesis using phase_counts[OF ex[of n]] by simp
qed

text \<open>
  However clients come and go, each library is loaded at most once, also when loading fails,
  initialised at most once, and asked for nothing before it has been initialised.
\<close>

theorem libraries_loaded_once:
  assumes "cs = api_calls (api_run env es api_data_new)"
  shows "length (filter (\<lambda>c. c = LoadInterface i) cs) \<le> 1 \<and> length (filter (\<lambda>c. c = Initialize i) cs) \<le> 1 \<and>
         (\<forall>n < length cs. target (cs ! n) = Some i \<longrightarrow> Initialize i \<in> set (take n cs))"
proof -
  have "protocol_ok api_data_new"
    by (simp add: protocol_ok_def in_phase_def api_data_new_def phase_of_def)
  then have "in_phase i (api_run env es api_data_new)"
    using protocol_run by (simp add: protocol_ok_def)
  then have ok: "phase_of i cs \<noteq> Broken" by (auto simp: in_phase_def assms)
  show ?thesis using phase_counts[OF ok] phase_take[OF ok] by auto
qed

definition demo_api_env :: api_env where
  "demo_api_env = \<lparr>loads = (\<lambda>_ i. i \<noteq> FLP), returned_id = (\<lambda>cs _. of_nat (length cs)), returned_ids = (\<lambda>_ _. 1)\<rparr>"

definition demo_callbacks :: api_callbacks where
  "demo_callbacks =
     \<lparr>capabilitiesCb = 1, responseCb = 2, collectiveResponseCb = 3, trackingCb = 4, batchingCb = 0,
      geofenceBreachCb = 0, geofenceStatusCb = 0, gnssLocationInfoCb = 0, gnssNiCb = 0, gnssSvCb = 0,
      gnssNmeaCb = 0, gnssMeasurementsCb = 0, batchingStatusCb = 0\<rparr>"

definition demo_api_events :: "api_event list" where
  "demo_api_events =
     [ApiCreate 10 demo_callbacks, ApiStartTracking 10 LocationOptions_zero, ApiCreate 11 demo_callbacks]"

lemma demo_api_calls:
  "api_calls (api_run demo_api_env demo_api_events api_data_new) =
     [LoadInterface GNSS, Initialize GNSS, AddClient GNSS 10 demo_callbacks, RequestCapabilities GNSS 10,
      LoadInterface FLP, StartTracking GNSS 10 LocationOptions_zero,
      AddClient GNSS 11 demo_callbacks, RequestCapabilities GNSS 11]"
  by (simp add: demo_api_events_def demo_api_env_def demo_callbacks_def api_data_new_def createInstance_def
      mandatory_def create_on_def load_interface_def isGnssClient_def isFlpClient_def isGeofenceClient_def
      api_call_def api_startTracking_def call_id_def Let_def)

lemma libraries_loaded_once_witness:
  "length (filter (\<lambda>c. c = LoadInterface FLP) [LoadInterface GNSS, Initialize GNSS,
      AddClient GNSS 10 demo_callbacks, RequestCapabilities GNSS 10, LoadInterface FLP,
      StartTracking GNSS 10 LocationOptions_zero, AddClient GNSS 11 demo_callbacks, RequestCapabilities GNSS 11]) \<le> 1"
  using libraries_loaded_once[OF demo_api_calls[symmetric], of FLP] by blast

section \<open>Registration\<close>

definition should_have :: "iface \<Rightarrow> api_data \<Rightarrow> ptr \<rightharpoonup> api_callbacks" where
  "should_have i st p =
     (case map_of (clientData st) p of
        Some cb \<Rightarrow> if is_client i cb \<and> loaded st i then Some cb else None
      | None \<Rightarrow> None)"

definition api_inv :: "api_data \<Rightarrow> bool" where
  "api_inv st \<longleftrightarrow> protocol_ok st \<and> std_map_ok (clientData st) \<and>
     (\<forall>i. registered i st = should_have i st) \<and>
     (\<forall>p cb i. map_of (clientData st) p = Some cb \<longrightarrow> is_client i cb \<longrightarrow> settled st i)"

text \<open>
  New objects have fresh addresses, and a client that changes its callbacks keeps every kind of them.
\<close>

definition api_event_ok :: "api_event \<Rightarrow> api_data \<Rightarrow> bool" where
  "api_event_ok e st \<longleftrightarrow>
     (case e of
        ApiCreate p cb \<Rightarrow> map_of (clientData st) p = None
      | ApiUpdateCallbacks p cb \<Rightarrow>
          (\<exists>old. map_of (clientData st) p = Some old \<and> (\<forall>i. is_client i old \<longrightarrow> is_client i cb))
      | _ \<Rightarrow> True)"

fun api_run_ok :: "api_env \<Rightarrow> api_event list \<Rightarrow> api_data \<Rightarrow> bool" where
  "api_run_ok env [] st = True"
| "api_run_ok env (e # es) st = (api_event_ok e st \<and> api_run_ok env es (api_step env e st))"

text \<open>What adding or updating a client does, one library after the other.\<close>

definition visited :: "ptr \<Rightarrow> api_callbacks \<Rightarrow> iface set \<Rightarrow> api_data \<Rightarrow> api_data \<Rightarrow> bool" where
  "visited p cb I st st' \<longleftrightarrow>
     protocol_ok st' \<and> clientData st' = clientData st \<and>
     (\<forall>i. settled st i \<longrightarrow> loaded st' i = loaded st i) \<and>
     (\<forall>i. settled st i \<longrightarrow> settled st' i) \<and>
     (\<forall>i \<in> I. is_client i cb \<longrightarrow> settled st' i) \<and>
     (\<forall>i. registered i st' =
        (if i \<in> I \<and> is_client i cb \<and> loaded st' i then (registered i st)(p \<mapsto> cb) else registered i st))"

lemma visited_refl: "protocol_ok st \<Longrightarrow> visited p cb {} st st"
  by (simp add: visited_def)

lemma visited_load:
  assumes "visited p cb I st st'"
  shows "visited p cb I st (load_interface env i st')"
    "settled (load_interface env i st') i"
proof -
  let ?st = "load_interface env i st'"
  note v = assms[unfolded visited_def]
  have p: "protocol_ok st'" using v by (elim conjE)
  have same: "loaded ?st j = loaded st' j" if "settled st' j" for j
    using load_interface_facts(5)[OF p that] .
  have more: "settled ?st j" if "settled st' j" for j
    using that load_interface_facts(4) by blast
  have reg: "registered j ?st = (if j \<in> I \<and> is_client j cb \<and> loaded ?st j then (registered j st)(p \<mapsto> cb)
      else registered j st)" for j
  proof (cases "j \<in> I \<and> is_client j cb")
    case True
    then have "settled st' j" using v by blast
    then show ?thesis using same[of j] v by (simp add: load_interface_facts(2))
  next
    case False
    then have "registered j st' = registered j st" using v by auto
    then show ?thesis using False by (auto simp: load_interface_facts(2))
  qed
  show "visited p cb I st ?st"
    unfolding visited_def
  proof (intro conjI allI ballI impI)
    show "loaded ?st j = loaded st j" if "settled st j" for j
    proof -
      have "settled st' j" "loaded st' j = loaded st j" using that v by blast+
      then show ?thesis using same by blast
    qed
  qed (use v p protocol_load reg more in \<open>auto simp: load_interface_facts(1)\<close>)
  show "settled ?st i" by (rule load_interface_facts(3))
qed

lemma visited_add:
  assumes "visited p cb I st st'" "is_client i cb" "i \<notin> I"
  shows "visited p cb (insert i I) st
    (let st' = load_interface env i st' in if loaded st' i then api_call (AddClient i p cb) st' else st')"
proof -
  let ?st = "load_interface env i st'"
  note v = visited_load[OF assms(1), where i = i and env = env]
  show ?thesis
  proof (cases "loaded ?st i")
    case True
    then have "protocol_ok (api_call (AddClient i p cb) ?st)"
      using v(1) protocol_call[of ?st "AddClient i p cb" i] by (simp add: visited_def)
    then show ?thesis using v(1) True assms(2,3) by (auto simp: visited_def settled_def Let_def)
  next
    case False
    then show ?thesis using v assms(2,3) by (auto simp: visited_def Let_def)
  qed
qed

lemma visited_skip:
  assumes "visited p cb I st st'" "\<not> is_client i cb"
  shows "visited p cb (insert i I) st st'"
  using assms by (auto simp: visited_def)

lemma visited_request:
  assumes "visited p cb I st st'" "loaded st' i"
  shows "visited p cb I st (api_call (RequestCapabilities i q) st')"
  using assms protocol_call[of st' "RequestCapabilities i q" i] by (auto simp: visited_def)

lemma visited_update_on:
  "visited p cb I st st' \<Longrightarrow> i \<notin> I \<Longrightarrow> visited p cb (insert i I) st (update_on env p cb i st')"
  using visited_add[of p cb I st st' i env] visited_skip[of p cb I st st' i]
  by (simp add: update_on_def)

lemma visited_create_on:
  assumes "visited p cb I st (snd s)" "i \<notin> I"
  shows "visited p cb (insert i I) st (snd (create_on env p cb i s))"
proof (cases "is_client i cb")
  case True
  let ?st = "load_interface env i (snd s)"
  have v: "visited p cb (insert i I) st (if loaded ?st i then api_call (AddClient i p cb) ?st else ?st)"
    using visited_add[OF assms(1) True assms(2), of env] by (simp add: Let_def)
  then show ?thesis
    using True visited_request[of p cb "insert i I" st "api_call (AddClient i p cb) ?st" i p]
    by (auto simp: create_on_def Let_def split_beta)
next
  case False
  then show ?thesis using visited_skip[OF assms(1)] by (simp add: create_on_def split_beta)
qed

lemma all_ifaces: "{GEOFENCE, FLP, GNSS} = UNIV"
  using iface.exhaust by auto

text \<open>Registering a client that is new or keeps its kinds.\<close>

lemma visited_inv:
  assumes "api_inv st" "visited p cb UNIV st st'"
    and "\<forall>old i. map_of (clientData st) p = Some old \<longrightarrow> is_client i old \<longrightarrow> is_client i cb"
  shows "api_inv (st'\<lparr>clientData := map_put p cb (clientData st')\<rparr>)"
proof -
  note inv = assms(1)[unfolded api_inv_def] and v = assms(2)[unfolded visited_def]
  let ?st = "st'\<lparr>clientData := map_put p cb (clientData st')\<rparr>"
  have map: "map_of (clientData ?st) = (map_of (clientData st))(p \<mapsto> cb)" using inv v by simp
  have same: "loaded st' i = loaded st i" if "map_of (clientData st) q = Some old" "is_client i old" for q old i
    using that inv v by blast
  have reg: "registered i ?st q = should_have i ?st q" for i q
  proof (cases "q = p")
    case True
    then show ?thesis using map inv v assms(3) by (auto simp: should_have_def split: option.splits)
  next
    case False
    then have "registered i ?st q = registered i st q" using v by simp
    also have "\<dots> = should_have i st q" using inv by simp
    also have "\<dots> = should_have i ?st q" using map False same by (auto simp: should_have_def split: option.split)
    finally show ?thesis .
  qed
  have set: "settled ?st i"
    if "map_of (clientData ?st) q = Some c" "is_client i c" for q c i
  proof (cases "q = p")
    case True
    then show ?thesis using that map v by simp
  next
    case False
    then have "settled st i" using that map inv by auto
    then show ?thesis using v by simp
  qed
  have "protocol_ok ?st" "std_map_ok (clientData ?st)" using inv v by simp_all
  moreover have "\<forall>i. registered i ?st = should_have i ?st" using reg by blast
  ultimately show ?thesis using set unfolding api_inv_def by blast
qed

lemma api_inv_protocol: "api_inv st \<Longrightarrow> protocol_ok st"
  by (simp add: api_inv_def)

lemma create_inv:
  assumes "api_inv st" "map_of (clientData st) p = None"
  shows "api_inv (snd (createInstance env p cb st))"
proof -
  let ?st = "snd (create_on env p cb GEOFENCE (create_on env p cb FLP (create_on env p cb GNSS (False, st))))"
  have "visited p cb {GEOFENCE, FLP, GNSS} st ?st"
    using visited_refl[OF api_inv_protocol[OF assms(1)]] by (intro visited_create_on) auto
  then show ?thesis
    using visited_inv[OF assms(1), of p cb ?st] assms by (simp add: all_ifaces createInstance_def Let_def)
qed

lemma update_inv:
  assumes "api_inv st" "map_of (clientData st) p = Some old" "\<forall>i. is_client i old \<longrightarrow> is_client i cb"
  shows "api_inv (updateCallbacks env p cb st)"
proof -
  let ?st = "update_on env p cb GEOFENCE (update_on env p cb FLP (update_on env p cb GNSS st))"
  have "visited p cb {GEOFENCE, FLP, GNSS} st ?st"
    using visited_refl[OF api_inv_protocol[OF assms(1)]] by (intro visited_update_on) auto
  then show ?thesis
    using visited_inv[OF assms(1), of p cb ?st] assms by (simp add: all_ifaces updateCallbacks_def Let_def)
qed

lemma remove_on_facts:
  "clientData (remove_on p cb i st) = clientData st" "loaded (remove_on p cb i st) = loaded st"
  "loadFailed (remove_on p cb i st) = loadFailed st"
  "registered j (remove_on p cb i st) =
     (if i = j \<and> is_client i cb \<and> loaded st i then (registered j st)(p := None) else registered j st)"
  by (auto simp: remove_on_def)

lemma destroy_registered:
  assumes "map_of (clientData st) p = Some cb"
  shows "registered i (destroy p st) =
           (if is_client i cb \<and> loaded st i then (registered i st)(p := None) else registered i st)"
  using assms by (cases i) (simp_all add: destroy_def Let_def remove_on_facts)

lemma destroy_inv:
  assumes "api_inv st"
  shows "api_inv (destroy p st)"
proof (cases "map_of (clientData st) p")
  case None
  then show ?thesis using assms by (simp add: destroy_def)
next
  case (Some cb)
  note inv = assms[unfolded api_inv_def]
  have frame: "clientData (destroy p st) = map_erase p (clientData st)" "loaded (destroy p st) = loaded st"
      "loadFailed (destroy p st) = loadFailed st"
    using Some by (simp_all add: destroy_def Let_def remove_on_facts)
  have "protocol_ok (destroy p st)"
    using protocol_step[of st env "ApiDestroy p" for env] inv by simp
  moreover have "registered i (destroy p st) q = should_have i (destroy p st) q" for i q
    using Some inv frame by (auto simp: destroy_registered should_have_def split: option.splits)
  ultimately show ?thesis using inv frame by (auto simp: api_inv_def settled_def split: if_splits)
qed

text \<open>Calls to a library that change nothing here.\<close>

definition same_clients :: "api_data \<Rightarrow> api_data \<Rightarrow> bool" where
  "same_clients st st' \<longleftrightarrow> clientData st' = clientData st \<and> loaded st' = loaded st \<and>
     loadFailed st' = loadFailed st \<and> (\<forall>i. registered i st' = registered i st)"

lemma same_clients_inv:
  "api_inv st \<Longrightarrow> protocol_ok st' \<Longrightarrow> same_clients st st' \<Longrightarrow> api_inv st'"
  by (auto simp: api_inv_def same_clients_def should_have_def settled_def cong: option.case_cong)

lemma control_create_inv:
  assumes "api_inv st"
  shows "api_inv (snd (control_createInstance env p cb st))"
proof -
  let ?st = "load_interface env GNSS st"
  have v: "visited 0 undefined {} st ?st"
    using visited_load(1)[OF visited_refl[OF api_inv_protocol[OF assms]]] .
  have "api_inv ?st"
  proof -
    have "loaded ?st i = loaded st i" if "map_of (clientData st) q = Some c" "is_client i c" for q c i
      using that assms v by (auto simp: api_inv_def visited_def)
    then have "should_have i ?st q = should_have i st q" for i q
      using v by (auto simp: should_have_def visited_def split: option.split)
    with assms v show ?thesis by (auto simp: api_inv_def visited_def fun_eq_iff)
  qed
  moreover have "protocol_ok (snd (control_createInstance env p cb st))"
    using protocol_step[OF api_inv_protocol[OF assms], of env "CtlCreate p cb"] by simp
  moreover have "same_clients ?st (snd (control_createInstance env p cb st)) \<or> snd (control_createInstance env p cb st) = st"
    by (auto simp: control_createInstance_def same_clients_def Let_def)
  ultimately show ?thesis using same_clients_inv assms by metis
qed

lemma api_step_inv:
  assumes "api_inv st" "api_event_ok e st"
  shows "api_inv (api_step env e st)"
proof -
  have p: "protocol_ok (api_step env e st)" by (rule protocol_step[OF api_inv_protocol[OF assms(1)]])
  show ?thesis
  proof (cases e)
    case (ApiCreate p cb)
    then show ?thesis using assms create_inv by (simp add: api_event_ok_def)
  next
    case (ApiUpdateCallbacks p cb)
    then show ?thesis using assms update_inv by (auto simp: api_event_ok_def)
  next
    case (ApiDestroy p)
    then show ?thesis using destroy_inv[OF assms(1)] by simp
  next
    case (CtlCreate p cb)
    then show ?thesis using control_create_inv[OF assms(1)] by simp
  qed (use same_clients_inv[OF assms(1) p] in \<open>auto simp: same_clients_def api_startTracking_def call_id_def
      api_stopTracking_def updateTrackingOptions_def startBatching_def stopBatching_def updateBatchingOptions_def
      getBatchedLocations_def addGeofences_def removeGeofences_def modifyGeofences_def pauseGeofences_def
      resumeGeofences_def gnssNiResponse_def control_destroy_def control_enable_def
      control_disable_def control_gnssUpdateConfig_def control_gnssDeleteAidingData_def if_loaded_def
      split: option.splits\<close>)
qed

lemma api_run_inv: "api_inv st \<Longrightarrow> api_run_ok env es st \<Longrightarrow> api_inv (api_run env es st)"
  by (induction es arbitrary: st) (auto intro: api_step_inv)

lemma api_new_inv: "api_inv api_data_new"
  by (auto simp: api_inv_def protocol_ok_def in_phase_def phase_of_def registered_def should_have_def api_data_new_def)

text \<open>
  C11: As long as no client gives up a kind of callback, every library that is loaded knows exactly
  the live clients with callbacks of its kind, each with the callbacks it last set.
\<close>

theorem libraries_know_their_clients:
  assumes "api_run_ok env es api_data_new"
  shows "registered i (api_run env es api_data_new) = should_have i (api_run env es api_data_new)"
  using api_run_inv[OF api_new_inv assms] by (simp add: api_inv_def)

lemma libraries_know_their_clients_witness:
  "registered GNSS (api_run demo_api_env demo_api_events api_data_new) 10 = Some demo_callbacks"
proof -
  have ok: "api_run_ok demo_api_env demo_api_events api_data_new"
    by (simp add: demo_api_events_def demo_api_env_def demo_callbacks_def api_data_new_def createInstance_def
      mandatory_def create_on_def load_interface_def isGnssClient_def isFlpClient_def isGeofenceClient_def
      api_call_def api_startTracking_def call_id_def Let_def api_event_ok_def)
  have "should_have GNSS (api_run demo_api_env demo_api_events api_data_new) 10 = Some demo_callbacks"
    by (simp add: demo_api_events_def demo_api_env_def demo_callbacks_def api_data_new_def createInstance_def
      mandatory_def create_on_def load_interface_def isGnssClient_def isFlpClient_def isGeofenceClient_def
      api_call_def api_startTracking_def call_id_def Let_def should_have_def)
  then show ?thesis using libraries_know_their_clients[OF ok, of GNSS] by simp
qed

text \<open>
  A client that gives up a kind of callback and is then destroyed stays registered with the
  library of that kind, under the address of the destroyed object.
\<close>

theorem narrowed_client_stays_registered:
  assumes "api_run_ok env es api_data_new" "st = api_run env es api_data_new"
    and "map_of (clientData st) p = Some old" "is_client i old" "loaded st i" "mandatory cb" "\<not> is_client i cb"
  shows "map_of (clientData (api_run env [ApiUpdateCallbacks p cb, ApiDestroy p] st)) p = None \<and>
         registered i (api_run env [ApiUpdateCallbacks p cb, ApiDestroy p] st) p = Some old"
proof -
  have inv: "api_inv st" using api_run_inv[OF api_new_inv assms(1)] assms(2) by simp
  let ?u = "update_on env p cb GEOFENCE (update_on env p cb FLP (update_on env p cb GNSS st))"
  let ?st = "updateCallbacks env p cb st"
  have v: "visited p cb {GEOFENCE, FLP, GNSS} st ?u"
    using visited_refl[OF api_inv_protocol[OF inv]] by (intro visited_update_on) auto
  have st: "?st = ?u\<lparr>clientData := map_put p cb (clientData ?u)\<rparr>"
    using assms(6) by (simp add: updateCallbacks_def Let_def)
  have cb: "map_of (clientData ?st) p = Some cb" using inv v by (simp add: st visited_def api_inv_def)
  have "registered i ?st = registered i st" using v assms(7) by (simp add: st visited_def)
  moreover have "registered i st p = Some old" using inv assms(3-5) by (simp add: api_inv_def should_have_def)
  ultimately show ?thesis
    using cb assms(7) destroy_registered[OF cb, of i] by (simp add: destroy_def Let_def remove_on_facts)
qed

lemma narrowed_client_stays_registered_witness:
  "registered GNSS (api_run demo_api_env
     [ApiUpdateCallbacks 10 (demo_callbacks\<lparr>trackingCb := 0\<rparr>), ApiDestroy 10]
     (api_run demo_api_env [ApiCreate 10 demo_callbacks] api_data_new)) 10 = Some demo_callbacks"
proof -
  let ?st = "api_run demo_api_env [ApiCreate 10 demo_callbacks] api_data_new"
  note defs = demo_api_env_def demo_callbacks_def api_data_new_def createInstance_def
      mandatory_def create_on_def load_interface_def isGnssClient_def isFlpClient_def isGeofenceClient_def
      api_call_def Let_def api_event_ok_def
  have "api_run_ok demo_api_env [ApiCreate 10 demo_callbacks] api_data_new"
    "map_of (clientData ?st) 10 = Some demo_callbacks" "loaded ?st GNSS"
    by (simp_all add: defs)
  moreover have "is_client GNSS demo_callbacks" "mandatory (demo_callbacks\<lparr>trackingCb := 0\<rparr>)"
    "\<not> is_client GNSS (demo_callbacks\<lparr>trackingCb := 0\<rparr>)"
    by (simp_all add: defs)
  ultimately show ?thesis
    using narrowed_client_stays_registered[of demo_api_env "[ApiCreate 10 demo_callbacks]" ?st 10
        demo_callbacks GNSS "demo_callbacks\<lparr>trackingCb := 0\<rparr>"] by blast
qed

section \<open>Routing\<close>

text \<open>
  A client's session is started on exactly one library: the batching library when it needs a
  minimum distance or when the GNSS library is missing or has nothing the client asked for; and
  stopping it, whatever its id, reaches the library it was started on.
\<close>

theorem sessions_routed:
  assumes "map_of (clientData st) p = Some cb" "loaded st FLP \<or> loaded st GNSS"
  shows "\<exists>i. loaded st i \<and>
           api_calls (snd (api_startTracking env p opts st)) = api_calls st @ [StartTracking i p opts] \<and>
           (i = FLP \<longleftrightarrow> loaded st FLP \<and> (minDistance opts > 0 \<or> \<not> (loaded st GNSS \<and> needsGnssTrackingInfo cb))) \<and>
           StopTracking i p n \<in>
             set (drop (length (api_calls st) + 1) (api_calls (api_stopTracking p n (snd (api_startTracking env p opts st)))))"
  using assms
  by (auto simp: api_startTracking_def call_id_def api_stopTracking_def if_loaded_def api_call_def)

lemma sessions_routed_witness:
  "\<exists>i. api_calls (snd (api_startTracking demo_api_env 10 LocationOptions_zero
          (api_run demo_api_env [ApiCreate 10 demo_callbacks] api_data_new))) =
        api_calls (api_run demo_api_env [ApiCreate 10 demo_callbacks] api_data_new) @
          [StartTracking i 10 LocationOptions_zero]"
proof -
  let ?st = "api_run demo_api_env [ApiCreate 10 demo_callbacks] api_data_new"
  note defs = demo_api_env_def demo_callbacks_def api_data_new_def createInstance_def
      mandatory_def create_on_def load_interface_def isGnssClient_def isFlpClient_def isGeofenceClient_def
      api_call_def Let_def
  have "map_of (clientData ?st) 10 = Some demo_callbacks" "loaded ?st FLP \<or> loaded ?st GNSS"
    by (simp_all add: defs)
  then show ?thesis using sessions_routed[of ?st 10 demo_callbacks demo_api_env LocationOptions_zero] by blast
qed

end
