(* ===== verification/Gnss_Ni.thy ===== *)
theory Gnss_Ni
  imports Gnss_Tracking
begin

text \<open>
  Network-initiated location requests in \<open>gps/gnss/GnssAdapter.cpp\<close>: the modem hands over a request
  (\<open>requestNiNotify\<close>), the adapter shows it to a client and starts a thread (\<open>niThreadProc\<close>) that
  waits for the user's answer or a timeout, and passes the answer to the modem. There is a session
  for ordinary requests and one for emergency calls.

  The adapter's thread and the waiting threads run interleaved. A part that is one step here touches
  what they share once or under the session's mutex: a message is one step of the adapter's thread,
  except that the answer of a client looks for its session first and stores the answer under the
  mutex later; a waiting thread takes the mutex twice (until it waits, and when it is woken) and then
  clears the wait time and the id in two steps without it. Any step that is possible may be next.
\<close>

section \<open>Data\<close>

datatype GnssNiType =
    GNSS_NI_TYPE_VOICE
  | GNSS_NI_TYPE_SUPL
  | GNSS_NI_TYPE_CONTROL_PLANE
  | GNSS_NI_TYPE_EMERGENCY_SUPL

record GnssNiNotification =
  nn_type :: GnssNiType
  nn_options :: u16
  nn_timeout :: u32
  nn_timeoutResponse :: GnssNiResponse
  nn_requestor :: "u8 list"
  nn_requestorEncoding :: nat
  nn_message :: "u8 list"
  nn_messageEncoding :: nat
  nn_extras :: "u8 list"

definition LOC_NI_NO_RESPONSE_TIME :: u32 where
  "LOC_NI_NO_RESPONSE_TIME = 20"

record NiSession =
  respTimeLeft :: u32
  respRecvd :: bool
  rawRequest :: ptr
  reqID :: u32
  ni_resp :: GnssNiResponse

datatype ni_kind = NI_ORDINARY | NI_EMERGENCY

text \<open>
  Where a thread is in \<open>niThreadProc\<close>: before its first lock, waiting until a time, after it has
  released the mutex, after it has cleared the wait time, after it has cleared the id, at its end.
  The argument of the middle ones is the answer it is going to send.
\<close>

type_synonym timespec = "int \<times> int"

datatype ni_pc =
    NiCreated
  | NiWaiting timespec
  | NiUnlocked "(GnssNiResponse \<times> ptr) option"
  | NiTimeCleared "(GnssNiResponse \<times> ptr) option"
  | NiIdCleared "(GnssNiResponse \<times> ptr) option"
  | NiDone

text \<open>
  What the adapter's thread is doing: nothing, or the rest of the answer of a client: the answers it
  still has to store and what it reports afterwards.
\<close>

datatype ni_adapter =
    NiIdle
  | NiStoring "(ni_kind \<times> GnssNiResponse) list" ptr LocationError u32

datatype ni_call =
    NI_notify ptr u32 GnssNiNotification
  | NI_response ptr LocationError u32
  | NI_inform GnssNiResponse ptr
  | NI_free ptr

record ni_state =
  ni_clients :: "(ptr, LocationCallbacks) std_map"
  niSession :: NiSession
  niSessionEs :: NiSession
  reqIDCounter :: u32
  ni_threads :: "(ni_kind \<times> ni_pc) list"
  ni_adapter :: ni_adapter
  ni_posted :: "(GnssNiResponse \<times> ptr) list"
  ni_log :: "ni_call list"

definition NiSession_init :: NiSession where
  "NiSession_init =
     \<lparr>respTimeLeft = 0, respRecvd = False, rawRequest = NULL, reqID = 0,
      ni_resp = GNSS_NI_RESPONSE_UNSET\<rparr>"

definition ni_init :: ni_state where
  "ni_init =
     \<lparr>ni_clients = [], niSession = NiSession_init, niSessionEs = NiSession_init, reqIDCounter = 0,
      ni_threads = [], ni_adapter = NiIdle, ni_posted = [], ni_log = []\<rparr>"

fun ni_get :: "ni_kind \<Rightarrow> ni_state \<Rightarrow> NiSession" where
  "ni_get NI_ORDINARY st = niSession st"
| "ni_get NI_EMERGENCY st = niSessionEs st"

fun ni_put :: "ni_kind \<Rightarrow> NiSession \<Rightarrow> ni_state \<Rightarrow> ni_state" where
  "ni_put NI_ORDINARY p st = st\<lparr>niSession := p\<rparr>"
| "ni_put NI_EMERGENCY p st = st\<lparr>niSessionEs := p\<rparr>"

definition ni_logs :: "ni_call list \<Rightarrow> ni_state \<Rightarrow> ni_state" where
  "ni_logs cs st = st\<lparr>ni_log := ni_log st @ cs\<rparr>"

section \<open>The adapter's thread\<close>

text \<open>
  A request is accepted into a session: \<open>created\<close> says whether \<open>pthread_create\<close> succeeds. The
  callback is the first one in the order of the clients' addresses.
\<close>

definition ni_accept :: "bool \<Rightarrow> ptr \<Rightarrow> GnssNiNotification \<Rightarrow> ptr \<Rightarrow> ni_kind \<Rightarrow> ni_state \<Rightarrow> ni_state"
where
  "ni_accept created client notify data k st =
     (let c = reqIDCounter st + 1;
          p = (ni_get k st)
                \<lparr>rawRequest := data, reqID := c,
                 respTimeLeft :=
                   5 + (if nn_timeout notify \<noteq> 0 then nn_timeout notify
                        else LOC_NI_NO_RESPONSE_TIME)\<rparr>;
          st1 = ni_put k p (st\<lparr>reqIDCounter := c\<rparr>);
          st2 = (if created then st1\<lparr>ni_threads := ni_threads st1 @ [(k, NiCreated)]\<rparr> else st1)
      in ni_logs [NI_notify client c notify] st2)"

definition ni_refuse :: "ptr \<Rightarrow> ni_state \<Rightarrow> ni_state" where
  "ni_refuse data st = (if data \<noteq> NULL then ni_logs [NI_free data] st else st)"

definition requestNiNotify :: "bool \<Rightarrow> GnssNiNotification \<Rightarrow> ptr \<Rightarrow> ni_state \<Rightarrow> ni_state" where
  "requestNiNotify created notify data st =
     (case find (\<lambda>e. cb_gnssNi (snd e)) (ni_clients st) of
        None \<Rightarrow> st
      | Some (client, _) \<Rightarrow>
          if nn_type notify = GNSS_NI_TYPE_EMERGENCY_SUPL then
            if rawRequest (niSessionEs st) \<noteq> NULL then ni_refuse data st
            else ni_accept created client notify data NI_EMERGENCY st
          else
            if rawRequest (niSession st) \<noteq> NULL \<or> rawRequest (niSessionEs st) \<noteq> NULL
            then ni_refuse data st
            else ni_accept created client notify data NI_ORDINARY st)"

definition hasNiNotifyCallback :: "ptr \<Rightarrow> ni_state \<Rightarrow> bool" where
  "hasNiNotifyCallback client st =
     (case map_of (ni_clients st) client of Some cb \<Rightarrow> cb_gnssNi cb | None \<Rightarrow> False)"

text \<open>
  The answer of a client: which sessions get which answer, and what is reported.
\<close>

definition gnssNiResponse_find ::
  "ptr \<Rightarrow> u32 \<Rightarrow> GnssNiResponse \<Rightarrow> ni_state \<Rightarrow> (ni_kind \<times> GnssNiResponse) list \<times> LocationError"
where
  "gnssNiResponse_find client sid response st =
     (if \<not> hasNiNotifyCallback client st then ([], LOCATION_ERROR_ID_UNKNOWN)
      else if sid = reqID (niSessionEs st) \<and> rawRequest (niSessionEs st) \<noteq> NULL then
        ((if response = GNSS_NI_RESPONSE_ACCEPT \<and> rawRequest (niSession st) \<noteq> NULL
          then [(NI_ORDINARY, GNSS_NI_RESPONSE_IGNORE)] else [])
         @ [(NI_EMERGENCY, response)], LOCATION_ERROR_SUCCESS)
      else if sid = reqID (niSession st) \<and> rawRequest (niSession st) \<noteq> NULL then
        ([(NI_ORDINARY, response)], LOCATION_ERROR_SUCCESS)
      else ([], LOCATION_ERROR_ID_UNKNOWN))"

definition gnssNiResponse_begin :: "ptr \<Rightarrow> u32 \<Rightarrow> GnssNiResponse \<Rightarrow> ni_state \<Rightarrow> ni_state" where
  "gnssNiResponse_begin client sid response st =
     (let (us, err) = gnssNiResponse_find client sid response st
      in st\<lparr>ni_adapter := NiStoring us client err sid\<rparr>)"

definition ni_store :: "ni_kind \<Rightarrow> GnssNiResponse \<Rightarrow> ni_state \<Rightarrow> ni_state" where
  "ni_store k r st = ni_put k ((ni_get k st)\<lparr>ni_resp := r, respRecvd := True\<rparr>) st"

definition ni_reportResponse :: "ptr \<Rightarrow> LocationError \<Rightarrow> u32 \<Rightarrow> ni_state \<Rightarrow> ni_state" where
  "ni_reportResponse client err sid st =
     (case map_of (ni_clients st) client of
        Some cb \<Rightarrow> if cb_response cb then ni_logs [NI_response client err sid] st else st
      | None \<Rightarrow> st)"

fun gnssNiResponse_next :: "ni_state \<Rightarrow> ni_state option" where
  "gnssNiResponse_next st =
     (case ni_adapter st of
        NiStoring ((k, r) # us) client err sid \<Rightarrow>
          Some ((ni_store k r st)\<lparr>ni_adapter := NiStoring us client err sid\<rparr>)
      | NiStoring [] client err sid \<Rightarrow>
          Some ((ni_reportResponse client err sid st)\<lparr>ni_adapter := NiIdle\<rparr>)
      | NiIdle \<Rightarrow> None)"

text \<open>
  The message that passes an answer to the modem: \<open>informNiResponse\<close>, then the message is deleted
  and frees the request.
\<close>

fun gnssNiResponse_inform :: "ni_state \<Rightarrow> ni_state option" where
  "gnssNiResponse_inform st =
     (case ni_posted st of
        (r, raw) # ps \<Rightarrow> Some (ni_logs [NI_inform r raw, NI_free raw] (st\<lparr>ni_posted := ps\<rparr>))
      | [] \<Rightarrow> None)"

section \<open>The waiting thread\<close>

text \<open>
  What it does with the mutex held once it waits no more.
\<close>

definition ni_take :: "nat \<Rightarrow> ni_kind \<Rightarrow> ni_state \<Rightarrow> ni_state" where
  "ni_take i k st =
     (let p = ni_get k st;
          raw = rawRequest p;
          sent = (if raw \<noteq> NULL \<and> ni_resp p \<noteq> GNSS_NI_RESPONSE_IGNORE
                  then Some (ni_resp p, raw) else None);
          st1 = ni_put k (p\<lparr>respRecvd := False, rawRequest := NULL\<rparr>) st;
          st2 = (if raw \<noteq> NULL \<and> ni_resp p = GNSS_NI_RESPONSE_IGNORE
                 then ni_logs [NI_free raw] st1 else st1)
      in st2\<lparr>ni_threads := (ni_threads st)[i := (k, NiUnlocked sent)]\<rparr>)"

definition timespec_le :: "timespec \<Rightarrow> timespec \<Rightarrow> bool" where
  "timespec_le t u \<longleftrightarrow> fst t < fst u \<or> (fst t = fst u \<and> snd t \<le> snd u)"

text \<open>
  The next step of thread \<open>i\<close>; \<open>now\<close> is what the clock says if it is read. A waiting thread goes on
  when it finds an answer.
\<close>

definition niThread_run :: "nat \<Rightarrow> timespec \<Rightarrow> ni_state \<Rightarrow> ni_state option" where
  "niThread_run i now st =
     (if i < length (ni_threads st) then
        case ni_threads st ! i of
          (k, NiCreated) \<Rightarrow>
            let p = ni_get k st
            in if respRecvd p then Some (ni_take i k st)
               else Some (st\<lparr>ni_threads := (ni_threads st)
                     [i := (k, NiWaiting (fst now + uint (respTimeLeft p), snd now))]\<rparr>)
        | (k, NiWaiting e) \<Rightarrow> if respRecvd (ni_get k st) then Some (ni_take i k st) else None
        | (k, NiUnlocked sent) \<Rightarrow>
            Some ((ni_put k ((ni_get k st)\<lparr>respTimeLeft := 0\<rparr>) st)
                    \<lparr>ni_threads := (ni_threads st)[i := (k, NiTimeCleared sent)]\<rparr>)
        | (k, NiTimeCleared sent) \<Rightarrow>
            Some ((ni_put k ((ni_get k st)\<lparr>reqID := 0\<rparr>) st)
                    \<lparr>ni_threads := (ni_threads st)[i := (k, NiIdCleared sent)]\<rparr>)
        | (k, NiIdCleared sent) \<Rightarrow>
            Some (st\<lparr>ni_posted := ni_posted st @ (case sent of Some a \<Rightarrow> [a] | None \<Rightarrow> []),
                     ni_threads := (ni_threads st)[i := (k, NiDone)]\<rparr>)
        | (k, NiDone) \<Rightarrow> None
      else None)"

text \<open>The wait of thread \<open>i\<close> times out, whether or not an answer is there.\<close>

definition niThread_timeout :: "nat \<Rightarrow> timespec \<Rightarrow> ni_state \<Rightarrow> ni_state option" where
  "niThread_timeout i now st =
     (if i < length (ni_threads st) then
        case ni_threads st ! i of
          (k, NiWaiting e) \<Rightarrow>
            if timespec_le e now
            then Some (ni_take i k
                   (ni_put k ((ni_get k st)\<lparr>ni_resp := GNSS_NI_RESPONSE_NO_RESPONSE\<rparr>) st))
            else None
        | _ \<Rightarrow> None
      else None)"

section \<open>Runs\<close>

datatype ni_event =
    NiMsgClients "(ptr, LocationCallbacks) std_map"
  | NiMsgRequest bool GnssNiNotification ptr
  | NiMsgResponse ptr u32 GnssNiResponse
  | NiNext
  | NiMsgInform
  | NiRun nat timespec
  | NiTimeout nat timespec

text \<open>
  A step, or \<open>None\<close> where it is not possible: the adapter's thread takes the next message when it is
  done with the one before. Clients come and go by messages too; they may be any.
\<close>

fun ni_step :: "ni_event \<Rightarrow> ni_state \<Rightarrow> ni_state option" where
  "ni_step (NiMsgClients m) st = (if ni_adapter st = NiIdle then Some (st\<lparr>ni_clients := m\<rparr>) else None)"
| "ni_step (NiMsgRequest created notify data) st =
     (if ni_adapter st = NiIdle then Some (requestNiNotify created notify data st) else None)"
| "ni_step (NiMsgResponse client sid response) st =
     (if ni_adapter st = NiIdle then Some (gnssNiResponse_begin client sid response st) else None)"
| "ni_step NiNext st = gnssNiResponse_next st"
| "ni_step NiMsgInform st = (if ni_adapter st = NiIdle then gnssNiResponse_inform st else None)"
| "ni_step (NiRun i now) st = niThread_run i now st"
| "ni_step (NiTimeout i now) st = niThread_timeout i now st"

fun ni_run :: "ni_event list \<Rightarrow> ni_state \<Rightarrow> ni_state option" where
  "ni_run [] st = Some st"
| "ni_run (e # es) st = (case ni_step e st of Some st' \<Rightarrow> ni_run es st' | None \<Rightarrow> None)"

end
