(* ===== verification/Ni_Proofs.thy ===== *)
theory Ni_Proofs
  imports Gnss_Ni
begin

text \<open>
  What holds of network-initiated requests: every request the adapter takes over is in one place
  until it is freed once, and can always be brought to its end if its thread was started; an answer
  the modem gets was given by a client to that request as long as no thread runs between the two
  halves of an answer's message, and need not have been otherwise.
\<close>

section \<open>Steps and runs\<close>

lemma ni_run_append:
  "ni_run (es @ fs) st = (case ni_run es st of Some st' \<Rightarrow> ni_run fs st' | None \<Rightarrow> None)"
  by (induction es arbitrary: st) (auto split: option.splits)

lemma ni_get_put [simp]:
  "ni_get k (ni_put k' p st) = (if k = k' then p else ni_get k st)"
  by (cases k; cases k') auto

lemma ni_put_fields [simp]:
  "ni_threads (ni_put k p st) = ni_threads st"
  "ni_posted (ni_put k p st) = ni_posted st"
  "ni_log (ni_put k p st) = ni_log st"
  "ni_clients (ni_put k p st) = ni_clients st"
  "ni_adapter (ni_put k p st) = ni_adapter st"
  "reqIDCounter (ni_put k p st) = reqIDCounter st"
  by (cases k; simp)+

lemma ni_get_upd [simp]:
  "ni_get k (st\<lparr>ni_threads := ts\<rparr>) = ni_get k st"
  "ni_get k (st\<lparr>ni_posted := ps\<rparr>) = ni_get k st"
  "ni_get k (st\<lparr>ni_clients := cs\<rparr>) = ni_get k st"
  "ni_get k (st\<lparr>ni_adapter := a\<rparr>) = ni_get k st"
  "ni_get k (st\<lparr>reqIDCounter := c\<rparr>) = ni_get k st"
  by (cases k; simp)+

lemma ni_logs_fields [simp]:
  "ni_threads (ni_logs cs st) = ni_threads st"
  "ni_posted (ni_logs cs st) = ni_posted st"
  "ni_log (ni_logs cs st) = ni_log st @ cs"
  "ni_clients (ni_logs cs st) = ni_clients st"
  "ni_adapter (ni_logs cs st) = ni_adapter st"
  "reqIDCounter (ni_logs cs st) = reqIDCounter st"
  "ni_get k (ni_logs cs st) = ni_get k st"
  by (cases k; simp add: ni_logs_def)+

lemma niSession_get:
  "niSession st = ni_get NI_ORDINARY st" "niSessionEs st = ni_get NI_EMERGENCY st"
  by simp_all

declare ni_get.simps [simp del] ni_put.simps [simp del]

section \<open>Where a request is\<close>

fun ni_sent :: "ni_pc \<Rightarrow> ptr multiset" where
  "ni_sent (NiUnlocked (Some a)) = {#snd a#}"
| "ni_sent (NiTimeCleared (Some a)) = {#snd a#}"
| "ni_sent (NiIdCleared (Some a)) = {#snd a#}"
| "ni_sent _ = {#}"

definition ni_raw :: "NiSession \<Rightarrow> ptr multiset" where
  "ni_raw p = (if rawRequest p = NULL then {#} else {#rawRequest p#})"

definition ni_held :: "ni_state \<Rightarrow> ptr multiset" where
  "ni_held st =
     ni_raw (ni_get NI_ORDINARY st) + ni_raw (ni_get NI_EMERGENCY st)
     + (\<Sum>t\<leftarrow>ni_threads st. ni_sent (snd t)) + mset (map snd (ni_posted st))"

fun ni_freed :: "ni_call list \<Rightarrow> ptr multiset" where
  "ni_freed [] = {#}"
| "ni_freed (NI_free r # cs) = add_mset r (ni_freed cs)"
| "ni_freed (_ # cs) = ni_freed cs"

lemma ni_freed_append [simp]: "ni_freed (cs @ ds) = ni_freed cs + ni_freed ds"
  by (induction cs rule: ni_freed.induct) auto

text \<open>The requests a run hands over while some client can be asked.\<close>

fun ni_hands :: "ni_event \<Rightarrow> ni_state \<Rightarrow> ptr list" where
  "ni_hands (NiMsgRequest created notify data) st =
     (if find (\<lambda>e. cb_gnssNi (snd e)) (ni_clients st) \<noteq> None \<and> data \<noteq> NULL then [data] else [])"
| "ni_hands _ st = []"

fun ni_taken :: "ni_event list \<Rightarrow> ni_state \<Rightarrow> ptr list" where
  "ni_taken [] st = []"
| "ni_taken (e # es) st =
     ni_hands e st @ (case ni_step e st of Some st' \<Rightarrow> ni_taken es st' | None \<Rightarrow> [])"

lemma sum_list_update_mset:
  "i < length xs \<Longrightarrow>
     (\<Sum>t\<leftarrow>xs[i := x]. f t) + f (xs ! i) = (\<Sum>t\<leftarrow>xs. f t) + (f x :: 'b multiset)"
proof (induction xs arbitrary: i)
  case (Cons y xs)
  then show ?case
    by (cases i) (auto simp: ac_simps)
qed simp

lemma ni_sent_update:
  "\<lbrakk>i < length ts; ni_sent (snd (ts ! i)) = {#}\<rbrakk> \<Longrightarrow>
     (\<Sum>t\<leftarrow>ts[i := x]. ni_sent (snd t)) = (\<Sum>t\<leftarrow>ts. ni_sent (snd t)) + ni_sent (snd x)"
  using sum_list_update_mset[where x = x and f = "\<lambda>t. ni_sent (snd t)"] by fastforce

lemma ni_raw_fields [simp]:
  "ni_raw (p\<lparr>respTimeLeft := t\<rparr>) = ni_raw p"
  "ni_raw (p\<lparr>reqID := c\<rparr>) = ni_raw p"
  "ni_raw (p\<lparr>ni_resp := r\<rparr>) = ni_raw p"
  "ni_raw (p\<lparr>respRecvd := b\<rparr>) = ni_raw p"
  by (simp_all add: ni_raw_def)

lemma ni_raw_put:
  "ni_raw p = ni_raw (ni_get k st) \<Longrightarrow> ni_held (ni_put k p st) = ni_held st"
  by (cases k) (simp_all add: ni_held_def)

text \<open>What is held, without what a session holds.\<close>

definition ni_elsewhere :: "ni_state \<Rightarrow> ptr multiset" where
  "ni_elsewhere st = (\<Sum>t\<leftarrow>ni_threads st. ni_sent (snd t)) + mset (map snd (ni_posted st))"

lemma ni_held_alt:
  "ni_held st = ni_raw (ni_get NI_ORDINARY st) + ni_raw (ni_get NI_EMERGENCY st) + ni_elsewhere st"
  by (simp add: ni_held_def ni_elsewhere_def)

lemma ni_take_held:
  assumes "i < length (ni_threads st)" "ni_sent (snd (ni_threads st ! i)) = {#}"
  shows "ni_held (ni_take i k st) + ni_freed (ni_log (ni_take i k st))
       = ni_held st + ni_freed (ni_log st)"
  using ni_sent_update[OF assms]
  by (cases k) (auto simp: ni_take_def Let_def ni_held_def ni_raw_def ac_simps)

lemma ni_held_logs [simp]: "ni_held (ni_logs cs st) = ni_held st"
  by (simp add: ni_held_def)

lemma ni_held_adapter [simp]: "ni_held (st\<lparr>ni_adapter := a\<rparr>) = ni_held st"
  by (simp add: ni_held_def)

lemma ni_accept_held:
  assumes "rawRequest (ni_get k st) = NULL"
  shows "ni_held (ni_accept created client notify data k st)
       = ni_held st + (if data = NULL then {#} else {#data#})"
    and "ni_freed (ni_log (ni_accept created client notify data k st)) = ni_freed (ni_log st)"
  using assms
  by (cases k; auto simp: ni_accept_def Let_def ni_held_def ni_raw_def)+

lemma requestNiNotify_held:
  "ni_held (requestNiNotify created notify data st)
     + ni_freed (ni_log (requestNiNotify created notify data st))
   = ni_held st + ni_freed (ni_log st) + mset (ni_hands (NiMsgRequest created notify data) st)"
  by (auto simp: requestNiNotify_def ni_refuse_def ni_accept_held niSession_get
      split: option.splits)

lemma ni_store_held: "ni_held (ni_store k r st) = ni_held st"
  by (simp add: ni_store_def ni_raw_put)

lemma ni_reportResponse_held:
  "ni_held (ni_reportResponse c e i st) = ni_held st"
  "ni_freed (ni_log (ni_reportResponse c e i st)) = ni_freed (ni_log st)"
  by (auto simp: ni_reportResponse_def split: option.splits)

lemma ni_held_threads:
  "\<lbrakk>i < length (ni_threads st); ni_sent (snd x) = ni_sent (snd (ni_threads st ! i))\<rbrakk> \<Longrightarrow>
     ni_held (st\<lparr>ni_threads := (ni_threads st)[i := x]\<rparr>) = ni_held st"
  using sum_list_update_mset[of i "ni_threads st" "\<lambda>t. ni_sent (snd t)" x]
  by (simp add: ni_held_def)

lemma ni_held_post:
  assumes "i < length (ni_threads st)" "ni_threads st ! i = (k, NiIdCleared sent)"
  shows "ni_held (st\<lparr>ni_posted := ni_posted st @ (case sent of Some a \<Rightarrow> [a] | None \<Rightarrow> []),
           ni_threads := (ni_threads st)[i := (k, NiDone)]\<rparr>) = ni_held st"
  using sum_list_update_mset[OF assms(1), of "\<lambda>t. ni_sent (snd t)" "(k, NiDone)"] assms(2)
  by (auto simp: ni_held_def ac_simps split: option.splits)

text \<open>The cases of a step of a waiting thread.\<close>

lemma niThread_run_cases:
  assumes "niThread_run i now st = Some st'"
  obtains (start) k where "i < length (ni_threads st)" "ni_threads st ! i = (k, NiCreated)"
      "\<not> respRecvd (ni_get k st)"
      "st' = st\<lparr>ni_threads := (ni_threads st)
               [i := (k, NiWaiting (fst now + uint (respTimeLeft (ni_get k st)), snd now))]\<rparr>"
  | (take) k pc where "i < length (ni_threads st)" "ni_threads st ! i = (k, pc)"
      "pc = NiCreated \<or> (\<exists>e. pc = NiWaiting e)" "respRecvd (ni_get k st)" "st' = ni_take i k st"
  | (time) k sent where "i < length (ni_threads st)" "ni_threads st ! i = (k, NiUnlocked sent)"
      "st' = (ni_put k ((ni_get k st)\<lparr>respTimeLeft := 0\<rparr>) st)
               \<lparr>ni_threads := (ni_threads st)[i := (k, NiTimeCleared sent)]\<rparr>"
  | (id) k sent where "i < length (ni_threads st)" "ni_threads st ! i = (k, NiTimeCleared sent)"
      "st' = (ni_put k ((ni_get k st)\<lparr>reqID := 0\<rparr>) st)
               \<lparr>ni_threads := (ni_threads st)[i := (k, NiIdCleared sent)]\<rparr>"
  | (post) k sent where "i < length (ni_threads st)" "ni_threads st ! i = (k, NiIdCleared sent)"
      "st' = st\<lparr>ni_posted := ni_posted st @ (case sent of Some a \<Rightarrow> [a] | None \<Rightarrow> []),
               ni_threads := (ni_threads st)[i := (k, NiDone)]\<rparr>"
proof -
  obtain k pc where kpc: "ni_threads st ! i = (k, pc)" by fastforce
  have i: "i < length (ni_threads st)"
    using assms by (simp add: niThread_run_def split: if_splits)
  show thesis
  proof (cases pc)
    case NiCreated
    then show ?thesis
      using assms kpc i start take by (auto simp: niThread_run_def Let_def split: if_splits)
  next
    case (NiWaiting e)
    then show ?thesis
      using assms kpc i take by (auto simp: niThread_run_def split: if_splits)
  next
    case (NiUnlocked s)
    then show ?thesis
      using assms kpc i time by (auto simp: niThread_run_def)
  next
    case (NiTimeCleared s)
    then show ?thesis
      using assms kpc i id by (auto simp: niThread_run_def)
  next
    case (NiIdCleared s)
    then show ?thesis
      using assms kpc i post by (auto simp: niThread_run_def)
  next
    case NiDone
    then show ?thesis
      using assms kpc i by (simp add: niThread_run_def)
  qed
qed

lemma niThread_timeout_cases:
  assumes "niThread_timeout i now st = Some st'"
  obtains k e where "i < length (ni_threads st)" "ni_threads st ! i = (k, NiWaiting e)"
    "timespec_le e now"
    "st' = ni_take i k (ni_put k ((ni_get k st)\<lparr>ni_resp := GNSS_NI_RESPONSE_NO_RESPONSE\<rparr>) st)"
  using assms by (auto simp: niThread_timeout_def split: if_splits prod.splits ni_pc.splits)

lemma gnssNiResponse_next_cases:
  assumes "gnssNiResponse_next st = Some st'"
  obtains (store) k r us c err sid where "ni_adapter st = NiStoring ((k, r) # us) c err sid"
      "st' = (ni_store k r st)\<lparr>ni_adapter := NiStoring us c err sid\<rparr>"
  | (report) c err sid where "ni_adapter st = NiStoring [] c err sid"
      "st' = (ni_reportResponse c err sid st)\<lparr>ni_adapter := NiIdle\<rparr>"
  using assms by (auto split: ni_adapter.splits list.splits)

lemma gnssNiResponse_inform_cases:
  assumes "gnssNiResponse_inform st = Some st'"
  obtains r raw ps where "ni_posted st = (r, raw) # ps"
    "st' = ni_logs [NI_inform r raw, NI_free raw] (st\<lparr>ni_posted := ps\<rparr>)"
  using assms by (auto split: list.splits)

lemma gnssNiResponse_begin_alt:
  "gnssNiResponse_begin c sid r st =
     st\<lparr>ni_adapter := NiStoring (fst (gnssNiResponse_find c sid r st)) c
                      (snd (gnssNiResponse_find c sid r st)) sid\<rparr>"
  by (simp add: gnssNiResponse_begin_def split: prod.splits)

lemma niThread_run_held:
  assumes "niThread_run i now st = Some st'"
  shows "ni_held st' + ni_freed (ni_log st') = ni_held st + ni_freed (ni_log st)"
  using assms
proof (cases rule: niThread_run_cases)
  case (start k)
  then show ?thesis by (simp add: ni_held_threads)
next
  case (take k pc)
  then show ?thesis by (auto intro!: ni_take_held)
next
  case (time k sent)
  then show ?thesis
    using ni_held_threads[of i "ni_put k ((ni_get k st)\<lparr>respTimeLeft := 0\<rparr>) st" "(k, NiTimeCleared sent)"]
    by (cases sent) (simp_all add: ni_raw_put)
next
  case (id k sent)
  then show ?thesis
    using ni_held_threads[of i "ni_put k ((ni_get k st)\<lparr>reqID := 0\<rparr>) st" "(k, NiIdCleared sent)"]
    by (cases sent) (simp_all add: ni_raw_put)
next
  case (post k sent)
  then show ?thesis using ni_held_post[of i st k sent] by simp
qed

lemma ni_step_held:
  assumes "ni_step e st = Some st'"
  shows "ni_held st' + ni_freed (ni_log st')
       = ni_held st + ni_freed (ni_log st) + mset (ni_hands e st)"
proof (cases e)
  case (NiMsgClients m)
  then show ?thesis using assms by (auto simp: ni_held_def split: if_splits)
next
  case (NiMsgRequest created notify data)
  then show ?thesis
    using assms requestNiNotify_held[of created notify data st]
    by (auto simp del: ni_hands.simps split: if_splits)
next
  case (NiMsgResponse c sid r)
  then show ?thesis using assms by (auto simp: gnssNiResponse_begin_alt split: if_splits)
next
  case NiNext
  then have "gnssNiResponse_next st = Some st'" using assms by (simp del: gnssNiResponse_next.simps)
  then show ?thesis
    by (cases rule: gnssNiResponse_next_cases)
       (simp_all add: NiNext ni_store_held ni_reportResponse_held, simp add: ni_store_def)
next
  case NiMsgInform
  then have "gnssNiResponse_inform st = Some st'"
    using assms by (simp del: gnssNiResponse_inform.simps split: if_splits)
  then show ?thesis
    by (cases rule: gnssNiResponse_inform_cases) (simp add: NiMsgInform ni_held_def)
next
  case (NiRun i now)
  then show ?thesis using assms by (simp add: niThread_run_held)
next
  case (NiTimeout i now)
  then have "niThread_timeout i now st = Some st'" using assms by simp
  then show ?thesis
  proof (cases rule: niThread_timeout_cases)
    case (1 k e')
    then show ?thesis
      using ni_take_held[of i "ni_put k ((ni_get k st)\<lparr>ni_resp := GNSS_NI_RESPONSE_NO_RESPONSE\<rparr>) st" k]
      by (simp add: NiTimeout ni_raw_put)
  qed
qed

lemma ni_run_held:
  assumes "ni_run es st = Some st'"
  shows "ni_held st' + ni_freed (ni_log st')
       = ni_held st + ni_freed (ni_log st) + mset (ni_taken es st)"
  using assms
proof (induction es arbitrary: st)
  case (Cons e es)
  then obtain st1 where s: "ni_step e st = Some st1" and r: "ni_run es st1 = Some st'"
    by (auto split: option.splits)
  show ?case
    using Cons.IH[OF r] ni_step_held[OF s] s by (simp add: ac_simps)
qed simp

text \<open>In a log: every answer the modem gets is followed by the release of its request.\<close>

fun ni_answers_end :: "ni_call list \<Rightarrow> bool" where
  "ni_answers_end [] = True"
| "ni_answers_end (NI_inform r raw # cs) = (take 1 cs = [NI_free raw] \<and> ni_answers_end cs)"
| "ni_answers_end (_ # cs) = ni_answers_end cs"

lemma take_1_conv: "take 1 cs = [x] \<longleftrightarrow> (\<exists>cs'. cs = x # cs')"
  by (cases cs) auto

lemma ni_answers_end_append:
  "\<lbrakk>ni_answers_end cs; ni_answers_end ds\<rbrakk> \<Longrightarrow> ni_answers_end (cs @ ds)"
  by (induction cs rule: ni_answers_end.induct) (auto simp: take_1_conv simp del: One_nat_def)

lemma ni_take_log: "\<exists>cs. ni_log (ni_take i k st) = ni_log st @ cs \<and> ni_answers_end cs"
  by (auto simp: ni_take_def Let_def)

lemma ni_step_log:
  assumes "ni_step e st = Some st'"
  shows "\<exists>cs. ni_log st' = ni_log st @ cs \<and> ni_answers_end cs"
proof (cases e)
  case (NiMsgRequest created notify data)
  then show ?thesis
    using assms
    by (auto simp: requestNiNotify_def ni_refuse_def ni_accept_def Let_def split: if_splits option.splits)
next
  case NiNext
  then have "gnssNiResponse_next st = Some st'" using assms by (simp del: gnssNiResponse_next.simps)
  then show ?thesis
    by (cases rule: gnssNiResponse_next_cases)
       (auto simp: ni_store_def ni_reportResponse_def split: option.splits)
next
  case NiMsgInform
  then have "gnssNiResponse_inform st = Some st'"
    using assms by (simp del: gnssNiResponse_inform.simps split: if_splits)
  then show ?thesis by (cases rule: gnssNiResponse_inform_cases) simp
next
  case (NiRun i now)
  then have "niThread_run i now st = Some st'" using assms by simp
  then show ?thesis
    by (cases rule: niThread_run_cases) (auto simp: ni_take_log)
next
  case (NiTimeout i now)
  then have "niThread_timeout i now st = Some st'" using assms by simp
  then show ?thesis
  proof (cases rule: niThread_timeout_cases)
    case (1 k e')
    then show ?thesis
      using ni_take_log[of i k "ni_put k ((ni_get k st)\<lparr>ni_resp := GNSS_NI_RESPONSE_NO_RESPONSE\<rparr>) st"]
      by simp
  qed
qed (use assms in \<open>auto simp: gnssNiResponse_begin_alt split: if_splits\<close>)

lemma ni_run_log:
  "\<lbrakk>ni_run es st = Some st'; ni_answers_end (ni_log st)\<rbrakk> \<Longrightarrow> ni_answers_end (ni_log st')"
proof (induction es arbitrary: st)
  case (Cons e es)
  then obtain st1 where s: "ni_step e st = Some st1" and r: "ni_run es st1 = Some st'"
    by (auto split: option.splits)
  then show ?case
    using Cons.IH[OF r] ni_step_log[OF s] Cons.prems(2) by (auto simp: ni_answers_end_append)
qed simp

lemma ni_init_simps [simp]:
  "ni_held ni_init = {#}" "ni_log ni_init = []" "ni_threads ni_init = []"
  "ni_get k ni_init = NiSession_init" "ni_adapter ni_init = NiIdle" "ni_posted ni_init = []"
  by (cases k; simp add: ni_init_def ni_held_def ni_raw_def NiSession_init_def ni_get.simps)+

section \<open>Every request comes to its end\<close>

fun ni_active :: "ni_pc \<Rightarrow> bool" where
  "ni_active NiCreated = True"
| "ni_active (NiWaiting e) = True"
| "ni_active _ = False"

text \<open>Some thread watches the request of a session.\<close>

definition ni_watching :: "ni_kind \<Rightarrow> (ni_kind \<times> ni_pc) list \<Rightarrow> bool" where
  "ni_watching k ts \<longleftrightarrow> (\<exists>t \<in> set ts. fst t = k \<and> ni_active (snd t))"

definition ni_watched :: "ni_kind \<Rightarrow> ni_state \<Rightarrow> bool" where
  "ni_watched k st \<longleftrightarrow> ni_watching k (ni_threads st)"

fun ni_creates :: "ni_event \<Rightarrow> bool" where
  "ni_creates (NiMsgRequest created notify data) = created"
| "ni_creates _ = True"

definition ni_served :: "ni_state \<Rightarrow> bool" where
  "ni_served st \<longleftrightarrow> (\<forall>k. rawRequest (ni_get k st) = NULL \<or> ni_watched k st)"

lemma set_update_other:
  "\<lbrakk>i < length ts; t \<in> set ts; t \<noteq> ts ! i\<rbrakk> \<Longrightarrow> t \<in> set (ts[i := x])"
  by (metis in_set_conv_nth length_list_update nth_list_update_neq)

lemma ni_watched_upd [simp]:
  "ni_watched k (ni_put k' p st) = ni_watched k st"
  "ni_watched k (ni_logs cs st) = ni_watched k st"
  "ni_watched k (st\<lparr>ni_adapter := a\<rparr>) = ni_watched k st"
  "ni_watched k (st\<lparr>ni_posted := ps\<rparr>) = ni_watched k st"
  "ni_watched k (st\<lparr>ni_clients := cs'\<rparr>) = ni_watched k st"
  by (simp_all add: ni_watched_def)

lemma ni_watching_update:
  assumes "i < length ts" "ts ! i = (k, pc)" "ni_watching k' ts"
    "k' \<noteq> k \<or> \<not> ni_active pc \<or> ni_active pc'"
  shows "ni_watching k' (ts[i := (k, pc')])"
proof -
  obtain t where t: "t \<in> set ts" "fst t = k'" "ni_active (snd t)"
    using assms(3) by (auto simp: ni_watching_def)
  show ?thesis
  proof (cases "t = ts ! i")
    case True
    then have "(k', pc') \<in> set (ts[i := (k, pc')])" "ni_active pc'"
      using assms t by (auto simp: set_update_memI)
    then show ?thesis unfolding ni_watching_def by force
  next
    case False
    then show ?thesis
      using set_update_other[OF assms(1) t(1) False] t by (auto simp: ni_watching_def)
  qed
qed

lemma ni_take_fields:
  "ni_threads (ni_take i k st) =
     (ni_threads st)[i := (k, NiUnlocked (if rawRequest (ni_get k st) \<noteq> NULL \<and>
        ni_resp (ni_get k st) \<noteq> GNSS_NI_RESPONSE_IGNORE
        then Some (ni_resp (ni_get k st), rawRequest (ni_get k st)) else None))]"
  "ni_get k' (ni_take i k st) =
     (if k' = k then (ni_get k st)\<lparr>respRecvd := False, rawRequest := NULL\<rparr> else ni_get k' st)"
  "ni_adapter (ni_take i k st) = ni_adapter st"
  "ni_posted (ni_take i k st) = ni_posted st"
  "ni_clients (ni_take i k st) = ni_clients st"
  by (auto simp: ni_take_def Let_def)

lemma ni_take_watched:
  assumes "i < length (ni_threads st)" "ni_threads st ! i = (k, pc)" "ni_watched k' st" "k' \<noteq> k"
  shows "ni_watched k' (ni_take i k st)"
  using assms(3,4) ni_watching_update[OF assms(1,2)]
  by (simp add: ni_watched_def ni_take_fields(1))

lemma ni_take_served:
  assumes "i < length (ni_threads st)" "ni_threads st ! i = (k, pc)" "ni_served st"
  shows "ni_served (ni_take i k st)"
  using assms ni_take_watched[OF assms(1,2)] by (auto simp: ni_served_def ni_take_fields)

lemma ni_served_update:
  assumes "i < length (ni_threads st)" "ni_threads st ! i = (k, pc)" "ni_served st"
    "\<not> ni_active pc \<or> ni_active pc'"
  shows "ni_served (st\<lparr>ni_threads := (ni_threads st)[i := (k, pc')]\<rparr>)"
  using assms(3,4) ni_watching_update[OF assms(1,2), of _ pc']
  by (auto simp: ni_served_def ni_watched_def)

lemma ni_served_put:
  "\<lbrakk>rawRequest p = rawRequest (ni_get k st); ni_served st\<rbrakk> \<Longrightarrow> ni_served (ni_put k p st)"
  by (auto simp: ni_served_def)

lemma ni_accept_served:
  assumes "ni_served st"
  shows "ni_served (ni_accept True c n d k st)"
  using assms by (auto simp: ni_served_def ni_accept_def Let_def ni_watched_def ni_watching_def)

lemma niThread_run_served:
  assumes "niThread_run i now st = Some st'" "ni_served st"
  shows "ni_served st'"
  using assms(1)
proof (cases rule: niThread_run_cases)
  case (start k)
  then show ?thesis using ni_served_update[OF start(1,2) assms(2)] by simp
next
  case (take k pc)
  then show ?thesis using ni_take_served[OF take(1,2) assms(2)] by simp
next
  case (time k sent)
  then show ?thesis
    using ni_served_update[of i "ni_put k ((ni_get k st)\<lparr>respTimeLeft := 0\<rparr>) st"] assms(2)
    by (simp add: ni_served_put)
next
  case (id k sent)
  then show ?thesis
    using ni_served_update[of i "ni_put k ((ni_get k st)\<lparr>reqID := 0\<rparr>) st"] assms(2)
    by (simp add: ni_served_put)
next
  case (post k sent)
  then show ?thesis
    using ni_served_update[OF post(1,2) assms(2), of NiDone]
    by (simp add: ni_served_def ni_watched_def)
qed

lemma ni_served_logs [simp]: "ni_served (ni_logs cs st) = ni_served st"
  by (simp add: ni_served_def)

lemma ni_step_served:
  assumes "ni_step e st = Some st'" "ni_creates e" "ni_served st"
  shows "ni_served st'"
proof (cases e)
  case (NiMsgRequest created notify data)
  then show ?thesis
    using assms ni_accept_served[OF assms(3)]
    by (auto simp: requestNiNotify_def ni_refuse_def split: if_splits option.splits)
next
  case NiNext
  then have "gnssNiResponse_next st = Some st'" using assms by (simp del: gnssNiResponse_next.simps)
  then show ?thesis
    using assms(3)
    by (cases rule: gnssNiResponse_next_cases)
       (auto simp: ni_served_def ni_store_def ni_reportResponse_def split: option.splits)
next
  case NiMsgInform
  then have "gnssNiResponse_inform st = Some st'"
    using assms by (simp del: gnssNiResponse_inform.simps split: if_splits)
  then show ?thesis
    using assms(3) by (cases rule: gnssNiResponse_inform_cases) (simp add: ni_served_def)
next
  case (NiRun i now)
  then show ?thesis using assms niThread_run_served by simp
next
  case (NiTimeout i now)
  then have "niThread_timeout i now st = Some st'" using assms by simp
  then show ?thesis
  proof (cases rule: niThread_timeout_cases)
    case (1 k e')
    then show ?thesis
      using ni_take_served[of i "ni_put k ((ni_get k st)\<lparr>ni_resp := GNSS_NI_RESPONSE_NO_RESPONSE\<rparr>) st"]
        assms(3) by (simp add: ni_served_put)
  qed
qed (use assms in \<open>auto simp: gnssNiResponse_begin_alt ni_served_def split: if_splits\<close>)

lemma ni_run_served:
  "\<lbrakk>ni_run es st = Some st'; \<forall>e \<in> set es. ni_creates e; ni_served st\<rbrakk> \<Longrightarrow> ni_served st'"
  by (induction es arbitrary: st) (auto simp: ni_step_served split: option.splits)

text \<open>
  What happens without anything new from the modem or the clients, and the states it leads to.
\<close>

fun ni_internal :: "ni_event \<Rightarrow> bool" where
  "ni_internal NiNext = True"
| "ni_internal NiMsgInform = True"
| "ni_internal (NiRun i now) = True"
| "ni_internal (NiTimeout i now) = True"
| "ni_internal _ = False"

inductive ni_reaches :: "ni_state \<Rightarrow> ni_state \<Rightarrow> bool" where
  refl: "ni_reaches st st"
| step: "\<lbrakk>ni_internal e; ni_step e st = Some st1; ni_reaches st1 st2\<rbrakk> \<Longrightarrow> ni_reaches st st2"

lemma ni_internal_creates: "ni_internal e \<Longrightarrow> ni_creates e"
  by (cases e) auto

lemma ni_reaches_trans: "\<lbrakk>ni_reaches a b; ni_reaches b c\<rbrakk> \<Longrightarrow> ni_reaches a c"
  by (induction rule: ni_reaches.induct) (auto intro: ni_reaches.step)

lemma ni_reaches_run:
  "ni_reaches st st' \<Longrightarrow>
     \<exists>es. (\<forall>e \<in> set es. ni_internal e) \<and> ni_run es st = Some st' \<and> ni_taken es st = []"
proof (induction rule: ni_reaches.induct)
  case (refl st)
  then show ?case by (intro exI[of _ "[]"]) simp
next
  case (step e st st1 st2)
  then obtain es where "\<forall>e \<in> set es. ni_internal e" "ni_run es st1 = Some st2" "ni_taken es st1 = []"
    by blast
  moreover have "ni_hands e st = []" using step.hyps(1) by (cases e) auto
  ultimately show ?case using step.hyps by (intro exI[of _ "e # es"]) simp
qed

definition ni_ends :: "nat \<Rightarrow> ni_kind \<Rightarrow> ni_state \<Rightarrow> bool" where
  "ni_ends i k st \<longleftrightarrow> (\<exists>st'. ni_reaches st st' \<and> ni_threads st' = (ni_threads st)[i := (k, NiDone)]
                                   \<and> ni_adapter st' = ni_adapter st)"

lemma ni_ends_step:
  assumes "ni_step e st = Some st1" "ni_internal e" "ni_threads st1 = (ni_threads st)[i := x]"
    "ni_adapter st1 = ni_adapter st" "ni_ends i k st1"
  shows "ni_ends i k st"
  using assms by (auto simp: ni_ends_def intro: ni_reaches.step)

fun ni_steps_left :: "ni_pc \<Rightarrow> nat" where
  "ni_steps_left NiCreated = 5"
| "ni_steps_left (NiWaiting e) = 4"
| "ni_steps_left (NiUnlocked s) = 3"
| "ni_steps_left (NiTimeCleared s) = 2"
| "ni_steps_left (NiIdCleared s) = 1"
| "ni_steps_left NiDone = 0"

text \<open>The event that brings a thread on: the wait of one that waits times out.\<close>

fun ni_next_event :: "nat \<Rightarrow> ni_pc \<Rightarrow> ni_event" where
  "ni_next_event i (NiWaiting e) = NiTimeout i e"
| "ni_next_event i _ = NiRun i (0, 0)"

lemma ni_thread_step:
  assumes "i < length (ni_threads st)" "ni_threads st ! i = (k, pc)" "pc \<noteq> NiDone"
  shows "\<exists>st1 pc'. ni_step (ni_next_event i pc) st = Some st1
           \<and> ni_threads st1 = (ni_threads st)[i := (k, pc')]
           \<and> ni_adapter st1 = ni_adapter st \<and> ni_steps_left pc' < ni_steps_left pc"
  using assms
  by (cases pc)
     (auto simp: niThread_run_def niThread_timeout_def timespec_le_def ni_take_fields Let_def)

lemma ni_thread_ends:
  "\<lbrakk>i < length (ni_threads st); ni_threads st ! i = (k, pc)\<rbrakk> \<Longrightarrow> ni_ends i k st"
proof (induction "ni_steps_left pc" arbitrary: pc st rule: less_induct)
  case less
  show ?case
  proof (cases "pc = NiDone")
    case True
    then show ?thesis
      unfolding ni_ends_def using less.prems by (metis list_update_id ni_reaches.refl)
  next
    case False
    then obtain st1 pc' where 1: "ni_step (ni_next_event i pc) st = Some st1"
        "ni_threads st1 = (ni_threads st)[i := (k, pc')]" "ni_adapter st1 = ni_adapter st"
        "ni_steps_left pc' < ni_steps_left pc"
      using ni_thread_step[OF less.prems False] by blast
    have "ni_internal (ni_next_event i pc)" by (cases pc) auto
    moreover have "ni_ends i k st1"
      using less.hyps[OF 1(4), of st1] 1(2) less.prems(1) by simp
    ultimately show ?thesis using ni_ends_step[OF 1(1) _ 1(2,3)] by blast
  qed
qed

lemma ni_threads_end:
  "j \<le> length (ni_threads st) \<Longrightarrow>
     \<exists>st'. ni_reaches st st' \<and> length (ni_threads st') = length (ni_threads st)
         \<and> (\<forall>i < j. snd (ni_threads st' ! i) = NiDone) \<and> ni_adapter st' = ni_adapter st"
proof (induction j)
  case 0
  then show ?case by (auto intro: ni_reaches.refl)
next
  case (Suc j)
  then obtain st1 where st1: "ni_reaches st st1" "length (ni_threads st1) = length (ni_threads st)"
      "\<forall>i < j. snd (ni_threads st1 ! i) = NiDone" "ni_adapter st1 = ni_adapter st"
    by auto
  have j: "j < length (ni_threads st1)" using Suc.prems st1(2) by simp
  obtain k pc where "ni_threads st1 ! j = (k, pc)" by fastforce
  then obtain st2 where st2: "ni_reaches st1 st2" "ni_threads st2 = (ni_threads st1)[j := (k, NiDone)]"
      "ni_adapter st2 = ni_adapter st1"
    using ni_thread_ends[OF j] unfolding ni_ends_def by blast
  have "\<forall>i < Suc j. snd (ni_threads st2 ! i) = NiDone"
    using st1(3) st2(2) j by (auto simp: less_Suc_eq nth_list_update)
  then show ?case
    using ni_reaches_trans[OF st1(1) st2(1)] st1 st2 by (intro exI[of _ st2]) simp
qed

lemma ni_adapter_ends: "\<exists>st'. ni_reaches st st' \<and> ni_adapter st' = NiIdle"
proof (cases "ni_adapter st")
  case NiIdle
  then show ?thesis by (auto intro: ni_reaches.refl)
next
  case (NiStoring us c err sid)
  then show ?thesis
  proof (induction us arbitrary: st)
    case Nil
    then have "ni_step NiNext st = Some ((ni_reportResponse c err sid st)\<lparr>ni_adapter := NiIdle\<rparr>)"
      by simp
    from ni_reaches.step[OF _ this ni_reaches.refl] show ?case by auto
  next
    case (Cons u us)
    obtain k r where u: "u = (k, r)" by fastforce
    let ?st = "(ni_store k r st)\<lparr>ni_adapter := NiStoring us c err sid\<rparr>"
    have "ni_step NiNext st = Some ?st" using Cons.prems by (simp add: u)
    moreover obtain st' where "ni_reaches ?st st'" "ni_adapter st' = NiIdle"
      using Cons.IH[of ?st] by auto
    ultimately show ?case using ni_reaches.step[of NiNext st] by auto
  qed
qed

lemma ni_posted_end:
  "ni_adapter st = NiIdle \<Longrightarrow>
     \<exists>st'. ni_reaches st st' \<and> ni_posted st' = [] \<and> ni_threads st' = ni_threads st
         \<and> ni_adapter st' = NiIdle"
proof (induction "ni_posted st" arbitrary: st)
  case Nil
  then show ?case by (auto intro: ni_reaches.refl)
next
  case (Cons p ps)
  obtain r raw where p: "p = (r, raw)" by fastforce
  let ?st = "ni_logs [NI_inform r raw, NI_free raw] (st\<lparr>ni_posted := ps\<rparr>)"
  have "ni_step NiMsgInform st = Some ?st"
    using Cons.hyps(2)[symmetric] Cons.prems by (simp add: p)
  moreover obtain st' where "ni_reaches ?st st'" "ni_posted st' = []" "ni_threads st' = ni_threads st"
      "ni_adapter st' = NiIdle"
    using Cons.hyps(1)[of ?st] Cons.prems by auto
  ultimately show ?case using ni_reaches.step[of NiMsgInform st] by auto
qed

lemma ni_sent_none:
  "(\<And>t. t \<in> set ts \<Longrightarrow> snd t = NiDone) \<Longrightarrow> (\<Sum>t\<leftarrow>ts. ni_sent (snd t)) = {#}"
  by (induction ts) auto

lemma ni_all_end:
  assumes "ni_served st"
  shows "\<exists>es st'. (\<forall>e \<in> set es. ni_internal e) \<and> ni_run es st = Some st' \<and> ni_taken es st = []
               \<and> ni_held st' = {#}"
proof -
  obtain st1 where 1: "ni_reaches st st1" "ni_adapter st1 = NiIdle"
    using ni_adapter_ends by blast
  obtain st2 where 2: "ni_reaches st1 st2" "length (ni_threads st2) = length (ni_threads st1)"
      "\<forall>i < length (ni_threads st1). snd (ni_threads st2 ! i) = NiDone" "ni_adapter st2 = NiIdle"
    using ni_threads_end[of "length (ni_threads st1)" st1] 1(2) by auto
  obtain st3 where 3: "ni_reaches st2 st3" "ni_posted st3 = []" "ni_threads st3 = ni_threads st2"
    using ni_posted_end[OF 2(4)] by blast
  have "ni_reaches st st3" using 1 2 3 by (blast intro: ni_reaches_trans)
  then obtain es where es: "\<forall>e \<in> set es. ni_internal e" "ni_run es st = Some st3" "ni_taken es st = []"
    using ni_reaches_run by blast
  have "\<forall>e \<in> set es. ni_creates e"
    using es(1) ni_internal_creates by blast
  then have served: "ni_served st3" using ni_run_served[OF es(2)] assms by blast
  have fin: "snd t = NiDone" if "t \<in> set (ni_threads st3)" for t
    using that 2(2,3) 3(3) by (auto simp: in_set_conv_nth)
  have "\<not> ni_watched k st3" for k
    using fin by (auto simp: ni_watched_def ni_watching_def)
  then have "rawRequest (ni_get k st3) = NULL" for k
    using served by (auto simp: ni_served_def)
  moreover have "(\<Sum>t\<leftarrow>ni_threads st3. ni_sent (snd t)) = {#}"
    using fin by (simp add: ni_sent_none)
  ultimately show ?thesis
    using es 3(2) by (intro exI[of _ es] exI[of _ st3]) (simp add: ni_held_def ni_raw_def)
qed

section \<open>Who answered\<close>

text \<open>The requests a run accepts, with the id each was announced under.\<close>

fun ni_accepts :: "ni_event \<Rightarrow> ni_state \<Rightarrow> (ptr \<times> u32) list" where
  "ni_accepts (NiMsgRequest created notify data) st =
     (let st' = requestNiNotify created notify data st
      in if reqIDCounter st' \<noteq> reqIDCounter st then [(data, reqIDCounter st')] else [])"
| "ni_accepts _ st = []"

fun ni_accepted :: "ni_event list \<Rightarrow> ni_state \<Rightarrow> (ptr \<times> u32) list" where
  "ni_accepted [] st = []"
| "ni_accepted (e # es) st =
     ni_accepts e st @ (case ni_step e st of Some st' \<Rightarrow> ni_accepted es st' | None \<Rightarrow> [])"

text \<open>No waiting thread runs between the two halves of the message of an answer.\<close>

fun ni_waits :: "ni_event \<Rightarrow> bool" where
  "ni_waits (NiRun i now) = True"
| "ni_waits (NiTimeout i now) = True"
| "ni_waits _ = False"

fun ni_untorn :: "ni_event list \<Rightarrow> ni_state \<Rightarrow> bool" where
  "ni_untorn [] st = True"
| "ni_untorn (e # es) st =
     ((\<not> ni_waits e \<or> ni_adapter st = NiIdle)
      \<and> (case ni_step e st of Some st' \<Rightarrow> ni_untorn es st' | None \<Rightarrow> True))"

text \<open>
  An answer to a request is authorised by events \<open>H\<close> if it is that of a timeout, or if some client
  gave it to an id the request was announced under, or to the id 0 of a session that is being reset.
\<close>

definition ni_authorised ::
  "ni_event set \<Rightarrow> (ptr \<times> u32) set \<Rightarrow> GnssNiResponse \<Rightarrow> ptr \<Rightarrow> bool" where
  "ni_authorised H A r raw \<longleftrightarrow>
     r = GNSS_NI_RESPONSE_NO_RESPONSE \<or>
     (\<exists>c sid. ((raw, sid) \<in> A \<or> sid = 0) \<and> NiMsgResponse c sid r \<in> H)"

definition ni_stored_ok :: "ni_event set \<Rightarrow> (ptr \<times> u32) set \<Rightarrow> GnssNiResponse \<Rightarrow> NiSession \<Rightarrow> bool" where
  "ni_stored_ok H A r p \<longleftrightarrow>
     rawRequest p \<noteq> NULL \<and> (r = GNSS_NI_RESPONSE_IGNORE \<or> ni_authorised H A r (rawRequest p))"

definition ni_session_ok :: "ni_event set \<Rightarrow> (ptr \<times> u32) set \<Rightarrow> NiSession \<Rightarrow> bool" where
  "ni_session_ok H A p \<longleftrightarrow>
     (respRecvd p \<longrightarrow> ni_stored_ok H A (ni_resp p) p) \<and>
     (rawRequest p = NULL \<or> reqID p = 0 \<or> (rawRequest p, reqID p) \<in> A)"

fun ni_answer :: "ni_pc \<Rightarrow> (GnssNiResponse \<times> ptr) option" where
  "ni_answer (NiUnlocked s) = s"
| "ni_answer (NiTimeCleared s) = s"
| "ni_answer (NiIdCleared s) = s"
| "ni_answer _ = None"

fun ni_stores :: "ni_adapter \<Rightarrow> (ni_kind \<times> GnssNiResponse) list" where
  "ni_stores NiIdle = []"
| "ni_stores (NiStoring us c err sid) = us"

definition ni_ok :: "ni_event set \<Rightarrow> (ptr \<times> u32) set \<Rightarrow> ni_state \<Rightarrow> bool" where
  "ni_ok H A st \<longleftrightarrow>
     (\<forall>k. ni_session_ok H A (ni_get k st)) \<and>
     (\<forall>(k, r) \<in> set (ni_stores (ni_adapter st)). ni_stored_ok H A r (ni_get k st)) \<and>
     (\<forall>(k, pc) \<in> set (ni_threads st). \<forall>r raw. ni_answer pc = Some (r, raw) \<longrightarrow> ni_authorised H A r raw) \<and>
     (\<forall>(r, raw) \<in> set (ni_posted st). ni_authorised H A r raw) \<and>
     (\<forall>r raw. NI_inform r raw \<in> set (ni_log st) \<longrightarrow> ni_authorised H A r raw)"

lemma ni_authorised_mono:
  "\<lbrakk>ni_authorised H A r raw; H \<subseteq> H'; A \<subseteq> A'\<rbrakk> \<Longrightarrow> ni_authorised H' A' r raw"
  unfolding ni_authorised_def by blast

lemma ni_stored_ok_mono:
  "\<lbrakk>ni_stored_ok H A r p; H \<subseteq> H'; A \<subseteq> A'\<rbrakk> \<Longrightarrow> ni_stored_ok H' A' r p"
  unfolding ni_stored_ok_def using ni_authorised_mono by blast

lemma ni_session_ok_mono:
  "\<lbrakk>ni_session_ok H A p; H \<subseteq> H'; A \<subseteq> A'\<rbrakk> \<Longrightarrow> ni_session_ok H' A' p"
  unfolding ni_session_ok_def using ni_stored_ok_mono by blast

lemma ni_ok_mono: "\<lbrakk>ni_ok H A st; H \<subseteq> H'; A \<subseteq> A'\<rbrakk> \<Longrightarrow> ni_ok H' A' st"
  unfolding ni_ok_def
  using ni_authorised_mono[of H A _ _ H' A'] ni_stored_ok_mono[of H A _ _ H' A']
    ni_session_ok_mono[of H A _ H' A']
  by (intro conjI; fast)

lemma ni_okD:
  assumes "ni_ok H A st"
  shows "ni_session_ok H A (ni_get k st)"
    "(k, r) \<in> set (ni_stores (ni_adapter st)) \<Longrightarrow> ni_stored_ok H A r (ni_get k st)"
    "\<lbrakk>(k, pc) \<in> set (ni_threads st); ni_answer pc = Some (r, raw)\<rbrakk> \<Longrightarrow> ni_authorised H A r raw"
    "(r, raw) \<in> set (ni_posted st) \<Longrightarrow> ni_authorised H A r raw"
    "NI_inform r raw \<in> set (ni_log st) \<Longrightarrow> ni_authorised H A r raw"
  using assms unfolding ni_ok_def by fast+

lemma ni_okI:
  assumes "\<And>k. ni_session_ok H A (ni_get k st)"
    "\<And>k r. (k, r) \<in> set (ni_stores (ni_adapter st)) \<Longrightarrow> ni_stored_ok H A r (ni_get k st)"
    "\<And>k pc r raw. \<lbrakk>(k, pc) \<in> set (ni_threads st); ni_answer pc = Some (r, raw)\<rbrakk> \<Longrightarrow> ni_authorised H A r raw"
    "\<And>r raw. (r, raw) \<in> set (ni_posted st) \<Longrightarrow> ni_authorised H A r raw"
    "\<And>r raw. NI_inform r raw \<in> set (ni_log st) \<Longrightarrow> ni_authorised H A r raw"
  shows "ni_ok H A st"
  using assms unfolding ni_ok_def by auto

text \<open>A change of a thread, and of fields that the invariant does not speak of.\<close>

lemma ni_ok_thread:
  assumes "ni_ok H A st" "\<And>r raw. ni_answer pc = Some (r, raw) \<Longrightarrow> ni_authorised H A r raw"
  shows "ni_ok H A (st\<lparr>ni_threads := (ni_threads st)[i := (k, pc)]\<rparr>)"
proof (rule ni_okI)
  fix k' pc' r raw
  assume "(k', pc') \<in> set (ni_threads (st\<lparr>ni_threads := (ni_threads st)[i := (k, pc)]\<rparr>))"
    and a: "ni_answer pc' = Some (r, raw)"
  then have "(k', pc') = (k, pc) \<or> (k', pc') \<in> set (ni_threads st)"
    using set_update_subset_insert by fastforce
  then show "ni_authorised H A r raw" using a assms(2) ni_okD(3)[OF assms(1)] by blast
qed (use ni_okD[OF assms(1)] in simp_all)

lemma ni_ok_put:
  assumes "ni_ok H A st" "ni_adapter st = NiIdle" "ni_session_ok H A p"
  shows "ni_ok H A (ni_put k p st)"
  using assms by (auto intro!: ni_okI dest: ni_okD)

lemma ni_session_ok_reset:
  assumes "ni_session_ok H A p"
  shows "ni_session_ok H A (p\<lparr>respTimeLeft := 0\<rparr>)" "ni_session_ok H A (p\<lparr>reqID := 0\<rparr>)"
    "ni_session_ok H A (p\<lparr>respRecvd := False, rawRequest := NULL\<rparr>)"
  using assms by (auto simp: ni_session_ok_def ni_stored_ok_def)

lemma ni_session_ok_timeout:
  assumes "ni_session_ok H A p"
  shows "ni_session_ok H A (p\<lparr>ni_resp := GNSS_NI_RESPONSE_NO_RESPONSE\<rparr>)"
  using assms by (auto simp: ni_session_ok_def ni_stored_ok_def ni_authorised_def)

lemma ni_ok_logs:
  assumes "ni_ok H A st" "\<And>r raw. NI_inform r raw \<in> set cs \<Longrightarrow> ni_authorised H A r raw"
  shows "ni_ok H A (ni_logs cs st)"
  using assms by (auto intro!: ni_okI dest: ni_okD)

lemma ni_ok_take:
  assumes "ni_ok H A st" "ni_adapter st = NiIdle"
    "rawRequest (ni_get k st) = NULL \<or> ni_stored_ok H A (ni_resp (ni_get k st)) (ni_get k st)"
  shows "ni_ok H A (ni_take i k st)"
proof -
  let ?p = "(ni_get k st)\<lparr>respRecvd := False, rawRequest := NULL\<rparr>"
  have 1: "ni_ok H A (ni_put k ?p st)"
    using ni_ok_put[OF assms(1,2)] ni_session_ok_reset(3)[OF ni_okD(1)[OF assms(1)]] by blast
  have 2: "ni_ok H A (ni_logs [NI_free raw] (ni_put k ?p st))" for raw
    by (rule ni_ok_logs[OF 1]) simp
  define sent where "sent = (if rawRequest (ni_get k st) \<noteq> NULL
      \<and> ni_resp (ni_get k st) \<noteq> GNSS_NI_RESPONSE_IGNORE
    then Some (ni_resp (ni_get k st), rawRequest (ni_get k st)) else None)"
  have auth: "ni_authorised H A r raw" if "ni_answer (NiUnlocked sent) = Some (r, raw)" for r raw
    using that assms(3) by (auto simp: ni_stored_ok_def sent_def split: if_splits)
  have "ni_ok H A (x\<lparr>ni_threads := (ni_threads x)[i := (k, NiUnlocked sent)]\<rparr>)" if "ni_ok H A x" for x
    by (rule ni_ok_thread[OF that]) (use auth in blast)
  from this[OF 1] this[OF 2] show ?thesis
    by (auto simp: ni_take_def Let_def sent_def)
qed

lemma niThread_run_ok:
  assumes "niThread_run i now st = Some st'" "ni_ok H A st" "ni_adapter st = NiIdle"
  shows "ni_ok H A st'"
  using assms(1)
proof (cases rule: niThread_run_cases)
  case (start k)
  show ?thesis unfolding start(4) by (rule ni_ok_thread[OF assms(2)]) simp
next
  case (take k pc)
  then have "ni_stored_ok H A (ni_resp (ni_get k st)) (ni_get k st)"
    using ni_okD(1)[OF assms(2)] by (simp add: ni_session_ok_def)
  then show ?thesis using take ni_ok_take[OF assms(2,3)] by blast
next
  case (time k sent)
  have "ni_ok H A (ni_put k ((ni_get k st)\<lparr>respTimeLeft := 0\<rparr>) st)"
    using ni_ok_put[OF assms(2,3)] ni_session_ok_reset(1)[OF ni_okD(1)[OF assms(2)]] by blast
  moreover have "ni_authorised H A r raw" if "sent = Some (r, raw)" for r raw
    using that ni_okD(3)[OF assms(2), of k "NiUnlocked sent" r raw] nth_mem[OF time(1)] time(2) by simp
  ultimately show ?thesis
    using ni_ok_thread[where pc = "NiTimeCleared sent" and i = i and k = k and A = A and H = H] time(3) by force
next
  case (id k sent)
  have "ni_ok H A (ni_put k ((ni_get k st)\<lparr>reqID := 0\<rparr>) st)"
    using ni_ok_put[OF assms(2,3)] ni_session_ok_reset(2)[OF ni_okD(1)[OF assms(2)]] by blast
  moreover have "ni_authorised H A r raw" if "sent = Some (r, raw)" for r raw
    using that ni_okD(3)[OF assms(2), of k "NiTimeCleared sent" r raw] nth_mem[OF id(1)] id(2) by simp
  ultimately show ?thesis
    using ni_ok_thread[where pc = "NiIdCleared sent" and i = i and k = k and A = A and H = H] id(3) by force
next
  case (post k sent)
  have "ni_ok H A (st\<lparr>ni_posted := ni_posted st @ (case sent of Some a \<Rightarrow> [a] | None \<Rightarrow> [])\<rparr>)"
    using ni_okD(3)[OF assms(2), of k "NiIdCleared sent"] nth_mem[OF post(1)] post(2) ni_okD[OF assms(2)]
    by (auto intro!: ni_okI split: option.splits)
  from ni_ok_thread[where pc = NiDone and i = i and k = k, OF this] show ?thesis using post by simp
qed

lemma ni_find_ok:
  assumes "ni_ok H A st" "(k, r) \<in> set (fst (gnssNiResponse_find c sid response st))"
    "NiMsgResponse c sid response \<in> H"
  shows "ni_stored_ok H A r (ni_get k st)"
  using assms(2,3) ni_okD(1)[OF assms(1), of NI_ORDINARY] ni_okD(1)[OF assms(1), of NI_EMERGENCY]
  by (auto simp: gnssNiResponse_find_def niSession_get ni_stored_ok_def ni_session_ok_def
      ni_authorised_def split: if_splits)

lemma ni_accept_ok:
  assumes "ni_ok H A st" "ni_adapter st = NiIdle" "rawRequest (ni_get k st) = NULL"
    "(data, reqIDCounter st + 1) \<in> A"
  shows "ni_ok H A (ni_accept created c n data k st)"
proof -
  have "\<not> respRecvd (ni_get k st)"
    using ni_okD(1)[OF assms(1), of k] assms(3) by (auto simp: ni_session_ok_def ni_stored_ok_def)
  then show ?thesis
    using assms(2,4) ni_okD[OF assms(1)]
    by (auto simp: ni_accept_def Let_def ni_session_ok_def intro!: ni_okI)
qed

lemma requestNiNotify_ok:
  assumes "ni_ok H A st" "ni_adapter st = NiIdle"
  shows "ni_ok H (A \<union> set (ni_accepts (NiMsgRequest created n data) st)) (requestNiNotify created n data st)"
proof -
  define A' where "A' = A \<union> set (ni_accepts (NiMsgRequest created n data) st)"
  have mono: "ni_ok H A' st" using ni_ok_mono[OF assms(1)] by (auto simp: A'_def)
  have counter: "reqIDCounter (ni_accept created c n data k st) = reqIDCounter st + 1" for c k
    by (simp add: ni_accept_def Let_def)
  have accept: "ni_ok H A' (ni_accept created c n data k st)"
    if "requestNiNotify created n data st = ni_accept created c n data k st"
       "rawRequest (ni_get k st) = NULL" for c k
    using ni_accept_ok[OF mono assms(2) that(2)] that(1) counter by (simp add: A'_def Let_def)
  have refuse: "ni_ok H A' (ni_refuse data st)"
    using ni_ok_logs[OF mono, of "[NI_free data]"] mono unfolding ni_refuse_def by simp
  consider "requestNiNotify created n data st = st"
    | "requestNiNotify created n data st = ni_refuse data st"
    | c k where "requestNiNotify created n data st = ni_accept created c n data k st"
        "rawRequest (ni_get k st) = NULL"
    by (cases "find (\<lambda>e. cb_gnssNi (snd e)) (ni_clients st)")
       (force simp: requestNiNotify_def niSession_get split: if_splits)+
  then have "ni_ok H A' (requestNiNotify created n data st)"
  proof cases
    case 1 then show ?thesis using mono by metis
  next
    case 2 then show ?thesis using refuse by metis
  next
    case 3 then show ?thesis using accept by metis
  qed
  then show ?thesis by (simp only: A'_def)
qed

lemma ni_stored_ok_cong:
  "rawRequest p = rawRequest q \<Longrightarrow> ni_stored_ok H A r p = ni_stored_ok H A r q"
  by (simp add: ni_stored_ok_def)

lemma ni_store_ok:
  assumes "ni_ok H A st" "ni_adapter st = NiStoring ((k, r) # us) c err sid"
  shows "ni_ok H A ((ni_store k r st)\<lparr>ni_adapter := NiStoring us c err sid\<rparr>)"
proof -
  let ?p = "(ni_get k st)\<lparr>ni_resp := r, respRecvd := True\<rparr>"
  have stores: "ni_stored_ok H A r' (ni_get k' st)" if "(k', r') \<in> set ((k, r) # us)" for k' r'
    using ni_okD(2)[OF assms(1), of k' r'] that assms(2) by simp
  have "ni_stored_ok H A r' ?p = ni_stored_ok H A r' (ni_get k st)" for r'
    by (rule ni_stored_ok_cong) simp
  moreover from this have "ni_session_ok H A ?p"
    using stores[of k r] ni_okD(1)[OF assms(1), of k] by (simp add: ni_session_ok_def)
  ultimately show ?thesis
    using stores ni_okD(1,3-5)[OF assms(1)] by (intro ni_okI) (auto simp: ni_store_def)
qed

lemma ni_step_ok:
  assumes "ni_step e st = Some st'" "ni_ok H A st" "ni_waits e \<Longrightarrow> ni_adapter st = NiIdle"
  shows "ni_ok (insert e H) (A \<union> set (ni_accepts e st)) st'"
proof -
  let ?H = "insert e H"
  have mono: "ni_ok ?H A st" using ni_ok_mono[OF assms(2)] by blast
  have keep: "ni_ok ?H A st'" if "\<And>c n d. e \<noteq> NiMsgRequest c n d"
  proof (cases e)
    case (NiMsgClients m)
    then show ?thesis using assms(1) ni_okD[OF mono] by (auto intro!: ni_okI split: if_splits)
  next
    case (NiMsgResponse c sid r)
    then have "st' = gnssNiResponse_begin c sid r st" "NiMsgResponse c sid r \<in> ?H"
      using assms(1) by (auto split: if_splits)
    then show ?thesis
      using ni_okD[OF mono] ni_find_ok[OF mono, of _ _ c sid r]
      by (intro ni_okI) (auto simp: gnssNiResponse_begin_alt)
  next
    case NiNext
    then have "gnssNiResponse_next st = Some st'"
      using assms by (simp del: gnssNiResponse_next.simps)
    then show ?thesis
    proof (cases rule: gnssNiResponse_next_cases)
      case (store k r us c err sid)
      then show ?thesis using ni_store_ok[OF mono] by simp
    next
      case (report c err sid)
      then show ?thesis
        using ni_okD[OF mono]
        by (intro ni_okI) (auto simp: ni_reportResponse_def split: option.splits if_splits)
    qed
  next
    case NiMsgInform
    then have "gnssNiResponse_inform st = Some st'"
      using assms by (simp del: gnssNiResponse_inform.simps split: if_splits)
    then show ?thesis
      using ni_okD[OF mono]
      by (cases rule: gnssNiResponse_inform_cases) (auto intro!: ni_okI)
  next
    case (NiRun i now)
    then show ?thesis using niThread_run_ok[OF _ mono, of i now st'] assms by simp
  next
    case (NiTimeout i now)
    then have idle: "ni_adapter st = NiIdle" and "niThread_timeout i now st = Some st'"
      using assms by simp_all
    from this(2) show ?thesis
    proof (cases rule: niThread_timeout_cases)
      case (1 k e')
      let ?st = "ni_put k ((ni_get k st)\<lparr>ni_resp := GNSS_NI_RESPONSE_NO_RESPONSE\<rparr>) st"
      have "ni_ok ?H A ?st"
        using ni_ok_put[OF mono idle] ni_session_ok_timeout[OF ni_okD(1)[OF mono]] by blast
      then show ?thesis
        using ni_ok_take[of ?H A ?st k i] idle 1
        by (fastforce simp: ni_stored_ok_def ni_authorised_def)
    qed
  qed (use that in blast)
  show ?thesis
  proof (cases e)
    case (NiMsgRequest created n d)
    then show ?thesis
      using requestNiNotify_ok[OF mono] assms(1) by (auto simp del: ni_accepts.simps split: if_splits)
  qed (use keep in auto)
qed

lemma ni_run_ok:
  assumes "ni_run es st = Some st'" "ni_ok H A st" "ni_untorn es st"
  shows "ni_ok (H \<union> set es) (A \<union> set (ni_accepted es st)) st'"
  using assms
proof (induction es arbitrary: st H A)
  case (Cons e es)
  then obtain st1 where s: "ni_step e st = Some st1" and r: "ni_run es st1 = Some st'"
    by (auto split: option.splits)
  have "ni_ok (insert e H) (A \<union> set (ni_accepts e st)) st1"
    using ni_step_ok[OF s] Cons.prems by auto
  from Cons.IH[OF r this] show ?case
    using Cons.prems(3) s by (simp add: Un_assoc insert_commute)
qed simp

lemma ni_init_ok: "ni_ok {} {} ni_init"
  by (intro ni_okI) (simp_all add: ni_session_ok_def NiSession_init_def)

section \<open>Sessions without a thread\<close>

text \<open>
  When the thread of a request cannot be started, nobody ever ends its session.
\<close>

lemma ni_unwatched_step:
  assumes "ni_step e st = Some st'" "rawRequest (ni_get k st) \<noteq> NULL" "\<not> ni_watched k st"
  shows "rawRequest (ni_get k st') = rawRequest (ni_get k st) \<and> \<not> ni_watched k st'"
proof -
  have upd: "\<not> ni_watching k (ts[i := (k', pc)])"
    if "i < length ts" "\<not> ni_watching k ts" "k' \<noteq> k \<or> \<not> ni_active pc" for ts i k' pc
  proof
    assume "ni_watching k (ts[i := (k', pc)])"
    then obtain t where "t \<in> set (ts[i := (k', pc)])" "fst t = k" "ni_active (snd t)"
      by (auto simp: ni_watching_def)
    then show False
      using that set_update_subset_insert[of ts i "(k', pc)"] by (fastforce simp: ni_watching_def)
  qed
  have mem: "k' \<noteq> k" if "i < length (ni_threads st)" "ni_threads st ! i = (k', pc)" "ni_active pc" for i k' pc
    using assms(3) that nth_mem[OF that(1)] by (force simp: ni_watched_def ni_watching_def)
  show ?thesis
  proof (cases e)
    case (NiMsgRequest created n d)
    then show ?thesis
      using assms
      by (auto simp: requestNiNotify_def ni_refuse_def ni_accept_def Let_def niSession_get ni_watched_def
          ni_watching_def split: if_splits option.splits)
  next
    case NiNext
    then have "gnssNiResponse_next st = Some st'"
      using assms by (simp del: gnssNiResponse_next.simps)
    then show ?thesis
      using assms(2,3)
      by (cases rule: gnssNiResponse_next_cases)
         (auto simp: ni_store_def ni_reportResponse_def split: option.splits)
  next
    case NiMsgInform
    then have "gnssNiResponse_inform st = Some st'"
      using assms by (simp del: gnssNiResponse_inform.simps split: if_splits)
    then show ?thesis
      using assms(3) by (cases rule: gnssNiResponse_inform_cases) simp
  next
    case (NiRun i now)
    then have "niThread_run i now st = Some st'" using assms by simp
    then show ?thesis
    proof (cases rule: niThread_run_cases)
      case (start k')
      then have "k' \<noteq> k" using mem[of i k' NiCreated] by auto
      then show ?thesis using start assms(3) upd by (simp add: ni_watched_def)
    next
      case (take k' pc)
      then have "k' \<noteq> k" using mem[of i k' pc] by auto
      then show ?thesis using take assms(3) upd by (simp add: ni_watched_def ni_take_fields)
    qed (use assms(3) upd mem in \<open>auto simp: ni_watched_def\<close>)
  next
    case (NiTimeout i now)
    then have "niThread_timeout i now st = Some st'" using assms by simp
    then show ?thesis
    proof (cases rule: niThread_timeout_cases)
      case (1 k' e')
      then have "k' \<noteq> k" using mem by auto
      then show ?thesis using 1 assms(3) upd by (simp add: ni_watched_def ni_take_fields)
    qed
  qed (use assms in \<open>auto simp: gnssNiResponse_begin_alt split: if_splits\<close>)
qed

lemma ni_unwatched_run:
  "\<lbrakk>ni_run es st = Some st'; rawRequest (ni_get k st) \<noteq> NULL; \<not> ni_watched k st\<rbrakk> \<Longrightarrow>
     rawRequest (ni_get k st') = rawRequest (ni_get k st)"
proof (induction es arbitrary: st)
  case (Cons e es)
  then show ?case using ni_unwatched_step[of e st _ k] by (auto split: option.splits)
qed simp

section \<open>Properties\<close>

text \<open>A request for the demonstrations, a client that is asked, and the ways to answer it.\<close>

definition demo_ni :: "GnssNiType \<Rightarrow> GnssNiNotification" where
  "demo_ni t =
     \<lparr>nn_type = t, nn_options = 3, nn_timeout = 10, nn_timeoutResponse = GNSS_NI_RESPONSE_DENY,
      nn_requestor = [], nn_requestorEncoding = 0, nn_message = [], nn_messageEncoding = 0,
      nn_extras = []\<rparr>"

definition demo_ni_client :: ni_event where
  "demo_ni_client = NiMsgClients [(100, no_callbacks\<lparr>cb_gnssNi := True, cb_response := True\<rparr>)]"

definition demo_ni_supl :: "ptr \<Rightarrow> ni_event" where
  "demo_ni_supl raw = NiMsgRequest True (demo_ni GNSS_NI_TYPE_SUPL) raw"

text \<open>The user accepts an ordinary request and then an emergency call, while the first waits.\<close>

definition demo_ni_run :: "ni_event list" where
  "demo_ni_run =
     [demo_ni_client, demo_ni_supl 1000, NiRun 0 (50, 0),
      NiMsgRequest True (demo_ni GNSS_NI_TYPE_EMERGENCY_SUPL) 2000, demo_ni_supl 3000,
      NiMsgResponse 100 2 GNSS_NI_RESPONSE_ACCEPT, NiNext, NiNext, NiNext,
      NiRun 0 (51, 0), NiRun 1 (51, 0), NiRun 1 (51, 0), NiRun 1 (51, 0), NiRun 1 (51, 0), NiMsgInform]"

lemmas demo_ni_defs =
  demo_ni_run_def demo_ni_client_def demo_ni_supl_def demo_ni_def no_callbacks_def ni_init_def
  NiSession_init_def requestNiNotify_def ni_refuse_def ni_accept_def gnssNiResponse_begin_def
  gnssNiResponse_find_def hasNiNotifyCallback_def ni_store_def ni_reportResponse_def ni_take_def
  niThread_run_def niThread_timeout_def timespec_le_def ni_logs_def LOC_NI_NO_RESPONSE_TIME_def

lemma demo_ni_run_result:
  "map_option ni_log (ni_run demo_ni_run ni_init) =
     Some [NI_notify 100 1 (demo_ni GNSS_NI_TYPE_SUPL),
           NI_notify 100 2 (demo_ni GNSS_NI_TYPE_EMERGENCY_SUPL), NI_free 3000,
           NI_response 100 LOCATION_ERROR_SUCCESS 2, NI_free 1000,
           NI_inform GNSS_NI_RESPONSE_ACCEPT 2000, NI_free 2000]"
  by (simp add: demo_ni_defs ni_get.simps ni_put.simps Let_def)

text \<open>
  C3: Every request the adapter takes over from the modem is, at any time, in exactly one place (a
  session, a thread about to answer, a message) or has been released, as often as it was handed
  over; and the modem gets an answer to a request only right before the request is released.
\<close>

theorem ni_requests_freed_once:
  assumes "ni_run es ni_init = Some st"
  shows "mset (ni_taken es ni_init) = ni_held st + ni_freed (ni_log st) \<and> ni_answers_end (ni_log st)"
  using ni_run_held[OF assms] ni_run_log[OF assms] by simp

lemma demo_ni_state:
  obtains st where "ni_run demo_ni_run ni_init = Some st"
    "ni_freed (ni_log st) = {#3000, 1000, 2000#}"
  using demo_ni_run_result by (cases "ni_run demo_ni_run ni_init") auto

theorem ni_requests_freed_once_witness:
  "\<exists>st. ni_run demo_ni_run ni_init = Some st \<and>
        mset (ni_taken demo_ni_run ni_init) = ni_held st + {#3000, 1000, 2000#}"
  using demo_ni_state ni_requests_freed_once[of demo_ni_run] by metis





definition demo_ni_stale :: "ni_event list" where
  "demo_ni_stale =
     [demo_ni_client, demo_ni_supl 1000, NiRun 0 (50, 0), NiMsgResponse 100 1 GNSS_NI_RESPONSE_ACCEPT,
      NiTimeout 0 (65, 0), NiNext, NiNext, NiRun 0 (65, 0), NiRun 0 (65, 0), NiRun 0 (65, 0), NiMsgInform,
      demo_ni_supl 2000, NiRun 1 (70, 0), NiRun 1 (70, 0), NiRun 1 (70, 0), NiRun 1 (70, 0), NiMsgInform]"

text \<open>
  Without that condition it fails. The user accepts the first request at the moment its wait
  times out: the message finds the session, the thread answers that nobody responded and lets go of
  the session, then the message stores the acceptance there. The next request, about which nobody
  says anything, is accepted at once.
\<close>

theorem ni_stale_answer_accepts_next:
  "map_option ni_log (ni_run demo_ni_stale ni_init) =
     Some [NI_notify 100 1 (demo_ni GNSS_NI_TYPE_SUPL), NI_response 100 LOCATION_ERROR_SUCCESS 1,
           NI_inform GNSS_NI_RESPONSE_NO_RESPONSE 1000, NI_free 1000,
           NI_notify 100 2 (demo_ni GNSS_NI_TYPE_SUPL),
           NI_inform GNSS_NI_RESPONSE_ACCEPT 2000, NI_free 2000]"
  by (simp add: demo_ni_stale_def demo_ni_defs ni_get.simps ni_put.simps Let_def)

definition demo_ni_cleared :: "ni_event list" where
  "demo_ni_cleared =
     [demo_ni_client, demo_ni_supl 1000, NiRun 0 (50, 0), NiTimeout 0 (65, 0), demo_ni_supl 2000,
      NiRun 0 (65, 0), NiRun 0 (65, 0), NiMsgResponse 100 2 GNSS_NI_RESPONSE_ACCEPT, NiNext,
      NiRun 1 (65, 0), NiTimeout 1 (65, 0), NiRun 1 (65, 0), NiRun 1 (65, 0), NiRun 1 (65, 0),
      NiMsgInform]"

text \<open>
  A thread that has answered clears the wait time and the id of its session without the mutex. If
  the next request is accepted before that, its wait ends at once and the user's answer to it is
  refused, although it comes at the moment the request is announced.
\<close>

theorem ni_reset_cancels_next:
  "map_option ni_log (ni_run demo_ni_cleared ni_init) =
     Some [NI_notify 100 1 (demo_ni GNSS_NI_TYPE_SUPL), NI_notify 100 2 (demo_ni GNSS_NI_TYPE_SUPL),
           NI_response 100 LOCATION_ERROR_ID_UNKNOWN 2,
           NI_inform GNSS_NI_RESPONSE_NO_RESPONSE 2000, NI_free 2000]"
  by (simp add: demo_ni_cleared_def demo_ni_defs ni_get.simps ni_put.simps Let_def)

text \<open>
  If the thread of a request cannot be started, the request stays in its session whatever
  happens, and from then on every ordinary request is released without asking anybody.
\<close>

theorem ni_thread_failure_blocks:
  assumes "ni_run es st = Some st'" "rawRequest (ni_get k st) \<noteq> NULL" "\<not> ni_watched k st"
    and "nn_type notify \<noteq> GNSS_NI_TYPE_EMERGENCY_SUPL"
  shows "rawRequest (ni_get k st') = rawRequest (ni_get k st) \<and>
         (requestNiNotify created notify data st' = st' \<or>
          requestNiNotify created notify data st' = ni_refuse data st')"
proof -
  have raw: "rawRequest (ni_get k st') = rawRequest (ni_get k st)"
    by (rule ni_unwatched_run[OF assms(1-3)])
  have "rawRequest (niSession st') \<noteq> NULL \<or> rawRequest (niSessionEs st') \<noteq> NULL"
    using raw assms(2) by (cases k) (auto simp: niSession_get)
  then show ?thesis
    using raw assms(4) by (auto simp: requestNiNotify_def split: option.splits)
qed

theorem ni_thread_failure_blocks_witness:
  "\<exists>st'. ni_run [demo_ni_client, NiMsgRequest False (demo_ni GNSS_NI_TYPE_SUPL) 1000] ni_init = Some st'
     \<and> rawRequest (ni_get NI_ORDINARY st') = 1000"
proof -
  let ?e = "NiMsgRequest False (demo_ni GNSS_NI_TYPE_SUPL) 1000"
  obtain st where st: "ni_run [demo_ni_client, ?e] ni_init = Some st"
    "rawRequest (ni_get NI_ORDINARY st) = 1000" "\<not> ni_watched NI_ORDINARY st"
    by (simp add: demo_ni_defs ni_get.simps ni_put.simps Let_def ni_watched_def ni_watching_def)
  then have "ni_run [] st = Some st" by simp
  from ni_thread_failure_blocks[OF this _ st(3), of "demo_ni GNSS_NI_TYPE_SUPL"] st show ?thesis
    by (auto simp: demo_ni_def)
qed

end
