(* ===== verification/Gnss_Odcpi.thy ===== *)
theory Gnss_Odcpi
  imports Prelude
begin

text \<open>
  On-demand coarse positions in \<open>gps/gnss/GnssAdapter.cpp\<close>: the modem asks for a position of the
  framework with START and STOP requests, and the adapter passes them on at most once per period of a
  timer (\<open>OdcpiTimer\<close> of \<open>GnssAdapter.h\<close>), again and again while a request is active.

  The adapter's thread takes messages one by one, each a step. The timer runs on another thread: when
  it fires it only posts a message, which may be handled any time later. Of \<open>LocTimer\<close> the model uses
  what \<open>Loc_Timer\<close> shows: a started timer fires at most once and not after a stop. Times are in
  milliseconds; every request to the framework is logged with its time and the reason for it.
\<close>

section \<open>Data and operations\<close>

datatype OdcpiRequestType = ODCPI_REQUEST_TYPE_START | ODCPI_REQUEST_TYPE_STOP

record OdcpiRequestInfo =
  od_type :: OdcpiRequestType
  tbfMillis :: u32
  isEmergencyMode :: bool

definition ODCPI_EXPECTED_INJECTION_TIME_MS :: nat where
  "ODCPI_EXPECTED_INJECTION_TIME_MS = 10000"

datatype odcpi_reason = OdFirst | OdUpgrade | OdRepeat

text \<open>
  The timer: \<open>mActive\<close> is the flag of \<open>OdcpiTimer\<close>, \<open>od_timer\<close> the time a running \<open>LocTimer\<close> expires
  at. \<open>od_posted\<close> counts the expiry messages in the queue. The framework's callback is null until
  \<open>initOdcpi\<close>.
\<close>

record odcpi =
  od_now :: nat
  mOdcpiRequestCb :: bool
  mOdcpiRequestActive :: bool
  mOdcpiRequest :: OdcpiRequestInfo
  mActive :: bool
  od_timer :: "nat option"
  od_posted :: nat
  od_log :: "(nat \<times> odcpi_reason \<times> OdcpiRequestInfo) list"

definition odcpi_init :: odcpi where
  "odcpi_init =
     \<lparr>od_now = 0, mOdcpiRequestCb = False, mOdcpiRequestActive = False,
      mOdcpiRequest = \<lparr>od_type = ODCPI_REQUEST_TYPE_START, tbfMillis = 0, isEmergencyMode = False\<rparr>,
      mActive = False, od_timer = None, od_posted = 0, od_log = []\<rparr>"

text \<open>
  \<open>LocTimer::start\<close> does nothing if the timer runs; \<open>ok\<close> says whether the timer service can be had.
\<close>

definition OdcpiTimer_start :: "bool \<Rightarrow> odcpi \<Rightarrow> odcpi" where
  "OdcpiTimer_start ok s =
     s\<lparr>mActive := True,
       od_timer := (case od_timer s of
                      Some e \<Rightarrow> Some e
                    | None \<Rightarrow> if ok then Some (od_now s + ODCPI_EXPECTED_INJECTION_TIME_MS) else None)\<rparr>"

definition OdcpiTimer_stop :: "odcpi \<Rightarrow> odcpi" where
  "OdcpiTimer_stop s = s\<lparr>mActive := False, od_timer := None\<rparr>"

definition OdcpiTimer_restart :: "bool \<Rightarrow> odcpi \<Rightarrow> odcpi" where
  "OdcpiTimer_restart ok s = OdcpiTimer_start ok (OdcpiTimer_stop s)"

definition od_request :: "odcpi_reason \<Rightarrow> OdcpiRequestInfo \<Rightarrow> odcpi \<Rightarrow> odcpi" where
  "od_request why r s = s\<lparr>od_log := od_log s @ [(od_now s, why, r)]\<rparr>"

definition reportOdcpiRequest :: "bool \<Rightarrow> OdcpiRequestInfo \<Rightarrow> odcpi \<Rightarrow> odcpi" where
  "reportOdcpiRequest ok request s =
     (if \<not> mOdcpiRequestCb s then s
      else if od_type request = ODCPI_REQUEST_TYPE_START then
        (let s1 =
           (if \<not> mOdcpiRequestActive s \<and> \<not> mActive s then
              OdcpiTimer_start ok ((od_request OdFirst request s)\<lparr>mOdcpiRequestActive := True\<rparr>)
            else if \<not> isEmergencyMode (mOdcpiRequest s) \<and> isEmergencyMode request then
              (let s2 = (od_request OdUpgrade request s)\<lparr>mOdcpiRequestActive := True\<rparr>
               in if mActive s2 then OdcpiTimer_restart ok s2 else OdcpiTimer_start ok s2)
            else if \<not> mOdcpiRequestActive s \<and> mActive s then s\<lparr>mOdcpiRequestActive := True\<rparr>
            else s)
         in s1\<lparr>mOdcpiRequest := request\<rparr>)
      else s\<lparr>mOdcpiRequestActive := False\<rparr>)"

definition odcpiTimerExpire :: "bool \<Rightarrow> odcpi \<Rightarrow> odcpi" where
  "odcpiTimerExpire ok s =
     (if mOdcpiRequestActive s then OdcpiTimer_restart ok (od_request OdRepeat (mOdcpiRequest s) s)
      else OdcpiTimer_stop s)"

datatype odcpi_event =
    OdInit
  | OdRequest bool OdcpiRequestInfo
  | OdExpire bool
  | OdModemRestart
  | OdFire
  | OdTick nat

fun odcpi_step :: "odcpi_event \<Rightarrow> odcpi \<Rightarrow> odcpi option" where
  "odcpi_step OdInit s = Some (s\<lparr>mOdcpiRequestCb := True\<rparr>)"
| "odcpi_step (OdRequest ok r) s = Some (reportOdcpiRequest ok r s)"
| "odcpi_step (OdExpire ok) s =
     (if od_posted s = 0 then None else Some (odcpiTimerExpire ok (s\<lparr>od_posted := od_posted s - 1\<rparr>)))"
| "odcpi_step OdModemRestart s = Some (s\<lparr>mOdcpiRequestActive := False\<rparr>)"
| "odcpi_step OdFire s =
     (case od_timer s of
        Some e \<Rightarrow>
          if e \<le> od_now s then Some (s\<lparr>od_timer := None, od_posted := od_posted s + 1\<rparr>) else None
      | None \<Rightarrow> None)"
| "odcpi_step (OdTick d) s = Some (s\<lparr>od_now := od_now s + d\<rparr>)"

fun odcpi_run :: "odcpi_event list \<Rightarrow> odcpi \<Rightarrow> odcpi option" where
  "odcpi_run [] s = Some s"
| "odcpi_run (e # es) s = (case odcpi_step e s of Some s' \<Rightarrow> odcpi_run es s' | None \<Rightarrow> None)"

lemmas odcpi_defs =
  reportOdcpiRequest_def odcpiTimerExpire_def od_request_def OdcpiTimer_start_def OdcpiTimer_stop_def
  OdcpiTimer_restart_def

section \<open>Requests are repeated\<close>

text \<open>
  The timer of an active \<open>OdcpiTimer\<close> runs or has posted its expiry, if it could be started; and no
  timer runs unknown to the flag, nor a request is active without it.
\<close>

definition odcpi_alive :: "odcpi \<Rightarrow> bool" where
  "odcpi_alive s \<longleftrightarrow>
     (mActive s \<longrightarrow> od_timer s \<noteq> None \<or> 0 < od_posted s) \<and>
     (od_timer s \<noteq> None \<longrightarrow> mActive s) \<and>
     (mOdcpiRequestActive s \<longrightarrow> mActive s)"

fun odcpi_starts :: "odcpi_event \<Rightarrow> bool" where
  "odcpi_starts (OdRequest ok r) = ok"
| "odcpi_starts (OdExpire ok) = ok"
| "odcpi_starts _ = True"

lemma odcpi_step_alive:
  assumes "odcpi_step e s = Some s'" "odcpi_starts e" "odcpi_alive s"
  shows "odcpi_alive s'"
  using assms
  by (cases e) (auto simp: odcpi_alive_def odcpi_defs Let_def split: if_splits option.splits)

lemma odcpi_run_alive:
  "\<lbrakk>odcpi_run es s = Some s'; \<forall>e \<in> set es. odcpi_starts e; odcpi_alive s\<rbrakk> \<Longrightarrow> odcpi_alive s'"
  by (induction es arbitrary: s) (auto simp: odcpi_step_alive split: option.splits)

definition odcpi_soon :: "odcpi \<Rightarrow> bool" where
  "odcpi_soon s \<longleftrightarrow> (\<forall>e. od_timer s = Some e \<longrightarrow> e \<le> od_now s + ODCPI_EXPECTED_INJECTION_TIME_MS)"

lemma odcpi_step_soon: "\<lbrakk>odcpi_step e s = Some s'; odcpi_soon s\<rbrakk> \<Longrightarrow> odcpi_soon s'"
  by (cases e) (auto simp: odcpi_soon_def odcpi_defs Let_def split: if_splits option.splits)

lemma odcpi_run_soon: "\<lbrakk>odcpi_run es s = Some s'; odcpi_soon s\<rbrakk> \<Longrightarrow> odcpi_soon s'"
  by (induction es arbitrary: s) (auto simp: odcpi_step_soon split: option.splits)

text \<open>Requests and events for the demonstrations.\<close>

definition demo_od :: "bool \<Rightarrow> OdcpiRequestInfo" where
  "demo_od emergency =
     \<lparr>od_type = ODCPI_REQUEST_TYPE_START, tbfMillis = 1000, isEmergencyMode = emergency\<rparr>"

definition demo_od_run :: "odcpi_event list" where
  "demo_od_run =
     [OdInit, OdRequest True (demo_od False), OdTick 4000, OdRequest True (demo_od True), OdTick 10000,
      OdFire, OdExpire True]"

text \<open>
  C22: While a request is active and the timer could be started, the framework is asked again: within
  a period of the timer, without anything new from the modem, the last request is passed on once more.
\<close>

theorem odcpi_request_repeated:
  assumes "odcpi_run es odcpi_init = Some s" "\<And>e. e \<in> set es \<Longrightarrow> odcpi_starts e"
    "mOdcpiRequestActive s"
  shows "\<exists>es' s' t. set es' \<subseteq> {OdFire, OdExpire True} \<union> range OdTick \<and> odcpi_run es' s = Some s' \<and>
           od_log s' = od_log s @ [(t, OdRepeat, mOdcpiRequest s)] \<and>
           t \<le> od_now s + ODCPI_EXPECTED_INJECTION_TIME_MS \<and> mOdcpiRequestActive s'"
proof -
  have "odcpi_alive odcpi_init" "odcpi_soon odcpi_init"
    by (simp_all add: odcpi_alive_def odcpi_soon_def odcpi_init_def)
  then have alive: "odcpi_alive s" and soon: "odcpi_soon s"
    using odcpi_run_alive[OF assms(1)] odcpi_run_soon[OF assms(1)] assms(2) by blast+
  show ?thesis
  proof (cases "od_posted s = 0")
    case False
    then show ?thesis
      using assms(3) by (intro exI[of _ "[OdExpire True]"]) (auto simp: odcpi_defs)
  next
    case True
    then obtain e where e: "od_timer s = Some e" "e \<le> od_now s + ODCPI_EXPECTED_INJECTION_TIME_MS"
      using alive soon assms(3) by (auto simp: odcpi_alive_def odcpi_soon_def)
    then show ?thesis
      using assms(3) True
      by (intro exI[of _ "[OdTick (e - od_now s), OdFire, OdExpire True]"]) (auto simp: odcpi_defs)
  qed
qed

theorem odcpi_request_repeated_witness:
  "\<exists>s s' es' t. odcpi_run demo_od_run odcpi_init = Some s \<and> odcpi_run es' s = Some s' \<and>
     od_log s' = od_log s @ [(t, OdRepeat, demo_od True)] \<and> t \<le> 24000"
proof -
  obtain s where s: "odcpi_run demo_od_run odcpi_init = Some s" "mOdcpiRequestActive s"
    "mOdcpiRequest s = demo_od True" "od_now s = 14000"
    by (simp add: demo_od_run_def demo_od_def odcpi_init_def odcpi_defs
        ODCPI_EXPECTED_INJECTION_TIME_MS_def)
  have "odcpi_starts e" if "e \<in> set demo_od_run" for e
    using that by (auto simp: demo_od_run_def)
  from odcpi_request_repeated[OF s(1) this s(2)] s show ?thesis
    by (simp add: ODCPI_EXPECTED_INJECTION_TIME_MS_def) blast
qed

section \<open>Requests are spaced\<close>

fun odcpi_calm :: "odcpi_event list \<Rightarrow> odcpi \<Rightarrow> bool" where
  "odcpi_calm [] s = True"
| "odcpi_calm (e # es) s =
     ((case e of
         OdRequest ok r \<Rightarrow>
           \<not> (od_type r = ODCPI_REQUEST_TYPE_START \<and> isEmergencyMode r) \<or> od_posted s = 0
       | _ \<Rightarrow> True)
      \<and> (case odcpi_step e s of Some s' \<Rightarrow> odcpi_calm es s' | None \<Rightarrow> True))"

text \<open>
  In a log: every request but one that replaces a request by an emergency's comes a period after all
  those before it.
\<close>

definition odcpi_spaced :: "(nat \<times> odcpi_reason \<times> OdcpiRequestInfo) list \<Rightarrow> bool" where
  "odcpi_spaced l \<longleftrightarrow>
     sorted_wrt (\<lambda>a b. fst (snd b) = OdUpgrade \<or> fst a + ODCPI_EXPECTED_INJECTION_TIME_MS \<le> fst b) l"

definition odcpi_quiet :: "nat \<Rightarrow> odcpi \<Rightarrow> bool" where
  "odcpi_quiet t s \<longleftrightarrow> (\<forall>a \<in> set (od_log s). fst a + ODCPI_EXPECTED_INJECTION_TIME_MS \<le> t)"

definition odcpi_inv :: "odcpi \<Rightarrow> bool" where
  "odcpi_inv s \<longleftrightarrow>
     odcpi_spaced (od_log s) \<and>
     (\<forall>a \<in> set (od_log s). fst a \<le> od_now s) \<and>
     (\<forall>e. od_timer s = Some e \<longrightarrow> od_posted s = 0 \<and> odcpi_quiet e s) \<and>
     od_posted s \<le> 1 \<and> (0 < od_posted s \<longrightarrow> odcpi_quiet (od_now s) s) \<and>
     (\<not> mActive s \<longrightarrow> od_timer s = None \<and> od_posted s = 0 \<and> odcpi_quiet (od_now s) s)"

lemma odcpi_spaced_append:
  "odcpi_spaced (l @ [a]) \<longleftrightarrow>
     odcpi_spaced l \<and>
     (\<forall>b \<in> set l. fst (snd a) = OdUpgrade \<or> fst b + ODCPI_EXPECTED_INJECTION_TIME_MS \<le> fst a)"
  by (simp add: odcpi_spaced_def sorted_wrt_append)

lemma odcpi_quiet_mono: "\<lbrakk>odcpi_quiet t s; t \<le> t'; od_log s' = od_log s\<rbrakk> \<Longrightarrow> odcpi_quiet t' s'"
  by (force simp: odcpi_quiet_def)

lemma odcpi_inv_cong:
  assumes "odcpi_inv s" "od_log s' = od_log s" "od_now s' = od_now s" "od_timer s' = od_timer s"
    "od_posted s' = od_posted s" "mActive s' = mActive s"
  shows "odcpi_inv s'"
  using assms by (simp add: odcpi_inv_def odcpi_quiet_def)

text \<open>A request goes out and the timer is started anew.\<close>

lemma odcpi_inv_requested:
  assumes "odcpi_inv s" "od_posted s = 0" "why = OdUpgrade \<or> odcpi_quiet (od_now s) s"
    "od_log s' = od_log s @ [(od_now s, why, r)]" "od_now s' = od_now s" "od_posted s' = 0"
    "mActive s'" "\<And>e. od_timer s' = Some e \<Longrightarrow> e = od_now s + ODCPI_EXPECTED_INJECTION_TIME_MS"
  shows "odcpi_inv s'"
proof -
  have now: "\<forall>a \<in> set (od_log s). fst a \<le> od_now s" and sp: "odcpi_spaced (od_log s)"
    using assms(1) by (simp_all add: odcpi_inv_def)
  have "odcpi_spaced (od_log s')"
    using sp assms(3) unfolding assms(4) odcpi_spaced_append by (auto simp: odcpi_quiet_def)
  moreover have "\<forall>a \<in> set (od_log s'). fst a \<le> od_now s'"
    unfolding assms(4,5) using now by simp
  moreover have "odcpi_quiet e s'" if "od_timer s' = Some e" for e
    using now assms(8)[OF that] unfolding odcpi_quiet_def assms(4) by simp
  ultimately show ?thesis using assms(6,7) by (simp add: odcpi_inv_def)
qed

lemma odcpi_request_inv:
  assumes inv: "odcpi_inv s"
    and calm: "isEmergencyMode r \<and> od_type r = ODCPI_REQUEST_TYPE_START \<Longrightarrow> od_posted s = 0"
  shows "odcpi_inv (reportOdcpiRequest ok r s)"
proof -
  have idle: "od_timer s = None \<and> od_posted s = 0 \<and> odcpi_quiet (od_now s) s" if "\<not> mActive s"
    using inv that by (simp add: odcpi_inv_def)
  consider "\<not> mOdcpiRequestCb s \<or> od_type r \<noteq> ODCPI_REQUEST_TYPE_START"
    | "mOdcpiRequestCb s" "od_type r = ODCPI_REQUEST_TYPE_START" "\<not> mOdcpiRequestActive s" "\<not> mActive s"
    | "mOdcpiRequestCb s" "od_type r = ODCPI_REQUEST_TYPE_START" "mOdcpiRequestActive s \<or> mActive s"
      "\<not> isEmergencyMode (mOdcpiRequest s)" "isEmergencyMode r"
    | "mOdcpiRequestCb s" "od_type r = ODCPI_REQUEST_TYPE_START" "mOdcpiRequestActive s \<or> mActive s"
      "isEmergencyMode (mOdcpiRequest s) \<or> \<not> isEmergencyMode r"
    by blast
  then show ?thesis
  proof cases
    case 1
    then show ?thesis by (intro odcpi_inv_cong[OF inv]) (auto simp: odcpi_defs)
  next
    case 2
    then show ?thesis
      using idle
      by (intro odcpi_inv_requested[OF inv, of OdFirst _ r]) (auto simp: odcpi_defs split: if_splits)
  next
    case 3
    then show ?thesis
      using calm idle
      by (intro odcpi_inv_requested[OF inv, of OdUpgrade _ r])
         (auto simp: odcpi_defs Let_def split: if_splits)
  next
    case 4
    then show ?thesis by (intro odcpi_inv_cong[OF inv]) (auto simp: odcpi_defs)
  qed
qed

lemma odcpi_expire_inv:
  assumes "odcpi_inv s" "0 < od_posted s"
  shows "odcpi_inv (odcpiTimerExpire ok (s\<lparr>od_posted := od_posted s - 1\<rparr>))"
  using assms
  by (fastforce simp: odcpi_inv_def odcpi_defs odcpi_spaced_append odcpi_quiet_def)

lemma odcpi_step_inv:
  assumes "odcpi_step e s = Some s'" "odcpi_inv s"
    "\<And>ok r. \<lbrakk>e = OdRequest ok r; isEmergencyMode r; od_type r = ODCPI_REQUEST_TYPE_START\<rbrakk>
       \<Longrightarrow> od_posted s = 0"
  shows "odcpi_inv s'"
proof (cases e)
  case (OdRequest ok r)
  then show ?thesis using odcpi_request_inv[OF assms(2)] assms(1,3) by auto
next
  case (OdExpire ok)
  then show ?thesis using odcpi_expire_inv[OF assms(2)] assms(1) by (auto split: if_splits)
next
  case OdFire
  then show ?thesis
    using assms(1,2) by (fastforce simp: odcpi_inv_def odcpi_quiet_def split: option.splits if_splits)
next
  case (OdTick d)
  then show ?thesis
    using assms(1,2) by (fastforce simp: odcpi_inv_def odcpi_quiet_def)
qed (use assms in \<open>fastforce simp: odcpi_inv_def odcpi_quiet_def\<close>)+

lemma odcpi_run_inv:
  "\<lbrakk>odcpi_run es s = Some s'; odcpi_calm es s; odcpi_inv s\<rbrakk> \<Longrightarrow> odcpi_inv s'"
proof (induction es arbitrary: s)
  case (Cons e es)
  then obtain s1 where s: "odcpi_step e s = Some s1" and r: "odcpi_run es s1 = Some s'"
    by (auto split: option.splits)
  have "odcpi_inv s1"
    by (rule odcpi_step_inv[OF s Cons.prems(3)]) (use Cons.prems(2) in auto)
  then show ?case using Cons.IH[OF r] Cons.prems(2) s by auto
qed simp



lemma odcpi_alternate:
  assumes "mOdcpiRequestCb s" "od_now s = 0" "mActive s" "mOdcpiRequestActive s"
    "mOdcpiRequest s = demo_od False"
  shows "map_option (\<lambda>s. map fst (od_log s))
      (odcpi_run (concat (replicate n [OdRequest True (demo_od True), OdRequest True (demo_od False)])) s)
    = Some (map fst (od_log s) @ replicate n 0)"
  using assms
proof (induction n arbitrary: s)
  case (Suc n)
  obtain s1 s2 where "odcpi_step (OdRequest True (demo_od True)) s = Some s1"
    "odcpi_step (OdRequest True (demo_od False)) s1 = Some s2"
    and s2: "mOdcpiRequestCb s2" "od_now s2 = 0" "mActive s2" "mOdcpiRequestActive s2"
      "mOdcpiRequest s2 = demo_od False" "map fst (od_log s2) = map fst (od_log s) @ [0]"
    using Suc.prems by (simp add: odcpi_defs demo_od_def)
  then show ?case using Suc.IH[OF s2(1-5)] by simp
qed simp

text \<open>
  The modem can make the adapter ask the framework at every request, with no time in between: an
  ordinary request that is not passed on still replaces the emergency request that is active, so that
  the next emergency request counts as a replacement again.
\<close>

theorem odcpi_alternation_unthrottled:
  "map_option (\<lambda>s. map fst (od_log s))
     (odcpi_run ([OdInit, OdRequest True (demo_od False)]
        @ concat (replicate n [OdRequest True (demo_od True), OdRequest True (demo_od False)])) odcpi_init)
   = Some (replicate (n + 1) 0)"
proof -
  obtain s1 s where "odcpi_step OdInit odcpi_init = Some s1"
    "odcpi_step (OdRequest True (demo_od False)) s1 = Some s"
    and s: "mOdcpiRequestCb s" "od_now s = 0" "mActive s" "mOdcpiRequestActive s"
      "mOdcpiRequest s = demo_od False" "map fst (od_log s) = [0]"
    by (simp add: odcpi_init_def odcpi_defs demo_od_def)
  then show ?thesis using odcpi_alternate[OF s(1-5), of n] by simp
qed

text \<open>
  A restart of the timer does not take back an expiry that is already in the queue: after an
  emergency request that overtakes it, the framework is asked twice at the same time.
\<close>

theorem odcpi_stale_expiry_repeats:
  "map_option (\<lambda>s. map (\<lambda>a. (fst a, fst (snd a))) (od_log s))
     (odcpi_run [OdInit, OdRequest True (demo_od False), OdTick 10000, OdFire,
        OdRequest True (demo_od True), OdExpire True] odcpi_init)
   = Some [(0, OdFirst), (10000, OdUpgrade), (10000, OdRepeat)]"
  by (simp add: odcpi_init_def odcpi_defs demo_od_def ODCPI_EXPECTED_INJECTION_TIME_MS_def)

end
