(* ===== verification/Gnss_Control.thy ===== *)
theory Gnss_Control
  imports Location_Types
begin

unbundle bit_operations_syntax

text \<open>
  The control side of \<open>gps/gnss/GnssAdapter.cpp\<close>: enabling and disabling GNSS, the configuration of
  the modem by the framework (\<open>gnssUpdateConfigCommand\<close>) and from the configuration files
  (\<open>setConfigCommand\<close>, also after the modem came up again), and the capabilities that follow from it
  (\<open>ContextBase\<close>).

  A command runs on the client's thread: it hands out a session id and queues a message; the adapter's
  thread processes the messages in order. Calls that leave the adapter are logged; the environment
  answers those to the modem with an error code.
\<close>

section \<open>Data\<close>

datatype GnssConfigGpsLock =
    GNSS_CONFIG_GPS_LOCK_NONE
  | GNSS_CONFIG_GPS_LOCK_MO
  | GNSS_CONFIG_GPS_LOCK_NI
  | GNSS_CONFIG_GPS_LOCK_MO_AND_NI

datatype GnssConfigSuplVersion =
    GNSS_CONFIG_SUPL_VERSION_1_0_0
  | GNSS_CONFIG_SUPL_VERSION_2_0_0
  | GNSS_CONFIG_SUPL_VERSION_2_0_2

datatype GnssConfigLppProfile =
    GNSS_CONFIG_LPP_PROFILE_RRLP_ON_LTE
  | GNSS_CONFIG_LPP_PROFILE_USER_PLANE
  | GNSS_CONFIG_LPP_PROFILE_CONTROL_PLANE
  | GNSS_CONFIG_LPP_PROFILE_USER_PLANE_AND_CONTROL_PLANE

datatype GnssAssistanceType = GNSS_ASSISTANCE_TYPE_SUPL | GNSS_ASSISTANCE_TYPE_C2K

text \<open>A C string is the list of its characters without the final zero.\<close>

type_synonym c_string = "u8 list"

record GnssConfigSetAssistanceServer =
  as_type :: GnssAssistanceType
  as_hostName :: "c_string option"
  as_port :: u32

text \<open>Flags of the enumerations with two values are booleans: \<open>YES\<close> is true.\<close>

record GnssConfig =
  cfg_flags :: u32
  cfg_gpsLock :: GnssConfigGpsLock
  cfg_suplVersion :: GnssConfigSuplVersion
  cfg_assistanceServer :: GnssConfigSetAssistanceServer
  cfg_lppProfile :: GnssConfigLppProfile
  cfg_lppeControlPlaneMask :: u16
  cfg_lppeUserPlaneMask :: u16
  cfg_aGlonassPositionProtocolMask :: u16
  cfg_emergencyPdnForEmergencySupl :: bool
  cfg_suplEmergencyServices :: bool
  cfg_suplModeMask :: u16

record gps_conf =
  SUPL_VER :: u32
  SUPL_MODE :: u32
  SUPL_ES :: u32
  CAPABILITIES :: u32
  LPP_PROFILE :: u32
  XTRA_VERSION_CHECK :: u32
  USE_EMERGENCY_PDN_FOR_EMERGENCY_SUPL :: u32
  NMEA_PROVIDER :: u32
  GPS_LOCK :: u32
  A_GLONASS_POS_PROTOCOL_SELECT :: u32
  AGPS_CONFIG_INJECT :: u32
  LPPE_CP_TECHNOLOGY :: u32
  LPPE_UP_TECHNOLOGY :: u32
  SUPL_HOST :: c_string
  SUPL_PORT :: u32

text \<open>
  The sensor configuration: the five random walk parameters (valid, bit pattern of the double) in the
  order gyro, acceleration, angle, rate, velocity; and the rest.
\<close>

record sap_conf =
  RANDOM_WALKS :: "(u8 \<times> u64) list"
  SENSOR_ACCEL_BATCHES_PER_SEC :: u32
  SENSOR_ACCEL_SAMPLES_PER_BATCH :: u32
  SENSOR_GYRO_BATCHES_PER_SEC :: u32
  SENSOR_GYRO_SAMPLES_PER_BATCH :: u32
  SENSOR_ACCEL_BATCHES_PER_SEC_HIGH :: u32
  SENSOR_ACCEL_SAMPLES_PER_BATCH_HIGH :: u32
  SENSOR_GYRO_BATCHES_PER_SEC_HIGH :: u32
  SENSOR_GYRO_SAMPLES_PER_BATCH_HIGH :: u32
  SENSOR_CONTROL_MODE :: u32
  SENSOR_USAGE :: u32
  SENSOR_ALGORITHM_CONFIG_MASK :: u32
  SENSOR_PROVIDER :: u32

definition NMEA_PROVIDER_MP :: u32 where "NMEA_PROVIDER_MP = 1"
definition LOC_NMEA_ALL_GENERAL_SUPPORTED_MASK :: u32 where
  "LOC_NMEA_ALL_GENERAL_SUPPORTED_MASK = 0x1FFFF"
definition LOC_NMEA_MASK_DEBUG_V02 :: u32 where "LOC_NMEA_MASK_DEBUG_V02 = 0x20000"
definition MAX_URL_LEN :: nat where "MAX_URL_LEN = 256"

datatype ctl_call =
    M_setGpsLock GnssConfigGpsLock
  | M_setSUPLVersion GnssConfigSuplVersion
  | M_setLPPConfig GnssConfigLppProfile
  | M_setAGLONASSProtocol u16
  | M_setLPPeProtocolCp u16
  | M_setLPPeProtocolUp u16
  | M_setServer c_string int
  | M_setServerIp u32 u32
  | M_setSensorControlConfig u32 u32
  | M_setNMEATypes u32
  | M_setXtraVersionCheck u32
  | M_setSensorProperties "(u8 \<times> u64) list"
  | M_setSensorPerfControlConfig "u32 list"
  | M_deleteAidingData bool
  | X_updateLockStatus u32
  | P_modemPowerVote bool
  | U_setCapabilities u32
  | B_broadcastCapabilities u32
  | S_setDefaultGnssEngineStates
  | K_response LocationError u32
  | K_collectiveResponse "LocationError list" "u32 list"

datatype ctl_msg =
    MsgSetControlCallbacks bool bool
  | MsgSetConfig
  | MsgGnssUpdateConfig GnssConfig "u32 list"
  | MsgDeleteAidingData u32 bool
  | MsgEnableGnss u32 bool
  | MsgDisableGnss u32

record control =
  mGps_conf :: gps_conf
  mSap_conf :: sap_conf
  mPowerVoteId :: u32
  mServerUrl :: c_string
  mNmeaMask :: u32
  ctl_counter :: u32
  ctl_responseCb :: bool
  ctl_collectiveResponseCb :: bool
  ctl_queue :: "ctl_msg list"
  ctl_log :: "ctl_call list"

text \<open>
  What the control side asks and does not change: the answers of the modem, name resolution (the
  address in network order), which sentences and messages the modem supports.
\<close>

record control_env =
  ce_modem :: "(ctl_call, LocationError) world"
  ce_resolve :: "c_string option \<Rightarrow> u32 option"
  ce_debugNmea :: bool
  ce_batching :: bool
  ce_distanceTracking :: bool
  ce_outdoorTrip :: bool
  ce_constellation :: bool

definition ctl_call :: "ctl_call \<Rightarrow> control \<Rightarrow> control" where
  "ctl_call c s = s\<lparr>ctl_log := ctl_log s @ [c]\<rparr>"

definition ctl_ask :: "control_env \<Rightarrow> ctl_call \<Rightarrow> control \<Rightarrow> control \<times> LocationError" where
  "ctl_ask w c s = (ctl_call c s, ce_modem w (ctl_log s) c)"

section \<open>Conversions\<close>

fun convertGpsLock :: "GnssConfigGpsLock \<Rightarrow> u32" where
  "convertGpsLock GNSS_CONFIG_GPS_LOCK_MO = 1"
| "convertGpsLock GNSS_CONFIG_GPS_LOCK_NI = 2"
| "convertGpsLock GNSS_CONFIG_GPS_LOCK_MO_AND_NI = 3"
| "convertGpsLock GNSS_CONFIG_GPS_LOCK_NONE = 0"

definition convertGpsLock_back :: "u32 \<Rightarrow> GnssConfigGpsLock" where
  "convertGpsLock_back gpsLock =
     (if gpsLock = 1 then GNSS_CONFIG_GPS_LOCK_MO
      else if gpsLock = 2 then GNSS_CONFIG_GPS_LOCK_NI
      else if gpsLock = 3 then GNSS_CONFIG_GPS_LOCK_MO_AND_NI
      else GNSS_CONFIG_GPS_LOCK_NONE)"

fun convertSuplVersion :: "GnssConfigSuplVersion \<Rightarrow> u32" where
  "convertSuplVersion GNSS_CONFIG_SUPL_VERSION_2_0_0 = 0x00020000"
| "convertSuplVersion GNSS_CONFIG_SUPL_VERSION_2_0_2 = 0x00020002"
| "convertSuplVersion GNSS_CONFIG_SUPL_VERSION_1_0_0 = 0x00010000"

definition convertSuplVersion_back :: "u32 \<Rightarrow> GnssConfigSuplVersion" where
  "convertSuplVersion_back suplVersion =
     (if suplVersion = 0x00020000 then GNSS_CONFIG_SUPL_VERSION_2_0_0
      else if suplVersion = 0x00020002 then GNSS_CONFIG_SUPL_VERSION_2_0_2
      else GNSS_CONFIG_SUPL_VERSION_1_0_0)"

fun convertLppProfile :: "GnssConfigLppProfile \<Rightarrow> u32" where
  "convertLppProfile GNSS_CONFIG_LPP_PROFILE_USER_PLANE = 1"
| "convertLppProfile GNSS_CONFIG_LPP_PROFILE_CONTROL_PLANE = 2"
| "convertLppProfile GNSS_CONFIG_LPP_PROFILE_USER_PLANE_AND_CONTROL_PLANE = 3"
| "convertLppProfile GNSS_CONFIG_LPP_PROFILE_RRLP_ON_LTE = 0"

definition convertLppProfile_back :: "u32 \<Rightarrow> GnssConfigLppProfile" where
  "convertLppProfile_back lppProfile =
     (if lppProfile = 1 then GNSS_CONFIG_LPP_PROFILE_USER_PLANE
      else if lppProfile = 2 then GNSS_CONFIG_LPP_PROFILE_CONTROL_PLANE
      else if lppProfile = 3 then GNSS_CONFIG_LPP_PROFILE_USER_PLANE_AND_CONTROL_PLANE
      else GNSS_CONFIG_LPP_PROFILE_RRLP_ON_LTE)"

text \<open>
  The conversions of masks test and set bit by bit; the bits of the framework and of the modem have
  the same values.
\<close>

definition mask_set :: "'b::len word \<Rightarrow> 'a::len word \<Rightarrow> 'a word \<Rightarrow> 'b word \<Rightarrow> 'b word" where
  "mask_set out bt m acc = (if bt AND m \<noteq> 0 then acc OR out else acc)"

definition convertLppeCp :: "u16 \<Rightarrow> u32" where
  "convertLppeCp m = mask_set 8 8 m (mask_set 4 4 m (mask_set 2 2 m (mask_set 1 1 m 0)))"

definition convertLppeCp_back :: "u32 \<Rightarrow> u16" where
  "convertLppeCp_back m = mask_set 8 8 m (mask_set 4 4 m (mask_set 2 2 m (mask_set 1 1 m 0)))"

definition convertLppeUp :: "u16 \<Rightarrow> u32" where
  "convertLppeUp m = mask_set 8 8 m (mask_set 4 4 m (mask_set 2 2 m (mask_set 1 1 m 0)))"

definition convertLppeUp_back :: "u32 \<Rightarrow> u16" where
  "convertLppeUp_back m = mask_set 8 8 m (mask_set 4 4 m (mask_set 2 2 m (mask_set 1 1 m 0)))"

definition convertAGloProt :: "u16 \<Rightarrow> u32" where
  "convertAGloProt m = mask_set 8 8 m (mask_set 4 4 m (mask_set 2 2 m (mask_set 1 1 m 0)))"

definition convertEP4ES :: "bool \<Rightarrow> u32" where
  "convertEP4ES b = (if b then 1 else 0)"

definition convertSuplEs :: "bool \<Rightarrow> u32" where
  "convertSuplEs b = (if b then 1 else 0)"

definition convertSuplMode :: "u16 \<Rightarrow> u32" where
  "convertSuplMode m = mask_set 2 2 m (mask_set 1 1 m 0)"

section \<open>Capabilities\<close>

definition getCarrierCapabilities :: "gps_conf \<Rightarrow> u32" where
  "getCarrierCapabilities cf =
     (let c1 = CAPABILITIES cf;
          c2 = (if SUPL_MODE cf AND 2 \<noteq> 2 then c1 AND NOT 4 else c1)
      in if SUPL_MODE cf AND 1 \<noteq> 1 then c2 AND NOT 2 else c2)"

definition flag :: "u32 \<Rightarrow> bool \<Rightarrow> u32 \<Rightarrow> u32" where
  "flag bits b m = (if b then m OR bits else m)"

definition getCapabilities :: "control_env \<Rightarrow> gps_conf \<Rightarrow> u32" where
  "getCapabilities w cf =
     (let carrier = getCarrierCapabilities cf;
          m1 = flag 0x11 True 0;
          m2 = flag 0x40 (carrier AND 2 \<noteq> 0) m1;
          m3 = flag 0x80 (carrier AND 4 \<noteq> 0) m2;
          m4 = flag 0x0A (ce_batching w) m3;
          m5 = flag 0x04 (ce_distanceTracking w) m4;
          m6 = flag 0x200 (ce_outdoorTrip w) m5;
          m7 = flag 0x20 (ce_constellation w) m6
      in flag 0x100 (ce_debugNmea w) m7)"

section \<open>The SUPL server\<close>

fun decimal :: "nat \<Rightarrow> c_string" where
  "decimal n = (if n < 10 then [of_nat (48 + n)] else decimal (n div 10) @ [of_nat (48 + n mod 10)])"

declare decimal.simps [simp del]

text \<open>Lower case, for \<open>strncasecmp\<close>, whose bound is never shorter than the strings here.\<close>

definition to_lower :: "u8 \<Rightarrow> u8" where
  "to_lower c = (if 65 \<le> c \<and> c \<le> 90 then c + 32 else c)"

definition same_ignoring_case :: "c_string \<Rightarrow> c_string \<Rightarrow> bool" where
  "same_ignoring_case a b \<longleftrightarrow> map to_lower a = map to_lower b"

definition noHost :: c_string where
  "noHost = [78, 79, 78, 69]"

text \<open>
  The port is converted to an \<open>int\<close>. \<open>snprintf\<close> cuts what it writes but returns the full length.
\<close>

definition setSuplHostServer ::
  "control_env \<Rightarrow> c_string option \<Rightarrow> u32 \<Rightarrow> control \<Rightarrow> control \<times> LocationError" where
  "setSuplHostServer w server port s =
     (if AGPS_CONFIG_INJECT (mGps_conf s) = 0 then (s, LOCATION_ERROR_SUCCESS)
      else
        let (url, len) =
          (case server of
             None \<Rightarrow> ([], 0)
           | Some h \<Rightarrow>
               if h = [] \<or> same_ignoring_case noHost h then ([], 0)
               else if 0 < sint port then
                 let full = h @ 58 # decimal (unat port)
                 in (take (MAX_URL_LEN - 1) full, int (length full))
               else ([], - 1))
        in if 0 \<le> len \<and> \<not> same_ignoring_case (mServerUrl s) url
           then ctl_ask w (M_setServer url len) (s\<lparr>mServerUrl := url\<rparr>)
           else (s, LOCATION_ERROR_INVALID_PARAMETER))"

definition htonl :: "u32 \<Rightarrow> u32" where
  "htonl x =
     push_bit 24 (x AND 0xFF) OR push_bit 8 (x AND 0xFF00) OR
     (drop_bit 8 x AND 0xFF00) OR (drop_bit 24 x AND 0xFF)"

section \<open>Updating the configuration\<close>

text \<open>
  What is done for each flag: the new state and the error that is recorded for it. \<open>conf\<close> sets a
  field of the configuration.
\<close>

definition conf :: "(gps_conf \<Rightarrow> gps_conf) \<Rightarrow> control \<Rightarrow> control" where
  "conf f s = s\<lparr>mGps_conf := f (mGps_conf s)\<rparr>"

definition update_gpsLock :: "control_env \<Rightarrow> GnssConfig \<Rightarrow> control \<Rightarrow> control \<times> LocationError" where
  "update_gpsLock w c s =
     (let s1 = conf (\<lambda>cf. cf\<lparr>GPS_LOCK := convertGpsLock (cfg_gpsLock c)\<rparr>) s
      in if mPowerVoteId s1 = 0 then ctl_ask w (M_setGpsLock (cfg_gpsLock c)) s1
         else (s1, LOCATION_ERROR_SUCCESS))"

definition update_suplVersion :: "control_env \<Rightarrow> GnssConfig \<Rightarrow> control \<Rightarrow> control \<times> LocationError" where
  "update_suplVersion w c s =
     (let v = convertSuplVersion (cfg_suplVersion c)
      in if v \<noteq> SUPL_VER (mGps_conf s) \<and> AGPS_CONFIG_INJECT (mGps_conf s) \<noteq> 0
         then ctl_ask w (M_setSUPLVersion (cfg_suplVersion c)) (conf (\<lambda>cf. cf\<lparr>SUPL_VER := v\<rparr>) s)
         else (s, LOCATION_ERROR_SUCCESS))"

definition update_assistanceServer ::
  "control_env \<Rightarrow> GnssConfig \<Rightarrow> control \<Rightarrow> control \<times> LocationError" where
  "update_assistanceServer w c s =
     (let a = cfg_assistanceServer c
      in case as_type a of
           GNSS_ASSISTANCE_TYPE_SUPL \<Rightarrow> setSuplHostServer w (as_hostName a) (as_port a) s
         | GNSS_ASSISTANCE_TYPE_C2K \<Rightarrow>
             if AGPS_CONFIG_INJECT (mGps_conf s) \<noteq> 0 then
               case ce_resolve w (as_hostName a) of
                 None \<Rightarrow> (s, LOCATION_ERROR_INVALID_PARAMETER)
               | Some addr \<Rightarrow> ctl_ask w (M_setServerIp (htonl addr) (as_port a)) s
             else (s, LOCATION_ERROR_SUCCESS))"

definition update_lppProfile :: "control_env \<Rightarrow> GnssConfig \<Rightarrow> control \<Rightarrow> control \<times> LocationError" where
  "update_lppProfile w c s =
     (let v = convertLppProfile (cfg_lppProfile c)
      in if v \<noteq> LPP_PROFILE (mGps_conf s) \<and> AGPS_CONFIG_INJECT (mGps_conf s) \<noteq> 0
         then ctl_ask w (M_setLPPConfig (cfg_lppProfile c)) (conf (\<lambda>cf. cf\<lparr>LPP_PROFILE := v\<rparr>) s)
         else (s, LOCATION_ERROR_SUCCESS))"

definition update_lppeCp :: "control_env \<Rightarrow> GnssConfig \<Rightarrow> control \<Rightarrow> control \<times> LocationError" where
  "update_lppeCp w c s =
     (let v = convertLppeCp (cfg_lppeControlPlaneMask c)
      in if v \<noteq> LPPE_CP_TECHNOLOGY (mGps_conf s)
         then ctl_ask w (M_setLPPeProtocolCp (cfg_lppeControlPlaneMask c))
                (conf (\<lambda>cf. cf\<lparr>LPPE_CP_TECHNOLOGY := v\<rparr>) s)
         else (s, LOCATION_ERROR_SUCCESS))"

definition update_lppeUp :: "control_env \<Rightarrow> GnssConfig \<Rightarrow> control \<Rightarrow> control \<times> LocationError" where
  "update_lppeUp w c s =
     (let v = convertLppeUp (cfg_lppeUserPlaneMask c)
      in if v \<noteq> LPPE_UP_TECHNOLOGY (mGps_conf s)
         then ctl_ask w (M_setLPPeProtocolUp (cfg_lppeUserPlaneMask c))
                (conf (\<lambda>cf. cf\<lparr>LPPE_UP_TECHNOLOGY := v\<rparr>) s)
         else (s, LOCATION_ERROR_SUCCESS))"

definition update_aGloProt :: "control_env \<Rightarrow> GnssConfig \<Rightarrow> control \<Rightarrow> control \<times> LocationError" where
  "update_aGloProt w c s =
     (let v = convertAGloProt (cfg_aGlonassPositionProtocolMask c)
      in if v \<noteq> A_GLONASS_POS_PROTOCOL_SELECT (mGps_conf s) \<and> AGPS_CONFIG_INJECT (mGps_conf s) \<noteq> 0
         then ctl_ask w (M_setAGLONASSProtocol (cfg_aGlonassPositionProtocolMask c))
                (conf (\<lambda>cf. cf\<lparr>A_GLONASS_POS_PROTOCOL_SELECT := v\<rparr>) s)
         else (s, LOCATION_ERROR_SUCCESS))"

definition update_emergencyPdn :: "GnssConfig \<Rightarrow> control \<Rightarrow> control \<times> LocationError" where
  "update_emergencyPdn c s =
     (conf (\<lambda>cf. cf\<lparr>USE_EMERGENCY_PDN_FOR_EMERGENCY_SUPL :=
                      convertEP4ES (cfg_emergencyPdnForEmergencySupl c)\<rparr>) s,
      LOCATION_ERROR_SUCCESS)"

definition update_suplEs :: "GnssConfig \<Rightarrow> control \<Rightarrow> control \<times> LocationError" where
  "update_suplEs c s =
     (conf (\<lambda>cf. cf\<lparr>SUPL_ES := convertSuplEs (cfg_suplEmergencyServices c)\<rparr>) s,
      LOCATION_ERROR_SUCCESS)"

definition update_suplMode :: "control_env \<Rightarrow> GnssConfig \<Rightarrow> control \<Rightarrow> control \<times> LocationError" where
  "update_suplMode w c s =
     (let v = convertSuplMode (cfg_suplModeMask c)
      in if v \<noteq> SUPL_MODE (mGps_conf s) then
           let s1 = conf (\<lambda>cf. cf\<lparr>SUPL_MODE := v\<rparr>) s;
               s2 = ctl_call (U_setCapabilities (getCarrierCapabilities (mGps_conf s1))) s1;
               s3 = ctl_call (B_broadcastCapabilities (getCapabilities w (mGps_conf s2))) s2
           in (s3, LOCATION_ERROR_SUCCESS)
         else (s, LOCATION_ERROR_SUCCESS))"

text \<open>
  One \<open>if\<close> of the message: it writes its error at \<open>index\<close> if that is within the array, and counts.
  The state of the loop is the control state, the errors written and the index.
\<close>

definition update_item ::
  "nat \<Rightarrow> u32 \<Rightarrow> u32 \<Rightarrow> (control \<Rightarrow> control \<times> LocationError)
     \<Rightarrow> control \<times> LocationError list \<times> nat \<Rightarrow> control \<times> LocationError list \<times> nat" where
  "update_item n flags b f st =
     (if flags AND b \<noteq> 0 then
        case st of (s, errs, index) \<Rightarrow>
          case f s of (s1, err) \<Rightarrow>
            (s1, (if index < n then errs @ [err] else errs), index + 1)
      else st)"

definition update_items :: "control_env \<Rightarrow> GnssConfig \<Rightarrow> (u32 \<times> (control \<Rightarrow> control \<times> LocationError)) list"
where
  "update_items w c =
     [(0x001, update_gpsLock w c), (0x002, update_suplVersion w c), (0x004, update_assistanceServer w c),
      (0x008, update_lppProfile w c), (0x010, update_lppeCp w c), (0x020, update_lppeUp w c),
      (0x040, update_aGloProt w c), (0x080, update_emergencyPdn c), (0x100, update_suplEs c),
      (0x200, update_suplMode w c)]"

definition gnssUpdateConfig_proc :: "control_env \<Rightarrow> GnssConfig \<Rightarrow> u32 list \<Rightarrow> control \<Rightarrow> control" where
  "gnssUpdateConfig_proc w c ids s =
     (let (s1, errs, index) =
        fold (\<lambda>(b, f). update_item (length ids) (cfg_flags c) b f) (update_items w c) (s, [], 0)
      in if ctl_collectiveResponseCb s1
         then ctl_call (K_collectiveResponse (take index errs) (take index ids)) s1
         else s1)"

section \<open>Commands\<close>

definition newSessionId :: "control \<Rightarrow> u32 \<times> control" where
  "newSessionId s =
     (let n = ctl_counter s + 1;
          n' = (if n = 0xFFFFFFFF then 1 else n)
      in (n', s\<lparr>ctl_counter := n'\<rparr>))"

fun newSessionIds :: "nat \<Rightarrow> control \<Rightarrow> u32 list \<times> control" where
  "newSessionIds 0 s = ([], s)"
| "newSessionIds (Suc n) s =
     (case newSessionId s of (i, s1) \<Rightarrow> case newSessionIds n s1 of (is, s2) \<Rightarrow> (i # is, s2))"

text \<open>The bits of the flags are counted by shifting them out.\<close>

function count_bits :: "u32 \<Rightarrow> nat" where
  "count_bits flags =
     (if flags > 0 then (if flags AND 1 \<noteq> 0 then 1 else 0) + count_bits (drop_bit 1 flags) else 0)"
  by auto
termination
  by (relation "measure unat")
     (auto simp: drop_bit_eq_div unat_div word_greater_zero_iff unat_gt_0 intro!: div_less_dividend)

declare count_bits.simps [simp del]

definition ctl_send :: "ctl_msg \<Rightarrow> control \<Rightarrow> control" where
  "ctl_send m s = s\<lparr>ctl_queue := ctl_queue s @ [m]\<rparr>"

definition gnssUpdateConfigCommand :: "GnssConfig \<Rightarrow> control \<Rightarrow> u32 list \<times> control" where
  "gnssUpdateConfigCommand c s =
     (let n = count_bits (cfg_flags c)
      in if n = 0 then ([], s)
         else case newSessionIds n s of (ids, s1) \<Rightarrow>
           (ids, ctl_send (MsgGnssUpdateConfig c ids) s1))"

definition gnssDeleteAidingDataCommand :: "bool \<Rightarrow> control \<Rightarrow> u32 \<times> control" where
  "gnssDeleteAidingDataCommand deleteAll s =
     (case newSessionId s of (i, s1) \<Rightarrow> (i, ctl_send (MsgDeleteAidingData i deleteAll) s1))"

text \<open>\<open>gnss\<close>: the technology type is GNSS, the only one there is.\<close>

definition enableCommand :: "bool \<Rightarrow> control \<Rightarrow> u32 \<times> control" where
  "enableCommand gnss s =
     (case newSessionId s of (i, s1) \<Rightarrow>
        (i, ctl_call (P_modemPowerVote True) (ctl_send (MsgEnableGnss i gnss) s1)))"

definition disableCommand :: "u32 \<Rightarrow> control \<Rightarrow> control" where
  "disableCommand i s = ctl_call (P_modemPowerVote False) (ctl_send (MsgDisableGnss i) s)"

section \<open>Messages\<close>

definition ctl_respond :: "LocationError \<Rightarrow> u32 \<Rightarrow> control \<Rightarrow> control" where
  "ctl_respond err i s = (if ctl_responseCb s then ctl_call (K_response err i) s else s)"

definition enableGnss_proc :: "u32 \<Rightarrow> bool \<Rightarrow> control \<Rightarrow> control" where
  "enableGnss_proc i gnss s =
     (if \<not> gnss then ctl_respond LOCATION_ERROR_INVALID_PARAMETER i s
      else if mPowerVoteId s > 0 then ctl_respond LOCATION_ERROR_ALREADY_STARTED i s
      else
        let s1 = s\<lparr>mPowerVoteId := i\<rparr>;
            s2 = ctl_call (M_setGpsLock GNSS_CONFIG_GPS_LOCK_NONE) s1;
            s3 = ctl_call (X_updateLockStatus (convertGpsLock GNSS_CONFIG_GPS_LOCK_NONE)) s2
        in ctl_respond LOCATION_ERROR_SUCCESS i s3)"

text \<open>
  The lock of the configuration is given to the XTRA client as an enumerator that is converted to
  an integer.
\<close>

fun gpsLock_value :: "GnssConfigGpsLock \<Rightarrow> u32" where
  "gpsLock_value GNSS_CONFIG_GPS_LOCK_NONE = 0"
| "gpsLock_value GNSS_CONFIG_GPS_LOCK_MO = 1"
| "gpsLock_value GNSS_CONFIG_GPS_LOCK_NI = 2"
| "gpsLock_value GNSS_CONFIG_GPS_LOCK_MO_AND_NI = 3"

definition disableGnss_proc :: "u32 \<Rightarrow> control \<Rightarrow> control" where
  "disableGnss_proc i s =
     (if mPowerVoteId s \<noteq> i then ctl_respond LOCATION_ERROR_ID_UNKNOWN i s
      else
        let s1 = s\<lparr>mPowerVoteId := 0\<rparr>;
            l = convertGpsLock_back (GPS_LOCK (mGps_conf s1));
            s2 = ctl_call (M_setGpsLock l) s1;
            s3 = ctl_call (X_updateLockStatus (gpsLock_value l)) s2
        in ctl_respond LOCATION_ERROR_SUCCESS i s3)"

definition deleteAidingData_proc :: "control_env \<Rightarrow> u32 \<Rightarrow> bool \<Rightarrow> control \<Rightarrow> control" where
  "deleteAidingData_proc w i deleteAll s =
     (let (s1, err) = ctl_ask w (M_deleteAidingData deleteAll) s;
          s2 = ctl_respond err i s1
      in if deleteAll then ctl_call S_setDefaultGnssEngineStates s2 else s2)"

text \<open>
  The masks of the LPPe protocols lose the bits the conversion does not know; the A-GLONASS mask is
  cut to 16 bits.
\<close>

definition setConfig_inject :: "control \<Rightarrow> control" where
  "setConfig_inject s =
     (let cf = mGps_conf s
      in if AGPS_CONFIG_INJECT cf \<noteq> 0 then
           ctl_call (M_setAGLONASSProtocol (ucast (A_GLONASS_POS_PROTOCOL_SELECT cf)))
             (ctl_call (M_setLPPConfig (convertLppProfile_back (LPP_PROFILE cf)))
               (ctl_call (M_setSUPLVersion (convertSuplVersion_back (SUPL_VER cf))) s))
         else s)"

definition setConfig_nmeaMask :: "control_env \<Rightarrow> gps_conf \<Rightarrow> u32" where
  "setConfig_nmeaMask w cf =
     flag LOC_NMEA_MASK_DEBUG_V02 (ce_debugNmea w)
       (flag LOC_NMEA_ALL_GENERAL_SUPPORTED_MASK (NMEA_PROVIDER cf = NMEA_PROVIDER_MP) 0)"

definition setConfig_sensors :: "control \<Rightarrow> control" where
  "setConfig_sensors s =
     (let sap = mSap_conf s;
          s1 = (if \<exists>r \<in> set (RANDOM_WALKS sap). fst r \<noteq> 0
                then ctl_call (M_setSensorProperties (RANDOM_WALKS sap)) s else s)
      in ctl_call (M_setSensorPerfControlConfig
           [SENSOR_CONTROL_MODE sap, SENSOR_ACCEL_SAMPLES_PER_BATCH sap, SENSOR_ACCEL_BATCHES_PER_SEC sap,
            SENSOR_GYRO_SAMPLES_PER_BATCH sap, SENSOR_GYRO_BATCHES_PER_SEC sap,
            SENSOR_ACCEL_SAMPLES_PER_BATCH_HIGH sap, SENSOR_ACCEL_BATCHES_PER_SEC_HIGH sap,
            SENSOR_GYRO_SAMPLES_PER_BATCH_HIGH sap, SENSOR_GYRO_BATCHES_PER_SEC_HIGH sap,
            SENSOR_ALGORITHM_CONFIG_MASK sap]) s1)"

definition setConfig_proc :: "control_env \<Rightarrow> control \<Rightarrow> control" where
  "setConfig_proc w s =
     (let cf = mGps_conf s;
          sap = mSap_conf s;
          s1 = setConfig_inject s;
          s2 = fst (setSuplHostServer w (Some (SUPL_HOST cf)) (SUPL_PORT cf) s1);
          s3 = ctl_call (M_setSensorControlConfig (SENSOR_USAGE sap) (SENSOR_PROVIDER sap)) s2;
          s4 = ctl_call (M_setLPPeProtocolCp (convertLppeCp_back (LPPE_CP_TECHNOLOGY cf))) s3;
          s5 = ctl_call (M_setLPPeProtocolUp (convertLppeUp_back (LPPE_UP_TECHNOLOGY cf))) s4;
          m = setConfig_nmeaMask w cf;
          s6 = (if m \<noteq> 0 then ctl_call (M_setNMEATypes m) s5 else s5);
          s7 = ctl_call (M_setXtraVersionCheck (XTRA_VERSION_CHECK cf)) (s6\<lparr>mNmeaMask := m\<rparr>)
      in setConfig_sensors s7)"

fun ctl_proc :: "control_env \<Rightarrow> ctl_msg \<Rightarrow> control \<Rightarrow> control" where
  "ctl_proc w (MsgSetControlCallbacks r c) s = s\<lparr>ctl_responseCb := r, ctl_collectiveResponseCb := c\<rparr>"
| "ctl_proc w MsgSetConfig s = setConfig_proc w s"
| "ctl_proc w (MsgGnssUpdateConfig c ids) s = gnssUpdateConfig_proc w c ids s"
| "ctl_proc w (MsgDeleteAidingData i deleteAll) s = deleteAidingData_proc w i deleteAll s"
| "ctl_proc w (MsgEnableGnss i gnss) s = enableGnss_proc i gnss s"
| "ctl_proc w (MsgDisableGnss i) s = disableGnss_proc i s"

datatype ctl_event =
    CtlSetCallbacks bool bool
  | CtlSetConfig
  | CtlUpdateConfig GnssConfig
  | CtlDeleteAidingData bool
  | CtlEnable bool
  | CtlDisable u32
  | CtlProcess

fun ctl_step :: "control_env \<Rightarrow> ctl_event \<Rightarrow> control \<Rightarrow> control" where
  "ctl_step w (CtlSetCallbacks r c) s = ctl_send (MsgSetControlCallbacks r c) s"
| "ctl_step w CtlSetConfig s = ctl_send MsgSetConfig s"
| "ctl_step w (CtlUpdateConfig c) s = snd (gnssUpdateConfigCommand c s)"
| "ctl_step w (CtlDeleteAidingData a) s = snd (gnssDeleteAidingDataCommand a s)"
| "ctl_step w (CtlEnable gnss) s = snd (enableCommand gnss s)"
| "ctl_step w (CtlDisable i) s = disableCommand i s"
| "ctl_step w CtlProcess s =
     (case ctl_queue s of m # ms \<Rightarrow> ctl_proc w m (s\<lparr>ctl_queue := ms\<rparr>) | [] \<Rightarrow> s)"

definition ctl_run :: "control_env \<Rightarrow> ctl_event list \<Rightarrow> control \<Rightarrow> control" where
  "ctl_run w es s = fold (ctl_step w) es s"

definition ctl_init :: "gps_conf \<Rightarrow> sap_conf \<Rightarrow> control" where
  "ctl_init cf sap =
     \<lparr>mGps_conf = cf, mSap_conf = sap, mPowerVoteId = 0, mServerUrl = [58], mNmeaMask = 0,
      ctl_counter = 0, ctl_responseCb = False, ctl_collectiveResponseCb = False,
      ctl_queue = [], ctl_log = []\<rparr>"

end
