(* ===== verification/Control_Proofs.thy ===== *)
theory Control_Proofs
  imports Gnss_Control
begin

unbundle bit_operations_syntax

text \<open>
  What holds of the control side of the adapter: a configuration update answers the known flags in
  order, the modem's lock follows the power vote and the configuration, what an update set is what
  the modem gets again when it comes up, and what goes wrong with servers and power votes.
\<close>

section \<open>Counting flags\<close>

lemma count_bits_0 [simp]: "count_bits 0 = 0"
  by (subst count_bits.simps) simp

lemma count_bits_step: "count_bits x = (if bit x 0 then 1 else 0) + count_bits (drop_bit 1 x)"
proof (cases "x = 0")
  case False
  then have "0 < x" by (simp add: word_greater_zero_iff)
  moreover have "x AND 1 \<noteq> 0 \<longleftrightarrow> bit x 0"
    by (simp add: and_one_eq odd_iff_mod_2_eq_one bit_0)
  ultimately show ?thesis by (subst count_bits.simps) simp
qed simp

lemma card_shift: "card {i. i < Suc n \<and> P i} = (if P 0 then 1 else 0) + card {i. i < n \<and> P (Suc i)}"
proof -
  have "{i. i < Suc n \<and> P i} = (if P 0 then {0} else {}) \<union> Suc ` {i. i < n \<and> P (Suc i)}"
    by (auto simp: image_iff less_Suc_eq_0_disj)
  moreover have "card (Suc ` {i. i < n \<and> P (Suc i)}) = card {i. i < n \<and> P (Suc i)}"
    by (rule card_image) simp
  ultimately show ?thesis by (simp add: card_Un_disjoint)
qed

lemma count_bits_card_aux:
  "(\<And>i. n \<le> i \<Longrightarrow> \<not> bit x i) \<Longrightarrow> count_bits x = card {i. i < n \<and> bit x i}"
proof (induction n arbitrary: x)
  case 0
  then have "x = 0" by (auto intro: bit_eqI)
  then show ?case by simp
next
  case (Suc n)
  have "count_bits (drop_bit 1 x) = card {i. i < n \<and> bit (drop_bit 1 x) i}"
    by (rule Suc.IH) (use Suc.prems in \<open>auto simp: bit_drop_bit_eq\<close>)
  then show ?case
    using card_shift[of n "bit x"] by (subst count_bits_step) (simp add: bit_drop_bit_eq)
qed

lemma count_bits_card: "count_bits x = card {i. i < 32 \<and> bit x i}"
  by (rule count_bits_card_aux) (auto dest: bit_imp_le_length)

section \<open>Updating the configuration\<close>

text \<open>The reference: the handlers of the flags that are set, one after the other.\<close>

fun answer_all :: "(control \<Rightarrow> control \<times> LocationError) list \<Rightarrow> control \<Rightarrow> control \<times> LocationError list" where
  "answer_all [] s = (s, [])"
| "answer_all (f # fs) s =
     (let (s1, e) = f s; (s2, es) = answer_all fs s1 in (s2, e # es))"

definition set_items :: "control_env \<Rightarrow> GnssConfig \<Rightarrow> (control \<Rightarrow> control \<times> LocationError) list" where
  "set_items w c = map snd (filter (\<lambda>(b, f). cfg_flags c AND b \<noteq> 0) (update_items w c))"

lemma answer_all_length: "length (snd (answer_all fs s)) = length fs"
proof (induction fs arbitrary: s)
  case (Cons f fs)
  then show ?case by (simp add: case_prod_beta Let_def)
qed simp

lemma fold_update_items:
  assumes "length errs = index" "index + length (filter (\<lambda>(b, f). fl AND b \<noteq> 0) items) \<le> n"
  shows "fold (\<lambda>(b, f). update_item n fl b f) items (s, errs, index) =
     (let (s1, es) = answer_all (map snd (filter (\<lambda>(b, f). fl AND b \<noteq> 0) items)) s
      in (s1, errs @ es, index + length es))"
  using assms
proof (induction items arbitrary: s errs index)
  case (Cons it items)
  obtain b f where it: "it = (b, f)" by fastforce
  show ?case
  proof (cases "fl AND b = 0")
    case True
    then show ?thesis using Cons by (simp add: it update_item_def)
  next
    case False
    obtain s1 e where f: "f s = (s1, e)" by fastforce
    have "fold (\<lambda>(b, f). update_item n fl b f) items (s1, errs @ [e], index + 1) =
       (let (s2, es) = answer_all (map snd (filter (\<lambda>(b, f). fl AND b \<noteq> 0) items)) s1
        in (s2, (errs @ [e]) @ es, index + 1 + length es))"
      by (rule Cons.IH) (use Cons.prems False in \<open>auto simp: it\<close>)
    moreover have "update_item n fl b f (s, errs, index) = (s1, errs @ [e], index + 1)"
      using Cons.prems False f by (simp add: it update_item_def)
    ultimately show ?thesis
      using False f by (simp add: it Let_def split: prod.splits)
  qed
qed simp

lemma and_bit_test: "x AND push_bit n 1 \<noteq> 0 \<longleftrightarrow> bit x n" if "n < 32" for x :: u32
  using and_exp_test[of n x] that by (simp add: and.commute)

lemma update_items_bits: "map fst (update_items w c) = map (\<lambda>i. push_bit i 1) [0..<10]"
  by (simp add: update_items_def upt_rec push_bit_eq_mult)

lemma length_filter_fst:
  "length (filter (\<lambda>(b, f). P b) xs) = length (filter P (map fst xs))"
  by (induction xs) auto

lemma set_items_length: "length (set_items w c) = card {i. i < 10 \<and> bit (cfg_flags c) i}"
proof -
  have "length (set_items w c) = length (filter (\<lambda>b. cfg_flags c AND b \<noteq> 0) (map (\<lambda>i. push_bit i 1) [0..<10]))"
    unfolding set_items_def length_map length_filter_fst[of "\<lambda>b. cfg_flags c AND b \<noteq> 0"]
      update_items_bits ..
  also have "\<dots> = length (filter (\<lambda>i. cfg_flags c AND push_bit i 1 \<noteq> 0) [0..<10])"
    by (simp add: filter_map comp_def)
  also have "\<dots> = length (filter (\<lambda>i. bit (cfg_flags c) i) [0..<10])"
    by (intro arg_cong[of _ _ length] filter_cong) (use and_bit_test[of _ "cfg_flags c"] in auto)
  also have "\<dots> = card (set (filter (\<lambda>i. bit (cfg_flags c) i) [0..<10]))"
    by (rule distinct_card[symmetric]) simp
  also have "set (filter (\<lambda>i. bit (cfg_flags c) i) [0..<10]) = {i. i < 10 \<and> bit (cfg_flags c) i}"
    by auto
  finally show ?thesis .
qed

lemma set_items_count: "length (set_items w c) \<le> count_bits (cfg_flags c)"
  unfolding set_items_length count_bits_card by (rule card_mono) auto

lemma gnssUpdateConfig_answers:
  assumes "length ids = count_bits (cfg_flags c)"
  shows "gnssUpdateConfig_proc w c ids s =
     (let (s1, errs) = answer_all (set_items w c) s
      in if ctl_collectiveResponseCb s1
         then ctl_call (K_collectiveResponse errs (take (length errs) ids)) s1 else s1)"
proof -
  have "fold (\<lambda>(b, f). update_item (length ids) (cfg_flags c) b f) (update_items w c) (s, [], 0) =
     (let (s1, es) = answer_all (set_items w c) s in (s1, [] @ es, 0 + length es))"
    unfolding set_items_def
    by (rule fold_update_items) (use set_items_count[of w c] assms in \<open>auto simp: set_items_def\<close>)
  then show ?thesis by (simp add: gnssUpdateConfig_proc_def case_prod_beta Let_def)
qed

lemma newSessionIds_length: "length (fst (newSessionIds n s)) = n"
  by (induction n arbitrary: s) (auto simp: case_prod_beta split: prod.splits)

lemma gnssUpdateConfigCommand_sent:
  assumes "gnssUpdateConfigCommand c s = (ids, s1)"
  shows "length ids = count_bits (cfg_flags c)"
    "cfg_flags c \<noteq> 0 \<Longrightarrow> MsgGnssUpdateConfig c ids \<in> set (ctl_queue s1)"
proof -
  have pos: "0 < count_bits (cfg_flags c)" if nz: "cfg_flags c \<noteq> 0"
  proof -
    obtain i where "bit (cfg_flags c) i" using nz by (auto simp: bit_eq_iff)
    then have "i \<in> {i. i < 32 \<and> bit (cfg_flags c) i}" by (auto dest: bit_imp_le_length)
    moreover have "finite {i. i < 32 \<and> bit (cfg_flags c) i}" by simp
    ultimately have "0 < card {i. i < 32 \<and> bit (cfg_flags c) i}" by (metis card_gt_0_iff empty_iff)
    then show ?thesis by (simp add: count_bits_card)
  qed
  show "length ids = count_bits (cfg_flags c)"
    using assms newSessionIds_length[of "count_bits (cfg_flags c)" s]
    by (auto simp: gnssUpdateConfigCommand_def Let_def split: if_splits prod.splits)
  show "MsgGnssUpdateConfig c ids \<in> set (ctl_queue s1)" if "cfg_flags c \<noteq> 0"
    using assms pos[OF that]
    by (auto simp: gnssUpdateConfigCommand_def Let_def ctl_send_def split: if_splits prod.splits)
qed

section \<open>The lock of the modem\<close>

text \<open>The last lock the modem was given.\<close>

fun last_lock :: "ctl_call list \<Rightarrow> GnssConfigGpsLock option" where
  "last_lock [] = None"
| "last_lock (M_setGpsLock l # cs) = (case last_lock cs of Some l' \<Rightarrow> Some l' | None \<Rightarrow> Some l)"
| "last_lock (_ # cs) = last_lock cs"

fun is_lock :: "ctl_call \<Rightarrow> bool" where
  "is_lock (M_setGpsLock l) = True"
| "is_lock _ = False"

lemma last_lock_append:
  "last_lock (cs @ ds) = (case last_lock ds of Some l \<Rightarrow> Some l | None \<Rightarrow> last_lock cs)"
  by (induction cs rule: last_lock.induct) (auto split: option.splits)

lemma last_lock_other [simp]: "\<not> is_lock c \<Longrightarrow> last_lock [c] = None"
  by (cases c) auto

lemma convertGpsLock_roundtrip [simp]: "convertGpsLock_back (convertGpsLock l) = l"
  by (cases l) (auto simp: convertGpsLock_back_def)

lemma convertSuplVersion_roundtrip [simp]: "convertSuplVersion_back (convertSuplVersion v) = v"
  by (cases v) (auto simp: convertSuplVersion_back_def)

lemma convertLppProfile_roundtrip [simp]: "convertLppProfile_back (convertLppProfile p) = p"
  by (cases p) (auto simp: convertLppProfile_back_def)

definition lock_ok :: "control \<Rightarrow> bool" where
  "lock_ok s \<longleftrightarrow>
     (case last_lock (ctl_log s) of
        None \<Rightarrow> mPowerVoteId s = 0
      | Some l \<Rightarrow>
          l = (if mPowerVoteId s \<noteq> 0 then GNSS_CONFIG_GPS_LOCK_NONE
               else convertGpsLock_back (GPS_LOCK (mGps_conf s))))"

text \<open>The parts of the state the lock depends on, and that a step leaves alone.\<close>

definition same_lock :: "control \<Rightarrow> control \<Rightarrow> bool" where
  "same_lock s s' \<longleftrightarrow>
     last_lock (ctl_log s') = last_lock (ctl_log s) \<and> mPowerVoteId s' = mPowerVoteId s \<and>
     GPS_LOCK (mGps_conf s') = GPS_LOCK (mGps_conf s)"

lemma same_lock_ok: "\<lbrakk>same_lock s s'; lock_ok s\<rbrakk> \<Longrightarrow> lock_ok s'"
  by (cases "last_lock (ctl_log s)") (simp_all add: same_lock_def lock_ok_def)

lemma same_lock_refl [simp]: "same_lock s s"
  by (simp add: same_lock_def)

lemma same_lock_trans: "\<lbrakk>same_lock a b; same_lock b c\<rbrakk> \<Longrightarrow> same_lock a c"
  by (simp add: same_lock_def)

lemma same_lock_call [simp]: "\<not> is_lock c \<Longrightarrow> same_lock s (ctl_call c s') = same_lock s s'"
  by (simp add: same_lock_def ctl_call_def last_lock_append)

lemma same_lock_ask [simp]: "\<not> is_lock c \<Longrightarrow> same_lock s (fst (ctl_ask w c s')) = same_lock s s'"
  by (simp add: ctl_ask_def)

lemma same_lock_conf [simp]:
  "(\<And>cf. GPS_LOCK (f cf) = GPS_LOCK cf) \<Longrightarrow> same_lock s (conf f s') = same_lock s s'"
  by (simp add: same_lock_def conf_def)

lemma same_lock_respond [simp]: "same_lock s (ctl_respond err i s') = same_lock s s'"
  by (simp add: ctl_respond_def)

lemma same_lock_supl: "same_lock s (fst (setSuplHostServer w server port s))"
  by (auto simp: setSuplHostServer_def Let_def same_lock_def ctl_ask_def ctl_call_def last_lock_append
      split: prod.splits)

lemmas update_defs =
  update_suplVersion_def update_assistanceServer_def update_lppProfile_def update_lppeCp_def
  update_lppeUp_def update_aGloProt_def update_emergencyPdn_def update_suplEs_def update_suplMode_def

lemma update_gpsLock_ok: "lock_ok s \<Longrightarrow> lock_ok (fst (update_gpsLock w c s))"
  by (auto simp: update_gpsLock_def Let_def lock_ok_def conf_def ctl_ask_def ctl_call_def last_lock_append
      split: option.splits)

lemma update_same_lock:
  "same_lock s (fst (update_suplVersion w c s))" "same_lock s (fst (update_assistanceServer w c s))"
  "same_lock s (fst (update_lppProfile w c s))" "same_lock s (fst (update_lppeCp w c s))"
  "same_lock s (fst (update_lppeUp w c s))" "same_lock s (fst (update_aGloProt w c s))"
  "same_lock s (fst (update_emergencyPdn c s))" "same_lock s (fst (update_suplEs c s))"
  "same_lock s (fst (update_suplMode w c s))"
  by (auto simp: update_defs Let_def same_lock_supl split: GnssAssistanceType.splits option.splits)

lemma update_item_lock_ok:
  assumes "(b, f) \<in> set (update_items w c)" "lock_ok s"
  shows "lock_ok (fst (f s))"
  using assms(1)
  by (auto simp: update_items_def
      intro: update_gpsLock_ok[OF assms(2)] same_lock_ok[OF update_same_lock(1) assms(2)]
        same_lock_ok[OF update_same_lock(2) assms(2)] same_lock_ok[OF update_same_lock(3) assms(2)]
        same_lock_ok[OF update_same_lock(4) assms(2)] same_lock_ok[OF update_same_lock(5) assms(2)]
        same_lock_ok[OF update_same_lock(6) assms(2)] same_lock_ok[OF update_same_lock(7) assms(2)]
        same_lock_ok[OF update_same_lock(8) assms(2)] same_lock_ok[OF update_same_lock(9) assms(2)])

lemma update_fold_lock_ok:
  "\<lbrakk>\<And>b f s. (b, f) \<in> set items \<Longrightarrow> lock_ok s \<Longrightarrow> lock_ok (fst (f s)); lock_ok (fst st)\<rbrakk> \<Longrightarrow>
     lock_ok (fst (fold (\<lambda>(b, f). update_item n fl b f) items st))"
proof (induction items arbitrary: st)
  case (Cons it items)
  obtain b f s errs index where p: "it = (b, f)" "st = (s, errs, index)" by (metis prod.exhaust)
  have "lock_ok (fst (f s))" using Cons.prems(1)[of b f s] Cons.prems(2) by (simp add: p)
  then have "lock_ok (fst (update_item n fl b f st))"
    using Cons.prems(2) by (simp add: update_item_def p case_prod_beta)
  moreover have "lock_ok (fst (f' s'))" if "(b', f') \<in> set items" "lock_ok s'" for b' f' s'
    using Cons.prems(1)[of b' f' s'] that by simp
  ultimately have "lock_ok (fst (fold (\<lambda>(b, f). update_item n fl b f) items (update_item n fl b f st)))"
    by (intro Cons.IH)
  then show ?case by (simp add: p)
qed simp

lemma same_lock_upd [simp]:
  "same_lock s (s'\<lparr>mNmeaMask := m\<rparr>) = same_lock s s'"
  "same_lock s (s'\<lparr>ctl_queue := q\<rparr>) = same_lock s s'"
  "same_lock s (s'\<lparr>ctl_counter := n\<rparr>) = same_lock s s'"
  "same_lock s (s'\<lparr>ctl_responseCb := r, ctl_collectiveResponseCb := cc\<rparr>) = same_lock s s'"
  by (simp_all add: same_lock_def)

lemma setConfig_same_lock: "same_lock s (setConfig_proc w s)"
proof -
  have "same_lock s (setConfig_inject s)"
    by (simp add: setConfig_inject_def Let_def)
  then have "same_lock s (fst (setSuplHostServer w h p (setConfig_inject s)))" for h p
    using same_lock_supl same_lock_trans by blast
  then show ?thesis
    by (simp add: setConfig_proc_def setConfig_sensors_def Let_def)
qed

lemma gnssUpdateConfig_lock_ok:
  assumes "lock_ok s"
  shows "lock_ok (gnssUpdateConfig_proc w c ids s)"
proof -
  obtain s1 errs index where f:
    "fold (\<lambda>(b, f). update_item (length ids) (cfg_flags c) b f) (update_items w c) (s, [], 0) = (s1, errs, index)"
    by (metis prod.exhaust)
  have "lock_ok s1"
    using update_fold_lock_ok[of "update_items w c" "(s, [], 0)" "length ids" "cfg_flags c"]
      update_item_lock_ok assms f by simp
  then have "lock_ok (ctl_call (K_collectiveResponse xs ys) s1)" for xs ys
    by (rule same_lock_ok[rotated]) simp
  then show ?thesis using f \<open>lock_ok s1\<close> by (simp add: gnssUpdateConfig_proc_def)
qed

lemma enableGnss_lock_ok:
  assumes "lock_ok s" "i \<noteq> 0"
  shows "lock_ok (enableGnss_proc i gnss s)"
proof -
  have "lock_ok (s\<lparr>mPowerVoteId := i, ctl_log := ctl_log s @ [M_setGpsLock GNSS_CONFIG_GPS_LOCK_NONE, x]\<rparr>)"
    if "\<not> is_lock x" for x
    using assms(2) that by (cases x) (simp_all add: lock_ok_def last_lock_append)
  note started = this[of "X_updateLockStatus 0"]
  have resp: "lock_ok (ctl_respond e i t)" if "lock_ok t" for e t
    by (rule same_lock_ok[OF _ that]) simp
  have "s\<lparr>mPowerVoteId := i, ctl_log := ctl_log s @ [M_setGpsLock GNSS_CONFIG_GPS_LOCK_NONE, X_updateLockStatus 0]\<rparr>
      = ctl_call (X_updateLockStatus 0) (ctl_call (M_setGpsLock GNSS_CONFIG_GPS_LOCK_NONE) (s\<lparr>mPowerVoteId := i\<rparr>))"
    by (simp add: ctl_call_def)
  then show ?thesis
    using resp[OF assms(1)] resp[OF started] by (simp add: enableGnss_proc_def Let_def)
qed

lemma disableGnss_lock_ok:
  assumes "lock_ok s"
  shows "lock_ok (disableGnss_proc i s)"
proof -
  let ?l = "convertGpsLock_back (GPS_LOCK (mGps_conf s))"
  let ?s = "ctl_call (X_updateLockStatus (gpsLock_value ?l)) (ctl_call (M_setGpsLock ?l) (s\<lparr>mPowerVoteId := 0\<rparr>))"
  have "lock_ok ?s" by (simp add: lock_ok_def ctl_call_def last_lock_append)
  then have "lock_ok (ctl_respond e i ?s)" for e
    by (rule same_lock_ok[rotated]) simp
  moreover have "lock_ok (ctl_respond e i s)" for e
    by (rule same_lock_ok[OF _ assms]) simp
  ultimately show ?thesis by (simp add: disableGnss_proc_def Let_def)
qed

definition ctl_inv :: "control \<Rightarrow> bool" where
  "ctl_inv s \<longleftrightarrow>
     lock_ok s \<and> ctl_counter s \<noteq> 0xFFFFFFFF \<and> (\<forall>i g. MsgEnableGnss i g \<in> set (ctl_queue s) \<longrightarrow> i \<noteq> 0)"

lemma control_next_id: "x + 1 \<noteq> 0" if "x \<noteq> 0xFFFFFFFF" for x :: u32
proof
  assume "x + 1 = 0"
  then have "x = - 1" by (simp add: eq_neg_iff_add_eq_0)
  then show False using that by simp
qed

lemma newSessionId_facts:
  assumes "newSessionId s = (i, s1)" "ctl_counter s \<noteq> 0xFFFFFFFF"
  shows "i \<noteq> 0" "ctl_counter s1 \<noteq> 0xFFFFFFFF" "ctl_queue s1 = ctl_queue s" "same_lock s s1"
proof -
  define n :: u32 where "n = (if ctl_counter s + 1 = 0xFFFFFFFF then 1 else ctl_counter s + 1)"
  have n: "n \<noteq> 0" "n \<noteq> 0xFFFFFFFF" using control_next_id[OF assms(2)] by (simp_all add: n_def)
  have "i = n" "s1 = s\<lparr>ctl_counter := n\<rparr>"
    using assms(1) unfolding newSessionId_def Let_def n_def[symmetric] by auto
  then show "i \<noteq> 0" "ctl_counter s1 \<noteq> 0xFFFFFFFF" "ctl_queue s1 = ctl_queue s" "same_lock s s1"
    using n by simp_all
qed

lemma newSessionIds_facts:
  assumes "newSessionIds n s = (is, s1)" "ctl_counter s \<noteq> 0xFFFFFFFF"
  shows "ctl_counter s1 \<noteq> 0xFFFFFFFF \<and> ctl_queue s1 = ctl_queue s \<and> same_lock s s1"
  using assms
proof (induction n arbitrary: s "is")
  case (Suc n)
  obtain i s2 where i: "newSessionId s = (i, s2)" by fastforce
  obtain js s3 where j: "newSessionIds n s2 = (js, s3)" by fastforce
  have "s3 = s1" using Suc.prems(1) i j by simp
  then show ?case
    using Suc.IH[of s2 js] newSessionId_facts[OF i Suc.prems(2)] j same_lock_trans[of s s2 s1] by simp
qed simp

lemma same_lock_inv:
  assumes "ctl_inv s" "same_lock s s'" "ctl_counter s' \<noteq> 0xFFFFFFFF"
    "\<And>i g. MsgEnableGnss i g \<in> set (ctl_queue s') \<Longrightarrow> i = 0 \<Longrightarrow> MsgEnableGnss i g \<in> set (ctl_queue s)"
  shows "ctl_inv s'"
  using assms same_lock_ok[OF assms(2)] unfolding ctl_inv_def by blast

lemma ctl_call_fields [simp]:
  "ctl_counter (ctl_call c s) = ctl_counter s" "ctl_queue (ctl_call c s) = ctl_queue s"
  "mGps_conf (ctl_call c s) = mGps_conf s" "mSap_conf (ctl_call c s) = mSap_conf s"
  "mPowerVoteId (ctl_call c s) = mPowerVoteId s" "mServerUrl (ctl_call c s) = mServerUrl s"
  "ctl_responseCb (ctl_call c s) = ctl_responseCb s"
  "ctl_collectiveResponseCb (ctl_call c s) = ctl_collectiveResponseCb s"
  "ctl_log (ctl_call c s) = ctl_log s @ [c]"
  by (simp_all add: ctl_call_def)

lemma ctl_send_fields [simp]:
  "ctl_counter (ctl_send m s) = ctl_counter s" "ctl_queue (ctl_send m s) = ctl_queue s @ [m]"
  "same_lock s' (ctl_send m s) = same_lock s' s"
  by (simp_all add: ctl_send_def)

lemma ctl_command_inv:
  assumes "ctl_inv s" "e \<noteq> CtlProcess"
  shows "ctl_inv (ctl_step w e s)"
proof -
  have c: "ctl_counter s \<noteq> 0xFFFFFFFF" using assms(1) by (simp add: ctl_inv_def)
  show ?thesis
  proof (cases e)
    case (CtlUpdateConfig cf)
    obtain ids s1 where i: "newSessionIds (count_bits (cfg_flags cf)) s = (ids, s1)" by fastforce
    note f = newSessionIds_facts[OF i c]
    show ?thesis
      by (rule same_lock_inv[OF assms(1)])
         (use f c i in \<open>auto simp: CtlUpdateConfig gnssUpdateConfigCommand_def Let_def split: if_splits\<close>)
  next
    case (CtlDeleteAidingData a)
    obtain i s1 where i: "newSessionId s = (i, s1)" by fastforce
    note f = newSessionId_facts[OF i c]
    show ?thesis
      by (rule same_lock_inv[OF assms(1)])
         (use f i in \<open>auto simp: CtlDeleteAidingData gnssDeleteAidingDataCommand_def\<close>)
  next
    case (CtlEnable g)
    obtain i s1 where i: "newSessionId s = (i, s1)" by fastforce
    note f = newSessionId_facts[OF i c]
    show ?thesis
      by (rule same_lock_inv[OF assms(1)])
         (use f i in \<open>auto simp: CtlEnable enableCommand_def\<close>)
  qed (use assms c in \<open>auto intro!: same_lock_inv[OF assms(1)] simp: disableCommand_def\<close>)
qed

text \<open>No message is sent, and no id handed out, while a message is processed.\<close>

definition same_queue :: "control \<Rightarrow> control \<Rightarrow> bool" where
  "same_queue s s' \<longleftrightarrow>
     ctl_queue s' = ctl_queue s \<and> ctl_counter s' = ctl_counter s \<and>
     ctl_collectiveResponseCb s' = ctl_collectiveResponseCb s"

lemma same_queue_refl [simp]: "same_queue s s"
  by (simp add: same_queue_def)

lemma same_queue_trans: "\<lbrakk>same_queue a b; same_queue b c\<rbrakk> \<Longrightarrow> same_queue a c"
  by (simp add: same_queue_def)

lemma same_queue_simps [simp]:
  "same_queue s (ctl_call c s') = same_queue s s'"
  "same_queue s (fst (ctl_ask w c s')) = same_queue s s'"
  "same_queue s (conf f s') = same_queue s s'"
  "same_queue s (ctl_respond err i s') = same_queue s s'"
  "same_queue s (s'\<lparr>mNmeaMask := m\<rparr>) = same_queue s s'"
  "same_queue s (s'\<lparr>mServerUrl := u\<rparr>) = same_queue s s'"
  "same_queue s (s'\<lparr>mPowerVoteId := i\<rparr>) = same_queue s s'"
  by (simp_all add: same_queue_def ctl_ask_def conf_def ctl_respond_def)

lemma same_queue_supl: "same_queue s (fst (setSuplHostServer w server port s))"
  by (auto simp: setSuplHostServer_def Let_def split: prod.splits)

lemma update_item_same_queue:
  assumes "(b, f) \<in> set (update_items w c)"
  shows "same_queue s (fst (f s))"
  using assms
  by (auto simp: update_items_def update_defs update_gpsLock_def Let_def same_queue_supl
      split: GnssAssistanceType.splits option.splits)

lemma update_fold_same_queue:
  "(\<And>b f s. (b, f) \<in> set items \<Longrightarrow> same_queue s (fst (f s))) \<Longrightarrow>
     same_queue (fst st) (fst (fold (\<lambda>(b, f). update_item n fl b f) items st))"
proof (induction items arbitrary: st)
  case (Cons it items)
  obtain b f s errs index where p: "it = (b, f)" "st = (s, errs, index)" by (metis prod.exhaust)
  have "same_queue (fst st) (fst (update_item n fl b f st))"
    using Cons.prems[of b f s] by (simp add: update_item_def p case_prod_beta)
  moreover have "same_queue s' (fst (f' s'))" if "(b', f') \<in> set items" for b' f' s'
    using Cons.prems[of b' f' s'] that by simp
  then have "same_queue (fst (update_item n fl b f st))
      (fst (fold (\<lambda>(b, f). update_item n fl b f) items (update_item n fl b f st)))"
    by (rule Cons.IH)
  ultimately have "same_queue (fst st)
      (fst (fold (\<lambda>(b, f). update_item n fl b f) items (update_item n fl b f st)))"
    using same_queue_trans by blast
  then show ?case by (simp add: p)
qed simp

lemma gnssUpdateConfig_same_queue: "same_queue s (gnssUpdateConfig_proc w c ids s)"
proof -
  obtain s1 errs index where f:
    "fold (\<lambda>(b, f). update_item (length ids) (cfg_flags c) b f) (update_items w c) (s, [], 0) = (s1, errs, index)"
    by (metis prod.exhaust)
  have "same_queue s s1"
    using update_fold_same_queue[of "update_items w c" "(s, [], 0)" "length ids" "cfg_flags c"]
      update_item_same_queue f by simp
  then show ?thesis using f by (simp add: gnssUpdateConfig_proc_def)
qed

lemma setConfig_same_queue: "same_queue s (setConfig_proc w s)"
proof -
  have "same_queue s (setConfig_inject s)"
    by (simp add: setConfig_inject_def Let_def)
  then have "same_queue s (fst (setSuplHostServer w h p (setConfig_inject s)))" for h p
    using same_queue_supl same_queue_trans by blast
  then show ?thesis
    by (simp add: setConfig_proc_def setConfig_sensors_def Let_def)
qed

lemma ctl_process_inv:
  assumes "ctl_inv s"
  shows "ctl_inv (ctl_step w CtlProcess s)"
proof (cases "ctl_queue s")
  case (Cons m ms)
  let ?s = "s\<lparr>ctl_queue := ms\<rparr>"
  have lock: "lock_ok ?s" using same_lock_ok[of s ?s] assms by (simp add: ctl_inv_def)
  have nz: "ctl_counter s \<noteq> 0xFFFFFFFF" "MsgEnableGnss i g \<in> set (m # ms) \<Longrightarrow> i \<noteq> 0" for i g
    using assms by (auto simp: ctl_inv_def Cons)
  have rest: "ctl_inv s'" if "lock_ok s'" "ctl_counter s' = ctl_counter s" "ctl_queue s' = ms" for s'
    using that nz by (auto simp: ctl_inv_def)
  have rest': "ctl_inv s'" if "lock_ok s'" "same_queue ?s s'" for s'
    using rest[of s'] that by (simp add: same_queue_def)
  have "ctl_inv (ctl_proc w m ?s)"
  proof (cases m)
    case (MsgSetControlCallbacks r c)
    then show ?thesis
      using rest[of "ctl_proc w m ?s"] same_lock_ok[OF _ lock, of "ctl_proc w m ?s"] by simp
  next
    case MsgSetConfig
    then show ?thesis
      using rest' same_lock_ok[OF setConfig_same_lock lock] setConfig_same_queue by simp
  next
    case (MsgGnssUpdateConfig c ids)
    then show ?thesis
      using rest' gnssUpdateConfig_lock_ok[OF lock] gnssUpdateConfig_same_queue by simp
  next
    case (MsgDeleteAidingData i a)
    let ?d = "deleteAidingData_proc w i a ?s"
    have "same_lock ?s ?d" "same_queue ?s ?d"
      by (simp_all add: deleteAidingData_proc_def ctl_ask_def Let_def same_lock_def[of s])
    then show ?thesis
      using rest' same_lock_ok[OF _ lock] MsgDeleteAidingData by simp
  next
    case (MsgEnableGnss i g)
    then have "i \<noteq> 0" using nz(2)[of i g] by simp
    moreover have "same_queue ?s (enableGnss_proc i g ?s)"
      by (simp add: enableGnss_proc_def Let_def)
    ultimately show ?thesis
      using rest' enableGnss_lock_ok[OF lock] MsgEnableGnss by simp
  next
    case (MsgDisableGnss i)
    have "same_queue ?s (disableGnss_proc i ?s)"
      by (simp add: disableGnss_proc_def Let_def)
    then show ?thesis
      using rest' disableGnss_lock_ok[OF lock] MsgDisableGnss by simp
  qed
  then show ?thesis by (simp add: Cons)
qed (use assms in simp)

lemma ctl_run_inv: "ctl_inv s \<Longrightarrow> ctl_inv (ctl_run w es s)"
proof (induction es arbitrary: s)
  case (Cons e es)
  have "ctl_inv (ctl_step w e s)"
    using ctl_command_inv[OF Cons.prems, of e w] ctl_process_inv[OF Cons.prems, of w]
    by (cases "e = CtlProcess") auto
  then show ?case using Cons.IH by (simp add: ctl_run_def)
qed (simp add: ctl_run_def)

lemma ctl_init_inv: "ctl_inv (ctl_init cf sap)"
  by (simp add: ctl_inv_def lock_ok_def ctl_init_def)

section \<open>What the modem gets when it comes up again\<close>

lemma bit_mask_set:
  fixes m :: "'a::len word" and acc :: "'b::len word"
  assumes "k < LENGTH('a)" "k < LENGTH('b)"
  shows "bit (mask_set (2 ^ k) (2 ^ k) m acc) i \<longleftrightarrow> bit acc i \<or> (i = k \<and> bit m k)"
  using and_exp_test[OF assms(1), of m] assms(2) by (auto simp: mask_set_def bit_simps)

text \<open>The masks with four bits, in either direction.\<close>

definition mask4 :: "'a::len word \<Rightarrow> 'b::len word" where
  "mask4 m = mask_set (2 ^ 3) (2 ^ 3) m (mask_set (2 ^ 2) (2 ^ 2) m
     (mask_set (2 ^ 1) (2 ^ 1) m (mask_set (2 ^ 0) (2 ^ 0) m 0)))"

lemma bit_mask4:
  fixes m :: "'a::len word"
  assumes "4 \<le> LENGTH('a)" "4 \<le> LENGTH('b)"
  shows "bit (mask4 m :: 'b::len word) i \<longleftrightarrow> i < 4 \<and> bit m i"
proof -
  have a: "0 < LENGTH('a)" "1 < LENGTH('a)" "2 < LENGTH('a)" "3 < LENGTH('a)" using assms(1) by simp_all
  have b: "0 < LENGTH('b)" "1 < LENGTH('b)" "2 < LENGTH('b)" "3 < LENGTH('b)" using assms(2) by simp_all
  have "bit (mask4 m :: 'b word) i \<longleftrightarrow>
      (((bit (0 :: 'b word) i \<or> i = 0 \<and> bit m 0) \<or> i = 1 \<and> bit m 1) \<or> i = 2 \<and> bit m 2) \<or> i = 3 \<and> bit m 3"
    unfolding mask4_def by (simp only: bit_mask_set a b)
  moreover have "i < 4 \<longleftrightarrow> i = 0 \<or> i = 1 \<or> i = 2 \<or> i = 3" by arith
  ultimately show ?thesis by auto
qed

lemma convert_masks:
  "convertLppeCp m = mask4 m" "convertLppeCp_back x = mask4 x" "convertLppeUp m = mask4 m"
  "convertLppeUp_back x = mask4 x" "convertAGloProt m = mask4 m"
  by (simp_all add: convertLppeCp_def convertLppeCp_back_def convertLppeUp_def convertLppeUp_back_def
      convertAGloProt_def mask4_def)

lemma mask4_roundtrip: "mask4 (mask4 m :: u32) = (m AND 15 :: u16)"
proof (rule bit_eqI)
  have m15: "(15 :: u16) = mask 4" by (simp add: mask_eq_exp_minus_1)
  show "bit (mask4 (mask4 m :: u32) :: u16) i \<longleftrightarrow> bit (m AND 15 :: u16) i" for i
    unfolding m15 by (auto simp: bit_mask4 bit_simps)
qed

lemma mask4_ucast: "ucast (mask4 m :: u32) = (m AND 15 :: u16)"
proof (rule bit_eqI)
  have m15: "(15 :: u16) = mask 4" by (simp add: mask_eq_exp_minus_1)
  show "bit (ucast (mask4 m :: u32) :: u16) i \<longleftrightarrow> bit (m AND 15 :: u16) i" if "possible_bit TYPE(u16) i" for i
    unfolding m15 by (use that in \<open>auto simp: bit_mask4 bit_simps\<close>)
qed

text \<open>A field of the configuration is the work of one handler.\<close>

definition keeps :: "(gps_conf \<Rightarrow> 'f) \<Rightarrow> (u32 \<times> (control \<Rightarrow> control \<times> LocationError)) list \<Rightarrow> bool" where
  "keeps F items \<longleftrightarrow> (\<forall>(b, f) \<in> set items. \<forall>s. F (mGps_conf (fst (f s))) = F (mGps_conf s))"

lemma fold_keeps:
  "keeps F items \<Longrightarrow>
     F (mGps_conf (fst (fold (\<lambda>(b, f). update_item n fl b f) items st))) = F (mGps_conf (fst st))"
proof (induction items arbitrary: st)
  case (Cons it items)
  obtain b f s errs index where p: "it = (b, f)" "st = (s, errs, index)" by (metis prod.exhaust)
  have "F (mGps_conf (fst (update_item n fl b f st))) = F (mGps_conf (fst st))"
    using Cons.prems by (simp add: update_item_def p case_prod_beta keeps_def)
  moreover have "keeps F items" using Cons.prems by (simp add: keeps_def)
  ultimately show ?case using Cons.IH by (simp add: p)
qed simp

lemma fold_sets:
  assumes "items = xs @ (b, f) # ys" "keeps F xs" "keeps F ys" "fl AND b \<noteq> 0"
    "keeps G items" "\<And>s. P (G (mGps_conf s)) \<Longrightarrow> F (mGps_conf (fst (f s))) = v" "P (G (mGps_conf (fst st)))"
  shows "F (mGps_conf (fst (fold (\<lambda>(b, f). update_item n fl b f) items st))) = v"
proof -
  let ?st = "fold (\<lambda>(b, f). update_item n fl b f) xs st"
  have "keeps G xs" using assms(1,5) by (simp add: keeps_def)
  then have "P (G (mGps_conf (fst ?st)))" using fold_keeps[of G xs] assms(7) by simp
  then have "F (mGps_conf (fst (update_item n fl b f ?st))) = v"
    using assms(4,6) by (simp add: update_item_def case_prod_beta split: prod.splits)
  then show ?thesis
    using fold_keeps[OF assms(3)] by (simp add: assms(1))
qed

lemma conf_field [simp]: "mGps_conf (conf f s) = f (mGps_conf s)"
  by (simp add: conf_def)

lemma ctl_ask_conf [simp]: "mGps_conf (fst (ctl_ask w c s)) = mGps_conf s"
  by (simp add: ctl_ask_def)

lemma setSuplHostServer_conf [simp]: "mGps_conf (fst (setSuplHostServer w h p s)) = mGps_conf s"
  by (auto simp: setSuplHostServer_def Let_def split: prod.splits)

lemma handler_conf:
  "mGps_conf (fst (update_gpsLock w c s)) = (mGps_conf s)\<lparr>GPS_LOCK := convertGpsLock (cfg_gpsLock c)\<rparr>"
  "mGps_conf (fst (update_suplVersion w c s)) =
     (if AGPS_CONFIG_INJECT (mGps_conf s) \<noteq> 0
      then (mGps_conf s)\<lparr>SUPL_VER := convertSuplVersion (cfg_suplVersion c)\<rparr> else mGps_conf s)"
  "mGps_conf (fst (update_assistanceServer w c s)) = mGps_conf s"
  "mGps_conf (fst (update_lppProfile w c s)) =
     (if AGPS_CONFIG_INJECT (mGps_conf s) \<noteq> 0
      then (mGps_conf s)\<lparr>LPP_PROFILE := convertLppProfile (cfg_lppProfile c)\<rparr> else mGps_conf s)"
  "mGps_conf (fst (update_lppeCp w c s)) =
     (mGps_conf s)\<lparr>LPPE_CP_TECHNOLOGY := convertLppeCp (cfg_lppeControlPlaneMask c)\<rparr>"
  "mGps_conf (fst (update_lppeUp w c s)) =
     (mGps_conf s)\<lparr>LPPE_UP_TECHNOLOGY := convertLppeUp (cfg_lppeUserPlaneMask c)\<rparr>"
  "mGps_conf (fst (update_aGloProt w c s)) =
     (if AGPS_CONFIG_INJECT (mGps_conf s) \<noteq> 0
      then (mGps_conf s)\<lparr>A_GLONASS_POS_PROTOCOL_SELECT := convertAGloProt (cfg_aGlonassPositionProtocolMask c)\<rparr>
      else mGps_conf s)"
  "mGps_conf (fst (update_emergencyPdn c s)) =
     (mGps_conf s)\<lparr>USE_EMERGENCY_PDN_FOR_EMERGENCY_SUPL := convertEP4ES (cfg_emergencyPdnForEmergencySupl c)\<rparr>"
  "mGps_conf (fst (update_suplEs c s)) =
     (mGps_conf s)\<lparr>SUPL_ES := convertSuplEs (cfg_suplEmergencyServices c)\<rparr>"
  "mGps_conf (fst (update_suplMode w c s)) =
     (mGps_conf s)\<lparr>SUPL_MODE := convertSuplMode (cfg_suplModeMask c)\<rparr>"
  by (auto simp: update_defs update_gpsLock_def Let_def split: GnssAssistanceType.splits option.splits)

lemma update_keeps:
  "keeps AGPS_CONFIG_INJECT (update_items w c)"
  "keeps SUPL_VER [update_items w c ! 0]" "keeps SUPL_VER (drop 2 (update_items w c))"
  "keeps LPP_PROFILE (take 3 (update_items w c))" "keeps LPP_PROFILE (drop 4 (update_items w c))"
  "keeps LPPE_CP_TECHNOLOGY (take 4 (update_items w c))" "keeps LPPE_CP_TECHNOLOGY (drop 5 (update_items w c))"
  "keeps LPPE_UP_TECHNOLOGY (take 5 (update_items w c))" "keeps LPPE_UP_TECHNOLOGY (drop 6 (update_items w c))"
  "keeps A_GLONASS_POS_PROTOCOL_SELECT (take 6 (update_items w c))"
  "keeps A_GLONASS_POS_PROTOCOL_SELECT (drop 7 (update_items w c))"
  by (simp_all add: keeps_def update_items_def handler_conf)

lemma gnssUpdateConfig_conf:
  "mGps_conf (gnssUpdateConfig_proc w c ids s) =
     mGps_conf (fst (fold (\<lambda>(b, f). update_item (length ids) (cfg_flags c) b f) (update_items w c) (s, [], 0)))"
  by (simp add: gnssUpdateConfig_proc_def case_prod_beta)

lemma flag_test: "x AND 2 ^ k \<noteq> 0 \<longleftrightarrow> bit x k" if "k < 32" for x :: u32
  using and_bit_test[OF that, of x] by simp

lemma updated_conf:
  assumes inj: "AGPS_CONFIG_INJECT (mGps_conf s) \<noteq> 0"
    and cf_def: "cf = mGps_conf (gnssUpdateConfig_proc w c ids s)"
  shows "AGPS_CONFIG_INJECT cf = AGPS_CONFIG_INJECT (mGps_conf s)"
    "bit (cfg_flags c) 1 \<Longrightarrow> SUPL_VER cf = convertSuplVersion (cfg_suplVersion c)"
    "bit (cfg_flags c) 3 \<Longrightarrow> LPP_PROFILE cf = convertLppProfile (cfg_lppProfile c)"
    "bit (cfg_flags c) 4 \<Longrightarrow> LPPE_CP_TECHNOLOGY cf = convertLppeCp (cfg_lppeControlPlaneMask c)"
    "bit (cfg_flags c) 5 \<Longrightarrow> LPPE_UP_TECHNOLOGY cf = convertLppeUp (cfg_lppeUserPlaneMask c)"
    "bit (cfg_flags c) 6 \<Longrightarrow>
       A_GLONASS_POS_PROTOCOL_SELECT cf = convertAGloProt (cfg_aGlonassPositionProtocolMask c)"
proof -
  note sets = fold_sets[where G = AGPS_CONFIG_INJECT and P = "\<lambda>i. i \<noteq> 0" and fl = "cfg_flags c"
      and items = "update_items w c"]
  have t: "cfg_flags c AND 2 \<noteq> 0 \<longleftrightarrow> bit (cfg_flags c) 1" "cfg_flags c AND 8 \<noteq> 0 \<longleftrightarrow> bit (cfg_flags c) 3"
    "cfg_flags c AND 0x10 \<noteq> 0 \<longleftrightarrow> bit (cfg_flags c) 4" "cfg_flags c AND 0x20 \<noteq> 0 \<longleftrightarrow> bit (cfg_flags c) 5"
    "cfg_flags c AND 0x40 \<noteq> 0 \<longleftrightarrow> bit (cfg_flags c) 6"
    using flag_test[of 1 "cfg_flags c"] flag_test[of 3 "cfg_flags c"] flag_test[of 4 "cfg_flags c"]
      flag_test[of 5 "cfg_flags c"] flag_test[of 6 "cfg_flags c"] by simp_all
  show "AGPS_CONFIG_INJECT cf = AGPS_CONFIG_INJECT (mGps_conf s)"
    using fold_keeps[OF update_keeps(1)] by (simp add: cf_def gnssUpdateConfig_conf)
  show "SUPL_VER cf = convertSuplVersion (cfg_suplVersion c)" if "bit (cfg_flags c) 1"
    unfolding cf_def gnssUpdateConfig_conf
    by (rule sets[where b = "2" and f = "update_suplVersion w c" and xs = "take 1 (update_items w c)" and ys = "drop 2 (update_items w c)"])
       (use that t update_keeps[of w c] inj in \<open>simp_all add: update_items_def handler_conf\<close>)
  show "LPP_PROFILE cf = convertLppProfile (cfg_lppProfile c)" if "bit (cfg_flags c) 3"
    unfolding cf_def gnssUpdateConfig_conf
    by (rule sets[where b = "8" and f = "update_lppProfile w c" and xs = "take 3 (update_items w c)" and ys = "drop 4 (update_items w c)"])
       (use that t update_keeps[of w c] inj in \<open>simp_all add: update_items_def handler_conf\<close>)
  show "LPPE_CP_TECHNOLOGY cf = convertLppeCp (cfg_lppeControlPlaneMask c)" if "bit (cfg_flags c) 4"
    unfolding cf_def gnssUpdateConfig_conf
    by (rule sets[where b = "0x10" and f = "update_lppeCp w c" and xs = "take 4 (update_items w c)" and ys = "drop 5 (update_items w c)"])
       (use that t update_keeps[of w c] inj in \<open>simp_all add: update_items_def handler_conf\<close>)
  show "LPPE_UP_TECHNOLOGY cf = convertLppeUp (cfg_lppeUserPlaneMask c)" if "bit (cfg_flags c) 5"
    unfolding cf_def gnssUpdateConfig_conf
    by (rule sets[where b = "0x20" and f = "update_lppeUp w c" and xs = "take 5 (update_items w c)" and ys = "drop 6 (update_items w c)"])
       (use that t update_keeps[of w c] inj in \<open>simp_all add: update_items_def handler_conf\<close>)
  show "A_GLONASS_POS_PROTOCOL_SELECT cf = convertAGloProt (cfg_aGlonassPositionProtocolMask c)"
    if "bit (cfg_flags c) 6"
    unfolding cf_def gnssUpdateConfig_conf
    by (rule sets[where b = "0x40" and f = "update_aGloProt w c" and xs = "take 6 (update_items w c)" and ys = "drop 7 (update_items w c)"])
       (use that t update_keeps[of w c] inj in \<open>simp_all add: update_items_def handler_conf\<close>)
qed

lemma setSuplHostServer_log:
  "\<exists>xs. ctl_log (fst (setSuplHostServer w h p s)) = ctl_log s @ xs"
  by (auto simp: setSuplHostServer_def Let_def ctl_ask_def split: prod.splits)

lemma setConfig_log:
  "\<exists>calls. ctl_log (setConfig_proc w s) = ctl_log s @ calls \<and>
     (AGPS_CONFIG_INJECT (mGps_conf s) \<noteq> 0 \<longrightarrow>
        M_setSUPLVersion (convertSuplVersion_back (SUPL_VER (mGps_conf s))) \<in> set calls \<and>
        M_setLPPConfig (convertLppProfile_back (LPP_PROFILE (mGps_conf s))) \<in> set calls \<and>
        M_setAGLONASSProtocol (ucast (A_GLONASS_POS_PROTOCOL_SELECT (mGps_conf s))) \<in> set calls) \<and>
     M_setLPPeProtocolCp (convertLppeCp_back (LPPE_CP_TECHNOLOGY (mGps_conf s))) \<in> set calls \<and>
     M_setLPPeProtocolUp (convertLppeUp_back (LPPE_UP_TECHNOLOGY (mGps_conf s))) \<in> set calls"
proof -
  let ?s = "setConfig_inject s"
  obtain xs where
    "ctl_log (fst (setSuplHostServer w (Some (SUPL_HOST (mGps_conf s))) (SUPL_PORT (mGps_conf s)) ?s)) = ctl_log ?s @ xs"
    using setSuplHostServer_log by blast
  then show ?thesis
    by (auto simp: setConfig_proc_def setConfig_sensors_def setConfig_inject_def Let_def)
qed

section \<open>Properties\<close>

text \<open>
  C4: Whatever happens, the lock the modem was given last is none while GNSS is enabled, and the one
  of the configuration while it is not: enabling lifts it, disabling sets it, and a change of the
  configuration reaches the modem if and only if GNSS is disabled.
\<close>

theorem gps_lock_follows_vote:
  assumes "s = ctl_run w es (ctl_init cf sap)" "last_lock (ctl_log s) = Some l"
  shows "l = (if mPowerVoteId s \<noteq> 0 then GNSS_CONFIG_GPS_LOCK_NONE
              else convertGpsLock_back (GPS_LOCK (mGps_conf s)))"
proof -
  have "lock_ok s" using ctl_run_inv[OF ctl_init_inv] assms(1) by (simp add: ctl_inv_def)
  then show ?thesis using assms(2) by (simp add: lock_ok_def)
qed

definition demo_ctl_env :: control_env where
  "demo_ctl_env =
     \<lparr>ce_modem = (\<lambda>log c. if c = M_setLPPConfig GNSS_CONFIG_LPP_PROFILE_USER_PLANE
                          then LOCATION_ERROR_GENERAL_FAILURE else LOCATION_ERROR_SUCCESS),
      ce_resolve = (\<lambda>h. None), ce_debugNmea = False, ce_batching = False, ce_distanceTracking = True,
      ce_outdoorTrip = False, ce_constellation = True\<rparr>"

definition demo_gps_conf :: gps_conf where
  "demo_gps_conf =
     \<lparr>SUPL_VER = 0x10000, SUPL_MODE = 1, SUPL_ES = 0, CAPABILITIES = 7, LPP_PROFILE = 0,
      XTRA_VERSION_CHECK = 0, USE_EMERGENCY_PDN_FOR_EMERGENCY_SUPL = 1, NMEA_PROVIDER = 0, GPS_LOCK = 0,
      A_GLONASS_POS_PROTOCOL_SELECT = 0, AGPS_CONFIG_INJECT = 1, LPPE_CP_TECHNOLOGY = 0,
      LPPE_UP_TECHNOLOGY = 0, SUPL_HOST = [], SUPL_PORT = 0\<rparr>"

definition demo_sap_conf :: sap_conf where
  "demo_sap_conf =
     \<lparr>RANDOM_WALKS = replicate 5 (0, 0), SENSOR_ACCEL_BATCHES_PER_SEC = 2,
      SENSOR_ACCEL_SAMPLES_PER_BATCH = 5, SENSOR_GYRO_BATCHES_PER_SEC = 2,
      SENSOR_GYRO_SAMPLES_PER_BATCH = 5, SENSOR_ACCEL_BATCHES_PER_SEC_HIGH = 4,
      SENSOR_ACCEL_SAMPLES_PER_BATCH_HIGH = 25, SENSOR_GYRO_BATCHES_PER_SEC_HIGH = 4,
      SENSOR_GYRO_SAMPLES_PER_BATCH_HIGH = 25, SENSOR_CONTROL_MODE = 0, SENSOR_USAGE = 0,
      SENSOR_ALGORITHM_CONFIG_MASK = 0, SENSOR_PROVIDER = 1\<rparr>"

text \<open>Lock, LPP profile, two LPPe bits more than there are, and an unknown flag.\<close>

definition demo_config :: GnssConfig where
  "demo_config =
     \<lparr>cfg_flags = 0x80000019, cfg_gpsLock = GNSS_CONFIG_GPS_LOCK_NI,
      cfg_suplVersion = GNSS_CONFIG_SUPL_VERSION_1_0_0,
      cfg_assistanceServer = \<lparr>as_type = GNSS_ASSISTANCE_TYPE_SUPL, as_hostName = None, as_port = 0\<rparr>,
      cfg_lppProfile = GNSS_CONFIG_LPP_PROFILE_USER_PLANE, cfg_lppeControlPlaneMask = 0x35,
      cfg_lppeUserPlaneMask = 0, cfg_aGlonassPositionProtocolMask = 0,
      cfg_emergencyPdnForEmergencySupl = False, cfg_suplEmergencyServices = False, cfg_suplModeMask = 0\<rparr>"

lemmas demo_ctl_defs =
  ctl_run_def ctl_init_def demo_ctl_env_def demo_gps_conf_def demo_sap_conf_def demo_config_def
  gnssUpdateConfigCommand_def newSessionId_def ctl_send_def enableCommand_def disableCommand_def
  enableGnss_proc_def disableGnss_proc_def ctl_respond_def ctl_call_def ctl_ask_def
  gnssUpdateConfig_proc_def update_items_def update_item_def update_defs update_gpsLock_def conf_def
  convertLppeCp_def mask_set_def convertGpsLock_back_def Let_def

theorem gps_lock_follows_vote_witness:
  "last_lock (ctl_log (ctl_run demo_ctl_env [CtlEnable True, CtlProcess] (ctl_init demo_gps_conf demo_sap_conf)))
     = Some GNSS_CONFIG_GPS_LOCK_NONE"
proof -
  let ?s = "ctl_run demo_ctl_env [CtlEnable True, CtlProcess] (ctl_init demo_gps_conf demo_sap_conf)"
  obtain l where l: "last_lock (ctl_log ?s) = Some l" and v: "mPowerVoteId ?s = 1"
    by (simp add: demo_ctl_defs)
  show ?thesis using gps_lock_follows_vote[OF refl l] l v by simp
qed

text \<open>
  C12: The message of a configuration update runs the handlers of the known flags that are set, in the
  order of the flags, and answers each of them once, with the ids in the order they were handed out;
  there is one id for every flag that is set, known or not.
\<close>

theorem config_update_answers:
  assumes "gnssUpdateConfigCommand c s = (ids, s1)"
  shows "length ids = card {i. i < 32 \<and> bit (cfg_flags c) i} \<and>
     length (set_items w c) = card {i. i < 10 \<and> bit (cfg_flags c) i} \<and>
     gnssUpdateConfig_proc w c ids s' =
       (let (s2, errs) = answer_all (set_items w c) s'
        in if ctl_collectiveResponseCb s2
           then ctl_call (K_collectiveResponse errs (take (length errs) ids)) s2 else s2)"
  using gnssUpdateConfigCommand_sent(1)[OF assms] gnssUpdateConfig_answers[of ids c w s']
  by (simp add: set_items_length count_bits_card)

lemma demo_count: "count_bits 0x80000019 = 4"
  by code_simp

lemma demo_new_ids: "fst (newSessionIds 4 (ctl_init demo_gps_conf demo_sap_conf)) = [1, 2, 3, 4]"
proof -
  have "4 = Suc (Suc (Suc (Suc 0)))" by simp
  then show ?thesis by (simp only:) (simp add: newSessionId_def ctl_init_def Let_def)
qed

lemma demo_ids:
  "fst (gnssUpdateConfigCommand demo_config (ctl_init demo_gps_conf demo_sap_conf)) = [1, 2, 3, 4]"
proof -
  have "cfg_flags demo_config = 0x80000019" by (simp add: demo_config_def)
  then show ?thesis
    using demo_new_ids by (simp add: gnssUpdateConfigCommand_def demo_count case_prod_beta)
qed

theorem config_update_answers_witness:
  "ctl_log (gnssUpdateConfig_proc demo_ctl_env demo_config [1, 2, 3, 4]
      ((ctl_init demo_gps_conf demo_sap_conf)\<lparr>ctl_collectiveResponseCb := True\<rparr>)) =
   [M_setGpsLock GNSS_CONFIG_GPS_LOCK_NI, M_setLPPConfig GNSS_CONFIG_LPP_PROFILE_USER_PLANE,
    M_setLPPeProtocolCp 0x35,
    K_collectiveResponse [LOCATION_ERROR_SUCCESS, LOCATION_ERROR_GENERAL_FAILURE, LOCATION_ERROR_SUCCESS]
      [1, 2, 3]]"
proof -
  obtain s1 where s1: "gnssUpdateConfigCommand demo_config (ctl_init demo_gps_conf demo_sap_conf) = ([1, 2, 3, 4], s1)"
    using demo_ids by (metis prod.collapse)
  show ?thesis
    unfolding config_update_answers[OF s1, THEN conjunct2, THEN conjunct2]
    by (simp add: set_items_def demo_ctl_defs)
qed



text \<open>
  The capabilities for assisted modes that are announced are those that the configuration file and
  the carrier's SUPL mode both allow.
\<close>

theorem assisted_capabilities:
  "(bit (getCapabilities w cf) 6 \<longleftrightarrow> bit (CAPABILITIES cf) 1 \<and> bit (SUPL_MODE cf) 0) \<and>
   (bit (getCapabilities w cf) 7 \<longleftrightarrow> bit (CAPABILITIES cf) 2 \<and> bit (SUPL_MODE cf) 1)"
proof -
  have one: "x AND 2 ^ k \<noteq> 2 ^ k \<longleftrightarrow> \<not> bit x k" if "k < 32" for x :: u32 and k
  proof -
    have "bit (x AND 2 ^ k) i \<longleftrightarrow> i = k \<and> bit x k" for i using that by (auto simp: bit_simps)
    then show ?thesis using that by (auto simp: bit_eq_iff bit_simps)
  qed
  have m: "SUPL_MODE cf AND 1 \<noteq> 1 \<longleftrightarrow> \<not> bit (SUPL_MODE cf) 0" "SUPL_MODE cf AND 2 \<noteq> 2 \<longleftrightarrow> \<not> bit (SUPL_MODE cf) 1"
    using one[of 0 "SUPL_MODE cf"] one[of 1 "SUPL_MODE cf"] by simp_all
  have c: "getCarrierCapabilities cf AND 2 \<noteq> 0 \<longleftrightarrow> bit (getCarrierCapabilities cf) 1"
    "getCarrierCapabilities cf AND 4 \<noteq> 0 \<longleftrightarrow> bit (getCarrierCapabilities cf) 2"
    using flag_test[of 1 "getCarrierCapabilities cf"] flag_test[of 2 "getCarrierCapabilities cf"] by simp_all
  have carrier: "bit (getCarrierCapabilities cf) 1 \<longleftrightarrow> bit (CAPABILITIES cf) 1 \<and> bit (SUPL_MODE cf) 0"
    "bit (getCarrierCapabilities cf) 2 \<longleftrightarrow> bit (CAPABILITIES cf) 2 \<and> bit (SUPL_MODE cf) 1"
    unfolding getCarrierCapabilities_def Let_def m by (simp_all add: bit_simps)
  show ?thesis
    unfolding getCapabilities_def Let_def c carrier flag_def by (simp add: bit_simps)
qed

text \<open>
  Setting a SUPL server a second time is answered as an invalid parameter, although the first time
  it may have succeeded.
\<close>

theorem supl_server_twice_refused:
  assumes "AGPS_CONFIG_INJECT (mGps_conf s) \<noteq> 0"
  shows "snd (setSuplHostServer w h p (fst (setSuplHostServer w h p s))) = LOCATION_ERROR_INVALID_PARAMETER"
  using assms by (auto simp: setSuplHostServer_def Let_def ctl_ask_def same_ignoring_case_def split: prod.splits)

theorem supl_server_twice_refused_witness:
  "snd (setSuplHostServer demo_ctl_env (Some [97]) 7275 (ctl_init demo_gps_conf demo_sap_conf)) = LOCATION_ERROR_SUCCESS \<and>
   snd (setSuplHostServer demo_ctl_env (Some [97]) 7275
     (fst (setSuplHostServer demo_ctl_env (Some [97]) 7275 (ctl_init demo_gps_conf demo_sap_conf))))
     = LOCATION_ERROR_INVALID_PARAMETER"
proof
  show "snd (setSuplHostServer demo_ctl_env (Some [97]) 7275 (ctl_init demo_gps_conf demo_sap_conf)) = LOCATION_ERROR_SUCCESS"
    by (simp add: setSuplHostServer_def demo_ctl_defs same_ignoring_case_def noHost_def decimal.simps
        MAX_URL_LEN_def to_lower_def)
qed (rule supl_server_twice_refused, simp add: ctl_init_def demo_gps_conf_def)

text \<open>
  A host name that does not fit the buffer of 256 bytes is cut, but the modem interface is given the
  length before the cut: it reads beyond the string.
\<close>

theorem supl_server_length_overrun:
  assumes "AGPS_CONFIG_INJECT (mGps_conf s) \<noteq> 0" "255 \<le> length h" "0 < sint p"
    and "length (mServerUrl s) < 255"
  shows "\<exists>url len. ctl_log (fst (setSuplHostServer w (Some h) p s)) = ctl_log s @ [M_setServer url len] \<and>
           length url = 255 \<and> 256 < len"
proof -
  let ?full = "h @ 58 # decimal (unat p)"
  have "decimal n \<noteq> []" for n by (subst decimal.simps) simp
  then have l: "256 < length ?full" using assms(2) by (cases "decimal (unat p)") auto
  have none: "h \<noteq> []" "\<not> same_ignoring_case noHost h"
    using assms(2) by (auto simp: same_ignoring_case_def noHost_def dest!: arg_cong[of _ _ length])
  have new: "\<not> same_ignoring_case (mServerUrl s) (take 255 ?full)"
    using assms(4) l by (auto simp: same_ignoring_case_def dest!: arg_cong[of _ _ length])
  show ?thesis
    using assms(1,3) none new l
    by (simp add: setSuplHostServer_def Let_def ctl_ask_def MAX_URL_LEN_def)
qed

theorem supl_server_length_overrun_witness:
  "\<exists>url len. ctl_log (fst (setSuplHostServer demo_ctl_env (Some (replicate 255 97)) 7275
      (ctl_init demo_gps_conf demo_sap_conf))) = [M_setServer url len] \<and> length url = 255 \<and> 256 < len"
  using supl_server_length_overrun[of "ctl_init demo_gps_conf demo_sap_conf" "replicate 255 97" 7275 demo_ctl_env]
  by (simp add: ctl_init_def demo_gps_conf_def)

text \<open>
  Disabling with an id that is not the one of the enable is refused, but the power vote is withdrawn
  all the same: GNSS stays enabled without a vote for the modem's power.
\<close>

theorem power_vote_withdrawn:
  assumes "i \<noteq> 1"
  shows "let s = ctl_run w [CtlSetCallbacks True True, CtlProcess, CtlEnable True, CtlProcess, CtlDisable i,
              CtlProcess] (ctl_init cf sap)
    in mPowerVoteId s = 1 \<and>
       ctl_log s =
         [P_modemPowerVote True, M_setGpsLock GNSS_CONFIG_GPS_LOCK_NONE, X_updateLockStatus 0,
          K_response LOCATION_ERROR_SUCCESS 1, P_modemPowerVote False,
          K_response LOCATION_ERROR_ID_UNKNOWN i]"
  using assms by (simp add: demo_ctl_defs)

theorem power_vote_withdrawn_witness:
  "let s = ctl_run demo_ctl_env [CtlSetCallbacks True True, CtlProcess, CtlEnable True, CtlProcess,
        CtlDisable 77, CtlProcess] (ctl_init demo_gps_conf demo_sap_conf)
   in mPowerVoteId s = 1 \<and> last (ctl_log s) = K_response LOCATION_ERROR_ID_UNKNOWN 77 \<and>
      P_modemPowerVote False \<in> set (ctl_log s)"
  using power_vote_withdrawn[of 77 demo_ctl_env demo_gps_conf demo_sap_conf] by (simp add: Let_def)

end
