(* ===== verification/Gnss_Reports.thy ===== *)
theory Gnss_Reports
  imports Gnss_Tracking
begin

unbundle bit_operations_syntax

text \<open>
  What the modem reports and \<open>gps/gnss/GnssAdapter.cpp\<close> passes on to its clients: positions, satellites,
  NMEA sentences and measurements. A report is first offered to the ULP proxy; if that does not take
  it, a message is queued, and the adapter's thread converts it and calls every client that has the
  callback, in the order of the clients' addresses.

  Floating-point fields are bit patterns. What generates the NMEA sentences, compares an accuracy with
  the threshold and consumes debug sentences is an argument, and so is the clock.
\<close>

section \<open>Data\<close>

record report_callbacks = LocationCallbacks +
  cb_gnssLocationInfo :: bool

datatype loc_sess_status = LOC_SESS_SUCCESS | LOC_SESS_INTERMEDIATE | LOC_SESS_FAILURE

datatype LocReliability =
    LOC_RELIABILITY_NOT_SET
  | LOC_RELIABILITY_VERY_LOW
  | LOC_RELIABILITY_LOW
  | LOC_RELIABILITY_MEDIUM
  | LOC_RELIABILITY_HIGH

datatype LocationReliability =
    LOCATION_RELIABILITY_NOT_SET
  | LOCATION_RELIABILITY_VERY_LOW
  | LOCATION_RELIABILITY_LOW
  | LOCATION_RELIABILITY_MEDIUM
  | LOCATION_RELIABILITY_HIGH

record UlpLocation =
  gl_flags :: u16
  gl_latitude :: u64
  gl_longitude :: u64
  gl_altitude :: u64
  gl_speed :: u32
  gl_bearing :: u32
  gl_accuracy :: u32
  gl_timestamp :: u64
  ul_rawData :: ptr

record GnssSvUsedInPosition =
  gps_sv_used_ids_mask :: u64
  glo_sv_used_ids_mask :: u64
  gal_sv_used_ids_mask :: u64
  bds_sv_used_ids_mask :: u64
  qzss_sv_used_ids_mask :: u64

record GpsLocationExtended =
  le_flags :: u32
  le_altitudeMeanSeaLevel :: u32
  le_pdop :: u32
  le_hdop :: u32
  le_vdop :: u32
  le_magneticDeviation :: u32
  le_vert_unc :: u32
  le_speed_unc :: u32
  le_bearing_unc :: u32
  le_horizontal_reliability :: LocReliability
  le_vertical_reliability :: LocReliability
  le_horUncEllipseSemiMajor :: u32
  le_horUncEllipseSemiMinor :: u32
  le_horUncEllipseOrientAzimuth :: u32
  le_gnss_sv_used_ids :: GnssSvUsedInPosition
  le_navSolutionMask :: u32
  le_tech_mask :: u32

record Location =
  lc_flags :: u16
  lc_timestamp :: u64
  lc_latitude :: u64
  lc_longitude :: u64
  lc_altitude :: u64
  lc_speed :: u32
  lc_bearing :: u32
  lc_accuracy :: u32
  lc_verticalAccuracy :: u32
  lc_speedAccuracy :: u32
  lc_bearingAccuracy :: u32
  lc_techMask :: u16

record GnssLocationInfoNotification =
  li_flags :: u32
  li_altitudeMeanSeaLevel :: u32
  li_pdop :: u32
  li_hdop :: u32
  li_vdop :: u32
  li_magneticDeviation :: u32
  li_horReliability :: LocationReliability
  li_verReliability :: LocationReliability
  li_horUncEllipseSemiMajor :: u32
  li_horUncEllipseSemiMinor :: u32
  li_horUncEllipseOrientAzimuth :: u32

datatype GnssSvType =
    GNSS_SV_TYPE_UNKNOWN
  | GNSS_SV_TYPE_GPS
  | GNSS_SV_TYPE_SBAS
  | GNSS_SV_TYPE_GLONASS
  | GNSS_SV_TYPE_QZSS
  | GNSS_SV_TYPE_BEIDOU
  | GNSS_SV_TYPE_GALILEO

record GnssSv =
  svId :: u16
  sv_type :: GnssSvType
  cN0Dbhz :: u32
  elevation :: u32
  azimuth :: u32
  gnssSvOptionsMask :: u16

definition GNSS_SV_OPTIONS_USED_IN_FIX_BIT :: u16 where
  "GNSS_SV_OPTIONS_USED_IN_FIX_BIT = 4"

definition QZSS_SV_PRN_MIN :: u16 where
  "QZSS_SV_PRN_MIN = 193"

type_synonym nmea = "u8 list"
type_synonym measurements = "u8 list"

datatype report_msg =
    MsgReportPosition UlpLocation GpsLocationExtended loc_sess_status u32
  | MsgReportSv "GnssSv list"
  | MsgReportNmea nmea
  | MsgReportGnssMeasurementData measurements

datatype report_call =
    R_tracking ptr Location
  | R_locationInfo ptr GnssLocationInfoNotification
  | R_sv ptr "GnssSv list"
  | R_nmea ptr int nmea
  | R_measurements ptr measurements
  | S_eventPosition UlpLocation GpsLocationExtended
  | S_setNmeaString nmea
  | D_rawData ptr

record reports =
  rp_clients :: "(ptr, report_callbacks) std_map"
  rp_tracking :: bool
  mGnssSvIdUsedInPosition :: GnssSvUsedInPosition
  mGnssSvIdUsedInPosAvail :: bool
  rp_queue :: "report_msg list"
  rp_log :: "report_call list"

record report_env =
  re_intermediate_pos :: u32
  re_accuracy_thres :: u32
  re_nmea_provider :: u32
  re_accuracy_exceeds :: "u32 \<Rightarrow> u32 \<Rightarrow> bool"
  re_is_zero :: "u64 \<Rightarrow> bool"
  re_generate_pos :: "UlpLocation \<Rightarrow> GpsLocationExtended \<Rightarrow> bool \<Rightarrow> nmea list"
  re_generate_sv :: "GnssSv list \<Rightarrow> nmea list"
  re_debug_taken :: "nmea \<Rightarrow> bool"
  re_clock :: "report_call list \<Rightarrow> int"
  re_shift :: "int \<Rightarrow> u32"

section \<open>Conversions\<close>

definition Location_zero :: Location where
  "Location_zero =
     \<lparr>lc_flags = 0, lc_timestamp = 0, lc_latitude = 0, lc_longitude = 0, lc_altitude = 0, lc_speed = 0,
      lc_bearing = 0, lc_accuracy = 0, lc_verticalAccuracy = 0, lc_speedAccuracy = 0,
      lc_bearingAccuracy = 0, lc_techMask = 0\<rparr>"

text \<open>\<open>if (bits & flags) { out.flags |= ...; set }\<close>\<close>

definition loc_field :: "bool \<Rightarrow> u16 \<Rightarrow> (Location \<Rightarrow> Location) \<Rightarrow> Location \<Rightarrow> Location" where
  "loc_field b out set_field l = (if b then set_field (l\<lparr>lc_flags := lc_flags l OR out\<rparr>) else l)"

definition tech_field :: "u32 \<Rightarrow> u32 \<Rightarrow> u16 \<Rightarrow> Location \<Rightarrow> Location" where
  "tech_field techMask b out l = (if b AND techMask \<noteq> 0 then l\<lparr>lc_techMask := lc_techMask l OR out\<rparr> else l)"

definition convertLocation :: "UlpLocation \<Rightarrow> GpsLocationExtended \<Rightarrow> u32 \<Rightarrow> Location" where
  "convertLocation g e techMask =
     (let l1 = loc_field (0x01 AND gl_flags g \<noteq> 0) 0x01
                 (\<lambda>l. l\<lparr>lc_latitude := gl_latitude g, lc_longitude := gl_longitude g\<rparr>) Location_zero;
          l2 = loc_field (0x02 AND gl_flags g \<noteq> 0) 0x02 (\<lambda>l. l\<lparr>lc_altitude := gl_altitude g\<rparr>) l1;
          l3 = loc_field (0x04 AND gl_flags g \<noteq> 0) 0x04 (\<lambda>l. l\<lparr>lc_speed := gl_speed g\<rparr>) l2;
          l4 = loc_field (0x08 AND gl_flags g \<noteq> 0) 0x08 (\<lambda>l. l\<lparr>lc_bearing := gl_bearing g\<rparr>) l3;
          l5 = loc_field (0x10 AND gl_flags g \<noteq> 0) 0x10 (\<lambda>l. l\<lparr>lc_accuracy := gl_accuracy g\<rparr>) l4;
          l6 = loc_field (0x10 AND le_flags e \<noteq> 0) 0x20
                 (\<lambda>l. l\<lparr>lc_verticalAccuracy := le_vert_unc e\<rparr>) l5;
          l7 = loc_field (0x20 AND le_flags e \<noteq> 0) 0x40
                 (\<lambda>l. l\<lparr>lc_speedAccuracy := le_speed_unc e\<rparr>) l6;
          l8 = loc_field (0x40 AND le_flags e \<noteq> 0) 0x80
                 (\<lambda>l. l\<lparr>lc_bearingAccuracy := le_bearing_unc e\<rparr>) l7;
          l9 = l8\<lparr>lc_timestamp := gl_timestamp g\<rparr>
      in tech_field techMask 8 8 (tech_field techMask 4 4 (tech_field techMask 2 2
           (tech_field techMask 1 1 l9))))"

fun convertReliability :: "LocReliability \<Rightarrow> LocationReliability" where
  "convertReliability LOC_RELIABILITY_VERY_LOW = LOCATION_RELIABILITY_VERY_LOW"
| "convertReliability LOC_RELIABILITY_LOW = LOCATION_RELIABILITY_LOW"
| "convertReliability LOC_RELIABILITY_MEDIUM = LOCATION_RELIABILITY_MEDIUM"
| "convertReliability LOC_RELIABILITY_HIGH = LOCATION_RELIABILITY_HIGH"
| "convertReliability LOC_RELIABILITY_NOT_SET = LOCATION_RELIABILITY_NOT_SET"

definition LocationInfo_zero :: GnssLocationInfoNotification where
  "LocationInfo_zero =
     \<lparr>li_flags = 0, li_altitudeMeanSeaLevel = 0, li_pdop = 0, li_hdop = 0, li_vdop = 0,
      li_magneticDeviation = 0, li_horReliability = LOCATION_RELIABILITY_NOT_SET,
      li_verReliability = LOCATION_RELIABILITY_NOT_SET, li_horUncEllipseSemiMajor = 0,
      li_horUncEllipseSemiMinor = 0, li_horUncEllipseOrientAzimuth = 0\<rparr>"

definition info_field ::
  "GpsLocationExtended \<Rightarrow> u32 \<Rightarrow> u32 \<Rightarrow> (GnssLocationInfoNotification \<Rightarrow> GnssLocationInfoNotification)
     \<Rightarrow> GnssLocationInfoNotification \<Rightarrow> GnssLocationInfoNotification" where
  "info_field e b out set_field l =
     (if b AND le_flags e \<noteq> 0 then set_field (l\<lparr>li_flags := li_flags l OR out\<rparr>) else l)"

definition convertLocationInfo :: "GpsLocationExtended \<Rightarrow> GnssLocationInfoNotification" where
  "convertLocationInfo e =
     (let l1 = info_field e 0x0002 0x01
                 (\<lambda>l. l\<lparr>li_altitudeMeanSeaLevel := le_altitudeMeanSeaLevel e\<rparr>) LocationInfo_zero;
          l2 = info_field e 0x0001 0x02
                 (\<lambda>l. l\<lparr>li_pdop := le_pdop e, li_hdop := le_hdop e, li_vdop := le_vdop e\<rparr>) l1;
          l3 = info_field e 0x0004 0x04 (\<lambda>l. l\<lparr>li_magneticDeviation := le_magneticDeviation e\<rparr>) l2;
          l4 = info_field e 0x0080 0x08
                 (\<lambda>l. l\<lparr>li_horReliability := convertReliability (le_horizontal_reliability e)\<rparr>) l3;
          l5 = info_field e 0x0100 0x10
                 (\<lambda>l. l\<lparr>li_verReliability := convertReliability (le_vertical_reliability e)\<rparr>) l4;
          l6 = info_field e 0x0200 0x20
                 (\<lambda>l. l\<lparr>li_horUncEllipseSemiMajor := le_horUncEllipseSemiMajor e\<rparr>) l5;
          l7 = info_field e 0x0400 0x40
                 (\<lambda>l. l\<lparr>li_horUncEllipseSemiMinor := le_horUncEllipseSemiMinor e\<rparr>) l6
      in info_field e 0x0800 0x80
           (\<lambda>l. l\<lparr>li_horUncEllipseOrientAzimuth := le_horUncEllipseOrientAzimuth e\<rparr>) l7)"

section \<open>Positions\<close>

definition rp_call :: "report_call list \<Rightarrow> reports \<Rightarrow> reports" where
  "rp_call cs s = s\<lparr>rp_log := rp_log s @ cs\<rparr>"

text \<open>A sentence goes to every client with the callback; the clock is read once per sentence.\<close>

definition reportNmea :: "report_env \<Rightarrow> nmea \<Rightarrow> reports \<Rightarrow> reports" where
  "reportNmea w n s =
     rp_call (map (\<lambda>e. R_nmea (fst e) (re_clock w (rp_log s)) n)
                (filter (\<lambda>e. cb_gnssNmea (snd e)) (rp_clients s))) s"

definition reportNmeas :: "report_env \<Rightarrow> nmea list \<Rightarrow> reports \<Rightarrow> reports" where
  "reportNmeas w ns s =
     (if re_nmea_provider w = 0 \<and> rp_tracking s then fold (reportNmea w) ns s else s)"

definition needReport :: "report_env \<Rightarrow> UlpLocation \<Rightarrow> loc_sess_status \<Rightarrow> u32 \<Rightarrow> bool" where
  "needReport w g status techMask =
     (case status of
        LOC_SESS_SUCCESS \<Rightarrow> 0x89 AND techMask \<noteq> 0
      | LOC_SESS_INTERMEDIATE \<Rightarrow>
          re_intermediate_pos w = 1 \<and>
          \<not> (gl_flags g AND 0x10 \<noteq> 0 \<and> re_accuracy_thres w \<noteq> 0 \<and>
             re_accuracy_exceeds w (gl_accuracy g) (re_accuracy_thres w))
      | LOC_SESS_FAILURE \<Rightarrow> False)"

definition position_calls ::
  "UlpLocation \<Rightarrow> GpsLocationExtended \<Rightarrow> u32 \<Rightarrow> ptr \<times> report_callbacks \<Rightarrow> report_call list" where
  "position_calls g e techMask c =
     (if cb_tracking (snd c) then [R_tracking (fst c) (convertLocation g e techMask)] else []) @
     (if cb_gnssLocationInfo (snd c) then [R_locationInfo (fst c) (convertLocationInfo e)] else [])"

definition reportPosition ::
  "report_env \<Rightarrow> UlpLocation \<Rightarrow> GpsLocationExtended \<Rightarrow> loc_sess_status \<Rightarrow> u32 \<Rightarrow> reports \<Rightarrow> reports"
where
  "reportPosition w g e status techMask s =
     (let reported = needReport w g status techMask;
          s1 = (if reported \<and> 0x1000 AND le_flags e \<noteq> 0
                then s\<lparr>mGnssSvIdUsedInPosAvail := True, mGnssSvIdUsedInPosition := le_gnss_sv_used_ids e\<rparr>
                else s);
          s2 = (if reported then rp_call (concat (map (position_calls g e techMask) (rp_clients s1))) s1
                else s1);
          blank = (re_is_zero w (gl_latitude g) \<and> re_is_zero w (gl_longitude g) \<and>
                   le_horizontal_reliability e = LOC_RELIABILITY_NOT_SET);
          generate = (reported \<and> status \<noteq> LOC_SESS_FAILURE \<and> \<not> blank);
          s3 = reportNmeas w (re_generate_pos w g e generate) s2
      in if ul_rawData g \<noteq> NULL then rp_call [D_rawData (ul_rawData g)] s3 else s3)"

section \<open>Satellites\<close>

text \<open>
  \<open>1 << (id - 1)\<close> on 32-bit integers, then converted to 64 bits with its sign. Beyond 31 the shift has
  no defined result and the machine's is an argument; shifting into the sign gives \<open>- 2 ^ 31\<close>.
\<close>

definition sv_bit :: "report_env \<Rightarrow> int \<Rightarrow> u64" where
  "sv_bit w n = scast (if 0 \<le> n \<and> n < 32 then push_bit (nat n) 1 else re_shift w n :: u32)"

fun sv_used_mask :: "GnssSvUsedInPosition \<Rightarrow> GnssSvType \<Rightarrow> u64" where
  "sv_used_mask u GNSS_SV_TYPE_GPS = gps_sv_used_ids_mask u"
| "sv_used_mask u GNSS_SV_TYPE_GLONASS = glo_sv_used_ids_mask u"
| "sv_used_mask u GNSS_SV_TYPE_BEIDOU = bds_sv_used_ids_mask u"
| "sv_used_mask u GNSS_SV_TYPE_GALILEO = gal_sv_used_ids_mask u"
| "sv_used_mask u GNSS_SV_TYPE_QZSS = qzss_sv_used_ids_mask u"
| "sv_used_mask u _ = 0"

definition reportSv_one :: "report_env \<Rightarrow> bool \<Rightarrow> GnssSvUsedInPosition \<Rightarrow> GnssSv \<Rightarrow> GnssSv" where
  "reportSv_one w avail used v =
     (let gnssSvId = sint (svId v);
          m = (if avail then sv_used_mask used (sv_type v) else 0);
          v1 = (if sv_type v = GNSS_SV_TYPE_QZSS then v\<lparr>svId := svId v + (QZSS_SV_PRN_MIN - 1)\<rparr> else v)
      in if m AND sv_bit w (gnssSvId - 1) \<noteq> 0
         then v1\<lparr>gnssSvOptionsMask := gnssSvOptionsMask v1 OR GNSS_SV_OPTIONS_USED_IN_FIX_BIT\<rparr>
         else v1)"

definition reportSv :: "report_env \<Rightarrow> GnssSv list \<Rightarrow> reports \<Rightarrow> reports" where
  "reportSv w svs s =
     (let svs' = map (reportSv_one w (mGnssSvIdUsedInPosAvail s) (mGnssSvIdUsedInPosition s)) svs;
          s1 = rp_call (map (\<lambda>e. R_sv (fst e) svs') (filter (\<lambda>e. cb_gnssSv (snd e)) (rp_clients s))) s;
          s2 = reportNmeas w (re_generate_sv w svs') s1
      in s2\<lparr>mGnssSvIdUsedInPosAvail := False\<rparr>)"

section \<open>Measurements, messages and events\<close>

definition reportGnssMeasurementData :: "measurements \<Rightarrow> reports \<Rightarrow> reports" where
  "reportGnssMeasurementData m s =
     rp_call (map (\<lambda>e. R_measurements (fst e) m)
                (filter (\<lambda>e. cb_gnssMeasurements (snd e)) (rp_clients s))) s"

fun report_proc :: "report_env \<Rightarrow> report_msg \<Rightarrow> reports \<Rightarrow> reports" where
  "report_proc w (MsgReportPosition g e status techMask) s =
     (let s1 = (if status = LOC_SESS_SUCCESS \<or> status = LOC_SESS_INTERMEDIATE
                then rp_call [S_eventPosition g e] s else s)
      in reportPosition w g e status techMask s1)"
| "report_proc w (MsgReportSv svs) s = reportSv w svs s"
| "report_proc w (MsgReportNmea n) s =
     (let s1 = rp_call [S_setNmeaString n] s
      in if re_debug_taken w n then s1 else reportNmea w n s1)"
| "report_proc w (MsgReportGnssMeasurementData m) s = reportGnssMeasurementData m s"

definition nmea_event_is_debug :: "nmea \<Rightarrow> bool" where
  "nmea_event_is_debug n \<longleftrightarrow>
     6 \<le> length n \<and> length n \<le> 4096 \<and> take 4 n = [36, 80, 81, 87]"

text \<open>
  A report arrives: \<open>taken\<close> is the answer of the ULP proxy, which is not asked for what it sent itself
  nor for debug sentences.
\<close>

definition rp_send :: "report_msg \<Rightarrow> reports \<Rightarrow> reports" where
  "rp_send m s = s\<lparr>rp_queue := rp_queue s @ [m]\<rparr>"

datatype report_event =
    RpPosition UlpLocation GpsLocationExtended loc_sess_status u32 bool bool
  | RpSv "GnssSv list" bool bool
  | RpNmea nmea bool bool
  | RpMeasurements measurements
  | RpClients "(ptr, report_callbacks) std_map" bool
  | RpProcess

fun report_step :: "report_env \<Rightarrow> report_event \<Rightarrow> reports \<Rightarrow> reports" where
  "report_step w (RpPosition g e status techMask fromUlp taken) s =
     (if \<not> fromUlp \<and> taken then s else rp_send (MsgReportPosition g e status techMask) s)"
| "report_step w (RpSv svs fromUlp taken) s =
     (if \<not> fromUlp \<and> taken then s else rp_send (MsgReportSv svs) s)"
| "report_step w (RpNmea n fromUlp taken) s =
     (if \<not> fromUlp \<and> \<not> nmea_event_is_debug n \<and> taken then s else rp_send (MsgReportNmea n) s)"
| "report_step w (RpMeasurements m) s = rp_send (MsgReportGnssMeasurementData m) s"
| "report_step w (RpClients m tracking) s = s\<lparr>rp_clients := m, rp_tracking := tracking\<rparr>"
| "report_step w RpProcess s =
     (case rp_queue s of m # ms \<Rightarrow> report_proc w m (s\<lparr>rp_queue := ms\<rparr>) | [] \<Rightarrow> s)"

definition report_run :: "report_env \<Rightarrow> report_event list \<Rightarrow> reports \<Rightarrow> reports" where
  "report_run w es s = fold (report_step w) es s"

definition no_svs :: GnssSvUsedInPosition where
  "no_svs =
     \<lparr>gps_sv_used_ids_mask = 0, glo_sv_used_ids_mask = 0, gal_sv_used_ids_mask = 0,
      bds_sv_used_ids_mask = 0, qzss_sv_used_ids_mask = 0\<rparr>"

definition report_init :: reports where
  "report_init =
     \<lparr>rp_clients = [], rp_tracking = False, mGnssSvIdUsedInPosition = no_svs,
      mGnssSvIdUsedInPosAvail = False, rp_queue = [], rp_log = []\<rparr>"

end
