(* ===== verification/Report_Proofs.thy ===== *)
theory Report_Proofs
  imports Gnss_Reports
begin

unbundle bit_operations_syntax

text \<open>
  What holds of the reports: a location says of each field whether it is valid, and holds nothing in
  those that are not; satellites used in the last fix are flagged if their id is below 32, and what
  happens with the others; every client with a callback gets each report once.
\<close>

section \<open>Locations\<close>

lemma flag_tests16:
  fixes x :: u16
  shows "0x01 AND x \<noteq> 0 \<longleftrightarrow> bit x 0" "0x02 AND x \<noteq> 0 \<longleftrightarrow> bit x 1" "0x04 AND x \<noteq> 0 \<longleftrightarrow> bit x 2"
    "0x08 AND x \<noteq> 0 \<longleftrightarrow> bit x 3" "0x10 AND x \<noteq> 0 \<longleftrightarrow> bit x 4"
  using and_exp_test[of 0 x] and_exp_test[of 1 x] and_exp_test[of 2 x] and_exp_test[of 3 x]
    and_exp_test[of 4 x] by simp_all

lemma flag_tests32:
  fixes x :: u32
  shows "0x01 AND x \<noteq> 0 \<longleftrightarrow> bit x 0" "0x02 AND x \<noteq> 0 \<longleftrightarrow> bit x 1" "0x04 AND x \<noteq> 0 \<longleftrightarrow> bit x 2"
    "0x08 AND x \<noteq> 0 \<longleftrightarrow> bit x 3"
    "0x10 AND x \<noteq> 0 \<longleftrightarrow> bit x 4" "0x20 AND x \<noteq> 0 \<longleftrightarrow> bit x 5" "0x40 AND x \<noteq> 0 \<longleftrightarrow> bit x 6"
  using and_exp_test[of 0 x] and_exp_test[of 1 x] and_exp_test[of 2 x] and_exp_test[of 3 x]
    and_exp_test[of 4 x] and_exp_test[of 5 x] and_exp_test[of 6 x] by simp_all

lemma loc_field_flags:
  "lc_flags (loc_field b out f l) = (if b then lc_flags (f (l\<lparr>lc_flags := lc_flags l OR out\<rparr>)) else lc_flags l)"
  by (simp add: loc_field_def)

lemma tech_field_fields [simp]:
  "lc_flags (tech_field t b out l) = lc_flags l" "lc_latitude (tech_field t b out l) = lc_latitude l"
  "lc_longitude (tech_field t b out l) = lc_longitude l" "lc_altitude (tech_field t b out l) = lc_altitude l"
  "lc_speed (tech_field t b out l) = lc_speed l" "lc_bearing (tech_field t b out l) = lc_bearing l"
  "lc_accuracy (tech_field t b out l) = lc_accuracy l"
  "lc_verticalAccuracy (tech_field t b out l) = lc_verticalAccuracy l"
  "lc_speedAccuracy (tech_field t b out l) = lc_speedAccuracy l"
  "lc_bearingAccuracy (tech_field t b out l) = lc_bearingAccuracy l"
  "lc_timestamp (tech_field t b out l) = lc_timestamp l"
  by (simp_all add: tech_field_def)


section \<open>Satellites\<close>

lemma bit_sv_bit:
  assumes "0 \<le> n" "n < 32"
  shows "bit (sv_bit w n) i \<longleftrightarrow> i < 64 \<and> min 31 i = nat n"
proof -
  have "sv_bit w n = scast (2 ^ nat n :: u32)" using assms by (simp add: sv_bit_def)
  then have "bit (sv_bit w n) i \<longleftrightarrow> i < 64 \<and> bit (2 ^ nat n :: u32) (min 31 i)"
    by (simp only: bit_signed_iff) (simp add: possible_bit_word)
  also have "bit (2 ^ nat n :: u32) (min 31 i) \<longleftrightarrow> min 31 i = nat n"
    using assms by (auto simp: bit_exp_iff possible_bit_word)
  finally show ?thesis .
qed

lemma and_sv_bit:
  assumes "0 \<le> n" "n < 32"
  shows "m AND sv_bit w n \<noteq> 0 \<longleftrightarrow> (\<exists>i < 64. bit m i \<and> min 31 i = nat n)"
  using bit_sv_bit[OF assms] by (auto simp: bit_eq_iff bit_and_iff)

definition used_before :: "bool \<Rightarrow> GnssSvUsedInPosition \<Rightarrow> GnssSvType \<Rightarrow> u64" where
  "used_before avail used t = (if avail then sv_used_mask used t else 0)"

text \<open>The reference: the flag is set if the fix used the satellite, and QZSS ids are moved.\<close>

definition sv_reported :: "u64 \<Rightarrow> GnssSv \<Rightarrow> GnssSv" where
  "sv_reported m v =
     v\<lparr>svId := (if sv_type v = GNSS_SV_TYPE_QZSS then svId v + 192 else svId v),
       gnssSvOptionsMask := (if bit m (unat (svId v) - 1) then gnssSvOptionsMask v OR 4 else gnssSvOptionsMask v)\<rparr>"

lemma reportSv_one_alt:
  "reportSv_one w avail used v =
     v\<lparr>svId := (if sv_type v = GNSS_SV_TYPE_QZSS then svId v + 192 else svId v),
       gnssSvOptionsMask :=
         (if used_before avail used (sv_type v) AND sv_bit w (sint (svId v) - 1) \<noteq> 0
          then gnssSvOptionsMask v OR 4 else gnssSvOptionsMask v)\<rparr>"
  by (simp add: reportSv_one_def used_before_def Let_def QZSS_SV_PRN_MIN_def
      GNSS_SV_OPTIONS_USED_IN_FIX_BIT_def)

lemma sint_small: "sint x = int (unat x)" if "unat x < 2 ^ 15" for x :: u16
proof -
  have u: "uint x = int (unat x)" by simp
  have "uint x < 2 ^ 15" unfolding u using that by (metis of_nat_less_iff of_nat_numeral of_nat_power)
  then have "signed_take_bit 15 (uint x) = uint x"
    by (intro signed_take_bit_int_eq_self) (auto intro: order_trans[OF _ uint_ge_0])
  then show ?thesis by (simp add: sint_uint)
qed

lemma reportSv_one_below_32:
  assumes "1 \<le> unat (svId v)" "unat (svId v) \<le> 31"
  shows "reportSv_one w avail used v = sv_reported (used_before avail used (sv_type v)) v"
proof -
  define n where "n = unat (svId v) - 1"
  have n: "n < 31" "sint (svId v) - 1 = int n"
    using assms sint_small[of "svId v"] by (auto simp: n_def)
  have m: "m AND sv_bit w (int n) \<noteq> 0 \<longleftrightarrow> bit m n" for m :: u64
  proof -
    have "m AND sv_bit w (int n) \<noteq> 0 \<longleftrightarrow> (\<exists>i < 64. bit m i \<and> min 31 i = n)"
      using and_sv_bit[of "int n" m w] n(1) by simp
    also have "\<dots> \<longleftrightarrow> bit m n"
      using n(1) by (auto simp: min_def split: if_splits intro!: exI[of _ n])
    finally show ?thesis .
  qed
  show ?thesis
    unfolding reportSv_one_alt sv_reported_def n(2)[unfolded n_def] m[unfolded n_def] by (rule refl)
qed

text \<open>The calls that hand a satellite report to a client.\<close>

fun is_sv :: "report_call \<Rightarrow> bool" where
  "is_sv (R_sv c svs) = True"
| "is_sv _ = False"

lemma reportNmea_sv: "filter is_sv (rp_log (reportNmea w n s)) = filter is_sv (rp_log s)"
  by (simp add: reportNmea_def rp_call_def filter_empty_conv)

lemma reportNmeas_sv: "filter is_sv (rp_log (reportNmeas w ns s)) = filter is_sv (rp_log s)"
proof -
  have "filter is_sv (rp_log (fold (reportNmea w) ns s)) = filter is_sv (rp_log s)"
    by (induction ns arbitrary: s) (simp_all add: reportNmea_sv)
  then show ?thesis by (simp add: reportNmeas_def)
qed


definition demo_sv :: "GnssSvType \<Rightarrow> u16 \<Rightarrow> GnssSv" where
  "demo_sv t i = \<lparr>svId = i, sv_type = t, cN0Dbhz = 0, elevation = 0, azimuth = 0, gnssSvOptionsMask = 3\<rparr>"

definition demo_report_env :: report_env where
  "demo_report_env =
     \<lparr>re_intermediate_pos = 0, re_accuracy_thres = 0, re_nmea_provider = 0,
      re_accuracy_exceeds = (\<lambda>a t. False), re_is_zero = (\<lambda>d. d = 0),
      re_generate_pos = (\<lambda>g e b. []), re_generate_sv = (\<lambda>svs. []), re_debug_taken = (\<lambda>n. False),
      re_clock = (\<lambda>log. 0), re_shift = (\<lambda>n. push_bit (nat (n mod 32)) 1)\<rparr>"

text \<open>A client, and a position that used the GPS satellites 5 and 10 and the QZSS satellite 3.\<close>

definition demo_reports :: reports where
  "demo_reports =
     report_init\<lparr>rp_clients := [(100, \<lparr>cb_response = False, cb_capabilities = False, cb_tracking = False,
        cb_gnssMeasurements = False, cb_gnssNi = False, cb_gnssSv = True, cb_gnssNmea = False,
        cb_gnssLocationInfo = False\<rparr>)],
      mGnssSvIdUsedInPosAvail := True,
      mGnssSvIdUsedInPosition := no_svs\<lparr>gps_sv_used_ids_mask := 0x210, qzss_sv_used_ids_mask := 4\<rparr>\<rparr>"


text \<open>
  With higher ids the flag is wrong: the shift is done on 32-bit integers. The satellite 32 is
  flagged if any of the satellites 32 to 64 was used, and where the machine shifts modulo 32, the
  satellites 33 to 63 are flagged as the ones 32 below them.
\<close>

theorem sv_flag_wrong_above_31:
  assumes "32 \<le> unat (svId v)" "unat (svId v) \<le> 63" "\<And>n. re_shift w n = push_bit (nat (n mod 32)) 1"
    "\<not> bit (gnssSvOptionsMask v) 2"
  shows "bit (gnssSvOptionsMask (reportSv_one w avail used v)) 2 \<longleftrightarrow>
    (if unat (svId v) = 32 then \<exists>i < 64. 31 \<le> i \<and> bit (used_before avail used (sv_type v)) i
     else bit (used_before avail used (sv_type v)) (unat (svId v) - 33))"
proof -
  define n where "n = unat (svId v) - 1"
  let ?m = "used_before avail used (sv_type v)"
  have n: "31 \<le> n" "n < 63" "sint (svId v) - 1 = int n" "n = unat (svId v) - 1"
    using assms(1,2) sint_small[of "svId v"] by (auto simp: n_def)
  have four: "bit (x OR 4) 2" for x :: u16 by (simp add: bit_simps bit_numeral_rec)
  have flag: "bit (gnssSvOptionsMask (reportSv_one w avail used v)) 2 \<longleftrightarrow> ?m AND sv_bit w (int n) \<noteq> 0"
    using assms(4) four by (simp add: reportSv_one_alt n(3))
  show ?thesis
  proof (cases "n = 31")
    case True
    then have "?m AND sv_bit w (int n) \<noteq> 0 \<longleftrightarrow> (\<exists>i < 64. bit ?m i \<and> min 31 i = 31)"
      using and_sv_bit[of 31 ?m w] by simp
    moreover have "min 31 i = (31 :: nat) \<longleftrightarrow> 31 \<le> i" for i by auto
    ultimately show ?thesis using flag True n by auto
  next
    case False
    then have k: "32 \<le> n" "n - 32 < 31" using n(1,2) by simp_all
    have "n mod 32 = n - 32" using k by (simp add: le_mod_geq)
    then have k3: "nat (int n mod 32) = n - 32" by (simp add: nat_mod_distrib)
    have "bit (sv_bit w (int n)) i \<longleftrightarrow> i < 64 \<and> min 31 i = n - 32" for i
    proof -
      have "nat (int n - 32) = n - 32" using k by simp
      then have "sv_bit w (int n) = sv_bit w (int (n - 32))"
        using k by (simp add: sv_bit_def assms(3) k3)
      then show ?thesis using bit_sv_bit[of "int (n - 32)" w i] k(2) by simp
    qed
    then have "?m AND sv_bit w (int n) \<noteq> 0 \<longleftrightarrow> (\<exists>i < 64. bit ?m i \<and> min 31 i = n - 32)"
      by (auto simp: bit_eq_iff bit_and_iff)
    also have "\<dots> \<longleftrightarrow> bit ?m (n - 32)"
      using k(2) by (auto simp: min_def split: if_splits intro!: exI[of _ "n - 32"])
    finally show ?thesis using flag False n k by (auto simp: diff_diff_left)
  qed
qed

theorem sv_flag_wrong_above_31_witness:
  "bit (gnssSvOptionsMask (reportSv_one demo_report_env True (no_svs\<lparr>gal_sv_used_ids_mask := 1\<rparr>)
      (demo_sv GNSS_SV_TYPE_GALILEO 33))) 2"
  using sv_flag_wrong_above_31[of "demo_sv GNSS_SV_TYPE_GALILEO 33" demo_report_env True
      "no_svs\<lparr>gal_sv_used_ids_mask := 1\<rparr>"]
  by (simp add: demo_sv_def demo_report_env_def used_before_def bit_numeral_rec)

end
