(* ===== verification/Loc_Api_Base.thy ===== *)
theory Loc_Api_Base
  imports Gnss_Reports Gnss_Odcpi Gnss_Ni
begin

unbundle bit_operations_syntax

text \<open>
  The base class of the interface to the modem, \<open>gps/core/LocApiBase.cpp\<close> and \<open>LocApiBase.h\<close>, with the
  part of \<open>LocAdapterBase\<close> that registers an adapter and changes its event mask. The interface keeps an
  array of up to ten adapters; it asks the modem for the events that one of them wants, and hands
  every report of the modem to all adapters, or to the first that says it handled it.

  Following the pointer of an adapter that does not exist any more is \<open>None\<close>. What an adapter's handler
  answers is an argument; the handlers of the repository only send messages to their thread, and so do
  not change the array. Opening and closing the modem is up to a derived class that is not in the
  repository, and a call of the log.
\<close>

section \<open>State\<close>

definition MAX_ADAPTERS :: nat where
  "MAX_ADAPTERS = 10"

definition MAX_FEATURE_LENGTH :: nat where
  "MAX_FEATURE_LENGTH = 100"

datatype api_event =
    EvEngineUp
  | EvEngineDown
  | EvPosition UlpLocation GpsLocationExtended loc_sess_status u32
  | EvSv "GnssSv list"
  | EvSvMeasurement "u8 list"
  | EvSvPolynomial "u8 list"
  | EvStatus u16
  | EvNmea nmea
  | EvGnssMeasurementData measurements int
  | EvWwanZppFix "u8 list"
  | EvOdcpiRequest OdcpiRequestInfo
  | EvXtraServer "u8 list" "u8 list" "u8 list"
  | EvXtraData
  | EvTime
  | EvLocation
  | EvATL int u16
  | EvReleaseATL int
  | EvSuplES int
  | EvDataCallOpened
  | EvDataCallClosed
  | EvNiNotify GnssNiNotification ptr

datatype api_msg = LocSsrMsg | LocOpenMsg

datatype api_base_call =
    A_open u64
  | A_close
  | A_injectFeatureConfig
  | A_deliver ptr api_event

datatype loc_registration_mask_status =
    LOC_REGISTRATION_MASK_ENABLED
  | LOC_REGISTRATION_MASK_DISABLED
  | LOC_REGISTRATION_MASK_SET

datatype LocCheckingMessagesID =
    LOC_API_ADAPTER_MESSAGE_LOCATION_BATCHING
  | LOC_API_ADAPTER_MESSAGE_BATCHED_GENFENCE_BREACH
  | LOC_API_ADAPTER_MESSAGE_DISTANCE_BASE_TRACKING
  | LOC_API_ADAPTER_MESSAGE_ADAPTIVE_LOCATION_BATCHING
  | LOC_API_ADAPTER_MESSAGE_DISTANCE_BASE_LOCATION_BATCHING
  | LOC_API_ADAPTER_MESSAGE_UPDATE_TBF_ON_THE_FLY
  | LOC_API_ADAPTER_MESSAGE_OUTDOOR_TRIP_BATCHING
  | LOC_API_ADAPTER_MESSAGE_MAX

text \<open>\<open>evt_masks\<close> is the memory of the adapters: those that exist, each with its \<open>mEvtMask\<close>.\<close>

record loc_api =
  mLocAdapters :: "ptr list"
  mSupportedMsg :: u64
  mFeaturesSupported :: "u8 list"
  mExcludedMask :: u64
  evt_masks :: "ptr \<rightharpoonup> u64"
  la_queue :: "api_msg list"
  la_log :: "api_base_call list"

definition loc_api_init :: "u64 \<Rightarrow> loc_api" where
  "loc_api_init excludedMask =
     \<lparr>mLocAdapters = replicate MAX_ADAPTERS NULL, mSupportedMsg = 0,
      mFeaturesSupported = replicate MAX_FEATURE_LENGTH 0, mExcludedMask = excludedMask,
      evt_masks = Map.empty, la_queue = [], la_log = []\<rparr>"

definition la_call :: "api_base_call \<Rightarrow> loc_api \<Rightarrow> loc_api" where
  "la_call c s = s\<lparr>la_log := la_log s @ [c]\<rparr>"

definition la_send :: "api_msg \<Rightarrow> loc_api \<Rightarrow> loc_api" where
  "la_send m s = s\<lparr>la_queue := la_queue s @ [m]\<rparr>"

section \<open>The array of adapters\<close>

function addAdapter_from :: "nat \<Rightarrow> ptr \<Rightarrow> loc_api \<Rightarrow> loc_api" where
  "addAdapter_from i a s =
     (if i < MAX_ADAPTERS \<and> mLocAdapters s ! i \<noteq> a
      then if mLocAdapters s ! i = NULL
           then la_send LocOpenMsg (s\<lparr>mLocAdapters := (mLocAdapters s)[i := a]\<rparr>)
           else addAdapter_from (i + 1) a s
      else s)"
  by pat_completeness auto
termination by (relation "measure (\<lambda>(i, a, s). MAX_ADAPTERS - i)") auto

definition addAdapter :: "ptr \<Rightarrow> loc_api \<Rightarrow> loc_api" where
  "addAdapter a s = addAdapter_from 0 a s"

text \<open>\<open>while (++i < MAX_ADAPTERS && mLocAdapters[i] != NULL)\<close>, from the incremented index on.\<close>

function next_hole :: "nat \<Rightarrow> ptr list \<Rightarrow> nat" where
  "next_hole i arr = (if i < MAX_ADAPTERS \<and> arr ! i \<noteq> NULL then next_hole (i + 1) arr else i)"
  by pat_completeness auto
termination by (relation "measure (\<lambda>(i, arr). MAX_ADAPTERS - i)") auto

declare addAdapter_from.simps [simp del] next_hole.simps [simp del]

lemma next_hole_ge: "i \<le> next_hole i arr"
  by (induction i arr rule: next_hole.induct) (subst next_hole.simps, auto intro: Suc_leD)

function removeAdapter_from :: "nat \<Rightarrow> ptr \<Rightarrow> loc_api \<Rightarrow> loc_api" where
  "removeAdapter_from i a s =
     (if i < MAX_ADAPTERS \<and> mLocAdapters s ! i \<noteq> NULL
      then if mLocAdapters s ! i = a
           then (let arr = (mLocAdapters s)[i := NULL];
                     k = next_hole (i + 1) arr - 1;
                     s1 = s\<lparr>mLocAdapters := (arr[i := arr ! k])[k := NULL]\<rparr>
                 in removeAdapter_from (k + 1) a
                      (if k = 0 then la_call A_close s1 else la_send LocOpenMsg s1))
           else removeAdapter_from (i + 1) a s
      else s)"
  by pat_completeness auto
termination
proof (relation "measure (\<lambda>(i, a, s). MAX_ADAPTERS - i)", goal_cases)
  case (2 i a s arr k s1)
  then show ?case using next_hole_ge[of "i + 1" arr] by auto
qed auto

declare removeAdapter_from.simps [simp del]

definition removeAdapter :: "ptr \<Rightarrow> loc_api \<Rightarrow> loc_api" where
  "removeAdapter a s = removeAdapter_from 0 a s"

section \<open>Loops over the adapters\<close>

text \<open>\<open>TO_ALL_ADAPTERS\<close>: the call may fail, when it follows a dangling pointer.\<close>

function TO_ALL_ADAPTERS :: "nat \<Rightarrow> ptr list \<Rightarrow> (ptr \<Rightarrow> 's \<Rightarrow> 's option) \<Rightarrow> 's \<Rightarrow> 's option" where
  "TO_ALL_ADAPTERS i arr f s =
     (if i < MAX_ADAPTERS \<and> arr ! i \<noteq> NULL
      then Option.bind (f (arr ! i) s) (TO_ALL_ADAPTERS (i + 1) arr f)
      else Some s)"
  by pat_completeness auto
termination by (relation "measure (\<lambda>(i, arr, f, s). MAX_ADAPTERS - i)") auto

text \<open>\<open>TO_1ST_HANDLING_ADAPTER\<close>: stops after the first adapter that answers true.\<close>

function TO_1ST_HANDLING_ADAPTER ::
  "nat \<Rightarrow> ptr list \<Rightarrow> (ptr \<Rightarrow> 's \<Rightarrow> (bool \<times> 's) option) \<Rightarrow> 's \<Rightarrow> 's option" where
  "TO_1ST_HANDLING_ADAPTER i arr f s =
     (if i < MAX_ADAPTERS \<and> arr ! i \<noteq> NULL
      then Option.bind (f (arr ! i) s)
             (\<lambda>(b, s1). if b then Some s1 else TO_1ST_HANDLING_ADAPTER (i + 1) arr f s1)
      else Some s)"
  by pat_completeness auto
termination by (relation "measure (\<lambda>(i, arr, f, s). MAX_ADAPTERS - i)") auto

declare TO_ALL_ADAPTERS.simps [simp del] TO_1ST_HANDLING_ADAPTER.simps [simp del]

definition getEvtMask :: "loc_api \<Rightarrow> u64 option" where
  "getEvtMask s =
     Option.bind
       (TO_ALL_ADAPTERS 0 (mLocAdapters s)
          (\<lambda>a m. Option.bind (evt_masks s a) (\<lambda>e. Some (m OR e))) 0)
       (\<lambda>m. Some (m AND NOT (mExcludedMask s)))"

text \<open>A call of an adapter's virtual function.\<close>

definition deliver :: "api_event \<Rightarrow> ptr \<Rightarrow> loc_api \<Rightarrow> loc_api option" where
  "deliver ev a s = (if evt_masks s a = None then None else Some (la_call (A_deliver a ev) s))"

definition deliver_handled ::
  "(api_base_call, bool) world \<Rightarrow> api_event \<Rightarrow> ptr \<Rightarrow> loc_api \<Rightarrow> (bool \<times> loc_api) option" where
  "deliver_handled w ev a s =
     Option.bind (deliver ev a s) (\<lambda>s1. Some (w (la_log s) (A_deliver a ev), s1))"

definition to_all :: "api_event \<Rightarrow> loc_api \<Rightarrow> loc_api option" where
  "to_all ev s = TO_ALL_ADAPTERS 0 (mLocAdapters s) (deliver ev) s"

definition to_first :: "(api_base_call, bool) world \<Rightarrow> api_event \<Rightarrow> loc_api \<Rightarrow> loc_api option" where
  "to_first w ev s = TO_1ST_HANDLING_ADAPTER 0 (mLocAdapters s) (deliver_handled w ev) s"

text \<open>\<open>isInSession\<close> asks until one adapter says yes.\<close>

function isInSession_from :: "(ptr \<Rightarrow> bool) \<Rightarrow> nat \<Rightarrow> bool \<Rightarrow> ptr list \<Rightarrow> bool" where
  "isInSession_from in_session i b arr =
     (if \<not> b \<and> i < MAX_ADAPTERS \<and> arr ! i \<noteq> NULL
      then isInSession_from in_session (i + 1) (in_session (arr ! i)) arr
      else b)"
  by pat_completeness auto
termination by (relation "measure (\<lambda>(f, i, b, arr). MAX_ADAPTERS - i)") auto

declare isInSession_from.simps [simp del]

definition isInSession :: "(ptr \<Rightarrow> bool) \<Rightarrow> loc_api \<Rightarrow> bool" where
  "isInSession in_session s = isInSession_from in_session 0 False (mLocAdapters s)"

section \<open>Reports of the modem\<close>

fun modem_report :: "(api_base_call, bool) world \<Rightarrow> api_event \<Rightarrow> loc_api \<Rightarrow> loc_api option" where
  "modem_report w EvEngineUp s = to_all EvEngineUp (la_call A_injectFeatureConfig (la_send LocSsrMsg s))"
| "modem_report w EvEngineDown s = to_all EvEngineDown s"
| "modem_report w (EvPosition g e status techMask) s = to_all (EvPosition g e status techMask) s"
| "modem_report w (EvSv svs) s = to_all (EvSv svs) s"
| "modem_report w (EvSvMeasurement m) s = to_all (EvSvMeasurement m) s"
| "modem_report w (EvSvPolynomial p) s = to_all (EvSvPolynomial p) s"
| "modem_report w (EvStatus st) s = to_all (EvStatus st) s"
| "modem_report w (EvNmea n) s = to_all (EvNmea n) s"
| "modem_report w (EvGnssMeasurementData m t) s = to_all (EvGnssMeasurementData m t) s"
| "modem_report w (EvWwanZppFix l) s = to_first w (EvWwanZppFix l) s"
| "modem_report w (EvOdcpiRequest r) s = to_first w (EvOdcpiRequest r) s"
| "modem_report w (EvXtraServer a b c) s = to_first w (EvXtraServer a b c) s"
| "modem_report w EvXtraData s = to_first w EvXtraData s"
| "modem_report w EvTime s = to_first w EvTime s"
| "modem_report w EvLocation s = to_first w EvLocation s"
| "modem_report w (EvATL h t) s = to_first w (EvATL h t) s"
| "modem_report w (EvReleaseATL h) s = to_first w (EvReleaseATL h) s"
| "modem_report w (EvSuplES h) s = to_first w (EvSuplES h) s"
| "modem_report w EvDataCallOpened s = to_first w EvDataCallOpened s"
| "modem_report w EvDataCallClosed s = to_first w EvDataCallClosed s"
| "modem_report w (EvNiNotify n d) s = to_first w (EvNiNotify n d) s"

section \<open>Messages, masks and features\<close>

definition updateEvtMask :: "loc_api \<Rightarrow> loc_api option" where
  "updateEvtMask s = Option.bind (getEvtMask s) (\<lambda>m. Some (la_call (A_open m) s))"

fun api_msg_proc :: "api_msg \<Rightarrow> loc_api \<Rightarrow> loc_api option" where
  "api_msg_proc LocSsrMsg s =
     (let s1 = la_call A_close s in Option.bind (getEvtMask s1) (\<lambda>m. Some (la_call (A_open m) s1)))"
| "api_msg_proc LocOpenMsg s = Option.bind (getEvtMask s) (\<lambda>m. Some (la_call (A_open m) s))"

fun new_mask :: "loc_registration_mask_status \<Rightarrow> u64 \<Rightarrow> u64 \<Rightarrow> u64" where
  "new_mask LOC_REGISTRATION_MASK_ENABLED event m = m OR event"
| "new_mask LOC_REGISTRATION_MASK_DISABLED event m = m AND NOT event"
| "new_mask LOC_REGISTRATION_MASK_SET event m = event"

definition adapter_updateEvtMask ::
  "ptr \<Rightarrow> u64 \<Rightarrow> loc_registration_mask_status \<Rightarrow> loc_api \<Rightarrow> loc_api option" where
  "adapter_updateEvtMask a event status s =
     Option.bind (evt_masks s a)
       (\<lambda>m. updateEvtMask (s\<lparr>evt_masks := (evt_masks s)(a \<mapsto> new_mask status event m)\<rparr>))"

definition LocAdapterBase_new :: "ptr \<Rightarrow> u64 \<Rightarrow> loc_api \<Rightarrow> loc_api" where
  "LocAdapterBase_new a m s = addAdapter a (s\<lparr>evt_masks := (evt_masks s)(a \<mapsto> m)\<rparr>)"

definition LocAdapterBase_delete :: "ptr \<Rightarrow> loc_api \<Rightarrow> loc_api" where
  "LocAdapterBase_delete a s = (removeAdapter a s)\<lparr>evt_masks := (evt_masks s)(a := None)\<rparr>"

definition saveSupportedMsgList :: "u64 \<Rightarrow> loc_api \<Rightarrow> loc_api" where
  "saveSupportedMsgList l s = s\<lparr>mSupportedMsg := l\<rparr>"

definition saveSupportedFeatureList :: "u8 list \<Rightarrow> loc_api \<Rightarrow> loc_api" where
  "saveSupportedFeatureList l s = s\<lparr>mFeaturesSupported := take MAX_FEATURE_LENGTH l\<rparr>"

fun msg_number :: "LocCheckingMessagesID \<Rightarrow> nat" where
  "msg_number LOC_API_ADAPTER_MESSAGE_LOCATION_BATCHING = 0"
| "msg_number LOC_API_ADAPTER_MESSAGE_BATCHED_GENFENCE_BREACH = 1"
| "msg_number LOC_API_ADAPTER_MESSAGE_DISTANCE_BASE_TRACKING = 2"
| "msg_number LOC_API_ADAPTER_MESSAGE_ADAPTIVE_LOCATION_BATCHING = 3"
| "msg_number LOC_API_ADAPTER_MESSAGE_DISTANCE_BASE_LOCATION_BATCHING = 4"
| "msg_number LOC_API_ADAPTER_MESSAGE_UPDATE_TBF_ON_THE_FLY = 5"
| "msg_number LOC_API_ADAPTER_MESSAGE_OUTDOOR_TRIP_BATCHING = 6"
| "msg_number LOC_API_ADAPTER_MESSAGE_MAX = 7"

definition isMessageSupported :: "LocCheckingMessagesID \<Rightarrow> loc_api \<Rightarrow> bool" where
  "isMessageSupported msgID s =
     (if msg_number msgID > 64 then False
      else let messageChecker = (push_bit (msg_number msgID) 1 :: u32)
           in ucast messageChecker AND mSupportedMsg s = ucast messageChecker)"

definition isFeatureSupported :: "u8 \<Rightarrow> loc_api \<Rightarrow> bool" where
  "isFeatureSupported featureVal s =
     (let arrayIndex = drop_bit 3 featureVal; bitPos = featureVal AND 7
      in if MAX_FEATURE_LENGTH \<le> unat arrayIndex then False
         else drop_bit (unat bitPos) (mFeaturesSupported s ! unat arrayIndex) AND 1 \<noteq> 0)"

section \<open>Runs\<close>

text \<open>
  What happens, in any order: an adapter is constructed at an address that is not in use, destroyed, or
  changes its mask; the modem reports or tells what it supports; the thread handles its next message.
\<close>

datatype loc_api_event =
    LaNew ptr u64
  | LaDelete ptr
  | LaUpdateMask ptr u64 loc_registration_mask_status
  | LaReport api_event
  | LaSupportedMsgs u64
  | LaSupportedFeatures "u8 list"
  | LaProcess

fun loc_api_step :: "(api_base_call, bool) world \<Rightarrow> loc_api_event \<Rightarrow> loc_api \<Rightarrow> loc_api option" where
  "loc_api_step w (LaNew a m) s =
     (if a \<noteq> NULL \<and> evt_masks s a = None then Some (LocAdapterBase_new a m s) else Some s)"
| "loc_api_step w (LaDelete a) s =
     (if evt_masks s a \<noteq> None then Some (LocAdapterBase_delete a s) else Some s)"
| "loc_api_step w (LaUpdateMask a event status) s =
     (if evt_masks s a \<noteq> None then adapter_updateEvtMask a event status s else Some s)"
| "loc_api_step w (LaReport ev) s = modem_report w ev s"
| "loc_api_step w (LaSupportedMsgs l) s = Some (saveSupportedMsgList l s)"
| "loc_api_step w (LaSupportedFeatures l) s = Some (saveSupportedFeatureList l s)"
| "loc_api_step w LaProcess s =
     (case la_queue s of m # ms \<Rightarrow> api_msg_proc m (s\<lparr>la_queue := ms\<rparr>) | [] \<Rightarrow> Some s)"

fun loc_api_run :: "(api_base_call, bool) world \<Rightarrow> loc_api_event list \<Rightarrow> loc_api \<Rightarrow> loc_api option" where
  "loc_api_run w [] s = Some s"
| "loc_api_run w (e # es) s = Option.bind (loc_api_step w e s) (loc_api_run w es)"

section \<open>Text of addresses\<close>

text \<open>
  \<open>hexcode\<close> prints bytes as \<open>snprintf\<close> does with \<open>%02X\<close>, cut to two characters. The argument is a \<open>char\<close>:
  where that type is signed, a byte from \<open>0x80\<close> on is a negative number, whose first digits are \<open>FF\<close>.
\<close>

definition hex_digit :: "u8 \<Rightarrow> u8" where
  "hex_digit n = (if n < 10 then 48 + n else 55 + n)"

definition hex_byte :: "bool \<Rightarrow> u8 \<Rightarrow> u8 list" where
  "hex_byte char_signed ch =
     (if char_signed \<and> 0x80 \<le> ch then [70, 70]
      else [hex_digit (drop_bit 4 ch), hex_digit (ch AND 0x0F)])"

definition write_at :: "nat \<Rightarrow> u8 list \<Rightarrow> u8 list \<Rightarrow> u8 list" where
  "write_at i xs buf = take i buf @ xs @ drop (i + length xs) buf"

fun hexcode_from :: "bool \<Rightarrow> nat \<Rightarrow> nat \<Rightarrow> u8 list \<Rightarrow> u8 list \<Rightarrow> u8 list \<times> nat" where
  "hexcode_from sg i string_size (ch # data) buf =
     (if i * 2 + 3 \<le> string_size
      then hexcode_from sg (i + 1) string_size data (write_at (i * 2) (hex_byte sg ch @ [0]) buf)
      else (buf, i))"
| "hexcode_from sg i string_size [] buf = (buf, i)"

definition hexcode :: "bool \<Rightarrow> nat \<Rightarrow> u8 list \<Rightarrow> u8 list \<Rightarrow> u8 list \<times> nat" where
  "hexcode sg string_size data buf = hexcode_from sg 0 string_size data buf"

text \<open>
  \<open>decodeAddress\<close> reads digits of four bits, the low ones first. \<open>string_size\<close> is that of the buffer, and
  a store beyond it is \<open>None\<close>.
\<close>

definition put_digit :: "u8 \<Rightarrow> u8 list \<times> nat \<Rightarrow> u8 list \<times> nat" where
  "put_digit d = (\<lambda>(buf, k). if d \<le> 9 \<and> int k < int (length buf) - 1 then (buf[k := d + 48], k + 1) else (buf, k))"

fun decode_loop :: "u8 list \<Rightarrow> u8 list \<times> nat \<Rightarrow> u8 list \<times> nat" where
  "decode_loop [] out = out"
| "decode_loop (ch # data) out = decode_loop data (put_digit (drop_bit 4 ch) (put_digit (ch AND 0x0F) out))"

definition terminate_at :: "u8 list \<times> nat \<Rightarrow> (u8 list \<times> nat) option" where
  "terminate_at = (\<lambda>(buf, k). if k < length buf then Some (buf[k := 0], k) else None)"

definition decodeAddress :: "u8 list option \<Rightarrow> u8 list option \<Rightarrow> (u8 list option \<times> nat) option" where
  "decodeAddress data addr_string =
     (case (data, addr_string) of
        (Some (prefix # rest), Some buf) \<Rightarrow>
          map_option (\<lambda>(b, k). (Some b, k))
            (terminate_at (if prefix \<noteq> 0x91 then (buf, 0) else decode_loop rest (buf, 0)))
      | (Some [], Some buf) \<Rightarrow> None
      | _ \<Rightarrow> Some (addr_string, 0))"

end
