(* ===== verification/Loc_Api_Proofs.thy ===== *)
theory Loc_Api_Proofs
  imports Loc_Api_Base
begin

unbundle bit_operations_syntax

text \<open>
  What holds of the interface to the modem: the array of adapters is a list without holes and
  repetitions, so that no adapter that was destroyed is called; a report reaches every adapter once, or
  those up to the first that handles it; the modem is open for the events the adapters want whenever
  the message queue is empty.
\<close>

section \<open>The array as a list\<close>

declare neq0_conv [simp del]

definition slots :: "ptr list \<Rightarrow> ptr list" where
  "slots xs = xs @ replicate (MAX_ADAPTERS - length xs) NULL"

definition elems :: "loc_api \<Rightarrow> ptr list" where
  "elems s = takeWhile (\<lambda>a. a \<noteq> NULL) (mLocAdapters s)"

definition adapters_ok :: "loc_api \<Rightarrow> bool" where
  "adapters_ok s \<longleftrightarrow> mLocAdapters s = slots (elems s) \<and> length (elems s) \<le> MAX_ADAPTERS \<and> distinct (elems s)"

text \<open>The reference for removal: the last adapter takes the place of the one that goes.\<close>

fun swap_out :: "ptr \<Rightarrow> ptr list \<Rightarrow> ptr list" where
  "swap_out a [] = []"
| "swap_out a (x # xs) =
     (if x = a then (if xs = [] then [] else last xs # butlast xs) else x # swap_out a xs)"

lemma slots_nth: "i < MAX_ADAPTERS \<Longrightarrow> length xs \<le> MAX_ADAPTERS \<Longrightarrow>
    slots xs ! i = (if i < length xs then xs ! i else NULL)"
  by (simp add: slots_def nth_append)

lemma takeWhile_slots [simp]: "NULL \<notin> set xs \<Longrightarrow> takeWhile (\<lambda>a. a \<noteq> NULL) (slots xs) = xs"
proof -
  assume "NULL \<notin> set xs"
  then have "takeWhile (\<lambda>a. a \<noteq> NULL) (xs @ ys) = xs @ takeWhile (\<lambda>a. a \<noteq> NULL) ys" for ys
    by (intro takeWhile_append2) metis
  then show ?thesis by (simp add: slots_def)
qed

lemma elems_no_null: "NULL \<notin> set (elems s)"
  by (auto simp: elems_def dest: set_takeWhileD)

lemma nth_no_null: "NULL \<notin> set xs \<Longrightarrow> i < length xs \<Longrightarrow> xs ! i \<noteq> NULL"
  by (metis nth_mem)

lemma slots_snoc: "length xs < MAX_ADAPTERS \<Longrightarrow> (slots xs)[length xs := a] = slots (xs @ [a])"
  by (auto simp: slots_def list_update_append Suc_diff_Suc[symmetric])

lemma set_swap_out: "distinct xs \<Longrightarrow> set (swap_out a xs) = set xs - {a}"
proof (induction xs)
  case (Cons x xs)
  then show ?case
    by (cases xs rule: rev_cases) auto
qed simp

lemma distinct_swap_out: "distinct xs \<Longrightarrow> distinct (swap_out a xs)"
proof (induction xs)
  case (Cons x xs)
  then show ?case by (cases xs rule: rev_cases) (auto simp: set_swap_out)
qed simp

lemma length_swap_out: "length (swap_out a xs) \<le> length xs"
  by (induction xs) auto

lemma swap_out_split:
  "a \<notin> set ys \<Longrightarrow> swap_out a (ys @ a # zs) = ys @ (if zs = [] then [] else last zs # butlast zs)"
  by (induction ys) auto

section \<open>Registration and removal\<close>

lemma addAdapter_from_slots:
  assumes "mLocAdapters s = slots xs" "length xs \<le> MAX_ADAPTERS" "NULL \<notin> set xs" "a \<noteq> NULL"
    "i \<le> length xs"
  shows "addAdapter_from i a s =
    (if a \<in> set (drop i xs) \<or> length xs = MAX_ADAPTERS then s
     else la_send LocOpenMsg (s\<lparr>mLocAdapters := slots (xs @ [a])\<rparr>))"
  using assms
proof (induction i a s rule: addAdapter_from.induct)
  case (1 i a s)
  show ?case
  proof (cases "i < length xs")
    case True
    then have i: "i < MAX_ADAPTERS" "slots xs ! i = xs ! i" "xs ! i \<noteq> NULL"
      using 1(3,4) by (auto simp: slots_nth nth_no_null)
    have d: "drop i xs = xs ! i # drop (Suc i) xs" using True by (simp add: Cons_nth_drop_Suc)
    show ?thesis
      using 1 i True by (subst addAdapter_from.simps) (auto simp: d)
  next
    case False
    then have e: "i = length xs" using 1(6) by simp
    show ?thesis
    proof (cases "i < MAX_ADAPTERS")
      case True
      then have "slots xs ! i = NULL" using e 1(3) by (simp add: slots_nth)
      then show ?thesis
        using True e 1(2,5) by (subst addAdapter_from.simps) (simp add: slots_snoc)
    next
      case False
      then show ?thesis using e 1(3) by (subst addAdapter_from.simps) simp
    qed
  qed
qed

lemma next_hole_eq:
  assumes "\<And>k. i \<le> k \<Longrightarrow> k < n \<Longrightarrow> arr ! k \<noteq> NULL" "n < MAX_ADAPTERS \<Longrightarrow> arr ! n = NULL"
    "i \<le> n" "n \<le> MAX_ADAPTERS"
  shows "next_hole i arr = n"
  using assms
proof (induction i arr rule: next_hole.induct)
  case (1 i arr)
  show ?case
  proof (cases "i = n")
    case True
    then show ?thesis using 1(3,5) by (subst next_hole.simps) auto
  next
    case False
    then have "i < MAX_ADAPTERS \<and> arr ! i \<noteq> NULL" using 1(2)[of i] 1(4,5) by simp
    moreover from this have "next_hole (i + 1) arr = n"
      using False 1(2-5) by (intro 1(1)) auto
    ultimately show ?thesis by (subst next_hole.simps) simp
  qed
qed

text \<open>The array after the adapter at the end of \<open>ys\<close> was removed.\<close>

lemma slots_removed:
  assumes "length (ys @ a # zs) \<le> MAX_ADAPTERS"
  shows "(((slots (ys @ a # zs))[length ys := NULL])
      [length ys := ((slots (ys @ a # zs))[length ys := NULL]) ! (length ys + length zs)])
      [length ys + length zs := NULL] =
    slots (ys @ (if zs = [] then [] else last zs # butlast zs))"
proof (cases zs rule: rev_cases)
  case Nil
  then show ?thesis using assms
    by (simp add: slots_def list_update_append Suc_diff_Suc[symmetric])
next
  case (snoc us z)
  have l: "length (slots (ys @ a # zs)) = MAX_ADAPTERS" using assms by (simp add: slots_def)
  show ?thesis
  proof (rule nth_equalityI)
    show "length ((((slots (ys @ a # zs))[length ys := NULL])
      [length ys := ((slots (ys @ a # zs))[length ys := NULL]) ! (length ys + length zs)])
      [length ys + length zs := NULL]) =
      length (slots (ys @ (if zs = [] then [] else last zs # butlast zs)))"
      using assms snoc by (simp add: slots_def)
    fix i
    assume "i < length ((((slots (ys @ a # zs))[length ys := NULL])
      [length ys := ((slots (ys @ a # zs))[length ys := NULL]) ! (length ys + length zs)])
      [length ys + length zs := NULL])"
    then have i: "i < MAX_ADAPTERS" using l by simp
    show "((((slots (ys @ a # zs))[length ys := NULL])
      [length ys := ((slots (ys @ a # zs))[length ys := NULL]) ! (length ys + length zs)])
      [length ys + length zs := NULL]) ! i =
      slots (ys @ (if zs = [] then [] else last zs # butlast zs)) ! i"
      using assms snoc i l
      by (auto simp: nth_list_update slots_nth nth_append nth_Cons' simp del: list_update_overwrite)
  qed
qed

text \<open>The message or call that follows a removal.\<close>

definition after_removal :: "ptr list \<Rightarrow> loc_api \<Rightarrow> loc_api" where
  "after_removal xs s = (if xs = [] then la_call A_close s else la_send LocOpenMsg s)"

lemma la_fields [simp]:
  "mLocAdapters (la_call c s) = mLocAdapters s" "mLocAdapters (la_send m s) = mLocAdapters s"
  "evt_masks (la_call c s) = evt_masks s" "evt_masks (la_send m s) = evt_masks s"
  "la_queue (la_call c s) = la_queue s" "la_queue (la_send m s) = la_queue s @ [m]"
  "la_log (la_call c s) = la_log s @ [c]" "la_log (la_send m s) = la_log s"
  "mExcludedMask (la_call c s) = mExcludedMask s" "mExcludedMask (la_send m s) = mExcludedMask s"
  "mFeaturesSupported (la_call c s) = mFeaturesSupported s"
  "mFeaturesSupported (la_send m s) = mFeaturesSupported s"
  by (simp_all add: la_call_def la_send_def)

lemma removeAdapter_from_hole:
  "mLocAdapters s ! i = NULL \<or> MAX_ADAPTERS \<le> i \<Longrightarrow> removeAdapter_from i a s = s"
  by (subst removeAdapter_from.simps) auto

lemma removeAdapter_from_slots:
  assumes "mLocAdapters s = slots xs" "length xs \<le> MAX_ADAPTERS" "NULL \<notin> set xs" "distinct xs"
    "i \<le> length xs" "a \<notin> set (take i xs)"
  shows "removeAdapter_from i a s =
    (if a \<in> set xs
     then after_removal (swap_out a xs) (s\<lparr>mLocAdapters := slots (swap_out a xs)\<rparr>) else s)"
  using assms
proof (induction i a s rule: removeAdapter_from.induct)
  case (1 i a s)
  show ?case
  proof (cases "i < length xs")
    case False
    then have "mLocAdapters s ! i = NULL \<or> MAX_ADAPTERS \<le> i" "a \<notin> set xs"
      using 1(3-8) by (auto simp: slots_nth not_less)
    then show ?thesis by (simp add: removeAdapter_from_hole)
  next
    case True
    then have i: "i < MAX_ADAPTERS" "mLocAdapters s ! i = xs ! i" "xs ! i \<noteq> NULL"
      using 1(3-5) by (auto simp: slots_nth nth_no_null)
    show ?thesis
    proof (cases "xs ! i = a")
      case False
      then have "a \<notin> set (take (i + 1) xs)"
        using True 1(8) by (simp add: take_Suc_conv_app_nth)
      then have "removeAdapter_from (i + 1) a s =
          (if a \<in> set xs
           then after_removal (swap_out a xs) (s\<lparr>mLocAdapters := slots (swap_out a xs)\<rparr>) else s)"
        using 1(2)[OF _ _ 1(3-6)] i False True by simp
      then show ?thesis using i False by (subst removeAdapter_from.simps) simp
    next
      case eq: True
      define ys zs where "ys = take i xs" and "zs = drop (i + 1) xs"
      have xs: "xs = ys @ a # zs" "length ys = i"
        using True eq by (auto simp: ys_def zs_def id_take_nth_drop)
      let ?arr = "(slots xs)[i := NULL]"
      have n: "next_hole (i + 1) ?arr = length xs"
        using 1(4,5) True by (intro next_hole_eq) (auto simp: slots_nth nth_no_null)
      have k: "length xs - 1 = length ys + length zs" using xs by simp
      have so: "swap_out a xs = ys @ (if zs = [] then [] else last zs # butlast zs)"
        using 1(6) xs by (simp add: swap_out_split)
      have arr: "(?arr[i := ?arr ! (length xs - 1)])[length xs - 1 := NULL] = slots (swap_out a xs)"
        using slots_removed[of ys a zs] 1(4) xs unfolding k so by simp
      have e: "swap_out a xs = [] \<longleftrightarrow> length xs - 1 = 0" using xs so by auto
      have l: "length (swap_out a xs) < length xs" using so xs by auto
      define s2 where "s2 = after_removal (swap_out a xs) (s\<lparr>mLocAdapters := slots (swap_out a xs)\<rparr>)"
      have "mLocAdapters s2 = slots (swap_out a xs)"
        by (simp add: s2_def after_removal_def)
      moreover have "length xs < MAX_ADAPTERS \<Longrightarrow> slots (swap_out a xs) ! length xs = NULL"
        using l by (simp add: slots_nth)
      ultimately have "removeAdapter_from (length xs) a s2 = s2"
        using 1(4) by (intro removeAdapter_from_hole) auto
      moreover have "removeAdapter_from i a s = removeAdapter_from (length xs) a s2"
      proof -
        have l1: "length xs - 1 + 1 = length xs" using True by simp
        have l2: "(if length xs - 1 = 0 then la_call A_close (s\<lparr>mLocAdapters := slots (swap_out a xs)\<rparr>)
           else la_send LocOpenMsg (s\<lparr>mLocAdapters := slots (swap_out a xs)\<rparr>)) = s2"
          by (simp only: s2_def after_removal_def e)
        have "(i < MAX_ADAPTERS \<and> slots xs ! i \<noteq> NULL) = True" "(slots xs ! i = a) = True"
          using i eq 1(3) by simp_all
        then show ?thesis
          by (subst removeAdapter_from.simps) (simp only: if_True Let_def \<open>mLocAdapters s = slots xs\<close> n arr l1 l2)
      qed
      ultimately have "removeAdapter_from i a s = s2" by simp
      then show ?thesis using eq True s2_def by auto
    qed
  qed
qed


lemma elems_of_slots: "mLocAdapters s = slots xs \<Longrightarrow> NULL \<notin> set xs \<Longrightarrow> elems s = xs"
  by (simp add: elems_def)

lemma addAdapter_list:
  assumes "adapters_ok s" "a \<noteq> NULL"
  shows "addAdapter a s =
    (if a \<in> set (elems s) \<or> length (elems s) = MAX_ADAPTERS then s
     else la_send LocOpenMsg (s\<lparr>mLocAdapters := slots (elems s @ [a])\<rparr>))"
  using assms addAdapter_from_slots[of s "elems s" a 0]
  by (simp add: addAdapter_def adapters_ok_def elems_no_null)

lemma removeAdapter_list:
  assumes "adapters_ok s"
  shows "removeAdapter a s =
    (if a \<in> set (elems s)
     then after_removal (swap_out a (elems s)) (s\<lparr>mLocAdapters := slots (swap_out a (elems s))\<rparr>) else s)"
  using assms removeAdapter_from_slots[of s "elems s" 0 a]
  by (simp add: removeAdapter_def adapters_ok_def elems_no_null)

lemma after_removal_fields [simp]:
  "mLocAdapters (after_removal xs s) = mLocAdapters s" "evt_masks (after_removal xs s) = evt_masks s"
  "mExcludedMask (after_removal xs s) = mExcludedMask s"
  by (simp_all add: after_removal_def)

lemma elems_cong: "mLocAdapters s = mLocAdapters t \<Longrightarrow> elems s = elems t"
  by (simp add: elems_def)

lemma adapters_ok_cong: "mLocAdapters s = mLocAdapters t \<Longrightarrow> adapters_ok s = adapters_ok t"
  by (simp add: adapters_ok_def elems_def)

lemma elems_add:
  assumes "adapters_ok s" "a \<noteq> NULL"
  shows "elems (addAdapter a s) =
    (if a \<in> set (elems s) \<or> length (elems s) = MAX_ADAPTERS then elems s else elems s @ [a])"
  using assms elems_no_null[of s] by (auto simp: addAdapter_list intro!: elems_of_slots)

lemma adapters_ok_add:
  assumes "adapters_ok s" "a \<noteq> NULL"
  shows "adapters_ok (addAdapter a s)"
proof -
  have "mLocAdapters (addAdapter a s) = slots (elems (addAdapter a s))"
    using assms unfolding elems_add[OF assms]
    by (simp add: addAdapter_list) (simp add: adapters_ok_def)
  then show ?thesis using assms by (auto simp: adapters_ok_def elems_add)
qed

lemma elems_remove:
  assumes "adapters_ok s"
  shows "elems (removeAdapter a s) = (if a \<in> set (elems s) then swap_out a (elems s) else elems s)"
proof -
  have "NULL \<notin> set (swap_out a (elems s))"
    using assms elems_no_null[of s] by (auto simp: adapters_ok_def set_swap_out)
  then show ?thesis using assms by (auto simp: removeAdapter_list intro!: elems_of_slots)
qed

lemma adapters_ok_remove:
  assumes "adapters_ok s"
  shows "adapters_ok (removeAdapter a s)"
proof -
  have "mLocAdapters (removeAdapter a s) = slots (elems (removeAdapter a s))"
    using assms unfolding elems_remove[OF assms]
    by (simp add: removeAdapter_list) (simp add: adapters_ok_def)
  then show ?thesis
    using assms length_swap_out[of a "elems s"]
    by (auto simp: adapters_ok_def elems_remove distinct_swap_out)
qed

section \<open>What a table of adapters promises\<close>

text \<open>
  The interface between the table and the memory of the adapters: an adapter is added when it is
  constructed and removed before it is freed; then the table holds existing adapters only.
\<close>

locale adapter_registry =
  fixes add :: "ptr \<Rightarrow> 'r \<Rightarrow> 'r" and remove :: "ptr \<Rightarrow> 'r \<Rightarrow> 'r"
    and members :: "'r \<Rightarrow> ptr list" and ok :: "'r \<Rightarrow> bool"
  assumes ok_add: "ok r \<Longrightarrow> a \<noteq> NULL \<Longrightarrow> ok (add a r)"
    and ok_remove: "ok r \<Longrightarrow> ok (remove a r)"
    and members_add: "ok r \<Longrightarrow> a \<noteq> NULL \<Longrightarrow> set (members (add a r)) \<subseteq> insert a (set (members r))"
    and members_remove: "ok r \<Longrightarrow> set (members (remove a r)) = set (members r) - {a}"
begin

lemma registered_exist_add:
  "ok r \<Longrightarrow> a \<noteq> NULL \<Longrightarrow> set (members r) \<subseteq> L \<Longrightarrow> set (members (add a r)) \<subseteq> insert a L"
  using members_add by blast

lemma registered_exist_remove:
  "ok r \<Longrightarrow> set (members r) \<subseteq> L \<Longrightarrow> set (members (remove a r)) \<subseteq> L - {a}"
  using members_remove by blast

end

interpretation adapters: adapter_registry addAdapter removeAdapter elems adapters_ok
proof unfold_locales
  fix s :: loc_api and a :: ptr
  assume ok: "adapters_ok s"
  show "adapters_ok (removeAdapter a s)" using ok by (rule adapters_ok_remove)
  show "set (elems (removeAdapter a s)) = set (elems s) - {a}"
    using ok set_swap_out by (auto simp: elems_remove adapters_ok_def)
  assume "a \<noteq> NULL"
  then show "adapters_ok (addAdapter a s)" "set (elems (addAdapter a s)) \<subseteq> insert a (set (elems s))"
    using ok by (auto simp: adapters_ok_add elems_add)
qed

section \<open>Loops\<close>

text \<open>The loops as recursion over the list of adapters.\<close>

fun each :: "('a \<Rightarrow> 's \<Rightarrow> 's option) \<Rightarrow> 'a list \<Rightarrow> 's \<Rightarrow> 's option" where
  "each f [] s = Some s"
| "each f (x # xs) s = Option.bind (f x s) (each f xs)"

fun until_handled :: "('a \<Rightarrow> 's \<Rightarrow> (bool \<times> 's) option) \<Rightarrow> 'a list \<Rightarrow> 's \<Rightarrow> 's option" where
  "until_handled f [] s = Some s"
| "until_handled f (x # xs) s =
     Option.bind (f x s) (\<lambda>(b, s1). if b then Some s1 else until_handled f xs s1)"

lemma slots_cases:
  assumes "i \<le> length xs" "length xs \<le> MAX_ADAPTERS" "NULL \<notin> set xs"
  shows "(i < MAX_ADAPTERS \<and> slots xs ! i \<noteq> NULL) \<longleftrightarrow> i < length xs"
proof (cases "i < length xs")
  case True
  then show ?thesis using assms by (simp add: slots_nth nth_no_null)
next
  case False
  then show ?thesis using assms slots_nth[of i xs] by (cases "i < MAX_ADAPTERS") auto
qed

lemma TO_ALL_slots:
  assumes "i \<le> length xs" "length xs \<le> MAX_ADAPTERS" "NULL \<notin> set xs"
  shows "TO_ALL_ADAPTERS i (slots xs) f s = each f (drop i xs) s"
  using assms
proof (induction "length xs - i" arbitrary: i s)
  case 0
  then show ?case by (subst TO_ALL_ADAPTERS.simps) (auto simp: slots_nth)
next
  case (Suc n)
  then have i: "i < length xs" by simp
  then have d: "drop i xs = xs ! i # drop (Suc i) xs" and n: "slots xs ! i = xs ! i"
    using Suc.prems by (simp_all add: Cons_nth_drop_Suc slots_nth)
  have r: "TO_ALL_ADAPTERS (i + 1) (slots xs) f = each f (drop (Suc i) xs)"
    using Suc.hyps(1)[of "Suc i"] Suc.hyps(2) Suc.prems i by (intro ext) simp
  have "(i < MAX_ADAPTERS \<and> slots xs ! i \<noteq> NULL) = True"
    using slots_cases[of i xs] Suc.prems i by blast
  then show ?case
    by (subst TO_ALL_ADAPTERS.simps) (simp only: if_True r d n each.simps)
qed

lemma TO_1ST_slots:
  assumes "i \<le> length xs" "length xs \<le> MAX_ADAPTERS" "NULL \<notin> set xs"
  shows "TO_1ST_HANDLING_ADAPTER i (slots xs) f s = until_handled f (drop i xs) s"
  using assms
proof (induction "length xs - i" arbitrary: i s)
  case 0
  then show ?case by (subst TO_1ST_HANDLING_ADAPTER.simps) (auto simp: slots_nth)
next
  case (Suc n)
  then have i: "i < length xs" by simp
  then have d: "drop i xs = xs ! i # drop (Suc i) xs" and n: "slots xs ! i = xs ! i"
    using Suc.prems by (simp_all add: Cons_nth_drop_Suc slots_nth)
  have r: "TO_1ST_HANDLING_ADAPTER (i + 1) (slots xs) f t = until_handled f (drop (Suc i) xs) t" for t
    using Suc.hyps(1)[of "Suc i" t] Suc.hyps(2) Suc.prems i by simp
  have "(i < MAX_ADAPTERS \<and> slots xs ! i \<noteq> NULL) = True"
    using slots_cases[of i xs] Suc.prems i by blast
  then show ?case
    by (subst TO_1ST_HANDLING_ADAPTER.simps) (simp only: if_True r d n until_handled.simps)
qed


lemma to_all_list: "adapters_ok s \<Longrightarrow> to_all ev s = each (deliver ev) (elems s) s"
  using TO_ALL_slots[of 0 "elems s"] by (simp add: to_all_def adapters_ok_def elems_no_null)

lemma to_first_list:
  "adapters_ok s \<Longrightarrow> to_first w ev s = until_handled (deliver_handled w ev) (elems s) s"
  using TO_1ST_slots[of 0 "elems s"] by (simp add: to_first_def adapters_ok_def elems_no_null)

lemma each_deliver:
  assumes "set xs \<subseteq> dom (evt_masks s)"
  shows "each (deliver ev) xs s = Some (s\<lparr>la_log := la_log s @ map (\<lambda>a. A_deliver a ev) xs\<rparr>)"
  using assms by (induction xs arbitrary: s) (auto simp: deliver_def la_call_def)

text \<open>The adapters that are asked: up to the first that handles the call.\<close>

fun asked :: "(api_base_call, bool) world \<Rightarrow> api_event \<Rightarrow> ptr list \<Rightarrow> api_base_call list \<Rightarrow> ptr list" where
  "asked w ev [] log = []"
| "asked w ev (a # as) log =
     a # (if w log (A_deliver a ev) then [] else asked w ev as (log @ [A_deliver a ev]))"

lemma until_deliver:
  assumes "set xs \<subseteq> dom (evt_masks s)"
  shows "until_handled (deliver_handled w ev) xs s =
    Some (s\<lparr>la_log := la_log s @ map (\<lambda>a. A_deliver a ev) (asked w ev xs (la_log s))\<rparr>)"
  using assms
  by (induction xs arbitrary: s) (auto simp: deliver_handled_def deliver_def la_call_def)

text \<open>The events that the adapters want and that are not excluded.\<close>

definition wanted :: "loc_api \<Rightarrow> u64" where
  "wanted s = fold (\<lambda>a m. m OR the (evt_masks s a)) (elems s) 0 AND NOT (mExcludedMask s)"

lemma each_or:
  assumes "set xs \<subseteq> dom f"
  shows "each (\<lambda>a m. Option.bind (f a) (\<lambda>e. Some (m OR e))) xs m = Some (fold (\<lambda>a m. m OR the (f a)) xs m)"
  using assms by (induction xs arbitrary: m) auto

lemma getEvtMask_list:
  assumes "adapters_ok s" "set (elems s) \<subseteq> dom (evt_masks s)"
  shows "getEvtMask s = Some (wanted s)"
  using assms TO_ALL_slots[of 0 "elems s" "\<lambda>a m. Option.bind (evt_masks s a) (\<lambda>e. Some (m OR e))" 0]
  by (simp add: getEvtMask_def adapters_ok_def elems_no_null each_or wanted_def)

lemma bit_fold_or:
  "bit (fold (\<lambda>a m. m OR f a) xs m) n \<longleftrightarrow> bit m n \<or> (\<exists>a \<in> set xs. bit (f a) n)" for m :: u64
  by (induction xs arbitrary: m) (auto simp: bit_or_iff)

section \<open>Runs\<close>

definition api_inv :: "loc_api \<Rightarrow> bool" where
  "api_inv s \<longleftrightarrow> adapters_ok s \<and> set (elems s) \<subseteq> dom (evt_masks s) \<and> evt_masks s NULL = None"

fun is_modem :: "api_base_call \<Rightarrow> bool" where
  "is_modem (A_open m) = True"
| "is_modem A_close = True"
| "is_modem _ = False"

text \<open>The mask the modem is open with, or none if it was closed or not opened.\<close>

definition open_mask :: "api_base_call list \<Rightarrow> u64 option" where
  "open_mask log = (case find is_modem (rev log) of Some (A_open m) \<Rightarrow> Some m | _ \<Rightarrow> None)"

lemma open_mask_append [simp]:
  "open_mask (log @ [A_open m]) = Some m" "open_mask (log @ [A_close]) = None"
  "open_mask (log @ [A_injectFeatureConfig]) = open_mask log"
  "open_mask (log @ [A_deliver a ev]) = open_mask log"
  by (simp_all add: open_mask_def)

lemma open_mask_deliver [simp]:
  "open_mask (log @ map (\<lambda>a. A_deliver a ev) xs) = open_mask log"
  by (induction xs rule: rev_induct) (simp_all add: open_mask_append(4) flip: append_assoc)

definition in_sync :: "loc_api \<Rightarrow> bool" where
  "in_sync s \<longleftrightarrow> la_queue s \<noteq> [] \<or> elems s = [] \<or> open_mask (la_log s) = Some (wanted s)"

lemma wanted_cong:
  assumes "elems t = elems s" "mExcludedMask t = mExcludedMask s"
    "\<And>a. a \<in> set (elems s) \<Longrightarrow> evt_masks t a = evt_masks s a"
  shows "wanted t = wanted s"
proof -
  have "fold (\<lambda>a m. m OR the (evt_masks t a)) (elems s) 0 = fold (\<lambda>a m. m OR the (evt_masks s a)) (elems s) 0"
    using assms(3) by (intro fold_cong) auto
  then show ?thesis by (simp add: wanted_def assms(1,2))
qed

text \<open>A state that only got more deliveries in its log.\<close>

lemma modem_report_deliveries:
  assumes "api_inv s"
  shows "\<exists>as q c. modem_report w ev s =
      Some (s\<lparr>la_log := la_log s @ c @ map (\<lambda>a. A_deliver a ev) as, la_queue := la_queue s @ q\<rparr>) \<and>
      set as \<subseteq> set (elems s) \<and> c \<in> {[], [A_injectFeatureConfig]}"
proof -
  have ok: "adapters_ok s" and d: "set (elems s) \<subseteq> dom (evt_masks s)" using assms by (auto simp: api_inv_def)
  have all: "\<exists>as q c. to_all ev s =
      Some (s\<lparr>la_log := la_log s @ c @ map (\<lambda>a. A_deliver a ev) as, la_queue := la_queue s @ q\<rparr>) \<and>
      set as \<subseteq> set (elems s) \<and> c \<in> {[], [A_injectFeatureConfig]}"
    using d by (intro exI[of _ "elems s"] exI[of _ "[]"]) (simp add: to_all_list[OF ok] each_deliver)
  have sub: "set (asked w ev xs log) \<subseteq> set xs" for xs log by (induction xs arbitrary: log) auto
  have first: "\<exists>as q c. to_first w ev s =
      Some (s\<lparr>la_log := la_log s @ c @ map (\<lambda>a. A_deliver a ev) as, la_queue := la_queue s @ q\<rparr>) \<and>
      set as \<subseteq> set (elems s) \<and> c \<in> {[], [A_injectFeatureConfig]}"
    using d sub
    by (intro exI[of _ "asked w ev (elems s) (la_log s)"] exI[of _ "[]"])
      (simp add: to_first_list[OF ok] until_deliver)
  show ?thesis
  proof (cases "ev = EvEngineUp")
    case True
    let ?t = "la_call A_injectFeatureConfig (la_send LocSsrMsg s)"
    have "elems ?t = elems s" by (simp add: elems_def)
    moreover have "adapters_ok ?t" using ok adapters_ok_cong[of ?t s] by simp
    ultimately have "modem_report w ev s = each (deliver ev) (elems s) ?t"
      using True by (simp add: to_all_list)
    then show ?thesis using d
      by (intro exI[of _ "elems s"] exI[of _ "[LocSsrMsg]"] exI[of _ "[A_injectFeatureConfig]"])
        (simp add: each_deliver la_call_def la_send_def)
  next
    case False
    then show ?thesis using all first by (cases ev) simp_all
  qed
qed


text \<open>What keeps the invariants: the array, the masks of registered adapters and the exclusion.\<close>

lemma api_inv_cong:
  "mLocAdapters t = mLocAdapters s \<Longrightarrow> evt_masks t = evt_masks s \<Longrightarrow> api_inv t = api_inv s"
  using adapters_ok_cong[of t s] elems_cong[of t s] by (simp add: api_inv_def)

lemma LocAdapterBase_new_inv:
  assumes "api_inv s" "a \<noteq> NULL" "evt_masks s a = None"
  shows "api_inv (LocAdapterBase_new a m s)"
proof -
  let ?s = "s\<lparr>evt_masks := (evt_masks s)(a \<mapsto> m)\<rparr>"
  have e: "elems ?s = elems s" by (simp add: elems_def)
  have ok: "adapters_ok ?s" using assms(1) adapters_ok_cong[of ?s s] by (simp add: api_inv_def)
  have "set (elems (addAdapter a ?s)) \<subseteq> insert a (dom (evt_masks s))"
    using assms(1) by (intro adapters.registered_exist_add[OF ok assms(2)]) (simp add: e api_inv_def)
  moreover have "evt_masks (addAdapter a ?s) = (evt_masks s)(a \<mapsto> m)"
    by (simp add: addAdapter_list[OF ok assms(2)])
  ultimately show ?thesis
    using adapters_ok_add[OF ok assms(2)] assms
    by (simp add: api_inv_def LocAdapterBase_new_def)
qed

lemma LocAdapterBase_new_sync:
  assumes "api_inv s" "a \<noteq> NULL" "evt_masks s a = None" "in_sync s"
  shows "in_sync (LocAdapterBase_new a m s)"
proof -
  let ?s = "s\<lparr>evt_masks := (evt_masks s)(a \<mapsto> m)\<rparr>"
  have e: "elems ?s = elems s" by (simp add: elems_def)
  have ok: "adapters_ok ?s" using assms(1) adapters_ok_cong[of ?s s] by (simp add: api_inv_def)
  have "a \<notin> set (elems s)" using assms(1,3) by (auto simp: api_inv_def)
  then have "wanted ?s = wanted s" using e by (intro wanted_cong) auto
  then show ?thesis
    using assms(4) e
    by (auto simp: LocAdapterBase_new_def addAdapter_list[OF ok assms(2)] in_sync_def)
qed

lemma LocAdapterBase_delete_inv:
  assumes "api_inv s"
  shows "api_inv (LocAdapterBase_delete a s)"
proof -
  have ok: "adapters_ok s" using assms by (simp add: api_inv_def)
  let ?r = "removeAdapter a s" and ?d = "LocAdapterBase_delete a s"
  have "adapters_ok ?d" "elems ?d = elems ?r"
    using adapters_ok_remove[OF ok, of a] adapters_ok_cong[of ?d ?r] elems_cong[of ?d ?r]
    by (simp_all add: LocAdapterBase_delete_def)
  moreover have "set (elems ?r) \<subseteq> dom (evt_masks s) - {a}"
    using assms by (intro adapters.registered_exist_remove[OF ok]) (simp add: api_inv_def)
  ultimately show ?thesis using assms by (auto simp: api_inv_def LocAdapterBase_delete_def)
qed

lemma LocAdapterBase_delete_sync:
  assumes "api_inv s" "in_sync s"
  shows "in_sync (LocAdapterBase_delete a s)"
proof (cases "a \<in> set (elems s)")
  case True
  have ok: "adapters_ok s" using assms(1) by (simp add: api_inv_def)
  have "elems (LocAdapterBase_delete a s) = swap_out a (elems s)"
    using elems_cong[of "LocAdapterBase_delete a s" "removeAdapter a s"] True elems_remove[OF ok, of a]
    by (simp add: LocAdapterBase_delete_def)
  then show ?thesis
    using True
    by (simp add: in_sync_def LocAdapterBase_delete_def removeAdapter_list[OF ok] after_removal_def)
next
  case False
  have ok: "adapters_ok s" using assms(1) by (simp add: api_inv_def)
  let ?t = "s\<lparr>evt_masks := (evt_masks s)(a := None)\<rparr>"
  have t: "LocAdapterBase_delete a s = ?t"
    using False by (simp add: LocAdapterBase_delete_def removeAdapter_list[OF ok])
  have e: "elems ?t = elems s" by (simp add: elems_def)
  then have "wanted ?t = wanted s" using False by (intro wanted_cong) auto
  then show ?thesis using assms(2) e by (simp add: t in_sync_def)
qed

lemma open_in_sync:
  assumes "api_inv s"
  shows "\<exists>t. Option.bind (getEvtMask s) (\<lambda>m. Some (la_call (A_open m) s)) = Some t \<and> api_inv t \<and> in_sync t"
proof -
  let ?t = "la_call (A_open (wanted s)) s"
  have "getEvtMask s = Some (wanted s)" using assms by (intro getEvtMask_list) (auto simp: api_inv_def)
  moreover have "wanted ?t = wanted s" by (intro wanted_cong elems_cong) simp_all
  then have "in_sync ?t" by (simp add: in_sync_def)
  moreover have "api_inv ?t" using assms api_inv_cong[of ?t s] by simp
  ultimately show ?thesis by simp
qed

lemma loc_api_step_inv:
  assumes inv: "api_inv s" "in_sync s"
  shows "\<exists>t. loc_api_step w e s = Some t \<and> api_inv t \<and> in_sync t"
proof (cases e)
  case (LaNew a m)
  then show ?thesis using inv LocAdapterBase_new_inv LocAdapterBase_new_sync by simp
next
  case (LaDelete a)
  then show ?thesis using inv LocAdapterBase_delete_inv LocAdapterBase_delete_sync by simp
next
  case (LaUpdateMask a event status)
  show ?thesis
  proof (cases "evt_masks s a")
    case None
    then show ?thesis using inv LaUpdateMask by simp
  next
    case (Some m)
    let ?t = "s\<lparr>evt_masks := (evt_masks s)(a \<mapsto> new_mask status event m)\<rparr>"
    have "elems ?t = elems s" by (simp add: elems_def)
    moreover have "adapters_ok ?t" using inv adapters_ok_cong[of ?t s] by (simp add: api_inv_def)
    moreover have "a \<noteq> NULL" using inv Some by (intro notI) (simp add: api_inv_def)
    ultimately have "api_inv ?t" using inv by (simp add: api_inv_def subset_insertI2)
    from open_in_sync[OF this] show ?thesis
      using LaUpdateMask Some by (simp add: adapter_updateEvtMask_def updateEvtMask_def)
  qed
next
  case (LaReport ev)
  from modem_report_deliveries[OF inv(1), of w ev] obtain as q c where
    t: "modem_report w ev s = Some (s\<lparr>la_log := la_log s @ c @ map (\<lambda>a. A_deliver a ev) as, la_queue := la_queue s @ q\<rparr>)"
      "c \<in> {[], [A_injectFeatureConfig]}" by blast
  let ?t = "s\<lparr>la_log := la_log s @ c @ map (\<lambda>a. A_deliver a ev) as, la_queue := la_queue s @ q\<rparr>"
  have "open_mask (la_log ?t) = open_mask (la_log s)"
    using t(2) open_mask_deliver[of "la_log s @ c"] by auto
  moreover have e: "elems ?t = elems s" by (simp add: elems_def)
  moreover have "wanted ?t = wanted s" using e by (intro wanted_cong) auto
  ultimately have "in_sync ?t" using inv(2) by (auto simp: in_sync_def)
  moreover have "api_inv ?t" using inv(1) api_inv_cong[of ?t s] by simp
  ultimately show ?thesis using t(1) LaReport by simp
next
  case (LaSupportedMsgs l)
  let ?t = "saveSupportedMsgList l s"
  have "wanted ?t = wanted s" "elems ?t = elems s"
    by (auto intro!: wanted_cong elems_cong simp: saveSupportedMsgList_def)
  then show ?thesis
    using inv api_inv_cong[of ?t s] LaSupportedMsgs by (simp add: saveSupportedMsgList_def in_sync_def)
next
  case (LaSupportedFeatures l)
  let ?t = "saveSupportedFeatureList l s"
  have "wanted ?t = wanted s" "elems ?t = elems s"
    by (auto intro!: wanted_cong elems_cong simp: saveSupportedFeatureList_def)
  then show ?thesis
    using inv api_inv_cong[of ?t s] LaSupportedFeatures by (simp add: saveSupportedFeatureList_def in_sync_def)
next
  case LaProcess
  show ?thesis
  proof (cases "la_queue s")
    case Nil
    then show ?thesis using inv LaProcess by simp
  next
    case (Cons m ms)
    let ?t = "s\<lparr>la_queue := ms\<rparr>"
    have i: "api_inv ?t" "api_inv (la_call A_close ?t)"
      using inv(1) api_inv_cong[of ?t s] api_inv_cong[of "la_call A_close ?t" s] by simp_all
    show ?thesis
      using open_in_sync[OF i(1)] open_in_sync[OF i(2)] LaProcess Cons by (cases m) (simp_all add: Let_def)
  qed
qed

lemma loc_api_init_fields [simp]:
  "evt_masks (loc_api_init ex) = Map.empty" "la_queue (loc_api_init ex) = []"
  "la_log (loc_api_init ex) = []" "mExcludedMask (loc_api_init ex) = ex"
  by (simp_all add: loc_api_init_def)

lemma loc_api_init_inv: "api_inv (loc_api_init ex)" "in_sync (loc_api_init ex)"
proof -
  have "elems (loc_api_init ex) = []" by (simp add: elems_def loc_api_init_def MAX_ADAPTERS_def)
  then show "api_inv (loc_api_init ex)" "in_sync (loc_api_init ex)"
    by (simp_all add: api_inv_def in_sync_def adapters_ok_def slots_def) (simp_all add: loc_api_init_def)
qed

lemma loc_api_run_inv:
  "api_inv s \<Longrightarrow> in_sync s \<Longrightarrow> \<exists>t. loc_api_run w es s = Some t \<and> api_inv t \<and> in_sync t"
proof (induction es arbitrary: s)
  case (Cons e es)
  then show ?case using loc_api_step_inv[of s w e] by fastforce
qed simp

lemma loc_api_step_excluded:
  assumes "loc_api_step w e s = Some t" "api_inv s"
  shows "mExcludedMask t = mExcludedMask s"
proof -
  have "mExcludedMask (LocAdapterBase_new a m s) = mExcludedMask s" if "a \<noteq> NULL" for a m
    using assms(2) that adapters_ok_cong[of "s\<lparr>evt_masks := (evt_masks s)(a \<mapsto> m)\<rparr>" s]
    by (simp add: LocAdapterBase_new_def addAdapter_list api_inv_def)
  moreover have "mExcludedMask (LocAdapterBase_delete a s) = mExcludedMask s" for a
    using assms(2) by (simp add: LocAdapterBase_delete_def removeAdapter_list api_inv_def)
  moreover have "mExcludedMask t = mExcludedMask s" if "modem_report w ev s = Some t" for ev
    using modem_report_deliveries[OF assms(2), of w ev] that by auto
  moreover have "mExcludedMask t = mExcludedMask r" if "api_msg_proc m r = Some t" for m r
    using that by (cases m) (auto simp: Let_def bind_eq_Some_conv)
  ultimately show ?thesis
    using assms(1)
    by (cases e) (auto simp: adapter_updateEvtMask_def updateEvtMask_def bind_eq_Some_conv
        saveSupportedMsgList_def saveSupportedFeatureList_def split: if_splits list.splits)
qed

lemma loc_api_run_excluded:
  "loc_api_run w es s = Some t \<Longrightarrow> api_inv s \<Longrightarrow> in_sync s \<Longrightarrow> mExcludedMask t = mExcludedMask s"
proof (induction es arbitrary: s)
  case (Cons e es)
  from loc_api_step_inv[OF Cons.prems(2,3), of w e] obtain u where
    u: "loc_api_step w e s = Some u" "api_inv u" "in_sync u" by blast
  then have "mExcludedMask t = mExcludedMask u" using Cons.prems(1) by (intro Cons.IH) auto
  then show ?case using loc_api_step_excluded[OF u(1) Cons.prems(2)] by simp
qed simp

lemma bit_wanted:
  "bit (wanted s) n \<longleftrightarrow> \<not> bit (mExcludedMask s) n \<and> (\<exists>a \<in> set (elems s). bit (the (evt_masks s a)) n)"
  by (auto simp: wanted_def bit_fold_or bit_simps dest: bit_imp_le_length)

lemma adapter_table_removed:
  assumes "api_inv s" "elems s = [a]"
  shows "elems ((removeAdapter a s)\<lparr>evt_masks := x\<rparr>) = []" "la_queue (removeAdapter a s) = la_queue s"
    "la_log (removeAdapter a s) = la_log s @ [A_close]"
proof -
  have ok: "adapters_ok s" using assms(1) by (simp add: api_inv_def)
  show "la_queue (removeAdapter a s) = la_queue s" "la_log (removeAdapter a s) = la_log s @ [A_close]"
    using assms(2) by (simp_all add: removeAdapter_list[OF ok] after_removal_def)
  show "elems ((removeAdapter a s)\<lparr>evt_masks := x\<rparr>) = []"
    using elems_remove[OF ok, of a] assms(2) by (simp add: elems_def)
qed

text \<open>The events that go to every adapter.\<close>

fun to_everyone :: "api_event \<Rightarrow> bool" where
  "to_everyone EvEngineUp = True"
| "to_everyone EvEngineDown = True"
| "to_everyone (EvPosition g e status techMask) = True"
| "to_everyone (EvSv svs) = True"
| "to_everyone (EvSvMeasurement m) = True"
| "to_everyone (EvSvPolynomial p) = True"
| "to_everyone (EvStatus st) = True"
| "to_everyone (EvNmea n) = True"
| "to_everyone (EvGnssMeasurementData m t) = True"
| "to_everyone ev = False"

section \<open>Properties\<close>

text \<open>
  C26: Whatever is constructed, destroyed, reported and handled in whatever order, the table of adapters
  has no repetitions and holds existing adapters only, so that no report follows the pointer of one
  that was destroyed; and when no message waits and there are adapters, the modem is open for exactly
  the events that one of them wants and that are not excluded.
\<close>

theorem modem_open_for_adapters:
  "\<exists>t. loc_api_run w es (loc_api_init ex) = Some t \<and> distinct (elems t) \<and>
     set (elems t) \<subseteq> dom (evt_masks t) \<and>
     (la_queue t \<noteq> [] \<or> elems t = [] \<or>
      (\<exists>m. open_mask (la_log t) = Some m \<and>
         (\<forall>n. bit m n \<longleftrightarrow> \<not> bit ex n \<and> (\<exists>a \<in> set (elems t). bit (the (evt_masks t a)) n))))"
proof -
  from loc_api_run_inv[OF loc_api_init_inv] obtain t where
    t: "loc_api_run w es (loc_api_init ex) = Some t" "api_inv t" "in_sync t" by blast
  moreover have "mExcludedMask t = ex"
    using loc_api_run_excluded[OF t(1) loc_api_init_inv] by (simp add: loc_api_init_def)
  ultimately show ?thesis by (auto simp: api_inv_def adapters_ok_def in_sync_def bit_wanted)
qed

theorem modem_open_for_adapters_witness:
  "\<exists>t m. loc_api_run (\<lambda>log c. True) [LaNew 1 5, LaProcess] (loc_api_init 4) = Some t \<and>
     elems t = [1] \<and> open_mask (la_log t) = Some m \<and> bit m 0 \<and> \<not> bit m 2"
proof -
  let ?r = "loc_api_run (\<lambda>log c. True) [LaNew 1 5, LaProcess] (loc_api_init 4)"
  from modem_open_for_adapters[of "\<lambda>log c. True" "[LaNew 1 5, LaProcess]" 4] obtain t where
    t: "?r = Some t" and m: "la_queue t \<noteq> [] \<or> elems t = [] \<or>
      (\<exists>m. open_mask (la_log t) = Some m \<and>
         (\<forall>n. bit m n \<longleftrightarrow> \<not> bit (4 :: u64) n \<and> (\<exists>a \<in> set (elems t). bit (the (evt_masks t a)) n)))"
    by blast
  have "map_option (\<lambda>t. (la_queue t, elems t, evt_masks t 1)) ?r = Some ([], [1], Some 5)"
    by code_simp
  then have "la_queue t = []" "elems t = [1]" "evt_masks t 1 = Some 5" using t by simp_all
  then show ?thesis using t m by (auto simp: bit_numeral_rec)
qed

text \<open>
  C27: A report goes to every adapter once, in the order of the table; a request goes to the adapters up
  to the first that says it handled it, and no further.
\<close>

theorem modem_reports_delivered:
  assumes "loc_api_run w es (loc_api_init ex) = Some s"
  shows "modem_report w ev s =
    Some (s\<lparr>la_log := la_log s @ (if ev = EvEngineUp then [A_injectFeatureConfig] else []) @
              map (\<lambda>a. A_deliver a ev)
                (if to_everyone ev then elems s else asked w ev (elems s) (la_log s)),
            la_queue := la_queue s @ (if ev = EvEngineUp then [LocSsrMsg] else [])\<rparr>)"
proof -
  have inv: "api_inv s" using assms loc_api_run_inv[OF loc_api_init_inv, of w es ex] by auto
  then have ok: "adapters_ok s" and d: "set (elems s) \<subseteq> dom (evt_masks s)" by (auto simp: api_inv_def)
  let ?t = "la_call A_injectFeatureConfig (la_send LocSsrMsg s)"
  have t: "elems ?t = elems s" "adapters_ok ?t"
    using ok adapters_ok_cong[of ?t s] by (simp_all add: elems_def)
  show ?thesis
    using d by (cases ev) (simp_all add: to_all_list[OF ok] to_all_list[OF t(2)] to_first_list[OF ok]
        t(1) each_deliver until_deliver, simp_all add: la_call_def la_send_def)
qed

theorem modem_reports_delivered_witness:
  "map_option la_log
     (Option.bind (loc_api_run (\<lambda>log c. c = A_deliver 2 EvTime) [LaNew 1 0, LaNew 2 0, LaNew 3 0] (loc_api_init 0))
        (modem_report (\<lambda>log c. c = A_deliver 2 EvTime) EvTime)) =
   Some [A_deliver 1 EvTime, A_deliver 2 EvTime]"
proof -
  let ?w = "\<lambda>log c. c = A_deliver 2 EvTime"
  let ?r = "loc_api_run ?w [LaNew 1 0, LaNew 2 0, LaNew 3 0] (loc_api_init 0)"
  have r: "map_option (\<lambda>t. (la_log t, elems t)) ?r = Some ([], [1, 2, 3])"
    by (simp add: LocAdapterBase_new_def addAdapter_def addAdapter_from.simps loc_api_init_def
        MAX_ADAPTERS_def la_send_def elems_def eval_nat_numeral)
  then obtain s where s: "?r = Some s" "la_log s = []" "elems s = [1, 2, 3]" by auto
  show ?thesis using modem_reports_delivered[OF s(1), of EvTime] s by simp
qed

text \<open>
  The table behaves as a list: a new adapter goes to the end unless the table is full, and the last
  adapter takes the place of one that is removed. The modem is closed when the last one goes, and
  otherwise a message is sent to open it anew.
\<close>

theorem adapter_table_refines:
  assumes "loc_api_run w es (loc_api_init ex) = Some s" "a \<noteq> NULL"
  shows "elems (addAdapter a s) =
      (if a \<in> set (elems s) \<or> length (elems s) = MAX_ADAPTERS then elems s else elems s @ [a]) \<and>
    elems (removeAdapter a s) = swap_out a (elems s) \<and>
    la_queue (removeAdapter a s) =
      la_queue s @ (if a \<in> set (elems s) \<and> elems s \<noteq> [a] then [LocOpenMsg] else []) \<and>
    la_log (removeAdapter a s) = la_log s @ (if elems s = [a] then [A_close] else [])"
proof -
  have inv: "api_inv s" using assms(1) loc_api_run_inv[OF loc_api_init_inv, of w es ex] by auto
  then have ok: "adapters_ok s" by (simp add: api_inv_def)
  have "a \<notin> set xs \<Longrightarrow> swap_out a xs = xs" for xs by (induction xs) auto
  moreover have "swap_out a xs = [] \<longleftrightarrow> xs = [] \<or> xs = [a]" for xs by (cases xs) auto
  ultimately show ?thesis
    using elems_add[OF ok assms(2)] elems_remove[OF ok, of a]
    by (auto simp: removeAdapter_list[OF ok] after_removal_def)
qed

theorem adapter_table_refines_witness:
  "\<exists>s. loc_api_run (\<lambda>log c. False) [LaNew 1 0, LaNew 2 0, LaNew 3 0] (loc_api_init 0) = Some s \<and>
     elems (removeAdapter 1 s) = [3, 2]"
proof -
  let ?r = "loc_api_run (\<lambda>log c. False) [LaNew 1 0, LaNew 2 0, LaNew 3 0] (loc_api_init 0)"
  have r: "map_option elems ?r = Some [1, 2, 3]"
    by (simp add: LocAdapterBase_new_def addAdapter_def addAdapter_from.simps loc_api_init_def
        MAX_ADAPTERS_def la_send_def elems_def eval_nat_numeral)
  then obtain s where s: "?r = Some s" "elems s = [1, 2, 3]" by auto
  have "elems (removeAdapter 1 s) = swap_out 1 (elems s)"
    using adapter_table_refines[OF s(1), of 1] by simp
  then show ?thesis using s by simp
qed

text \<open>
  Removing the only adapter closes the modem, but a message to open it that was sent when the
  adapter was added, and not handled before, opens it again, for no events.
\<close>

theorem removal_reopens_modem:
  "map_option la_log (loc_api_run w [LaNew a m, LaDelete a, LaProcess] (loc_api_init ex)) =
     (if a = NULL then Some [] else Some [A_close, A_open 0])"
proof (cases "a = NULL")
  case True
  then show ?thesis by (simp add: loc_api_init_def)
next
  case False
  let ?i = "loc_api_init ex\<lparr>evt_masks := [a \<mapsto> m]\<rparr>" and ?s = "LocAdapterBase_new a m (loc_api_init ex)"
  have i: "elems ?i = []" "adapters_ok ?i"
    by (simp_all add: elems_def loc_api_init_def MAX_ADAPTERS_def adapters_ok_def slots_def)
  have new: "?s = la_send LocOpenMsg (?i\<lparr>mLocAdapters := slots [a]\<rparr>)"
    using addAdapter_list[OF i(2) False] by (simp add: LocAdapterBase_new_def i(1)) (simp add: MAX_ADAPTERS_def)
  have s: "api_inv ?s" using False loc_api_init_inv
    by (intro LocAdapterBase_new_inv) simp_all
  have q: "la_queue ?s = [LocOpenMsg]" "la_log ?s = []" by (simp_all add: new)
  have e: "elems ?s = [a]" using False by (intro elems_of_slots) (simp_all add: new)
  let ?d = "LocAdapterBase_delete a ?s"
  have d: "elems ?d = []" "api_inv ?d" "la_queue ?d = [LocOpenMsg]" "la_log ?d = [A_close]"
    using e s adapter_table_removed[of ?s a] LocAdapterBase_delete_inv[OF s, of a]
    by (simp_all add: LocAdapterBase_delete_def q)
  have "getEvtMask (?d\<lparr>la_queue := []\<rparr>) = Some 0"
    using d api_inv_cong[of "?d\<lparr>la_queue := []\<rparr>" ?d] elems_cong[of "?d\<lparr>la_queue := []\<rparr>" ?d]
    by (subst getEvtMask_list) (simp_all add: api_inv_def wanted_def)
  moreover have "evt_masks ?s a \<noteq> None" by (simp add: new)
  ultimately show ?thesis
    using False d(3,4) by simp
qed


section \<open>What the modem supports, and text of addresses\<close>

lemma isMessageSupported_bit: "isMessageSupported i s \<longleftrightarrow> bit (mSupportedMsg s) (msg_number i)"
proof -
  define k where "k = msg_number i"
  have k: "k < 8" unfolding k_def by (cases i) simp_all
  have "ucast (2 ^ k :: u32) AND m = (ucast (2 ^ k :: u32) :: u64) \<longleftrightarrow> bit m k" for m :: u64
  proof -
    have b: "bit (ucast (2 ^ k :: u32) :: u64) n \<longleftrightarrow> n = k" for n
      using k by (auto simp: bit_simps)
    show ?thesis
    proof
      assume "ucast (2 ^ k :: u32) AND m = (ucast (2 ^ k :: u32) :: u64)"
      then show "bit m k" using b by (metis bit_and_iff)
    next
      assume "bit m k"
      then show "ucast (2 ^ k :: u32) AND m = (ucast (2 ^ k :: u32) :: u64)"
        by (intro bit_word_eqI) (auto simp: bit_and_iff b)
    qed
  qed
  then show ?thesis using k by (simp add: isMessageSupported_def k_def Let_def)
qed

lemma isFeatureSupported_bit:
  "length l = MAX_FEATURE_LENGTH \<Longrightarrow>
   isFeatureSupported f (saveSupportedFeatureList l s) \<longleftrightarrow> bit (l ! (unat f div 8)) (unat f mod 8)"
proof -
  assume l: "length l = MAX_FEATURE_LENGTH"
  have a: "unat (drop_bit 3 f) = unat f div 8" by (simp add: drop_bit_eq_div unat_div)
  have "f AND 7 = take_bit 3 f" by (simp add: take_bit_eq_mask mask_eq_exp_minus_1)
  then have b: "unat (f AND 7) = unat f mod 8" by (simp add: unat_mod take_bit_eq_mod)
  have "unat f < 256" using unsigned_less[of f] by simp
  then have "unat f div 8 < MAX_FEATURE_LENGTH" by (simp add: MAX_FEATURE_LENGTH_def)
  moreover have "drop_bit n x AND 1 \<noteq> 0 \<longleftrightarrow> bit x n" for x :: u8 and n
    by (simp add: and_one_eq bit_iff_odd_drop_bit mod2_eq_if)
  ultimately show ?thesis
    using l by (simp add: isFeatureSupported_def saveSupportedFeatureList_def a b Let_def)
qed

text \<open>Digits as a modem packs them into bytes, the first one low, filled up with \<open>0xF\<close>.\<close>

fun bcd :: "u8 list \<Rightarrow> u8 list" where
  "bcd [] = []"
| "bcd [d] = [0xF0 OR d]"
| "bcd (d # e # ds) = (push_bit 4 e OR d) # bcd ds"

lemma nibble: "d \<le> 15 \<Longrightarrow> bit d n \<Longrightarrow> n < 4" for d :: u8
proof (rule ccontr)
  assume d: "d \<le> 15" and b: "bit d n" and "\<not> n < 4"
  then have "2 ^ 4 \<le> (2 :: nat) ^ n" by (intro power_increasing) auto
  moreover have "unat d \<le> 15" using d unat_mono[of d 16] by (simp add: word_le_nat_alt)
  moreover have "bit (unat d) n" using b by (simp add: bit_unsigned_iff)
  ultimately show False by (simp add: bit_iff_odd)
qed

lemma packed_digits:
  fixes d e :: u8
  assumes "d \<le> 15" "e \<le> 15"
  shows "drop_bit 4 (push_bit 4 e OR d) = e" "(push_bit 4 e OR d) AND 0x0F = d"
proof -
  have m: "(0x0F :: u8) = mask 4" by (simp add: mask_eq_exp_minus_1)
  show "drop_bit 4 (push_bit 4 e OR d) = e"
    using nibble[OF assms(1)] nibble[OF assms(2)]
    by (intro bit_word_eqI) (fastforce simp: bit_simps)
  show "(push_bit 4 e OR d) AND 0x0F = d"
    unfolding m using nibble[OF assms(1)] by (intro bit_word_eqI) (auto simp: bit_simps)
qed

lemma last_digit:
  fixes d :: u8
  assumes "d \<le> 15"
  shows "(0xF0 OR d) AND 0x0F = d" "drop_bit 4 (0xF0 OR d) = 0x0F"
proof -
  have "push_bit 4 0x0F = (0xF0 :: u8)" by (simp add: push_bit_eq_mult)
  then show "(0xF0 OR d) AND 0x0F = d" "drop_bit 4 (0xF0 OR d) = 0x0F"
    using packed_digits[OF assms, of 15] by simp_all
qed

lemma decode_bcd:
  assumes "\<forall>d \<in> set ds. d \<le> 9" "k + length ds < length buf"
  shows "decode_loop (bcd ds) (buf, k) =
    (take k buf @ map (\<lambda>d. d + 48) ds @ drop (k + length ds) buf, k + length ds)"
  using assms
proof (induction ds arbitrary: buf k rule: bcd.induct)
  case (2 d)
  then have "d \<le> 15" using order_trans[of d 9 15] by simp
  from last_digit[OF this] show ?case using 2
    by (simp add: put_digit_def upd_conv_take_nth_drop)
next
  case (3 d e ds)
  have le: "d \<le> 15" "e \<le> 15"
    using order_trans[of d 9 15] order_trans[of e 9 15] 3(2) by simp_all
  have "int k < int (length buf) - 1" "int (k + 1) < int (length buf) - 1" using 3(3) by simp_all
  then have s: "decode_loop (bcd (d # e # ds)) (buf, k) =
      decode_loop (bcd ds) (buf[k := d + 48, k + 1 := e + 48], k + 2)"
    unfolding bcd.simps decode_loop.simps packed_digits[OF le]
    using 3(2) by (simp add: put_digit_def)
  have "take (k + 2) (buf[k := d + 48, k + 1 := e + 48]) = take k buf @ [d + 48, e + 48]"
    using 3(3) by (intro nth_equalityI) (auto simp: nth_append nth_list_update less_Suc_eq)
  then show ?case
    unfolding s using 3 by (subst 3(1)) auto
qed simp

text \<open>
  An address of decimal digits is decoded if the buffer has room for it and the terminator; the
  store stays in the buffer.
\<close>

theorem address_roundtrip:
  assumes "\<forall>d \<in> set ds. d \<le> 9" "length ds < length buf"
  shows "decodeAddress (Some (0x91 # bcd ds)) (Some buf) =
    Some (Some (map (\<lambda>d. d + 48) ds @ [0] @ drop (length ds + 1) buf), length ds)"
proof -
  have "(map (\<lambda>d. d + 48) ds @ drop (length ds) buf)[length ds := 0] =
      map (\<lambda>d. d + 48) ds @ [0] @ drop (length ds + 1) buf"
    using assms(2) by (simp add: list_update_append upd_conv_take_nth_drop)
  then show ?thesis
    using decode_bcd[OF assms(1), of 0 buf] assms(2)
    by (simp add: decodeAddress_def terminate_at_def)
qed

theorem address_roundtrip_witness:
  "decodeAddress (Some [0x91, 0x21, 0x43, 0xF5]) (Some (replicate 8 7)) = Some (Some [49, 50, 51, 52, 53, 0, 7, 7], 5)"
proof -
  have "bcd [1, 2, 3, 4, 5] = [0x21, 0x43, 0xF5]" by code_simp
  moreover have "replicate 8 7 = [7, 7, 7, 7, 7, 7, 7, 7 :: u8]" by code_simp
  ultimately show ?thesis using address_roundtrip[of "[1, 2, 3, 4, 5]" "replicate 8 7"] by simp
qed

text \<open>
  Where \<open>char\<close> is signed, a byte from \<open>0x80\<close> on is printed as \<open>FF\<close>, whatever its value.
\<close>

theorem hexcode_signed_char:
  "0x80 \<le> ch \<Longrightarrow> hexcode True 3 [ch] [0, 0, 0] = ([70, 70, 0], 1)"
  by (simp add: hexcode_def hex_byte_def write_at_def)

end
