(* ===== verification/Loc_Cfg.thy ===== *)
theory Loc_Cfg
  imports C_Strings
begin

unbundle bit_operations_syntax

text \<open>
  The configuration files of the location stack: \<open>gps/utils/loc_cfg.cpp\<close> and the string helpers of
  \<open>loc_misc_utils.cpp\<close>. A file has lines \<open>NAME = VALUE\<close>; a table says for each name the variable that
  takes the value and its type.

  The variables are cells of a memory, named as in the source. A text that does not fit the variable
  with its terminating zero is recorded as an overrun; what it does to the memory behind the variable is not
  modelled. The values of floating-point numbers are bit patterns that \<open>atof\<close>, an argument, gives.
\<close>

section \<open>Spaces and splitting\<close>

text \<open>
  The loop of \<open>loc_util_trim_space\<close>: what was written from the first non-space character on, and the
  length up to the last one, if there was any.
\<close>

fun trim_scan :: "string \<Rightarrow> string \<Rightarrow> nat option \<Rightarrow> string \<times> nat option" where
  "trim_scan [] written last_nonspace = (written, last_nonspace)"
| "trim_scan (c # cs) written last_nonspace =
     (if isspace c \<and> last_nonspace = None then trim_scan cs written last_nonspace
      else let written1 = written @ [c]
           in trim_scan cs written1 (if isspace c then last_nonspace else Some (length written1)))"

definition loc_util_trim_space :: "string \<Rightarrow> string" where
  "loc_util_trim_space s =
     (case trim_scan s [] None of (written, Some n) \<Rightarrow> take n written | (_, None) \<Rightarrow> s)"

text \<open>
  \<open>loc_util_split_string\<close> overwrites delimiters with zeros, until it has the maximal number of strings or
  the text ends.
\<close>

fun split_from :: "char \<Rightarrow> nat \<Rightarrow> string \<Rightarrow> string \<Rightarrow> string list" where
  "split_from d n cur [] = [cur]"
| "split_from d n cur (c # cs) =
     (if c = d then cur # (if n \<le> 1 then [] else split_from d (n - 1) [] cs)
      else split_from d n (cur @ [c]) cs)"

definition loc_util_split_string :: "string \<Rightarrow> nat \<Rightarrow> char \<Rightarrow> string list" where
  "loc_util_split_string s max_num d = split_from d max_num [] s"

section \<open>Tables and memory\<close>

definition LOC_MAX_PARAM_NAME :: nat where "LOC_MAX_PARAM_NAME = 80"
definition LOC_MAX_PARAM_STRING :: nat where "LOC_MAX_PARAM_STRING = 80"
definition LOC_MAX_PARAM_LINE :: nat where
  "LOC_MAX_PARAM_LINE = LOC_MAX_PARAM_NAME + LOC_MAX_PARAM_STRING"

text \<open>\<open>param_size\<close> is the number of bytes of the variable.\<close>

record loc_param_s_type =
  param_name :: string
  param_ptr :: "string option"
  param_size :: nat
  param_set :: "string option"
  param_type :: char

record loc_param_v_type =
  v_param_name :: string
  v_param_str_value :: string
  v_param_int_value :: i32
  v_param_double_value :: u64

record conf_mem =
  cm_num :: "string \<Rightarrow> i32"
  cm_str :: "string \<Rightarrow> string"
  cm_dbl :: "string \<Rightarrow> u64"
  cm_set :: "string \<Rightarrow> u8"
  cm_overrun :: "string list"

definition mark_set :: "loc_param_s_type \<Rightarrow> u8 \<Rightarrow> conf_mem \<Rightarrow> conf_mem" where
  "mark_set e b m = (case param_set e of None \<Rightarrow> m | Some v \<Rightarrow> m\<lparr>cm_set := (cm_set m)(v := b)\<rparr>)"

definition store_str :: "string \<Rightarrow> nat \<Rightarrow> string \<Rightarrow> conf_mem \<Rightarrow> conf_mem" where
  "store_str p room s m =
     (if length s < room then m\<lparr>cm_str := (cm_str m)(p := s)\<rparr>
      else m\<lparr>cm_str := (cm_str m)(p := s), cm_overrun := cm_overrun m @ [p]\<rparr>)"

definition loc_set_config_entry :: "loc_param_s_type \<Rightarrow> loc_param_v_type \<Rightarrow> conf_mem \<Rightarrow> conf_mem \<times> int" where
  "loc_set_config_entry e v m =
     (case param_ptr e of
        None \<Rightarrow> (m, -1)
      | Some p \<Rightarrow>
          if param_name e \<noteq> v_param_name v then (m, -1)
          else if param_type e = CHR ''s''
          then (mark_set e 1
                  (if v_param_str_value v = ''NULL'' then store_str p (param_size e) [] m
                   else store_str p (param_size e) (strlcpy (LOC_MAX_PARAM_STRING + 1) (v_param_str_value v)) m), 0)
          else if param_type e = CHR ''n''
          then (mark_set e 1 (m\<lparr>cm_num := (cm_num m)(p := v_param_int_value v)\<rparr>), 0)
          else if param_type e = CHR ''f''
          then (mark_set e 1 (m\<lparr>cm_dbl := (cm_dbl m)(p := v_param_double_value v)\<rparr>), 0)
          else (m, -1))"

section \<open>A line\<close>

text \<open>The name and the value of a line, or none.\<close>

definition split_line :: "string \<Rightarrow> (string \<times> string) option" where
  "split_line s =
     (case strtok CHR ''='' s of
        None \<Rightarrow> None
      | Some (name, rest) \<Rightarrow>
          (case strtok CHR ''='' rest of None \<Rightarrow> None | Some (val, _) \<Rightarrow> Some (name, val)))"

definition is_hex :: "string \<Rightarrow> bool" where
  "is_hex v \<longleftrightarrow> 3 \<le> length v \<and> v ! 0 = CHR ''0'' \<and> (v ! 1 = CHR ''x'' \<or> v ! 1 = CHR ''X'')"

definition parse_value :: "(string \<Rightarrow> u64) \<Rightarrow> string \<Rightarrow> string \<Rightarrow> loc_param_v_type" where
  "parse_value atof name val =
     (let n = loc_util_trim_space name; v = loc_util_trim_space val
      in if is_hex v
         then \<lparr>v_param_name = n, v_param_str_value = v,
               v_param_int_value = word_of_int (strtol 16 (drop 2 v)), v_param_double_value = 0\<rparr>
         else \<lparr>v_param_name = n, v_param_str_value = v, v_param_int_value = atoi v,
               v_param_double_value = atof v\<rparr>)"

fun set_entries :: "loc_param_v_type \<Rightarrow> loc_param_s_type list \<Rightarrow> conf_mem \<Rightarrow> nat \<Rightarrow> conf_mem \<times> nat" where
  "set_entries v [] m ret = (m, ret)"
| "set_entries v (e # es) m ret =
     (let (m1, r) = loc_set_config_entry e v m
      in set_entries v es m1 (if r = 0 then ret + 1 else ret))"

definition loc_fill_conf_item ::
  "(string \<Rightarrow> u64) \<Rightarrow> string \<Rightarrow> loc_param_s_type list \<Rightarrow> conf_mem \<Rightarrow> conf_mem \<times> nat" where
  "loc_fill_conf_item atof line table m =
     (case split_line line of
        None \<Rightarrow> (m, 0)
      | Some (name, val) \<Rightarrow> set_entries (parse_value atof name val) table m 0)"

section \<open>Files and texts\<close>

text \<open>
  Reading goes on until as many entries were set as the table has, or the file ends. The count has 32
  bits and wraps when a line sets more entries than are left.
\<close>

function read_lines ::
  "(string \<Rightarrow> u64) \<Rightarrow> loc_param_s_type list \<Rightarrow> u32 \<Rightarrow> string \<Rightarrow> conf_mem \<Rightarrow> conf_mem \<times> string" where
  "read_lines atof table num_params fp m =
     (if num_params = 0 then (m, fp)
      else case fgets LOC_MAX_PARAM_LINE fp of
             None \<Rightarrow> (m, fp)
           | Some (line, fp1) \<Rightarrow>
               let (m1, k) = loc_fill_conf_item atof line table m
               in read_lines atof table (num_params - of_nat k) fp1 m1)"
  by pat_completeness auto
termination
  by (relation "measure (\<lambda>(atof, table, n, fp, m). length fp)")
    (auto dest!: fgets_shorter simp: LOC_MAX_PARAM_LINE_def LOC_MAX_PARAM_NAME_def LOC_MAX_PARAM_STRING_def)

declare read_lines.simps [simp del]

lemma read_lines_0: "read_lines atof table 0 fp m = (m, fp)"
  by (subst read_lines.simps) simp

lemma read_lines_step:
  assumes "fgets LOC_MAX_PARAM_LINE fp = Some (line, rest)" "n \<noteq> 0"
  shows "read_lines atof table n fp m =
    (let (m1, k) = loc_fill_conf_item atof line table m in read_lines atof table (n - of_nat k) rest m1)"
  using assms by (subst read_lines.simps) simp

lemma read_lines_end: "read_lines atof table n [] m = (m, [])"
  by (subst read_lines.simps) (simp add: fgets_def)

text \<open>The file pointer is the rest of the file. A null file pointer is an error.\<close>

definition loc_read_conf_r ::
  "(string \<Rightarrow> u64) \<Rightarrow> string option \<Rightarrow> loc_param_s_type list \<Rightarrow> nat \<Rightarrow> conf_mem
     \<Rightarrow> conf_mem \<times> string option \<times> int" where
  "loc_read_conf_r atof conf_fp config_table table_length m =
     (case conf_fp of
        None \<Rightarrow> (m, None, -1)
      | Some fp \<Rightarrow>
          let table = take table_length config_table;
              m1 = fold (\<lambda>e. mark_set e 0) table m;
              (m2, fp1) = read_lines atof table (of_nat table_length) fp m1
          in (m2, Some fp1, 0))"

text \<open>\<open>loc_update_conf\<close>: lines of a text, with one parameter less to set than the table has.\<close>

function update_lines ::
  "(string \<Rightarrow> u64) \<Rightarrow> loc_param_s_type list \<Rightarrow> u32 \<Rightarrow> (string \<times> string) option \<Rightarrow> conf_mem \<Rightarrow> int
     \<Rightarrow> conf_mem \<times> int" where
  "update_lines atof table num_params None m ret = (m, ret)"
| "update_lines atof table num_params (Some (line, rest)) m ret =
     (if num_params = 0 then (m, ret)
      else let (m1, k) = loc_fill_conf_item atof line table m
           in update_lines atof table (num_params - of_nat k) (strtok NL rest) m1 (ret + 1))"
  by pat_completeness auto
termination
  by (relation "measure (\<lambda>(atof, table, n, l, m, r). case l of None \<Rightarrow> 0 | Some (_, rest) \<Rightarrow> length rest + 1)")
    (auto split: option.splits dest!: strtok_shorter)

definition loc_update_conf ::
  "(string \<Rightarrow> u64) \<Rightarrow> string \<Rightarrow> loc_param_s_type list \<Rightarrow> conf_mem \<Rightarrow> conf_mem \<times> int" where
  "loc_update_conf atof conf_data table m =
     (if conf_data \<noteq> [] \<and> table \<noteq> []
      then update_lines atof table (of_nat (length table) - 1)
             (strtok NL (takeWhile (\<lambda>c. c \<noteq> CHR 0x00) conf_data)) m 0
      else (m, -1))"

definition loc_param_table :: "loc_param_s_type list" where
  "loc_param_table =
     [\<lparr>param_name = ''DEBUG_LEVEL'', param_ptr = Some ''DEBUG_LEVEL'', param_size = 4,
       param_set = None, param_type = CHR ''n''\<rparr>,
      \<lparr>param_name = ''TIMESTAMP'', param_ptr = Some ''TIMESTAMP'', param_size = 4,
       param_set = None, param_type = CHR ''n''\<rparr>,
      \<lparr>param_name = ''LOC_MODEM_EMULATOR'', param_ptr = Some ''LOC_MODEM_EMULATOR'', param_size = 4,
       param_set = None, param_type = CHR ''n''\<rparr>]"

definition loc_modem_emulator_enabled :: "conf_mem \<Rightarrow> i32" where
  "loc_modem_emulator_enabled m = cm_num m ''LOC_MODEM_EMULATOR''"

text \<open>The whole file, or none if it cannot be opened; the logger is started with two variables.\<close>

definition loc_read_conf ::
  "(string \<Rightarrow> u64) \<Rightarrow> string option \<Rightarrow> loc_param_s_type list \<Rightarrow> conf_mem \<Rightarrow> conf_mem \<times> i32 \<times> i32" where
  "loc_read_conf atof conf_file config_table m =
     (let m2 =
        (case conf_file of
           None \<Rightarrow> m
         | Some content \<Rightarrow>
             let m1 = (if config_table \<noteq> []
                       then fst (loc_read_conf_r atof (Some content) config_table (length config_table) m)
                       else m)
             in fst (loc_read_conf_r atof
                  (Some content) loc_param_table
                  (length loc_param_table) m1))
      in (m2, cm_num m2 ''DEBUG_LEVEL'', cm_num m2 ''TIMESTAMP''))"

end
