(* ===== verification/Proc_Conf.thy ===== *)
theory Proc_Conf
  imports Loc_Cfg
begin

unbundle bit_operations_syntax

text \<open>
  The configuration of the processes that the location launcher starts, \<open>loc_read_process_conf\<close> in
  \<open>gps/utils/loc_cfg.cpp\<close>: which features are on, how many processes the file has, and for each whether it is
  enabled on this device, its groups and its arguments.

  The properties of the device, the group database and whether memory can be allocated are the record
  \<open>proc_env\<close>.
\<close>

section \<open>Data\<close>

definition LOC_PROCESS_MAX_NUM_GROUPS :: nat where "LOC_PROCESS_MAX_NUM_GROUPS = 20"
definition LOC_PROCESS_MAX_NUM_ARGS :: nat where "LOC_PROCESS_MAX_NUM_ARGS = 25"
definition LOC_PROCESS_MAX_ARG_STR_LENGTH :: nat where "LOC_PROCESS_MAX_ARG_STR_LENGTH = 32"
definition MAX_NUM_STRINGS :: nat where "MAX_NUM_STRINGS = 20"

datatype loc_process_e_status = ENABLED | RUNNING | DISABLED | DISABLED_FROM_CONF

record loc_process_info_s_type =
  proc_status :: loc_process_e_status
  pi_name :: string
  pi_group_list :: "u32 list"
  pi_num_groups :: u8
  pi_args :: "string list"
  pi_argumentString :: string

record proc_env =
  pe_atof :: "string \<Rightarrow> u64"
  pe_gps_conf :: "string option"
  pe_platform :: string
  pe_baseband :: string
  pe_auto_platform :: string
  pe_getpwnam :: "string \<Rightarrow> u32 option"
  pe_calloc_ok :: "nat \<Rightarrow> bool"

definition conf_str :: "string \<Rightarrow> string \<Rightarrow> loc_param_s_type" where
  "conf_str n p = \<lparr>param_name = n, param_ptr = Some p, param_size = LOC_MAX_PARAM_STRING,
     param_set = None, param_type = CHR ''s''\<rparr>"

definition conf_num :: "string \<Rightarrow> string \<Rightarrow> loc_param_s_type" where
  "conf_num n p = \<lparr>param_name = n, param_ptr = Some p, param_size = 4, param_set = None,
     param_type = CHR ''n''\<rparr>"

definition gps_conf_parameter_table :: "loc_param_s_type list" where
  "gps_conf_parameter_table = [conf_num ''SGLTE_TARGET'' ''conf.sglte_target'']"

definition loc_feature_conf_table :: "loc_param_s_type list" where
  "loc_feature_conf_table =
     [conf_str ''GTP_CELL_PROC'' ''conf.feature_gtp_cell_proc'',
      conf_str ''GTP_CELL'' ''conf.feature_gtp_cell'',
      conf_str ''GTP_WIFI'' ''conf.feature_gtp_wifi'',
      conf_str ''GTP_WAA'' ''conf.feature_gtp_waa'',
      conf_str ''SAP'' ''conf.feature_sap'',
      conf_str ''ODCPI'' ''conf.feature_odcpi'',
      conf_str ''FREE_WIFI_SCAN_INJECT'' ''conf.feature_free_wifi_scan_inject'',
      conf_str ''SUPL_WIFI'' ''conf.feature_supl_wifi'',
      conf_str ''WIFI_SUPPLICANT_INFO'' ''conf.feature_wifi_supplicant_info'']"

definition loc_process_conf_parameter_table :: "loc_param_s_type list" where
  "loc_process_conf_parameter_table =
     [conf_str ''PROCESS_NAME'' ''conf.proc_name'',
      conf_str ''PROCESS_ARGUMENT'' ''conf.proc_argument'',
      conf_str ''PROCESS_STATE'' ''conf.proc_status'',
      conf_str ''PROCESS_GROUPS'' ''conf.group_list'',
      conf_num ''PREMIUM_FEATURE'' ''conf.premium_feature'',
      conf_num ''IZAT_FEATURE_MASK'' ''conf.loc_feature_mask'',
      conf_str ''PLATFORMS'' ''conf.platform_list'',
      conf_str ''BASEBAND'' ''conf.baseband'',
      conf_str ''HARDWARE_TYPE'' ''conf.auto_platform'']"

section \<open>Features\<close>

definition gtp_wifi_mask :: "string \<Rightarrow> u32" where
  "gtp_wifi_mask v = (if v = ''DISABLED'' then 0 else if v = ''BASIC'' then 0x01 else 0x01)"

definition gtp_cell_mask :: "bool \<Rightarrow> string \<Rightarrow> u32" where
  "gtp_cell_mask gtp_cell_ap_enabled v =
     (if v = ''PREMIUM'' then (if gtp_cell_ap_enabled then 0x04 else 0x400)
      else if v = ''BASIC'' then (if gtp_cell_ap_enabled then 0x04 else 0x400)
      else if v = ''DISABLED'' then 0
      else if gtp_cell_ap_enabled then 0x04 else 0x400)"

definition gtp_waa_mask :: "string \<Rightarrow> u32" where
  "gtp_waa_mask v = (if v = ''PREMIUM'' then 0x100 else if v = ''BASIC'' then 0x100 else 0)"

definition sap_mask :: "string \<Rightarrow> u32" where
  "sap_mask v =
     (if v = ''PREMIUM'' then 0x80 else if v = ''BASIC'' then 0x40 else if v = ''DISABLED'' then 0 else 0x40)"

text \<open>The features that are off unless they are switched on.\<close>

definition optional_mask :: "u32 \<Rightarrow> string \<Rightarrow> u32" where
  "optional_mask bits v =
     (if v = ''BASIC'' then bits else if v = ''DISABLED'' then 0 else if v = ''PREMIUM'' then bits else 0)"

definition loc_service_mask :: "conf_mem \<Rightarrow> u32" where
  "loc_service_mask m =
     gtp_wifi_mask (cm_str m ''conf.feature_gtp_wifi'') OR
     gtp_cell_mask (cm_str m ''conf.feature_gtp_cell_proc'' = ''AP'') (cm_str m ''conf.feature_gtp_cell'') OR
     gtp_waa_mask (cm_str m ''conf.feature_gtp_waa'') OR
     sap_mask (cm_str m ''conf.feature_sap'') OR
     optional_mask 0x1000 (cm_str m ''conf.feature_odcpi'') OR
     optional_mask 0x2000 (cm_str m ''conf.feature_free_wifi_scan_inject'') OR
     optional_mask 0x4000 (cm_str m ''conf.feature_supl_wifi'') OR
     optional_mask 0x8000 (cm_str m ''conf.feature_wifi_supplicant_info'')"

section \<open>The number of processes\<close>

lemma read_lines_shorter:
  "length (snd (read_lines atof table n fp m)) \<le> length fp \<and>
   (fp \<noteq> [] \<and> n \<noteq> 0 \<longrightarrow> length (snd (read_lines atof table n fp m)) < length fp) \<and>
   (fp = [] \<longrightarrow> fst (read_lines atof table n fp m) = m)"
proof (induction "length fp" arbitrary: n fp m rule: less_induct)
  case less
  show ?case
  proof (cases "n = 0 \<or> fp = []")
    case True
    then show ?thesis by (auto simp: read_lines_0 read_lines_end)
  next
    case False
    then obtain line rest where f: "fgets LOC_MAX_PARAM_LINE fp = Some (line, rest)" by (simp add: fgets_def)
    obtain m1 k where k: "loc_fill_conf_item atof line table m = (m1, k)" by fastforce
    have "length rest < length fp"
      using f by (auto dest!: fgets_shorter simp: LOC_MAX_PARAM_LINE_def LOC_MAX_PARAM_NAME_def LOC_MAX_PARAM_STRING_def)
    moreover from this have "length (snd (read_lines atof table (n - of_nat k) rest m1)) \<le> length rest"
      using less by blast
    ultimately show ?thesis using False read_lines_step[OF f, of n atof table m] k by simp
  qed
qed

text \<open>The count is a byte and wraps. Reading goes from one name of a process to the next.\<close>

definition next_process :: "(string \<Rightarrow> u64) \<Rightarrow> string \<Rightarrow> conf_mem \<Rightarrow> conf_mem \<times> string" where
  "next_process atof fp m =
     (let m1 = m\<lparr>cm_str := (cm_str m)(''conf.proc_name'' := [])\<rparr>;
          (m2, fp1, ret) = loc_read_conf_r atof (Some fp) loc_process_conf_parameter_table 1 m1
      in (m2, the fp1))"

lemma next_process_shorter:
  "cm_str (fst (next_process atof fp m)) ''conf.proc_name'' \<noteq> [] \<Longrightarrow>
   length (snd (next_process atof fp m)) < length fp"
proof -
  assume n: "cm_str (fst (next_process atof fp m)) ''conf.proc_name'' \<noteq> []"
  let ?m = "m\<lparr>cm_str := (cm_str m)(''conf.proc_name'' := [])\<rparr>"
  let ?t = "take 1 loc_process_conf_parameter_table"
  have e: "next_process atof fp m = read_lines atof ?t 1 fp ?m"
    by (simp add: next_process_def loc_read_conf_r_def loc_process_conf_parameter_table_def conf_str_def
        mark_set_def split: prod.splits)
  show ?thesis
  proof (cases "fp = []")
    case True
    then have "fst (read_lines atof ?t 1 fp ?m) = ?m" using read_lines_shorter by blast
    then show ?thesis using n by (simp add: e)
  next
    case False
    then show ?thesis using read_lines_shorter[of atof ?t 1 fp ?m] by (simp add: e)
  qed
qed

function count_processes :: "(string \<Rightarrow> u64) \<Rightarrow> string \<Rightarrow> conf_mem \<Rightarrow> u8 \<Rightarrow> conf_mem \<times> u8" where
  "count_processes atof fp m n =
     (let (m1, fp1) = next_process atof fp m
      in if cm_str m1 ''conf.proc_name'' \<noteq> [] then count_processes atof fp1 m1 (n + 1) else (m1, n))"
  by pat_completeness auto
termination
proof (relation "measure (\<lambda>(atof, fp, m, n). length fp)", goal_cases)
  case (2 atof fp m n p m1 fp1)
  then have "next_process atof fp m = (m1, fp1)" "cm_str m1 ''conf.proc_name'' \<noteq> []" by simp_all
  then show ?case using next_process_shorter[of atof fp m] by simp
qed simp

declare count_processes.simps [simp del]

section \<open>Matching the device\<close>

text \<open>
  A list of platforms or basebands: \<open>all\<close>, \<open>all exclude\<close> and names, or names. \<open>matches\<close> is the test for
  the last kind.
\<close>

definition match_mask :: "u8 \<Rightarrow> u8 \<Rightarrow> string \<Rightarrow> (string \<Rightarrow> bool) \<Rightarrow> string list \<Rightarrow> u8 \<Rightarrow> u8" where
  "match_mask all_bit found_bit name matches ss config_mask =
     (if ss ! 0 = ''all''
      then if length ss = 1 \<or> (length ss = 2 \<and> ss ! 1 = ''exclude'') then config_mask OR all_bit
           else if 2 < length ss \<and> ss ! 1 = ''exclude''
           then (if name \<in> set (drop 2 ss) then (config_mask OR found_bit) AND NOT found_bit
                 else config_mask OR found_bit)
           else config_mask
      else if list_ex matches ss then config_mask OR found_bit else config_mask)"

definition auto_mask :: "string \<Rightarrow> string list \<Rightarrow> u8 \<Rightarrow> u8" where
  "auto_mask name ss config_mask =
     (if ss ! 0 = ''all'' then config_mask OR 0x10
      else if list_ex (\<lambda>s. s = name) ss then config_mask OR 0x20 else config_mask)"

section \<open>Groups and arguments\<close>

text \<open>A group that is not known leaves its place in the list as it is, and is not counted.\<close>

fun fill_groups :: "(string \<Rightarrow> u32 option) \<Rightarrow> nat \<Rightarrow> string list \<Rightarrow> u32 list \<times> u8 \<Rightarrow> u32 list \<times> u8" where
  "fill_groups getpwnam i [] out = out"
| "fill_groups getpwnam i (s # ss) (gs, n) =
     (case getpwnam s of
        None \<Rightarrow> fill_groups getpwnam (i + 1) ss (gs, n)
      | Some gid \<Rightarrow> fill_groups getpwnam (i + 1) ss (gs[i := gid], n + 1))"

definition put_arg :: "string \<Rightarrow> nat \<times> string list \<Rightarrow> nat \<times> string list" where
  "put_arg s = (\<lambda>(i, args). (i + 1, args[i := strlcpy LOC_PROCESS_MAX_ARG_STR_LENGTH s]))"

definition put_feature :: "string \<Rightarrow> string \<Rightarrow> nat \<times> string list \<Rightarrow> nat \<times> string list" where
  "put_feature name mode out = put_arg mode (put_arg (''--'' @ name) out)"

definition wifi_args :: "u32 \<Rightarrow> u32 \<Rightarrow> nat \<times> string list \<Rightarrow> nat \<times> string list" where
  "wifi_args loc_feature_mask service out =
     (if loc_feature_mask AND 0x03 \<noteq> 0
      then if service AND 0x01 \<noteq> 0 then put_feature ''gtp-wifi'' ''BASIC'' out
           else if service AND 0x02 \<noteq> 0 then put_feature ''gtp-wifi'' ''PREMIUM'' out
           else put_feature ''gtp-wifi'' ''DISABLED'' out
      else out)"

definition cell_args :: "u32 \<Rightarrow> u32 \<Rightarrow> nat \<times> string list \<Rightarrow> nat \<times> string list" where
  "cell_args loc_feature_mask service out =
     (if loc_feature_mask AND 0x0C \<noteq> 0
      then if service AND 0x04 \<noteq> 0
           then put_feature ''gtp-modem-cell'' ''DISABLED'' (put_feature ''gtp-ap-cell'' ''BASIC'' out)
           else if service AND 0x08 \<noteq> 0
           then put_feature ''gtp-modem-cell'' ''DISABLED'' (put_feature ''gtp-ap-cell'' ''PREMIUM'' out)
           else if service AND 0x400 \<noteq> 0
           then put_feature ''gtp-ap-cell'' ''DISABLED'' (put_feature ''gtp-modem-cell'' ''BASIC'' out)
           else if service AND 0x800 \<noteq> 0
           then put_feature ''gtp-ap-cell'' ''DISABLED'' (put_feature ''gtp-modem-cell'' ''PREMIUM'' out)
           else put_feature ''gtp-modem-cell'' ''DISABLED'' (put_feature ''gtp-ap-cell'' ''DISABLED'' out)
      else out)"

definition waa_args :: "u32 \<Rightarrow> u32 \<Rightarrow> nat \<times> string list \<Rightarrow> nat \<times> string list" where
  "waa_args loc_feature_mask service out =
     (if loc_feature_mask AND 0x300 \<noteq> 0
      then if service AND 0x100 \<noteq> 0 then put_feature ''gtp-waa'' ''BASIC'' out
           else if service AND 0x200 \<noteq> 0 then put_feature ''gtp-waa'' ''PREMIUM'' out
           else put_feature ''gtp-waa'' ''DISABLED'' out
      else out)"

definition sap_args :: "u32 \<Rightarrow> u32 \<Rightarrow> nat \<times> string list \<Rightarrow> nat \<times> string list" where
  "sap_args loc_feature_mask service out =
     (if loc_feature_mask AND 0xC0 \<noteq> 0
      then if service AND 0x40 \<noteq> 0 then put_feature ''sap'' ''BASIC'' out
           else if service AND 0x80 \<noteq> 0 then put_feature ''sap'' ''PREMIUM'' out
           else put_feature ''sap'' ''DISABLED'' out
      else out)"

definition feature_args :: "u32 \<Rightarrow> u32 \<Rightarrow> nat \<times> string list \<Rightarrow> nat \<times> string list" where
  "feature_args loc_feature_mask service out =
     sap_args loc_feature_mask service (waa_args loc_feature_mask service
       (cell_args loc_feature_mask service (wifi_args loc_feature_mask service out)))"

text \<open>The name without the directories.\<close>

definition basename :: "string \<Rightarrow> string" where
  "basename s = (case s of c # cs \<Rightarrow> if c = CHR ''/'' then rev (takeWhile (\<lambda>c. c \<noteq> CHR ''/'') (rev s)) else s | [] \<Rightarrow> s)"

text \<open>The arguments of the file follow those of the features, as many as there is room for.\<close>

definition conf_args :: "string \<Rightarrow> nat \<times> string list \<Rightarrow> string list" where
  "conf_args proc_argument out =
     (if proc_argument = [] then snd out
      else snd (fold put_arg
             (loc_util_split_string (strlcpy LOC_MAX_PARAM_STRING proc_argument)
                (LOC_PROCESS_MAX_NUM_ARGS - fst out) CHR '' '') out))"

section \<open>A process\<close>

text \<open>Splitting leaves the first string in the variable that was split.\<close>

definition split_conf :: "string \<Rightarrow> conf_mem \<Rightarrow> string list \<times> conf_mem" where
  "split_conf var m =
     (let ss = loc_util_split_string (cm_str m var) MAX_NUM_STRINGS CHR '' ''
      in (ss, m\<lparr>cm_str := (cm_str m)(var := ss ! 0)\<rparr>))"

text \<open>The entry as \<open>calloc\<close> and the start of the loop leave it.\<close>

definition blank_process :: loc_process_info_s_type where
  "blank_process =
     \<lparr>proc_status = DISABLED, pi_name = [], pi_group_list = replicate LOC_PROCESS_MAX_NUM_GROUPS 0,
      pi_num_groups = 0, pi_args = replicate LOC_PROCESS_MAX_NUM_ARGS [], pi_argumentString = []\<rparr>"

definition start_process :: "conf_mem \<Rightarrow> u32 \<Rightarrow> loc_process_info_s_type \<Rightarrow> loc_process_info_s_type" where
  "start_process m service p =
     (let mask = cm_num m ''conf.loc_feature_mask'';
          out0 = put_arg (basename (pi_name p)) (0, pi_args p);
          on = (cm_num m ''conf.premium_feature'' = 0 \<or> mask AND service \<noteq> 0);
          out1 = (if cm_num m ''conf.premium_feature'' \<noteq> 0 \<and> mask AND service \<noteq> 0
                  then feature_args mask service out0
                  else out0);
          argument = cm_str m ''conf.proc_argument''
      in p\<lparr>proc_status := (if on then ENABLED else proc_status p),
           pi_args := conf_args argument out1,
           pi_argumentString :=
             (if argument = [] then pi_argumentString p
              else loc_util_split_string (strlcpy LOC_MAX_PARAM_STRING argument)
                     (LOC_PROCESS_MAX_NUM_ARGS - fst out1) CHR '' '' ! 0)\<rparr>)"

definition missing_parameter :: "conf_mem \<Rightarrow> bool" where
  "missing_parameter m \<longleftrightarrow>
     cm_str m ''conf.proc_name'' = [] \<or> cm_str m ''conf.group_list'' = [] \<or>
     cm_str m ''conf.platform_list'' = [] \<or> cm_str m ''conf.baseband'' = [] \<or>
     cm_str m ''conf.proc_status'' = [] \<or> cm_str m ''conf.auto_platform'' = []"

definition read_process :: "proc_env \<Rightarrow> u32 \<Rightarrow> conf_mem \<Rightarrow> loc_process_info_s_type \<times> conf_mem" where
  "read_process w service m =
     (if missing_parameter m then (blank_process, m)
      else if cm_str m ''conf.proc_status'' = ''DISABLED''
      then (blank_process\<lparr>proc_status := DISABLED_FROM_CONF\<rparr>, m)
      else if LOC_MAX_PARAM_STRING < length (cm_str m ''conf.proc_name'') + 1 then (blank_process, m)
      else
        let (groups, m1) = split_conf ''conf.group_list'' m;
            (gs, n) = fill_groups (pe_getpwnam w) 0 groups (pi_group_list blank_process, 0);
            p = blank_process\<lparr>pi_name := cm_str m ''conf.proc_name'', pi_group_list := gs, pi_num_groups := n\<rparr>;
            (platforms, m2) = split_conf ''conf.platform_list'' m1;
            mask1 = match_mask 0x01 0x02 (pe_platform w) (\<lambda>s. pe_platform w = s) platforms 0;
            (basebands, m3) = split_conf ''conf.baseband'' m2;
            mask2 = match_mask 0x04 0x08 (pe_baseband w)
                      (\<lambda>s. pe_baseband w = s \<or> (''sglte'' = s \<and> cm_num m3 ''conf.sglte_target'' \<noteq> 0)) basebands mask1;
            (autos, m4) = split_conf ''conf.auto_platform'' m3;
            mask3 = auto_mask (pe_auto_platform w) autos mask2
        in (if mask3 AND 0x03 \<noteq> 0 \<and> mask3 AND 0x0C \<noteq> 0 \<and> mask3 AND 0x30 \<noteq> 0
            then start_process m4 service p else p, m4))"

fun read_processes ::
  "proc_env \<Rightarrow> u32 \<Rightarrow> nat \<Rightarrow> string option \<Rightarrow> conf_mem \<Rightarrow> (loc_process_info_s_type list \<times> conf_mem) option"
where
  "read_processes w service 0 fp m = Some ([], m)"
| "read_processes w service (Suc n) fp m =
     (let (m1, fp1, ret) = loc_read_conf_r (pe_atof w) fp loc_process_conf_parameter_table
            (length loc_process_conf_parameter_table) m
      in if ret \<noteq> 0 then None
         else let (p, m2) = read_process w service m1
              in map_option (\<lambda>(ps, m3). (p # ps, m3)) (read_processes w service n fp1 m2))"

section \<open>The file\<close>

text \<open>The value returned, and the processes: none after an error. \<open>ptrs_ok\<close>: the results have a place.\<close>

definition loc_read_process_conf ::
  "proc_env \<Rightarrow> bool \<Rightarrow> string option \<Rightarrow> conf_mem \<Rightarrow> int \<times> loc_process_info_s_type list \<times> conf_mem" where
  "loc_read_process_conf w ptrs_ok conf_file m =
     (if \<not> ptrs_ok then (-1, [], m)
      else
        let (m1, d1, t1) = loc_read_conf (pe_atof w) (pe_gps_conf w) gps_conf_parameter_table m;
            (m2, d2, t2) = loc_read_conf (pe_atof w) conf_file loc_feature_conf_table m1;
            service = loc_service_mask m2
        in case conf_file of
             None \<Rightarrow> (-1, [], m2)
           | Some content \<Rightarrow>
               let (m3, n) = count_processes (pe_atof w) content m2 0
               in if \<not> pe_calloc_ok w (unat n) then (-1, [], m3)
                  else case read_processes w service (unat n) (Some content) m3 of
                         None \<Rightarrow> (-1, [], m3)
                       | Some (ps, m4) \<Rightarrow> (0, ps, m4))"

end
