(* ===== verification/Cfg_Proofs.thy ===== *)
theory Cfg_Proofs
  imports Loc_Cfg
begin

text \<open>
  What holds of the configuration files: trimming and splitting against reference definitions; a file of
  parameters is read as written; and where reading stops before it should.
\<close>

section \<open>Trimming and splitting\<close>

definition rstrip :: "string \<Rightarrow> string" where
  "rstrip s = rev (dropWhile isspace (rev s))"

text \<open>The reference: spaces are removed at both ends, but a text of spaces only is left alone.\<close>

definition trimmed :: "string \<Rightarrow> string" where
  "trimmed s = (if (\<forall>c \<in> set s. isspace c) then s else rstrip (dropWhile isspace s))"

lemma rstrip_nonspace: "\<not> isspace c \<Longrightarrow> rstrip (xs @ c # ys) = xs @ c # rstrip ys"
proof (induction ys rule: rev_induct)
  case (snoc y ys)
  then show ?case by (cases "isspace y") (auto simp: rstrip_def)
qed (auto simp: rstrip_def)

lemma rstrip_spaces: "\<forall>c \<in> set s. isspace c \<Longrightarrow> rstrip s = []"
  by (simp add: rstrip_def)

lemma trim_scan_after:
  assumes "n \<le> length w" "\<forall>c \<in> set (drop n w). isspace c"
  shows "\<exists>w1 n1. trim_scan s w (Some n) = (w1, Some n1) \<and> take n1 w1 = take n w @ rstrip (drop n w @ s)"
  using assms
proof (induction s arbitrary: w n)
  case Nil
  then show ?case using rstrip_spaces by simp
next
  case (Cons c cs)
  show ?case
  proof (cases "isspace c")
    case True
    have "\<forall>x \<in> set (drop n (w @ [c])). isspace x" using Cons.prems True by auto
    then show ?thesis using Cons.IH[of n "w @ [c]"] Cons.prems(1) True by (simp add: Let_def)
  next
    case False
    obtain w1 n1 where r: "trim_scan cs (w @ [c]) (Some (length (w @ [c]))) = (w1, Some n1)"
      "take n1 w1 = (w @ [c]) @ rstrip cs"
      using Cons.IH[of "length (w @ [c])" "w @ [c]"] by auto
    have "take n w @ drop n w = w" by simp
    then have "(w @ [c]) @ rstrip cs = take n w @ rstrip (drop n w @ c # cs)"
      using rstrip_nonspace[OF False, of "drop n w" cs] by simp
    then show ?thesis using r False by (simp add: Let_def)
  qed
qed

lemma trim_scan_before:
  "case trim_scan s [] None of
     (w, Some n) \<Rightarrow> \<not> (\<forall>c \<in> set s. isspace c) \<and> take n w = rstrip (dropWhile isspace s)
   | (w, None) \<Rightarrow> \<forall>c \<in> set s. isspace c"
proof (induction s)
  case (Cons c cs)
  show ?case
  proof (cases "isspace c")
    case True
    then show ?thesis using Cons by (auto split: option.splits prod.splits)
  next
    case False
    obtain w1 n1 where "trim_scan cs [c] (Some 1) = (w1, Some n1)" "take n1 w1 = c # rstrip cs"
      using trim_scan_after[of 1 "[c]" cs] by auto
    then show ?thesis using False rstrip_nonspace[OF False, of "[]" cs] by (simp add: Let_def)
  qed
qed simp

lemma trim_space_eq: "loc_util_trim_space s = trimmed s"
  using trim_scan_before[of s]
  by (auto simp: loc_util_trim_space_def trimmed_def split: option.splits prod.splits)

text \<open>
  Trimming removes the spaces at both ends of a text, unless it has nothing else.
\<close>

theorem trim_space_exact: "loc_util_trim_space s = trimmed s"
  by (rule trim_space_eq)

fun join :: "char \<Rightarrow> string list \<Rightarrow> string" where
  "join d [] = []"
| "join d [s] = s"
| "join d (s # t # ss) = s @ d # join d (t # ss)"

lemma split_from_plain: "d \<notin> set s \<Longrightarrow> split_from d n cur s = [cur @ s]"
  by (induction s arbitrary: cur) auto

lemma split_from_delim:
  "d \<notin> set s \<Longrightarrow> split_from d n cur (s @ d # t) =
     (cur @ s) # (if n \<le> 1 then [] else split_from d (n - 1) [] t)"
  by (induction s arbitrary: cur) auto

text \<open>Texts that are joined with a delimiter are split again, up to the maximal number.\<close>

theorem split_join:
  assumes "ss \<noteq> []" "\<forall>s \<in> set ss. d \<notin> set s" "1 \<le> n"
  shows "loc_util_split_string (join d ss) n d = take n ss"
  using assms unfolding loc_util_split_string_def
proof (induction d ss arbitrary: n rule: join.induct)
  case (3 d s t ss)
  then show ?case by (cases "n \<le> 1") (auto simp: split_from_delim take_Cons' le_Suc_eq)
qed (auto simp: split_from_plain take_Cons')

theorem split_join_witness:
  "loc_util_split_string ''all exclude msm8996'' 2 CHR '' '' = [''all'', ''exclude'']"
  using split_join[of "[''all'', ''exclude'', ''msm8996'']" "CHR '' ''" 2] by simp

section \<open>A file of parameters\<close>

definition clean :: "string \<Rightarrow> bool" where
  "clean s \<longleftrightarrow> s \<noteq> [] \<and> (\<forall>c \<in> set s. c \<noteq> CHR ''='' \<and> c \<noteq> NL \<and> c \<noteq> CHR 0x00) \<and>
     \<not> isspace (hd s) \<and> \<not> isspace (last s)"

definition conf_line :: "string \<times> string \<Rightarrow> string" where
  "conf_line = (\<lambda>(n, v). n @ CHR ''='' # v @ [NL])"

definition conf_text :: "(string \<times> string) list \<Rightarrow> string" where
  "conf_text kvs = concat (map conf_line kvs)"

lemma clean_chars:
  assumes "clean s"
  shows "CHR ''='' \<notin> set s" "NL \<notin> set s" "CHR 0x00 \<notin> set s"
  using assms by (auto simp: clean_def)

definition conf_ok :: "string \<times> string \<Rightarrow> bool" where
  "conf_ok = (\<lambda>(n, v). clean n \<and> clean v \<and> length n + length v + 2 < LOC_MAX_PARAM_LINE)"

lemma conf_okD: "conf_ok (n, v) \<Longrightarrow> clean n \<and> clean v"
  by (simp add: conf_ok_def)

lemma trimmed_clean: "clean s \<Longrightarrow> trimmed s = s" "clean s \<Longrightarrow> trimmed (s @ [NL]) = s"
proof -
  assume c: "clean s"
  then have h: "dropWhile isspace s = s" "dropWhile isspace (s @ [NL]) = s @ [NL]"
    by (cases s; simp add: clean_def)+
  obtain t x where t: "s = t @ [x]" "\<not> isspace x"
    using c by (cases s rule: rev_cases) (auto simp: clean_def)
  have nl: "isspace NL" by (simp add: isspace_def)
  have "rstrip s = s" "rstrip (s @ [NL]) = s"
    using t rstrip_nonspace[OF t(2), of t "[]"] rstrip_nonspace[OF t(2), of t "[NL]"] nl
    by (simp_all add: rstrip_def)
  moreover have "\<not> (\<forall>c \<in> set s. isspace c)" "\<not> (\<forall>c \<in> set (s @ [NL]). isspace c)" using t by auto
  ultimately show "trimmed s = s" "trimmed (s @ [NL]) = s" unfolding trimmed_def h by simp_all
qed

lemma fgets_line:
  assumes "conf_ok kv"
  shows "fgets LOC_MAX_PARAM_LINE (conf_line kv @ rest) = Some (conf_line kv, rest)"
proof -
  obtain n v where kv: "kv = (n, v)" by (cases kv)
  have cl: "\<forall>c \<in> set (n @ CHR ''='' # v). c \<noteq> NL \<and> c \<noteq> CHR 0x00" and l: "length n + length v + 2 < LOC_MAX_PARAM_LINE"
    using assms by (auto simp: kv conf_ok_def clean_def)
  let ?b = "n @ CHR ''='' # v"
  have e: "conf_line kv @ rest = ?b @ NL # rest" "conf_line kv = ?b @ [NL]"
    by (simp_all add: conf_line_def kv)
  have "takeWhile (\<lambda>c. c \<noteq> NL) (?b @ NL # rest) = ?b"
    using cl by (subst takeWhile_append2) auto
  then have "line_end LOC_MAX_PARAM_LINE (?b @ NL # rest) = length ?b + 1"
    using l by (simp add: line_end_def)
  moreover have "takeWhile (\<lambda>c. c \<noteq> CHR 0x00) (?b @ [NL]) = ?b @ [NL]"
    using cl by (subst takeWhile_eq_all_conv) auto
  ultimately show ?thesis unfolding e by (simp add: fgets_def)
qed

lemma strtok_first:
  assumes "s \<noteq> []" "d \<notin> set s"
  shows "strtok d (s @ d # t) = Some (s, t)" "strtok d s = Some (s, [])"
proof -
  have h: "hd s \<noteq> d" using assms by (cases s) auto
  then have "dropWhile (\<lambda>c. c = d) (s @ d # t) = s @ d # t" "dropWhile (\<lambda>c. c = d) s = s"
    using assms by (cases s; simp)+
  moreover have d: "\<forall>c \<in> set s. c \<noteq> d" using assms(2) by auto
  then have "takeWhile (\<lambda>c. c \<noteq> d) (s @ d # t) = s" "dropWhile (\<lambda>c. c \<noteq> d) (s @ d # t) = d # t"
    "takeWhile (\<lambda>c. c \<noteq> d) s = s" "dropWhile (\<lambda>c. c \<noteq> d) s = []"
    by (subst takeWhile_append2 dropWhile_append2 takeWhile_eq_all_conv dropWhile_eq_Nil_conv; simp)+
  ultimately show "strtok d (s @ d # t) = Some (s, t)" "strtok d s = Some (s, [])"
    using assms(1) by (simp_all add: strtok_def del: dropWhile_eq_Nil_conv)
qed

lemma fill_line:
  assumes "conf_ok (n, v)"
  shows "loc_fill_conf_item atof (conf_line (n, v)) table m = set_entries (parse_value atof n v) table m 0"
proof -
  have c: "clean n" "clean v" using assms by (auto simp: conf_ok_def)
  then have "n \<noteq> []" "CHR ''='' \<notin> set n" "v @ [NL] \<noteq> []" "CHR ''='' \<notin> set (v @ [NL])"
    by (auto simp: clean_def)
  then have "split_line (conf_line (n, v)) = Some (n, v @ [NL])"
    using strtok_first(1)[of n "CHR ''=''" "v @ [NL]"] strtok_first(2)[of "v @ [NL]" "CHR ''=''"]
    by (simp add: split_line_def conf_line_def)
  moreover have "parse_value atof n (v @ [NL]) = parse_value atof n v"
    using trimmed_clean[OF c(2)] by (simp add: parse_value_def trim_space_eq)
  ultimately show ?thesis by (simp add: loc_fill_conf_item_def)
qed

section \<open>Entries that are set\<close>

lemma set_entry_other:
  "param_name e \<noteq> v_param_name v \<Longrightarrow> loc_set_config_entry e v m = (m, -1)"
  by (simp add: loc_set_config_entry_def split: option.splits)

lemma set_entries_none:
  "\<forall>e \<in> set table. param_name e \<noteq> v_param_name v \<Longrightarrow> set_entries v table m ret = (m, ret)"
  by (induction table arbitrary: m ret) (auto simp: set_entry_other)

lemma set_entries_count:
  "snd (set_entries v table m ret) \<le> ret + length (filter (\<lambda>e. param_name e = v_param_name v) table)"
proof (induction table arbitrary: m ret)
  case (Cons e es)
  obtain m1 r where r: "loc_set_config_entry e v m = (m1, r)" by (cases "loc_set_config_entry e v m")
  show ?case
  proof (cases "param_name e = v_param_name v")
    case True
    then show ?thesis using Cons[of m1 "ret + 1"] Cons[of m1 ret] r by auto
  next
    case False
    then show ?thesis using Cons[of m ret] set_entry_other[OF False, of m] by simp
  qed
qed simp

lemma parse_name [simp]: "clean n \<Longrightarrow> v_param_name (parse_value atof n v) = n"
  by (simp add: parse_value_def trim_space_eq trimmed_clean Let_def)

text \<open>Reading a file is reading its lines, as long as no name is given twice.\<close>

definition set_line ::
  "(string \<Rightarrow> u64) \<Rightarrow> loc_param_s_type list \<Rightarrow> string \<times> string \<Rightarrow> conf_mem \<Rightarrow> conf_mem" where
  "set_line atof table = (\<lambda>(n, v) m. fst (set_entries (parse_value atof n v) table m 0))"

definition wanted_by :: "loc_param_s_type list \<Rightarrow> (string \<times> string) list \<Rightarrow> nat" where
  "wanted_by table kvs = length (filter (\<lambda>e. param_name e \<in> fst ` set kvs) table)"

lemma wanted_by_Cons:
  assumes "n \<notin> fst ` set kvs"
  shows "wanted_by table ((n, v) # kvs) = length (filter (\<lambda>e. param_name e = n) table) + wanted_by table kvs"
  using assms by (induction table) (auto simp: wanted_by_def)

lemma fold_same: "\<forall>p \<in> set ps. \<forall>t. f p t = t \<Longrightarrow> fold f ps t = t"
  by (induction ps arbitrary: t) auto

lemma read_lines_fold:
  assumes "\<forall>kv \<in> set kvs. conf_ok kv" "distinct (map fst kvs)" "wanted_by table kvs \<le> c" "c < 2 ^ 32"
  shows "fst (read_lines atof table (of_nat c) (conf_text kvs) m) = fold (set_line atof table) kvs m"
  using assms
proof (induction kvs arbitrary: c m)
  case Nil
  then show ?case by (subst read_lines.simps) (simp add: conf_text_def fgets_def)
next
  case (Cons kv kvs)
  obtain n v where kv: "kv = (n, v)" by (cases kv)
  have ok: "conf_ok (n, v)" and n: "clean n" "n \<notin> fst ` set kvs"
    using Cons.prems by (auto simp: kv conf_ok_def)
  let ?k = "length (filter (\<lambda>e. param_name e = n) table)"
  have w: "?k + wanted_by table kvs \<le> c" using Cons.prems(3) wanted_by_Cons[OF n(2)] by (simp add: kv)
  obtain m1 k where s: "set_entries (parse_value atof n v) table m 0 = (m1, k)"
    by (cases "set_entries (parse_value atof n v) table m 0")
  have k: "k \<le> ?k" using set_entries_count[of "parse_value atof n v" table m 0] s n(1) by simp
  show ?case
  proof (cases "c = 0")
    case True
    then have z: "wanted_by table (kv # kvs) = 0" using Cons.prems(3) by simp
    then have "fold (set_line atof table) (kv # kvs) m = m"
    proof -
      have "set_line atof table p t = t" if "p \<in> set (kv # kvs)" for p t
      proof -
        obtain a b where p: "p = (a, b)" by (cases p)
        have "\<forall>e \<in> set table. param_name e \<noteq> a"
          using z that by (auto simp: wanted_by_def p filter_empty_conv rev_image_eqI)
        moreover have "clean a" using Cons.prems(1) that by (auto simp: p conf_ok_def)
        ultimately show ?thesis by (simp add: set_line_def p set_entries_none)
      qed
      then have "\<forall>p \<in> set (kv # kvs). \<forall>t. set_line atof table p t = t" by blast
      then show ?thesis by (rule fold_same)
    qed
    then show ?thesis using True by (subst read_lines.simps) simp
  next
    case False
    then have c: "(of_nat c :: u32) \<noteq> 0"
      using Cons.prems(4) by (auto simp: word_of_nat_eq_0_iff dest: dvd_imp_le)
    have d: "(of_nat c :: u32) - of_nat k = of_nat (c - k)" using w k by (simp add: of_nat_diff)
    have "fst (read_lines atof table (of_nat (c - k)) (conf_text kvs) m1) = fold (set_line atof table) kvs m1"
      using Cons.prems w k by (intro Cons.IH) auto
    moreover have "conf_text (kv # kvs) = conf_line (n, v) @ conf_text kvs" by (simp add: conf_text_def kv)
    ultimately show ?thesis
      using c s by (simp add: read_lines_step[OF fgets_line[OF ok]] fill_line[OF ok] d set_line_def kv)
  qed
qed

section \<open>Values of the entries\<close>

datatype conf_value = VNum i32 | VStr string | VDbl u64 | VNone

definition entry_value :: "conf_mem \<Rightarrow> loc_param_s_type \<Rightarrow> conf_value" where
  "entry_value m e =
     (case param_ptr e of
        None \<Rightarrow> VNone
      | Some p \<Rightarrow>
          if param_type e = CHR ''s'' then VStr (cm_str m p)
          else if param_type e = CHR ''n'' then VNum (cm_num m p)
          else if param_type e = CHR ''f'' then VDbl (cm_dbl m p) else VNone)"

definition entry_flag :: "conf_mem \<Rightarrow> loc_param_s_type \<Rightarrow> u8 option" where
  "entry_flag m e = map_option (cm_set m) (param_set e)"

text \<open>What a text means for an entry of each type.\<close>

definition value_for :: "(string \<Rightarrow> u64) \<Rightarrow> loc_param_s_type \<Rightarrow> string \<Rightarrow> conf_value" where
  "value_for atof e v =
     (if param_type e = CHR ''s'' then VStr (if v = ''NULL'' then [] else take LOC_MAX_PARAM_STRING v)
      else if param_type e = CHR ''n''
      then VNum (if is_hex v then word_of_int (strtol 16 (drop 2 v)) else atoi v)
      else VDbl (if is_hex v then 0 else atof v))"

definition table_ok :: "loc_param_s_type list \<Rightarrow> bool" where
  "table_ok table \<longleftrightarrow> distinct (map param_name table) \<and> distinct (map param_ptr table) \<and>
     distinct (map param_set (filter (\<lambda>e. param_set e \<noteq> None) table)) \<and>
     (\<forall>e \<in> set table. param_ptr e \<noteq> None \<and> param_type e \<in> {CHR ''s'', CHR ''n'', CHR ''f''})"

lemma entry_mark_set [simp]: "entry_value (mark_set e b m) f = entry_value m f"
  by (simp add: entry_value_def mark_set_def split: option.splits)

lemma store_str_fields [simp]:
  "cm_num (store_str p n t m) = cm_num m" "cm_dbl (store_str p n t m) = cm_dbl m"
  "cm_set (store_str p n t m) = cm_set m" "cm_str (store_str p n t m) = (cm_str m)(p := t)"
  by (simp_all add: store_str_def)

lemma set_entry_apart:
  assumes "param_ptr e \<noteq> param_ptr f" "param_set f = None \<or> param_set e \<noteq> param_set f"
  shows "entry_value (fst (loc_set_config_entry e v m)) f = entry_value m f"
    "entry_flag (fst (loc_set_config_entry e v m)) f = entry_flag m f"
  using assms
  by (cases "param_set f"; auto simp: loc_set_config_entry_def entry_value_def entry_flag_def mark_set_def
      split: option.splits)+

lemma set_entry_same:
  assumes "param_name e = n" "clean n" "clean v" "param_ptr e \<noteq> None"
    "param_type e \<in> {CHR ''s'', CHR ''n'', CHR ''f''}"
  shows "entry_value (fst (loc_set_config_entry e (parse_value atof n v) m)) e = value_for atof e v"
    "entry_flag (fst (loc_set_config_entry e (parse_value atof n v) m)) e = map_option (\<lambda>x. 1) (param_set e)"
proof -
  have p: "parse_value atof n v =
      (if is_hex v then \<lparr>v_param_name = n, v_param_str_value = v,
         v_param_int_value = word_of_int (strtol 16 (drop 2 v)), v_param_double_value = 0\<rparr>
       else \<lparr>v_param_name = n, v_param_str_value = v, v_param_int_value = atoi v, v_param_double_value = atof v\<rparr>)"
    using assms(2,3) by (simp add: parse_value_def trim_space_eq trimmed_clean)
  obtain q where q: "param_ptr e = Some q" using assms(4) by blast
  show "entry_value (fst (loc_set_config_entry e (parse_value atof n v) m)) e = value_for atof e v"
    using assms(1,5) q
    by (auto simp: p loc_set_config_entry_def entry_value_def value_for_def mark_set_def strlcpy_def
        split: option.splits)
  show "entry_flag (fst (loc_set_config_entry e (parse_value atof n v) m)) e = map_option (\<lambda>x. 1) (param_set e)"
    using assms(1,5) q
    by (auto simp: p loc_set_config_entry_def entry_flag_def mark_set_def split: option.splits)
qed

lemma set_entries_fst:
  "fst (set_entries v (e # es) m ret) = fst (set_entries v es (fst (loc_set_config_entry e v m)) 0)"
proof -
  have "fst (set_entries v es t r) = fst (set_entries v es t 0)" for t r
  proof (induction es arbitrary: t r)
    case (Cons e es)
    obtain t1 k where "loc_set_config_entry e v t = (t1, k)" by (cases "loc_set_config_entry e v t")
    then show ?case using Cons[of t1] by (simp add: Let_def) metis
  qed simp
  then show ?thesis by (cases "loc_set_config_entry e v m") (simp add: Let_def)
qed

lemma table_ok_Cons:
  assumes "table_ok (e # es)" "f \<in> set es"
  shows "param_name e \<noteq> param_name f" "param_ptr e \<noteq> param_ptr f"
    "param_set f = None \<or> param_set e \<noteq> param_set f"
proof -
  show "param_name e \<noteq> param_name f" "param_ptr e \<noteq> param_ptr f" using assms by (auto simp: table_ok_def)
  show "param_set f = None \<or> param_set e \<noteq> param_set f"
  proof (cases "param_set f = None")
    case False
    have "param_set f \<in> param_set ` set (filter (\<lambda>e. param_set e \<noteq> None) es)"
      using assms(2) False by (intro imageI) simp
    moreover have "distinct (map param_set (filter (\<lambda>e. param_set e \<noteq> None) (e # es)))"
      using assms(1) unfolding table_ok_def by blast
    ultimately show ?thesis
      by (cases "param_set e = None") (auto simp del: not_None_eq set_filter simp: image_iff)
  qed simp
qed

lemma table_ok_tl: "table_ok (e # es) \<Longrightarrow> table_ok es"
  by (auto simp: table_ok_def split: if_splits)

lemma set_entries_apart:
  assumes "\<forall>e \<in> set table. param_ptr e \<noteq> param_ptr f \<and> (param_set f = None \<or> param_set e \<noteq> param_set f)"
  shows "entry_value (fst (set_entries v table m r)) f = entry_value m f \<and>
    entry_flag (fst (set_entries v table m r)) f = entry_flag m f"
  using assms
proof (induction table arbitrary: m r)
  case (Cons e es)
  then show ?case using set_entry_apart[of e f v m] by (simp only: set_entries_fst) auto
qed simp

lemma set_line_value:
  assumes "table_ok table" "clean n" "clean v" "f \<in> set table"
  shows "entry_value (set_line atof table (n, v) m) f =
      (if param_name f = n then value_for atof f v else entry_value m f) \<and>
    entry_flag (set_line atof table (n, v) m) f =
      (if param_name f = n then map_option (\<lambda>x. 1) (param_set f) else entry_flag m f)"
  using assms(1,4) unfolding set_line_def prod.case
proof (induction table arbitrary: m)
  case (Cons e es)
  let ?p = "parse_value atof n v"
  let ?m = "fst (loc_set_config_entry e ?p m)"
  show ?case
  proof (cases "f = e")
    case True
    have "param_ptr g \<noteq> param_ptr f \<and> (param_set f = None \<or> param_set g \<noteq> param_set f)" if "g \<in> set es" for g
      using table_ok_Cons[OF Cons.prems(1) that] True by auto
    then have a: "entry_value (fst (set_entries ?p es ?m 0)) f = entry_value ?m f \<and>
        entry_flag (fst (set_entries ?p es ?m 0)) f = entry_flag ?m f"
      by (intro set_entries_apart) blast
    have k: "param_ptr f \<noteq> None" "param_type f \<in> {CHR ''s'', CHR ''n'', CHR ''f''}"
      using Cons.prems by (auto simp: table_ok_def)
    show ?thesis
    proof (cases "param_name f = n")
      case True
      then show ?thesis unfolding set_entries_fst
        using a set_entry_same[OF True assms(2,3) k, of atof m] \<open>f = e\<close> by simp
    next
      case False
      then have "?m = m" using \<open>f = e\<close> assms(2) by (simp add: set_entry_other)
      then show ?thesis unfolding set_entries_fst using a False by simp
    qed
  next
    case False
    then have f: "f \<in> set es" using Cons.prems(2) by simp
    have "entry_value ?m f = entry_value m f" "entry_flag ?m f = entry_flag m f"
      using set_entry_apart table_ok_Cons[OF Cons.prems(1) f] by blast+
    then show ?thesis unfolding set_entries_fst
      using Cons.IH[OF table_ok_tl[OF Cons.prems(1)] f, of ?m] by auto
  qed
qed simp

lemma set_lines_value:
  assumes "table_ok table" "\<forall>kv \<in> set kvs. conf_ok kv" "distinct (map fst kvs)" "f \<in> set table"
  shows "entry_value (fold (set_line atof table) kvs m) f =
      (case map_of kvs (param_name f) of None \<Rightarrow> entry_value m f | Some v \<Rightarrow> value_for atof f v) \<and>
    entry_flag (fold (set_line atof table) kvs m) f =
      (case map_of kvs (param_name f) of None \<Rightarrow> entry_flag m f | Some v \<Rightarrow> map_option (\<lambda>x. 1) (param_set f))"
  using assms(2,3)
proof (induction kvs arbitrary: m)
  case (Cons kv kvs)
  obtain n v where kv: "kv = (n, v)" by (cases kv)
  have c: "clean n" "clean v" using Cons.prems(1) by (auto simp: kv conf_ok_def)
  have "map_of kvs n = None" using Cons.prems(2) by (simp add: kv map_of_eq_None_iff)
  then show ?case
    using Cons set_line_value[OF assms(1) c assms(4), of atof m] by (auto simp: kv split: option.splits)
qed simp

section \<open>Properties of reading\<close>

lemma fold_mark_set:
  "entry_value (fold (\<lambda>e. mark_set e 0) table m) f = entry_value m f \<and>
   entry_flag (fold (\<lambda>e. mark_set e 0) table m) f =
     (if param_set f \<noteq> None \<and> param_set f \<in> param_set ` set table then Some 0 else entry_flag m f)"
proof (induction table arbitrary: m)
  case (Cons e es)
  have "entry_flag (mark_set e 0 m) f = (if param_set f \<noteq> None \<and> param_set f = param_set e then Some 0 else entry_flag m f)"
    by (cases "param_set f") (auto simp: entry_flag_def mark_set_def split: option.splits)
  then show ?case using Cons[of "mark_set e 0 m"] by auto
qed simp

lemma wanted_by_le: "wanted_by table kvs \<le> length table"
  by (simp add: wanted_by_def)


definition num_entry :: "string \<Rightarrow> loc_param_s_type" where
  "num_entry n = \<lparr>param_name = n, param_ptr = Some n, param_size = 4, param_set = None, param_type = CHR ''n''\<rparr>"

definition empty_mem :: conf_mem where
  "empty_mem = \<lparr>cm_num = (\<lambda>v. 0), cm_str = (\<lambda>v. []), cm_dbl = (\<lambda>v. 0), cm_set = (\<lambda>v. 0), cm_overrun = []\<rparr>"


lemma set_entry_ret:
  "param_name e = v_param_name v \<Longrightarrow> param_ptr e \<noteq> None \<Longrightarrow> param_type e \<in> {CHR ''s'', CHR ''n'', CHR ''f''} \<Longrightarrow>
   snd (loc_set_config_entry e v m) = 0"
  by (auto simp: loc_set_config_entry_def)

text \<open>A line sets exactly one entry of a table of two.\<close>

lemma set_entries_two:
  assumes "table_ok [a, b]" "clean n" "n = param_name a \<or> n = param_name b"
  shows "snd (set_entries (parse_value atof n v) [a, b] m 0) = 1"
proof -
  let ?p = "parse_value atof n v"
  have k: "param_name a \<noteq> param_name b" "param_ptr a \<noteq> None" "param_ptr b \<noteq> None"
    "param_type a \<in> {CHR ''s'', CHR ''n'', CHR ''f''}" "param_type b \<in> {CHR ''s'', CHR ''n'', CHR ''f''}"
    using assms(1) by (auto simp: table_ok_def)
  from assms(3) show ?thesis
  proof
    assume n: "n = param_name a"
    then have "snd (loc_set_config_entry a ?p m) = 0" using k assms(2) by (intro set_entry_ret) simp_all
    then obtain m1 where "loc_set_config_entry a ?p m = (m1, 0)" by (metis prod.collapse)
    moreover have "loc_set_config_entry b ?p m1 = (m1, -1)" using n k(1) assms(2) by (intro set_entry_other) simp
    ultimately show ?thesis by (simp add: Let_def)
  next
    assume n: "n = param_name b"
    have "loc_set_config_entry a ?p m = (m, -1)" using n k(1) assms(2) by (intro set_entry_other) simp
    moreover have "snd (loc_set_config_entry b ?p m) = 0" using n k assms(2) by (intro set_entry_ret) simp_all
    then obtain m1 where "loc_set_config_entry b ?p m = (m1, 0)" by (metis prod.collapse)
    ultimately show ?thesis by (simp add: Let_def)
  qed
qed

text \<open>
  A parameter that is given twice counts twice: in a table of two entries, the other one is not read
  any more.
\<close>

theorem conf_duplicate_stops:
  assumes "table_ok [a, b]" "conf_ok (param_name a, x)" "conf_ok (param_name a, y)" "conf_ok (param_name b, z)"
  shows "let (m1, fp1, ret) =
      loc_read_conf_r atof (Some (conf_text [(param_name a, x), (param_name a, y), (param_name b, z)])) [a, b] 2 m
    in entry_value m1 b = entry_value m b \<and> fp1 = Some (conf_text [(param_name b, z)])"
proof -
  define m0 where "m0 = mark_set b 0 (mark_set a 0 m)"
  have c: "clean (param_name a)" "clean x" "clean y" using assms(2,3) by (auto simp: conf_ok_def)
  define m2 where "m2 = set_line atof [a, b] (param_name a, x) m0"
  define m3 where "m3 = set_line atof [a, b] (param_name a, y) m2"
  have s: "set_entries (parse_value atof (param_name a) x) [a, b] m0 0 = (m2, 1)"
    "set_entries (parse_value atof (param_name a) y) [a, b] m2 0 = (m3, 1)"
    using set_entries_two[OF assms(1) c(1)] by (auto simp: m2_def m3_def set_line_def intro!: prod_eqI)
  have t: "conf_text [(param_name a, x), (param_name a, y), (param_name b, z)] =
      conf_line (param_name a, x) @ conf_line (param_name a, y) @ conf_text [(param_name b, z)]"
    by (simp add: conf_text_def)
  have "read_lines atof [a, b] 2 (conf_text [(param_name a, x), (param_name a, y), (param_name b, z)]) m0 =
      (m3, conf_text [(param_name b, z)])"
    unfolding t
    by (simp add: read_lines_step[OF fgets_line[OF assms(2)]] read_lines_step[OF fgets_line[OF assms(3)]]
        fill_line[OF assms(2)] fill_line[OF assms(3)] s read_lines_0 del: set_entries.simps)
  moreover have "entry_value m3 b = entry_value m b"
    using set_line_value[OF assms(1) c(1), of _ b atof] c assms(1) fold_mark_set[of "[a, b]" m b]
    by (auto simp: m0_def m2_def m3_def table_ok_def)
  ultimately show ?thesis by (simp add: loc_read_conf_r_def flip: m0_def)
qed

theorem conf_duplicate_stops_witness:
  "cm_num (fst (loc_read_conf_r (\<lambda>s. 0) (Some ''A=1\<newline>A=2\<newline>B=3\<newline>'') [num_entry ''A'', num_entry ''B''] 2 empty_mem)) ''B'' = 0"
proof -
  have k: "table_ok [num_entry ''A'', num_entry ''B'']" "conf_ok (''A'', ''1'')" "conf_ok (''A'', ''2'')" "conf_ok (''B'', ''3'')"
    by (simp_all add: table_ok_def num_entry_def conf_ok_def clean_def isspace_def LOC_MAX_PARAM_LINE_def
        LOC_MAX_PARAM_NAME_def LOC_MAX_PARAM_STRING_def)
  have t: "conf_text [(''A'', ''1''), (''A'', ''2''), (''B'', ''3'')] = ''A=1\<newline>A=2\<newline>B=3\<newline>''"
    by (simp add: conf_text_def conf_line_def)
  show ?thesis
    using conf_duplicate_stops[of "num_entry ''A''" "num_entry ''B''" "''1''" "''2''" "''3''" "\<lambda>s. 0" empty_mem] k
    unfolding t[symmetric]
    by (auto simp: num_entry_def entry_value_def empty_mem_def split: prod.splits)
qed

text \<open>
  Updating from a text stops one entry early: of the two entries of a table the second is not set, if
  both are given, and a table of one entry is never updated.
\<close>

theorem update_conf_misses_last:
  assumes "table_ok [a, b]" "conf_ok (param_name a, x)" "conf_ok (param_name b, z)"
  shows "entry_value (fst (loc_update_conf atof (conf_text [(param_name a, x), (param_name b, z)]) [a, b] m)) b =
      entry_value m b \<and>
    fst (loc_update_conf atof s [c] m) = m"
proof -
  have cl: "clean (param_name a)" "clean x" using assms(2) by (auto simp: conf_ok_def)
  let ?l = "param_name a @ CHR ''='' # x" and ?r = "conf_text [(param_name b, z)]"
  have t: "conf_text [(param_name a, x), (param_name b, z)] = ?l @ NL # ?r" by (simp add: conf_text_def conf_line_def)
  have nz: "\<forall>ch \<in> set (?l @ NL # ?r). ch \<noteq> CHR 0x00"
  proof -
    have "CHR 0x00 \<notin> set (param_name a)" "CHR 0x00 \<notin> set x" "CHR 0x00 \<notin> set (param_name b)" "CHR 0x00 \<notin> set z"
      using conf_okD[OF assms(2)] conf_okD[OF assms(3)] by (simp_all add: clean_chars)
    then have "CHR 0x00 \<notin> set (?l @ NL # ?r)" by (simp add: conf_text_def conf_line_def)
    then show ?thesis by metis
  qed
  have w: "takeWhile (\<lambda>c. c \<noteq> CHR 0x00) (?l @ NL # ?r) = ?l @ NL # ?r"
    using nz by (subst takeWhile_eq_all_conv) blast
  have "NL \<notin> set ?l" using conf_okD[OF assms(2)] by (simp add: clean_chars)
  then have "strtok NL (?l @ NL # ?r) = Some (?l, ?r)" by (intro strtok_first(1)) simp_all
  then have first: "strtok NL (takeWhile (\<lambda>c. c \<noteq> CHR 0x00) (conf_text [(param_name a, x), (param_name b, z)])) =
      Some (?l, ?r)"
    unfolding t w .
  have nonempty: "conf_text [(param_name a, x), (param_name b, z)] \<noteq> []" by (simp add: t)
  have "loc_fill_conf_item atof ?l [a, b] m = set_entries (parse_value atof (param_name a) x) [a, b] m 0"
  proof -
    have n: "param_name a \<noteq> []" "CHR ''='' \<notin> set (param_name a)" "x \<noteq> []" "CHR ''='' \<notin> set x"
      using cl by (auto simp: clean_def)
    show ?thesis
      by (simp add: loc_fill_conf_item_def split_line_def strtok_first(1)[OF n(1,2)] strtok_first(2)[OF n(3,4)]
          del: set_entries.simps)
  qed
  moreover obtain m2 where m2: "set_entries (parse_value atof (param_name a) x) [a, b] m 0 = (m2, 1)"
    using set_entries_two[OF assms(1) cl(1), of atof x m] by (metis prod.collapse)
  moreover have "update_lines atof [a, b] 0 l m2 n = (m2, n)" for l n
    by (cases l) auto
  ultimately have "loc_update_conf atof (conf_text [(param_name a, x), (param_name b, z)]) [a, b] m = (m2, 1)"
    using nonempty by (simp add: loc_update_conf_def first del: set_entries.simps)
  moreover have "entry_value m2 b = entry_value m b"
    using set_line_value[OF assms(1) cl, of b atof m] m2 assms(1) by (auto simp: set_line_def table_ok_def)
  moreover have "update_lines atof [c] 0 l m n = (m, n)" for l n by (cases l) auto
  then have "fst (loc_update_conf atof s [c] m) = m" by (simp add: loc_update_conf_def)
  ultimately show ?thesis by simp
qed

theorem update_conf_misses_last_witness:
  "cm_num (fst (loc_update_conf (\<lambda>s. 0) ''A=1\<newline>B=3\<newline>'' [num_entry ''A'', num_entry ''B''] empty_mem)) ''B'' = 0"
proof -
  have k: "table_ok [num_entry ''A'', num_entry ''B'']" "conf_ok (''A'', ''1'')" "conf_ok (''B'', ''3'')"
    by (simp_all add: table_ok_def num_entry_def conf_ok_def clean_def isspace_def LOC_MAX_PARAM_LINE_def
        LOC_MAX_PARAM_NAME_def LOC_MAX_PARAM_STRING_def)
  have t: "conf_text [(''A'', ''1''), (''B'', ''3'')] = ''A=1\<newline>B=3\<newline>''"
    by (simp add: conf_text_def conf_line_def)
  show ?thesis
    using update_conf_misses_last[of "num_entry ''A''" "num_entry ''B''" "''1''" "''3''" "\<lambda>s. 0" empty_mem] k
    unfolding t[symmetric] by (auto simp: num_entry_def entry_value_def empty_mem_def)
qed

end
