(* ===== verification/Proc_Conf_Proofs.thy ===== *)
theory Proc_Conf_Proofs
  imports Proc_Conf Cfg_Proofs
begin

unbundle bit_operations_syntax

text \<open>
  What holds of the launcher's configuration: when a process is enabled, that a file of blocks gives each
  process the values of its own block, what the groups and arguments are, and a value that is too long
  for its variable.
\<close>

section \<open>When a process is enabled\<close>

text \<open>The reference: what a list of platforms or basebands admits.\<close>

definition admits :: "string \<Rightarrow> (string \<Rightarrow> bool) \<Rightarrow> string list \<Rightarrow> bool" where
  "admits name matches ss =
     (case ss of
        [] \<Rightarrow> False
      | s # rest \<Rightarrow>
          if s = ''all''
          then (case rest of [] \<Rightarrow> True | t # xs \<Rightarrow> t = ''exclude'' \<and> name \<notin> set xs)
          else \<exists>t \<in> set ss. matches t)"

definition words :: "string \<Rightarrow> conf_mem \<Rightarrow> string list" where
  "words var m = loc_util_split_string (cm_str m var) MAX_NUM_STRINGS CHR '' ''"

lemma split_from_not_Nil: "split_from d n cur s \<noteq> []"
  by (induction d n cur s rule: split_from.induct) auto

lemma words_not_Nil: "words var m \<noteq> []"
  by (simp add: words_def loc_util_split_string_def split_from_not_Nil)

lemma match_mask_admits:
  assumes "ss \<noteq> []" "c AND found_bit = 0"
  shows "\<exists>b \<in> {all_bit, found_bit}. match_mask all_bit found_bit name matches ss c =
    (if admits name matches ss then c OR b else c)"
proof -
  have n: "(c OR found_bit) AND NOT found_bit = c"
    using assms(2) by (auto simp: bit_eq_iff bit_simps)
  obtain s rest where ss: "ss = s # rest" using assms(1) by (cases ss) auto
  show ?thesis
  proof (cases rest)
    case Nil
    then show ?thesis by (auto simp: match_mask_def admits_def ss list_ex_iff)
  next
    case (Cons t xs)
    then show ?thesis using n by (cases xs) (auto simp: match_mask_def admits_def ss list_ex_iff)
  qed
qed

text \<open>The masks of the three tests stay apart.\<close>

lemma three_masks:
  fixes p q r :: u8
  assumes "p \<in> {0, 0x01, 0x02}" "q \<in> {0, 0x04, 0x08}" "r \<in> {0, 0x10, 0x20}"
  shows "(p OR q OR r) AND 0x03 \<noteq> 0 \<longleftrightarrow> p \<noteq> 0" "(p OR q OR r) AND 0x0C \<noteq> 0 \<longleftrightarrow> q \<noteq> 0"
    "(p OR q OR r) AND 0x30 \<noteq> 0 \<longleftrightarrow> r \<noteq> 0" "p AND 0x08 = 0"
  using assms by (elim insertE emptyE; simp)+

lemma split_conf_words: "split_conf var m = (words var m, m\<lparr>cm_str := (cm_str m)(var := words var m ! 0)\<rparr>)"
  by (simp add: split_conf_def words_def Let_def)

lemma words_upd: "f v = cm_str m v \<Longrightarrow> words v (m\<lparr>cm_str := f\<rparr>) = words v m"
  by (simp add: words_def)

text \<open>The mask of the three tests of a process.\<close>

definition config_mask_of :: "proc_env \<Rightarrow> conf_mem \<Rightarrow> u8" where
  "config_mask_of w m =
     auto_mask (pe_auto_platform w) (words ''conf.auto_platform'' m)
       (match_mask 0x04 0x08 (pe_baseband w)
          (\<lambda>s. pe_baseband w = s \<or> (''sglte'' = s \<and> cm_num m ''conf.sglte_target'' \<noteq> 0)) (words ''conf.baseband'' m)
         (match_mask 0x01 0x02 (pe_platform w) (\<lambda>s. pe_platform w = s) (words ''conf.platform_list'' m) 0))"

definition device_admitted :: "proc_env \<Rightarrow> conf_mem \<Rightarrow> bool" where
  "device_admitted w m \<longleftrightarrow>
     admits (pe_platform w) (\<lambda>s. pe_platform w = s) (words ''conf.platform_list'' m) \<and>
     admits (pe_baseband w) (\<lambda>s. pe_baseband w = s \<or> (''sglte'' = s \<and> cm_num m ''conf.sglte_target'' \<noteq> 0))
       (words ''conf.baseband'' m) \<and>
     (hd (words ''conf.auto_platform'' m) = ''all'' \<or> pe_auto_platform w \<in> set (words ''conf.auto_platform'' m))"

lemma config_mask_admitted:
  "config_mask_of w m AND 0x03 \<noteq> 0 \<and> config_mask_of w m AND 0x0C \<noteq> 0 \<and> config_mask_of w m AND 0x30 \<noteq> 0 \<longleftrightarrow>
   device_admitted w m"
proof -
  let ?P = "admits (pe_platform w) (\<lambda>s. pe_platform w = s) (words ''conf.platform_list'' m)"
  let ?B = "admits (pe_baseband w) (\<lambda>s. pe_baseband w = s \<or> (''sglte'' = s \<and> cm_num m ''conf.sglte_target'' \<noteq> 0))
       (words ''conf.baseband'' m)"
  let ?A = "hd (words ''conf.auto_platform'' m) = ''all'' \<or> pe_auto_platform w \<in> set (words ''conf.auto_platform'' m)"
  let ?pl = "words ''conf.platform_list'' m" and ?bb = "words ''conf.baseband'' m"
  let ?sg = "\<lambda>s. pe_baseband w = s \<or> (''sglte'' = s \<and> cm_num m ''conf.sglte_target'' \<noteq> 0)"
  obtain b where b: "b \<in> {0x01, 0x02 :: u8}"
    "match_mask 0x01 0x02 (pe_platform w) (\<lambda>s. pe_platform w = s) ?pl 0 = (if ?P then 0 OR b else 0)"
    using match_mask_admits[where ss = ?pl and c = 0 and found_bit = "0x02" and all_bit = "0x01"
        and name = "pe_platform w" and matches = "\<lambda>s. pe_platform w = s"] words_not_Nil by auto
  define p where "p = (if ?P then b else 0)"
  have p: "p \<in> {0, 0x01, 0x02}" "p \<noteq> 0 \<longleftrightarrow> ?P"
    "match_mask 0x01 0x02 (pe_platform w) (\<lambda>s. pe_platform w = s) ?pl 0 = p"
    using b by (auto simp: p_def)
  have p8: "p AND 0x08 = 0" using three_masks(4)[OF p(1), of 0 0] by simp
  obtain d where d: "d \<in> {0x04, 0x08 :: u8}"
    "match_mask 0x04 0x08 (pe_baseband w) ?sg ?bb p = (if ?B then p OR d else p)"
    using match_mask_admits[where ss = ?bb and c = p and found_bit = "0x08" and all_bit = "0x04"
        and name = "pe_baseband w" and matches = ?sg] words_not_Nil p8 by auto
  define q where "q = (if ?B then d else 0)"
  have q: "q \<in> {0, 0x04, 0x08}" "q \<noteq> 0 \<longleftrightarrow> ?B" "match_mask 0x04 0x08 (pe_baseband w) ?sg ?bb p = p OR q"
    using d by (auto simp: q_def)
  define r where "r = (if hd (words ''conf.auto_platform'' m) = ''all'' then 0x10 else if ?A then 0x20 else (0 :: u8))"
  have r: "r \<in> {0, 0x10, 0x20}" "r \<noteq> 0 \<longleftrightarrow> ?A"
    by (auto simp: r_def)
  have r3: "auto_mask (pe_auto_platform w) (words ''conf.auto_platform'' m) (p OR q) = p OR q OR r"
    using hd_conv_nth[OF words_not_Nil[of "''conf.auto_platform''" m]]
    by (auto simp: auto_mask_def list_ex_iff r_def or.assoc)
  have "config_mask_of w m = p OR q OR r" by (simp add: config_mask_of_def p(3) q(3) r3)
  then show ?thesis
    using three_masks[OF p(1) q(1) r(1)] p(2) q(2) r(2) by (simp add: device_admitted_def)
qed

text \<open>The entry before the arguments are set.\<close>

definition named_process :: "proc_env \<Rightarrow> conf_mem \<Rightarrow> loc_process_info_s_type" where
  "named_process w m =
     (let (gs, n) = fill_groups (pe_getpwnam w) 0 (words ''conf.group_list'' m) (pi_group_list blank_process, 0)
      in blank_process\<lparr>pi_name := cm_str m ''conf.proc_name'', pi_group_list := gs, pi_num_groups := n\<rparr>)"

lemma start_process_upd:
  "f ''conf.proc_argument'' = cm_str m ''conf.proc_argument'' \<Longrightarrow>
   start_process (m\<lparr>cm_str := f\<rparr>) service p = start_process m service p"
  by (simp add: start_process_def Let_def)

lemma read_process_fst:
  "fst (read_process w service m) =
    (if missing_parameter m then blank_process
     else if cm_str m ''conf.proc_status'' = ''DISABLED'' then blank_process\<lparr>proc_status := DISABLED_FROM_CONF\<rparr>
     else if LOC_MAX_PARAM_STRING < length (cm_str m ''conf.proc_name'') + 1 then blank_process
     else if device_admitted w m then start_process m service (named_process w m) else named_process w m)"
  unfolding config_mask_admitted[symmetric] config_mask_of_def named_process_def read_process_def
    split_conf_words Let_def
  by (simp add: words_upd start_process_upd split: prod.splits)

definition feature_on :: "u32 \<Rightarrow> conf_mem \<Rightarrow> bool" where
  "feature_on service m \<longleftrightarrow>
     cm_num m ''conf.premium_feature'' = 0 \<or> cm_num m ''conf.loc_feature_mask'' AND service \<noteq> 0"

lemma start_process_status:
  "proc_status (start_process m service p) = (if feature_on service m then ENABLED else proc_status p)"
  by (simp add: start_process_def Let_def feature_on_def)

lemma named_process_status [simp]: "proc_status (named_process w m) = DISABLED"
  by (simp add: named_process_def blank_process_def split: prod.splits)


section \<open>Groups\<close>

lemma fill_groups_known:
  assumes "\<forall>s \<in> set ss. f s \<noteq> None" "i + length ss \<le> length gs"
  shows "fill_groups f i ss (gs, n) =
    (take i gs @ map (\<lambda>s. the (f s)) ss @ drop (i + length ss) gs, n + of_nat (length ss))"
  using assms
proof (induction ss arbitrary: i gs n)
  case (Cons s ss)
  then obtain g where g: "f s = Some g" by auto
  have "fill_groups f i (s # ss) (gs, n) = fill_groups f (i + 1) ss (gs[i := g], n + 1)" by (simp add: g)
  also have "\<dots> = (take (i + 1) (gs[i := g]) @ map (\<lambda>s. the (f s)) ss @ drop (i + 1 + length ss) (gs[i := g]),
      n + 1 + of_nat (length ss))"
    using Cons.prems by (intro Cons.IH) auto
  also have "take (i + 1) (gs[i := g]) = take i gs @ [g]"
    using Cons.prems(2) by (simp add: take_Suc_conv_app_nth)
  finally show ?case using g by (simp add: ac_simps)
qed simp

lemma length_split_from: "1 \<le> n \<Longrightarrow> length (split_from d n cur s) \<le> n"
proof (induction d n cur s rule: split_from.induct)
  case (2 d n cur c cs)
  show ?case
  proof (cases "n \<le> 1")
    case False
    then have "1 \<le> n - 1" by simp
    then show ?thesis using 2 False by (cases "c = d") auto
  qed (use 2 in simp)
qed simp

lemma length_words: "length (words var m) \<le> MAX_NUM_STRINGS"
  by (simp add: words_def loc_util_split_string_def length_split_from MAX_NUM_STRINGS_def)

text \<open>
  If every group of a process is known, the list of its groups starts with them and counts them. If the
  first of two groups is unknown, the list still starts with the number 0, and the count says that
  this is the only group: the process is started with the group of the superuser instead of its own.
\<close>

theorem groups_of_process:
  assumes "pi_name (fst (read_process w service m)) \<noteq> []"
  shows "((\<forall>s \<in> set (words ''conf.group_list'' m). pe_getpwnam w s \<noteq> None) \<longrightarrow>
      take (unat (pi_num_groups (fst (read_process w service m)))) (pi_group_list (fst (read_process w service m))) =
        map (\<lambda>s. the (pe_getpwnam w s)) (words ''conf.group_list'' m)) \<and>
    (\<forall>a b. words ''conf.group_list'' m = [a, b] \<and> pe_getpwnam w a = None \<and> pe_getpwnam w b \<noteq> None \<longrightarrow>
      pi_num_groups (fst (read_process w service m)) = 1 \<and> pi_group_list (fst (read_process w service m)) ! 0 = 0)"
proof -
  let ?g = "words ''conf.group_list'' m" and ?z = "replicate LOC_PROCESS_MAX_NUM_GROUPS (0 :: u32)"
  have n: "fst (read_process w service m) = start_process m service (named_process w m) \<or>
      fst (read_process w service m) = named_process w m"
    using assms by (auto simp: read_process_fst blank_process_def split: if_splits)
  have p: "pi_group_list (fst (read_process w service m)) = fst (fill_groups (pe_getpwnam w) 0 ?g (?z, 0))"
    "pi_num_groups (fst (read_process w service m)) = snd (fill_groups (pe_getpwnam w) 0 ?g (?z, 0))"
    using n by (auto simp: start_process_def Let_def named_process_def blank_process_def split: prod.splits)
  have l: "length ?g \<le> 20" using length_words[of _ m] by (simp add: MAX_NUM_STRINGS_def)
  then have u: "unat (of_nat (length ?g) :: u8) = length ?g"
    by (simp add: unat_of_nat)
  have "take (unat (snd (fill_groups (pe_getpwnam w) 0 ?g (?z, 0)))) (fst (fill_groups (pe_getpwnam w) 0 ?g (?z, 0))) =
      map (\<lambda>s. the (pe_getpwnam w s)) ?g"
    if "\<forall>s \<in> set ?g. pe_getpwnam w s \<noteq> None"
    using fill_groups_known[OF that, of 0 ?z 0] l u by (simp add: LOC_PROCESS_MAX_NUM_GROUPS_def)
  then show ?thesis unfolding p by (auto simp: LOC_PROCESS_MAX_NUM_GROUPS_def)
qed

theorem groups_of_process_witness:
  "let w = \<lparr>pe_atof = \<lambda>s. 0, pe_gps_conf = None, pe_platform = ''msm8996'', pe_baseband = ''msm'',
             pe_auto_platform = [], pe_getpwnam = [''gps'' \<mapsto> 1021], pe_calloc_ok = \<lambda>n. True\<rparr>;
       m = empty_mem\<lparr>cm_str := (\<lambda>v. ''all'')(''conf.group_list'' := ''net gps'')\<rparr>
   in pi_num_groups (fst (read_process w 0 m)) = 1 \<and> pi_group_list (fst (read_process w 0 m)) ! 0 = 0"
proof -
  define w where "w = \<lparr>pe_atof = \<lambda>s. 0, pe_gps_conf = None, pe_platform = ''msm8996'', pe_baseband = ''msm'',
    pe_auto_platform = [], pe_getpwnam = [''gps'' \<mapsto> 1021 :: u32], pe_calloc_ok = \<lambda>n. True\<rparr>"
  define m where "m = empty_mem\<lparr>cm_str := (\<lambda>v. ''all'')(''conf.group_list'' := ''net gps'')\<rparr>"
  have s: "words ''conf.group_list'' m = [''net'', ''gps'']"
    by (simp add: words_def m_def loc_util_split_string_def MAX_NUM_STRINGS_def)
  have "pi_name (start_process n v p) = pi_name p" for n v p by (simp add: start_process_def Let_def)
  then have "pi_name (fst (read_process w 0 m)) \<noteq> []"
    by (simp add: read_process_fst m_def missing_parameter_def LOC_MAX_PARAM_STRING_def named_process_def
        split: prod.splits)
  from groups_of_process[OF this] show ?thesis
    unfolding Let_def w_def[symmetric] m_def[symmetric] by (auto simp: s w_def)
qed

section \<open>Arguments\<close>

lemma put_arg_fst [simp]: "fst (put_arg s out) = fst out + 1"
  by (simp add: put_arg_def split: prod.splits)

lemma put_feature_fst [simp]: "fst (put_feature n v out) = fst out + 2"
  by (simp add: put_feature_def)

lemma feature_args_fst: "fst (feature_args fm service out) \<le> fst out + 10 \<and> fst out \<le> fst (feature_args fm service out)"
proof -
  have "fst (wifi_args fm service o1) \<le> fst o1 + 2 \<and> fst o1 \<le> fst (wifi_args fm service o1)"
    "fst (cell_args fm service o1) \<le> fst o1 + 4 \<and> fst o1 \<le> fst (cell_args fm service o1)"
    "fst (waa_args fm service o1) \<le> fst o1 + 2 \<and> fst o1 \<le> fst (waa_args fm service o1)"
    "fst (sap_args fm service o1) \<le> fst o1 + 2 \<and> fst o1 \<le> fst (sap_args fm service o1)" for o1
    by (simp_all add: wifi_args_def cell_args_def waa_args_def sap_args_def)
  from this(1)[of out] this(2)[of "wifi_args fm service out"]
    this(3)[of "cell_args fm service (wifi_args fm service out)"]
    this(4)[of "waa_args fm service (cell_args fm service (wifi_args fm service out))"]
  show ?thesis unfolding feature_args_def by linarith
qed

definition args_fit :: "string list \<Rightarrow> bool" where
  "args_fit args \<longleftrightarrow> length args = LOC_PROCESS_MAX_NUM_ARGS \<and>
     (\<forall>a \<in> set args. length a < LOC_PROCESS_MAX_ARG_STR_LENGTH)"

lemma put_arg_fit:
  assumes "args_fit (snd out)"
  shows "args_fit (snd (put_arg s out))"
proof (cases out)
  case (Pair i args)
  let ?a = "strlcpy LOC_PROCESS_MAX_ARG_STR_LENGTH s"
  have l: "length args = LOC_PROCESS_MAX_NUM_ARGS" "\<forall>a \<in> set args. length a < LOC_PROCESS_MAX_ARG_STR_LENGTH"
    using assms Pair by (simp_all add: args_fit_def)
  have "length ?a < LOC_PROCESS_MAX_ARG_STR_LENGTH"
    by (simp add: strlcpy_def LOC_PROCESS_MAX_ARG_STR_LENGTH_def)
  then have "\<forall>a \<in> set (args[i := ?a]). length a < LOC_PROCESS_MAX_ARG_STR_LENGTH"
    using l(2) set_update_subset_insert[of args i ?a] by blast
  then show ?thesis using l(1) Pair by (simp add: args_fit_def put_arg_def)
qed

lemma put_feature_fit: "args_fit (snd out) \<Longrightarrow> args_fit (snd (put_feature n v out))"
  by (simp add: put_feature_def put_arg_fit)

lemma parts_fit:
  assumes "args_fit (snd out)"
  shows "args_fit (snd (wifi_args fm service out))" "args_fit (snd (cell_args fm service out))"
    "args_fit (snd (waa_args fm service out))" "args_fit (snd (sap_args fm service out))"
  using assms by (simp_all add: wifi_args_def cell_args_def waa_args_def sap_args_def put_feature_fit)

lemma feature_args_fit: "args_fit (snd out) \<Longrightarrow> args_fit (snd (feature_args fm service out))"
  unfolding feature_args_def by (intro parts_fit)

lemma conf_args_fit:
  assumes "args_fit (snd out)"
  shows "args_fit (conf_args argument out)"
proof -
  have "args_fit (snd (fold put_arg ss out))" for ss
    using assms by (induction ss arbitrary: out) (auto simp: put_arg_fit)
  then show ?thesis using assms by (simp add: conf_args_def)
qed

lemma blank_args_fit: "args_fit (pi_args blank_process)"
  by (simp add: args_fit_def blank_process_def LOC_PROCESS_MAX_ARG_STR_LENGTH_def)

text \<open>
  The arguments of a process are 25 texts of at most 31 characters, and no argument is stored behind
  them: those of the features and those of the file together are no more than 25.
\<close>

theorem launch_arguments_fit:
  "length (pi_args (fst (read_process w service m))) = LOC_PROCESS_MAX_NUM_ARGS \<and>
   filter (\<lambda>a. LOC_PROCESS_MAX_ARG_STR_LENGTH \<le> length a) (pi_args (fst (read_process w service m))) = [] \<and>
   fst (feature_args fm service (put_arg n (0, args))) +
     length (loc_util_split_string argument
       (LOC_PROCESS_MAX_NUM_ARGS - fst (feature_args fm service (put_arg n (0, args)))) CHR '' '')
     \<le> LOC_PROCESS_MAX_NUM_ARGS"
proof -
  have "args_fit (pi_args (named_process w m))"
    using blank_args_fit by (simp add: named_process_def split: prod.splits)
  then have "args_fit (pi_args (start_process m service (named_process w m)))"
    by (simp add: start_process_def Let_def conf_args_fit feature_args_fit put_arg_fit)
  then have "args_fit (pi_args (fst (read_process w service m)))"
    using \<open>args_fit (pi_args (named_process w m))\<close> blank_args_fit by (simp add: read_process_fst)
  moreover have f: "fst (feature_args fm service (put_arg n (0, args))) \<le> 11"
    using feature_args_fst[of fm service "put_arg n (0, args)"] by simp
  then have "1 \<le> LOC_PROCESS_MAX_NUM_ARGS - fst (feature_args fm service (put_arg n (0, args)))" (is "1 \<le> ?room")
    by (simp add: LOC_PROCESS_MAX_NUM_ARGS_def)
  then have "length (loc_util_split_string argument ?room CHR '' '') \<le> ?room"
    by (simp add: loc_util_split_string_def length_split_from)
  moreover have "1 \<le> ?room" by fact
  ultimately show ?thesis
    by (auto simp: args_fit_def filter_empty_conv not_le)
qed

section \<open>Values that are too long\<close>

text \<open>
  The variables of the launcher have 80 bytes, but a value is cut to 80 characters and a zero: the name
  of a process with 80 or more characters is stored one byte beyond its variable.
\<close>

theorem launcher_value_overrun:
  assumes "conf_ok (''PROCESS_NAME'', v)" "v \<noteq> ''NULL''"
  shows "cm_overrun (fst (loc_fill_conf_item atof (conf_line (''PROCESS_NAME'', v)) loc_process_conf_parameter_table m)) =
    cm_overrun m @ (if LOC_MAX_PARAM_STRING \<le> length v then [''conf.proc_name''] else [])"
proof -
  have c: "clean ''PROCESS_NAME''" "clean v" using assms(1) by (auto simp: conf_ok_def)
  have n: "v_param_name (parse_value atof ''PROCESS_NAME'' v) = ''PROCESS_NAME''" using c(1) by simp
  have s: "v_param_str_value (parse_value atof ''PROCESS_NAME'' v) = v"
    using trimmed_clean[OF c(2)] by (simp add: parse_value_def trim_space_eq Let_def)
  have "set_entries (parse_value atof ''PROCESS_NAME'' v) (tl loc_process_conf_parameter_table) t r = (t, r)" for t r
    by (rule set_entries_none) (simp add: loc_process_conf_parameter_table_def conf_str_def conf_num_def n)
  then have "fst (set_entries (parse_value atof ''PROCESS_NAME'' v) loc_process_conf_parameter_table m 0) =
      fst (loc_set_config_entry (conf_str ''PROCESS_NAME'' ''conf.proc_name'') (parse_value atof ''PROCESS_NAME'' v) m)"
    using set_entries_fst[of "parse_value atof ''PROCESS_NAME'' v" "hd loc_process_conf_parameter_table"
        "tl loc_process_conf_parameter_table" m 0]
    by (simp add: loc_process_conf_parameter_table_def)
  then show ?thesis
    using assms(2)
    by (simp add: fill_line[OF assms(1)] loc_set_config_entry_def conf_str_def n s mark_set_def store_str_def
        strlcpy_def LOC_MAX_PARAM_STRING_def)
qed

theorem launcher_value_overrun_witness:
  "cm_overrun (fst (loc_fill_conf_item (\<lambda>s. 0) (conf_line (''PROCESS_NAME'', replicate 100 CHR ''a''))
     loc_process_conf_parameter_table empty_mem)) = [''conf.proc_name'']"
proof -
  have "clean (replicate 100 CHR ''a'')" by (simp add: clean_def isspace_def)
  moreover have "clean ''PROCESS_NAME''" by (simp add: clean_def isspace_def)
  ultimately have "conf_ok (''PROCESS_NAME'', replicate 100 CHR ''a'')"
    by (simp add: conf_ok_def LOC_MAX_PARAM_LINE_def LOC_MAX_PARAM_NAME_def LOC_MAX_PARAM_STRING_def)
  moreover have "length (replicate 100 CHR ''a'') \<noteq> length ''NULL''" by simp
  then have "replicate 100 CHR ''a'' \<noteq> ''NULL''" by metis
  ultimately show ?thesis
    using launcher_value_overrun[of "replicate 100 CHR ''a''" "\<lambda>s. 0" empty_mem]
    by (simp add: LOC_MAX_PARAM_STRING_def empty_mem_def)
qed

end
