(* ===== verification/Loc_Nmea.thy ===== *)
theory Loc_Nmea
  imports Gnss_Reports C_Strings
begin

unbundle bit_operations_syntax

text \<open>
  The NMEA sentences that \<open>gps/utils/loc_nmea.cpp\<close> makes of a position and of the satellites in view.

  A sentence is printed piece by piece into a buffer of 200 bytes. Most pieces are checked: one that does
  not fit ends the function. Some are not, and are cut; a further one behind them would be written outside
  of the buffer, which is the value \<open>None\<close> of the functions.

  Floating-point numbers are bit patterns; the operations on them, the printing of a double under
  a format and a shift by more than the width are the record \<open>nmea_env\<close>.
\<close>

record nmea_env =
  ne_lit :: "string \<Rightarrow> u64"
  ne_f2d :: "u32 \<Rightarrow> u64"
  ne_d2f :: "u64 \<Rightarrow> u32"
  ne_add :: "u64 \<Rightarrow> u64 \<Rightarrow> u64"
  ne_sub :: "u64 \<Rightarrow> u64 \<Rightarrow> u64"
  ne_mul :: "u64 \<Rightarrow> u64 \<Rightarrow> u64"
  ne_div :: "u64 \<Rightarrow> u64 \<Rightarrow> u64"
  ne_fmod :: "u64 \<Rightarrow> u64 \<Rightarrow> u64"
  ne_floor :: "u64 \<Rightarrow> u64"
  ne_lt :: "u64 \<Rightarrow> u64 \<Rightarrow> bool"
  ne_d2i :: "u64 \<Rightarrow> i32"
  ne_d2u8 :: "u64 \<Rightarrow> u8"
  ne_printf :: "string \<Rightarrow> u64 \<Rightarrow> string"
  ne_shift :: "int \<Rightarrow> u32"

definition NMEA_SENTENCE_MAX_LENGTH :: nat where "NMEA_SENTENCE_MAX_LENGTH = 200"
definition GLONASS_SV_ID_OFFSET :: u32 where "GLONASS_SV_ID_OFFSET = 64"
definition MAX_SATELLITES_IN_USE :: nat where "MAX_SATELLITES_IN_USE = 12"

section \<open>Constellations\<close>

record loc_nmea_sv_meta =
  talker :: string
  nm_svType :: GnssSvType
  nm_mask :: u32
  nm_svCount :: u32
  svIdOffset :: u32
  signalId :: u32
  systemId :: u32

record loc_sv_cache_info =
  gps_used_mask :: u32
  glo_used_mask :: u32
  gal_used_mask :: u32
  qzss_used_mask :: u32
  bds_used_mask :: u32
  gps_count :: u32
  glo_count :: u32
  gal_count :: u32
  qzss_count :: u32
  bds_count :: u32

definition empty_cache :: loc_sv_cache_info where
  "empty_cache = \<lparr>gps_used_mask = 0, glo_used_mask = 0, gal_used_mask = 0, qzss_used_mask = 0,
     bds_used_mask = 0, gps_count = 0, glo_count = 0, gal_count = 0, qzss_count = 0, bds_count = 0\<rparr>"

definition sv_meta_of :: "loc_sv_cache_info \<Rightarrow> GnssSvType \<Rightarrow> loc_nmea_sv_meta option" where
  "sv_meta_of c ty =
     (case ty of
        GNSS_SV_TYPE_GPS \<Rightarrow>
          Some \<lparr>talker = ''GP'', nm_svType = ty, nm_mask = gps_used_mask c, nm_svCount = gps_count c,
                svIdOffset = 0, signalId = 1, systemId = 1\<rparr>
      | GNSS_SV_TYPE_GLONASS \<Rightarrow>
          Some \<lparr>talker = ''GL'', nm_svType = ty, nm_mask = glo_used_mask c, nm_svCount = glo_count c,
                svIdOffset = GLONASS_SV_ID_OFFSET, signalId = 1, systemId = 2\<rparr>
      | GNSS_SV_TYPE_GALILEO \<Rightarrow>
          Some \<lparr>talker = ''GA'', nm_svType = ty, nm_mask = gal_used_mask c, nm_svCount = gal_count c,
                svIdOffset = 0, signalId = 7, systemId = 3\<rparr>
      | GNSS_SV_TYPE_QZSS \<Rightarrow>
          Some \<lparr>talker = ''PQ'', nm_svType = ty, nm_mask = qzss_used_mask c, nm_svCount = qzss_count c,
                svIdOffset = 0, signalId = 0, systemId = 5\<rparr>
      | GNSS_SV_TYPE_BEIDOU \<Rightarrow>
          Some \<lparr>talker = ''PQ'', nm_svType = ty, nm_mask = bds_used_mask c, nm_svCount = bds_count c,
                svIdOffset = 0, signalId = 0, systemId = 4\<rparr>
      | _ \<Rightarrow> None)"

definition systems_used :: "loc_sv_cache_info \<Rightarrow> nat" where
  "systems_used c =
     (if gps_used_mask c \<noteq> 0 then 1 else 0) + (if glo_used_mask c \<noteq> 0 then 1 else 0) +
     (if gal_used_mask c \<noteq> 0 then 1 else 0) + (if qzss_used_mask c \<noteq> 0 then 1 else 0) +
     (if bds_used_mask c \<noteq> 0 then 1 else 0)"

definition loc_nmea_sv_meta_init ::
  "loc_sv_cache_info \<Rightarrow> GnssSvType \<Rightarrow> bool \<Rightarrow> loc_nmea_sv_meta option" where
  "loc_nmea_sv_meta_init c ty needCombine =
     map_option (\<lambda>m. if needCombine \<and> 1 < systems_used c then m\<lparr>talker := ''GN''\<rparr> else m) (sv_meta_of c ty)"

section \<open>Printing into the buffer\<close>

text \<open>A piece, and whether the code checks that it fits.\<close>

type_synonym piece = "bool \<times> string"

datatype printed = Sentence string | Format_error | Out_of_buffer

text \<open>
  \<open>snprintf\<close> stores what fits with a zero behind it and returns the length of the whole piece, by
  which the code moves on.
\<close>

fun run_prints :: "piece list \<Rightarrow> string \<Rightarrow> nat \<Rightarrow> printed" where
  "run_prints [] s pos = Sentence s"
| "run_prints ((checked, t) # ps) s pos =
     (if NMEA_SENTENCE_MAX_LENGTH < pos then Out_of_buffer
      else if checked \<and> NMEA_SENTENCE_MAX_LENGTH - pos \<le> length t then Format_error
      else run_prints ps (take pos s @ take (NMEA_SENTENCE_MAX_LENGTH - pos - 1) t) (pos + length t))"

definition checksum :: "string \<Rightarrow> u8" where
  "checksum s = fold (\<lambda>c x. x XOR of_char c) s 0"

text \<open>The sentence with its checksum, as far as that fits, and the length it would have.\<close>

definition loc_nmea_put_checksum :: "string \<Rightarrow> nat \<Rightarrow> string \<times> nat" where
  "loc_nmea_put_checksum s maxSize =
     (let body = tl s;
          check = ''*'' @ print_02X (checksum body) @ [CHR 0x0D, CHR 0x0A]
      in (s @ take (maxSize - length body - 2) check, length body + length check + 1))"

definition put_sentence :: "string \<Rightarrow> string list \<Rightarrow> string list" where
  "put_sentence s nmeaArraystr = nmeaArraystr @ [fst (loc_nmea_put_checksum s NMEA_SENTENCE_MAX_LENGTH)]"

section \<open>Satellites used\<close>

text \<open>The loop over the bits of the mask: at most 32 ids.\<close>

function used_list :: "u32 \<Rightarrow> u8 \<Rightarrow> u32 \<Rightarrow> u32 list \<Rightarrow> u32 list" where
  "used_list offset i m acc =
     (if m = 0 \<or> 32 \<le> length acc then acc
      else used_list offset (i + 1) (drop_bit 1 m) (if m AND 1 \<noteq> 0 then acc @ [ucast i + offset] else acc))"
  by pat_completeness auto
termination
proof (relation "measure (\<lambda>(off, i, m, acc). unat m)", goal_cases)
  case (2 offset i m acc)
  then have "0 < unat m" by (simp add: unat_gt_0)
  then have "unat m div 2 < unat m" by simp
  moreover have "unat (drop_bit 1 m) = unat m div 2" by (subst unat_drop_bit_eq) (simp only: drop_bit_eq_div power_one_right)
  ultimately show ?case by (simp del: drop_bit_Suc)
qed simp

declare used_list.simps [simp del]

definition fix_type :: "nat \<Rightarrow> char" where
  "fix_type n = (if n = 0 then CHR ''1'' else if n \<le> 3 then CHR ''2'' else CHR ''3'')"

definition float_1 :: "nmea_env \<Rightarrow> u32 \<Rightarrow> string" where
  "float_1 ne x = ne_printf ne ''%.1f'' (ne_f2d ne x)"

definition HAS_DOP :: u32 where "HAS_DOP = 0x0001"
definition HAS_ALTITUDE_MEAN_SEA_LEVEL :: u32 where "HAS_ALTITUDE_MEAN_SEA_LEVEL = 0x0002"
definition HAS_MAG_DEV :: u32 where "HAS_MAG_DEV = 0x0004"
definition HAS_GNSS_SV_USED_DATA :: u32 where "HAS_GNSS_SV_USED_DATA = 0x1000"

definition gsa_prints :: "nmea_env \<Rightarrow> GpsLocationExtended \<Rightarrow> loc_nmea_sv_meta \<Rightarrow> u32 list \<Rightarrow> piece list" where
  "gsa_prints ne e meta used =
     [(True, ''$'' @ talker meta @ ''GSA,A,'' @ [fix_type (length used)] @ '','')] @
     map (\<lambda>i. (True, if i < length used then print_d 2 (sint (used ! i)) @ '','' else '','')) [0..<12] @
     [(False, if le_flags e AND HAS_DOP \<noteq> 0
              then float_1 ne (le_pdop e) @ '','' @ float_1 ne (le_hdop e) @ '','' @ float_1 ne (le_vdop e) @ '',''
              else '',,,''),
      (False, print_d 0 (sint (systemId meta)))]"

definition loc_nmea_generate_GSA ::
  "nmea_env \<Rightarrow> GpsLocationExtended \<Rightarrow> loc_nmea_sv_meta option \<Rightarrow> string list \<Rightarrow> (nat \<times> string list) option"
where
  "loc_nmea_generate_GSA ne e sv_meta_p nmeaArraystr =
     (case sv_meta_p of
        None \<Rightarrow> Some (0, nmeaArraystr)
      | Some meta \<Rightarrow>
          let used = used_list (svIdOffset meta) 1 (nm_mask meta) []
          in if used = [] \<and> nm_svType meta \<noteq> GNSS_SV_TYPE_GPS then Some (0, nmeaArraystr)
             else case run_prints (gsa_prints ne e meta used) [] 0 of
                    Format_error \<Rightarrow> Some (0, nmeaArraystr)
                  | Out_of_buffer \<Rightarrow> None
                  | Sentence s \<Rightarrow> Some (length used, put_sentence s nmeaArraystr))"

section \<open>Satellites in view\<close>

definition round_int :: "nmea_env \<Rightarrow> u32 \<Rightarrow> int" where
  "round_int ne x = sint (ne_d2i ne (ne_add ne (ne_lit ne ''0.5'') (ne_f2d ne x)))"

definition gsv_sv :: "nmea_env \<Rightarrow> u32 \<Rightarrow> GnssSv \<Rightarrow> piece list" where
  "gsv_sv ne offset v =
     [(True, '','' @ print_d 2 (sint (ucast (svId v) + offset)) @ '','' @ print_d 2 (round_int ne (elevation v)) @
             '','' @ print_d 3 (round_int ne (azimuth v)) @ '','')] @
     (if ne_lt ne (ne_lit ne ''0'') (ne_f2d ne (cN0Dbhz v))
      then [(True, print_d 2 (round_int ne (cN0Dbhz v)))] else [])"

text \<open>The pieces of up to four satellites of a type, and the satellites behind them.\<close>

fun gsv_four :: "nmea_env \<Rightarrow> loc_nmea_sv_meta \<Rightarrow> nat \<Rightarrow> GnssSv list \<Rightarrow> piece list \<times> GnssSv list" where
  "gsv_four ne meta i [] = ([], [])"
| "gsv_four ne meta i (v # vs) =
     (if 4 \<le> i then ([], v # vs)
      else if nm_svType meta = sv_type v
      then (let (ps, rest) = gsv_four ne meta (i + 1) vs in (gsv_sv ne (svIdOffset meta) v @ ps, rest))
      else gsv_four ne meta i vs)"

text \<open>The sentences from number \<open>k\<close> of \<open>total\<close> on; the first argument is how many.\<close>

fun gsv_loop ::
  "nat \<Rightarrow> nmea_env \<Rightarrow> loc_nmea_sv_meta \<Rightarrow> int \<Rightarrow> int \<Rightarrow> GnssSv list \<Rightarrow> string list \<Rightarrow> string list option"
where
  "gsv_loop 0 ne meta tot k svs nmeaArraystr = Some nmeaArraystr"
| "gsv_loop (Suc n) ne meta tot k svs nmeaArraystr =
     (let (ps, rest) = gsv_four ne meta 0 svs
      in case run_prints
             ([(True, ''$'' @ talker meta @ ''GSV,'' @ print_d 0 tot @ '','' @ print_d 0 k @ '','' @
                      print_d 2 (sint (nm_svCount meta)))] @
              ps @ [(False, '','' @ print_d 0 (sint (signalId meta)))]) [] 0 of
           Format_error \<Rightarrow> Some nmeaArraystr
         | Out_of_buffer \<Rightarrow> None
         | Sentence s \<Rightarrow> gsv_loop n ne meta tot (k + 1) rest (put_sentence s nmeaArraystr))"

definition loc_nmea_generate_GSV ::
  "nmea_env \<Rightarrow> GnssSv list \<Rightarrow> loc_nmea_sv_meta option \<Rightarrow> string list \<Rightarrow> string list option" where
  "loc_nmea_generate_GSV ne svs sv_meta_p nmeaArraystr =
     (case sv_meta_p of
        None \<Rightarrow> None
      | Some meta \<Rightarrow>
          let svCount = sint (nm_svCount meta)
          in if svCount \<le> 0
             then (case run_prints [(False, ''$'' @ talker meta @ ''GSV,1,1,0,'' @ print_d 0 (sint (signalId meta)))] [] 0 of
                     Sentence s \<Rightarrow> Some (put_sentence s nmeaArraystr)
                   | _ \<Rightarrow> None)
             else let sentenceCount = svCount div 4 + (if svCount mod 4 \<noteq> 0 then 1 else 0)
                  in gsv_loop (nat sentenceCount) ne meta sentenceCount 1 svs nmeaArraystr)"

text \<open>\<open>1 << (svId - 1)\<close>: shifts by more than the width have no defined result.\<close>

definition used_bit :: "nmea_env \<Rightarrow> GnssSv \<Rightarrow> u32" where
  "used_bit ne v =
     (let n = uint (svId v) - 1
      in if gnssSvOptionsMask v AND GNSS_SV_OPTIONS_USED_IN_FIX_BIT \<noteq> 0
         then (if 0 \<le> n \<and> n < 32 then push_bit (nat n) 1 else ne_shift ne n)
         else 0)"

definition cache_sv :: "nmea_env \<Rightarrow> GnssSv \<Rightarrow> loc_sv_cache_info \<Rightarrow> loc_sv_cache_info" where
  "cache_sv ne v c =
     (case sv_type v of
        GNSS_SV_TYPE_GPS \<Rightarrow>
          c\<lparr>gps_used_mask := gps_used_mask c OR used_bit ne v, gps_count := gps_count c + 1\<rparr>
      | GNSS_SV_TYPE_GLONASS \<Rightarrow>
          c\<lparr>glo_used_mask := glo_used_mask c OR used_bit ne v, glo_count := glo_count c + 1\<rparr>
      | GNSS_SV_TYPE_GALILEO \<Rightarrow>
          c\<lparr>gal_used_mask := gal_used_mask c OR used_bit ne v, gal_count := gal_count c + 1\<rparr>
      | GNSS_SV_TYPE_QZSS \<Rightarrow>
          c\<lparr>qzss_used_mask := qzss_used_mask c OR used_bit ne v, qzss_count := qzss_count c + 1\<rparr>
      | GNSS_SV_TYPE_BEIDOU \<Rightarrow>
          c\<lparr>bds_used_mask := bds_used_mask c OR used_bit ne v, bds_count := bds_count c + 1\<rparr>
      | _ \<Rightarrow> c)"

definition loc_nmea_generate_sv ::
  "nmea_env \<Rightarrow> GnssSv list \<Rightarrow> string list \<Rightarrow> string list option" where
  "loc_nmea_generate_sv ne svs nmeaArraystr =
     (let c = fold (cache_sv ne) svs empty_cache;
          gsv = (\<lambda>ty arr. loc_nmea_generate_GSV ne svs (loc_nmea_sv_meta_init c ty False) arr)
      in Option.bind (gsv GNSS_SV_TYPE_GPS nmeaArraystr) (\<lambda>a1.
         Option.bind (gsv GNSS_SV_TYPE_GLONASS a1) (\<lambda>a2.
         Option.bind (gsv GNSS_SV_TYPE_GALILEO a2) (\<lambda>a3.
         Option.bind (gsv GNSS_SV_TYPE_QZSS a3) (\<lambda>a4. gsv GNSS_SV_TYPE_BEIDOU a4)))))"

section \<open>Time\<close>

text \<open>
  \<open>gmtime\<close> of the C library: the date in the Gregorian calendar of a number of seconds since 1970. It
  fails if the year does not fit an \<open>int\<close>. The days are counted from the first of March of the year 0, in
  eras of 400 years.
\<close>

record tm =
  tm_year :: int
  tm_mon :: int
  tm_mday :: int
  tm_hour :: int
  tm_min :: int
  tm_sec :: int

definition gmtime :: "int \<Rightarrow> tm option" where
  "gmtime t =
     (let z = t div 86400 + 719468; r = t mod 86400;
          era = z div 146097; doe = z mod 146097;
          yoe = (doe - doe div 1460 + doe div 36524 - doe div 146096) div 365;
          doy = doe - (365 * yoe + yoe div 4 - yoe div 100);
          mp = (5 * doy + 2) div 153;
          month = (if mp < 10 then mp + 3 else mp - 9);
          year = yoe + era * 400 + (if month \<le> 2 then 1 else 0)
      in if year - 1900 < - (2 ^ 31) \<or> 2 ^ 31 \<le> year - 1900 then None
         else Some \<lparr>tm_year = year - 1900, tm_mon = month - 1, tm_mday = doy - (153 * mp + 2) div 5 + 1,
                    tm_hour = r div 3600, tm_min = r mod 3600 div 60, tm_sec = r mod 60\<rparr>)"

text \<open>Division and remainder of C, towards zero.\<close>

definition c_div :: "int \<Rightarrow> int \<Rightarrow> int" where
  "c_div a b = (if a < 0 then - (- a div b) else a div b)"

definition c_mod :: "int \<Rightarrow> int \<Rightarrow> int" where
  "c_mod a b = (if a < 0 then - (- a mod b) else a mod b)"

section \<open>Positions\<close>

definition has :: "u16 \<Rightarrow> UlpLocation \<Rightarrow> bool" where
  "has b g \<longleftrightarrow> gl_flags g AND b \<noteq> 0"

definition speed_knots :: "nmea_env \<Rightarrow> UlpLocation \<Rightarrow> u32" where
  "speed_knots ne g =
     ne_d2f ne (ne_mul ne (ne_f2d ne (gl_speed g)) (ne_div ne (ne_lit ne ''3600.0'') (ne_lit ne ''1852.0'')))"

definition speed_km_per_hour :: "nmea_env \<Rightarrow> UlpLocation \<Rightarrow> u32" where
  "speed_km_per_hour ne g = ne_d2f ne (ne_mul ne (ne_f2d ne (gl_speed g)) (ne_lit ne ''3.6''))"

text \<open>How the position was obtained: nothing, differential, dead reckoning or autonomous.\<close>

definition pos_mode :: "UlpLocation \<Rightarrow> GpsLocationExtended \<Rightarrow> char \<times> char" where
  "pos_mode g e =
     (if \<not> has 0x0001 g then (CHR ''N'', CHR ''0'')
      else if le_navSolutionMask e AND 0x0001 \<noteq> 0 then (CHR ''D'', CHR ''2'')
      else if le_tech_mask e = 0x00000008 then (CHR ''E'', CHR ''6'')
      else (CHR ''A'', CHR ''1''))"

text \<open>
  The magnetic track: the variable that takes the deviation into account is another one of the same name,
  in the block of the condition, so the true track is printed twice.
\<close>

definition vtg_prints :: "nmea_env \<Rightarrow> string \<Rightarrow> UlpLocation \<Rightarrow> GpsLocationExtended \<Rightarrow> piece list" where
  "vtg_prints ne tk g e =
     [(True, if has 0x0008 g
             then (let magTrack = gl_bearing g
                   in ''$'' @ tk @ ''VTG,'' @ float_1 ne (gl_bearing g) @ '',T,'' @ float_1 ne magTrack @ '',M,'')
             else ''$'' @ tk @ ''VTG,,T,,M,''),
      (True, if has 0x0004 g
             then float_1 ne (speed_knots ne g) @ '',N,'' @ float_1 ne (speed_km_per_hour ne g) @ '',K,''
             else '',N,,K,''),
      (False, [fst (pos_mode g e)])]"

definition lat_long_print :: "nmea_env \<Rightarrow> UlpLocation \<Rightarrow> string" where
  "lat_long_print ne g =
     (let north = ne_lt ne (ne_lit ne ''0'') (gl_latitude g);
          west = ne_lt ne (gl_longitude g) (ne_lit ne ''0'');
          minus = (\<lambda>x. ne_mul ne x (ne_lit ne ''-1.0''));
          latitude = (if north then gl_latitude g else minus (gl_latitude g));
          longitude = (if west then minus (gl_longitude g) else gl_longitude g);
          minutes = (\<lambda>x. ne_printf ne ''%09.6f'' (ne_fmod ne (ne_mul ne x (ne_lit ne ''60.0'')) (ne_lit ne ''60.0'')));
          degrees = (\<lambda>x. uint (ne_d2u8 ne (ne_floor ne x)))
      in print_d 2 (degrees latitude) @ minutes latitude @ '','' @ (if north then ''N'' else ''S'') @ '','' @
         print_d 3 (degrees longitude) @ minutes longitude @ '','' @ (if west then ''W'' else ''E'') @ '','')"

definition time_print :: "tm \<Rightarrow> int \<Rightarrow> string" where
  "time_print t ms =
     print_d 2 (tm_hour t) @ print_d 2 (tm_min t) @ print_d 2 (tm_sec t) @ ''.'' @ print_d 2 (c_div ms 10)"

definition mag_print :: "nmea_env \<Rightarrow> GpsLocationExtended \<Rightarrow> string" where
  "mag_print ne e =
     (if le_flags e AND HAS_MAG_DEV \<noteq> 0
      then (let west = ne_lt ne (ne_f2d ne (le_magneticDeviation e)) (ne_lit ne ''0.0'');
                variation = (if west
                             then ne_d2f ne (ne_mul ne (ne_f2d ne (le_magneticDeviation e)) (ne_lit ne ''-1.0''))
                             else le_magneticDeviation e)
            in float_1 ne variation @ '','' @ (if west then ''W'' else ''E'') @ '','')
      else '',,'')"

definition rmc_prints ::
  "nmea_env \<Rightarrow> string \<Rightarrow> tm \<Rightarrow> int \<Rightarrow> UlpLocation \<Rightarrow> GpsLocationExtended \<Rightarrow> piece list" where
  "rmc_prints ne tk t ms g e =
     [(True, ''$'' @ tk @ ''RMC,'' @ time_print t ms @ '',A,''),
      (True, if has 0x0001 g then lat_long_print ne g else '',,,,''),
      (True, if has 0x0004 g then float_1 ne (speed_knots ne g) @ '','' else '',''),
      (True, if has 0x0008 g then float_1 ne (gl_bearing g) @ '','' else '',''),
      (True, print_prec 2 (tm_mday t) @ print_prec 2 (tm_mon t + 1) @ print_prec 2 (c_mod (tm_year t) 100) @ '',''),
      (True, mag_print ne e),
      (False, [fst (pos_mode g e)]),
      (False, '',V'')]"

definition gga_prints ::
  "nmea_env \<Rightarrow> string \<Rightarrow> tm \<Rightarrow> int \<Rightarrow> nat \<Rightarrow> UlpLocation \<Rightarrow> GpsLocationExtended \<Rightarrow> piece list" where
  "gga_prints ne tk t ms svUsedCount g e =
     (let quality = [snd (pos_mode g e)];
          used = print_d 2 (int (if MAX_SATELLITES_IN_USE < svUsedCount then MAX_SATELLITES_IN_USE else svUsedCount))
      in [(True, ''$'' @ tk @ ''GGA,'' @ time_print t ms @ '',''),
          (True, if has 0x0001 g then lat_long_print ne g else '',,,,''),
          (True, if le_flags e AND HAS_DOP \<noteq> 0
                 then quality @ '','' @ used @ '','' @ float_1 ne (le_hdop e) @ '',''
                 else quality @ '','' @ used @ '',,''),
          (True, if le_flags e AND HAS_ALTITUDE_MEAN_SEA_LEVEL \<noteq> 0
                 then float_1 ne (le_altitudeMeanSeaLevel e) @ '',M,'' else '',,''),
          (False, if has 0x0002 g \<and> le_flags e AND HAS_ALTITUDE_MEAN_SEA_LEVEL \<noteq> 0
                  then ne_printf ne ''%.1f''
                         (ne_sub ne (gl_altitude g) (ne_f2d ne (le_altitudeMeanSeaLevel e))) @ '',M,,''
                  else '',,,'')])"

text \<open>A sentence that ends the function when it does not fit: nothing is printed after it.\<close>

definition then_sentence ::
  "piece list \<Rightarrow> (string list \<Rightarrow> string list option) \<Rightarrow> string list \<Rightarrow> string list option" where
  "then_sentence ps rest nmeaArraystr =
     (case run_prints ps [] 0 of
        Format_error \<Rightarrow> Some nmeaArraystr
      | Out_of_buffer \<Rightarrow> None
      | Sentence s \<Rightarrow> rest (put_sentence s nmeaArraystr))"

definition cache_of :: "GpsLocationExtended \<Rightarrow> loc_sv_cache_info" where
  "cache_of e =
     (if HAS_GNSS_SV_USED_DATA AND le_flags e \<noteq> 0
      then empty_cache\<lparr>gps_used_mask := ucast (gps_sv_used_ids_mask (le_gnss_sv_used_ids e)),
             glo_used_mask := ucast (glo_sv_used_ids_mask (le_gnss_sv_used_ids e)),
             gal_used_mask := ucast (gal_sv_used_ids_mask (le_gnss_sv_used_ids e)),
             qzss_used_mask := ucast (bds_sv_used_ids_mask (le_gnss_sv_used_ids e)),
             bds_used_mask := ucast (qzss_sv_used_ids_mask (le_gnss_sv_used_ids e))\<rparr>
      else empty_cache)"

text \<open>One constellation: the talker of the later sentences, the number of satellites, the sentences.\<close>

type_synonym gsa_state = "string \<times> nat \<times> string list"

definition gsa_step ::
  "nmea_env \<Rightarrow> GpsLocationExtended \<Rightarrow> GnssSvType \<Rightarrow> bool \<Rightarrow> gsa_state \<Rightarrow> gsa_state option" where
  "gsa_step ne e ty needCombine = (\<lambda>(tk, svUsedCount, arr).
     (let sv_meta = loc_nmea_sv_meta_init (cache_of e) ty needCombine
      in map_option
           (\<lambda>(n, arr1). (if 0 < n \<and> needCombine then talker (the sv_meta) else tk, svUsedCount + n, arr1))
           (loc_nmea_generate_GSA ne e sv_meta arr)))"

definition gsa_steps :: "nmea_env \<Rightarrow> GpsLocationExtended \<Rightarrow> gsa_state \<Rightarrow> gsa_state option" where
  "gsa_steps ne e s =
     Option.bind (gsa_step ne e GNSS_SV_TYPE_GPS True s) (\<lambda>s1.
     Option.bind (gsa_step ne e GNSS_SV_TYPE_GLONASS True s1) (\<lambda>s2.
     Option.bind (gsa_step ne e GNSS_SV_TYPE_GALILEO True s2) (\<lambda>s3.
     Option.bind (gsa_step ne e GNSS_SV_TYPE_QZSS False s3) (gsa_step ne e GNSS_SV_TYPE_BEIDOU False))))"

definition blank_sentences :: "string list" where
  "blank_sentences =
     [''$GPGSA,A,1,,,,,,,,,,,,,,,'',
      ''$GNGSA,A,1,,,,,,,,,,,,,,,'',
      ''$PQGSA,A,1,,,,,,,,,,,,,,,'',
      ''$GPVTG,,T,,M,,N,,K,N'',
      ''$GPRMC,,V,,,,,,,,,,N,V'',
      ''$GPGGA,,,,,,0,,,,,,,,'']"

definition loc_nmea_generate_pos ::
  "nmea_env \<Rightarrow> UlpLocation \<Rightarrow> GpsLocationExtended \<Rightarrow> bool \<Rightarrow> string list \<Rightarrow> string list option" where
  "loc_nmea_generate_pos ne g e generate_nmea nmeaArraystr =
     (let timestamp = sint (gl_timestamp g)
      in case gmtime (c_div timestamp 1000) of
           None \<Rightarrow> Some nmeaArraystr
         | Some t \<Rightarrow>
             let ms = c_mod timestamp 1000
             in if generate_nmea
                then Option.bind (gsa_steps ne e (''GP'', 0, nmeaArraystr)) (\<lambda>(tk, n, arr).
                       then_sentence (vtg_prints ne tk g e)
                         (then_sentence (rmc_prints ne tk t ms g e)
                           (then_sentence (gga_prints ne tk t ms n g e) Some)) arr)
                else Some (fold put_sentence
                            (map (strlcpy NMEA_SENTENCE_MAX_LENGTH) blank_sentences) nmeaArraystr))"

end
