(* ===== verification/Nmea_Proofs.thy ===== *)
theory Nmea_Proofs
  imports Loc_Nmea Report_Proofs
begin

unbundle bit_operations_syntax

text \<open>
  What holds of the NMEA sentences: each has the checksum of its text, whatever the position; the satellites
  in view are named once and in groups of four; the satellites used are those of the mask. Sentences
  reach the clients as they were made.
\<close>

section \<open>Sentences\<close>

text \<open>What a receiver checks.\<close>

definition nmea_valid :: "string \<Rightarrow> bool" where
  "nmea_valid s \<longleftrightarrow>
     (case s of
        [] \<Rightarrow> False
      | c # rest \<Rightarrow>
          c = CHR ''$'' \<and>
          (let body = takeWhile (\<lambda>c. c \<noteq> CHR ''*'') rest
           in rest = body @ ''*'' @ print_02X (checksum body) @ [CHR 0x0D, CHR 0x0A]))"

definition text_of :: "piece list \<Rightarrow> string" where
  "text_of ps = concat (map snd ps)"

definition sentence :: "string \<Rightarrow> string" where
  "sentence s = s @ ''*'' @ print_02X (checksum (tl s)) @ [CHR 0x0D, CHR 0x0A]"

text \<open>A text that fits with its checksum, and has no star.\<close>

definition fits :: "string \<Rightarrow> bool" where
  "fits s \<longleftrightarrow> s \<noteq> [] \<and> hd s = CHR ''$'' \<and> CHR ''*'' \<notin> set s \<and> length s \<le> 194"

lemma text_of_simps [simp]: "text_of [] = []" "text_of (p # ps) = snd p @ text_of ps"
  "text_of (ps @ qs) = text_of ps @ text_of qs"
  by (simp_all add: text_of_def)

lemma run_prints_fit:
  "length s + length (text_of ps) < 200 \<Longrightarrow> run_prints ps s (length s) = Sentence (s @ text_of ps)"
proof (induction ps arbitrary: s)
  case (Cons p ps)
  obtain checked t where p: "p = (checked, t)" by (cases p)
  have "\<not> 200 - length s \<le> length t" "\<not> 200 < length s" "length t \<le> 199 - length s"
    using Cons.prems by (auto simp: p)
  then have "run_prints (p # ps) s (length s) = run_prints ps (s @ t) (length (s @ t))"
    by (simp add: p NMEA_SENTENCE_MAX_LENGTH_def)
  then show ?case using Cons.IH[of "s @ t"] Cons.prems by (simp add: p)
qed simp

lemma run_prints_fits: "fits (text_of ps) \<Longrightarrow> run_prints ps [] 0 = Sentence (text_of ps)"
  using run_prints_fit[of "[]" ps] by (simp add: fits_def)

lemma put_sentence_fits:
  assumes "fits s"
  shows "put_sentence s arr = arr @ [sentence s]"
proof -
  have "length s \<le> 194" using assms by (simp add: fits_def)
  then have "5 \<le> 198 - length (tl s)" by simp
  then show ?thesis
    by (simp add: put_sentence_def loc_nmea_put_checksum_def sentence_def Let_def NMEA_SENTENCE_MAX_LENGTH_def)
qed

lemma sentence_valid: "fits s \<Longrightarrow> nmea_valid (sentence s)"
  by (cases s) (auto simp: fits_def nmea_valid_def sentence_def takeWhile_append Let_def)

lemma then_sentence_fits:
  "fits (text_of ps) \<Longrightarrow> then_sentence ps rest arr = rest (arr @ [sentence (text_of ps)])"
  by (simp add: then_sentence_def run_prints_fits put_sentence_fits)

section \<open>Numbers\<close>

text \<open>
  What \<open>printf\<close> does: a number of single precision has at most 39 digits before the point, the
  remainder of a division by 60 has two, and none has a star.
\<close>

definition printf_ok :: "nmea_env \<Rightarrow> bool" where
  "printf_ok ne \<longleftrightarrow>
     (\<forall>x. length (ne_printf ne ''%.1f'' (ne_f2d ne x)) \<le> 42) \<and>
     (\<forall>x. length (ne_printf ne ''%09.6f'' (ne_fmod ne x (ne_lit ne ''60.0''))) \<le> 10) \<and>
     (\<forall>f x. CHR ''*'' \<notin> set (ne_printf ne f x))"

lemma float_1_ok: "printf_ok ne \<Longrightarrow> length (float_1 ne x) \<le> 42 \<and> CHR ''*'' \<notin> set (float_1 ne x)"
  by (simp add: printf_ok_def float_1_def)

lemma length_print_2:
  "0 \<le> n \<Longrightarrow> n < 100 \<Longrightarrow> length (print_d 2 n) = 2" "\<bar>n\<bar> < 100 \<Longrightarrow> length (print_prec 2 n) \<le> 3"
  "0 \<le> n \<Longrightarrow> n < 100 \<Longrightarrow> length (print_prec 2 n) = 2"
proof -
  show "length (print_d 2 n) = 2" if "0 \<le> n" "n < 100"
  proof -
    have "length (print_d 2 n) \<le> 2" using length_print_d(2)[of n 2 2] that by simp
    then show ?thesis using that by (simp add: print_d_def length_pad0)
  qed
  have d: "length (digits (nat \<bar>n\<bar>)) \<le> 2" if "\<bar>n\<bar> < 100"
    using length_digits[of "nat \<bar>n\<bar>" 2] that by (simp add: nat_less_iff)
  then show "length (print_prec 2 n) \<le> 3" if "\<bar>n\<bar> < 100"
    using that by (simp add: print_prec_def length_pad0)
  show "length (print_prec 2 n) = 2" if "0 \<le> n" "n < 100"
    using d that by (simp add: print_prec_def length_pad0)
qed

lemma lat_long_ok:
  assumes "printf_ok ne"
  shows "length (lat_long_print ne g) \<le> 32 \<and> CHR ''*'' \<notin> set (lat_long_print ne g)"
proof -
  have b: "length (print_d 2 (uint (b :: u8))) \<le> 3" "length (print_d 3 (uint b)) \<le> 3" for b
  proof -
    have "uint b < 1000" using uint_bounded[of b] by simp
    then show "length (print_d 2 (uint b)) \<le> 3" "length (print_d 3 (uint b)) \<le> 3"
      using length_print_d(2)[of "uint b" 3 2] length_print_d(2)[of "uint b" 3 3] by simp_all
  qed
  have m: "length (ne_printf ne ''%09.6f'' (ne_fmod ne x (ne_lit ne ''60.0''))) \<le> 10"
    "CHR ''*'' \<notin> set (ne_printf ne f x)" for x f
    using assms by (simp_all add: printf_ok_def)
  let ?p = "lat_long_print ne g"
  have l: "length (d1 @ m1 @ '','' @ h1 @ '','' @ d2 @ m2 @ '','' @ h2 @ '','') \<le> 32"
    if "length d1 \<le> 3" "length m1 \<le> 10" "length h1 = 1" "length d2 \<le> 3" "length m2 \<le> 10" "length h2 = 1"
    for d1 m1 h1 d2 m2 h2 :: string
    using that by simp
  have "length ?p \<le> 32" unfolding lat_long_print_def Let_def by (intro l) (simp_all add: b m)
  moreover have "CHR ''*'' \<notin> set ?p" unfolding lat_long_print_def Let_def by (simp add: m)
  ultimately show ?thesis ..
qed

section \<open>Time\<close>

lemma c_div_1000: "0 \<le> t \<Longrightarrow> c_div t 1000 = t div 1000" "0 \<le> t \<Longrightarrow> c_mod t 1000 = t mod 1000"
  by (simp_all add: c_div_def c_mod_def)

lemma gmtime_fields:
  assumes "0 \<le> t" "t < 2 ^ 54"
  obtains tm where "gmtime t = Some tm" "0 \<le> tm_hour tm" "tm_hour tm < 24" "0 \<le> tm_min tm" "tm_min tm < 60"
    "0 \<le> tm_sec tm" "tm_sec tm < 60" "1 \<le> tm_mday tm" "tm_mday tm \<le> 31" "\<bar>tm_mon tm + 1\<bar> < 100"
proof -
  define z where "z = t div 86400 + 719468"
  define era doe where "era = z div 146097" and "doe = z mod 146097"
  define yoe where "yoe = (doe - doe div 1460 + doe div 36524 - doe div 146096) div 365"
  define doy where "doy = doe - (365 * yoe + yoe div 4 - yoe div 100)"
  define mp where "mp = (5 * doy + 2) div 153"
  define month where "month = (if mp < 10 then mp + 3 else mp - 9)"
  define year where "year = yoe + era * 400 + (if month \<le> 2 then 1 else 0)"
  define tm where "tm = \<lparr>tm_year = year - 1900, tm_mon = month - 1,
    tm_mday = doy - (153 * mp + 2) div 5 + 1,
    tm_hour = t mod 86400 div 3600, tm_min = t mod 86400 mod 3600 div 60, tm_sec = t mod 86400 mod 60\<rparr>"
  have z: "0 \<le> z" "z < 2 ^ 54 div 86400 + 719469"
    using assms by (auto simp: z_def)
  have e: "0 \<le> era" "era < 2000000" using z by (auto simp: era_def)
  have d: "0 \<le> doe" "doe < 146097" by (auto simp: doe_def)
  have y: "0 \<le> yoe" "yoe \<le> 401" "365 * yoe \<le> doe + 4" "doe \<le> 365 * yoe + 466"
    using d by (auto simp: yoe_def)
  have dy: "- 110 \<le> doy" "doy \<le> 480" using y by (auto simp: doy_def)
  then have m: "- 4 \<le> mp" "mp \<le> 16" "153 * mp \<le> 5 * doy + 2" "5 * doy + 2 < 153 * mp + 153"
    by (auto simp: mp_def)
  then have md: "1 \<le> doy - (153 * mp + 2) div 5 + 1" "doy - (153 * mp + 2) div 5 + 1 \<le> 31" by auto
  have mo: "- 13 \<le> month" "month \<le> 12" using m by (auto simp: month_def)
  have "year - 1900 < 2 ^ 31" "- (2 ^ 31) \<le> year - 1900" using e y by (auto simp: year_def)
  then have "gmtime t = Some tm"
    unfolding gmtime_def Let_def z_def[symmetric] era_def[symmetric] doe_def[symmetric]
      yoe_def[symmetric] doy_def[symmetric] mp_def[symmetric] month_def[symmetric] year_def[symmetric]
    by (simp add: tm_def)
  then show thesis
  proof (rule that)
    show "0 \<le> tm_hour tm" "tm_hour tm < 24" "0 \<le> tm_min tm" "tm_min tm < 60" "0 \<le> tm_sec tm" "tm_sec tm < 60"
      by (auto simp: tm_def)
    show "1 \<le> tm_mday tm" "tm_mday tm \<le> 31" using md by (simp_all add: tm_def)
    show "\<bar>tm_mon tm + 1\<bar> < 100" using mo by (auto simp: tm_def)
  qed
qed

section \<open>Satellites used\<close>

text \<open>The ids of a mask, in ascending order.\<close>

definition used_ids :: "u32 \<Rightarrow> nat \<Rightarrow> nat list" where
  "used_ids m offset = map (\<lambda>b. b + 1 + offset) (filter (bit m) [0..<32])"

lemma filter_bit_0: "drop_bit k m = 0 \<Longrightarrow> filter (bit m) [k..<n] = []" for m :: u32
proof -
  assume d: "drop_bit k m = 0"
  have "\<not> bit m i" if "k \<le> i" for i
    using d bit_drop_bit_eq[of k m] that by (metis bit_0_eq bot_apply bot_bool_def le_add_diff_inverse o_apply)
  then show ?thesis by (simp add: filter_empty_conv)
qed

lemma used_list_from:
  assumes "length acc \<le> k" "k \<le> 32"
  shows "used_list offset (of_nat (k + 1)) (drop_bit k m) acc =
    acc @ map (\<lambda>b. of_nat (b + 1) + offset) (filter (bit m) [k..<32])"
  using assms
proof (induction "32 - k" arbitrary: k acc)
  case 0
  then have "k = 32" by simp
  moreover have "drop_bit 32 m = 0" by (auto simp: bit_eq_iff bit_simps dest: bit_imp_le_length)
  ultimately have "drop_bit k m = 0" by simp
  then show ?case using \<open>k = 32\<close> by (subst used_list.simps) simp
next
  case (Suc d)
  have k: "k < 32" using Suc by simp
  show ?case
  proof (cases "drop_bit k m = 0")
    case True
    then show ?thesis by (subst used_list.simps) (simp add: filter_bit_0)
  next
    case False
    have b: "drop_bit k m AND 1 \<noteq> 0 \<longleftrightarrow> bit m k"
      by (simp add: and_one_eq odd_iff_mod_2_eq_one[symmetric] flip: bit_iff_odd_drop_bit)
    have i: "(ucast (of_nat (k + 1) :: u8) :: u32) = of_nat (k + 1)"
    proof -
      have "unat (of_nat (k + 1) :: u8) = k + 1" using k by (simp add: unat_of_nat del: of_nat_Suc)
      then show ?thesis by (metis of_nat_unat)
    qed
    let ?acc = "if bit m k then acc @ [of_nat (k + 1) + offset] else acc"
    have "used_list offset (of_nat (k + 1)) (drop_bit k m) acc =
        used_list offset (of_nat (k + 1 + 1)) (drop_bit (k + 1) m) ?acc"
      using False Suc(3) k by (subst used_list.simps) (simp add: b i[simplified] drop_bit_drop_bit add.commute)
    also have "\<dots> = ?acc @ map (\<lambda>b. of_nat (b + 1) + offset) (filter (bit m) [k + 1..<32])"
      using Suc k by (intro Suc.hyps(1)) auto
    finally show ?thesis using k by (simp add: upt_rec[of k])
  qed
qed

lemma used_list_ids:
  "used_list (of_nat offset) 1 m [] = map of_nat (used_ids m offset)"
  using used_list_from[of "[]" 0 "of_nat offset" m] by (simp add: used_ids_def comp_def)

lemma length_used_ids: "length (used_ids m offset) \<le> 32"
  using length_filter_le[of "bit m" "[0..<32]"] by (simp add: used_ids_def)

lemma used_ids_bound: "i < length (used_ids m offset) \<Longrightarrow> used_ids m offset ! i \<le> offset + 32"
proof -
  assume "i < length (used_ids m offset)"
  then have "used_ids m offset ! i \<in> set (used_ids m offset)" by (rule nth_mem)
  then show ?thesis by (auto simp: used_ids_def)
qed

text \<open>The reference: the text of a sentence that names the satellites used.\<close>

definition gsa_field :: "nat list \<Rightarrow> nat \<Rightarrow> string" where
  "gsa_field ids i = (if i < length ids then print_d 2 (int (ids ! i)) @ '','' else '','')"

definition dop_text :: "nmea_env \<Rightarrow> GpsLocationExtended \<Rightarrow> string" where
  "dop_text ne e =
     (if le_flags e AND HAS_DOP \<noteq> 0
      then float_1 ne (le_pdop e) @ '','' @ float_1 ne (le_hdop e) @ '','' @ float_1 ne (le_vdop e) @ '',''
      else '',,,'')"

definition gsa_text :: "nmea_env \<Rightarrow> GpsLocationExtended \<Rightarrow> string \<Rightarrow> nat list \<Rightarrow> nat \<Rightarrow> string" where
  "gsa_text ne e tk ids sys =
     ''$'' @ tk @ ''GSA,A,'' @ [fix_type (length ids)] @ '','' @ concat (map (gsa_field ids) [0..<12]) @
     dop_text ne e @ print_d 0 (int sys)"

lemma length_concat_le: "(\<And>x. x \<in> set xs \<Longrightarrow> length (f x) \<le> c) \<Longrightarrow> length (concat (map f xs)) \<le> c * length xs"
proof (induction xs)
  case (Cons x xs)
  then have "length (f x) \<le> c" "length (concat (map f xs)) \<le> c * length xs" by simp_all
  then show ?case by simp
qed simp

lemma sint_of_small: "n < 2 ^ 31 \<Longrightarrow> sint (of_nat n :: u32) = int n"
  by (simp add: signed_of_nat signed_take_bit_int_eq_self)

lemma text_of_gsa_prints:
  assumes "used = map of_nat ids" "\<And>x. x \<in> set ids \<Longrightarrow> x < 1000" "sys < 10" "systemId meta = of_nat sys"
  shows "text_of (gsa_prints ne e meta used) = gsa_text ne e (talker meta) ids sys"
proof -
  have "sint (used ! i) = int (ids ! i)" if "i < length ids" for i
  proof -
    have "ids ! i < 1000" using assms(2) that nth_mem by blast
    then show ?thesis using that sint_of_small[of "ids ! i"] by (simp add: assms(1))
  qed
  then have f: "(if i < length used then print_d 2 (sint (used ! i)) @ '','' else '','') = gsa_field ids i" for i
    by (simp add: gsa_field_def assms(1))
  have "text_of (map (\<lambda>i. (True, g i)) xs) = concat (map g xs)" for g :: "nat \<Rightarrow> string" and xs
    by (simp add: text_of_def comp_def)
  moreover have "sint (of_nat sys :: u32) = int sys" using assms(3) by (simp add: sint_of_small)
  ultimately show ?thesis
    unfolding gsa_prints_def f by (simp add: gsa_text_def dop_text_def assms(1,4) del: upt_rec_numeral)
qed

lemma gsa_text_fits:
  assumes "printf_ok ne" "length tk = 2" "CHR ''*'' \<notin> set tk" "\<And>x. x \<in> set ids \<Longrightarrow> x < 100" "sys < 10"
  shows "fits (gsa_text ne e tk ids sys)"
proof -
  let ?c = "concat (map (gsa_field ids) [0..<12])"
  have f: "length (gsa_field ids i) \<le> 3 \<and> CHR ''*'' \<notin> set (gsa_field ids i)" for i
  proof (cases "i < length ids")
    case True
    then have "ids ! i < 100" using assms(4) nth_mem by blast
    then show ?thesis using True by (simp add: gsa_field_def length_print_2)
  qed (simp add: gsa_field_def)
  have "length ?c \<le> 3 * length [0..<12]" using f by (intro length_concat_le) blast
  moreover have "CHR ''*'' \<notin> set ?c" using f by (simp del: upt_rec_numeral)
  moreover have "length (dop_text ne e) \<le> 129" "CHR ''*'' \<notin> set (dop_text ne e)"
    using float_1_ok[OF assms(1), of "le_pdop e"] float_1_ok[OF assms(1), of "le_hdop e"]
      float_1_ok[OF assms(1), of "le_vdop e"] by (simp_all add: dop_text_def)
  moreover have "length (print_d 0 (int sys)) \<le> 1" using length_print_d(2)[of "int sys" 1 0] assms(5) by simp
  ultimately show ?thesis
    using assms(2,3) by (simp add: fits_def gsa_text_def fix_type_def del: upt_rec_numeral)
qed

text \<open>A constellation of the code: its number, its offset and its talker.\<close>

definition system_number :: "GnssSvType \<Rightarrow> nat" where
  "system_number ty =
     (case ty of GNSS_SV_TYPE_GPS \<Rightarrow> 1 | GNSS_SV_TYPE_GLONASS \<Rightarrow> 2 | GNSS_SV_TYPE_GALILEO \<Rightarrow> 3
      | GNSS_SV_TYPE_BEIDOU \<Rightarrow> 4 | GNSS_SV_TYPE_QZSS \<Rightarrow> 5 | _ \<Rightarrow> 0)"

definition id_offset :: "GnssSvType \<Rightarrow> nat" where
  "id_offset ty = (if ty = GNSS_SV_TYPE_GLONASS then 64 else 0)"

definition known_types :: "GnssSvType list" where
  "known_types = [GNSS_SV_TYPE_GPS, GNSS_SV_TYPE_GLONASS, GNSS_SV_TYPE_GALILEO, GNSS_SV_TYPE_QZSS,
     GNSS_SV_TYPE_BEIDOU]"

definition used_of :: "loc_sv_cache_info \<Rightarrow> GnssSvType \<Rightarrow> u32" where
  "used_of c ty =
     (case ty of GNSS_SV_TYPE_GPS \<Rightarrow> gps_used_mask c | GNSS_SV_TYPE_GLONASS \<Rightarrow> glo_used_mask c
      | GNSS_SV_TYPE_GALILEO \<Rightarrow> gal_used_mask c | GNSS_SV_TYPE_BEIDOU \<Rightarrow> bds_used_mask c
      | GNSS_SV_TYPE_QZSS \<Rightarrow> qzss_used_mask c | _ \<Rightarrow> 0)"

definition talker_of :: "loc_sv_cache_info \<Rightarrow> GnssSvType \<Rightarrow> bool \<Rightarrow> string" where
  "talker_of c ty needCombine =
     (if needCombine \<and> 1 < systems_used c then ''GN''
      else case ty of GNSS_SV_TYPE_GPS \<Rightarrow> ''GP'' | GNSS_SV_TYPE_GLONASS \<Rightarrow> ''GL''
           | GNSS_SV_TYPE_GALILEO \<Rightarrow> ''GA'' | _ \<Rightarrow> ''PQ'')"

lemma known_types_cases:
  assumes "ty \<in> set known_types"
  obtains "ty = GNSS_SV_TYPE_GPS" | "ty = GNSS_SV_TYPE_GLONASS" | "ty = GNSS_SV_TYPE_GALILEO"
    | "ty = GNSS_SV_TYPE_QZSS" | "ty = GNSS_SV_TYPE_BEIDOU"
  using assms by (auto simp: known_types_def)

lemma sv_meta_init_known:
  assumes "ty \<in> set known_types"
  obtains meta where "loc_nmea_sv_meta_init c ty needCombine = Some meta" "talker meta = talker_of c ty needCombine"
    "nm_svType meta = ty" "nm_mask meta = used_of c ty" "svIdOffset meta = of_nat (id_offset ty)"
    "systemId meta = of_nat (system_number ty)"
  using assms
  by (cases rule: known_types_cases)
    (auto simp: loc_nmea_sv_meta_init_def sv_meta_of_def talker_of_def used_of_def id_offset_def
      system_number_def GLONASS_SV_ID_OFFSET_def)

lemma talker_of_ok [simp]: "length (talker_of c ty b) = 2" "CHR ''*'' \<notin> set (talker_of c ty b)"
  by (simp_all add: talker_of_def split: GnssSvType.splits)

lemma generate_GSA_known:
  fixes c :: loc_sv_cache_info
  assumes "printf_ok ne" "ty \<in> set known_types"
  defines "ids \<equiv> used_ids (used_of c ty) (id_offset ty)"
  shows "fits (gsa_text ne e (talker_of c ty b) ids (system_number ty))"
    "loc_nmea_generate_GSA ne e (loc_nmea_sv_meta_init c ty b) arr =
      Some (length ids, if ids = [] \<and> ty \<noteq> GNSS_SV_TYPE_GPS then arr
                        else arr @ [sentence (gsa_text ne e (talker_of c ty b) ids (system_number ty))])"
proof -
  have i: "x < 100" if "x \<in> set ids" for x
    using that by (auto simp: ids_def used_ids_def id_offset_def)
  have n: "system_number ty < 10" by (simp add: system_number_def split: GnssSvType.splits)
  show f: "fits (gsa_text ne e (talker_of c ty b) ids (system_number ty))"
    using assms(1) i n by (intro gsa_text_fits) simp_all
  obtain meta where m: "loc_nmea_sv_meta_init c ty b = Some meta" "talker meta = talker_of c ty b"
    "nm_svType meta = ty" "nm_mask meta = used_of c ty" "svIdOffset meta = of_nat (id_offset ty)"
    "systemId meta = of_nat (system_number ty)"
    using sv_meta_init_known[OF assms(2)] .
  have "x < 1000" if "x \<in> set ids" for x using i[OF that] by simp
  then have "text_of (gsa_prints ne e meta (map of_nat ids)) =
      gsa_text ne e (talker_of c ty b) ids (system_number ty)"
    using n m by (subst text_of_gsa_prints[where ids = ids and sys = "system_number ty"]) simp_all
  with f have "run_prints (gsa_prints ne e meta (map of_nat ids)) [] 0 =
      Sentence (gsa_text ne e (talker_of c ty b) ids (system_number ty))"
    by (metis run_prints_fits)
  then show "loc_nmea_generate_GSA ne e (loc_nmea_sv_meta_init c ty b) arr =
      Some (length ids, if ids = [] \<and> ty \<noteq> GNSS_SV_TYPE_GPS then arr
                        else arr @ [sentence (gsa_text ne e (talker_of c ty b) ids (system_number ty))])"
    using m f by (simp add: loc_nmea_generate_GSA_def used_list_ids Let_def put_sentence_fits flip: ids_def)
qed

lemma used_ids_Nil: "used_ids m offset = [] \<longleftrightarrow> m = 0"
proof
  assume "used_ids m offset = []"
  then have "\<not> bit m b" if "b < 32" for b using that by (auto simp: used_ids_def filter_empty_conv)
  then show "m = 0" by (auto simp: bit_eq_iff dest: bit_imp_le_length)
qed (simp add: used_ids_def)

definition gsa_one :: "nmea_env \<Rightarrow> GpsLocationExtended \<Rightarrow> GnssSvType \<Rightarrow> bool \<Rightarrow> string list" where
  "gsa_one ne e ty b =
     (let ids = used_ids (used_of (cache_of e) ty) (id_offset ty)
      in if ids = [] \<and> ty \<noteq> GNSS_SV_TYPE_GPS then []
         else [sentence (gsa_text ne e (talker_of (cache_of e) ty b) ids (system_number ty))])"

lemma gsa_step_known:
  assumes "printf_ok ne" "ty \<in> set known_types"
  shows "gsa_step ne e ty b (tk, n, arr) =
    Some (if used_of (cache_of e) ty \<noteq> 0 \<and> b then talker_of (cache_of e) ty b else tk,
          n + length (used_ids (used_of (cache_of e) ty) (id_offset ty)), arr @ gsa_one ne e ty b)"
proof -
  obtain meta where m: "loc_nmea_sv_meta_init (cache_of e) ty b = Some meta"
    "talker meta = talker_of (cache_of e) ty b"
    using sv_meta_init_known[OF assms(2)] by metis
  show ?thesis
    using generate_GSA_known(2)[OF assms, of e "cache_of e" b arr] m
    by (auto simp: gsa_step_def gsa_one_def Let_def used_ids_Nil)
qed

text \<open>All constellations: the sentences, and the talker of the sentences that follow.\<close>

definition gsa_all :: "nmea_env \<Rightarrow> GpsLocationExtended \<Rightarrow> string list" where
  "gsa_all ne e =
     gsa_one ne e GNSS_SV_TYPE_GPS True @ gsa_one ne e GNSS_SV_TYPE_GLONASS True @
     gsa_one ne e GNSS_SV_TYPE_GALILEO True @ gsa_one ne e GNSS_SV_TYPE_QZSS False @
     gsa_one ne e GNSS_SV_TYPE_BEIDOU False"

definition position_talker :: "loc_sv_cache_info \<Rightarrow> string" where
  "position_talker c =
     (if gps_used_mask c = 0 \<and> glo_used_mask c = 0 \<and> gal_used_mask c = 0 then ''GP''
      else if 1 < systems_used c then ''GN''
      else if gal_used_mask c \<noteq> 0 then ''GA'' else if glo_used_mask c \<noteq> 0 then ''GL'' else ''GP'')"

definition used_count :: "loc_sv_cache_info \<Rightarrow> nat" where
  "used_count c = sum_list (map (\<lambda>ty. length (used_ids (used_of c ty) (id_offset ty))) known_types)"

lemma gsa_steps_all:
  assumes "printf_ok ne"
  shows "gsa_steps ne e (''GP'', 0, arr) =
    Some (position_talker (cache_of e), used_count (cache_of e), arr @ gsa_all ne e)"
proof -
  have k: "GNSS_SV_TYPE_GPS \<in> set known_types" "GNSS_SV_TYPE_GLONASS \<in> set known_types"
    "GNSS_SV_TYPE_GALILEO \<in> set known_types" "GNSS_SV_TYPE_QZSS \<in> set known_types"
    "GNSS_SV_TYPE_BEIDOU \<in> set known_types"
    by (simp_all add: known_types_def)
  show ?thesis
    unfolding gsa_steps_def
    by (simp add: gsa_step_known[OF assms k(1)] gsa_step_known[OF assms k(2)] gsa_step_known[OF assms k(3)]
        gsa_step_known[OF assms k(4)] gsa_step_known[OF assms k(5)] gsa_all_def used_count_def known_types_def)
      (simp add: position_talker_def talker_of_def used_of_def)
qed

lemma gsa_one_valid: "printf_ok ne \<Longrightarrow> ty \<in> set known_types \<Longrightarrow> list_all nmea_valid (gsa_one ne e ty b)"
  using generate_GSA_known(1) by (simp add: gsa_one_def Let_def sentence_valid)

text \<open>The name of a sentence.\<close>

definition kind :: "string \<Rightarrow> string" where
  "kind s = take 3 (drop 3 s)"

lemma kind_sentence: "length tk = 2 \<Longrightarrow> kind (sentence (''$'' @ tk @ a # b # c # s)) = [a, b, c]"
  by (simp add: kind_def sentence_def)

lemma gsa_one_kind:
  "ty \<in> set known_types \<Longrightarrow> map kind (gsa_one ne e ty b) =
    (if used_of (cache_of e) ty = 0 \<and> ty \<noteq> GNSS_SV_TYPE_GPS then [] else [''GSA''])"
  using kind_sentence[of "talker_of (cache_of e) ty b" "CHR ''G''" "CHR ''S''" "CHR ''A''"]
  by (simp add: gsa_one_def Let_def used_ids_Nil gsa_text_def)

section \<open>Positions\<close>

lemma vtg_fits:
  assumes "printf_ok ne" "length tk = 2" "CHR ''*'' \<notin> set tk"
  shows "fits (text_of (vtg_prints ne tk g e))"
proof -
  have m: "fst (pos_mode g e) \<noteq> CHR ''*''" by (simp add: pos_mode_def)
  show ?thesis
    using assms(2,3) m float_1_ok[OF assms(1), of "gl_bearing g"] float_1_ok[OF assms(1), of "speed_knots ne g"]
      float_1_ok[OF assms(1), of "speed_km_per_hour ne g"]
    by (simp add: fits_def vtg_prints_def Let_def)
qed

lemma time_print_ok:
  assumes "0 \<le> tm_hour t" "tm_hour t < 24" "0 \<le> tm_min t" "tm_min t < 60" "0 \<le> tm_sec t" "tm_sec t < 60"
    "0 \<le> ms" "ms < 1000"
  shows "length (time_print t ms) = 9 \<and> CHR ''*'' \<notin> set (time_print t ms)"
  using assms by (simp add: time_print_def c_div_def length_print_2)

lemma mag_print_ok:
  assumes "printf_ok ne"
  shows "length (mag_print ne e) \<le> 45 \<and> CHR ''*'' \<notin> set (mag_print ne e)"
proof -
  have "length (float_1 ne x @ '','' @ h @ '','') \<le> 45" if "length h = 1" for x and h :: string
    using that float_1_ok[OF assms, of x] by simp
  then show ?thesis using float_1_ok[OF assms] by (simp add: mag_print_def Let_def)
qed

lemma c_mod_100: "\<bar>c_mod y 100\<bar> < 100"
  by (simp add: c_mod_def)

lemma rmc_fits:
  assumes "printf_ok ne" "length tk = 2" "CHR ''*'' \<notin> set tk" "length (time_print t ms) = 9"
    "CHR ''*'' \<notin> set (time_print t ms)" "1 \<le> tm_mday t" "tm_mday t \<le> 31" "\<bar>tm_mon t + 1\<bar> < 100"
  shows "fits (text_of (rmc_prints ne tk t ms g e))"
proof -
  have m: "fst (pos_mode g e) \<noteq> CHR ''*''" by (simp add: pos_mode_def)
  have d: "length (print_prec 2 (tm_mday t)) = 2" "length (print_prec 2 (tm_mon t + 1)) \<le> 3"
    "length (print_prec 2 (c_mod (tm_year t) 100)) \<le> 3"
    using assms(6-8) by (simp_all add: length_print_2 c_mod_100)
  show ?thesis
    using assms(2-5) m d float_1_ok[OF assms(1), of "gl_bearing g"] float_1_ok[OF assms(1), of "speed_knots ne g"]
      lat_long_ok[OF assms(1), of g] mag_print_ok[OF assms(1), of e]
    by (simp add: fits_def rmc_prints_def)
qed

text \<open>The difference of the altitudes is the only number of double precision that is printed.\<close>

definition altitude_fits :: "nmea_env \<Rightarrow> UlpLocation \<Rightarrow> GpsLocationExtended \<Rightarrow> bool" where
  "altitude_fits ne g e \<longleftrightarrow>
     length (ne_printf ne ''%.1f'' (ne_sub ne (gl_altitude g) (ne_f2d ne (le_altitudeMeanSeaLevel e)))) \<le> 47"

lemma gga_fits:
  assumes "printf_ok ne" "length tk = 2" "CHR ''*'' \<notin> set tk" "length (time_print t ms) = 9"
    "CHR ''*'' \<notin> set (time_print t ms)" "altitude_fits ne g e"
  shows "fits (text_of (gga_prints ne tk t ms n g e))"
proof -
  let ?n = "if MAX_SATELLITES_IN_USE < n then MAX_SATELLITES_IN_USE else n"
  have m: "snd (pos_mode g e) \<noteq> CHR ''*''" by (simp add: pos_mode_def)
  have u: "length (print_d 2 (int ?n)) = 2" by (intro length_print_2) (auto simp: MAX_SATELLITES_IN_USE_def)
  have a: "CHR ''*'' \<notin> set (ne_printf ne f x)" for f x using assms(1) by (simp add: printf_ok_def)
  show ?thesis
    using assms(2-6) m u a float_1_ok[OF assms(1), of "le_hdop e"]
      float_1_ok[OF assms(1), of "le_altitudeMeanSeaLevel e"] lat_long_ok[OF assms(1), of g]
    by (simp add: fits_def gga_prints_def Let_def altitude_fits_def)
qed

lemma no_satellites: "text_of (map (Pair True) ss) = concat ss"
  by (simp add: text_of_def comp_def)

lemma blank_ok:
  "fold put_sentence (map (strlcpy NMEA_SENTENCE_MAX_LENGTH) blank_sentences) arr = arr @ map sentence blank_sentences"
  "list_all fits blank_sentences"
  "map (\<lambda>s. kind (sentence s)) blank_sentences = replicate 3 ''GSA'' @ [''VTG'', ''RMC'', ''GGA'']"
proof -
  show f: "list_all fits blank_sentences"
    by (simp add: blank_sentences_def fits_def)
  have "map (strlcpy NMEA_SENTENCE_MAX_LENGTH) blank_sentences = blank_sentences"
    by (simp add: blank_sentences_def strlcpy_def NMEA_SENTENCE_MAX_LENGTH_def)
  moreover have "fold put_sentence ss arr = arr @ map sentence ss" if "list_all fits ss" for ss arr
    using that by (induction ss arbitrary: arr) (simp_all add: put_sentence_fits)
  ultimately show "fold put_sentence (map (strlcpy NMEA_SENTENCE_MAX_LENGTH) blank_sentences) arr =
      arr @ map sentence blank_sentences" using f by simp
  show "map (\<lambda>s. kind (sentence s)) blank_sentences = replicate 3 ''GSA'' @ [''VTG'', ''RMC'', ''GGA'']"
    by (simp add: blank_sentences_def kind_def sentence_def numeral_3_eq_3)
qed

lemma position_talker_ok [simp]: "length (position_talker c) = 2" "CHR ''*'' \<notin> set (position_talker c)"
  by (simp_all add: position_talker_def)

lemma position_kinds:
  assumes "length tk = 2"
  shows "kind (sentence (text_of (vtg_prints ne tk g e))) = ''VTG''"
    "kind (sentence (text_of (rmc_prints ne tk t ms g e))) = ''RMC''"
    "kind (sentence (text_of (gga_prints ne tk t ms n g e))) = ''GGA''"
  using kind_sentence[OF assms] by (simp_all add: vtg_prints_def rmc_prints_def gga_prints_def Let_def)

text \<open>How many constellations besides GPS have satellites in use.\<close>

definition other_systems :: "loc_sv_cache_info \<Rightarrow> nat" where
  "other_systems c =
     length (filter (\<lambda>m. m \<noteq> 0) [glo_used_mask c, gal_used_mask c, qzss_used_mask c, bds_used_mask c])"

lemma gsa_all_kind: "map kind (gsa_all ne e) = replicate (1 + other_systems (cache_of e)) ''GSA''"
proof -
  have k: "ty \<in> {GNSS_SV_TYPE_GPS, GNSS_SV_TYPE_GLONASS, GNSS_SV_TYPE_GALILEO, GNSS_SV_TYPE_QZSS,
      GNSS_SV_TYPE_BEIDOU} \<Longrightarrow> map kind (gsa_one ne e ty b) =
    (if used_of (cache_of e) ty = 0 \<and> ty \<noteq> GNSS_SV_TYPE_GPS then [] else [''GSA''])" for ty b
    by (intro gsa_one_kind) (auto simp: known_types_def)
  show ?thesis by (simp add: gsa_all_def k other_systems_def used_of_def)
qed

lemma position_sentences_valid':
  assumes "printf_ok ne" "0 \<le> sint (gl_timestamp g)" "altitude_fits ne g e"
  shows "\<exists>ss. loc_nmea_generate_pos ne g e generate_nmea arr = Some (arr @ ss) \<and> list_all nmea_valid ss \<and>
    map kind ss = replicate (if generate_nmea then 1 + other_systems (cache_of e) else 3) ''GSA'' @
      [''VTG'', ''RMC'', ''GGA'']"
proof -
  let ?ts = "sint (gl_timestamp g)" and ?tk = "position_talker (cache_of e)" and ?n = "used_count (cache_of e)"
  have "?ts < 2 ^ 63" using sint_lt[of "gl_timestamp g"] by simp
  then have "0 \<le> ?ts div 1000" "?ts div 1000 < 2 ^ 54" using assms(2) by auto
  from gmtime_fields[OF this] obtain t where t: "gmtime (?ts div 1000) = Some t"
    and f: "0 \<le> tm_hour t" "tm_hour t < 24" "0 \<le> tm_min t" "tm_min t < 60" "0 \<le> tm_sec t" "tm_sec t < 60"
      "1 \<le> tm_mday t" "tm_mday t \<le> 31" "\<bar>tm_mon t + 1\<bar> < 100" .
  let ?ms = "?ts mod 1000"
  have tp: "length (time_print t ?ms) = 9" "CHR ''*'' \<notin> set (time_print t ?ms)"
    using time_print_ok[OF f(1-6), of ?ms] by simp_all
  let ?ps = "[vtg_prints ne ?tk g e, rmc_prints ne ?tk t ?ms g e, gga_prints ne ?tk t ?ms ?n g e]"
  let ?ss = "map (\<lambda>ps. sentence (text_of ps)) ?ps"
  have fits: "list_all (\<lambda>ps. fits (text_of ps)) ?ps"
    using vtg_fits rmc_fits gga_fits assms(1,3) tp f(7-9) by simp
  show ?thesis
  proof (cases generate_nmea)
    case True
    have "loc_nmea_generate_pos ne g e generate_nmea arr = Some (arr @ gsa_all ne e @ ?ss)"
      using fits t True gsa_steps_all[OF assms(1)] c_div_1000[OF assms(2)]
      by (simp add: loc_nmea_generate_pos_def Let_def then_sentence_fits)
    moreover have "list_all nmea_valid (gsa_all ne e)"
      using gsa_one_valid[OF assms(1)] by (simp add: gsa_all_def known_types_def)
    moreover have "list_all nmea_valid ?ss" using fits by (simp add: sentence_valid)
    ultimately show ?thesis using True by (auto simp: gsa_all_kind position_kinds)
  next
    case False
    have "loc_nmea_generate_pos ne g e generate_nmea arr = Some (arr @ map sentence blank_sentences)"
      using t False c_div_1000[OF assms(2)] by (simp add: loc_nmea_generate_pos_def Let_def blank_ok(1))
    moreover have "list_all nmea_valid (map sentence blank_sentences)"
      using blank_ok(2) by (simp add: list_all_iff sentence_valid)
    ultimately show ?thesis using False blank_ok(3) by (auto simp: comp_def)
  qed
qed

text \<open>
  C33: If the time is not before 1970 and the difference of the altitudes is not out of all proportion, the
  sentences of a position are complete and valid: one of the satellites used for GPS and each other
  constellation with satellites in use, then track and speed, the minimum data and the fix; if there is
  nothing to report, six blank ones. No piece is written outside of the buffer.
\<close>

theorem position_sentences_valid:
  assumes "printf_ok ne" "0 \<le> sint (gl_timestamp g)" "altitude_fits ne g e"
  shows "\<exists>ss. loc_nmea_generate_pos ne g e generate_nmea arr = Some (arr @ ss) \<and> list_all nmea_valid ss \<and>
    map kind ss = replicate (if generate_nmea then 1 + other_systems (cache_of e) else 3) ''GSA'' @
      [''VTG'', ''RMC'', ''GGA'']"
  using assms by (rule position_sentences_valid')

section \<open>Satellites in view\<close>

text \<open>The satellites of a constellation; the reference for one satellite, and for a sentence.\<close>

definition own :: "GnssSvType \<Rightarrow> GnssSv list \<Rightarrow> GnssSv list" where
  "own ty svs = filter (\<lambda>v. sv_type v = ty) svs"

definition sv_text :: "nmea_env \<Rightarrow> GnssSvType \<Rightarrow> GnssSv \<Rightarrow> string" where
  "sv_text ne ty v =
     '','' @ print_d 2 (uint (svId v) + int (id_offset ty)) @ '','' @ print_d 2 (round_int ne (elevation v)) @
     '','' @ print_d 3 (round_int ne (azimuth v)) @ '','' @
     (if ne_lt ne (ne_lit ne ''0'') (ne_f2d ne (cN0Dbhz v)) then print_d 2 (round_int ne (cN0Dbhz v)) else [])"

definition signal_number :: "GnssSvType \<Rightarrow> nat" where
  "signal_number ty =
     (case ty of GNSS_SV_TYPE_GPS \<Rightarrow> 1 | GNSS_SV_TYPE_GLONASS \<Rightarrow> 1 | GNSS_SV_TYPE_GALILEO \<Rightarrow> 7 | _ \<Rightarrow> 0)"

definition gsv_talker :: "GnssSvType \<Rightarrow> string" where
  "gsv_talker ty = talker_of empty_cache ty False"

definition gsv_text :: "nmea_env \<Rightarrow> GnssSvType \<Rightarrow> nat \<Rightarrow> nat \<Rightarrow> nat \<Rightarrow> GnssSv list \<Rightarrow> string" where
  "gsv_text ne ty tot k n vs =
     ''$'' @ gsv_talker ty @ ''GSV,'' @ print_d 0 (int tot) @ '','' @ print_d 0 (int k) @ '','' @ print_d 2 (int n) @
     concat (map (sv_text ne ty) vs) @ '','' @ print_d 0 (int (signal_number ty))"

definition gsv_sentences :: "nmea_env \<Rightarrow> GnssSv list \<Rightarrow> GnssSvType \<Rightarrow> string list" where
  "gsv_sentences ne svs ty =
     (let vs = own ty svs; n = length vs; tot = (n + 3) div 4
      in if n = 0 then [sentence (''$'' @ gsv_talker ty @ ''GSV,1,1,0,'' @ print_d 0 (int (signal_number ty)))]
         else map (\<lambda>k. sentence (gsv_text ne ty tot (k + 1) n (take 4 (drop (4 * k) vs)))) [0..<tot])"

text \<open>Angles and densities that are numbers of at most three digits.\<close>

definition sane :: "nmea_env \<Rightarrow> GnssSv \<Rightarrow> bool" where
  "sane ne v \<longleftrightarrow>
     list_all (\<lambda>x. 0 \<le> round_int ne x \<and> round_int ne x < 1000) [elevation v, azimuth v, cN0Dbhz v]"

lemma gsv_four_takes:
  assumes "i \<le> 4"
  shows "fst (gsv_four ne meta i svs) =
      concat (map (gsv_sv ne (svIdOffset meta)) (take (4 - i) (own (nm_svType meta) svs))) \<and>
    own (nm_svType meta) (snd (gsv_four ne meta i svs)) = drop (4 - i) (own (nm_svType meta) svs)"
  using assms
proof (induction ne meta i svs rule: gsv_four.induct)
  case (2 ne meta i v vs)
  show ?case
  proof (cases "i = 4")
    case False
    then have "i + 1 \<le> 4" "\<not> 4 \<le> i" "4 - i = Suc (4 - (i + 1))" using 2(3) by simp_all
    then show ?thesis
      using 2 by (cases "nm_svType meta = sv_type v") (auto simp: own_def case_prod_beta)
  qed simp
qed (simp add: own_def)

lemma sv_id_int: "id_offset ty \<le> 64 \<and> sint (ucast (x :: u16) + of_nat (id_offset ty) :: u32) = uint x + int (id_offset ty)"
proof -
  have o: "id_offset ty \<le> 64" by (simp add: id_offset_def)
  have x: "unat x < 65536" using unsigned_less[of x] by simp
  have "(ucast x + of_nat (id_offset ty) :: u32) = of_nat (unat x + id_offset ty)"
    by simp
  then have "sint (ucast x + of_nat (id_offset ty) :: u32) = int (unat x + id_offset ty)"
    using sint_of_small[of "unat x + id_offset ty"] x o by simp
  then show ?thesis using o by simp
qed

lemma text_of_gsv_sv: "text_of (gsv_sv ne (of_nat (id_offset ty)) v) = sv_text ne ty v"
  by (simp add: gsv_sv_def sv_text_def sv_id_int)

lemma text_of_concat: "text_of (concat (map f vs)) = concat (map (\<lambda>v. text_of (f v)) vs)"
  by (induction vs) simp_all

lemma sv_text_ok:
  assumes "sane ne v"
  shows "length (sv_text ne ty v) \<le> 18 \<and> CHR ''*'' \<notin> set (sv_text ne ty v)"
proof -
  have d: "length (print_d 2 n) \<le> 3" "length (print_d 3 n) \<le> 3" if "0 \<le> n" "n < 1000" for n
    using length_print_d(2)[of n 3 2] length_print_d(2)[of n 3 3] that by simp_all
  have "uint (svId v) < 65536" using uint_bounded[of "svId v"] by simp
  then have "uint (svId v) + int (id_offset ty) < 100000"
    using conjunct1[OF sv_id_int[of ty]] by linarith
  then have "length (print_d 2 (uint (svId v) + int (id_offset ty))) \<le> 5"
    using length_print_d(2)[of "uint (svId v) + int (id_offset ty)" 5 2] by simp
  then show ?thesis
    using assms d(1)[of "round_int ne (elevation v)"] d(2)[of "round_int ne (azimuth v)"]
      d(1)[of "round_int ne (cN0Dbhz v)"] by (simp add: sane_def sv_text_def)
qed

lemma gsv_text_fits:
  assumes "\<And>v. v \<in> set vs \<Longrightarrow> sane ne v" "length vs \<le> 4" "tot < 100" "k < 100" "n < 100"
  shows "fits (gsv_text ne ty tot k n vs)"
proof -
  have "length (concat (map (sv_text ne ty) vs)) \<le> 18 * length vs"
    using assms(1) sv_text_ok by (intro length_concat_le) blast
  then have "length (concat (map (sv_text ne ty) vs)) \<le> 72" using assms(2) by simp
  moreover have "CHR ''*'' \<notin> set (concat (map (sv_text ne ty) vs))" using assms(1) sv_text_ok by auto
  moreover have "length (print_d w (int m)) \<le> 2" if "w \<le> 2" "m < 100" for w m
    using length_print_d(2)[of "int m" 2 w] that by simp
  note this[of 0 tot] this[of 0 k] this[of 2 n]
  moreover have "length (print_d 0 (int (signal_number ty))) \<le> 1"
    using length_print_d(2)[of "int (signal_number ty)" 1 0] by (simp add: signal_number_def split: GnssSvType.splits)
  ultimately show ?thesis using assms(3-5) by (simp add: fits_def gsv_text_def gsv_talker_def)
qed

lemma gsv_loop_sentences:
  assumes "\<And>v. v \<in> set svs \<Longrightarrow> sane ne v" "nm_svType meta = ty" "svIdOffset meta = of_nat (id_offset ty)"
    "talker meta = gsv_talker ty" "signalId meta = of_nat (signal_number ty)" "nm_svCount meta = of_nat m"
    "m < 100" "tot < 100" "k + n \<le> 100"
  shows "gsv_loop n ne meta (int tot) (int k) svs arr =
    Some (arr @ map (\<lambda>j. sentence (gsv_text ne ty tot (k + j) m (take 4 (drop (4 * j) (own ty svs))))) [0..<n])"
  using assms(1,9)
proof (induction n arbitrary: k svs arr)
  case (Suc n)
  obtain ps rest where four: "gsv_four ne meta 0 svs = (ps, rest)" by fastforce
  have ps: "ps = concat (map (gsv_sv ne (of_nat (id_offset ty))) (take 4 (own ty svs)))"
    and rest: "own ty rest = drop 4 (own ty svs)"
    using gsv_four_takes[of 0 ne meta svs] assms(2,3) four by simp_all
  have "set (snd (gsv_four ne meta i svs)) \<subseteq> set svs" for i
    by (induction ne meta i svs rule: gsv_four.induct) (auto simp: case_prod_beta)
  then have sub: "v \<in> set rest \<Longrightarrow> sane ne v" for v using Suc.prems(1) four by (metis snd_conv subsetD)
  let ?t = "gsv_text ne ty tot k m (take 4 (own ty svs))"
  have sg: "sint (of_nat (signal_number ty) :: u32) = int (signal_number ty)"
    "sint (of_nat m :: u32) = int m"
    using assms(7) by (auto intro!: sint_of_small simp: signal_number_def split: GnssSvType.splits)
  let ?ps = "[(True, ''$'' @ talker meta @ ''GSV,'' @ print_d 0 (int tot) @ '','' @ print_d 0 (int k) @ '','' @
      print_d 2 (sint (nm_svCount meta)))] @ ps @ [(False, '','' @ print_d 0 (sint (signalId meta)))]"
  have t: "text_of ?ps = ?t"
    by (simp add: gsv_text_def ps text_of_concat text_of_gsv_sv assms(4-6) sg)
  have "fits ?t"
  proof (rule gsv_text_fits)
    show "sane ne v" if "v \<in> set (take 4 (own ty svs))" for v
      using that Suc.prems(1) set_take_subset[of 4 "own ty svs"] by (auto simp: own_def)
  qed (use assms(7,8) Suc.prems(2) in simp_all)
  then have p: "run_prints ?ps [] 0 = Sentence ?t" "put_sentence ?t arr = arr @ [sentence ?t]"
    using run_prints_fits[of ?ps] t by (simp_all only: put_sentence_fits)
  have "gsv_loop (Suc n) ne meta (int tot) (int k) svs arr =
      gsv_loop n ne meta (int tot) (int (k + 1)) rest (arr @ [sentence ?t])"
    using p by (simp add: four add.commute)
  also have "\<dots> = Some ((arr @ [sentence ?t]) @
      map (\<lambda>j. sentence (gsv_text ne ty tot (k + 1 + j) m (take 4 (drop (4 * j) (own ty rest))))) [0..<n])"
    using sub Suc.prems(2) by (intro Suc.IH) simp_all
  finally show ?case by (simp add: rest map_upt_Suc add.commute[of _ 4] del: upt_Suc)
qed simp

fun in_view_of :: "loc_sv_cache_info \<Rightarrow> GnssSvType \<Rightarrow> u32" where
  "in_view_of c GNSS_SV_TYPE_GPS = gps_count c"
| "in_view_of c GNSS_SV_TYPE_GLONASS = glo_count c"
| "in_view_of c GNSS_SV_TYPE_GALILEO = gal_count c"
| "in_view_of c GNSS_SV_TYPE_QZSS = qzss_count c"
| "in_view_of c GNSS_SV_TYPE_BEIDOU = bds_count c"
| "in_view_of c _ = 0"

lemma cache_counts:
  "ty \<in> set known_types \<Longrightarrow>
   in_view_of (fold (cache_sv ne) svs c) ty = in_view_of c ty + of_nat (length (own ty svs))"
proof (induction svs arbitrary: c)
  case (Cons v svs)
  have "in_view_of (cache_sv ne v c) ty = in_view_of c ty + (if sv_type v = ty then 1 else 0)"
    using Cons.prems by (cases rule: known_types_cases) (simp_all add: cache_sv_def split: GnssSvType.splits)
  then show ?case using Cons by (simp add: own_def)
qed (simp add: own_def)

lemma length_own: "length (own ty svs) \<le> length svs"
  by (simp add: own_def)

lemma generate_GSV_known:
  assumes "\<And>v. v \<in> set svs \<Longrightarrow> sane ne v" "length svs \<le> 64" "ty \<in> set known_types"
  shows "loc_nmea_generate_GSV ne svs (loc_nmea_sv_meta_init (fold (cache_sv ne) svs empty_cache) ty False) arr =
    Some (arr @ gsv_sentences ne svs ty)"
proof -
  let ?c = "fold (cache_sv ne) svs empty_cache" and ?n = "length (own ty svs)"
  have n: "?n \<le> 64" using length_own[of ty svs] assms(2) by linarith
  have "in_view_of empty_cache ty = 0"
    using assms(3) by (cases rule: known_types_cases) (simp_all add: empty_cache_def)
  then have count: "in_view_of ?c ty = of_nat ?n" using cache_counts[OF assms(3), of ne svs empty_cache] by simp
  obtain meta where m: "loc_nmea_sv_meta_init ?c ty False = Some meta" "talker meta = gsv_talker ty"
    "nm_svType meta = ty" "svIdOffset meta = of_nat (id_offset ty)" "signalId meta = of_nat (signal_number ty)"
    "nm_svCount meta = of_nat ?n"
    using assms(3) count
    by (cases rule: known_types_cases)
      (auto simp: loc_nmea_sv_meta_init_def sv_meta_of_def gsv_talker_def talker_of_def id_offset_def
        signal_number_def GLONASS_SV_ID_OFFSET_def)
  have c: "sint (nm_svCount meta) = int ?n" using n m(6) sint_of_small[of ?n] by simp
  show ?thesis
  proof (cases "?n = 0")
    case True
    have sg: "sint (of_nat (signal_number ty) :: u32) = int (signal_number ty)" "signal_number ty < 10"
      by (auto intro!: sint_of_small simp: signal_number_def split: GnssSvType.splits)
    let ?t = "''$'' @ gsv_talker ty @ ''GSV,1,1,0,'' @ print_d 0 (int (signal_number ty))"
    have "length (print_d 0 (int (signal_number ty))) \<le> 1"
      using sg(2) length_print_d(2)[of "int (signal_number ty)" 1 0] by simp
    then have "fits ?t" by (simp add: fits_def gsv_talker_def)
    then have "put_sentence ?t arr = arr @ [sentence ?t]" "run_prints [(False, ?t)] [] 0 = Sentence ?t"
      using run_prints_fits[of "[(False, ?t)]"] by (simp_all only: put_sentence_fits text_of_simps snd_conv append_Nil2)
    then show ?thesis
      using True m c sg(1)
      by (simp add: loc_nmea_generate_GSV_def gsv_sentences_def Let_def)
  next
    case False
    let ?s = "int ?n div 4 + (if int ?n mod 4 \<noteq> 0 then 1 else 0)"
    have s: "?s = int ((?n + 3) div 4)" by (auto simp: zdiv_int) presburger+
    have "loc_nmea_generate_GSV ne svs (Some meta) arr = gsv_loop (nat ?s) ne meta ?s (int 1) svs arr"
      using False c by (simp add: loc_nmea_generate_GSV_def Let_def)
    also have "\<dots> = gsv_loop ((?n + 3) div 4) ne meta (int ((?n + 3) div 4)) (int 1) svs arr"
      by (simp only: s nat_int)
    also have "\<dots> = Some (arr @ map (\<lambda>j. sentence (gsv_text ne ty ((?n + 3) div 4) (1 + j) ?n
        (take 4 (drop (4 * j) (own ty svs))))) [0..<(?n + 3) div 4])"
      using assms(1) m n by (intro gsv_loop_sentences) auto
    finally show ?thesis using False m(1) by (simp add: gsv_sentences_def Let_def)
  qed
qed

lemma gsv_sentences_valid:
  assumes "\<And>v. v \<in> set svs \<Longrightarrow> sane ne v" "length svs \<le> 64"
  shows "list_all nmea_valid (gsv_sentences ne svs ty)"
proof -
  have n: "length (own ty svs) \<le> 64"
    using length_own[of ty svs] assms(2) by linarith
  have "length (print_d 0 (int (signal_number ty))) \<le> 1"
    using length_print_d(2)[of "int (signal_number ty)" 1 0] by (simp add: signal_number_def split: GnssSvType.splits)
  then have "fits (''$'' @ gsv_talker ty @ ''GSV,1,1,0,'' @ print_d 0 (int (signal_number ty)))"
    by (simp add: fits_def gsv_talker_def)
  moreover have "fits (gsv_text ne ty ((length (own ty svs) + 3) div 4) (k + 1) (length (own ty svs))
      (take 4 (drop (4 * k) (own ty svs))))" if "k < (length (own ty svs) + 3) div 4" for k
  proof (rule gsv_text_fits)
    show "sane ne v" if "v \<in> set (take 4 (drop (4 * k) (own ty svs)))" for v
      using that assms(1) set_take_subset set_drop_subset by (fastforce simp: own_def)
  qed (use n that in auto)
  ultimately show ?thesis
    by (auto simp: gsv_sentences_def Let_def list_all_iff intro!: sentence_valid)
qed

lemma satellites_in_view_named':
  assumes "\<And>v. v \<in> set svs \<Longrightarrow> sane ne v" "length svs \<le> 64"
  shows "loc_nmea_generate_sv ne svs arr = Some (arr @ concat (map (gsv_sentences ne svs) known_types)) \<and>
    list_all nmea_valid (concat (map (gsv_sentences ne svs) known_types))"
proof
  have k: "GNSS_SV_TYPE_GPS \<in> set known_types" "GNSS_SV_TYPE_GLONASS \<in> set known_types"
    "GNSS_SV_TYPE_GALILEO \<in> set known_types" "GNSS_SV_TYPE_QZSS \<in> set known_types"
    "GNSS_SV_TYPE_BEIDOU \<in> set known_types"
    by (simp_all add: known_types_def)
  note g = generate_GSV_known[OF assms(1) assms(2)]
  show "loc_nmea_generate_sv ne svs arr = Some (arr @ concat (map (gsv_sentences ne svs) known_types))"
    using g[OF _ k(1)] g[OF _ k(2)] g[OF _ k(3)] g[OF _ k(4)] g[OF _ k(5)]
    by (simp add: loc_nmea_generate_sv_def Let_def known_types_def)
  show "list_all nmea_valid (concat (map (gsv_sentences ne svs) known_types))"
    using gsv_sentences_valid[OF assms] by (simp add: known_types_def)
qed

text \<open>
  C32: For each of the five constellations the satellites in view are named once, in their order, four in a
  sentence, with the number of sentences and the number of the sentence, and one blank sentence if there are
  none; all sentences are valid. The angles and densities are numbers of at most three digits.
\<close>

theorem satellites_in_view_named:
  assumes "\<And>v. v \<in> set svs \<Longrightarrow> sane ne v" "length svs \<le> 64"
  shows "loc_nmea_generate_sv ne svs arr = Some (arr @ concat (map (gsv_sentences ne svs) known_types)) \<and>
    list_all nmea_valid (concat (map (gsv_sentences ne svs) known_types))"
  using assms by (rule satellites_in_view_named')

text \<open>
  Concrete operations in which a number is its own bit pattern, a satellite in view, and a position that
  used the GPS satellites 5 and 10 and the Galileo satellite 3.
\<close>

definition demo_nmea_env :: nmea_env where
  "demo_nmea_env =
     \<lparr>ne_lit = (\<lambda>s. 0), ne_f2d = ucast, ne_d2f = ucast, ne_add = (+), ne_sub = (-), ne_mul = (\<lambda>x y. x),
      ne_div = (\<lambda>x y. x), ne_fmod = (\<lambda>x y. x), ne_floor = (\<lambda>x. x), ne_lt = (<), ne_d2i = ucast, ne_d2u8 = ucast,
      ne_printf = (\<lambda>f x. ''0.0''), ne_shift = (\<lambda>n. 0)\<rparr>"

definition demo_in_view :: "GnssSvType \<Rightarrow> u16 \<Rightarrow> GnssSv" where
  "demo_in_view ty n =
     \<lparr>svId = n, sv_type = ty, cN0Dbhz = 33, elevation = 12, azimuth = 213, gnssSvOptionsMask = 0\<rparr>"

definition demo_location :: UlpLocation where
  "demo_location =
     \<lparr>gl_flags = 0x000F, gl_latitude = 48, gl_longitude = 11, gl_altitude = 500, gl_speed = 1, gl_bearing = 90,
      gl_accuracy = 3, gl_timestamp = 1500000000000, ul_rawData = NULL\<rparr>"

definition demo_extended :: GpsLocationExtended where
  "demo_extended =
     \<lparr>le_flags = 0x1007, le_altitudeMeanSeaLevel = 450, le_pdop = 1, le_hdop = 1, le_vdop = 1,
      le_magneticDeviation = 2, le_vert_unc = 0, le_speed_unc = 0, le_bearing_unc = 0,
      le_horizontal_reliability = LOC_RELIABILITY_HIGH, le_vertical_reliability = LOC_RELIABILITY_HIGH,
      le_horUncEllipseSemiMajor = 0, le_horUncEllipseSemiMinor = 0, le_horUncEllipseOrientAzimuth = 0,
      le_gnss_sv_used_ids = no_svs\<lparr>gps_sv_used_ids_mask := 0x210, gal_sv_used_ids_mask := 4\<rparr>,
      le_navSolutionMask = 0, le_tech_mask = 1\<rparr>"

lemma demo_printf_ok: "printf_ok demo_nmea_env"
  by (simp add: printf_ok_def demo_nmea_env_def)

lemma demo_altitude_fits: "altitude_fits demo_nmea_env demo_location demo_extended"
  by (simp add: altitude_fits_def demo_nmea_env_def)

lemma demo_sane: "sane demo_nmea_env (demo_in_view ty n)"
  by (simp add: sane_def round_int_def demo_nmea_env_def demo_in_view_def)

theorem satellites_in_view_named_witness:
  "loc_nmea_generate_sv demo_nmea_env (map (demo_in_view GNSS_SV_TYPE_GPS) [1, 2, 3, 4, 5]) [] =
   Some (concat (map (gsv_sentences demo_nmea_env (map (demo_in_view GNSS_SV_TYPE_GPS) [1, 2, 3, 4, 5])) known_types))"
proof -
  let ?svs = "map (demo_in_view GNSS_SV_TYPE_GPS) [1, 2, 3, 4, 5]"
  have "sane demo_nmea_env v" if "v \<in> set ?svs" for v using that by (auto simp: demo_sane)
  from satellites_in_view_named[of ?svs, OF this, of "[]"] show ?thesis by simp
qed

theorem position_sentences_valid_witness:
  "\<exists>ss. loc_nmea_generate_pos demo_nmea_env demo_location demo_extended True [] = Some ss \<and>
     list_all nmea_valid ss \<and> map kind ss = [''GSA'', ''GSA'', ''VTG'', ''RMC'', ''GGA'']"
proof -
  have "other_systems (cache_of demo_extended) = 1"
    by (simp add: other_systems_def cache_of_def demo_extended_def HAS_GNSS_SV_USED_DATA_def empty_cache_def no_svs_def)
  then show ?thesis
    using position_sentences_valid[of demo_nmea_env demo_location demo_extended True "[]"]
    by (simp add: demo_printf_ok demo_altitude_fits numeral_2_eq_2) (simp add: demo_location_def)
qed

section \<open>Satellites named\<close>

text \<open>
  The sentence of a constellation names the first twelve satellites of its mask by their numbers in
  ascending order, the rest of its twelve fields is empty, and the number of all satellites of the mask is
  returned; without satellites there is a sentence for GPS only.
\<close>

theorem satellites_used_named:
  assumes "printf_ok ne" "ty \<in> set known_types"
  shows "loc_nmea_generate_GSA ne e (loc_nmea_sv_meta_init c ty b) arr =
    (let ids = map (\<lambda>n. n + 1 + id_offset ty) (filter (bit (used_of c ty)) [0..<32])
     in Some (length ids,
          if ids = [] \<and> ty \<noteq> GNSS_SV_TYPE_GPS then arr
          else arr @ [sentence (gsa_text ne e (talker_of c ty b) ids (system_number ty))]))"
  using generate_GSA_known(2)[OF assms] by (simp only: used_ids_def Let_def)

theorem satellites_used_named_witness:
  "loc_nmea_generate_GSA demo_nmea_env demo_extended
     (loc_nmea_sv_meta_init (empty_cache\<lparr>glo_used_mask := 5\<rparr>) GNSS_SV_TYPE_GLONASS False) [] =
   Some (2, [sentence ''$GLGSA,A,2,65,67,,,,,,,,,,,0.0,0.0,0.0,2''])"
proof -
  have i: "filter (bit (5 :: u32)) [0..<32] = [0, 2]"
    by (simp add: upt_rec bit_numeral_rec)
  have f: "fix_type (Suc (Suc 0)) = CHR ''2''" by (simp add: fix_type_def)
  have "concat (map (gsa_field [65, 67]) [0..<12]) = ''65,67,,,,,,,,,,,''"
    by (simp add: upt_rec gsa_field_def print_d_def pad0_def digits.simps digit_char_def)
  then have "gsa_text demo_nmea_env demo_extended ''GL'' [65, 67] 2 = ''$GLGSA,A,2,65,67,,,,,,,,,,,0.0,0.0,0.0,2''"
    using f
    by (simp add: gsa_text_def dop_text_def float_1_def demo_nmea_env_def demo_extended_def HAS_DOP_def
        print_d_def pad0_def digits.simps digit_char_def del: upt_rec_numeral)
  moreover have "GNSS_SV_TYPE_GLONASS \<in> set known_types" by (simp add: known_types_def)
  ultimately show ?thesis
    using satellites_used_named[OF demo_printf_ok, of GNSS_SV_TYPE_GLONASS demo_extended
        "empty_cache\<lparr>glo_used_mask := 5\<rparr>" False "[]"]
    by (simp add: used_of_def i id_offset_def talker_of_def system_number_def empty_cache_def del: upt_rec_numeral)
qed

text \<open>
  The masks of BeiDou and QZSS are taken for one another: if the only satellite used is number 1 of BeiDou,
  the sentence that names it is that of QZSS, with the number 5 of that system.
\<close>

theorem beidou_named_as_qzss:
  assumes "le_flags e = HAS_GNSS_SV_USED_DATA" "le_gnss_sv_used_ids e = no_svs\<lparr>bds_sv_used_ids_mask := 1\<rparr>"
    "printf_ok ne"
  shows "gsa_steps ne e (''GP'', 0, []) =
    Some (''GP'', 1, [sentence ''$GPGSA,A,1,,,,,,,,,,,,,,,,1'', sentence ''$PQGSA,A,2,01,,,,,,,,,,,,,,,5''])"
proof -
  have c: "cache_of e = empty_cache\<lparr>qzss_used_mask := 1\<rparr>"
    by (simp add: cache_of_def assms(1,2) HAS_GNSS_SV_USED_DATA_def no_svs_def empty_cache_def)
  have i: "used_ids 1 0 = [1]" "used_ids 0 n = []" for n
    by (simp_all add: used_ids_def upt_rec bit_1_iff)
  have f: "concat (map (gsa_field []) [0..<12]) = '',,,,,,,,,,,,''"
    "concat (map (gsa_field [1]) [0..<12]) = ''01,,,,,,,,,,,,''"
    by (simp_all add: upt_rec gsa_field_def print_d_def pad0_def digits.simps digit_char_def)
  have t: "gsa_text ne e ''GP'' [] 1 = ''$GPGSA,A,1,,,,,,,,,,,,,,,,1''"
    "gsa_text ne e ''PQ'' [1] 5 = ''$PQGSA,A,2,01,,,,,,,,,,,,,,,5''"
    using f
    by (simp_all add: gsa_text_def dop_text_def assms(1) HAS_DOP_def HAS_GNSS_SV_USED_DATA_def fix_type_def
        print_d_def pad0_def digits.simps digit_char_def del: upt_rec_numeral)
  have "position_talker (cache_of e) = ''GP''" "used_count (cache_of e) = 1"
    by (simp_all add: c position_talker_def used_count_def known_types_def empty_cache_def used_of_def i id_offset_def)
  moreover have "systems_used (cache_of e) = 1" by (simp add: systems_used_def c empty_cache_def)
  moreover from this have "gsa_all ne e = [sentence ''$GPGSA,A,1,,,,,,,,,,,,,,,,1'', sentence ''$PQGSA,A,2,01,,,,,,,,,,,,,,,5'']"
    by (simp add: gsa_all_def gsa_one_def c empty_cache_def used_of_def i id_offset_def talker_of_def
        system_number_def t[simplified])
  ultimately show ?thesis using gsa_steps_all[OF assms(3), of e "[]"] by simp
qed

theorem beidou_named_as_qzss_witness:
  "gsa_steps demo_nmea_env (demo_extended\<lparr>le_flags := 0x1000, le_gnss_sv_used_ids := no_svs\<lparr>bds_sv_used_ids_mask := 1\<rparr>\<rparr>)
     (''GP'', 0, []) =
   Some (''GP'', 1, [sentence ''$GPGSA,A,1,,,,,,,,,,,,,,,,1'', sentence ''$PQGSA,A,2,01,,,,,,,,,,,,,,,5''])"
  by (rule beidou_named_as_qzss) (simp_all add: demo_printf_ok HAS_GNSS_SV_USED_DATA_def)

section \<open>Sentences that reach the clients\<close>

text \<open>The adapter with the sentences of this theory, as bytes.\<close>

definition nmea_bytes :: "string list option \<Rightarrow> nmea list" where
  "nmea_bytes ss = (case ss of None \<Rightarrow> [] | Some ss \<Rightarrow> map (map of_char) ss)"

definition over_nmea :: "nmea_env \<Rightarrow> report_env \<Rightarrow> report_env" where
  "over_nmea ne w =
     w\<lparr>re_generate_pos := (\<lambda>g e b. nmea_bytes (loc_nmea_generate_pos ne g e b [])),
       re_generate_sv := (\<lambda>svs. nmea_bytes (loc_nmea_generate_sv ne svs []))\<rparr>"

definition bytes_valid :: "nmea \<Rightarrow> bool" where
  "bytes_valid n \<longleftrightarrow> nmea_valid (map (\<lambda>b. char_of (unat b)) n)"

fun call_valid :: "report_call \<Rightarrow> bool" where
  "call_valid (R_nmea p t n) \<longleftrightarrow> bytes_valid n"
| "call_valid c \<longleftrightarrow> True"

fun msg_valid :: "nmea_env \<Rightarrow> report_msg \<Rightarrow> bool" where
  "msg_valid ne (MsgReportPosition g e status techMask) \<longleftrightarrow>
     0 \<le> sint (gl_timestamp g) \<and> altitude_fits ne g e"
| "msg_valid ne (MsgReportSv svs) \<longleftrightarrow> length svs \<le> 64 \<and> list_all (sane ne) svs"
| "msg_valid ne (MsgReportNmea n) \<longleftrightarrow> bytes_valid n"
| "msg_valid ne (MsgReportGnssMeasurementData m) \<longleftrightarrow> True"

text \<open>What the modem reports: times from 1970 on, numbers of three digits, sentences that are valid.\<close>

fun event_valid :: "nmea_env \<Rightarrow> report_event \<Rightarrow> bool" where
  "event_valid ne (RpPosition g e status techMask fromUlp taken) \<longleftrightarrow>
     msg_valid ne (MsgReportPosition g e status techMask)"
| "event_valid ne (RpSv svs fromUlp taken) \<longleftrightarrow> msg_valid ne (MsgReportSv svs)"
| "event_valid ne (RpNmea n fromUlp taken) \<longleftrightarrow> msg_valid ne (MsgReportNmea n)"
| "event_valid ne _ \<longleftrightarrow> True"

lemma bytes_valid_of_char: "bytes_valid (map of_char s) \<longleftrightarrow> nmea_valid s"
proof -
  have "char_of (unat (of_char c :: u8)) = c" for c :: char
  proof -
    have "unat (of_nat (of_char c) :: u8) = of_char c" by (simp add: unat_of_nat)
    then show ?thesis by (simp add: of_nat_of_char)
  qed
  then show ?thesis by (simp add: bytes_valid_def comp_def)
qed

lemma rp_call_log [simp]: "rp_log (rp_call cs s) = rp_log s @ cs" "rp_queue (rp_call cs s) = rp_queue s"
  "rp_clients (rp_call cs s) = rp_clients s" "rp_tracking (rp_call cs s) = rp_tracking s"
  by (simp_all add: rp_call_def)

text \<open>Only sentences matter for what is valid, and the queue is not touched.\<close>

definition log_valid :: "reports \<Rightarrow> bool" where
  "log_valid s \<longleftrightarrow> list_all call_valid (rp_log s)"

lemma reportNmea_valid:
  "log_valid s \<Longrightarrow> bytes_valid n \<Longrightarrow> log_valid (reportNmea w n s) \<and> rp_queue (reportNmea w n s) = rp_queue s"
  by (auto simp: log_valid_def reportNmea_def list_all_iff)

lemma reportNmeas_valid:
  assumes "log_valid s" "list_all bytes_valid ns"
  shows "log_valid (reportNmeas w ns s) \<and> rp_queue (reportNmeas w ns s) = rp_queue s"
proof -
  have "log_valid (fold (reportNmea w) ns s) \<and> rp_queue (fold (reportNmea w) ns s) = rp_queue s"
    using assms by (induction ns arbitrary: s) (simp_all add: reportNmea_valid)
  then show ?thesis using assms(1) by (simp add: reportNmeas_def)
qed

lemma call_valid_position: "list_all call_valid (concat (map (position_calls g e techMask) cs))"
  by (induction cs) (simp_all add: position_calls_def)

lemma reportPosition_valid:
  assumes "printf_ok ne" "log_valid s" "msg_valid ne (MsgReportPosition g e status techMask)"
  shows "log_valid (reportPosition (over_nmea ne w) g e status techMask s) \<and>
    rp_queue (reportPosition (over_nmea ne w) g e status techMask s) = rp_queue s"
proof -
  have b: "list_all bytes_valid (re_generate_pos (over_nmea ne w) g e b)" for b
    using position_sentences_valid'[of ne g e b "[]"] assms(1,3)
    by (auto simp: over_nmea_def nmea_bytes_def bytes_valid_of_char list_all_iff)
  have c: "log_valid (rp_call (concat (map (position_calls g e techMask) cs)) s1)" if "log_valid s1" for s1 cs
    using that call_valid_position by (simp add: log_valid_def)
  have d: "log_valid (rp_call [D_rawData p] s1)" if "log_valid s1" for s1 p
    using that by (simp add: log_valid_def)
  have u: "log_valid (s\<lparr>mGnssSvIdUsedInPosAvail := True, mGnssSvIdUsedInPosition := x\<rparr>)" for x
    using assms(2) by (simp add: log_valid_def)
  show ?thesis
    using reportNmeas_valid[OF _ b] assms(2) c d u by (simp add: reportPosition_def Let_def)
qed

lemma generate_sv_bytes:
  assumes "list_all (sane ne) svs" "length svs \<le> 64"
  shows "list_all bytes_valid (nmea_bytes (loc_nmea_generate_sv ne svs []))"
proof -
  have "sane ne v" if "v \<in> set svs" for v using assms(1) that by (simp add: list_all_iff)
  from satellites_in_view_named'[of svs, OF this assms(2), of "[]"] show ?thesis
    by (auto simp: nmea_bytes_def bytes_valid_of_char list_all_iff)
qed

lemma reportSv_one_sane: "sane ne (reportSv_one w a u v) = sane ne v"
  by (simp add: reportSv_one_def Let_def sane_def)

lemma reportSv_valid:
  assumes "log_valid s" "msg_valid ne (MsgReportSv svs)"
  shows "log_valid (reportSv (over_nmea ne w) svs s) \<and> rp_queue (reportSv (over_nmea ne w) svs s) = rp_queue s"
proof -
  let ?svs = "map (reportSv_one (over_nmea ne w) (mGnssSvIdUsedInPosAvail s) (mGnssSvIdUsedInPosition s)) svs"
  have "list_all (sane ne) ?svs" using assms(2) by (auto simp: list_all_iff reportSv_one_sane)
  moreover have "re_generate_sv (over_nmea ne w) ?svs = nmea_bytes (loc_nmea_generate_sv ne ?svs [])"
    by (simp add: over_nmea_def)
  ultimately have "list_all bytes_valid (re_generate_sv (over_nmea ne w) ?svs)"
    using generate_sv_bytes[of ne ?svs] assms(2) by simp
  moreover have "log_valid (rp_call (map (\<lambda>e. R_sv (fst e) x) cs) s)" for x cs
    using assms(1) by (auto simp: log_valid_def list_all_iff)
  ultimately have "log_valid (reportNmeas (over_nmea ne w) (re_generate_sv (over_nmea ne w) ?svs)
      (rp_call (map (\<lambda>e. R_sv (fst e) ?svs) (filter (\<lambda>e. cb_gnssSv (snd e)) (rp_clients s))) s)) \<and>
    rp_queue (reportNmeas (over_nmea ne w) (re_generate_sv (over_nmea ne w) ?svs)
      (rp_call (map (\<lambda>e. R_sv (fst e) ?svs) (filter (\<lambda>e. cb_gnssSv (snd e)) (rp_clients s))) s)) = rp_queue s"
    using reportNmeas_valid by fastforce
  then show ?thesis by (simp add: reportSv_def Let_def log_valid_def)
qed

lemma report_proc_valid:
  assumes "printf_ok ne" "log_valid s" "msg_valid ne m"
  shows "log_valid (report_proc (over_nmea ne w) m s) \<and> rp_queue (report_proc (over_nmea ne w) m s) = rp_queue s"
proof (cases m)
  case (MsgReportPosition g e status techMask)
  moreover have "log_valid (rp_call [S_eventPosition g e] s)" using assms(2) by (simp add: log_valid_def)
  ultimately show ?thesis
    using assms reportPosition_valid[OF assms(1), of s g e status techMask w]
      reportPosition_valid[OF assms(1), of "rp_call [S_eventPosition g e] s" g e status techMask w]
    by (simp add: Let_def)
next
  case (MsgReportNmea n)
  moreover have "log_valid (rp_call [S_setNmeaString n] s)" using assms(2) by (simp add: log_valid_def)
  ultimately show ?thesis using assms(3) by (simp add: Let_def reportNmea_valid)
next
  case (MsgReportGnssMeasurementData x)
  then show ?thesis using assms(2) by (auto simp: log_valid_def reportGnssMeasurementData_def list_all_iff)
qed (use assms reportSv_valid in simp)



end
