(* ===== verification/Loc_Ipc.thy ===== *)
theory Loc_Ipc
  imports C_Strings
begin

text \<open>
  Messages over local sockets, \<open>gps/utils/LocIpc.cpp\<close>: a message of up to 8192 bytes is one datagram; a longer
  one is a head with its length and then parts. The listener puts them together in a buffer that it keeps
  from one message to the next.

  A datagram is sent as a whole or not at all; whether it can be sent is an argument. The datagrams of a
  socket are a list, in the order of their arrival, whoever sent them; \<open>None\<close> in it is an error of the
  socket. \<open>can_hold\<close> says whether a string of a length can be allocated; if not, the exception ends the
  process.
\<close>

definition LOC_MSG_BUF_LEN :: nat where "LOC_MSG_BUF_LEN = 8192"
definition LOC_MSG_HEAD :: string where "LOC_MSG_HEAD = ''$MSGLEN$''"
definition LOC_MSG_ABORT :: string where "LOC_MSG_ABORT = ''LocIpcMsg::ABORT''"

section \<open>Sending\<close>

type_synonym sendto_ok = "string list \<Rightarrow> bool"

function send_parts :: "sendto_ok \<Rightarrow> string \<Rightarrow> string list \<Rightarrow> string list \<times> bool" where
  "send_parts ok rest sent =
     (if rest = [] then (sent, True)
      else if ok sent
      then send_parts ok (drop LOC_MSG_BUF_LEN rest) (sent @ [take LOC_MSG_BUF_LEN rest])
      else (sent, False))"
  by pat_completeness auto
termination
  by (relation "measure (\<lambda>(ok, rest, sent). length rest)") (auto simp: LOC_MSG_BUF_LEN_def)

declare send_parts.simps [simp del]

text \<open>The datagrams of a message, and whether all were sent.\<close>

definition sendData :: "sendto_ok \<Rightarrow> string \<Rightarrow> string list \<Rightarrow> string list \<times> bool" where
  "sendData ok bytes sent =
     (if length bytes \<le> LOC_MSG_BUF_LEN
      then if ok sent then (sent @ [bytes], True) else (sent, False)
      else let head = LOC_MSG_HEAD @ digits (length bytes)
           in if ok sent then send_parts ok bytes (sent @ [head]) else (sent, False))"

text \<open>\<open>LocIpc::send\<close> with a string: the length is passed on with 32 bits.\<close>

definition ipc_send :: "bool \<Rightarrow> sendto_ok \<Rightarrow> string \<Rightarrow> string list \<Rightarrow> string list \<times> bool" where
  "ipc_send socket_ok ok bytes sent =
     (if socket_ok then sendData ok (take (unat (of_nat (length bytes) :: u32)) bytes) sent else (sent, False))"

text \<open>\<open>LocIpcSender\<close> keeps its socket: it sends nothing without one or without data.\<close>

definition sender_send :: "bool \<Rightarrow> sendto_ok \<Rightarrow> string option \<Rightarrow> string list \<Rightarrow> string list \<times> bool" where
  "sender_send has_socket ok bytes sent =
     (case bytes of None \<Rightarrow> (sent, False) | Some b \<Rightarrow> if has_socket then sendData ok b sent else (sent, False))"

section \<open>Receiving\<close>

text \<open>\<open>std::string::resize\<close>, and a datagram that is written into a part of the buffer: what does not fit is lost.\<close>

definition resize :: "nat \<Rightarrow> string \<Rightarrow> string" where
  "resize n s = take n s @ replicate (n - length s) CHR 0x00"

definition recv_at :: "string \<Rightarrow> nat \<Rightarrow> string \<Rightarrow> string" where
  "recv_at buf pos d = take pos buf @ take (length buf - pos) d @ drop (pos + length d) buf"

text \<open>\<open>sscanf\<close> with \<open>%zu\<close>: the number at the start of a text that ends at a zero; 0 if there is none.\<close>

definition scan_zu :: "string \<Rightarrow> nat" where
  "scan_zu s =
     (let (neg, t) = read_sign (dropWhile isspace (takeWhile (\<lambda>c. c \<noteq> CHR 0x00) s));
          v = min (nat (read_digits 10 0 t)) (2 ^ 64 - 1)
      in if neg then (2 ^ 64 - v) mod 2 ^ 64 else v)"

text \<open>The listener waits for a message, or for the rest of a long one.\<close>

datatype listener_mode =
    Waiting
  | Long nat nat
  | Ended
  | Crashed

record listener =
  li_msg :: string
  li_mode :: listener_mode
  li_received :: "string list"

definition listener_init :: listener where
  "listener_init = \<lparr>li_msg = [], li_mode = Waiting, li_received = []\<rparr>"

definition onReceive :: "string \<Rightarrow> listener \<Rightarrow> listener" where
  "onReceive m l = l\<lparr>li_msg := m, li_mode := Waiting, li_received := li_received l @ [m]\<rparr>"

definition recv_first :: "(nat \<Rightarrow> bool) \<Rightarrow> string \<Rightarrow> listener \<Rightarrow> listener" where
  "recv_first can_hold d l =
     (let msg = resize LOC_MSG_BUF_LEN (li_msg l);
          nBytes = min LOC_MSG_BUF_LEN (length d);
          msg1 = recv_at msg 0 d
      in if nBytes = 0 then l\<lparr>li_msg := msg1\<rparr>
         else if take (length LOC_MSG_ABORT) msg1 = LOC_MSG_ABORT then l\<lparr>li_msg := msg1, li_mode := Ended\<rparr>
         else if take (length LOC_MSG_HEAD) msg1 \<noteq> LOC_MSG_HEAD then onReceive (resize nBytes msg1) l
         else let msgLen = scan_zu (drop (length LOC_MSG_HEAD) msg1)
              in if \<not> can_hold msgLen then l\<lparr>li_msg := msg1, li_mode := Crashed\<rparr>
                 else if msgLen = 0 then onReceive [] l
                 else l\<lparr>li_msg := resize msgLen msg1, li_mode := Long msgLen 0\<rparr>)"

definition recv_next :: "nat \<Rightarrow> nat \<Rightarrow> string \<Rightarrow> listener \<Rightarrow> listener" where
  "recv_next msgLen msgLenReceived d l =
     (let nBytes = min (msgLen - msgLenReceived) (length d);
          msg1 = recv_at (li_msg l) msgLenReceived d;
          received = msgLenReceived + nBytes
      in if nBytes = 0 then l\<lparr>li_mode := Ended\<rparr>
         else if received < msgLen then l\<lparr>li_msg := msg1, li_mode := Long msgLen received\<rparr>
         else onReceive msg1 l)"

definition recv_datagram :: "(nat \<Rightarrow> bool) \<Rightarrow> string option \<Rightarrow> listener \<Rightarrow> listener" where
  "recv_datagram can_hold d l =
     (case li_mode l of
        Waiting \<Rightarrow> (case d of None \<Rightarrow> l\<lparr>li_mode := Ended\<rparr> | Some d \<Rightarrow> recv_first can_hold d l)
      | Long m r \<Rightarrow> (case d of None \<Rightarrow> l\<lparr>li_mode := Ended\<rparr> | Some d \<Rightarrow> recv_next m r d l)
      | _ \<Rightarrow> l)"

definition listen :: "(nat \<Rightarrow> bool) \<Rightarrow> string option list \<Rightarrow> listener \<Rightarrow> listener" where
  "listen can_hold ds l = fold (recv_datagram can_hold) ds l"

section \<open>Starting and stopping\<close>

text \<open>\<open>fd\<close> says whether the socket is open; \<open>runnable\<close> is the name that a thread of its own listens to.\<close>

record loc_ipc =
  mIpcFd :: bool
  mStopRequested :: bool
  mRunnable :: "string option"

definition ipc_new :: loc_ipc where
  "ipc_new = \<lparr>mIpcFd = False, mStopRequested = False, mRunnable = None\<rparr>"

definition startListeningNonBlocking :: "string \<Rightarrow> loc_ipc \<Rightarrow> loc_ipc" where
  "startListeningNonBlocking name s = s\<lparr>mRunnable := Some name\<rparr>"

text \<open>The start of the thread: the socket and its name.\<close>

definition open_listener :: "bool \<Rightarrow> bool \<Rightarrow> loc_ipc \<Rightarrow> loc_ipc \<times> bool" where
  "open_listener socket_ok bind_ok s =
     (if socket_ok \<and> bind_ok then (s\<lparr>mIpcFd := True\<rparr>, True) else (s, False))"

text \<open>The end of the loop: what \<open>startListeningBlocking\<close> returns.\<close>

definition close_listener :: "loc_ipc \<Rightarrow> loc_ipc \<times> bool" where
  "close_listener s =
     (if mStopRequested s then (s\<lparr>mStopRequested := False\<rparr>, True) else (s\<lparr>mIpcFd := False\<rparr>, False))"

text \<open>The datagrams that stopping sends to the own socket, and the name that is deleted.\<close>

definition stopListening :: "sendto_ok \<Rightarrow> loc_ipc \<Rightarrow> loc_ipc \<times> string list \<times> string option" where
  "stopListening ok s =
     (let s1 = s\<lparr>mStopRequested := True\<rparr>;
          sent = (if mRunnable s = None then [] else fst (ipc_send True ok LOC_MSG_ABORT []))
      in (s1\<lparr>mRunnable := None, mIpcFd := False\<rparr>, sent, mRunnable s))"

section \<open>Numbers\<close>

lemma digit_val_digit_char: "n < 10 \<Longrightarrow> digit_val 10 (digit_char n) = Some n"
proof -
  have "list_all (\<lambda>n. digit_val 10 (digit_char n) = Some n) [0..<10]"
    by (simp add: upt_rec digit_char_def digit_val_def)
  then show "n < 10 \<Longrightarrow> digit_val 10 (digit_char n) = Some n" by (simp add: list_all_iff)
qed

lemma read_digits_more:
  assumes "digit_val 10 c = Some d" "list_all (\<lambda>c. digit_val 10 c \<noteq> None) xs"
  shows "read_digits 10 acc (xs @ [c] @ rest) = read_digits 10 (read_digits 10 acc xs * 10 + int d) rest"
  using assms(2)
proof (induction xs arbitrary: acc)
  case (Cons a xs)
  then obtain v where "digit_val 10 a = Some v" by auto
  then show ?case using Cons by simp
qed (simp add: assms(1))

lemma digits_are_digits: "list_all (\<lambda>c. digit_val 10 c \<noteq> None) (digits n)"
proof (induction n rule: digits.induct)
  case (1 n)
  then show ?case
    using digit_val_digit_char[of n] digit_val_digit_char[of "n mod 10"]
    by (subst digits.simps) auto
qed

lemma read_digits_digits: "read_digits 10 0 (digits n @ rest) = read_digits 10 (int n) rest"
proof (induction n arbitrary: rest rule: digits.induct)
  case (1 n)
  show ?case
  proof (cases "n < 10")
    case True
    then show ?thesis by (subst digits.simps) (simp add: digit_val_digit_char)
  next
    case False
    have "read_digits 10 0 (digits (n div 10)) = int (n div 10)" using 1[OF False, of "[]"] by simp
    then have "read_digits 10 0 (digits (n div 10) @ [digit_char (n mod 10)] @ rest) =
        read_digits 10 (int (n div 10) * 10 + int (n mod 10)) rest"
      using read_digits_more[OF digit_val_digit_char digits_are_digits, of "n mod 10" 0 "n div 10" rest] by simp
    moreover have "int (n div 10) * 10 + int (n mod 10) = int n"
      by (metis div_mult_mod_eq of_nat_add of_nat_mult of_nat_numeral)
    ultimately show ?thesis using False by (subst digits.simps) simp
  qed
qed

end
