(* ===== verification/Ipc_Proofs.thy ===== *)
theory Ipc_Proofs
  imports Loc_Ipc
begin

text \<open>
  What holds of the messages over local sockets: those of one sender arrive whole and in order, if none of
  them looks like a head or like the message that stops the listener, also together with what is left in the
  listener's buffer.
\<close>

section \<open>Datagrams\<close>

definition datagrams :: "string \<Rightarrow> string list" where
  "datagrams m = fst (sendData (\<lambda>sent. True) m [])"

fun parts :: "string list \<Rightarrow> nat \<Rightarrow> bool" where
  "parts [] n = True"
| "parts (d # ds) n = (0 < length d \<and> length d \<le> n \<and> parts ds n)"

lemma send_parts_all:
  "\<exists>ds. send_parts (\<lambda>sent. True) rest sent = (sent @ ds, True) \<and> concat ds = rest \<and> parts ds LOC_MSG_BUF_LEN"
proof (induction "length rest" arbitrary: rest sent rule: less_induct)
  case less
  show ?case
  proof (cases "rest = []")
    case True
    then show ?thesis by (intro exI[of _ "[]"]) (simp add: send_parts.simps)
  next
    case False
    let ?n = LOC_MSG_BUF_LEN
    have "length (drop ?n rest) < length rest" using False by (simp add: LOC_MSG_BUF_LEN_def)
    from less[OF this, of "sent @ [take ?n rest]"] obtain ds where d:
      "send_parts (\<lambda>sent. True) (drop ?n rest) (sent @ [take ?n rest]) = ((sent @ [take ?n rest]) @ ds, True)"
      "concat ds = drop ?n rest" "parts ds ?n" by blast
    have "parts (take ?n rest # ds) ?n" using d(3) False by (simp add: LOC_MSG_BUF_LEN_def)
    then show ?thesis
      using d False by (intro exI[of _ "take ?n rest # ds"]) (subst send_parts.simps, simp)
  qed
qed

lemma datagrams_short: "length m \<le> LOC_MSG_BUF_LEN \<Longrightarrow> datagrams m = [m]"
  by (simp add: datagrams_def sendData_def)

lemma datagrams_long:
  assumes "LOC_MSG_BUF_LEN < length m"
  obtains ds where "datagrams m = (LOC_MSG_HEAD @ digits (length m)) # ds" "concat ds = m"
    "parts ds LOC_MSG_BUF_LEN"
proof -
  obtain ds where "send_parts (\<lambda>sent. True) m [LOC_MSG_HEAD @ digits (length m)] =
      ([LOC_MSG_HEAD @ digits (length m)] @ ds, True)" "concat ds = m" "parts ds LOC_MSG_BUF_LEN"
    using send_parts_all by blast
  then show thesis using that assms by (simp add: datagrams_def sendData_def Let_def)
qed

section \<open>Receiving one message\<close>

lemma length_resize [simp]: "length (resize n s) = n"
  by (simp add: resize_def)

lemma take_recv_at: "length d \<le> length buf \<Longrightarrow> take (length d) (recv_at buf 0 d) = d"
  by (simp add: recv_at_def)

lemma recv_at_0: "length d \<le> length buf \<Longrightarrow> recv_at buf 0 d = d @ drop (length d) buf"
  by (simp add: recv_at_def)

text \<open>A message that cannot be taken for another kind, by its first byte.\<close>

definition plain :: "string \<Rightarrow> bool" where
  "plain m \<longleftrightarrow> m \<noteq> [] \<and> hd m \<noteq> CHR ''$'' \<and> hd m \<noteq> CHR ''L''"

lemma recv_short:
  assumes "plain m" "length m \<le> LOC_MSG_BUF_LEN" "li_mode l = Waiting"
  shows "recv_datagram can_hold (Some m) l = onReceive m l"
proof -
  let ?msg = "recv_at (resize LOC_MSG_BUF_LEN (li_msg l)) 0 m"
  obtain c cs where m: "m = c # cs" "c \<noteq> CHR ''$''" "c \<noteq> CHR ''L''"
    using assms(1) by (cases m) (auto simp: plain_def)
  have r: "?msg = m @ drop (length m) (resize LOC_MSG_BUF_LEN (li_msg l))"
    using assms(2) by (simp add: recv_at_0)
  obtain rest where "?msg = c # rest" unfolding r by (simp add: m(1))
  then have "take (length LOC_MSG_ABORT) ?msg \<noteq> LOC_MSG_ABORT" "take (length LOC_MSG_HEAD) ?msg \<noteq> LOC_MSG_HEAD"
    using m(2,3) by (simp_all add: LOC_MSG_ABORT_def LOC_MSG_HEAD_def)
  moreover have "resize (length m) ?msg = m" unfolding r by (simp add: resize_def)
  moreover have "min LOC_MSG_BUF_LEN (length m) = length m" "m \<noteq> []" using assms(1,2) by (auto simp: plain_def)
  ultimately show ?thesis
    using assms(3) by (simp add: recv_datagram_def recv_first_def Let_def)
qed

text \<open>The head is read correctly unless a digit is left behind it in the buffer.\<close>

definition head_clear :: "string \<Rightarrow> nat \<Rightarrow> bool" where
  "head_clear buf n \<longleftrightarrow>
     (let h = length LOC_MSG_HEAD + length (digits n)
      in h < length buf \<longrightarrow> digit_val 10 (buf ! h) = None)"

lemma scan_zu_digits:
  assumes "n < 2 ^ 64" "case rest of [] \<Rightarrow> True | c # cs \<Rightarrow> digit_val 10 c = None"
  shows "scan_zu (digits n @ rest) = n"
proof -
  have "digits n \<noteq> []" by (subst digits.simps) simp
  then obtain c cs where d: "digits n = c # cs" by (cases "digits n") auto
  have c: "digit_val 10 c \<noteq> None" "list_all (\<lambda>c. digit_val 10 c \<noteq> None) (c # cs)"
    using digits_are_digits[of n] by (simp_all add: d)
  have z: "\<not> isspace c \<and> c \<noteq> CHR ''-'' \<and> c \<noteq> CHR ''+'' \<and> c \<noteq> CHR 0x00" if "digit_val 10 c \<noteq> None" for c
    using that by (auto simp: digit_val_def isspace_def Let_def split: if_splits)
  have "takeWhile (\<lambda>c. c \<noteq> CHR 0x00) (digits n @ rest) = digits n @ takeWhile (\<lambda>c. c \<noteq> CHR 0x00) rest"
    using c(2) z by (intro takeWhile_append2) (auto simp: d list_all_iff)
  moreover have "dropWhile isspace (digits n @ r) = digits n @ r" "read_sign (digits n @ r) = (False, digits n @ r)" for r
    using z[OF c(1)] by (simp_all add: d read_sign_def)
  moreover have "read_digits 10 (int n) (takeWhile (\<lambda>c. c \<noteq> CHR 0x00) rest) = int n"
    using assms(2) by (cases rest) auto
  ultimately show ?thesis
    using assms(1) by (simp add: scan_zu_def read_digits_digits Let_def)
qed

lemma recv_head:
  assumes "LOC_MSG_BUF_LEN < n" "n < 2 ^ 32" "head_clear (li_msg l) n" "can_hold n" "li_mode l = Waiting"
  shows "\<exists>msg. recv_datagram can_hold (Some (LOC_MSG_HEAD @ digits n)) l = l\<lparr>li_msg := msg, li_mode := Long n 0\<rparr> \<and>
    length msg = n"
proof -
  let ?d = "LOC_MSG_HEAD @ digits n" and ?b = "resize LOC_MSG_BUF_LEN (li_msg l)"
  have h: "length ?d \<le> 18" using length_digits[of n 10] assms(2) by (simp add: LOC_MSG_HEAD_def)
  then have l: "length ?d \<le> length ?b" by (simp add: LOC_MSG_BUF_LEN_def)
  have r: "recv_at ?b 0 ?d = ?d @ drop (length ?d) ?b" using l by (rule recv_at_0)
  have "case drop (length ?d) ?b of [] \<Rightarrow> True | c # cs \<Rightarrow> digit_val 10 c = None"
  proof -
    have lt8: "length ?d < LOC_MSG_BUF_LEN" using h by (simp add: LOC_MSG_BUF_LEN_def)
    then have lt: "length ?d < length ?b" by simp
    then have "drop (length ?d) ?b = ?b ! length ?d # drop (Suc (length ?d)) ?b" by (simp add: Cons_nth_drop_Suc)
    moreover have "digit_val 10 (?b ! length ?d) = None"
    proof (cases "length ?d < length (li_msg l)")
      case True
      then have "?b ! length ?d = li_msg l ! length ?d"
        using lt8 by (simp add: resize_def nth_append)
      then show ?thesis using assms(3) True by (simp add: head_clear_def Let_def)
    next
      case False
      then have "?b ! length ?d = CHR 0x00" using lt8 by (simp add: resize_def nth_append)
      then show ?thesis by (simp add: digit_val_def)
    qed
    ultimately show ?thesis by simp
  qed
  then have "scan_zu (digits n @ drop (length ?d) ?b) = n" using assms(2) by (intro scan_zu_digits) simp_all
  then have f: "scan_zu (drop (length LOC_MSG_HEAD) (recv_at ?b 0 ?d)) = n"
    "take (length LOC_MSG_HEAD) (recv_at ?b 0 ?d) = LOC_MSG_HEAD"
    unfolding r by simp_all
  have a: "take (length LOC_MSG_ABORT) (recv_at ?b 0 ?d) \<noteq> LOC_MSG_ABORT"
    unfolding r by (simp add: LOC_MSG_HEAD_def LOC_MSG_ABORT_def)
  have "?d \<noteq> []" "0 < n" "LOC_MSG_BUF_LEN \<noteq> 0" using assms(1) by (simp_all add: LOC_MSG_HEAD_def LOC_MSG_BUF_LEN_def)
  then show ?thesis
    using assms(4,5) f a by (auto simp: recv_datagram_def recv_first_def Let_def min_def)
qed

lemma recv_parts:
  assumes "parts ds LOC_MSG_BUF_LEN" "ds \<noteq> []" "r + length (concat ds) = n" "length (li_msg l) = n"
    "li_mode l = Long n r"
  shows "listen can_hold (map Some ds) l = onReceive (take r (li_msg l) @ concat ds) l"
  using assms
proof (induction ds arbitrary: r l)
  case (Cons d ds)
  let ?msg = "recv_at (li_msg l) r d"
  have d: "0 < length d" "length d \<le> n - r" "parts ds LOC_MSG_BUF_LEN" "r + length d \<le> n"
    using Cons.prems by auto
  have t: "take (r + length d) ?msg = take r (li_msg l) @ d" "length ?msg = n"
    using d Cons.prems(4) by (auto simp: recv_at_def)
  have n: "recv_datagram can_hold (Some d) l =
      (if r + length d < n then l\<lparr>li_msg := ?msg, li_mode := Long n (r + length d)\<rparr> else onReceive ?msg l)"
    using d Cons.prems(5) by (auto simp: recv_datagram_def recv_next_def Let_def min_def)
  show ?case
  proof (cases "ds = []")
    case True
    then have "r + length d = n" using Cons.prems(3) by simp
    then have "?msg = take r (li_msg l) @ d" using t by simp
    then show ?thesis using True n \<open>r + length d = n\<close> by (simp add: listen_def)
  next
    case False
    then have lt: "r + length d < n" using Cons.prems(3) d(3) by (cases ds) auto
    let ?l = "l\<lparr>li_msg := ?msg, li_mode := Long n (r + length d)\<rparr>"
    have "listen can_hold (map Some ds) ?l = onReceive (take (r + length d) (li_msg ?l) @ concat ds) ?l"
      using Cons.prems(3) d t(2) False by (intro Cons.IH) simp_all
    then show ?thesis using n lt t(1) by (simp add: listen_def onReceive_def)
  qed
qed simp

section \<open>Messages of a sender\<close>

text \<open>What is needed of a message, after the one that is left in the buffer.\<close>

definition sendable :: "(nat \<Rightarrow> bool) \<Rightarrow> string \<Rightarrow> string \<Rightarrow> bool" where
  "sendable can_hold before m \<longleftrightarrow>
     (if length m \<le> LOC_MSG_BUF_LEN then plain m
      else length m < 2 ^ 32 \<and> head_clear before (length m) \<and> can_hold (length m))"

fun all_sendable :: "(nat \<Rightarrow> bool) \<Rightarrow> string \<Rightarrow> string list \<Rightarrow> bool" where
  "all_sendable can_hold before [] = True"
| "all_sendable can_hold before (m # ms) = (sendable can_hold before m \<and> all_sendable can_hold m ms)"

lemma recv_message:
  assumes "sendable can_hold (li_msg l) m" "li_mode l = Waiting"
  shows "listen can_hold (map Some (datagrams m)) l = onReceive m l"
proof (cases "length m \<le> LOC_MSG_BUF_LEN")
  case True
  then show ?thesis
    using assms recv_short[of m l can_hold] by (simp add: datagrams_short listen_def sendable_def)
next
  case False
  then obtain ds where ds: "datagrams m = (LOC_MSG_HEAD @ digits (length m)) # ds" "concat ds = m"
    "parts ds LOC_MSG_BUF_LEN"
    using datagrams_long[of m] by auto
  obtain msg where h: "recv_datagram can_hold (Some (LOC_MSG_HEAD @ digits (length m))) l =
      l\<lparr>li_msg := msg, li_mode := Long (length m) 0\<rparr>" "length msg = length m"
    using recv_head[of "length m" l can_hold] assms False by (auto simp: sendable_def)
  have "ds \<noteq> []" using ds(2) False by auto
  then have "listen can_hold (map Some ds) (l\<lparr>li_msg := msg, li_mode := Long (length m) 0\<rparr>) =
      onReceive (take 0 msg @ concat ds) (l\<lparr>li_msg := msg, li_mode := Long (length m) 0\<rparr>)"
    using ds h(2) recv_parts[of ds 0 "length m" "l\<lparr>li_msg := msg, li_mode := Long (length m) 0\<rparr>" can_hold] by simp
  then show ?thesis using h(1) ds by (simp add: listen_def onReceive_def)
qed

lemma listen_append: "listen can_hold (xs @ ys) l = listen can_hold ys (listen can_hold xs l)"
  by (simp add: listen_def)

text \<open>
  C36: The messages of one sender, short and long, arrive whole and in order. Short ones must not be empty nor
  begin with the first character of a head or of the message that stops the listener, and behind the
  head of a long one there must be no digit left from the message before it.
\<close>

theorem ipc_messages_arrive:
  assumes "all_sendable can_hold [] ms"
  shows "li_received (listen can_hold (map Some (concat (map datagrams ms))) listener_init) = ms \<and>
    li_mode (listen can_hold (map Some (concat (map datagrams ms))) listener_init) = Waiting"
proof -
  have "li_received (listen can_hold (map Some (concat (map datagrams ms))) l) = li_received l @ ms \<and>
      li_mode (listen can_hold (map Some (concat (map datagrams ms))) l) = Waiting"
    if "all_sendable can_hold (li_msg l) ms" "li_mode l = Waiting" for l
    using that
  proof (induction ms arbitrary: l)
    case (Cons m ms)
    then have "listen can_hold (map Some (concat (map datagrams (m # ms)))) l =
        listen can_hold (map Some (concat (map datagrams ms))) (onReceive m l)"
      using recv_message[of can_hold l m] by (simp add: listen_append)
    then show ?case using Cons.IH[of "onReceive m l"] Cons.prems by (simp add: onReceive_def)
  qed (simp add: listen_def)
  from this[of listener_init] show ?thesis using assms by (simp add: listener_init_def)
qed

theorem ipc_messages_arrive_witness:
  "li_received (listen (\<lambda>n. n < 100000) (map Some (concat (map datagrams
     [''connect'', replicate 9000 CHR ''x'', ''disconnect'']))) listener_init) =
   [''connect'', replicate 9000 CHR ''x'', ''disconnect'']"
proof -
  have "head_clear ''connect'' 9000"
    by (simp add: head_clear_def LOC_MSG_HEAD_def digits.simps)
  then have "all_sendable (\<lambda>n. n < 100000) [] [''connect'', replicate 9000 CHR ''x'', ''disconnect'']"
    by (simp add: sendable_def plain_def LOC_MSG_BUF_LEN_def)
  from ipc_messages_arrive[OF this] show ?thesis by simp
qed

section \<open>What is left in the buffer\<close>

lemma recv_incomplete:
  assumes "parts ds k" "r + length (concat ds) < n" "length (li_msg l) = n" "li_mode l = Long n r"
  shows "li_mode (listen can_hold (map Some ds) l) = Long n (r + length (concat ds)) \<and>
    li_received (listen can_hold (map Some ds) l) = li_received l"
  using assms
proof (induction ds arbitrary: r l)
  case (Cons d ds)
  let ?l = "l\<lparr>li_msg := recv_at (li_msg l) r d, li_mode := Long n (r + length d)\<rparr>"
  have d: "0 < length d" "r + length d < n" using Cons.prems by auto
  then have "recv_datagram can_hold (Some d) l = ?l"
    using Cons.prems(4) by (auto simp: recv_datagram_def recv_next_def Let_def min_def)
  moreover have "length (recv_at (li_msg l) r d) = n" using d Cons.prems(3) by (simp add: recv_at_def)
  ultimately show ?case using Cons.IH[of "r + length d" ?l] Cons.prems by (simp add: listen_def add.assoc)
qed (simp add: listen_def)

text \<open>
  A digit of the message before is read as a part of the length: after a message of 13 characters that ends with a
  5, a message of 9000 characters is taken for one of 90005. It is not delivered, and the listener takes the messages
  that follow for its parts.
\<close>

theorem ipc_length_misread:
  assumes "plain p" "length p = 13" "last p = CHR ''5''" "length m = 9000" "can_hold 90005"
  shows "li_mode (listen can_hold (map Some (datagrams p @ datagrams m)) listener_init) = Long 90005 9000 \<and>
    li_received (listen can_hold (map Some (datagrams p @ datagrams m)) listener_init) = [p]"
proof -
  let ?l = "onReceive p listener_init" and ?b = "resize LOC_MSG_BUF_LEN p"
  have p: "listen can_hold (map Some (datagrams p)) listener_init = ?l"
    using assms(1,2) recv_short[of p listener_init can_hold]
    by (simp add: datagrams_short LOC_MSG_BUF_LEN_def listen_def listener_init_def)
  obtain ds where ds: "datagrams m = (LOC_MSG_HEAD @ digits 9000) # ds" "concat ds = m" "parts ds LOC_MSG_BUF_LEN"
    using datagrams_long[of m] assms(4) by (auto simp: LOC_MSG_BUF_LEN_def)
  let ?d = "LOC_MSG_HEAD @ digits 9000"
  have l: "length ?d = 12" by (simp add: LOC_MSG_HEAD_def digits.simps)
  have r: "recv_at ?b 0 ?d = ?d @ drop 12 ?b" using l recv_at_0[of ?d ?b] by (simp add: LOC_MSG_BUF_LEN_def)
  have "drop 12 p = ''5''"
  proof -
    have "p = butlast p @ [last p]" using assms(2) by (intro append_butlast_last_id[symmetric]) auto
    moreover have "length (butlast p) = 12" using assms(2) by simp
    ultimately show ?thesis using assms(3) by (metis append_eq_conv_conj)
  qed
  then have "drop 12 ?b = ''5'' @ replicate 8179 CHR 0x00" using assms(2) by (simp add: resize_def LOC_MSG_BUF_LEN_def)
  moreover have "digits 9000 @ ''5'' = digits 90005" by (simp add: digits.simps digit_char_def)
  ultimately have x: "digits 9000 @ drop 12 ?b = digits 90005 @ replicate 8179 CHR 0x00" by (metis append.assoc)
  have "scan_zu (digits 90005 @ replicate 8179 CHR 0x00) = 90005"
  proof (rule scan_zu_digits)
    have "replicate 8179 CHR 0x00 = CHR 0x00 # replicate 8178 CHR 0x00"
      by (simp add: replicate_Suc[symmetric] del: replicate_Suc)
    then show "case replicate 8179 CHR 0x00 of [] \<Rightarrow> True | c # cs \<Rightarrow> digit_val 10 c = None"
      by (simp add: digit_val_def)
  qed simp
  then have f: "scan_zu (drop (length LOC_MSG_HEAD) (recv_at ?b 0 ?d)) = 90005"
    "take (length LOC_MSG_HEAD) (recv_at ?b 0 ?d) = LOC_MSG_HEAD"
    unfolding r using x by simp_all
  have a: "take (length LOC_MSG_ABORT) (recv_at ?b 0 ?d) \<noteq> LOC_MSG_ABORT"
    unfolding r by (simp add: LOC_MSG_HEAD_def LOC_MSG_ABORT_def)
  have n: "min LOC_MSG_BUF_LEN (length ?d) = 12" unfolding l by (simp add: LOC_MSG_BUF_LEN_def)
  let ?msg = "resize 90005 (recv_at ?b 0 ?d)"
  have "recv_datagram can_hold (Some ?d) ?l = ?l\<lparr>li_msg := ?msg, li_mode := Long 90005 0\<rparr>"
    using assms(5) f a n by (simp add: recv_datagram_def recv_first_def onReceive_def Let_def del: length_append)
  then have "listen can_hold (map Some (datagrams p @ datagrams m)) listener_init =
      listen can_hold (map Some ds) (?l\<lparr>li_msg := ?msg, li_mode := Long 90005 0\<rparr>)"
    using p ds(1) by (simp add: listen_append listen_def)
  then show ?thesis
    using recv_incomplete[OF ds(3), of 0 90005 "?l\<lparr>li_msg := ?msg, li_mode := Long 90005 0\<rparr>" can_hold] ds(2) assms(4)
    by (simp add: onReceive_def listener_init_def)
qed

theorem ipc_length_misread_witness:
  "li_received (listen (\<lambda>n. n < 100000) (map Some (datagrams ''GPS_PROVIDER5'' @ datagrams (replicate 9000 CHR ''x'')))
     listener_init) \<noteq> [''GPS_PROVIDER5'', replicate 9000 CHR ''x'']"
  using ipc_length_misread[of "''GPS_PROVIDER5''" "replicate 9000 CHR ''x''" "\<lambda>n. n < 100000"]
  by (simp add: plain_def)

end
