(* ===== verification/Gnss_Agps.thy ===== *)
theory Gnss_Agps
  imports Agps
begin

unbundle bit_operations_syntax

text \<open>
  The AGPS part of \<open>gps/gnss/GnssAdapter.cpp\<close>: requests of the modem's thread, of the framework and of the
  library for network interfaces become messages of the adapter's thread, which hands them to the manager of
  \<open>Agps\<close>; what the manager sends to itself goes through the same queue.

  Whether the library is there and what callbacks it has is an argument.
\<close>

section \<open>Data\<close>

record AgpsCbInfo =
  statusV4Cb :: bool
  cbPriority :: int

datatype agps_msg =
    MsgInitDefaultAgps
  | AgpsMsgInit AgpsCbInfo
  | AgpsMsgRequestATL int int
  | AgpsMsgReleaseATL int
  | AgpsMsgSuplEsOpened
  | AgpsMsgSuplEsClosed
  | AgpsMsgAtlOpenSuccess int string nat int
  | AgpsMsgAtlClosed int
  | AgpsMsgAtlOpenFailed int

text \<open>
  \<open>ad_handled\<close>, \<open>ad_events\<close> and \<open>ad_posted\<close> are for the statements: the messages that were handled, the
  events that the manager was given, and all messages that were ever sent.
\<close>

record agps_adapter =
  mAgpsCbInfo :: AgpsCbInfo
  mAgpsManager :: mgr_st
  ad_events_enabled :: bool
  ad_queue :: "agps_msg list"
  ad_handled :: "agps_msg list"
  ad_events :: "agps_event list"
  ad_posted :: "agps_msg list"

definition agps_adapter_new :: agps_adapter where
  "agps_adapter_new =
     \<lparr>mAgpsCbInfo = \<lparr>statusV4Cb = False, cbPriority = 0\<rparr>, mAgpsManager = (AgpsManager_new, []),
      ad_events_enabled = False, ad_queue = [], ad_handled = [], ad_events = [], ad_posted = []\<rparr>"

definition agps_send :: "agps_msg list \<Rightarrow> agps_adapter \<Rightarrow> agps_adapter" where
  "agps_send ms s = s\<lparr>ad_queue := ad_queue s @ ms, ad_posted := ad_posted s @ ms\<rparr>"

section \<open>The manager\<close>

text \<open>What the manager sends with \<open>mSendMsgFn\<close>.\<close>

definition sent_by_manager :: "agps_call list \<Rightarrow> agps_msg list" where
  "sent_by_manager calls =
     concat (map (\<lambda>c. case c of SendMsgRequestATL h t \<Rightarrow> [AgpsMsgRequestATL h t] | _ \<Rightarrow> []) calls)"

definition manager_event :: "agps_env \<Rightarrow> agps_event \<Rightarrow> agps_adapter \<Rightarrow> agps_adapter option" where
  "manager_event env ev s =
     (case agps_exec env ev (mAgpsManager s) of
        None \<Rightarrow> None
      | Some m \<Rightarrow>
          Some (agps_send (sent_by_manager (drop (length (snd (mAgpsManager s))) (snd m)))
                  (s\<lparr>mAgpsManager := m, ad_events := ad_events s @ [ev]\<rparr>)))"

section \<open>Initialisation\<close>

definition agps_capable :: "agps_env \<Rightarrow> bool" where
  "agps_capable env \<longleftrightarrow> capabilities env AND 2 \<noteq> 0 \<or> capabilities env AND 4 \<noteq> 0"

text \<open>\<open>initAgps\<close>: callbacks of a higher priority stay.\<close>

definition initAgps :: "agps_env \<Rightarrow> AgpsCbInfo \<Rightarrow> agps_adapter \<Rightarrow> agps_adapter option" where
  "initAgps env cbInfo s =
     (if \<not> agps_capable env then Some s
      else if cbPriority cbInfo < cbPriority (mAgpsCbInfo s) then Some s
      else map_option (\<lambda>s. s\<lparr>ad_events_enabled := True\<rparr>)
             (manager_event env CreateMachines (s\<lparr>mAgpsCbInfo := cbInfo\<rparr>)))"

text \<open>\<open>initDefaultAgps\<close>: the library's callbacks, if the library is there and has them.\<close>

definition default_callbacks :: "AgpsCbInfo option \<Rightarrow> AgpsCbInfo option" where
  "default_callbacks lib = (case lib of None \<Rightarrow> None | Some cb \<Rightarrow> if statusV4Cb cb then Some cb else None)"

definition initDefaultAgps :: "agps_env \<Rightarrow> AgpsCbInfo option \<Rightarrow> agps_adapter \<Rightarrow> agps_adapter option" where
  "initDefaultAgps env lib s =
     (case default_callbacks lib of None \<Rightarrow> Some s | Some cb \<Rightarrow> initAgps env cb s)"

section \<open>Messages\<close>

definition agps_proc :: "agps_env \<Rightarrow> AgpsCbInfo option \<Rightarrow> agps_msg \<Rightarrow> agps_adapter \<Rightarrow> agps_adapter option" where
  "agps_proc env lib m s =
     (let s1 = s\<lparr>ad_handled := ad_handled s @ [m]\<rparr>
      in case m of
           MsgInitDefaultAgps \<Rightarrow> initDefaultAgps env lib s1
         | AgpsMsgInit cb \<Rightarrow> initAgps env cb s1
         | AgpsMsgRequestATL h t \<Rightarrow> manager_event env (RequestATL h t) s1
         | AgpsMsgReleaseATL h \<Rightarrow> manager_event env (ReleaseATL h) s1
         | AgpsMsgSuplEsOpened \<Rightarrow> manager_event env DataCallOpened s1
         | AgpsMsgSuplEsClosed \<Rightarrow> manager_event env DataCallClosed s1
         | AgpsMsgAtlOpenSuccess t apn n bearer \<Rightarrow>
             manager_event env (AtlOpenSuccess t (Some apn) (of_nat n) bearer) s1
         | AgpsMsgAtlClosed t \<Rightarrow> manager_event env (AtlClosed t) s1
         | AgpsMsgAtlOpenFailed t \<Rightarrow> manager_event env (AtlOpenFailed t) s1)"

section \<open>Commands\<close>

definition initDefaultAgpsCommand :: "agps_adapter \<Rightarrow> agps_adapter" where
  "initDefaultAgpsCommand = agps_send [MsgInitDefaultAgps]"

definition initAgpsCommand :: "AgpsCbInfo \<Rightarrow> agps_adapter \<Rightarrow> agps_adapter" where
  "initAgpsCommand cbInfo = agps_send [AgpsMsgInit cbInfo]"

definition adapter_requestATL :: "int \<Rightarrow> int \<Rightarrow> agps_adapter \<Rightarrow> agps_adapter" where
  "adapter_requestATL connHandle agpsType = agps_send [AgpsMsgRequestATL connHandle agpsType]"

definition adapter_requestSuplES :: "int \<Rightarrow> agps_adapter \<Rightarrow> agps_adapter" where
  "adapter_requestSuplES connHandle = agps_send [AgpsMsgRequestATL connHandle LOC_AGPS_TYPE_SUPL_ES]"

definition adapter_releaseATL :: "int \<Rightarrow> agps_adapter \<Rightarrow> agps_adapter" where
  "adapter_releaseATL connHandle = agps_send [AgpsMsgReleaseATL connHandle]"

definition adapter_reportDataCallOpened :: "agps_adapter \<Rightarrow> agps_adapter" where
  "adapter_reportDataCallOpened = agps_send [AgpsMsgSuplEsOpened]"

definition adapter_reportDataCallClosed :: "agps_adapter \<Rightarrow> agps_adapter" where
  "adapter_reportDataCallClosed = agps_send [AgpsMsgSuplEsClosed]"

text \<open>The name is copied up to its length.\<close>

definition dataConnOpenCommand :: "int \<Rightarrow> string \<Rightarrow> nat \<Rightarrow> int \<Rightarrow> agps_adapter \<Rightarrow> agps_adapter" where
  "dataConnOpenCommand agpsType apnName apnLen bearerType =
     agps_send [AgpsMsgAtlOpenSuccess agpsType (take apnLen apnName) apnLen bearerType]"

definition dataConnClosedCommand :: "int \<Rightarrow> agps_adapter \<Rightarrow> agps_adapter" where
  "dataConnClosedCommand agpsType = agps_send [AgpsMsgAtlClosed agpsType]"

definition dataConnFailedCommand :: "int \<Rightarrow> agps_adapter \<Rightarrow> agps_adapter" where
  "dataConnFailedCommand agpsType = agps_send [AgpsMsgAtlOpenFailed agpsType]"

text \<open>The callbacks that the library is given; \<open>user\<close>: it passes the adapter back.\<close>

definition agpsOpenResultCb ::
  "bool \<Rightarrow> int \<Rightarrow> string option \<Rightarrow> int \<Rightarrow> bool \<Rightarrow> agps_adapter \<Rightarrow> agps_adapter" where
  "agpsOpenResultCb isSuccess agpsType apn bearerType user s =
     (if \<not> user then s
      else case apn of
             None \<Rightarrow> s
           | Some a \<Rightarrow> if isSuccess then dataConnOpenCommand agpsType a (length a) bearerType s
                       else dataConnFailedCommand agpsType s)"

definition agpsCloseResultCb :: "bool \<Rightarrow> int \<Rightarrow> bool \<Rightarrow> agps_adapter \<Rightarrow> agps_adapter" where
  "agpsCloseResultCb isSuccess agpsType user s =
     (if \<not> user then s
      else if isSuccess then dataConnClosedCommand agpsType s else dataConnFailedCommand agpsType s)"

section \<open>Runs\<close>

datatype agps_input =
    InitDefault | InitAgps AgpsCbInfo | ModemRequest int int | ModemRequestES int | ModemRelease int
  | CallOpened | CallClosed | ConnOpen int string nat int | ConnClosed int | ConnFailed int
  | LibOpen bool int "string option" int bool | LibClose bool int bool | TimerExpired | Process

text \<open>
  The timer of the emergency machine calls the manager from its own thread; that is a step of its own. A
  message in the queue is handled by \<open>Process\<close>.
\<close>

fun agps_input_step ::
  "agps_env \<Rightarrow> AgpsCbInfo option \<Rightarrow> agps_input \<Rightarrow> agps_adapter \<Rightarrow> agps_adapter option" where
  "agps_input_step env lib InitDefault s = Some (initDefaultAgpsCommand s)"
| "agps_input_step env lib (InitAgps cb) s = Some (initAgpsCommand cb s)"
| "agps_input_step env lib (ModemRequest h t) s = Some (adapter_requestATL h t s)"
| "agps_input_step env lib (ModemRequestES h) s = Some (adapter_requestSuplES h s)"
| "agps_input_step env lib (ModemRelease h) s = Some (adapter_releaseATL h s)"
| "agps_input_step env lib CallOpened s = Some (adapter_reportDataCallOpened s)"
| "agps_input_step env lib CallClosed s = Some (adapter_reportDataCallClosed s)"
| "agps_input_step env lib (ConnOpen t a n b) s = Some (dataConnOpenCommand t a n b s)"
| "agps_input_step env lib (ConnClosed t) s = Some (dataConnClosedCommand t s)"
| "agps_input_step env lib (ConnFailed t) s = Some (dataConnFailedCommand t s)"
| "agps_input_step env lib (LibOpen ok t a b u) s = Some (agpsOpenResultCb ok t a b u s)"
| "agps_input_step env lib (LibClose ok t u) s = Some (agpsCloseResultCb ok t u s)"
| "agps_input_step env lib TimerExpired s = manager_event env RetryTimer s"
| "agps_input_step env lib Process s =
     (case ad_queue s of [] \<Rightarrow> Some s | m # ms \<Rightarrow> agps_proc env lib m (s\<lparr>ad_queue := ms\<rparr>))"

fun agps_input_run ::
  "agps_env \<Rightarrow> AgpsCbInfo option \<Rightarrow> agps_input list \<Rightarrow> agps_adapter \<Rightarrow> agps_adapter option" where
  "agps_input_run env lib [] s = Some s"
| "agps_input_run env lib (x # xs) s =
     (case agps_input_step env lib x s of None \<Rightarrow> None | Some s1 \<Rightarrow> agps_input_run env lib xs s1)"

section \<open>The manager behind the queue\<close>

text \<open>The event that a message is for the manager; the two that initialise it have none of their own.\<close>

fun msg_events :: "agps_msg \<Rightarrow> agps_event list" where
  "msg_events MsgInitDefaultAgps = []"
| "msg_events (AgpsMsgInit cb) = []"
| "msg_events (AgpsMsgRequestATL h t) = [RequestATL h t]"
| "msg_events (AgpsMsgReleaseATL h) = [ReleaseATL h]"
| "msg_events AgpsMsgSuplEsOpened = [DataCallOpened]"
| "msg_events AgpsMsgSuplEsClosed = [DataCallClosed]"
| "msg_events (AgpsMsgAtlOpenSuccess t apn n bearer) = [AtlOpenSuccess t (Some apn) (of_nat n) bearer]"
| "msg_events (AgpsMsgAtlClosed t) = [AtlClosed t]"
| "msg_events (AgpsMsgAtlOpenFailed t) = [AtlOpenFailed t]"

definition from_messages :: "agps_event list \<Rightarrow> agps_event list" where
  "from_messages es = filter (\<lambda>e. e \<noteq> CreateMachines \<and> e \<noteq> RetryTimer) es"

text \<open>
  Messages are handled in the order they were sent, the manager's state is that of its events, and these
  are, but for the creation of the machines and the timer, the events of the messages \<open>ms\<close>.
\<close>

definition agps_inv :: "agps_env \<Rightarrow> agps_msg list \<Rightarrow> agps_adapter \<Rightarrow> bool" where
  "agps_inv env ms s \<longleftrightarrow>
     ad_handled s @ ad_queue s = ad_posted s \<and> ModemSSR \<notin> set (ad_events s) \<and>
     agps_run env (ad_events s) (AgpsManager_new, []) = Some (mAgpsManager s) \<and>
     from_messages (ad_events s) = concat (map msg_events ms)"

lemma agps_run_snoc: "agps_run env (es @ [e]) st = Option.bind (agps_run env es st) (agps_exec env e)"
  by (induction es arbitrary: st) (auto split: bind_splits)

lemma agps_inv_send: "agps_inv env ms s \<Longrightarrow> agps_inv env ms (agps_send new s)"
  by (auto simp: agps_inv_def agps_send_def)

lemma ad_handled_send [simp]: "ad_handled (agps_send new s) = ad_handled s"
  by (simp add: agps_send_def)

lemma manager_event_inv:
  assumes "agps_inv env ms s" "manager_event env ev s = Some s'" "ev \<noteq> ModemSSR"
    and "from_messages [ev] = concat (map msg_events new)"
  shows "agps_inv env (ms @ new) s' \<and> ad_handled s' = ad_handled s"
proof -
  obtain m where m: "agps_exec env ev (mAgpsManager s) = Some m"
    "s' = agps_send (sent_by_manager (drop (length (snd (mAgpsManager s))) (snd m)))
       (s\<lparr>mAgpsManager := m, ad_events := ad_events s @ [ev]\<rparr>)"
    using assms(2) by (auto simp: manager_event_def split: option.splits)
  have "from_messages (ad_events s @ [ev]) = concat (map msg_events (ms @ new))"
    using assms(1,4) by (simp add: agps_inv_def from_messages_def)
  then have "agps_inv env (ms @ new) (s\<lparr>mAgpsManager := m, ad_events := ad_events s @ [ev]\<rparr>)"
    using assms(1,3) m(1) by (simp add: agps_inv_def agps_run_snoc)
  then show ?thesis unfolding m(2) by (simp add: agps_inv_send)
qed

lemma initAgps_inv:
  assumes "agps_inv env ms s" "initAgps env cb s = Some s'"
  shows "agps_inv env ms s' \<and> ad_handled s' = ad_handled s"
proof -
  have "agps_inv env ms (s\<lparr>mAgpsCbInfo := cb\<rparr>)" using assms(1) by (simp add: agps_inv_def)
  moreover have "agps_inv env ms (t\<lparr>ad_events_enabled := b\<rparr>) = agps_inv env ms t" for t b
    by (simp add: agps_inv_def)
  ultimately show ?thesis
    using assms manager_event_inv[of env ms "s\<lparr>mAgpsCbInfo := cb\<rparr>" CreateMachines _ "[]"]
    by (auto simp: initAgps_def from_messages_def split: if_splits)
qed

lemma initDefaultAgps_inv:
  assumes "agps_inv env ms s" "initDefaultAgps env lib s = Some s'"
  shows "agps_inv env ms s' \<and> ad_handled s' = ad_handled s"
  using assms initAgps_inv[OF assms(1)] by (auto simp: initDefaultAgps_def split: option.splits)

lemma agps_proc_inv:
  assumes "agps_inv env (ad_handled s) s" "ad_queue s = m # ms"
    and "agps_proc env lib m (s\<lparr>ad_queue := ms\<rparr>) = Some s'"
  shows "agps_inv env (ad_handled s') s'"
proof -
  let ?s = "s\<lparr>ad_queue := ms, ad_handled := ad_handled s @ [m]\<rparr>"
  have i: "agps_inv env (ad_handled s) ?s" using assms(1,2) by (simp add: agps_inv_def)
  have e: "agps_inv env (ad_handled s') s'"
    if "manager_event env ev ?s = Some s'" "ev \<noteq> ModemSSR" "from_messages [ev] = msg_events m" for ev
    using manager_event_inv[OF i that(1,2), of "[m]"] that(3) by simp
  have j: "agps_inv env (ad_handled s @ [m]) ?s" if "msg_events m = []"
    using i that by (simp add: agps_inv_def)
  show ?thesis
  proof (cases m)
    case MsgInitDefaultAgps
    then show ?thesis using assms(3) initDefaultAgps_inv[OF j] by (simp add: agps_proc_def)
  next
    case (AgpsMsgInit cb)
    then show ?thesis using assms(3) initAgps_inv[OF j] by (simp add: agps_proc_def)
  qed (use assms(3) in \<open>auto simp: agps_proc_def from_messages_def intro: e\<close>)
qed

lemma agps_input_step_inv:
  assumes "agps_inv env (ad_handled s) s" "agps_input_step env lib x s = Some s'"
  shows "agps_inv env (ad_handled s') s'"
  using assms
proof (cases x)
  case TimerExpired
  then show ?thesis
    using assms manager_event_inv[OF assms(1), of RetryTimer s' "[]"] by (simp add: from_messages_def)
next
  case Process
  then show ?thesis using assms agps_proc_inv by (auto split: list.splits)
qed (auto simp: adapter_requestATL_def adapter_requestSuplES_def adapter_releaseATL_def dataConnOpenCommand_def
    initDefaultAgpsCommand_def initAgpsCommand_def adapter_reportDataCallOpened_def adapter_reportDataCallClosed_def
    dataConnClosedCommand_def dataConnFailedCommand_def agpsOpenResultCb_def agpsCloseResultCb_def
    intro: agps_inv_send split: option.splits if_splits)


definition demo_inputs :: "agps_input list" where
  "demo_inputs =
     [InitDefault, ModemRequest 7 LOC_AGPS_TYPE_SUPL, Process, Process,
      LibOpen True LOC_AGPS_TYPE_SUPL (Some ''internet'') 1 True, Process, ModemRelease 7, Process]"


end
