(* ===== verification/Location_Util.thy ===== *)
theory Location_Util
  imports Gnss_Reports
begin

unbundle bit_operations_syntax

text \<open>
  \<open>gps/android/location_api/LocationUtil.cpp\<close>: the structures of the location API and those of Android's
  GNSS interface, in both directions.

  The types of Android's interface are generated from a description that is not in the repository; an
  enumeration is a \<open>datatype\<close> of its values, and a mask the set of its bits.
\<close>

section \<open>Locations\<close>

datatype GnssLocationFlag =
    HAS_LAT_LONG
  | HAS_ALTITUDE
  | HAS_SPEED
  | HAS_BEARING
  | HAS_HORIZONTAL_ACCURACY
  | HAS_VERTICAL_ACCURACY
  | HAS_SPEED_ACCURACY
  | HAS_BEARING_ACCURACY

record GnssLocation =
  gnssLocationFlags :: "GnssLocationFlag set"
  latitudeDegrees :: u64
  longitudeDegrees :: u64
  altitudeMeters :: u64
  speedMetersPerSec :: u32
  bearingDegrees :: u32
  horizontalAccuracyMeters :: u32
  verticalAccuracyMeters :: u32
  speedAccuracyMetersPerSecond :: u32
  bearingAccuracyDegrees :: u32
  hal_timestamp :: u64

text \<open>The tests of the flags, one after the other: each bit of the location API and its flag.\<close>

definition location_bits :: "(u16 \<times> GnssLocationFlag) list" where
  "location_bits =
     [(0x01, HAS_LAT_LONG), (0x02, HAS_ALTITUDE), (0x04, HAS_SPEED), (0x08, HAS_BEARING),
      (0x10, HAS_HORIZONTAL_ACCURACY), (0x20, HAS_VERTICAL_ACCURACY), (0x40, HAS_SPEED_ACCURACY),
      (0x80, HAS_BEARING_ACCURACY)]"

definition convertGnssLocation :: "Location \<Rightarrow> GnssLocation" where
  "convertGnssLocation l =
     \<lparr>gnssLocationFlags =
        fold (\<lambda>(b, f) out. if lc_flags l AND b \<noteq> 0 then insert f out else out) location_bits {},
      latitudeDegrees = lc_latitude l, longitudeDegrees = lc_longitude l, altitudeMeters = lc_altitude l,
      speedMetersPerSec = lc_speed l, bearingDegrees = lc_bearing l, horizontalAccuracyMeters = lc_accuracy l,
      verticalAccuracyMeters = lc_verticalAccuracy l, speedAccuracyMetersPerSecond = lc_speedAccuracy l,
      bearingAccuracyDegrees = lc_bearingAccuracy l, hal_timestamp = lc_timestamp l\<rparr>"

definition convertGnssLocation_back :: "GnssLocation \<Rightarrow> Location" where
  "convertGnssLocation_back g =
     \<lparr>lc_flags = fold (\<lambda>(b, f) out. if f \<in> gnssLocationFlags g then out OR b else out) location_bits 0,
      lc_timestamp = hal_timestamp g, lc_latitude = latitudeDegrees g, lc_longitude = longitudeDegrees g,
      lc_altitude = altitudeMeters g, lc_speed = speedMetersPerSec g, lc_bearing = bearingDegrees g,
      lc_accuracy = horizontalAccuracyMeters g, lc_verticalAccuracy = verticalAccuracyMeters g,
      lc_speedAccuracy = speedAccuracyMetersPerSecond g, lc_bearingAccuracy = bearingAccuracyDegrees g,
      lc_techMask = 0\<rparr>"

section \<open>Enumerations\<close>

datatype GnssConstellationType = UNKNOWN | GPS | SBAS | GLONASS | QZSS | BEIDOU | GALILEO

fun convertGnssConstellationType :: "GnssSvType \<Rightarrow> GnssConstellationType" where
  "convertGnssConstellationType GNSS_SV_TYPE_GPS = GPS"
| "convertGnssConstellationType GNSS_SV_TYPE_SBAS = SBAS"
| "convertGnssConstellationType GNSS_SV_TYPE_GLONASS = GLONASS"
| "convertGnssConstellationType GNSS_SV_TYPE_QZSS = QZSS"
| "convertGnssConstellationType GNSS_SV_TYPE_BEIDOU = BEIDOU"
| "convertGnssConstellationType GNSS_SV_TYPE_GALILEO = GALILEO"
| "convertGnssConstellationType GNSS_SV_TYPE_UNKNOWN = UNKNOWN"

datatype SatelliteEphemerisType = EPHEMERIS | ALMANAC_ONLY | NOT_AVAILABLE
datatype SatelliteEphemerisSource = DEMODULATED | SUPL_PROVIDED | OTHER_SERVER_PROVIDED | OTHER
datatype SatelliteEphemerisHealth = GOOD | BAD | HEALTH_UNKNOWN

text \<open>Type and source come from the modem as they are: values that are no enumerators take the default.\<close>

definition convertGnssEphemerisType :: "i32 \<Rightarrow> SatelliteEphemerisType" where
  "convertGnssEphemerisType t = (if t = 1 then EPHEMERIS else if t = 2 then ALMANAC_ONLY else NOT_AVAILABLE)"

definition convertGnssEphemerisSource :: "i32 \<Rightarrow> SatelliteEphemerisSource" where
  "convertGnssEphemerisSource s =
     (if s = 1 then DEMODULATED else if s = 2 then SUPL_PROVIDED
      else if s = 3 then OTHER_SERVER_PROVIDED else OTHER)"

datatype GnssEphemerisHealth = GNSS_EPH_HEALTH_UNKNOWN | GNSS_EPH_HEALTH_GOOD | GNSS_EPH_HEALTH_BAD

fun convertGnssEphemerisHealth :: "GnssEphemerisHealth \<Rightarrow> SatelliteEphemerisHealth" where
  "convertGnssEphemerisHealth GNSS_EPH_HEALTH_GOOD = GOOD"
| "convertGnssEphemerisHealth GNSS_EPH_HEALTH_BAD = BAD"
| "convertGnssEphemerisHealth GNSS_EPH_HEALTH_UNKNOWN = HEALTH_UNKNOWN"

section \<open>Round trips\<close>

lemma and_pow2_16: "(if (w :: u16) AND 2 ^ n \<noteq> 0 then 2 ^ n else 0) = w AND 2 ^ n"
proof -
  have "w AND 2 ^ n = (if bit w n then 2 ^ n else 0)"
    by (rule bit_eqI) (auto simp: bit_and_iff bit_exp_iff)
  then show ?thesis by simp
qed

lemma flag_steps:
  "(if P then out OR b else out) = (out :: u16) OR (if P then b else 0)"
  "(f \<in> (if c then insert g S else S)) = (f \<in> S \<or> c \<and> f = g)"
  by auto

lemma location_flags_masked:
  "fold (\<lambda>(b, f) out. if f \<in> fold (\<lambda>(b, f) out. if w AND b \<noteq> 0 then insert f out else out) location_bits {}
     then out OR b else out) location_bits 0 = (w AND 0xFF :: u16)"
proof -
  have m: "(if w AND 0x01 \<noteq> 0 then 0x01 else 0) = w AND 0x01" "(if w AND 0x02 \<noteq> 0 then 0x02 else 0) = w AND 0x02"
    "(if w AND 0x04 \<noteq> 0 then 0x04 else 0) = w AND 0x04" "(if w AND 0x08 \<noteq> 0 then 0x08 else 0) = w AND 0x08"
    "(if w AND 0x10 \<noteq> 0 then 0x10 else 0) = w AND 0x10" "(if w AND 0x20 \<noteq> 0 then 0x20 else 0) = w AND 0x20"
    "(if w AND 0x40 \<noteq> 0 then 0x40 else 0) = w AND 0x40" "(if w AND 0x80 \<noteq> 0 then 0x80 else 0) = w AND 0x80"
    using and_pow2_16[of w 0] and_pow2_16[of w 1] and_pow2_16[of w 2] and_pow2_16[of w 3] and_pow2_16[of w 4]
      and_pow2_16[of w 5] and_pow2_16[of w 6] and_pow2_16[of w 7]
    by (simp_all split del: if_split cong: if_cong)
  show ?thesis
    by (simp only: location_bits_def fold_simps flag_steps prod.case empty_iff GnssLocationFlag.distinct
        GnssLocationFlag.distinct[symmetric] simp_thms m or.left_neutral)
      (simp add: bit.conj_disj_distrib[symmetric])
qed

text \<open>
  A location converted for Android and back is the same one, but for the technologies and for flags
  that Android does not have.
\<close>

theorem hal_location_roundtrip:
  "convertGnssLocation_back (convertGnssLocation l) = l\<lparr>lc_flags := lc_flags l AND 0xFF, lc_techMask := 0\<rparr>"
  using location_flags_masked[of "lc_flags l"]
  by (cases l) (simp add: convertGnssLocation_def convertGnssLocation_back_def)

end
