(* ===== verification/Gnss_Debug.thy ===== *)
theory Gnss_Debug
  imports System_Status Location_Util
begin

unbundle bit_operations_syntax

text \<open>
  What \<open>gps/gnss/GnssAdapter.cpp\<close> reads back from the system status: the debug report and the gain
  control values of measurements; and \<open>gps/android/GnssDebug.cpp\<close>, which gives the report to Android.

  Operations on floating-point numbers that the parsers do not need are the record \<open>debug_fp\<close>.
  \<open>fp_sum_ns\<close> is the uncertainty of the time: the sum of two numbers, in nanoseconds. \<open>fp_age\<close> is the age
  of a report from the differences of the seconds and of the microseconds.
\<close>

record debug_fp = fp_lib +
  f2d :: "u32 \<Rightarrow> u64"
  u2f :: "u32 \<Rightarrow> u32"
  rad2deg :: "u64 \<Rightarrow> u64"
  fp_sum_ns :: "u32 \<Rightarrow> u32 \<Rightarrow> u32"
  fp_age :: "int \<Rightarrow> int \<Rightarrow> u32"
  d_of :: "int \<Rightarrow> u64"
  d_not_positive :: "u64 \<Rightarrow> bool"
  d_above :: "u64 \<Rightarrow> int \<Rightarrow> bool"
  f_not_positive :: "u32 \<Rightarrow> bool"
  f_above :: "u32 \<Rightarrow> u32 \<Rightarrow> bool"
  UNKNOWN_UTC_TIME_UNC :: u32
  UNKNOWN_FREQ_UNC_NS_PER_SEC :: u32

section \<open>The report\<close>

record GnssDebugLocation =
  dl_mValid :: bool
  dl_mLocation :: Location
  dl_verticalAccuracyMeters :: u64
  dl_speedAccuracyMetersPerSecond :: u64
  dl_bearingAccuracyDegrees :: u64
  dl_mUtcReported :: timespec

record GnssDebugTime =
  dt_mValid :: bool
  dt_timeEstimate :: i64
  dt_timeUncertaintyNs :: u32
  dt_frequencyUncertaintyNsPerSec :: u32

record GnssDebugSatelliteInfo =
  ds_svid :: u32
  ds_constellation :: GnssSvType
  mEphemerisType :: i32
  mEphemerisSource :: i32
  mEphemerisHealth :: GnssEphemerisHealth
  ds_ephemerisAgeSeconds :: u32
  ds_serverPredictionIsAvailable :: bool
  ds_serverPredictionAgeSeconds :: u32

record GnssDebugReport =
  dr_mLocation :: GnssDebugLocation
  dr_mTime :: GnssDebugTime
  dr_mSatelliteInfo :: "GnssDebugSatelliteInfo list"

definition GnssDebugReport_zero :: GnssDebugReport where
  "GnssDebugReport_zero =
     \<lparr>dr_mLocation = \<lparr>dl_mValid = False, dl_mLocation = Location_zero, dl_verticalAccuracyMeters = 0,
        dl_speedAccuracyMetersPerSecond = 0, dl_bearingAccuracyDegrees = 0, dl_mUtcReported = (0, 0)\<rparr>,
      dr_mTime = \<lparr>dt_mValid = False, dt_timeEstimate = 0, dt_timeUncertaintyNs = 0,
        dt_frequencyUncertaintyNsPerSec = 0\<rparr>,
      dr_mSatelliteInfo = []\<rparr>"

section \<open>Satellites\<close>

definition GPS_NUM :: nat where "GPS_NUM = 32"
definition GLO_NUM :: nat where "GLO_NUM = 24"
definition QZSS_NUM :: nat where "QZSS_NUM = 5"
definition BDS_NUM :: nat where "BDS_NUM = 37"
definition GAL_NUM :: nat where "GAL_NUM = 36"

text \<open>The parameters of a constellation: the first id, the number of satellites, and the place of the first in the array.\<close>

fun sv_params :: "GnssSvType \<Rightarrow> (nat \<times> nat \<times> nat) option" where
  "sv_params GNSS_SV_TYPE_GPS = Some (1, GPS_NUM, 0)"
| "sv_params GNSS_SV_TYPE_GLONASS = Some (1, GLO_NUM, GPS_NUM)"
| "sv_params GNSS_SV_TYPE_QZSS = Some (193, QZSS_NUM, GPS_NUM + GLO_NUM + BDS_NUM + GAL_NUM)"
| "sv_params GNSS_SV_TYPE_BEIDOU = Some (1, BDS_NUM, GPS_NUM + GLO_NUM)"
| "sv_params GNSS_SV_TYPE_GALILEO = Some (1, GAL_NUM, GPS_NUM + GLO_NUM + BDS_NUM)"
| "sv_params _ = None"

text \<open>The masks of good and of bad satellites.\<close>

fun health_masks :: "GnssSvType \<Rightarrow> SvHealth \<Rightarrow> u64 \<times> u64" where
  "health_masks GNSS_SV_TYPE_GPS h = (ucast (mGpsGoodMask h), ucast (mGpsBadMask h))"
| "health_masks GNSS_SV_TYPE_GLONASS h = (ucast (mGloGoodMask h), ucast (mGloBadMask h))"
| "health_masks GNSS_SV_TYPE_QZSS h = (ucast (mQzssGoodMask h), ucast (mQzssBadMask h))"
| "health_masks GNSS_SV_TYPE_BEIDOU h = (mBdsGoodMask h, mBdsBadMask h)"
| "health_masks GNSS_SV_TYPE_GALILEO h = (mGalGoodMask h, mGalBadMask h)"
| "health_masks _ h = (0, 0)"

text \<open>The satellites with a prediction of the server, and its age.\<close>

fun xtra_params :: "debug_fp \<Rightarrow> GnssSvType \<Rightarrow> Xtra \<Rightarrow> u64 \<times> u32" where
  "xtra_params fp GNSS_SV_TYPE_GPS x = (ucast (mGpsXtraValid x), u2f fp (mGpsXtraAge x))"
| "xtra_params fp GNSS_SV_TYPE_GLONASS x = (ucast (mGloXtraValid x), u2f fp (mGloXtraAge x))"
| "xtra_params fp GNSS_SV_TYPE_QZSS x = (ucast (mQzssXtraValid x), u2f fp (mQzssXtraAge x))"
| "xtra_params fp GNSS_SV_TYPE_BEIDOU x = (mBdsXtraValid x, u2f fp (mBdsXtraAge x))"
| "xtra_params fp GNSS_SV_TYPE_GALILEO x = (mGalXtraValid x, u2f fp (mGalXtraAge x))"
| "xtra_params fp _ x = (0, 0)"

definition last_item :: "'v status_item list \<Rightarrow> 'v option" where
  "last_item r = (if r = [] then None else Some (item (last r)))"

definition convert_sv ::
  "debug_fp \<Rightarrow> GnssSvType \<Rightarrow> SystemStatusReports \<Rightarrow> nat \<Rightarrow> nat \<Rightarrow> nat \<Rightarrow> GnssDebugSatelliteInfo" where
  "convert_sv fp c r svid_min svid_idx i =
     (let (good, bad) = (case last_item (mSvHealth r) of None \<Rightarrow> (0, 0) | Some h \<Rightarrow> health_masks c h);
          (available, age) = (case last_item (mXtra r) of None \<Rightarrow> (0, 0) | Some x \<Rightarrow> xtra_params fp c x);
          nav = map_option (\<lambda>n. n ! (svid_idx + i)) (last_item (mNavData r));
          sv_mask = push_bit i 1
      in \<lparr>ds_svid = of_nat (i + svid_min), ds_constellation = c,
          mEphemerisType = (case nav of None \<Rightarrow> 0 | Some n \<Rightarrow> nav_mType n),
          mEphemerisSource = (case nav of None \<Rightarrow> 0 | Some n \<Rightarrow> nav_mSource n),
          mEphemerisHealth =
            (if good AND sv_mask \<noteq> 0 then GNSS_EPH_HEALTH_GOOD
             else if bad AND sv_mask \<noteq> 0 then GNSS_EPH_HEALTH_BAD else GNSS_EPH_HEALTH_UNKNOWN),
          ds_ephemerisAgeSeconds = (case nav of None \<Rightarrow> 0 | Some n \<Rightarrow> i2f fp (nav_mAgeSec n)),
          ds_serverPredictionIsAvailable = (available AND sv_mask \<noteq> 0),
          ds_serverPredictionAgeSeconds = age\<rparr>)"

definition convertSatelliteInfo ::
  "debug_fp \<Rightarrow> GnssSvType \<Rightarrow> SystemStatusReports \<Rightarrow> GnssDebugSatelliteInfo list \<Rightarrow> GnssDebugSatelliteInfo list" where
  "convertSatelliteInfo fp c r out =
     (case sv_params c of
        None \<Rightarrow> out
      | Some (svid_min, svid_num, svid_idx) \<Rightarrow>
          out @ map (convert_sv fp c r svid_min svid_idx) (takeWhile (\<lambda>i. svid_idx + i < SV_ALL_NUM) [0..<svid_num]))"

section \<open>Location and time\<close>

definition debug_location ::
  "debug_fp \<Rightarrow> SystemStatusReports \<Rightarrow> GnssDebugLocation \<Rightarrow> GnssDebugLocation" where
  "debug_location fp r d =
     (if mLocation r \<noteq> [] \<and> loc_mValid (item (last (mLocation r))) then
        let l = item (last (mLocation r))
        in d\<lparr>dl_mValid := True,
             dl_mLocation := (dl_mLocation d)
               \<lparr>lc_latitude := latitude l, lc_longitude := longitude l, lc_altitude := altitude l,
                lc_speed := d2f fp (f2d fp (loc_speed l)), lc_bearing := d2f fp (f2d fp (loc_bearing l)),
                lc_accuracy := d2f fp (f2d fp (loc_accuracy l))\<rparr>,
             dl_verticalAccuracyMeters := f2d fp (loc_vert_unc l),
             dl_speedAccuracyMetersPerSecond := f2d fp (loc_speed_unc l),
             dl_bearingAccuracyDegrees := f2d fp (loc_bearing_unc l),
             dl_mUtcReported := mUtcReported (last (mLocation r))\<rparr>
      else if mBestPosition r \<noteq> [] \<and> bp_mValid (item (last (mBestPosition r))) then
        let b = item (last (mBestPosition r))
        in d\<lparr>dl_mValid := True,
             dl_mLocation := (dl_mLocation d)
               \<lparr>lc_latitude := rad2deg fp (f2d fp (mBestLat b)), lc_longitude := rad2deg fp (f2d fp (mBestLon b)),
                lc_altitude := f2d fp (mBestAlt b), lc_accuracy := d2f fp (f2d fp (mBestHepe b))\<rparr>,
             dl_mUtcReported := mUtcReported (last (mBestPosition r))\<rparr>
      else d\<lparr>dl_mValid := False\<rparr>)"

definition GNSS_UTC_TIME_OFFSET :: nat where "GNSS_UTC_TIME_OFFSET = 3657"

text \<open>The days since 1970 in seconds without the leap seconds, in milliseconds; all with 64 bits.\<close>

definition time_estimate :: "TimeAndClock \<Rightarrow> i64" where
  "time_estimate t =
     ((ucast (mGpsWeek t) * 7 + of_nat GNSS_UTC_TIME_OFFSET) * 24 * 60 * 60 - scast (mLeapSeconds t)) * 1000 +
     ucast (mGpsTowMs t)"

definition debug_time :: "debug_fp \<Rightarrow> SystemStatusReports \<Rightarrow> GnssDebugTime \<Rightarrow> GnssDebugTime" where
  "debug_time fp r d =
     (if mTimeAndClock r \<noteq> [] \<and> mTimeValid (item (last (mTimeAndClock r))) \<noteq> 0 then
        let t = item (last (mTimeAndClock r))
        in d\<lparr>dt_mValid := True, dt_timeEstimate := time_estimate t,
             dt_timeUncertaintyNs := fp_sum_ns fp (i2f fp (mTimeUnc t)) (i2f fp (mLeapSecUnc t)),
             dt_frequencyUncertaintyNsPerSec := i2f fp (mClockFreqBiasUnc t)\<rparr>
      else d\<lparr>dt_mValid := False\<rparr>)"

text \<open>\<open>status\<close> is the system status, if there is one.\<close>

definition getDebugReport ::
  "debug_fp \<Rightarrow> SystemStatusReports option \<Rightarrow> GnssDebugReport \<Rightarrow> bool \<times> GnssDebugReport" where
  "getDebugReport fp status d =
     (case status of
        None \<Rightarrow> (False, d)
      | Some s \<Rightarrow>
          let r = getReport True s
          in (True,
              \<lparr>dr_mLocation = debug_location fp r (dr_mLocation d), dr_mTime = debug_time fp r (dr_mTime d),
               dr_mSatelliteInfo =
                 fold (\<lambda>c. convertSatelliteInfo fp c r)
                   [GNSS_SV_TYPE_GPS, GNSS_SV_TYPE_GLONASS, GNSS_SV_TYPE_QZSS, GNSS_SV_TYPE_BEIDOU,
                    GNSS_SV_TYPE_GALILEO] (dr_mSatelliteInfo d)\<rparr>))"

section \<open>Gain control\<close>

record GnssMeasurementsData =
  md_flags :: u32
  md_svType :: GnssSvType
  md_agcLevelDb :: u64
  md_rest :: "u8 list"

definition AUTOMATIC_GAIN_CONTROL_BIT :: u32 where "AUTOMATIC_GAIN_CONTROL_BIT = 0x20000"

fun agc_of :: "RfAndParams \<Rightarrow> GnssSvType \<Rightarrow> u64 option" where
  "agc_of rf GNSS_SV_TYPE_GPS = Some (mAgcGps rf)"
| "agc_of rf GNSS_SV_TYPE_QZSS = Some (mAgcGps rf)"
| "agc_of rf GNSS_SV_TYPE_GALILEO = Some (mAgcGal rf)"
| "agc_of rf GNSS_SV_TYPE_GLONASS = Some (mAgcGlo rf)"
| "agc_of rf GNSS_SV_TYPE_BEIDOU = Some (mAgcBds rf)"
| "agc_of rf _ = None"

definition set_agc :: "RfAndParams \<Rightarrow> GnssMeasurementsData \<Rightarrow> GnssMeasurementsData" where
  "set_agc rf m =
     (case agc_of rf (md_svType m) of
        None \<Rightarrow> m
      | Some a \<Rightarrow> m\<lparr>md_agcLevelDb := a, md_flags := md_flags m OR AUTOMATIC_GAIN_CONTROL_BIT\<rparr>)"

text \<open>The times are within a week, so that their difference is an \<open>int\<close>.\<close>

definition getAgcInformation ::
  "SystemStatusReports option \<Rightarrow> int \<Rightarrow> GnssMeasurementsData list \<Rightarrow> GnssMeasurementsData list" where
  "getAgcInformation status msInWeek ms =
     (case status of
        None \<Rightarrow> ms
      | Some s \<Rightarrow>
          let r = getReport True s
          in if mRfAndParams r \<noteq> [] \<and> mTimeAndClock r \<noteq> [] \<and>
                \<bar>msInWeek - sint (mGpsTowMs (item (last (mTimeAndClock r))))\<bar> < 2000
             then map (set_agc (item (last (mRfAndParams r)))) ms else ms)"

text \<open>The message of the adapter that carries measurements is made with them; -1 is no time.\<close>

definition measurement_message ::
  "SystemStatusReports option \<Rightarrow> int \<Rightarrow> GnssMeasurementsData list \<Rightarrow> GnssMeasurementsData list" where
  "measurement_message status msInWeek ms = (if msInWeek \<noteq> -1 then getAgcInformation status msInWeek ms else ms)"

section \<open>Android's debug data\<close>

record PositionDebug =
  pd_valid :: bool
  pd_latitudeDegrees :: u64
  pd_longitudeDegrees :: u64
  pd_altitudeMeters :: u32
  pd_speedMetersPerSec :: u32
  pd_bearingDegrees :: u32
  pd_horizontalAccuracyMeters :: u64
  pd_verticalAccuracyMeters :: u64
  pd_speedAccuracyMetersPerSecond :: u64
  pd_bearingAccuracyDegrees :: u64
  pd_ageSeconds :: u32

record TimeDebug =
  td_timeEstimate :: i64
  td_timeUncertaintyNs :: u32
  td_frequencyUncertaintyNsPerSec :: u32

record SatelliteData =
  sd_svid :: u32
  sd_constellation :: GnssConstellationType
  sd_ephemerisType :: SatelliteEphemerisType
  sd_ephemerisSource :: SatelliteEphemerisSource
  sd_ephemerisHealth :: SatelliteEphemerisHealth
  sd_ephemerisAgeSeconds :: u32
  sd_serverPredictionIsAvailable :: bool
  sd_serverPredictionAgeSeconds :: u32

record DebugData =
  dd_position :: PositionDebug
  dd_time :: TimeDebug
  dd_satelliteDataArray :: "SatelliteData list"

definition GNSS_DEBUG_UNKNOWN_UTC_TIME :: int where "GNSS_DEBUG_UNKNOWN_UTC_TIME = 1483228800000"

definition PositionDebug_zero :: PositionDebug where
  "PositionDebug_zero =
     \<lparr>pd_valid = False, pd_latitudeDegrees = 0, pd_longitudeDegrees = 0, pd_altitudeMeters = 0,
      pd_speedMetersPerSec = 0, pd_bearingDegrees = 0, pd_horizontalAccuracyMeters = 0,
      pd_verticalAccuracyMeters = 0, pd_speedAccuracyMetersPerSecond = 0, pd_bearingAccuracyDegrees = 0,
      pd_ageSeconds = 0\<rparr>"

text \<open>An accuracy that is not positive, or above a limit, is the limit.\<close>

definition accuracy_or :: "debug_fp \<Rightarrow> int \<Rightarrow> u64 \<Rightarrow> u64" where
  "accuracy_or fp limit a = (if d_not_positive fp a \<or> d_above fp a limit then d_of fp limit else a)"

definition limit_accuracies :: "debug_fp \<Rightarrow> PositionDebug \<Rightarrow> PositionDebug" where
  "limit_accuracies fp p =
     p\<lparr>pd_horizontalAccuracyMeters := accuracy_or fp 20000000 (pd_horizontalAccuracyMeters p),
       pd_verticalAccuracyMeters := accuracy_or fp 20000 (pd_verticalAccuracyMeters p),
       pd_speedAccuracyMetersPerSecond := accuracy_or fp 500 (pd_speedAccuracyMetersPerSecond p),
       pd_bearingAccuracyDegrees := accuracy_or fp 180 (pd_bearingAccuracyDegrees p)\<rparr>"

text \<open>\<open>now\<close> are the seconds and the microseconds of the clock.\<close>

definition debug_position :: "debug_fp \<Rightarrow> int \<times> int \<Rightarrow> GnssDebugLocation \<Rightarrow> PositionDebug" where
  "debug_position fp now d =
     (let l = dl_mLocation d;
          p = (if dl_mValid d
               then \<lparr>pd_valid = True, pd_latitudeDegrees = lc_latitude l, pd_longitudeDegrees = lc_longitude l,
                     pd_altitudeMeters = d2f fp (lc_altitude l),
                     pd_speedMetersPerSec = d2f fp (f2d fp (lc_speed l)), pd_bearingDegrees = d2f fp (f2d fp (lc_bearing l)),
                     pd_horizontalAccuracyMeters = f2d fp (lc_accuracy l),
                     pd_verticalAccuracyMeters = dl_verticalAccuracyMeters d,
                     pd_speedAccuracyMetersPerSecond = dl_speedAccuracyMetersPerSecond d,
                     pd_bearingAccuracyDegrees = dl_bearingAccuracyDegrees d,
                     pd_ageSeconds = fp_age fp (fst now - fst (dl_mUtcReported d))
                       (snd now - snd (dl_mUtcReported d) div 1000)\<rparr>
               else PositionDebug_zero\<lparr>pd_valid := False\<rparr>)
      in limit_accuracies fp (limit_accuracies fp p))"

definition debug_time_data :: "debug_fp \<Rightarrow> GnssDebugTime \<Rightarrow> TimeDebug" where
  "debug_time_data fp d =
     (let t = (if dt_mValid d
               then \<lparr>td_timeEstimate = dt_timeEstimate d, td_timeUncertaintyNs = dt_timeUncertaintyNs d,
                     td_frequencyUncertaintyNsPerSec = dt_frequencyUncertaintyNsPerSec d\<rparr>
               else \<lparr>td_timeEstimate = 0, td_timeUncertaintyNs = 0, td_frequencyUncertaintyNsPerSec = 0\<rparr>)
      in \<lparr>td_timeEstimate =
            (if sint (td_timeEstimate t) < GNSS_DEBUG_UNKNOWN_UTC_TIME
             then word_of_int GNSS_DEBUG_UNKNOWN_UTC_TIME else td_timeEstimate t),
          td_timeUncertaintyNs =
            (if f_not_positive fp (td_timeUncertaintyNs t) \<or> f_above fp (td_timeUncertaintyNs t) (UNKNOWN_UTC_TIME_UNC fp)
             then UNKNOWN_UTC_TIME_UNC fp else td_timeUncertaintyNs t),
          td_frequencyUncertaintyNsPerSec =
            (if f_not_positive fp (td_frequencyUncertaintyNsPerSec t) \<or>
                f_above fp (td_frequencyUncertaintyNsPerSec t) (UNKNOWN_FREQ_UNC_NS_PER_SEC fp)
             then UNKNOWN_FREQ_UNC_NS_PER_SEC fp else td_frequencyUncertaintyNsPerSec t)\<rparr>)"

definition satellite_data :: "GnssDebugSatelliteInfo \<Rightarrow> SatelliteData" where
  "satellite_data i =
     \<lparr>sd_svid = ds_svid i, sd_constellation = convertGnssConstellationType (ds_constellation i),
      sd_ephemerisType = convertGnssEphemerisType (mEphemerisType i),
      sd_ephemerisSource = convertGnssEphemerisSource (mEphemerisSource i),
      sd_ephemerisHealth = convertGnssEphemerisHealth (mEphemerisHealth i),
      sd_ephemerisAgeSeconds = ds_ephemerisAgeSeconds i,
      sd_serverPredictionIsAvailable = ds_serverPredictionIsAvailable i,
      sd_serverPredictionAgeSeconds = ds_serverPredictionAgeSeconds i\<rparr>"

text \<open>
  Without the interface the data are zeros. The interface's own function (\<open>location_gnss.cpp\<close>) calls the
  adapter, if there is one: \<open>adapter\<close> is its system status.
\<close>

definition getDebugData ::
  "debug_fp \<Rightarrow> int \<times> int \<Rightarrow> bool \<Rightarrow> SystemStatusReports option option \<Rightarrow> DebugData" where
  "getDebugData fp now has_interface adapter =
     (if \<not> has_interface
      then \<lparr>dd_position = PositionDebug_zero,
            dd_time = \<lparr>td_timeEstimate = 0, td_timeUncertaintyNs = 0, td_frequencyUncertaintyNsPerSec = 0\<rparr>,
            dd_satelliteDataArray = []\<rparr>
      else let d = (case adapter of None \<Rightarrow> GnssDebugReport_zero
                    | Some status \<Rightarrow> snd (getDebugReport fp status GnssDebugReport_zero))
           in \<lparr>dd_position = debug_position fp now (dr_mLocation d), dd_time = debug_time_data fp (dr_mTime d),
               dd_satelliteDataArray = map satellite_data (dr_mSatelliteInfo d)\<rparr>)"

end
