(* ===== verification/Debug_Proofs.thy ===== *)
theory Debug_Proofs
  imports Gnss_Debug System_Status_Proofs
begin

unbundle bit_operations_syntax

text \<open>
  What holds of the debug data that Android gets: the health of every satellite as the modem's sentence
  has it, every satellite once and with its own entry, and the time.
\<close>

section \<open>The latest reports\<close>

lemma getIteminReport_last [simp]:
  "last_item (getIteminReport r) = last_item r"
  "getIteminReport r = [] \<longleftrightarrow> r = []"
  "r \<noteq> [] \<Longrightarrow> last (getIteminReport r) = last r"
  by (cases r; simp add: getIteminReport_def last_item_def)+

lemma getReport_latest [simp]:
  "mSvHealth (getReport True s) = getIteminReport (mSvHealth s)"
  "mXtra (getReport True s) = getIteminReport (mXtra s)"
  "mNavData (getReport True s) = getIteminReport (mNavData s)"
  "mTimeAndClock (getReport True s) = getIteminReport (mTimeAndClock s)"
  by (simp_all add: getReport_def)

lemma SvHealth_equals_eq: "SvHealth_equals a b \<longleftrightarrow> a = b"
  by (cases a; cases b) (simp add: SvHealth_equals_def)

lemma last_put_report:
  assumes "\<And>a b. eq a b \<Longrightarrow> a = b"
  shows "last_item (put_report eq now v r) = Some v"
  using assms
  by (auto simp: put_report_def setIteminReport_def keep_new_def status_item_new_def last_item_def push_bounded_def
      Let_def maxItem_def last_tl split: if_splits)

section \<open>Satellites\<close>

lemma sv_range [simp]:
  "svid_idx + n \<le> SV_ALL_NUM \<Longrightarrow> takeWhile (\<lambda>i. svid_idx + i < SV_ALL_NUM) [0..<n] = [0..<n]"
  by (simp add: takeWhile_eq_all_conv)

lemmas sv_numbers = GPS_NUM_def GLO_NUM_def QZSS_NUM_def BDS_NUM_def GAL_NUM_def SV_ALL_NUM_def

lemma convertSatelliteInfo_append:
  "convertSatelliteInfo fp c r out =
     (case sv_params c of None \<Rightarrow> out
      | Some (svid_min, svid_num, svid_idx) \<Rightarrow> out @ map (convert_sv fp c r svid_min svid_idx) [0..<svid_num])"
proof -
  have "svid_idx + svid_num \<le> SV_ALL_NUM" if "sv_params c = Some (svid_min, svid_num, svid_idx)"
    for svid_min svid_num svid_idx
    using that by (cases c) (auto simp: sv_numbers)
  then show ?thesis by (auto simp: convertSatelliteInfo_def split: option.split)
qed

text \<open>The satellites of a report, constellation by constellation.\<close>

lemma debug_satellites:
  "dr_mSatelliteInfo (snd (getDebugReport fp (Some s) GnssDebugReport_zero)) =
     map (convert_sv fp GNSS_SV_TYPE_GPS (getReport True s) 1 0) [0..<32] @
     map (convert_sv fp GNSS_SV_TYPE_GLONASS (getReport True s) 1 32) [0..<24] @
     map (convert_sv fp GNSS_SV_TYPE_QZSS (getReport True s) 193 129) [0..<5] @
     map (convert_sv fp GNSS_SV_TYPE_BEIDOU (getReport True s) 1 56) [0..<37] @
     map (convert_sv fp GNSS_SV_TYPE_GALILEO (getReport True s) 1 93) [0..<36]"
  by (simp only: getDebugReport_def option.case Let_def snd_conv GnssDebugReport.select_convs fold_simps
      convertSatelliteInfo_append sv_params.simps prod.case append_Nil append_assoc
      GnssDebugReport_zero_def) (simp only: sv_numbers, simp)

definition health_of ::
  "GnssConstellationType \<Rightarrow> nat \<Rightarrow> nat \<Rightarrow> u64 \<Rightarrow> u64 \<Rightarrow> (GnssConstellationType \<times> u32 \<times> SatelliteEphemerisHealth) list" where
  "health_of c first n good bad =
     map (\<lambda>i. (c, of_nat (i + first), if bit good i then GOOD else if bit bad i then BAD else HEALTH_UNKNOWN)) [0..<n]"

lemma health_of_convert:
  assumes "last_item (mSvHealth r) = Some h"
  shows "map (\<lambda>s. (sd_constellation s, sd_svid s, sd_ephemerisHealth s))
      (map satellite_data (map (convert_sv fp c r svid_min idx) [0..<n])) =
    health_of (convertGnssConstellationType c) svid_min n (fst (health_masks c h)) (snd (health_masks c h))"
  using assms by (simp add: health_of_def satellite_data_def convert_sv_def Let_def and_exp_eq_0_iff_not_bit push_bit_eq_mult
      split: prod.split)

text \<open>
  C23: The health of the satellites that the modem prints in a sentence is what Android gets in its debug data: of
  each constellation every satellite once, good if its bit in the good mask is set, and otherwise bad if
  its bit in the bad mask is.
\<close>

theorem health_reaches_debug_data:
  assumes "masks_fit h" "plain utc"
    and "data = sentence (''$PQWP5'' # utc # health_fields h) checksum"
    and "length data \<le> DEBUG_NMEA_MAXSIZE"
  shows "map (\<lambda>s. (sd_constellation s, sd_svid s, sd_ephemerisHealth s))
      (dd_satelliteDataArray (getDebugData dfp clock True
         (Some (Some (snd (setNmeaString fp junk now data (length data) c)))))) =
    health_of GPS 1 32 (ucast (mGpsGoodMask h)) (ucast (mGpsBadMask h)) @
    health_of GLONASS 1 24 (ucast (mGloGoodMask h)) (ucast (mGloBadMask h)) @
    health_of QZSS 193 5 (ucast (mQzssGoodMask h)) (ucast (mQzssBadMask h)) @
    health_of BEIDOU 1 37 (mBdsGoodMask h) (mBdsBadMask h) @
    health_of GALILEO 1 36 (mGalGoodMask h) (mGalBadMask h)"
proof -
  let ?s = "snd (setNmeaString fp junk now data (length data) c)"
  have "last_item (mSvHealth ?s) = Some h"
    using health_sentence[OF assms, of fp junk now c] by (simp add: last_put_report[of SvHealth_equals, OF iffD1[OF SvHealth_equals_eq]])
  then have h: "last_item (mSvHealth (getReport True ?s)) = Some h" by simp
  show ?thesis
    by (simp only: getDebugData_def simp_thms if_False DebugData.select_convs Let_def option.case debug_satellites
        map_append health_of_convert[OF h] convertGnssConstellationType.simps health_masks.simps fst_conv snd_conv)
qed

definition demo_dfp :: debug_fp where
  "demo_dfp = fp_lib.extend demo_fp
     \<lparr>f2d = ucast, u2f = (\<lambda>w. w), rad2deg = (\<lambda>w. w), fp_sum_ns = (+), fp_age = (\<lambda>s us. word_of_int s), d_of = word_of_int,
      d_not_positive = (\<lambda>w. sint w \<le> 0), d_above = (\<lambda>w n. n < sint w), f_not_positive = (\<lambda>w. sint w \<le> 0),
      f_above = (\<lambda>v w. sint w < sint v), UNKNOWN_UTC_TIME_UNC = 1000, UNKNOWN_FREQ_UNC_NS_PER_SEC = 1000\<rparr>"

theorem health_reaches_debug_data_witness:
  "take 2 (drop 31 (map (\<lambda>s. (sd_constellation s, sd_svid s, sd_ephemerisHealth s))
      (dd_satelliteDataArray (getDebugData demo_dfp (0, 0) True
         (Some (Some (snd (setNmeaString demo_fp demo_junk (7, 0) (demo_sentence ''bad'')
            (length (demo_sentence ''bad'')) SystemStatus_new)))))))) =
    [(GPS, 32, GOOD), (GLONASS, 1, HEALTH_UNKNOWN)]"
proof -
  have facts: "masks_fit demo_health" "plain ''120000.00''"
      "length (demo_sentence ''bad'') \<le> DEBUG_NMEA_MAXSIZE"
    by (simp_all add: masks_fit_def demo_health_def plain_def demo_sentence_def sentence_def
        health_fields_def hex_def hex_string_rec DEBUG_NMEA_MAXSIZE_def)
  have u: "[0..<32] = [0..<31] @ [31]" by (simp add: upt_rec)
  have "health_of GPS 1 32 g b = map (\<lambda>i. (GPS, of_nat (i + 1),
      if bit g i then GOOD else if bit b i then BAD else HEALTH_UNKNOWN)) ([0..<31] @ [31])" for g b
    by (simp only: health_of_def u)
  moreover have "health_of GLONASS 1 24 g b = (GLONASS, 1, if bit g 0 then GOOD else if bit b 0 then BAD else HEALTH_UNKNOWN) #
      map (\<lambda>i. (GLONASS, of_nat (i + 1), if bit g i then GOOD else if bit b i then BAD else HEALTH_UNKNOWN)) [1..<24]" for g b
    by (simp add: health_of_def upt_conv_Cons[of 0 24])
  moreover have "bit (0xFFFFFFFF :: u64) 31" by simp
  ultimately show ?thesis
    using health_reaches_debug_data [OF facts(1,2) demo_sentence_def facts(3), of demo_dfp "(0, 0)" demo_fp demo_junk "(7, 0)" SystemStatus_new]
    by (simp add: demo_health_def)
qed

definition nav_entries :: "GnssSvType \<Rightarrow> GnssDebugSatelliteInfo list \<Rightarrow> (i32 \<times> i32) list" where
  "nav_entries c sats = map (\<lambda>s. (mEphemerisType s, mEphemerisSource s)) (filter (\<lambda>s. ds_constellation s = c) sats)"

lemma nav_entries_append [simp]: "nav_entries c (xs @ ys) = nav_entries c xs @ nav_entries c ys"
  by (simp add: nav_entries_def)

lemma nav_entries_convert:
  assumes "last_item (mNavData r) = Some nav"
  shows "nav_entries c (map (convert_sv fp k r m idx) [0..<n]) =
    (if k = c then map (\<lambda>i. (nav_mType (nav ! i), nav_mSource (nav ! i))) [idx..<idx + n] else [])"
proof -
  have "map (\<lambda>i. (nav_mType (nav ! i), nav_mSource (nav ! i))) [idx..<idx + n] =
      map (\<lambda>i. (nav_mType (nav ! (idx + i)), nav_mSource (nav ! (idx + i)))) [0..<n]"
    by (rule nth_equalityI) simp_all
  moreover have "filter (\<lambda>s. ds_constellation s = c) (map (convert_sv fp k r m idx) [0..<n]) =
      (if k = c then map (convert_sv fp k r m idx) [0..<n] else [])"
    by (auto simp: filter_map o_def convert_sv_def Let_def split: prod.splits)
  ultimately show ?thesis
    using assms by (simp add: nav_entries_def convert_sv_def Let_def split: prod.split)
qed

text \<open>
  A debug report names every satellite of the five constellations once, and when the modem has sent the navigation
  data, each with the type and the source of its own entry: taken by constellation, the entries are those of the
  modem's array, in its order and none left out.
\<close>

theorem satellites_reported_once:
  assumes "last_item (mNavData s) = Some nav" "length nav = SV_ALL_NUM"
  shows "concat (map (\<lambda>c. nav_entries c (dr_mSatelliteInfo (snd (getDebugReport fp (Some s) GnssDebugReport_zero))))
      [GNSS_SV_TYPE_GPS, GNSS_SV_TYPE_GLONASS, GNSS_SV_TYPE_BEIDOU, GNSS_SV_TYPE_GALILEO, GNSS_SV_TYPE_QZSS]) =
    map (\<lambda>n. (nav_mType n, nav_mSource n)) nav"
proof -
  let ?f = "\<lambda>i. (nav_mType (nav ! i), nav_mSource (nav ! i))"
  have n: "last_item (mNavData (getReport True s)) = Some nav" using assms(1) by simp
  have "concat (map (\<lambda>c. nav_entries c (dr_mSatelliteInfo (snd (getDebugReport fp (Some s) GnssDebugReport_zero))))
      [GNSS_SV_TYPE_GPS, GNSS_SV_TYPE_GLONASS, GNSS_SV_TYPE_BEIDOU, GNSS_SV_TYPE_GALILEO, GNSS_SV_TYPE_QZSS]) =
    map ?f ([0..<32] @ [32..<56] @ [56..<93] @ [93..<129] @ [129..<134])"
    by (simp add: debug_satellites nav_entries_convert[OF n] del: upt_conv_Cons)
  also have "[0..<32] @ [32..<56] @ [56..<93] @ [93..<129] @ [129..<134] = [0..<length nav]"
    using upt_add_eq_append[of 0 32 24] upt_add_eq_append[of 0 56 37] upt_add_eq_append[of 0 93 36]
      upt_add_eq_append[of 0 129 5] by (simp add: assms(2) sv_numbers)
  also have "map ?f [0..<length nav] = map (\<lambda>n. (nav_mType n, nav_mSource n)) nav"
    by (rule nth_equalityI) simp_all
  finally show ?thesis .
qed

definition demo_nav :: "SystemStatusNav list" where
  "demo_nav = replicate SV_ALL_NUM \<lparr>nav_mType = 1, nav_mSource = 2, nav_mAgeSec = 30\<rparr>"

theorem satellites_reported_once_witness:
  "concat (map (\<lambda>c. nav_entries c (dr_mSatelliteInfo (snd (getDebugReport demo_dfp
      (Some (SystemStatus_new\<lparr>mNavData := [status_item_new (7, 0) demo_nav]\<rparr>)) GnssDebugReport_zero))))
      [GNSS_SV_TYPE_GPS, GNSS_SV_TYPE_GLONASS, GNSS_SV_TYPE_BEIDOU, GNSS_SV_TYPE_GALILEO, GNSS_SV_TYPE_QZSS]) =
    replicate SV_ALL_NUM (1, 2)"
proof -
  have "last_item (mNavData (SystemStatus_new\<lparr>mNavData := [status_item_new (7, 0) demo_nav]\<rparr>)) = Some demo_nav"
    "length demo_nav = SV_ALL_NUM"
    by (simp_all add: last_item_def status_item_new_def demo_nav_def)
  from satellites_reported_once[OF this, of demo_dfp] show ?thesis by (simp add: demo_nav_def)
qed

section \<open>Time\<close>

text \<open>The time does not wrap, whatever the modem reports.\<close>

lemma time_in_range:
  fixes w l t :: int
  assumes "0 \<le> w" "w < 65536" "- 2147483648 \<le> l" "l < 2147483648" "0 \<le> t" "t < 4294967296"
  shows "- 9223372036854775808 \<le> ((w * 7 + 3657) * 86400 - l) * 1000 + t"
    "((w * 7 + 3657) * 86400 - l) * 1000 + t < 9223372036854775808"
  using assms by (simp_all add: algebra_simps)

lemma sint_word64:
  "- 9223372036854775808 \<le> e \<Longrightarrow> e < 9223372036854775808 \<Longrightarrow> sint (word_of_int e :: 64 word) = e"
  by (simp add: signed_of_int signed_take_bit_int_eq_self)

lemma sint_time_estimate:
  "sint (time_estimate t) =
     ((uint (mGpsWeek t) * 7 + 3657) * 86400 - sint (mLeapSeconds t)) * 1000 + uint (mGpsTowMs t)"
    (is "_ = ?e")
proof -
  have "time_estimate t = word_of_int ?e"
    by (simp add: time_estimate_def GNSS_UTC_TIME_OFFSET_def)
  moreover have "- 2147483648 \<le> sint (mLeapSeconds t)" "sint (mLeapSeconds t) < 2147483648"
    using sint_ge[of "mLeapSeconds t"] sint_lt[of "mLeapSeconds t"] by simp_all
  moreover have "0 \<le> uint (mGpsWeek t)" "uint (mGpsWeek t) < 65536" "0 \<le> uint (mGpsTowMs t)"
    "uint (mGpsTowMs t) < 4294967296"
    using uint_bounded[of "mGpsWeek t"] uint_bounded[of "mGpsTowMs t"] by simp_all
  ultimately have "time_estimate t = word_of_int ?e" "- 9223372036854775808 \<le> ?e" "?e < 9223372036854775808"
    using time_in_range[of "uint (mGpsWeek t)" "sint (mLeapSeconds t)" "uint (mGpsTowMs t)"] by blast+
  then show ?thesis using sint_word64[of ?e] by (simp only:)
qed

text \<open>
  The time that Android gets is the one the modem reported last: the weeks since 1980, less the leap seconds, and
  the time of the week, in milliseconds since 1970, without a wrap whatever was reported; and at least the
  begin of 2017, which it is when there is no valid time.
\<close>

theorem debug_time_exact:
  "sint (td_timeEstimate (dd_time (getDebugData fp clock True (Some (Some s))))) =
    (case last_item (mTimeAndClock s) of
       None \<Rightarrow> 1483228800000
     | Some t \<Rightarrow>
         if mTimeValid t = 0 then 1483228800000
         else max 1483228800000
           (((uint (mGpsWeek t) * 7 + 3657) * 86400 - sint (mLeapSeconds t)) * 1000 + uint (mGpsTowMs t)))"
proof -
  have "sint (td_timeEstimate (dd_time (getDebugData fp clock True (Some (Some s))))) =
    max 1483228800000 (case last_item (mTimeAndClock s) of None \<Rightarrow> 0
      | Some t \<Rightarrow> if mTimeValid t = 0 then 0 else sint (time_estimate t))"
    by (auto simp: getDebugData_def getDebugReport_def debug_time_data_def debug_time_def last_item_def Let_def
        GnssDebugReport_zero_def GNSS_DEBUG_UNKNOWN_UTC_TIME_def max_def)
  then show ?thesis by (simp add: sint_time_estimate split: option.split)
qed

end
