(* ===== verification/Hal_Gnss.thy ===== *)
theory Hal_Gnss
  imports Location_Util Gnss_Ni Client_Base
begin

unbundle bit_operations_syntax

text \<open>
  \<open>gps/android/location_api/GnssAPIClient.cpp\<close>: Android's GNSS interface as a client of the location API. It keeps
  the options that Android set last, passes requests on to the client of \<open>Client_Base\<close>, and turns its callbacks
  into calls of Android's.

  Enumerations of Android's interface, which is generated from a description outside the repository, are
  \<open>datatype\<close>s, its masks the sets of their bits, and the number of satellites it takes is an argument, as are the
  bytes of a structure that is only passed on.
\<close>

section \<open>Data\<close>

datatype GnssPositionMode = STANDALONE | MS_BASED | MS_ASSISTED | OTHER_MODE int
datatype GnssPositionRecurrence = RECURRENCE_PERIODIC | RECURRENCE_SINGLE

text \<open>\<open>RESPONSE_NONE\<close> is memory filled with zeros, and every other value without a name.\<close>

datatype GnssUserResponseType = RESPONSE_NONE | RESPONSE_ACCEPT | RESPONSE_DENY | RESPONSE_NORESP

datatype GnssAidingFlag =
    DELETE_EPHEMERIS | DELETE_ALMANAC | DELETE_POSITION | DELETE_TIME | DELETE_IONO | DELETE_UTC | DELETE_HEALTH
  | DELETE_SVDIR | DELETE_SVSTEER | DELETE_SADATA | DELETE_RTI | DELETE_CELLDB_INFO

record GnssAidingData =
  deleteAll :: bool
  sv_svMask :: u32
  sv_svTypeMask :: u32
  common_mask :: u32

datatype hal_capability = SCHEDULING | GEOFENCING | MEASUREMENTS | MSB | MSA
datatype GnssStatusValue = SESSION_BEGIN | SESSION_END | ENGINE_ON | ENGINE_OFF
datatype GnssNiType_hal = VOICE | UMTS_SUPL | UMTS_CTRL_PLANE | EMERGENCY_SUPL
datatype GnssNiNotifyFlag = NEED_NOTIFY | NEED_VERIFY | PRIVACY_OVERRIDE
datatype GnssNiEncodingType_hal = ENC_NONE | ENC_SUPL_GSM_DEFAULT | ENC_SUPL_UTF8 | ENC_SUPL_UCS2
datatype GnssSvFlag = HAS_EPHEMERIS_DATA | HAS_ALMANAC_DATA | USED_IN_FIX

record hal_ni_notification =
  hn_notificationId :: u32
  hn_niType :: GnssNiType_hal
  hn_notifyFlags :: "GnssNiNotifyFlag set"
  hn_timeoutSec :: u32
  hn_defaultResponse :: GnssUserResponseType
  hn_requestorId :: "u8 list"
  hn_notificationMessage :: "u8 list"
  hn_requestorIdEncoding :: GnssNiEncodingType_hal
  hn_notificationIdEncoding :: GnssNiEncodingType_hal

record GnssSvInfo =
  hs_svid :: u16
  hs_constellation :: GnssConstellationType
  hs_cN0Dbhz :: u32
  hs_elevationDegrees :: u32
  hs_azimuthDegrees :: u32
  hs_svFlag :: "GnssSvFlag set"

datatype hal_call =
    H_gnssSetCapabilities "hal_capability set"
  | H_gnssSetSystemInfo nat
  | H_gnssLocation GnssLocation
  | H_niNotify hal_ni_notification
  | H_gnssSvStatus "GnssSvInfo list"
  | H_gnssNmea u64 nmea
  | H_gnssStatus GnssStatusValue

text \<open>
  \<open>ga_wanted\<close> is what the last registration asked for: the callbacks of a session, and those of network-initiated
  requests.
\<close>

record gnss_api_client =
  ga_client :: client
  mControlClient :: "ctrl_client option"
  mGnssCbIface :: bool
  mGnssNiCbIface :: bool
  mLocationCapabilitiesMask :: u32
  mLocationCapabilitiesCached :: bool
  mLocationOptions :: LocationOptions
  ga_wanted :: "bool \<times> bool"
  ga_calls :: "hal_call list"

record hal_env =
  he_api :: api_world
  he_ctrl :: ctrl_world
  he_svs_max :: nat
  he_aiding_bytes :: "GnssAidingData \<Rightarrow> bytes"
  he_sizeof_options :: nat

definition hal_say :: "hal_call list \<Rightarrow> gnss_api_client \<Rightarrow> gnss_api_client" where
  "hal_say hs g = g\<lparr>ga_calls := ga_calls g @ hs\<rparr>"

section \<open>Requests\<close>

definition gnssUpdateCallbacks ::
  "hal_env \<Rightarrow> bool \<Rightarrow> bool \<Rightarrow> bool \<Rightarrow> gnss_api_client \<Rightarrow> gnss_api_client" where
  "gnssUpdateCallbacks w gpsCb niCb agpsExtended g =
     g\<lparr>mGnssCbIface := gpsCb, mGnssNiCbIface := niCb, ga_wanted := (gpsCb, niCb \<and> \<not> agpsExtended),
       ga_client := locAPISetCallbacks (he_api w) False False (ga_client g)\<rparr>"

definition GnssAPIClient_new :: "hal_env \<Rightarrow> bool \<Rightarrow> nat \<Rightarrow> bool \<Rightarrow> bool \<Rightarrow> bool \<Rightarrow> gnss_api_client" where
  "GnssAPIClient_new w ctrl_created sizeof_config gpsCb niCb agpsExtended =
     gnssUpdateCallbacks w gpsCb niCb agpsExtended
       \<lparr>ga_client = client_new, mControlClient = Some (ctrl_new ctrl_created sizeof_config), mGnssCbIface = False,
        mGnssNiCbIface = False, mLocationCapabilitiesMask = 0, mLocationCapabilitiesCached = False,
        mLocationOptions = \<lparr>lo_size = he_sizeof_options w, minInterval = 1000, minDistance = 0,
          lo_mode = GNSS_SUPL_MODE_STANDALONE\<rparr>,
        ga_wanted = (False, False), ga_calls = []\<rparr>"

text \<open>The answer is true whether or not the session could be started.\<close>

definition gnssStart :: "hal_env \<Rightarrow> gnss_api_client \<Rightarrow> bool \<times> gnss_api_client" where
  "gnssStart w g =
     (True, g\<lparr>ga_client := snd (locAPIStartTracking (he_api w) (mLocationOptions g) (ga_client g))\<rparr>)"

definition gnssStop :: "gnss_api_client \<Rightarrow> bool \<times> gnss_api_client" where
  "gnssStop g = (True, g\<lparr>ga_client := locAPIStopTracking (ga_client g)\<rparr>)"

text \<open>A mode that is not known is answered with false, but the options are set, with the mode of zeros.\<close>

definition gnssSetPositionMode ::
  "hal_env \<Rightarrow> GnssPositionMode \<Rightarrow> GnssPositionRecurrence \<Rightarrow> u32 \<Rightarrow> u32 \<Rightarrow> gnss_api_client \<Rightarrow> bool \<times> gnss_api_client" where
  "gnssSetPositionMode w mode recur minIntervalMs preferredAccuracyMeters g =
     (let options =
        \<lparr>lo_size = he_sizeof_options w,
         minInterval = (if recur = RECURRENCE_SINGLE then 0xFFFFFFFF else minIntervalMs),
         minDistance = preferredAccuracyMeters,
         lo_mode =
           (case mode of STANDALONE \<Rightarrow> GNSS_SUPL_MODE_STANDALONE | MS_BASED \<Rightarrow> GNSS_SUPL_MODE_MSB
            | MS_ASSISTED \<Rightarrow> GNSS_SUPL_MODE_MSA | OTHER_MODE n \<Rightarrow> GNSS_SUPL_MODE_STANDALONE)\<rparr>
      in (case mode of OTHER_MODE n \<Rightarrow> False | _ \<Rightarrow> True,
          g\<lparr>mLocationOptions := options, ga_client := locAPIUpdateTrackingOptions options (ga_client g)\<rparr>))"

fun user_response :: "GnssUserResponseType \<Rightarrow> GnssNiResponse option" where
  "user_response RESPONSE_ACCEPT = Some GNSS_NI_RESPONSE_ACCEPT"
| "user_response RESPONSE_DENY = Some GNSS_NI_RESPONSE_DENY"
| "user_response RESPONSE_NORESP = Some GNSS_NI_RESPONSE_NO_RESPONSE"
| "user_response RESPONSE_NONE = None"

definition gnssNiRespond :: "u32 \<Rightarrow> GnssUserResponseType \<Rightarrow> gnss_api_client \<Rightarrow> gnss_api_client" where
  "gnssNiRespond notifId userResponse g =
     (case user_response userResponse of
        None \<Rightarrow> g
      | Some r \<Rightarrow> g\<lparr>ga_client := locAPIGnssNiResponse notifId r (ga_client g)\<rparr>)"

definition mask_of :: "('f \<times> u32) list \<Rightarrow> 'f set \<Rightarrow> u32" where
  "mask_of bits fs = fold (\<lambda>(f, b) m. if f \<in> fs then m OR b else m) bits 0"

text \<open>\<open>None\<close> is the value that deletes everything.\<close>

definition aiding_data :: "GnssAidingFlag set option \<Rightarrow> GnssAidingData" where
  "aiding_data flags =
     (case flags of
        None \<Rightarrow> \<lparr>deleteAll = True, sv_svMask = 0, sv_svTypeMask = 0x1F, common_mask = 0\<rparr>
      | Some fs \<Rightarrow>
          \<lparr>deleteAll = False,
           sv_svMask = mask_of [(DELETE_EPHEMERIS, 0x1), (DELETE_ALMANAC, 0x2), (DELETE_IONO, 0x200),
             (DELETE_HEALTH, 0x4), (DELETE_SVDIR, 0x8), (DELETE_SVSTEER, 0x10), (DELETE_SADATA, 0x80)] fs,
           sv_svTypeMask = 0x1F,
           common_mask = mask_of [(DELETE_POSITION, 0x1), (DELETE_TIME, 0x2), (DELETE_UTC, 0x4), (DELETE_RTI, 0x8),
             (DELETE_CELLDB_INFO, 0x20)] fs\<rparr>)"

definition with_control :: "(ctrl_client \<Rightarrow> ctrl_client) \<Rightarrow> gnss_api_client \<Rightarrow> gnss_api_client" where
  "with_control f g = g\<lparr>mControlClient := map_option f (mControlClient g)\<rparr>"

definition gnssDeleteAidingData ::
  "hal_env \<Rightarrow> GnssAidingFlag set option \<Rightarrow> gnss_api_client \<Rightarrow> gnss_api_client" where
  "gnssDeleteAidingData w flags =
     with_control (\<lambda>c. snd (locAPIGnssDeleteAidingData (he_ctrl w) (he_aiding_bytes w (aiding_data flags)) c))"

definition gnssEnable :: "hal_env \<Rightarrow> LocationTechnologyType \<Rightarrow> gnss_api_client \<Rightarrow> gnss_api_client" where
  "gnssEnable w techType = with_control (\<lambda>c. snd (locAPIEnable (he_ctrl w) techType c))"

definition gnssDisable :: "gnss_api_client \<Rightarrow> gnss_api_client" where
  "gnssDisable = with_control locAPIDisable"

definition gnssConfigurationUpdate :: "hal_env \<Rightarrow> bytes \<Rightarrow> gnss_api_client \<Rightarrow> gnss_api_client" where
  "gnssConfigurationUpdate w config = with_control (\<lambda>c. snd (locAPIGnssUpdateConfig (he_ctrl w) config c))"

text \<open>The destructor; the base class releases the API afterwards.\<close>

definition GnssAPIClient_destroy :: "gnss_api_client \<Rightarrow> gnss_api_client" where
  "GnssAPIClient_destroy g =
     g\<lparr>mControlClient := None, ga_client := client_destroy (ga_client g)\<rparr>"

section \<open>Callbacks\<close>

text \<open>Each reads the interface under the mutex and calls it, if it is there.\<close>

definition hal_capabilities :: "u32 \<Rightarrow> hal_capability set" where
  "hal_capabilities m =
     (if m AND 0x1 \<noteq> 0 \<or> m AND 0x2 \<noteq> 0 \<or> m AND 0x4 \<noteq> 0 \<or> m AND 0x8 \<noteq> 0 then {SCHEDULING} else {}) \<union>
     (if m AND 0x10 \<noteq> 0 then {GEOFENCING} else {}) \<union> (if m AND 0x20 \<noteq> 0 then {MEASUREMENTS} else {}) \<union>
     (if m AND 0x40 \<noteq> 0 then {MSB} else {}) \<union> (if m AND 0x80 \<noteq> 0 then {MSA} else {})"

definition year_of_hw :: "u32 \<Rightarrow> nat" where
  "year_of_hw m = (if m AND 0x100 \<noteq> 0 then 2017 else if m AND 0x20 \<noteq> 0 then 2016 else 2015)"

definition onCapabilitiesCb :: "u32 \<Rightarrow> gnss_api_client \<Rightarrow> gnss_api_client" where
  "onCapabilitiesCb m g =
     (let g1 = g\<lparr>mLocationCapabilitiesMask := m, mLocationCapabilitiesCached := True\<rparr>
      in if mGnssCbIface g1
         then hal_say [H_gnssSetCapabilities (hal_capabilities m), H_gnssSetSystemInfo (year_of_hw m)] g1 else g1)"

definition requestCapabilities :: "gnss_api_client \<Rightarrow> gnss_api_client" where
  "requestCapabilities g =
     (if mLocationCapabilitiesCached g then onCapabilitiesCb (mLocationCapabilitiesMask g) g else g)"

definition onTrackingCb :: "Location \<Rightarrow> gnss_api_client \<Rightarrow> gnss_api_client" where
  "onTrackingCb l g = (if mGnssCbIface g then hal_say [H_gnssLocation (convertGnssLocation l)] g else g)"

fun ni_type :: "GnssNiType \<Rightarrow> GnssNiType_hal" where
  "ni_type GNSS_NI_TYPE_VOICE = VOICE"
| "ni_type GNSS_NI_TYPE_SUPL = UMTS_SUPL"
| "ni_type GNSS_NI_TYPE_CONTROL_PLANE = UMTS_CTRL_PLANE"
| "ni_type GNSS_NI_TYPE_EMERGENCY_SUPL = EMERGENCY_SUPL"

fun default_response :: "GnssNiResponse \<Rightarrow> GnssUserResponseType" where
  "default_response GNSS_NI_RESPONSE_ACCEPT = RESPONSE_ACCEPT"
| "default_response GNSS_NI_RESPONSE_DENY = RESPONSE_DENY"
| "default_response GNSS_NI_RESPONSE_NO_RESPONSE = RESPONSE_NORESP"
| "default_response GNSS_NI_RESPONSE_IGNORE = RESPONSE_NORESP"
| "default_response GNSS_NI_RESPONSE_UNSET = RESPONSE_NONE"

text \<open>What is none of the four encodings stays zero, which is the first.\<close>

definition ni_encoding :: "nat \<Rightarrow> GnssNiEncodingType_hal" where
  "ni_encoding e =
     (if e = 1 then ENC_SUPL_GSM_DEFAULT else if e = 2 then ENC_SUPL_UTF8 else if e = 3 then ENC_SUPL_UCS2 else ENC_NONE)"

definition hal_ni :: "u32 \<Rightarrow> GnssNiNotification \<Rightarrow> hal_ni_notification" where
  "hal_ni i n =
     \<lparr>hn_notificationId = i, hn_niType = ni_type (nn_type n),
      hn_notifyFlags =
        (if nn_options n AND 1 \<noteq> 0 then {NEED_NOTIFY} else {}) \<union> (if nn_options n AND 2 \<noteq> 0 then {NEED_VERIFY} else {}) \<union>
        (if nn_options n AND 4 \<noteq> 0 then {PRIVACY_OVERRIDE} else {}),
      hn_timeoutSec = nn_timeout n, hn_defaultResponse = default_response (nn_timeoutResponse n),
      hn_requestorId = nn_requestor n, hn_notificationMessage = nn_message n,
      hn_requestorIdEncoding = ni_encoding (nn_requestorEncoding n),
      hn_notificationIdEncoding = ni_encoding (nn_messageEncoding n)\<rparr>"

definition onGnssNiCb :: "u32 \<Rightarrow> GnssNiNotification \<Rightarrow> gnss_api_client \<Rightarrow> gnss_api_client" where
  "onGnssNiCb i n g = (if mGnssNiCbIface g then hal_say [H_niNotify (hal_ni i n)] g else g)"

definition hal_sv :: "GnssSv \<Rightarrow> GnssSvInfo" where
  "hal_sv v =
     \<lparr>hs_svid = svId v, hs_constellation = convertGnssConstellationType (sv_type v), hs_cN0Dbhz = cN0Dbhz v,
      hs_elevationDegrees = elevation v, hs_azimuthDegrees = azimuth v,
      hs_svFlag =
        (if gnssSvOptionsMask v AND 1 \<noteq> 0 then {HAS_EPHEMERIS_DATA} else {}) \<union>
        (if gnssSvOptionsMask v AND 2 \<noteq> 0 then {HAS_ALMANAC_DATA} else {}) \<union>
        (if gnssSvOptionsMask v AND 4 \<noteq> 0 then {USED_IN_FIX} else {})\<rparr>"

text \<open>More satellites than Android takes are left out.\<close>

definition convertGnssSvStatus :: "nat \<Rightarrow> GnssSv list \<Rightarrow> GnssSvInfo list" where
  "convertGnssSvStatus svs_max svs = map hal_sv (take (if length svs > svs_max then svs_max else length svs) svs)"

definition onGnssSvCb :: "hal_env \<Rightarrow> GnssSv list \<Rightarrow> gnss_api_client \<Rightarrow> gnss_api_client" where
  "onGnssSvCb w svs g =
     (if mGnssCbIface g then hal_say [H_gnssSvStatus (convertGnssSvStatus (he_svs_max w) svs)] g else g)"

definition onGnssNmeaCb :: "u64 \<Rightarrow> nmea \<Rightarrow> gnss_api_client \<Rightarrow> gnss_api_client" where
  "onGnssNmeaCb t s g = (if mGnssCbIface g then hal_say [H_gnssNmea t s] g else g)"

definition onStartTrackingCb :: "LocationError \<Rightarrow> gnss_api_client \<Rightarrow> gnss_api_client" where
  "onStartTrackingCb e g =
     (if e = LOCATION_ERROR_SUCCESS \<and> mGnssCbIface g
      then hal_say [H_gnssStatus ENGINE_ON, H_gnssStatus SESSION_BEGIN] g else g)"

definition onStopTrackingCb :: "LocationError \<Rightarrow> gnss_api_client \<Rightarrow> gnss_api_client" where
  "onStopTrackingCb e g =
     (if e = LOCATION_ERROR_SUCCESS \<and> mGnssCbIface g
      then hal_say [H_gnssStatus SESSION_END, H_gnssStatus ENGINE_OFF] g else g)"

text \<open>The virtual functions of the base class that this class overrides.\<close>

fun client_callback :: "client_cb \<Rightarrow> gnss_api_client \<Rightarrow> gnss_api_client" where
  "client_callback (OnStartTracking e) g = onStartTrackingCb e g"
| "client_callback (OnStopTracking e) g = onStopTrackingCb e g"
| "client_callback _ g = g"

definition api_response :: "LocationError \<Rightarrow> u32 \<Rightarrow> gnss_api_client \<Rightarrow> gnss_api_client" where
  "api_response e i g =
     (let c = onResponseCb e i (ga_client g)
      in fold client_callback (drop (length (cbs (ga_client g))) (cbs c)) (g\<lparr>ga_client := c\<rparr>))"

section \<open>Runs\<close>

datatype hal_event =
    HalUpdateCallbacks bool bool bool
  | HalStart
  | HalStop
  | HalSetMode GnssPositionMode GnssPositionRecurrence u32 u32
  | HalNiRespond u32 GnssUserResponseType
  | HalDeleteAidingData "GnssAidingFlag set option"
  | HalEnable LocationTechnologyType
  | HalDisable
  | HalConfig bytes
  | HalRequestCapabilities
  | ApiResponse LocationError u32
  | ApiCapabilities u32
  | ApiTracking Location
  | ApiNi u32 GnssNiNotification
  | ApiSv "GnssSv list"
  | ApiNmea u64 nmea

fun hal_step :: "hal_env \<Rightarrow> hal_event \<Rightarrow> gnss_api_client \<Rightarrow> gnss_api_client" where
  "hal_step w (HalUpdateCallbacks a b c) g = gnssUpdateCallbacks w a b c g"
| "hal_step w HalStart g = snd (gnssStart w g)"
| "hal_step w HalStop g = snd (gnssStop g)"
| "hal_step w (HalSetMode m r i a) g = snd (gnssSetPositionMode w m r i a g)"
| "hal_step w (HalNiRespond i r) g = gnssNiRespond i r g"
| "hal_step w (HalDeleteAidingData f) g = gnssDeleteAidingData w f g"
| "hal_step w (HalEnable t) g = gnssEnable w t g"
| "hal_step w HalDisable g = gnssDisable g"
| "hal_step w (HalConfig b) g = gnssConfigurationUpdate w b g"
| "hal_step w HalRequestCapabilities g = requestCapabilities g"
| "hal_step w (ApiResponse e i) g = api_response e i g"
| "hal_step w (ApiCapabilities m) g = onCapabilitiesCb m g"
| "hal_step w (ApiTracking l) g = onTrackingCb l g"
| "hal_step w (ApiNi i n) g = onGnssNiCb i n g"
| "hal_step w (ApiSv svs) g = onGnssSvCb w svs g"
| "hal_step w (ApiNmea t s) g = onGnssNmeaCb t s g"

definition hal_run :: "hal_env \<Rightarrow> hal_event list \<Rightarrow> gnss_api_client \<Rightarrow> gnss_api_client" where
  "hal_run w es g = fold (hal_step w) es g"

end
