(* ===== verification/Hal_Proofs.thy ===== *)
theory Hal_Proofs
  imports Hal_Gnss
begin

unbundle bit_operations_syntax

text \<open>
  What holds of Android's GNSS client: it drives the client of the location API by its own operations, and the
  options of a running session are those that Android set last.
\<close>

section \<open>Options\<close>

fun tracking_options :: "api_call \<Rightarrow> LocationOptions option" where
  "tracking_options (A_startTracking p) = Some p"
| "tracking_options (A_updateTrackingOptions s p) = Some p"
| "tracking_options _ = None"

text \<open>The options that the API was given last.\<close>

definition options_in_force :: "api_call list \<Rightarrow> LocationOptions option" where
  "options_in_force xs = fold (\<lambda>x p. case tracking_options x of None \<Rightarrow> p | Some q \<Rightarrow> Some q) xs None"

lemma options_in_force_snoc [simp]:
  "options_in_force (xs @ [x]) =
    (case tracking_options x of None \<Rightarrow> options_in_force xs | Some p \<Rightarrow> Some p)"
  by (simp add: options_in_force_def split: option.split)

definition options_hold :: "LocationOptions \<Rightarrow> client \<Rightarrow> bool" where
  "options_hold p c \<longleftrightarrow>
     (mTracking c \<longrightarrow> mLocationAPI c \<and> (queue_session c REQUEST_TRACKING > 0 \<longrightarrow> options_in_force (api c) = Some p))"

lemmas client_defs = api_do_def queue_upd_def queue_session_def rq_reset_def rq_push_def

lemma options_setCallbacks:
  "options_hold p c \<Longrightarrow> options_hold p (locAPISetCallbacks w False False c)"
  by (auto simp: options_hold_def locAPISetCallbacks_def client_defs Let_def)

lemma options_start: "options_hold p c \<Longrightarrow> options_hold p (snd (locAPIStartTracking w p c))"
  by (auto simp: options_hold_def locAPIStartTracking_def client_defs Let_def)

lemma options_stop: "options_hold p c \<Longrightarrow> options_hold p (locAPIStopTracking c)"
  by (auto simp: options_hold_def locAPIStopTracking_def client_defs Let_def)

lemma options_update: "options_hold p c \<Longrightarrow> options_hold q (locAPIUpdateTrackingOptions q c)"
  by (auto simp: options_hold_def locAPIUpdateTrackingOptions_def client_defs Let_def)

lemma options_ni: "options_hold p c \<Longrightarrow> options_hold p (locAPIGnssNiResponse i r c)"
  by (auto simp: options_hold_def locAPIGnssNiResponse_def client_defs Let_def)

text \<open>An answer of the API takes a request from a queue and calls back; the queue's session, the calls and the flags stay.\<close>

definition same_tracking :: "client \<Rightarrow> client \<Rightarrow> bool" where
  "same_tracking c c' \<longleftrightarrow>
     mTracking c' = mTracking c \<and> mLocationAPI c' = mLocationAPI c \<and> api c' = api c \<and>
     (\<forall>t. queue_session c' t = queue_session c t)"

lemma same_tracking_trans: "same_tracking a b \<Longrightarrow> same_tracking b c \<Longrightarrow> same_tracking a c"
  by (simp add: same_tracking_def)

lemma same_tracking_pop:
  "rq_pop (mRequestQueues c i) = (r, q) \<Longrightarrow> same_tracking c (queue_upd i (\<lambda>_. q) c)"
  by (auto simp: same_tracking_def client_defs rq_pop_def split: list.splits)

lemma same_tracking_get: "same_tracking c (snd (getRequestBySession s c))"
proof -
  have i: "same_tracking c c" by (simp add: same_tracking_def)
  show ?thesis
    unfolding getRequestBySession_def Let_def
    by (auto split: option.split prod.split intro: i same_tracking_pop same_tracking_trans)
qed

lemma same_tracking_onResponse: "same_tracking c (onResponse r e i c)"
  by (cases r) (auto simp: same_tracking_def say_def removeSession_def queue_session_def Let_def)

lemma same_tracking_response: "same_tracking c (onResponseCb e i c)"
  using same_tracking_get[of c i] same_tracking_onResponse same_tracking_trans
  by (fastforce simp: onResponseCb_def split: prod.split option.split)

lemma options_response: "options_hold p c \<Longrightarrow> options_hold p (onResponseCb e i c)"
  using same_tracking_response[of c e i] by (auto simp: same_tracking_def options_hold_def)

section \<open>Runs\<close>

text \<open>The callbacks leave the client of the API and the options alone.\<close>

lemma hal_say_client [simp]:
  "ga_client (hal_say hs g) = ga_client g" "mLocationOptions (hal_say hs g) = mLocationOptions g"
  by (simp_all add: hal_say_def)

lemma client_callback_client [simp]:
  "ga_client (client_callback x g) = ga_client g" "mLocationOptions (client_callback x g) = mLocationOptions g"
  by (cases x; simp add: onStartTrackingCb_def onStopTrackingCb_def)+

lemma client_callbacks_client [simp]:
  "ga_client (fold client_callback xs g) = ga_client g"
  "mLocationOptions (fold client_callback xs g) = mLocationOptions g"
  by (induction xs arbitrary: g) simp_all

lemma onCapabilitiesCb_client [simp]:
  "ga_client (onCapabilitiesCb m g) = ga_client g" "mLocationOptions (onCapabilitiesCb m g) = mLocationOptions g"
  by (simp_all add: onCapabilitiesCb_def Let_def)

text \<open>What a step of this client is for the client of the API.\<close>

fun client_events :: "hal_env \<Rightarrow> hal_event \<Rightarrow> gnss_api_client \<Rightarrow> client_event list" where
  "client_events w (HalUpdateCallbacks a b x) g = [SetCallbacks False False]"
| "client_events w HalStart g = [StartTracking (mLocationOptions g)]"
| "client_events w HalStop g = [StopTracking]"
| "client_events w (HalSetMode m r i a) g = [UpdateTracking (mLocationOptions (snd (gnssSetPositionMode w m r i a g)))]"
| "client_events w (HalNiRespond i r) g = (case user_response r of None \<Rightarrow> [] | Some x \<Rightarrow> [NiResponse i x])"
| "client_events w (ApiResponse e i) g = [Response e i]"
| "client_events w _ g = []"

lemmas hal_defs = gnssUpdateCallbacks_def gnssStart_def gnssStop_def gnssSetPositionMode_def gnssNiRespond_def
  gnssDeleteAidingData_def gnssEnable_def gnssDisable_def gnssConfigurationUpdate_def with_control_def
  requestCapabilities_def api_response_def onTrackingCb_def onGnssNiCb_def onGnssSvCb_def onGnssNmeaCb_def

lemma hal_step_client:
  "client_run (he_api w) (client_events w e g) (ga_client g) = Some (ga_client (hal_step w e g))"
  by (cases e) (simp_all add: hal_defs Let_def split: option.split)

lemma hal_step_options:
  "options_hold (mLocationOptions g) (ga_client g) \<Longrightarrow>
   options_hold (mLocationOptions (hal_step w e g)) (ga_client (hal_step w e g))"
  by (cases e)
    (auto simp: hal_defs Let_def options_setCallbacks options_start options_stop options_update options_ni
      options_response split: option.split)

lemma client_run_append:
  "client_run w (xs @ ys) c = Option.bind (client_run w xs c) (client_run w ys)"
  by (induction xs arbitrary: c) (auto split: bind_splits)

fun hal_client_events :: "hal_env \<Rightarrow> hal_event list \<Rightarrow> gnss_api_client \<Rightarrow> client_event list" where
  "hal_client_events w [] g = []"
| "hal_client_events w (e # es) g = client_events w e g @ hal_client_events w es (hal_step w e g)"

lemma hal_run_client:
  "client_run (he_api w) (hal_client_events w es g) (ga_client g) = Some (ga_client (hal_run w es g))"
  by (induction es arbitrary: g) (simp_all add: hal_run_def client_run_append hal_step_client)

lemma hal_run_options:
  "options_hold (mLocationOptions g) (ga_client g) \<Longrightarrow>
   options_hold (mLocationOptions (hal_run w es g)) (ga_client (hal_run w es g))"
  by (induction es arbitrary: g) (simp_all add: hal_run_def hal_step_options)

text \<open>The options that Android set last, read off the requests alone.\<close>

fun options_of_request :: "hal_env \<Rightarrow> hal_event \<Rightarrow> LocationOptions \<Rightarrow> LocationOptions" where
  "options_of_request w (HalSetMode m r i a) p =
     \<lparr>lo_size = he_sizeof_options w, minInterval = (if r = RECURRENCE_SINGLE then 0xFFFFFFFF else i), minDistance = a,
      lo_mode = (if m = MS_BASED then GNSS_SUPL_MODE_MSB else if m = MS_ASSISTED then GNSS_SUPL_MODE_MSA
        else GNSS_SUPL_MODE_STANDALONE)\<rparr>"
| "options_of_request w _ p = p"

definition options_set_last :: "hal_env \<Rightarrow> hal_event list \<Rightarrow> LocationOptions" where
  "options_set_last w es = fold (options_of_request w) es
     \<lparr>lo_size = he_sizeof_options w, minInterval = 1000, minDistance = 0, lo_mode = GNSS_SUPL_MODE_STANDALONE\<rparr>"

lemma hal_step_request: "mLocationOptions (hal_step w e g) = options_of_request w e (mLocationOptions g)"
  by (cases e) (auto simp: hal_defs Let_def split: option.split GnssPositionMode.split)

lemma hal_run_request: "mLocationOptions (hal_run w es g) = fold (options_of_request w) es (mLocationOptions g)"
  by (induction es arbitrary: g) (simp_all add: hal_run_def hal_step_request)

text \<open>
  C38: Whatever Android asks for and the API answers, in any order, the client of the location API is in a state that its
  own operations lead to, and while a session with an id is running, the options that the API was given last
  are those that Android set last.
\<close>

theorem android_options_in_force:
  assumes "g = hal_run w es (GnssAPIClient_new w created sizeof_config gpsCb niCb ext)"
    and "mTracking (ga_client g)" "queue_session (ga_client g) REQUEST_TRACKING > 0"
  shows "options_in_force (api (ga_client g)) = Some (options_set_last w es) \<and>
    client_run (he_api w) (SetCallbacks False False #
      hal_client_events w es (GnssAPIClient_new w created sizeof_config gpsCb niCb ext)) client_new = Some (ga_client g)"
proof -
  let ?g0 = "GnssAPIClient_new w created sizeof_config gpsCb niCb ext"
  have c: "ga_client ?g0 = locAPISetCallbacks (he_api w) False False client_new"
    by (simp add: GnssAPIClient_new_def gnssUpdateCallbacks_def)
  have "options_hold p client_new" for p by (simp add: options_hold_def client_new_def)
  then have "options_hold (mLocationOptions ?g0) (ga_client ?g0)" by (simp add: c options_setCallbacks)
  then have "options_hold (mLocationOptions g) (ga_client g)" unfolding assms(1) by (rule hal_run_options)
  moreover have "mLocationOptions g = options_set_last w es"
    by (simp add: assms(1) hal_run_request options_set_last_def GnssAPIClient_new_def gnssUpdateCallbacks_def)
  ultimately show ?thesis
    using assms(2,3) hal_run_client[of w es ?g0] by (simp add: options_hold_def assms(1) c)
qed

definition demo_hal :: hal_env where
  "demo_hal =
     \<lparr>he_api = \<lparr>api_created = (\<lambda>_ _. True), api_session = (\<lambda>_ _. 5), api_sessions = (\<lambda>_ _. None)\<rparr>,
      he_ctrl = \<lparr>ctrl_session = (\<lambda>_ _. 1), ctrl_ids = (\<lambda>_ _. True)\<rparr>, he_svs_max = 64, he_aiding_bytes = (\<lambda>_. []),
      he_sizeof_options = 24\<rparr>"

definition demo_requests :: "hal_event list" where
  "demo_requests =
     [HalSetMode MS_BASED RECURRENCE_PERIODIC 500 0, HalStart, ApiResponse LOCATION_ERROR_SUCCESS 5,
      HalSetMode MS_ASSISTED RECURRENCE_SINGLE 0 10]"

theorem android_options_in_force_witness:
  "options_in_force (api (ga_client (hal_run demo_hal demo_requests (GnssAPIClient_new demo_hal True 0 True False False)))) =
    Some \<lparr>lo_size = 24, minInterval = 0xFFFFFFFF, minDistance = 10, lo_mode = GNSS_SUPL_MODE_MSA\<rparr>"
proof -
  let ?g = "hal_run demo_hal demo_requests (GnssAPIClient_new demo_hal True 0 True False False)"
  have "mTracking (ga_client ?g)" "queue_session (ga_client ?g) REQUEST_TRACKING = 5" by code_simp+
  then show ?thesis
    using android_options_in_force[of ?g demo_hal demo_requests True 0 True False False]
    by (simp add: options_set_last_def demo_requests_def demo_hal_def)
qed

text \<open>The answer that Android gives by default is the one the modem would be given at the end of the time.\<close>

theorem default_answer_of_request:
  "mLocationAPI (ga_client g) \<Longrightarrow> nn_timeoutResponse n \<noteq> GNSS_NI_RESPONSE_UNSET \<Longrightarrow>
   api (ga_client (gnssNiRespond i (hn_defaultResponse (hal_ni i n)) g)) =
     api (ga_client g) @ [A_gnssNiResponse i
       (if nn_timeoutResponse n = GNSS_NI_RESPONSE_IGNORE then GNSS_NI_RESPONSE_NO_RESPONSE else nn_timeoutResponse n)]"
  by (cases "nn_timeoutResponse n") (simp_all add: hal_ni_def gnssNiRespond_def locAPIGnssNiResponse_def client_defs)

end
