(* ===== verification/Hal_Geofence.thy ===== *)
theory Hal_Geofence
  imports Hal_Gnss
begin

unbundle bit_operations_syntax

text \<open>
  \<open>gps/android/location_api/GeofenceAPIClient.cpp\<close> and \<open>BatchingAPIClient.cpp\<close>: Android's interfaces for geofences and
  for batches of locations, as clients of the location API. As in \<open>Hal_Gnss\<close>, masks of Android's interface are sets
  of their bits. Whether a client could allocate its arrays is an argument, as in \<open>Client_Base\<close>.
\<close>

section \<open>Geofences\<close>

datatype GeofenceTransition = ENTERED | EXITED | UNCERTAIN

datatype GeofenceStatus = OPERATION_SUCCESS | ERROR_ID_EXISTS | ERROR_ID_UNKNOWN | ERROR_GENERIC

datatype geofence_call =
    H_transition u32 GnssLocation GeofenceTransition u64
  | H_geofenceStatus bool
  | H_add u32 GeofenceStatus
  | H_remove u32 GeofenceStatus
  | H_pause u32 GeofenceStatus
  | H_resume u32 GeofenceStatus

record geofence_client =
  gf_client :: client
  mGnssGeofencingCbIface :: bool
  gf_calls :: "geofence_call list"

definition gf_say :: "geofence_call list \<Rightarrow> geofence_client \<Rightarrow> geofence_client" where
  "gf_say hs g = (if mGnssGeofencingCbIface g then g\<lparr>gf_calls := gf_calls g @ hs\<rparr> else g)"

definition GeofenceAPIClient_new :: "api_world \<Rightarrow> bool \<Rightarrow> geofence_client" where
  "GeofenceAPIClient_new w cb =
     \<lparr>gf_client = locAPISetCallbacks w cb False client_new, mGnssGeofencingCbIface = cb, gf_calls = []\<rparr>"

definition transition_mask :: "GeofenceTransition set \<Rightarrow> GeofenceBreachTypeMask" where
  "transition_mask m =
     (if ENTERED \<in> m then GEOFENCE_BREACH_ENTER_BIT else 0) OR (if EXITED \<in> m then GEOFENCE_BREACH_EXIT_BIT else 0)"

definition add_status :: "LocationError \<Rightarrow> GeofenceStatus" where
  "add_status e =
     (if e = LOCATION_ERROR_SUCCESS then OPERATION_SUCCESS
      else if e = LOCATION_ERROR_ID_EXISTS then ERROR_ID_EXISTS else ERROR_GENERIC)"

definition known_status :: "LocationError \<Rightarrow> GeofenceStatus" where
  "known_status e =
     (if e = LOCATION_ERROR_SUCCESS then OPERATION_SUCCESS
      else if e = LOCATION_ERROR_ID_UNKNOWN then ERROR_ID_UNKNOWN else ERROR_GENERIC)"

definition onAddGeofencesCb :: "LocationError list \<Rightarrow> u32 list \<Rightarrow> geofence_client \<Rightarrow> geofence_client" where
  "onAddGeofencesCb errors ids = gf_say (map2 (\<lambda>e i. H_add i (add_status e)) errors ids)"

definition onRemoveGeofencesCb :: "LocationError list \<Rightarrow> u32 list \<Rightarrow> geofence_client \<Rightarrow> geofence_client" where
  "onRemoveGeofencesCb errors ids = gf_say (map2 (\<lambda>e i. H_remove i (known_status e)) errors ids)"

definition onPauseGeofencesCb :: "LocationError list \<Rightarrow> u32 list \<Rightarrow> geofence_client \<Rightarrow> geofence_client" where
  "onPauseGeofencesCb errors ids = gf_say (map2 (\<lambda>e i. H_pause i (known_status e)) errors ids)"

definition onResumeGeofencesCb :: "LocationError list \<Rightarrow> u32 list \<Rightarrow> geofence_client \<Rightarrow> geofence_client" where
  "onResumeGeofencesCb errors ids = gf_say (map2 (\<lambda>e i. H_resume i (known_status e)) errors ids)"

text \<open>\<open>data\<close> are the coordinates; a failure at once is answered at once.\<close>

definition geofenceAdd ::
  "api_world \<Rightarrow> nat \<Rightarrow> u32 \<Rightarrow> ptr \<Rightarrow> GeofenceTransition set \<Rightarrow> u32 \<Rightarrow> geofence_client \<Rightarrow> geofence_client" where
  "geofenceAdd w sizeof_option geofence_id data monitor_transitions notification_responsiveness_ms g =
     (let options = \<lparr>go_size = sizeof_option, breachTypeMask = transition_mask monitor_transitions,
            responsiveness = notification_responsiveness_ms, dwellTime = 0\<rparr>;
          (err, c) = locAPIAddGeofences w [geofence_id] [options] data (gf_client g);
          g1 = g\<lparr>gf_client := c\<rparr>
      in if err \<noteq> LOCATION_ERROR_SUCCESS then onAddGeofencesCb [err] [geofence_id] g1 else g1)"

definition geofencePause :: "bool \<Rightarrow> u32 \<Rightarrow> geofence_client \<Rightarrow> geofence_client" where
  "geofencePause mem geofence_id g = g\<lparr>gf_client := locAPIPauseGeofences mem [geofence_id] (gf_client g)\<rparr>"

definition geofenceResume :: "bool \<Rightarrow> u32 \<Rightarrow> GeofenceTransition set \<Rightarrow> geofence_client \<Rightarrow> geofence_client" where
  "geofenceResume mem geofence_id monitor_transitions g =
     g\<lparr>gf_client := locAPIResumeGeofences mem [geofence_id] (Some [transition_mask monitor_transitions]) (gf_client g)\<rparr>"

definition geofenceRemove :: "bool \<Rightarrow> u32 \<Rightarrow> geofence_client \<Rightarrow> geofence_client" where
  "geofenceRemove mem geofence_id g = g\<lparr>gf_client := locAPIRemoveGeofences mem [geofence_id] (gf_client g)\<rparr>"

text \<open>Not implemented in the code.\<close>

definition geofenceRemoveAll :: "geofence_client \<Rightarrow> geofence_client" where
  "geofenceRemoveAll g = g"

text \<open>Breaches of another type than these two are left out.\<close>

definition onGeofenceBreachCb ::
  "u32 list \<Rightarrow> Location \<Rightarrow> GeofenceBreachType \<Rightarrow> u64 \<Rightarrow> geofence_client \<Rightarrow> geofence_client" where
  "onGeofenceBreachCb ids l t time =
     gf_say (concat (map (\<lambda>i. case t of
         GEOFENCE_BREACH_ENTER \<Rightarrow> [H_transition i (convertGnssLocation l) ENTERED time]
       | GEOFENCE_BREACH_EXIT \<Rightarrow> [H_transition i (convertGnssLocation l) EXITED time]
       | _ \<Rightarrow> []) ids))"

definition onGeofenceStatusCb :: "bool \<Rightarrow> geofence_client \<Rightarrow> geofence_client" where
  "onGeofenceStatusCb available = gf_say [H_geofenceStatus available]"

text \<open>The callbacks of the base class, with the location and the time of the breach that is being reported.\<close>

fun geofence_callback :: "Location \<Rightarrow> u64 \<Rightarrow> client_cb \<Rightarrow> geofence_client \<Rightarrow> geofence_client" where
  "geofence_callback l t (OnAddGeofences es is) g = onAddGeofencesCb es is g"
| "geofence_callback l t (OnRemoveGeofences es is) g = onRemoveGeofencesCb es is g"
| "geofence_callback l t (OnPauseGeofences es is) g = onPauseGeofencesCb es is g"
| "geofence_callback l t (OnResumeGeofences es is) g = onResumeGeofencesCb es is g"
| "geofence_callback l t (OnGeofenceBreach b is) g = onGeofenceBreachCb is l b t g"
| "geofence_callback l t _ g = g"

section \<open>Batches\<close>

record batching_client =
  bc_client :: client
  mGnssBatchingCbIface :: bool
  bc_capabilities :: u32
  bc_calls :: "GnssLocation list list"

definition mDefaultId :: u32 where "mDefaultId = 0xFFFFFFFF"

definition BatchingAPIClient_new :: "api_world \<Rightarrow> bool \<Rightarrow> batching_client" where
  "BatchingAPIClient_new w cb =
     \<lparr>bc_client = locAPISetCallbacks w False False client_new, mGnssBatchingCbIface = cb, bc_capabilities = 0,
      bc_calls = []\<rparr>"

text \<open>The period is divided towards zero and cut to 32 bits.\<close>

definition convertBatchOption :: "nat \<Rightarrow> int \<Rightarrow> u32 \<Rightarrow> LocationOptions" where
  "convertBatchOption sizeof_options periodNanos capability_mask =
     \<lparr>lo_size = sizeof_options, minInterval = word_of_int (sgn periodNanos * (\<bar>periodNanos\<bar> div 1000000)), minDistance = 0,
      lo_mode =
        (if capability_mask AND 0x40 \<noteq> 0 then GNSS_SUPL_MODE_MSB
         else if capability_mask AND 0x80 \<noteq> 0 then GNSS_SUPL_MODE_MSA else GNSS_SUPL_MODE_STANDALONE)\<rparr>"

definition batch_mode :: "bool \<Rightarrow> SESSION_MODE" where
  "batch_mode wakeup_on_fifo_full = (if wakeup_on_fifo_full then SESSION_MODE_ON_FULL else SESSION_MODE_NONE)"

definition batch_result :: "LocationError \<times> client \<Rightarrow> batching_client \<Rightarrow> int \<times> batching_client" where
  "batch_result r b = (if fst r = LOCATION_ERROR_SUCCESS then 1 else -1, b\<lparr>bc_client := snd r\<rparr>)"

definition batch_getBatchSize :: "int option \<Rightarrow> batching_client \<Rightarrow> int \<times> batching_client" where
  "batch_getBatchSize conf b =
     (let (n, c) = locAPIGetBatchSize conf (bc_client b) in (n, b\<lparr>bc_client := c\<rparr>))"

definition batch_startSession ::
  "api_world \<Rightarrow> nat \<Rightarrow> int \<Rightarrow> bool \<Rightarrow> batching_client \<Rightarrow> int \<times> batching_client" where
  "batch_startSession w sizeof_options periodNanos full b =
     batch_result (locAPIStartSession w mDefaultId (batch_mode full)
       (convertBatchOption sizeof_options periodNanos (bc_capabilities b)) (bc_client b)) b"

definition batch_updateSessionOptions ::
  "api_world \<Rightarrow> nat \<Rightarrow> int \<Rightarrow> bool \<Rightarrow> batching_client \<Rightarrow> int \<times> batching_client" where
  "batch_updateSessionOptions w sizeof_options periodNanos full b =
     batch_result (locAPIUpdateSessionOptions w mDefaultId (batch_mode full)
       (convertBatchOption sizeof_options periodNanos (bc_capabilities b)) (bc_client b)) b"

definition batch_stopSession :: "batching_client \<Rightarrow> int \<times> batching_client" where
  "batch_stopSession b = batch_result (locAPIStopSession mDefaultId (bc_client b)) b"

definition getBatchedLocation :: "nat \<Rightarrow> batching_client \<Rightarrow> batching_client" where
  "getBatchedLocation last_n_locations b =
     b\<lparr>bc_client := snd (locAPIGetBatchedLocations mDefaultId last_n_locations (bc_client b))\<rparr>"

definition flushBatchedLocations :: "batching_client \<Rightarrow> batching_client" where
  "flushBatchedLocations = getBatchedLocation (2 ^ 64 - 1)"

definition batch_onCapabilitiesCb :: "u32 \<Rightarrow> batching_client \<Rightarrow> batching_client" where
  "batch_onCapabilitiesCb m b = b\<lparr>bc_capabilities := m\<rparr>"

definition onBatchingCb :: "Location list \<Rightarrow> batching_client \<Rightarrow> batching_client" where
  "onBatchingCb ls b =
     (if mGnssBatchingCbIface b \<and> ls \<noteq> [] then b\<lparr>bc_calls := bc_calls b @ [map convertGnssLocation ls]\<rparr> else b)"

section \<open>Requests without an answer\<close>

lemma unknown_geofence:
  assumes "bd_getSession i (mGeofenceBiDict c) = 0"
  shows "locAPIPauseGeofences mem [i] c = c" "locAPIResumeGeofences mem [i] ms c = c" "locAPIRemoveGeofences mem [i] c = c"
  using assms
  by (simp_all add: locAPIPauseGeofences_def locAPIResumeGeofences_def locAPIRemoveGeofences_def Let_def)

text \<open>
  C39: A request for a geofence that is not known is not answered: pausing, resuming or removing it changes nothing,
  the location API is not called and Android is not told, though the callbacks have a status for an unknown id.
\<close>

theorem unknown_geofence_unanswered:
  assumes "bd_getSession i (mGeofenceBiDict (gf_client g)) = 0"
  shows "geofencePause mem i g = g \<and> geofenceResume mem i m g = g \<and> geofenceRemove mem i g = g"
  using unknown_geofence[OF assms] by (simp add: geofencePause_def geofenceResume_def geofenceRemove_def)

definition demo_fences :: geofence_client where
  "demo_fences =
     (let w = \<lparr>api_created = (\<lambda>_ _. True), api_session = (\<lambda>_ _. 5), api_sessions = (\<lambda>_ _. Some [3])\<rparr>
      in geofenceAdd w 16 7 1 {ENTERED} 1000 (GeofenceAPIClient_new w True))"

theorem unknown_geofence_unanswered_witness:
  "geofenceRemove True 9 demo_fences = demo_fences \<and> api (gf_client (geofenceRemove True 7 demo_fences)) =
     api (gf_client demo_fences) @ [A_removeGeofences [3]]"
proof -
  have "bd_getSession 9 (mGeofenceBiDict (gf_client demo_fences)) = 0" by code_simp
  from unknown_geofence_unanswered[OF this, of True "{}"] have "geofenceRemove True 9 demo_fences = demo_fences" by simp
  moreover have "api (gf_client (geofenceRemove True 7 demo_fences)) = api (gf_client demo_fences) @ [A_removeGeofences [3]]"
    by code_simp
  ultimately show ?thesis by simp
qed

end
