(* ===== verification/Spec2Isabelle.thy ===== *)
theory Spec2Isabelle
  imports Loc_Timer Msg_Q Agps Client_Proofs Tracking_Proofs System_Status_Proofs Os_Observer_Proofs
    Utf_Proofs Api_Proofs Ni_Proofs Gnss_Odcpi Control_Proofs Report_Proofs Loc_Api_Proofs
    Proc_Conf_Proofs Nmea_Proofs Ipc_Proofs Gnss_Agps Debug_Proofs
    Hal_Proofs Hal_Geofence
begin

text \<open>
  A model of the native code of the device tree of the OnePlus 3: most of it is the GPS hardware
  abstraction layer under \<open>gps/\<close>, a C++ program, and this development is about that program and
  about the string conversions of \<open>libshims/\<close>.

  \<^bold>\<open>The program.\<close> Android's location service talks to the HAL through binder interfaces
  (\<open>gps/android\<close>), which turn each call into calls of a client of the location API
  (\<open>gps/location/LocationAPIClientBase.cpp\<close>, \<open>LocationAPI.cpp\<close>). The API loads up to three
  libraries and hands the calls to them; the one in the repository is the GNSS adapter
  (\<open>gps/gnss/GnssAdapter.cpp\<close>), whose public functions post messages to one thread
  (\<open>gps/utils/msg_q.c\<close> on top of \<open>linked_list.c\<close>), where they are handled in order. The adapter
  multiplexes the tracking sessions of all clients on the one session of the modem, connects the
  modem to a data network through the AGPS state machines (\<open>Agps.cpp\<close>), and hands what the modem
  and the framework report to the system status (\<open>gps/core/SystemStatus.cpp\<close>) and its observer
  (\<open>SystemStatusOsObserver.cpp\<close>). Timers of all parts run on one service (\<open>gps/utils/LocTimer.cpp\<close>)
  that keeps them in a ranked heap (\<open>LocHeap.cpp\<close>).

  \<^bold>\<open>The theories.\<close>
  \<^item> \<open>Prelude\<close>: widths of the machine integers, environments that answer calls, lists.
  \<^item> \<open>Loc_Heap\<close> (\<open>LocHeap.cpp\<close>, \<open>LocHeap.h\<close>): a tree of nodes with stored sizes; \<open>LocHeap_push\<close>,
    \<open>LocHeap_pop\<close>, \<open>LocHeap_remove\<close>. The rank of a type is a parameter; the locale \<open>ranked\<close> states
    what it needs and gives the contract \<open>rank_queue\<close> of a priority queue.
  \<^item> \<open>Loc_Timer\<close> (\<open>LocTimer.cpp\<close>): clients, delegates, the container and its messages as a step
    relation. It interprets \<open>ranked\<close> with the delegates' order of expiry.
  \<^item> \<open>Linked_List\<close> (\<open>linked_list.c\<close>): a memory of elements with next and previous pointers; the
    abstract view is a list. The locale \<open>fifo_queue\<close> is what a queue promises.
  \<^item> \<open>Msg_Q\<close> (\<open>msg_q.c\<close>): the operations as steps of senders and receivers, the condition variable
    included. It uses the list through \<open>fifo_queue\<close> and interprets it again for its own queue.
  \<^item> \<open>Agps\<close> (\<open>Agps.cpp\<close>, \<open>Agps.h\<close>): the two kinds of state machine, their subscribers and the
    manager. The locale \<open>agps_vtable\<close> is the interface through which the base class calls its
    virtual functions; it is interpreted for both classes.
  \<^item> \<open>Std_Map\<close>, \<open>Unordered_Set_Map\<close>: \<open>std::map\<close> as a sorted association list, and
    \<open>LocUnorderedSetMap.h\<close>, whose iteration order is an argument.
  \<^item> \<open>Location_Types\<close>, \<open>Bi_Dict\<close>, \<open>Client_Base\<close>, \<open>Client_Proofs\<close> (\<open>LocationAPI.h\<close>,
    \<open>LocationAPIClientBase.h\<close> and \<open>.cpp\<close>): the client's dictionary of sessions, its queues of
    pending requests, and every request and response callback, control requests included. The
    locale \<open>id_table\<close> is what the client needs of the dictionary.
  \<^item> \<open>Location_Api\<close>, \<open>Api_Proofs\<close> (\<open>LocationAPI.cpp\<close>): loading the libraries, routing of calls.
  \<^item> \<open>Gnss_Tracking\<close>, \<open>Tracking_Proofs\<close> (tracking part of \<open>GnssAdapter.cpp\<close>, session ids of
    \<open>LocAdapterBase.cpp\<close>): clients, sessions, the multiplexer.
  \<^item> \<open>Data_Items\<close>, \<open>System_Status\<close>, \<open>System_Status_Proofs\<close> (\<open>gps/core/data-items\<close>,
    \<open>SystemStatus.cpp\<close>): histories of reports, the parser of the modem's debug sentences.
  \<^item> \<open>Os_Observer\<close>, \<open>Os_Observer_Proofs\<close> (\<open>SystemStatusOsObserver.cpp\<close>): subscriptions to data items
    and notification, over the locale \<open>set_table\<close> of \<open>Unordered_Set_Map\<close>.
  \<^item> \<open>Gnss_Ni\<close>, \<open>Ni_Proofs\<close> (network-initiated requests of \<open>GnssAdapter.cpp\<close>): the two sessions, a
    thread per request that waits for an answer or the end of its time, and the mutex of a session.
  \<^item> \<open>Gnss_Odcpi\<close> (on-demand coarse positions of \<open>GnssAdapter.cpp\<close>): requests to the framework and
    the timer that spaces them.
  \<^item> \<open>Gnss_Control\<close>, \<open>Control_Proofs\<close> (control commands and configuration of \<open>GnssAdapter.cpp\<close>):
    enabling and disabling, the GPS lock, configuration commands and their answers, the SUPL server,
    the capabilities, and what is sent again after a restart of the modem.
  \<^item> \<open>Gnss_Reports\<close>, \<open>Report_Proofs\<close> (reports of \<open>GnssAdapter.cpp\<close>): positions, satellites, NMEA
    sentences and measurements from the modem's event to the clients' callbacks.
  \<^item> \<open>Loc_Nmea\<close>, \<open>Nmea_Proofs\<close> (\<open>loc_nmea.cpp\<close>): the NMEA sentences of positions and satellites, and that
    they reach the clients of \<open>Gnss_Reports\<close> as valid sentences.
  \<^item> \<open>Loc_Api_Base\<close>, \<open>Loc_Api_Proofs\<close> (\<open>LocApiBase.cpp\<close>, registration in \<open>LocAdapterBase\<close>): the table
    of adapters and what of the modem's reports each gets. The locale \<open>adapter_registry\<close> is what the
    memory of the adapters needs of the table.
  \<^item> \<open>C_Strings\<close>: the functions of the C library on strings that the code uses (\<open>strtol\<close>,
    \<open>strlcpy\<close>, \<open>strtok_r\<close>, \<open>fgets\<close>).
  \<^item> \<open>Loc_Cfg\<close>, \<open>Cfg_Proofs\<close> (\<open>loc_cfg.cpp\<close>, string helpers of \<open>loc_misc_utils.cpp\<close>): reading a
    configuration file into the variables of a table, and updating them from a text.
  \<^item> \<open>Proc_Conf\<close>, \<open>Proc_Conf_Proofs\<close> (\<open>loc_read_process_conf\<close> in \<open>loc_cfg.cpp\<close>): which processes the
    launcher starts on this device, with which groups and arguments.
  \<^item> \<open>Loc_Ipc\<close>, \<open>Ipc_Proofs\<close> (\<open>LocIpc.cpp\<close>): messages over local sockets, in one datagram or in parts, and
    the buffer of the listener.
  \<^item> \<open>Gnss_Agps\<close> (AGPS part of \<open>GnssAdapter.cpp\<close>): the messages through which the modem, the framework and
    the library for network interfaces reach the manager of \<open>Agps\<close>, as a queue in front of it.
  \<^item> \<open>Location_Util\<close>, \<open>Gnss_Debug\<close>, \<open>Debug_Proofs\<close> (\<open>LocationUtil.cpp\<close>, debug report and gain control of
    \<open>GnssAdapter.cpp\<close>, \<open>gps/android/GnssDebug.cpp\<close>): the latest reports of \<open>System_Status\<close> as Android's
    debug data, from the modem's sentence on.
  \<^item> \<open>Hal_Gnss\<close>, \<open>Hal_Proofs\<close>, \<open>Hal_Geofence\<close> (\<open>GnssAPIClient.cpp\<close>, \<open>GeofenceAPIClient.cpp\<close>,
    \<open>BatchingAPIClient.cpp\<close>): Android's interfaces as clients of \<open>Client_Base\<close>, and what Android is told.
  \<^item> \<open>Utf_Shims\<close>, \<open>Utf_Proofs\<close> (\<open>libshims/strdup8to16.cpp\<close>, \<open>strdup16to8.cpp\<close>).

  \<^bold>\<open>How state and effects are modelled.\<close> A structure is a record with the source's field names. A
  message of the adapter's thread, and a function that holds a mutex from its first to its last
  access, is one step (an answer to a network-initiated request reads its session in one step and
  stores in another, as only the store is under the mutex); a run is a list of steps in any order, so every interleaving of threads is
  covered. Calls that leave the modelled code are entries of a log; where they return a value, an
  environment (an argument) answers. Memory that the source follows pointers into is a map from
  addresses (\<open>Linked_List\<close>) or an identity (delegates of \<open>Loc_Timer\<close>, subscribers of \<open>Agps\<close>); a
  NULL, dangling or freed pointer that is followed is \<open>None\<close>, and reads of freed memory are answered by
  the environment where the code goes on after them. Integers are words at the width of the source
  where they wrap or are masked; C's \<open>long\<close> has 64 bits. Floating-point numbers are bit patterns with
  the operations on them a parameter. Hash containers iterate in an order that is an argument. An
  array with its count is a list. A text stored in a variable that is too short for it is an entry of a list of
  overruns; what it does to the memory behind the variable is not modelled. A file is its contents. A clock that is read is an argument of the operation.

  \<^bold>\<open>What is shown.\<close> The invariants say what each component keeps whatever the order of the calls:
  the heap's order and sizes; no use of a freed timer and no lost or repeated callback; queue
  order and wake-up; the AGPS machines' relation between state, subscribers and the framework; the
  client's sessions; the modem serving the smallest interval; the observer's two tables and the
  framework's; each network-initiated request answered and freed once; the modem's lock following the
  vote for power; requests for a coarse position a period apart. A configuration file sets what it names, and
  the launcher's decision is stated without the masks and loops of the code. The satellite health in Android's
  debug data is that of the modem's sentence. Equivalences and refinements compare the code with a reference: a list for the
  linked list and the queue, the last five runs for a history, standard UTF-8 for the conversions.
  Round trips print and parse a debug sentence, send and receive messages over a socket, and convert UTF-16 to
  UTF-8 and back. A last group
  exhibits runs in which the code does not do what it means to, each a theorem about a concrete run
  or about all runs of a kind.

  \<^bold>\<open>Bounds and fuel.\<close> There is no fuel: loops that need not end are \<open>partial_function (option)\<close>
  (\<open>linked_list_flush\<close>, \<open>strcpylen8to16\<close>) and their ending is proved or characterised; all other
  recursion is structural or has a measure. Bounds that are hypotheses are those of the types (times
  that fit an \<open>int\<close>, fewer than \<open>2 ^ 32 - 2\<close> sessions).

  \<^bold>\<open>Not modelled.\<close> The binder services of \<open>gps/android\<close> (forwarding, but for the debug data) and its client for
  measurements (copies of fields), XTRA (\<open>XtraSystemStatusObserver\<close>), logging, the interface tables, library
  loading inside \<open>DataItemsFactoryProxy\<close> and the contexts. Outside \<open>gps/\<close>, the HALs for lights, touch, thermal and VR read and write
  files of the kernel. The manifest lists each with its reason.
\<close>

end
